(* ===== verification/Prelude.thy ===== *)
theory Prelude
  imports Main "HOL-Library.Word"
begin

text \<open>
  Shared vocabulary of the development: the model's names for Rust's machine
  types, the outcome of a Rust call (a value, an error value, or a panic), the
  little- and big-endian encoders and the cursor readers of the \<open>bytes\<close> crate
  that the wire formats use, the string functions of the standard library that
  the policy code uses, and the lemmas about them that every component shares.

  A Rust \<open>String\<close> is its UTF-8 byte sequence, written as a HOL \<open>string\<close>
  (\<open>char\<close> is one byte), so \<open>len\<close>, slicing, prefix and suffix tests and the ASCII
  case mapping are those of the source.
\<close>

named_theorems wire_simps \<open>encoders against cursor readers\<close>
named_theorems str_simps \<open>string functions of the standard library\<close>


section \<open>Machine types and outcomes\<close>

type_synonym byte = "8 word"
type_synonym bytes = "8 word list"
type_synonym u8 = "8 word"
type_synonym u16 = "16 word"
type_synonym u32 = "32 word"
type_synonym u64 = "64 word"

text \<open>
  What a fallible Rust function does: \<open>Ok\<close> with a value, \<open>Err\<close> with an error, or
  a panic (a cursor read past the end, a slice out of range).
\<close>

datatype ('e, 'a) outcome = Ok 'a | Err 'e | Panic

fun is_ok :: "('e, 'a) outcome \<Rightarrow> bool" where
  "is_ok (Ok _) = True"
| "is_ok _ = False"

text \<open>The \<open>?\<close> operator.\<close>

fun and_then :: "('e, 'a) outcome \<Rightarrow> ('a \<Rightarrow> ('e, 'b) outcome) \<Rightarrow> ('e, 'b) outcome" where
  "and_then (Ok a) k = k a"
| "and_then (Err e) k = Err e"
| "and_then Panic k = Panic"

lemma and_then_eq_Ok [simp]: "and_then m k = Ok b \<longleftrightarrow> (\<exists>a. m = Ok a \<and> k a = Ok b)"
  by (cases m) auto

lemma is_ok_iff: "is_ok m \<longleftrightarrow> (\<exists>a. m = Ok a)"
  by (cases m) auto


lemma nth_update_eq: "c < length xs \<Longrightarrow> xs[i := y] ! c = (if i = c then y else xs ! c)"
  by (cases "i = c") simp_all

lemma map_of_replace_value:
  "map_of (map (\<lambda>e. if fst e = k then (k, v) else e) kvs) l
    = (if k = l then (if map_of kvs l = None then None else Some v) else map_of kvs l)"
  by (induction kvs) auto

lemma map_of_snoc:
  "map_of kvs k = None \<Longrightarrow> map_of (kvs @ [(k, v)]) l = (if k = l then Some v else map_of kvs l)"
  by (induction kvs) (auto split: if_splits)

lemma drop_Cons_length:
  assumes "drop n xs = y # ys"
  shows "length xs = n + Suc (length ys)"
proof -
  have "length xs - n = Suc (length ys)"
    by (metis assms length_Cons length_drop)
  then show ?thesis
    by simp
qed


section \<open>Integers as bytes\<close>

fun nat_to_le :: "nat \<Rightarrow> nat \<Rightarrow> bytes" where
  "nat_to_le 0 k = []"
| "nat_to_le (Suc n) k = of_nat k # nat_to_le n (k div 256)"

fun le_to_nat :: "bytes \<Rightarrow> nat" where
  "le_to_nat [] = 0"
| "le_to_nat (b # bs) = unat b + 256 * le_to_nat bs"

lemma length_nat_to_le [simp]: "length (nat_to_le n k) = n"
  by (induction n arbitrary: k) auto

lemma nat_to_le_unfold:
  "nat_to_le 2 k = [of_nat k, of_nat (k div 256)]"
  "nat_to_le 4 k = [of_nat k, of_nat (k div 256), of_nat (k div 256 div 256),
     of_nat (k div 256 div 256 div 256)]"
proof -
  have "(2 :: nat) = Suc (Suc 0)" and "(4 :: nat) = Suc (Suc (Suc (Suc 0)))"
    by simp_all
  then show "nat_to_le 2 k = [of_nat k, of_nat (k div 256)]"
    and "nat_to_le 4 k = [of_nat k, of_nat (k div 256), of_nat (k div 256 div 256),
      of_nat (k div 256 div 256 div 256)]"
    by (simp_all only: nat_to_le.simps)
qed

lemma unat_bound: "unat (w :: 'w::len word) < 2 ^ LENGTH('w)"
  by (rule unsigned_less)

lemma of_nat_unat_byte: "of_nat (unat b) = (b :: byte)"
  by simp

lemma unat_byte_of_nat: "unat (of_nat k :: byte) = k mod 256"
  by (simp add: unat_of_nat)

lemma le_to_nat_nat_to_le: "le_to_nat (nat_to_le n k) = k mod 256 ^ n"
proof (induction n arbitrary: k)
  case (Suc n)
  have "k mod 256 + 256 * (k div 256 mod 256 ^ n) = k mod (256 * 256 ^ n)"
    by (simp add: mod_mult2_eq)
  then show ?case
    by (simp add: Suc unat_byte_of_nat)
qed simp

lemma le_to_nat_bound: "le_to_nat bs < 256 ^ length bs"
proof (induction bs)
  case (Cons b bs)
  have "unat b < 256"
    using unat_bound [of b] by simp
  then have "unat b + 256 * le_to_nat bs < 256 + 256 * le_to_nat bs"
    by simp
  also have "\<dots> \<le> 256 * 256 ^ length bs"
    using Cons by (simp add: Suc_le_eq flip: mult_Suc_right)
  finally show ?case
    by simp
qed simp

lemma nat_to_le_le_to_nat: "nat_to_le (length bs) (le_to_nat bs) = bs"
proof (induction bs)
  case (Cons b bs)
  have b: "unat b < 256"
    using unat_bound [of b] by simp
  then have "(unat b + 256 * le_to_nat bs) div 256 = le_to_nat bs"
    by simp
  moreover have "of_nat (unat b + 256 * le_to_nat bs) = b"
  proof -
    have "(256 :: byte) = 0"
      by simp
    then show ?thesis
      by (simp only: of_nat_add of_nat_mult of_nat_numeral of_nat_unat_byte mult_zero_left add_0_right)
  qed
  ultimately show ?case
    using Cons by simp
qed simp

definition put_u16_le :: "u16 \<Rightarrow> bytes" where "put_u16_le x = nat_to_le 2 (unat x)"
definition put_u32_le :: "u32 \<Rightarrow> bytes" where "put_u32_le x = nat_to_le 4 (unat x)"
definition put_u64_le :: "u64 \<Rightarrow> bytes" where "put_u64_le x = nat_to_le 8 (unat x)"
definition put_u16_be :: "u16 \<Rightarrow> bytes" where "put_u16_be x = rev (nat_to_le 2 (unat x))"
definition put_u32_be :: "u32 \<Rightarrow> bytes" where "put_u32_be x = rev (nat_to_le 4 (unat x))"

definition u16_from_le :: "bytes \<Rightarrow> u16" where "u16_from_le bs = of_nat (le_to_nat bs)"
definition u32_from_le :: "bytes \<Rightarrow> u32" where "u32_from_le bs = of_nat (le_to_nat bs)"
definition u64_from_le :: "bytes \<Rightarrow> u64" where "u64_from_le bs = of_nat (le_to_nat bs)"
definition u16_from_be :: "bytes \<Rightarrow> u16" where "u16_from_be bs = of_nat (le_to_nat (rev bs))"
definition u32_from_be :: "bytes \<Rightarrow> u32" where "u32_from_be bs = of_nat (le_to_nat (rev bs))"

lemmas put_defs = put_u16_le_def put_u32_le_def put_u64_le_def put_u16_be_def put_u32_be_def
lemmas from_defs = u16_from_le_def u32_from_le_def u64_from_le_def u16_from_be_def u32_from_be_def

lemma length_put [simp]:
  "length (put_u16_le a) = 2" "length (put_u32_le b) = 4" "length (put_u64_le c) = 8"
  "length (put_u16_be d) = 2" "length (put_u32_be e) = 4"
  by (simp_all add: put_defs)

lemma from_put [simp]:
  "u16_from_le (put_u16_le a) = a" "u32_from_le (put_u32_le b) = b"
  "u64_from_le (put_u64_le c) = c"
  "u16_from_be (put_u16_be d) = d" "u32_from_be (put_u32_be e) = e"
  using unat_bound [of a] unat_bound [of b] unat_bound [of c] unat_bound [of d] unat_bound [of e]
  by (simp_all add: put_defs from_defs le_to_nat_nat_to_le)

lemma u32_from_be_put_take [simp]:
  "u32_from_be (take 4 (put_u32_be x @ r)) = x"
  by simp

lemma unat_u32_from_be: "length bs = 4 \<Longrightarrow> unat (u32_from_be bs) = le_to_nat (rev bs)"
  using le_to_nat_bound [of "rev bs"] by (simp add: u32_from_be_def unat_of_nat)

lemma put_u32_be_from_be: "length bs = 4 \<Longrightarrow> put_u32_be (u32_from_be bs) = bs"
  using nat_to_le_le_to_nat [of "rev bs"] by (simp add: put_u32_be_def unat_u32_from_be)


section \<open>Cursor readers\<close>

text \<open>
  \<open>Buf::get_*\<close> and \<open>BytesMut::split_to\<close> advance the buffer and panic when it is
  too short; each reader passes the value and the rest of the buffer on.
\<close>

type_synonym ('v, 'e, 'a) reader = "bytes \<Rightarrow> ('v \<Rightarrow> bytes \<Rightarrow> ('e, 'a) outcome) \<Rightarrow> ('e, 'a) outcome"

definition split_to :: "nat \<Rightarrow> (bytes, 'e, 'a) reader" where
  "split_to n p k = (if length p < n then Panic else k (take n p) (drop n p))"

definition get_u8 :: "(u8, 'e, 'a) reader" where
  "get_u8 p k = (case p of [] \<Rightarrow> Panic | b # r \<Rightarrow> k b r)"

definition get_u16_le :: "(u16, 'e, 'a) reader" where
  "get_u16_le p k = split_to 2 p (\<lambda>bs. k (u16_from_le bs))"

definition get_u32_le :: "(u32, 'e, 'a) reader" where
  "get_u32_le p k = split_to 4 p (\<lambda>bs. k (u32_from_le bs))"

definition get_u64_le :: "(u64, 'e, 'a) reader" where
  "get_u64_le p k = split_to 8 p (\<lambda>bs. k (u64_from_le bs))"

definition get_u32_be :: "(u32, 'e, 'a) reader" where
  "get_u32_be p k = split_to 4 p (\<lambda>bs. k (u32_from_be bs))"

lemma split_to_append [wire_simps]: "length bs = n \<Longrightarrow> split_to n (bs @ r) k = k bs r"
  by (simp add: split_to_def)

lemma split_to_all [wire_simps]: "length bs = n \<Longrightarrow> split_to n bs k = k bs []"
  by (simp add: split_to_def)

lemma get_put [wire_simps]:
  "get_u8 (b # r) kb = kb b r"
  "get_u16_le (put_u16_le x @ r) k16 = k16 x r"
  "get_u32_le (put_u32_le y @ r) k32 = k32 y r"
  "get_u64_le (put_u64_le z @ r) k64 = k64 z r"
  "get_u32_be (put_u32_be y @ r) k32 = k32 y r"
  by (simp_all add: get_u8_def get_u16_le_def get_u32_le_def get_u64_le_def get_u32_be_def
      wire_simps)

lemma get_put_all [wire_simps]:
  "get_u16_le (put_u16_le x) k16 = k16 x []"
  "get_u32_le (put_u32_le y) k32 = k32 y []"
  "get_u64_le (put_u64_le z) k64 = k64 z []"
  using get_put(2-4) [of _ "[]"] by simp_all


section \<open>Strings\<close>

definition str_bytes :: "string \<Rightarrow> bytes" where
  "str_bytes s = map (\<lambda>c. of_nat (of_char c)) s"

definition bytes_str :: "bytes \<Rightarrow> string" where
  "bytes_str bs = map (\<lambda>b. char_of (unat b)) bs"

lemma length_str_bytes [simp]: "length (str_bytes s) = length s"
  by (simp add: str_bytes_def)

lemma char_of_byte [simp]: "char_of (unat (of_nat (of_char c) :: byte)) = c"
proof -
  have "(of_char c :: nat) < 256"
    by simp
  then show ?thesis
    by (simp add: unat_byte_of_nat)
qed

lemma bytes_str_str_bytes [simp]: "bytes_str (str_bytes s) = s"
  by (simp add: bytes_str_def str_bytes_def comp_def)

lemma str_bytes_inject [simp]: "str_bytes s = str_bytes t \<longleftrightarrow> s = t"
  by (metis bytes_str_str_bytes)

text \<open>
  \<open>String::from_utf8\<close> accepts exactly the well-formed UTF-8 sequences: no
  overlong forms, no surrogates, nothing above U+10FFFF.
\<close>

definition is_cont :: "byte \<Rightarrow> bool" where "is_cont b \<longleftrightarrow> 0x80 \<le> b \<and> b \<le> 0xBF"

fun valid_utf8 :: "bytes \<Rightarrow> bool" where
  "valid_utf8 [] = True"
| "valid_utf8 (a # bs) =
    (if a \<le> 0x7F then valid_utf8 bs
     else if 0xC2 \<le> a \<and> a \<le> 0xDF then
       (case bs of b # r \<Rightarrow> is_cont b \<and> valid_utf8 r | _ \<Rightarrow> False)
     else if 0xE0 \<le> a \<and> a \<le> 0xEF then
       (case bs of b # c # r \<Rightarrow>
          is_cont b \<and> is_cont c \<and> (a = 0xE0 \<longrightarrow> 0xA0 \<le> b) \<and> (a = 0xED \<longrightarrow> b \<le> 0x9F)
          \<and> valid_utf8 r
        | _ \<Rightarrow> False)
     else if 0xF0 \<le> a \<and> a \<le> 0xF4 then
       (case bs of b # c # d # r \<Rightarrow>
          is_cont b \<and> is_cont c \<and> is_cont d \<and> (a = 0xF0 \<longrightarrow> 0x90 \<le> b)
          \<and> (a = 0xF4 \<longrightarrow> b \<le> 0x8F) \<and> valid_utf8 r
        | _ \<Rightarrow> False)
     else False)"

definition from_utf8 :: "'e \<Rightarrow> bytes \<Rightarrow> ('e, string) outcome" where
  "from_utf8 e bs = (if valid_utf8 bs then Ok (bytes_str bs) else Err e)"

text \<open>A value of type \<open>String\<close> is valid UTF-8.\<close>

definition rust_string :: "string \<Rightarrow> bool" where
  "rust_string s \<longleftrightarrow> valid_utf8 (str_bytes s)"

definition is_ascii :: "string \<Rightarrow> bool" where
  "is_ascii s \<longleftrightarrow> list_all (\<lambda>c. (of_char c :: nat) < 128) s"

lemma from_utf8_str_bytes [wire_simps]: "rust_string s \<Longrightarrow> from_utf8 e (str_bytes s) = Ok s"
  by (simp add: from_utf8_def rust_string_def)

text \<open>
  \<open>String::from_utf8_lossy\<close>: every maximal ill-formed part becomes U+FFFD.
  \<open>utf8_step a bs\<close> looks at the sequence that starts with \<open>a\<close>: whether it is
  well formed, and how many of the bytes after \<open>a\<close> belong to it.
\<close>

definition second_of_3 :: "byte \<Rightarrow> byte \<Rightarrow> bool" where
  "second_of_3 a b \<longleftrightarrow> is_cont b \<and> (a = 0xE0 \<longrightarrow> 0xA0 \<le> b) \<and> (a = 0xED \<longrightarrow> b \<le> 0x9F)"

definition second_of_4 :: "byte \<Rightarrow> byte \<Rightarrow> bool" where
  "second_of_4 a b \<longleftrightarrow> is_cont b \<and> (a = 0xF0 \<longrightarrow> 0x90 \<le> b) \<and> (a = 0xF4 \<longrightarrow> b \<le> 0x8F)"

definition utf8_step :: "byte \<Rightarrow> bytes \<Rightarrow> bool \<times> nat" where
  "utf8_step a bs =
    (let run = (\<lambda>ok2. case bs of
         b # r \<Rightarrow> if \<not> ok2 b then 0 else 1 + length (takeWhile is_cont r) | [] \<Rightarrow> 0);
         part = (\<lambda>ok2 n. (n \<le> run ok2, min n (run ok2)))
     in if a \<le> 0x7F then (True, 0)
        else if 0xC2 \<le> a \<and> a \<le> 0xDF then part is_cont 1
        else if 0xE0 \<le> a \<and> a \<le> 0xEF then part (second_of_3 a) 2
        else if 0xF0 \<le> a \<and> a \<le> 0xF4 then part (second_of_4 a) 3
        else (False, 0))"

fun lossy_utf8 :: "bytes \<Rightarrow> bytes" where
  "lossy_utf8 [] = []"
| "lossy_utf8 (a # bs) =
    (let (ok, n) = utf8_step a bs
     in (if ok then a # take n bs else [0xEF, 0xBF, 0xBD]) @ lossy_utf8 (drop n bs))"

definition from_utf8_lossy :: "bytes \<Rightarrow> string" where
  "from_utf8_lossy bs = bytes_str (lossy_utf8 bs)"

lemma utf8_step_valid:
  assumes "valid_utf8 (a # bs)"
  shows "\<exists>n. utf8_step a bs = (True, n) \<and> valid_utf8 (drop n bs)"
proof -
  let ?c1 = "a \<le> 0x7F" and ?c2 = "0xC2 \<le> a \<and> a \<le> 0xDF" and ?c3 = "0xE0 \<le> a \<and> a \<le> 0xEF"
  let ?c4 = "0xF0 \<le> a \<and> a \<le> 0xF4"
  consider (one) ?c1 | (two) "\<not> ?c1" ?c2 | (three) "\<not> ?c1" "\<not> ?c2" ?c3
    | (four) "\<not> ?c1" "\<not> ?c2" "\<not> ?c3" ?c4
    using assms unfolding valid_utf8.simps by argo
  then show ?thesis
  proof cases
    case one
    then show ?thesis using assms by (simp add: utf8_step_def)
  next
    case two
    then obtain b r where "bs = b # r" "is_cont b" "valid_utf8 r"
      using assms by (simp only: valid_utf8.simps if_True if_False) (auto split: list.splits)
    with two show ?thesis
      by (simp only: utf8_step_def Let_def if_True if_False) simp
  next
    case three
    then obtain b c r where "bs = b # c # r" "second_of_3 a b" "is_cont c" "valid_utf8 r"
      using assms by (simp only: valid_utf8.simps if_True if_False) (auto simp: second_of_3_def split: list.splits)
    with three show ?thesis
      by (simp only: utf8_step_def Let_def if_True if_False) simp
  next
    case four
    then obtain b c d r where "bs = b # c # d # r" "second_of_4 a b" "is_cont c" "is_cont d" "valid_utf8 r"
      using assms by (simp only: valid_utf8.simps if_True if_False) (auto simp: second_of_4_def split: list.splits)
    with four show ?thesis
      by (simp only: utf8_step_def Let_def if_True if_False) simp
  qed
qed

lemma lossy_utf8_valid: "valid_utf8 bs \<Longrightarrow> lossy_utf8 bs = bs"
proof (induction bs rule: lossy_utf8.induct)
  case (2 a bs)
  obtain n where n: "utf8_step a bs = (True, n)" "valid_utf8 (drop n bs)"
    using utf8_step_valid [OF 2(2)] by blast
  then show ?case
    using 2(1) [OF n(1) [symmetric] refl] by simp
qed simp

lemma from_utf8_lossy_str [simp]: "rust_string s \<Longrightarrow> from_utf8_lossy (str_bytes s) = s"
  by (simp add: from_utf8_lossy_def rust_string_def lossy_utf8_valid)

lemma ascii_rust_string: "is_ascii s \<Longrightarrow> rust_string s"
proof (induction s)
  case (Cons c s)
  then have "(of_char c :: nat) < 128"
    by (simp add: is_ascii_def)
  then have "(of_nat (of_char c) :: byte) \<le> 0x7F"
    by (simp add: word_le_nat_alt unat_byte_of_nat)
  with Cons show ?case
    by (simp add: is_ascii_def rust_string_def str_bytes_def)
qed (simp add: rust_string_def str_bytes_def)


subsection \<open>Prefix, suffix, search\<close>

fun starts_with :: "'a list \<Rightarrow> 'a list \<Rightarrow> bool" where
  "starts_with s [] = True"
| "starts_with [] (p # ps) = False"
| "starts_with (c # s) (p # ps) \<longleftrightarrow> c = p \<and> starts_with s ps"

definition strip_prefix :: "'a list \<Rightarrow> 'a list \<Rightarrow> 'a list option" where
  "strip_prefix s p = (if starts_with s p then Some (drop (length p) s) else None)"

definition ends_with :: "'a list \<Rightarrow> 'a list \<Rightarrow> bool" where
  "ends_with s p \<longleftrightarrow> starts_with (rev s) (rev p)"

fun contains_str :: "'a list \<Rightarrow> 'a list \<Rightarrow> bool" where
  "contains_str [] p \<longleftrightarrow> p = []"
| "contains_str (c # s) p \<longleftrightarrow> starts_with (c # s) p \<or> contains_str s p"

text \<open>\<open>find(c)\<close> followed by slicing: the text before and after the first \<open>c\<close>.\<close>

fun split_once :: "'a \<Rightarrow> 'a list \<Rightarrow> ('a list \<times> 'a list) option" where
  "split_once c [] = None"
| "split_once c (x # s) =
    (if x = c then Some ([], s) else map_option (\<lambda>(l, r). (x # l, r)) (split_once c s))"

text \<open>\<open>split(c)\<close>: the pieces between separators, never an empty list.\<close>

fun split_str :: "'a \<Rightarrow> 'a list \<Rightarrow> 'a list list" where
  "split_str c [] = [[]]"
| "split_str c (x # s) =
    (if x = c then [] # split_str c s
     else (case split_str c s of [] \<Rightarrow> [[x]] | w # ws \<Rightarrow> (x # w) # ws))"

lemma starts_with_iff: "starts_with s p \<longleftrightarrow> (\<exists>r. s = p @ r)"
  by (induction s p rule: starts_with.induct) auto

lemma starts_with_append [simp, str_simps]: "starts_with (p @ r) p"
  by (auto simp: starts_with_iff)

lemma starts_with_refl [simp]: "starts_with s s"
  by (auto simp: starts_with_iff)

lemma starts_with_trans: "starts_with a b \<Longrightarrow> starts_with b c \<Longrightarrow> starts_with a c"
  by (auto simp: starts_with_iff)

lemma strip_prefix_append [simp, str_simps]: "strip_prefix (p @ r) p = Some r"
  by (simp add: strip_prefix_def)

lemma strip_prefix_eq_Some: "strip_prefix s p = Some r \<longleftrightarrow> s = p @ r"
  by (auto simp: strip_prefix_def starts_with_iff)

lemma ends_with_iff: "ends_with s p \<longleftrightarrow> (\<exists>l. s = l @ p)"
proof
  assume "ends_with s p"
  then obtain r where "rev s = rev p @ r"
    by (auto simp: ends_with_def starts_with_iff)
  then have "s = rev r @ p"
    by (metis rev_append rev_rev_ident)
  then show "\<exists>l. s = l @ p" ..
qed (auto simp: ends_with_def)

lemma ends_with_append [simp, str_simps]: "ends_with (l @ p) p"
  by (auto simp: ends_with_iff)

lemma split_once_Some: "split_once c s = Some (l, r) \<Longrightarrow> s = l @ c # r \<and> c \<notin> set l"
  by (induction s arbitrary: l r) (auto split: if_splits)

lemma split_once_None: "split_once c s = None \<longleftrightarrow> c \<notin> set s"
  by (induction s) auto

lemma split_once_append [simp]: "c \<notin> set l \<Longrightarrow> split_once c (l @ c # r) = Some (l, r)"
  by (induction l) auto

lemma split_str_not_Nil [simp]: "split_str c s \<noteq> []"
  by (induction s) (auto split: list.splits)

lemma split_str_no_sep: "c \<notin> set s \<Longrightarrow> split_str c s = [s]"
  by (induction s) auto

lemma split_str_append: "c \<notin> set l \<Longrightarrow> split_str c (l @ c # r) = l # split_str c r"
  by (induction l) auto

lemma split_str_sep_free: "w \<in> set (split_str c s) \<Longrightarrow> c \<notin> set w"
  by (induction s arbitrary: w) (auto split: if_splits list.splits)


subsection \<open>Case mapping and trimming\<close>

text \<open>
  \<open>to_lowercase\<close>/\<open>to_ascii_lowercase\<close> on the ASCII range; bytes of 128 and above
  are left as they are, which is \<open>to_ascii_lowercase\<close> and agrees with
  \<open>to_lowercase\<close> on the ASCII host names, header names and tokens the code folds.
\<close>

definition lower_char :: "char \<Rightarrow> char" where
  "lower_char c =
    (let n = of_char c :: nat in if 65 \<le> n \<and> n \<le> 90 then char_of (n + 32) else c)"

definition to_lowercase :: "string \<Rightarrow> string" where
  "to_lowercase s = map lower_char s"

definition eq_ignore_ascii_case :: "string \<Rightarrow> string \<Rightarrow> bool" where
  "eq_ignore_ascii_case s t \<longleftrightarrow> to_lowercase s = to_lowercase t"

lemma of_char_lower_char:
  "(of_char (lower_char c) :: nat)
    = (if 65 \<le> (of_char c :: nat) \<and> (of_char c :: nat) \<le> 90 then of_char c + 32 else of_char c)"
  by (auto simp: lower_char_def Let_def)

lemma lower_char_idem [simp]: "lower_char (lower_char c) = lower_char c"
proof -
  have "\<not> (65 \<le> (of_char (lower_char c) :: nat) \<and> (of_char (lower_char c) :: nat) \<le> 90)"
    by (auto simp: of_char_lower_char)
  then show ?thesis
    unfolding lower_char_def [of "lower_char c"] Let_def by (rule if_not_P)
qed

lemma to_lowercase_idem [simp]: "to_lowercase (to_lowercase s) = to_lowercase s"
  by (simp add: to_lowercase_def comp_def)

lemma length_to_lowercase [simp]: "length (to_lowercase s) = length s"
  by (simp add: to_lowercase_def)

lemma to_lowercase_append [simp]: "to_lowercase (s @ t) = to_lowercase s @ to_lowercase t"
  by (simp add: to_lowercase_def)

definition is_space :: "char \<Rightarrow> bool" where
  "is_space c \<longleftrightarrow> (let n = of_char c :: nat in n = 32 \<or> (9 \<le> n \<and> n \<le> 13))"

definition trim_start :: "string \<Rightarrow> string" where "trim_start s = dropWhile is_space s"
definition trim_end :: "string \<Rightarrow> string" where "trim_end s = rev (dropWhile is_space (rev s))"
definition trim :: "string \<Rightarrow> string" where "trim s = trim_end (trim_start s)"

definition trim_end_matches :: "'a \<Rightarrow> 'a list \<Rightarrow> 'a list" where
  "trim_end_matches c s = rev (dropWhile (\<lambda>x. x = c) (rev s))"

lemma trim_end_matches_suffix: "\<exists>n. s = trim_end_matches c s @ replicate n c"
proof (intro exI)
  let ?p = "\<lambda>x. x = c"
  let ?n = "length (takeWhile ?p (rev s))"
  have "takeWhile ?p (rev s) = replicate ?n c"
    by (rule replicate_eqI) (auto dest: set_takeWhileD)
  then have "rev s = replicate ?n c @ dropWhile ?p (rev s)"
    using takeWhile_dropWhile_id [of ?p "rev s"] by simp
  then have "rev (rev s) = rev (replicate ?n c @ dropWhile ?p (rev s))"
    by (rule arg_cong)
  then show "s = trim_end_matches c s @ replicate ?n c"
    by (simp add: trim_end_matches_def)
qed

definition is_digit :: "char \<Rightarrow> bool" where
  "is_digit c \<longleftrightarrow> (let n = of_char c :: nat in 48 \<le> n \<and> n \<le> 57)"

definition is_ascii_alphabetic :: "char \<Rightarrow> bool" where
  "is_ascii_alphabetic c \<longleftrightarrow>
    (let n = of_char c :: nat in (65 \<le> n \<and> n \<le> 90) \<or> (97 \<le> n \<and> n \<le> 122))"

definition is_ascii_alphanumeric :: "char \<Rightarrow> bool" where
  "is_ascii_alphanumeric c \<longleftrightarrow> is_ascii_alphabetic c \<or> is_digit c"

end
