(* ===== verification/Vsock_Protocol.thy ===== *)
theory Vsock_Protocol
  imports Prelude
begin

text \<open>
  The VSOCK frame format: \<open>crates/nilbox-core/src/vsock/protocol.rs\<close> (host) and
  \<open>vm-agent/src/vsock/protocol.rs\<close> (guest).  A frame is stream id (4 bytes,
  big-endian), type (1 byte), length (4 bytes, big-endian), payload.  The guest's
  encoder and decoder are separate definitions; \<open>frame_codec\<close> is the contract of
  a codec that a peer can rely on, interpreted for every pair of sides.
\<close>

section \<open>Frame types\<close>

datatype FrameType =
    Data | Connect | Fin | Rst | ReverseRequest | ReverseResponse | TtyData | TtyResize
  | DnsRequest | DnsResponse | HostConnect | WindowUpdate

fun frame_type_code :: "FrameType \<Rightarrow> u8" where
  "frame_type_code Data = 0x01"
| "frame_type_code Connect = 0x02"
| "frame_type_code Fin = 0x03"
| "frame_type_code Rst = 0x04"
| "frame_type_code ReverseRequest = 0x05"
| "frame_type_code ReverseResponse = 0x06"
| "frame_type_code TtyData = 0x07"
| "frame_type_code TtyResize = 0x08"
| "frame_type_code DnsRequest = 0x09"
| "frame_type_code DnsResponse = 0x0A"
| "frame_type_code HostConnect = 0x0B"
| "frame_type_code WindowUpdate = 0x0C"

definition frame_type_try_from :: "u8 \<Rightarrow> FrameType option" where
  "frame_type_try_from value =
    (if value = 0x01 then Some Data
     else if value = 0x02 then Some Connect
     else if value = 0x03 then Some Fin
     else if value = 0x04 then Some Rst
     else if value = 0x05 then Some ReverseRequest
     else if value = 0x06 then Some ReverseResponse
     else if value = 0x07 then Some TtyData
     else if value = 0x08 then Some TtyResize
     else if value = 0x09 then Some DnsRequest
     else if value = 0x0A then Some DnsResponse
     else if value = 0x0B then Some HostConnect
     else if value = 0x0C then Some WindowUpdate
     else None)"

lemma frame_type_try_from_code [simp]: "frame_type_try_from (frame_type_code t) = Some t"
  by (cases t) (simp_all add: frame_type_try_from_def)

lemma frame_type_code_try_from: "frame_type_try_from b = Some t \<Longrightarrow> frame_type_code t = b"
  by (auto simp: frame_type_try_from_def split: if_splits)


section \<open>Frames\<close>

record Frame =
  stream_id :: u32
  frame_type :: FrameType
  payload :: bytes

definition HEADER_SIZE :: nat where "HEADER_SIZE = 9"

definition frame_new :: "u32 \<Rightarrow> FrameType \<Rightarrow> bytes \<Rightarrow> Frame" where
  "frame_new sid t p = \<lparr>stream_id = sid, frame_type = t, payload = p\<rparr>"

definition frame_data :: "u32 \<Rightarrow> bytes \<Rightarrow> Frame" where
  "frame_data sid p = frame_new sid Data p"

definition frame_connect :: "u32 \<Rightarrow> u32 \<Rightarrow> Frame" where
  "frame_connect sid target_port = frame_new sid Connect (put_u32_be target_port)"

definition frame_fin :: "u32 \<Rightarrow> Frame" where
  "frame_fin sid = frame_new sid Fin []"

definition frame_rst :: "u32 \<Rightarrow> Frame" where
  "frame_rst sid = frame_new sid Rst []"

definition frame_reverse_request :: "u32 \<Rightarrow> bytes \<Rightarrow> Frame" where
  "frame_reverse_request sid p = frame_new sid ReverseRequest p"

definition frame_reverse_response :: "u32 \<Rightarrow> bytes \<Rightarrow> Frame" where
  "frame_reverse_response sid p = frame_new sid ReverseResponse p"

definition frame_dns_request :: "u32 \<Rightarrow> bytes \<Rightarrow> Frame" where
  "frame_dns_request sid p = frame_new sid DnsRequest p"

definition frame_dns_response :: "u32 \<Rightarrow> bytes \<Rightarrow> Frame" where
  "frame_dns_response sid p = frame_new sid DnsResponse p"

definition frame_host_connect :: "u32 \<Rightarrow> u32 \<Rightarrow> u8 \<Rightarrow> Frame" where
  "frame_host_connect sid target_port mode =
    frame_new sid HostConnect (put_u32_be target_port @ [mode])"

definition frame_window_update :: "u32 \<Rightarrow> Frame" where
  "frame_window_update credit_bytes = frame_new 0 WindowUpdate (put_u32_be credit_bytes)"

definition frame_tty_resize :: "u32 \<Rightarrow> u16 \<Rightarrow> u16 \<Rightarrow> Frame" where
  "frame_tty_resize sid rows cols = frame_new sid TtyResize (put_u16_be rows @ put_u16_be cols)"

lemmas frame_ctor_defs =
  frame_new_def frame_data_def frame_connect_def frame_fin_def frame_rst_def
  frame_reverse_request_def frame_reverse_response_def frame_dns_request_def
  frame_dns_response_def frame_host_connect_def frame_window_update_def frame_tty_resize_def

datatype frame_error = HeaderTooSmall | InvalidFrameType | PayloadTooSmall

definition encode :: "Frame \<Rightarrow> bytes" where
  "encode f = put_u32_be (stream_id f) @ frame_type_code (frame_type f) #
     put_u32_be (of_nat (length (payload f))) @ payload f"

definition decode :: "bytes \<Rightarrow> (frame_error, Frame) outcome" where
  "decode buf =
    (if length buf < HEADER_SIZE then Err HeaderTooSmall
     else get_u32_be buf (\<lambda>sid buf.
          get_u8 buf (\<lambda>tb buf.
          case frame_type_try_from tb of None \<Rightarrow> Err InvalidFrameType
          | Some t \<Rightarrow>
              get_u32_be buf (\<lambda>len buf.
                if length buf < unat len then Err PayloadTooSmall
                else Ok \<lparr>stream_id = sid, frame_type = t, payload = take (unat len) buf\<rparr>))))"

text \<open>The guest's copy of the codec.\<close>

definition guest_encode :: "Frame \<Rightarrow> bytes" where
  "guest_encode f = put_u32_be (stream_id f) @ frame_type_code (frame_type f) #
     put_u32_be (of_nat (length (payload f))) @ payload f"

definition guest_decode :: "bytes \<Rightarrow> (frame_error, Frame) outcome" where
  "guest_decode buf =
    (if length buf < HEADER_SIZE then Err HeaderTooSmall
     else get_u32_be buf (\<lambda>sid buf.
          get_u8 buf (\<lambda>tb buf.
          case frame_type_try_from tb of None \<Rightarrow> Err InvalidFrameType
          | Some t \<Rightarrow>
              get_u32_be buf (\<lambda>len buf.
                if length buf < unat len then Err PayloadTooSmall
                else Ok \<lparr>stream_id = sid, frame_type = t, payload = take (unat len) buf\<rparr>))))"

text \<open>The payload length travels as a \<open>u32\<close>: longer payloads are truncated by \<open>as u32\<close>.\<close>

definition sendable :: "Frame \<Rightarrow> bool" where
  "sendable f \<longleftrightarrow> length (payload f) < 2 ^ 32"


section \<open>Codec laws\<close>

lemma unat_of_nat_u32: "n < 2 ^ 32 \<Longrightarrow> unat (of_nat n :: u32) = n"
  by (simp add: unat_of_nat)

lemma length_encode [simp]: "length (encode f) = HEADER_SIZE + length (payload f)"
  by (simp add: encode_def HEADER_SIZE_def)

lemma decode_encode_append: "sendable f \<Longrightarrow> decode (encode f @ r) = Ok f"
  by (simp add: decode_def encode_def HEADER_SIZE_def wire_simps sendable_def unat_of_nat_u32)

lemma decode_never_panics: "decode buf \<noteq> Panic"
  by (auto dest!: drop_Cons_length simp: decode_def HEADER_SIZE_def get_u32_be_def split_to_def get_u8_def
      split: list.splits option.splits if_splits)

lemma decode_inverse:
  assumes "decode buf = Ok f"
  shows "\<exists>r. buf = encode f @ r \<and> sendable f"
proof -
  from assms have len: "9 \<le> length buf"
    by (auto simp: decode_def HEADER_SIZE_def split: if_splits)
  define a where "a = take 4 buf"
  obtain tb rest where tb: "drop 4 buf = tb # rest"
    using len by (cases "drop 4 buf") auto
  define l where "l = take 4 rest"
  have rest: "4 \<le> length rest"
    using arg_cong [OF tb, of length] len by simp
  have buf: "buf = a @ tb # l @ drop 4 rest"
    by (metis a_def append_take_drop_id l_def tb)
  have la: "length a = 4" "length l = 4"
    using len rest by (simp_all add: a_def l_def)
  note sp = split_to_append [OF la(1)] split_to_append [OF la(2)]
  from assms obtain t where t: "frame_type_try_from tb = Some t"
    by (subst (asm) buf) (auto simp: decode_def HEADER_SIZE_def get_u32_be_def get_u8_def sp
        split: if_splits option.splits)
  from assms t have le: "unat (u32_from_be l) \<le> length (drop 4 rest)"
    and f: "f = \<lparr>stream_id = u32_from_be a, frame_type = t,
                 payload = take (unat (u32_from_be l)) (drop 4 rest)\<rparr>"
    by (subst (asm) buf, auto simp: decode_def HEADER_SIZE_def get_u32_be_def get_u8_def sp
        split: if_splits)+
  have lp: "length (payload f) = unat (u32_from_be l)"
    using le by (simp add: f)
  then have "encode f @ drop (unat (u32_from_be l)) (drop 4 rest) = buf"
    by (simp add: encode_def f put_u32_be_from_be la frame_type_code_try_from [OF t] buf
        del: drop_drop)
  moreover have "sendable f"
    using unat_bound [of "u32_from_be l"] by (simp add: sendable_def lp)
  ultimately show ?thesis
    by metis
qed

lemma guest_codec_eq: "guest_encode = encode" "guest_decode = decode"
  by (intro ext, simp add: guest_encode_def encode_def guest_decode_def decode_def)+


subsection \<open>The contract of a codec\<close>

text \<open>
  What the multiplexers rely on: a fixed header carries the length, so the
  concatenation of encoded frames is split at the frame boundaries again.
\<close>

locale frame_codec =
  fixes enc :: "'f \<Rightarrow> bytes" and dec :: "bytes \<Rightarrow> ('e, 'f) outcome" and ok :: "'f \<Rightarrow> bool"
  assumes dec_enc: "ok f \<Longrightarrow> dec (enc f @ r) = Ok f"
    and enc_nonempty: "enc f \<noteq> []"
begin

lemma enc_prefix_free:
  assumes "ok f" "ok g" "enc f @ r = enc g @ s"
  shows "f = g \<and> r = s"
proof -
  have "Ok f = (Ok g :: ('e, 'f) outcome)"
    using dec_enc [OF assms(1), of r] dec_enc [OF assms(2), of s] assms(3) by simp
  then show ?thesis
    using assms(3) by simp
qed

lemma concat_enc_inject:
  assumes "list_all ok fs" "list_all ok gs" "concat (map enc fs) = concat (map enc gs)"
  shows "fs = gs"
  using assms
proof (induction fs arbitrary: gs)
  case Nil
  then show ?case
    using enc_nonempty by (cases gs) auto
next
  case (Cons f fs)
  then obtain g gs' where gs: "gs = g # gs'"
    using enc_nonempty [of f] by (cases gs) auto
  have "f = g \<and> concat (map enc fs) = concat (map enc gs')"
    using Cons.prems enc_prefix_free [of f g] by (simp add: gs)
  then show ?case
    using Cons gs by simp
qed

end

interpretation host_codec: frame_codec encode decode sendable
proof unfold_locales
  show "encode f \<noteq> []" for f
    by (simp add: encode_def)
qed (rule decode_encode_append)

interpretation guest_codec: frame_codec guest_encode guest_decode sendable
  unfolding guest_codec_eq by (rule host_codec.frame_codec_axioms)

interpretation host_to_guest: frame_codec encode guest_decode sendable
  unfolding guest_codec_eq by (rule host_codec.frame_codec_axioms)

interpretation guest_to_host: frame_codec guest_encode decode sendable
  unfolding guest_codec_eq by (rule host_codec.frame_codec_axioms)


section \<open>Properties\<close>

text \<open>decoding a buffer succeeds exactly when the buffer starts with the encoding
  of a frame whose payload length fits the 32-bit length field, and it returns that frame:
  encode and decode are inverse to each other, trailing bytes are ignored.\<close>

theorem decode_iff_encode:
  "decode b = Ok f \<longleftrightarrow> (\<exists>r. b = encode f @ r \<and> sendable f)"
  using decode_inverse decode_encode_append by blast

text \<open>a sequence of frames sent by the guest is determined by the bytes on the wire:
  two sequences with the same bytes are equal, so no payload can be read as a frame boundary.\<close>

theorem wire_unambiguous:
  assumes "list_all sendable fs" "list_all sendable gs"
    and "concat (map guest_encode fs) = concat (map guest_encode gs)"
  shows "fs = gs"
  using assms by (rule guest_to_host.concat_enc_inject)

theorem wire_unambiguous_witness:
  "[frame_fin 3, frame_data 5 [1, 2]] = [frame_fin 3, frame_data 5 [1, 2]]"
  by (rule wire_unambiguous) (simp_all add: sendable_def frame_ctor_defs)

end
