(* ===== verification/Vsock_Mux.thy ===== *)
theory Vsock_Mux
  imports Vsock_Protocol
begin

text \<open>
  What the host's and the guest's stream multiplexers share
  (\<open>crates/nilbox-core/src/vsock/stream.rs\<close>, \<open>vm-agent/src/vsock/stream.rs\<close>):
  bounded frame channels, virtual streams with a shared \<open>closed\<close> flag, the stream
  table, the read buffer of the IO loop, and the operations on them.  Channels
  live in a store (a list indexed by channel number), so that a stream table
  entry, a virtual stream and its writers alias one channel as in the source.

  A blocking \<open>send(..).await\<close> on a full channel is a parked task: the operation
  returns \<open>Parked\<close> and is taken again when the receiver has made room.
\<close>

section \<open>State\<close>

definition CHANNEL_BUFFER_SIZE :: nat where "CHANNEL_BUFFER_SIZE = 100"

datatype platform = MacOS | NotMacOS

fun OUTGOING_BUFFER_SIZE :: "platform \<Rightarrow> nat" where
  "OUTGOING_BUFFER_SIZE MacOS = 64"
| "OUTGOING_BUFFER_SIZE NotMacOS = CHANNEL_BUFFER_SIZE"

definition MACOS_MAX_DATA_FRAME_BYTES :: nat where
  "MACOS_MAX_DATA_FRAME_BYTES = 32 * 1024"

fun MAX_BATCH_BYTES :: "platform \<Rightarrow> nat" where
  "MAX_BATCH_BYTES MacOS = 64 * 1024"
| "MAX_BATCH_BYTES NotMacOS = 128 * 1024"

text \<open>An incoming frame channel with the \<open>closed\<close> flag of the stream that reads it.\<close>

record chan =
  queue :: "Frame list"
  rx_alive :: bool
  closed :: bool

definition fresh_chan :: chan where
  "fresh_chan = \<lparr>queue = [], rx_alive = True, closed = False\<rparr>"

record VirtualStream =
  vs_id :: u32
  initial_frame_type :: "FrameType option"
  vs_chan :: nat

record handler =
  hqueue :: "VirtualStream list"
  hcap :: nat
  hopen :: bool

record mux =
  plat :: platform
  streams :: "u32 \<rightharpoonup> nat"
  chans :: "chan list"
  next_stream_id :: u32
  outgoing :: "Frame list"
  outgoing_open :: bool
  incoming_handler :: "handler option"
  buf :: bytes
  written :: bytes
  running :: bool

definition mux_new :: "platform \<Rightarrow> u32 \<Rightarrow> handler option \<Rightarrow> mux" where
  "mux_new p first h =
    \<lparr>plat = p, streams = Map.empty, chans = [], next_stream_id = first, outgoing = [],
     outgoing_open = True, incoming_handler = h, buf = [], written = [], running = True\<rparr>"

definition upd_chan :: "nat \<Rightarrow> (chan \<Rightarrow> chan) \<Rightarrow> mux \<Rightarrow> mux" where
  "upd_chan c f m = m\<lparr>chans := (chans m)[c := f (chans m ! c)]\<rparr>"

definition remove_stream :: "u32 \<Rightarrow> mux \<Rightarrow> mux" where
  "remove_stream sid m = m\<lparr>streams := (streams m)(sid := None)\<rparr>"

text \<open>A new channel registered in the stream table under \<open>sid\<close>.\<close>

definition register_stream :: "u32 \<Rightarrow> mux \<Rightarrow> nat \<times> mux" where
  "register_stream sid m =
    (length (chans m),
     m\<lparr>chans := chans m @ [fresh_chan], streams := (streams m)(sid \<mapsto> length (chans m))\<rparr>)"


section \<open>Sending\<close>

datatype 'a send = Sent 'a | SendClosed 'a | Parked 'a

fun send_state :: "'a send \<Rightarrow> 'a" where
  "send_state (Sent m) = m"
| "send_state (SendClosed m) = m"
| "send_state (Parked m) = m"

definition outgoing_send :: "mux \<Rightarrow> Frame \<Rightarrow> mux send" where
  "outgoing_send m f =
    (if \<not> outgoing_open m then SendClosed m
     else if length (outgoing m) < OUTGOING_BUFFER_SIZE (plat m)
     then Sent (m\<lparr>outgoing := outgoing m @ [f]\<rparr>)
     else Parked m)"

definition outgoing_try_send :: "mux \<Rightarrow> Frame \<Rightarrow> mux" where
  "outgoing_try_send m f = send_state (outgoing_send m f)"

text \<open>\<open>slice::chunks(n)\<close>: no chunk for an empty slice, the last one may be short.\<close>

function chunks :: "nat \<Rightarrow> 'a list \<Rightarrow> 'a list list" where
  "chunks n xs = (if xs = [] \<or> n = 0 then [] else take n xs # chunks n (drop n xs))"
  by auto
termination by (relation "measure (\<lambda>(n, xs). length xs)") auto

declare chunks.simps [simp del]

lemma concat_chunks: "0 < n \<Longrightarrow> concat (chunks n xs) = xs"
proof (induction n xs rule: chunks.induct)
  case (1 n xs)
  then show ?case
    by (subst chunks.simps) auto
qed

lemma chunks_length: "x \<in> set (chunks n xs) \<Longrightarrow> length x \<le> n"
proof (induction n xs rule: chunks.induct)
  case (1 n xs)
  then show ?case
    by (subst (asm) (2) chunks.simps) (auto split: if_splits)
qed

definition data_chunks :: "platform \<Rightarrow> bytes \<Rightarrow> bytes list" where
  "data_chunks p data =
    (case p of MacOS \<Rightarrow> chunks MACOS_MAX_DATA_FRAME_BYTES data | NotMacOS \<Rightarrow> [data])"

datatype send_all = AllSent mux | SendFailed mux | SendParked mux "Frame list"

fun send_frames :: "mux \<Rightarrow> Frame list \<Rightarrow> send_all" where
  "send_frames m [] = AllSent m"
| "send_frames m (f # fs) =
    (case outgoing_send m f of
       Sent m' \<Rightarrow> send_frames m' fs
     | SendClosed m' \<Rightarrow> SendFailed m'
     | Parked m' \<Rightarrow> SendParked m' (f # fs))"

definition send_data_frames :: "mux \<Rightarrow> u32 \<Rightarrow> bytes \<Rightarrow> send_all" where
  "send_data_frames m sid data =
    send_frames m (map (frame_data sid) (data_chunks (plat m) data))"


section \<open>Virtual streams\<close>

datatype read_error = ClosedByPeer | ResetByPeer | ChannelClosed

datatype read_result = ReadReady "(read_error, bytes) outcome" mux | ReadWait

definition read_frame :: "Frame \<Rightarrow> (read_error, bytes) outcome" where
  "read_frame f =
    (case frame_type f of
       Fin \<Rightarrow> Err ClosedByPeer
     | Rst \<Rightarrow> Err ResetByPeer
     | _ \<Rightarrow> Ok (payload f))"

text \<open>
  \<open>incoming_rx.recv()\<close> gives \<open>None\<close> once the queue is empty and no sender is left;
  the only sender that outlives an IO loop iteration is the stream table's.
\<close>

definition has_sender :: "mux \<Rightarrow> nat \<Rightarrow> bool" where
  "has_sender m c \<longleftrightarrow> c \<in> ran (streams m)"

definition vs_read :: "mux \<Rightarrow> VirtualStream \<Rightarrow> read_result" where
  "vs_read m s =
    (case queue (chans m ! vs_chan s) of
       f # fs \<Rightarrow> ReadReady (read_frame f) (upd_chan (vs_chan s) (\<lambda>c. c\<lparr>queue := fs\<rparr>) m)
     | [] \<Rightarrow> if has_sender m (vs_chan s) then ReadWait else ReadReady (Err ChannelClosed) m)"

definition vs_write :: "mux \<Rightarrow> VirtualStream \<Rightarrow> bytes \<Rightarrow> send_all" where
  "vs_write m s data = send_data_frames m (vs_id s) data"

definition set_closed :: "nat \<Rightarrow> mux \<Rightarrow> mux" where
  "set_closed c m = upd_chan c (\<lambda>c. c\<lparr>closed := True\<rparr>) m"

text \<open>\<open>close\<close> of the stream and of its writers: \<open>closed.swap(true)\<close>, then the FIN.\<close>

definition vs_close :: "mux \<Rightarrow> VirtualStream \<Rightarrow> mux send" where
  "vs_close m s =
    (if closed (chans m ! vs_chan s) then Sent m
     else outgoing_send (set_closed (vs_chan s) m) (frame_fin (vs_id s)))"

definition suppress_drop_close :: "mux \<Rightarrow> VirtualStream \<Rightarrow> mux" where
  "suppress_drop_close m s = set_closed (vs_chan s) m"

text \<open>\<open>Drop\<close>: a FIN unless already closed, then the receiver goes away.\<close>

definition vs_drop :: "mux \<Rightarrow> VirtualStream \<Rightarrow> mux" where
  "vs_drop m s =
    (let m1 = (if closed (chans m ! vs_chan s) then m
               else outgoing_try_send (set_closed (vs_chan s) m) (frame_fin (vs_id s)))
     in upd_chan (vs_chan s) (\<lambda>c. c\<lparr>rx_alive := False\<rparr>) m1)"


section \<open>Opening streams\<close>

text \<open>
  Under the id lock: take \<open>next_stream_id\<close> and step it by 2 (a \<open>u32\<close>, so it wraps
  in a release build); then register the new channel.
\<close>

definition alloc_stream :: "mux \<Rightarrow> VirtualStream \<times> mux" where
  "alloc_stream m =
    (let sid = next_stream_id m;
         (c, m') = register_stream sid (m\<lparr>next_stream_id := next_stream_id m + 2\<rparr>)
     in (\<lparr>vs_id = sid, initial_frame_type = None, vs_chan = c\<rparr>, m'))"

text \<open>The id is taken and registered first, then the opening frame is sent.\<close>

definition open_stream :: "(u32 \<Rightarrow> Frame) \<Rightarrow> mux \<Rightarrow> VirtualStream \<times> mux send" where
  "open_stream first_frame m =
    (case alloc_stream m of (s, m') \<Rightarrow> (s, outgoing_send m' (first_frame (vs_id s))))"

fun alloc_ids :: "nat \<Rightarrow> mux \<Rightarrow> u32 list" where
  "alloc_ids 0 m = []"
| "alloc_ids (Suc n) m = (case alloc_stream m of (s, m') \<Rightarrow> vs_id s # alloc_ids n m')"


section \<open>The IO loop\<close>

text \<open>
  One turn of the inner frame loop.  \<open>Break\<close>: not enough bytes, or a type byte
  that names no frame type; \<open>Next\<close>: a frame was split off and handled;
  \<open>Blocked\<close>: handling waits for room in the stream's channel; \<open>Return\<close>: decode
  error.
\<close>

datatype iter = Break | Next mux | Blocked | Return

definition frame_len :: "bytes \<Rightarrow> nat" where
  "frame_len b = HEADER_SIZE + unat (u32_from_be (take 4 (drop 5 b)))"

definition io_iter ::
  "(bytes \<Rightarrow> (frame_error, Frame) outcome) \<Rightarrow> (mux \<Rightarrow> Frame \<Rightarrow> mux option) \<Rightarrow> mux \<Rightarrow> iter" where
  "io_iter dec handle m =
    (if length (buf m) < HEADER_SIZE then Break
     else case frame_type_try_from (buf m ! 4) of
       None \<Rightarrow> Break
     | Some _ \<Rightarrow>
         (if frame_len (buf m) \<le> length (buf m)
          then (case dec (take (frame_len (buf m)) (buf m)) of
                  Ok f \<Rightarrow> (case handle m f of
                             None \<Rightarrow> Blocked
                           | Some m' \<Rightarrow> Next (m'\<lparr>buf := drop (frame_len (buf m)) (buf m)\<rparr>))
                | _ \<Rightarrow> Return)
          else Break))"

lemma io_iter_shrinks: "io_iter dec handle m = Next m' \<Longrightarrow> length (buf m') < length (buf m)"
  by (auto simp: io_iter_def frame_len_def HEADER_SIZE_def
      split: if_splits option.splits outcome.splits)

text \<open>The inner loop run until it breaks, with nothing interleaved.\<close>

function drain ::
  "(bytes \<Rightarrow> (frame_error, Frame) outcome) \<Rightarrow> (mux \<Rightarrow> Frame \<Rightarrow> mux option) \<Rightarrow> mux \<Rightarrow> mux" where
  "drain dec handle m = (case io_iter dec handle m of Next m' \<Rightarrow> drain dec handle m' | _ \<Rightarrow> m)"
  by auto
termination
  by (relation "measure (\<lambda>(dec, handle, m). length (buf m))") (auto simp: io_iter_shrinks)

declare drain.simps [simp del]

definition feed ::
  "(bytes \<Rightarrow> (frame_error, Frame) outcome) \<Rightarrow> (mux \<Rightarrow> Frame \<Rightarrow> mux option) \<Rightarrow> mux \<Rightarrow> bytes \<Rightarrow> mux" where
  "feed dec handle m data = drain dec handle (m\<lparr>buf := buf m @ data\<rparr>)"

text \<open>
  The write arm: the first queued frame, then more while the batch is below the
  limit.
\<close>

fun take_batch :: "(Frame \<Rightarrow> bytes) \<Rightarrow> nat \<Rightarrow> bytes \<Rightarrow> Frame list \<Rightarrow> bytes \<times> Frame list" where
  "take_batch enc lim combined [] = (combined, [])"
| "take_batch enc lim combined (f # fs) =
    (if length combined < lim then take_batch enc lim (combined @ enc f) fs
     else (combined, f # fs))"

text \<open>After the loop: every stream entry is cleared and the outgoing channel closed.\<close>

definition io_exit :: "mux \<Rightarrow> mux" where
  "io_exit m = m\<lparr>streams := Map.empty, outgoing_open := False, running := False\<rparr>"

definition write_batch :: "(Frame \<Rightarrow> bytes) \<Rightarrow> bool \<Rightarrow> mux \<Rightarrow> mux" where
  "write_batch enc write_ok m =
    (case outgoing m of
       [] \<Rightarrow> m
     | f # fs \<Rightarrow>
         (case take_batch enc (MAX_BATCH_BYTES (plat m)) (enc f) fs of
            (combined, rest) \<Rightarrow>
              if write_ok then m\<lparr>outgoing := rest, written := written m @ combined\<rparr>
              else io_exit (m\<lparr>outgoing := rest\<rparr>)))"


section \<open>Channel laws\<close>

lemma upd_chan_other [simp]:
  "streams (upd_chan c f m) = streams m" "outgoing (upd_chan c f m) = outgoing m"
  "outgoing_open (upd_chan c f m) = outgoing_open m" "plat (upd_chan c f m) = plat m"
  "next_stream_id (upd_chan c f m) = next_stream_id m" "buf (upd_chan c f m) = buf m"
  "written (upd_chan c f m) = written m" "length (chans (upd_chan c f m)) = length (chans m)"
  by (simp_all add: upd_chan_def)

lemma upd_chan_nth [simp]:
  "c < length (chans m) \<Longrightarrow> chans (upd_chan c f m) ! c = f (chans m ! c)"
  by (simp add: upd_chan_def)

lemma upd_chan_nth_other [simp]: "d \<noteq> c \<Longrightarrow> chans (upd_chan c f m) ! d = chans m ! d"
  by (simp add: upd_chan_def)

lemma set_closed_fields [simp]:
  "outgoing (set_closed c m) = outgoing m" "outgoing_open (set_closed c m) = outgoing_open m"
  "plat (set_closed c m) = plat m" "length (chans (set_closed c m)) = length (chans m)"
  "c < length (chans m) \<Longrightarrow> closed (chans (set_closed c m) ! c)"
  by (simp_all add: set_closed_def)

lemma outgoing_try_send_fields [simp]:
  "streams (outgoing_try_send m f) = streams m" "chans (outgoing_try_send m f) = chans m"
  "next_stream_id (outgoing_try_send m f) = next_stream_id m"
  by (simp_all add: outgoing_try_send_def outgoing_send_def)

lemma outgoing_send_cases:
  "outgoing_send m f = Sent m' \<Longrightarrow> m' = m\<lparr>outgoing := outgoing m @ [f]\<rparr>"
  "outgoing_send m f = SendClosed m' \<Longrightarrow> m' = m"
  "outgoing_send m f = Parked m' \<Longrightarrow> m' = m"
  by (auto simp: outgoing_send_def split: if_splits)

text \<open>A write is a prefix of its data frames, in order; all of them when it succeeds.\<close>

lemma send_frames_Sent:
  "send_frames m fs = AllSent m' \<Longrightarrow> m' = m\<lparr>outgoing := outgoing m @ fs\<rparr>"
  by (induction m fs rule: send_frames.induct)
    (auto split: send.splits dest!: outgoing_send_cases)

lemma concat_data_chunks: "concat (data_chunks p data) = data"
  by (cases p) (simp_all add: data_chunks_def concat_chunks MACOS_MAX_DATA_FRAME_BYTES_def)

lemma take_batch_split:
  "take_batch enc lim combined fs = (out, rest) \<Longrightarrow>
    \<exists>sent. fs = sent @ rest \<and> out = combined @ concat (map enc sent)"
proof (induction enc lim combined fs rule: take_batch.induct)
  case (2 enc lim combined f fs)
  show ?case
  proof (cases "length combined < lim")
    case True
    then have "take_batch enc lim (combined @ enc f) fs = (out, rest)"
      using 2 by simp
    then obtain sent where "fs = sent @ rest" "out = (combined @ enc f) @ concat (map enc sent)"
      using 2 True by blast
    then have "f # fs = (f # sent) @ rest \<and> out = combined @ concat (map enc (f # sent))"
      by simp
    then show ?thesis
      by blast
  qed (use 2 in auto)
qed simp


section \<open>Reassembly of the byte stream\<close>

fun handle_frames :: "(mux \<Rightarrow> Frame \<Rightarrow> mux option) \<Rightarrow> mux \<Rightarrow> Frame list \<Rightarrow> mux option" where
  "handle_frames handle m [] = Some m"
| "handle_frames handle m (f # fs) =
    (case handle m f of None \<Rightarrow> None | Some m' \<Rightarrow> handle_frames handle m' fs)"

definition stream_bytes :: "Frame list \<Rightarrow> bytes" where
  "stream_bytes fs = concat (map encode fs)"

lemma stream_bytes_simps [simp]:
  "stream_bytes [] = []" "stream_bytes (f # fs) = encode f @ stream_bytes fs"
  by (simp_all add: stream_bytes_def)

text \<open>A proper prefix of one more encoded frame.\<close>

definition incomplete :: "bytes \<Rightarrow> bool" where
  "incomplete t \<longleftrightarrow> t = [] \<or> (\<exists>f r. sendable f \<and> encode f = t @ r \<and> r \<noteq> [])"

lemma header_fields:
  "5 \<le> length (encode f)" "encode f ! 4 = frame_type_code (frame_type f)"
  "take 4 (drop 5 (encode f)) = put_u32_be (of_nat (length (payload f)))"
  by (simp_all add: encode_def nth_append)

lemma frame_len_encode:
  assumes "sendable f" "9 \<le> length t" "encode f @ r = t @ r'"
  shows "frame_len t = length (encode f)" "t ! 4 = frame_type_code (frame_type f)"
proof -
  have "take 4 (drop 5 t) = take 4 (drop 5 (t @ r'))"
    using assms(2) by simp
  also have "\<dots> = take 4 (drop 5 (encode f @ r))"
    by (simp only: assms(3))
  also have "\<dots> = put_u32_be (of_nat (length (payload f)))"
    by (simp add: encode_def)
  finally show "frame_len t = length (encode f)"
    using assms(1) by (simp add: frame_len_def sendable_def unat_of_nat_u32)
  have "t ! 4 = (t @ r') ! 4"
    using assms(2) by (simp add: nth_append)
  also have "\<dots> = (encode f @ r) ! 4"
    by (simp only: assms(3))
  finally show "t ! 4 = frame_type_code (frame_type f)"
    by (simp add: encode_def nth_append)
qed

lemma io_iter_incomplete: "incomplete (buf m) \<Longrightarrow> io_iter dec handle m = Break"
proof -
  assume inc: "incomplete (buf m)"
  show ?thesis
  proof (cases "length (buf m) < 9")
    case False
    then obtain f r where f: "sendable f" "encode f = buf m @ r" "r \<noteq> []"
      using inc by (auto simp: incomplete_def)
    then have "frame_len (buf m) = length (encode f)"
      using frame_len_encode(1) [of f "buf m" "[]" r] False by simp
    then have "length (buf m) < frame_len (buf m)"
      using f by simp
    then show ?thesis
      by (simp add: io_iter_def split: option.splits)
  qed (simp add: io_iter_def HEADER_SIZE_def)
qed

lemma split_stream:
  assumes "list_all sendable fs" "stream_bytes fs = b @ r"
  shows "\<exists>fs1 fs2 t. fs = fs1 @ fs2 \<and> b = stream_bytes fs1 @ t \<and> incomplete t
           \<and> stream_bytes fs2 = t @ r"
  using assms
proof (induction fs arbitrary: b)
  case Nil
  then show ?case
    by (intro exI [of _ "[]"]) (simp add: incomplete_def)
next
  case (Cons f fs)
  show ?case
  proof (cases "length (encode f) \<le> length b")
    case True
    define b' where "b' = drop (length (encode f)) b"
    have "encode f = take (length (encode f)) b"
      using arg_cong [OF Cons.prems(2), of "take (length (encode f))"] True
      by (simp del: length_encode)
    then have b': "b = encode f @ b'"
      by (metis append_take_drop_id b'_def)
    then have "stream_bytes fs = b' @ r"
      using Cons.prems(2) by simp
    then obtain fs1 fs2 t where "fs = fs1 @ fs2" "b' = stream_bytes fs1 @ t" "incomplete t"
        "stream_bytes fs2 = t @ r"
      using Cons by force
    then show ?thesis
      using b' by (intro exI [of _ "f # fs1"] exI [of _ fs2] exI [of _ t]) simp
  next
    case False
    then have b: "b = take (length b) (encode f)"
      using arg_cong [OF Cons.prems(2), of "take (length b)"] by simp
    then have "encode f = b @ drop (length b) (encode f)"
      by (metis append_take_drop_id)
    moreover have "drop (length b) (encode f) \<noteq> []"
      using False by simp
    ultimately have "incomplete b"
      using Cons.prems(1) unfolding incomplete_def list.pred_inject by blast
    then show ?thesis
      using Cons.prems(2) by (intro exI [of _ "[]"] exI [of _ "f # fs"] exI [of _ b]) simp
  qed
qed

locale frame_loop =
  fixes dec :: "bytes \<Rightarrow> (frame_error, Frame) outcome"
    and handle :: "mux \<Rightarrow> Frame \<Rightarrow> mux option"
  assumes dec_encode: "sendable f \<Longrightarrow> dec (encode f @ r) = Ok f"
    and handle_buf: "handle (m\<lparr>buf := b\<rparr>) f = map_option (\<lambda>m'. m'\<lparr>buf := b\<rparr>) (handle m f)"
begin

lemma io_iter_encode:
  assumes "sendable f" "buf m = encode f @ r" "handle m f = Some m'"
  shows "io_iter dec handle m = Next (m'\<lparr>buf := r\<rparr>)"
proof -
  have "9 \<le> length (buf m)" "encode f @ r = buf m @ []"
    by (simp_all add: assms HEADER_SIZE_def)
  then have "frame_len (buf m) = length (encode f)" "buf m ! 4 = frame_type_code (frame_type f)"
    by (rule frame_len_encode [OF assms(1)])+
  moreover have "take (length (encode f)) (buf m) = encode f" "drop (length (encode f)) (buf m) = r"
      "length (encode f) \<le> length (buf m)"
    by (simp_all add: assms)
  moreover have "dec (encode f) = Ok f"
    using dec_encode [OF assms(1), of "[]"] by simp
  moreover have "\<not> length (buf m) < HEADER_SIZE"
    by (simp add: assms)
  ultimately show ?thesis
    using assms(3) by (simp only: io_iter_def frame_type_try_from_code if_True if_False
        option.case outcome.case)
qed

lemma drain_stream:
  assumes "list_all sendable fs" "handle_frames handle m fs = Some m'" "incomplete t"
  shows "drain dec handle (m\<lparr>buf := stream_bytes fs @ t\<rparr>) = m'\<lparr>buf := t\<rparr>"
  using assms
proof (induction fs arbitrary: m)
  case Nil
  then show ?case
    by (subst drain.simps) (simp add: io_iter_incomplete)
next
  case (Cons f fs)
  from Cons.prems obtain m1 where m1: "handle m f = Some m1" "handle_frames handle m1 fs = Some m'"
    by (auto split: option.splits)
  let ?r = "stream_bytes fs @ t"
  have "handle (m\<lparr>buf := encode f @ ?r\<rparr>) f = Some (m1\<lparr>buf := encode f @ ?r\<rparr>)"
    using m1 by (simp add: handle_buf)
  then have "io_iter dec handle (m\<lparr>buf := encode f @ ?r\<rparr>) = Next (m1\<lparr>buf := ?r\<rparr>)"
    using io_iter_encode [of f "m\<lparr>buf := encode f @ ?r\<rparr>" ?r] Cons.prems(1) by simp
  then show ?case
    using Cons.IH [OF _ m1(2)] Cons.prems by (subst drain.simps) simp
qed

lemma handle_frames_append:
  "handle_frames handle m (fs @ gs)
    = Option.bind (handle_frames handle m fs) (\<lambda>m'. handle_frames handle m' gs)"
  by (induction fs arbitrary: m) (auto split: option.splits)

lemma feed_stream:
  assumes "list_all sendable fs" "handle_frames handle m fs = Some m'" "incomplete (buf m)"
    and "buf m @ concat cs = stream_bytes fs"
  shows "foldl (feed dec handle) m cs = m'\<lparr>buf := []\<rparr>"
  using assms
proof (induction cs arbitrary: m fs m')
  case Nil
  then have "drain dec handle (m\<lparr>buf := stream_bytes fs @ []\<rparr>) = m'\<lparr>buf := []\<rparr>"
    by (intro drain_stream) (simp_all add: incomplete_def)
  moreover have "drain dec handle m = m"
    using Nil by (subst drain.simps) (simp add: io_iter_incomplete)
  moreover have "m\<lparr>buf := stream_bytes fs\<rparr> = m"
    using Nil by simp
  ultimately show ?case
    by simp
next
  case (Cons c cs)
  have "stream_bytes fs = (buf m @ c) @ concat cs"
    using Cons.prems(4) by simp
  then obtain fs1 fs2 t where s: "fs = fs1 @ fs2" "buf m @ c = stream_bytes fs1 @ t" "incomplete t"
      "stream_bytes fs2 = t @ concat cs"
    using split_stream [OF Cons.prems(1)] by blast
  obtain m1 where m1: "handle_frames handle m fs1 = Some m1" "handle_frames handle m1 fs2 = Some m'"
    using Cons.prems(2) by (auto simp: s handle_frames_append bind_eq_Some_conv)
  have "handle_frames handle (n\<lparr>buf := b\<rparr>) gs
      = map_option (\<lambda>m. m\<lparr>buf := b\<rparr>) (handle_frames handle n gs)" for n b gs
    by (induction gs arbitrary: n) (auto simp: handle_buf split: option.splits)
  then have "handle_frames handle (m1\<lparr>buf := t\<rparr>) fs2 = Some (m'\<lparr>buf := t\<rparr>)"
    using m1 by simp
  then have "foldl (feed dec handle) (m1\<lparr>buf := t\<rparr>) cs = m'\<lparr>buf := t\<rparr>\<lparr>buf := []\<rparr>"
    using Cons.prems(1) s by (intro Cons.IH [of fs2]) auto
  moreover have "feed dec handle m c = m1\<lparr>buf := t\<rparr>"
    using Cons.prems(1) s m1 drain_stream [of fs1 m m1 t] by (simp add: feed_def)
  ultimately show ?case
    by simp
qed

lemma stalled_forever:
  assumes "9 \<le> length (buf m)" "frame_type_try_from (buf m ! 4) = None"
  shows "foldl (feed dec handle) m cs = m\<lparr>buf := buf m @ concat cs\<rparr>"
  using assms
proof (induction cs arbitrary: m)
  case (Cons c cs)
  have "feed dec handle m c = m\<lparr>buf := buf m @ c\<rparr>"
    using Cons.prems
    by (simp add: feed_def drain.simps io_iter_def nth_append HEADER_SIZE_def)
  moreover have "foldl (feed dec handle) (m\<lparr>buf := buf m @ c\<rparr>) cs
      = m\<lparr>buf := buf m @ c\<rparr>\<lparr>buf := (buf m @ c) @ concat cs\<rparr>"
    using Cons.prems Cons.IH [of "m\<lparr>buf := buf m @ c\<rparr>"] by (simp add: nth_append)
  ultimately show ?case
    by simp
qed simp

end


section \<open>Steps and reachable states\<close>

text \<open>
  Interleavings of the IO task with the application's tasks.  The IO task selects
  a read or a write only between runs of the inner loop; each inner turn, each
  allocation and each completed send of an application task is one step.
\<close>

inductive mux_step ::
  "(bytes \<Rightarrow> (frame_error, Frame) outcome) \<Rightarrow> (mux \<Rightarrow> Frame \<Rightarrow> mux option) \<Rightarrow> (Frame \<Rightarrow> bytes)
    \<Rightarrow> mux \<Rightarrow> mux \<Rightarrow> bool"
  for dec handle enc where
  phys_read: "running m \<Longrightarrow> io_iter dec handle m = Break \<Longrightarrow>
    mux_step dec handle enc m (m\<lparr>buf := buf m @ d\<rparr>)"
| inner: "running m \<Longrightarrow> io_iter dec handle m = Next m' \<Longrightarrow> mux_step dec handle enc m m'"
| phys_err: "running m \<Longrightarrow> io_iter dec handle m = Break \<Longrightarrow>
    mux_step dec handle enc m (io_exit m)"
| phys_write: "running m \<Longrightarrow> io_iter dec handle m = Break \<Longrightarrow>
    mux_step dec handle enc m (write_batch enc write_ok m)"
| alloc: "mux_step dec handle enc m (snd (alloc_stream m))"
| app_send: "mux_step dec handle enc m (send_state (outgoing_send m f))"
| app_read: "vs_chan s < length (chans m) \<Longrightarrow> vs_read m s = ReadReady v m' \<Longrightarrow>
    mux_step dec handle enc m m'"
| app_close: "vs_chan s < length (chans m) \<Longrightarrow>
    mux_step dec handle enc m (send_state (vs_close m s))"
| app_drop: "vs_chan s < length (chans m) \<Longrightarrow> mux_step dec handle enc m (vs_drop m s)"
| accept: "incoming_handler m = Some h \<Longrightarrow> hqueue h = s # ss \<Longrightarrow>
    mux_step dec handle enc m (m\<lparr>incoming_handler := Some (h\<lparr>hqueue := ss\<rparr>)\<rparr>)"

text \<open>
  Table entries name existing channels; no queue outgrows its capacity; the id
  counter keeps the parity its side started with.
\<close>

fun handler_inv :: "nat \<Rightarrow> handler option \<Rightarrow> bool" where
  "handler_inv n None = True"
| "handler_inv n (Some h) \<longleftrightarrow>
    length (hqueue h) \<le> hcap h \<and> (\<forall>s \<in> set (hqueue h). vs_chan s < n)"

definition mux_inv :: "bool \<Rightarrow> mux \<Rightarrow> bool" where
  "mux_inv p m \<longleftrightarrow>
     (\<forall>sid c. streams m sid = Some c \<longrightarrow> c < length (chans m))
   \<and> (\<forall>c \<in> set (chans m). length (queue c) \<le> CHANNEL_BUFFER_SIZE)
   \<and> length (outgoing m) \<le> OUTGOING_BUFFER_SIZE (plat m)
   \<and> handler_inv (length (chans m)) (incoming_handler m)
   \<and> odd (next_stream_id m) = p"

lemma handler_inv_Suc: "handler_inv n h \<Longrightarrow> handler_inv (Suc n) h"
  by (cases h) (auto simp: less_Suc_eq)

lemma mux_inv_chan_lt: "mux_inv p m \<Longrightarrow> streams m sid = Some c \<Longrightarrow> c < length (chans m)"
  by (simp add: mux_inv_def)

lemma mux_inv_new: "mux_inv (odd first) (mux_new p first None)"
  by (simp add: mux_inv_def mux_new_def)

lemma mux_inv_buf [simp]: "mux_inv p (m\<lparr>buf := b\<rparr>) = mux_inv p m"
  by (simp add: mux_inv_def)

lemma mux_inv_written [simp]: "mux_inv p (m\<lparr>written := b\<rparr>) = mux_inv p m"
  by (simp add: mux_inv_def)

lemma mux_inv_upd_chan:
  "mux_inv p m \<Longrightarrow> (\<And>c. length (queue c) \<le> CHANNEL_BUFFER_SIZE \<Longrightarrow>
      length (queue (f c)) \<le> CHANNEL_BUFFER_SIZE) \<Longrightarrow> c < length (chans m) \<Longrightarrow>
    mux_inv p (upd_chan c f m)"
  by (auto simp: mux_inv_def upd_chan_def set_update_memI dest!: set_update_subset_insert [THEN subsetD])

lemma mux_inv_outgoing_send: "mux_inv p m \<Longrightarrow> mux_inv p (send_state (outgoing_send m f))"
  by (auto simp: mux_inv_def outgoing_send_def)

lemma mux_inv_try_send: "mux_inv p m \<Longrightarrow> mux_inv p (outgoing_try_send m f)"
  by (simp add: outgoing_try_send_def mux_inv_outgoing_send)

lemma mux_inv_remove_stream: "mux_inv p m \<Longrightarrow> mux_inv p (remove_stream sid m)"
  by (auto simp: mux_inv_def remove_stream_def)

lemma mux_inv_register: "mux_inv p m \<Longrightarrow> mux_inv p (snd (register_stream sid m))"
  by (auto simp: mux_inv_def register_stream_def fresh_chan_def less_Suc_eq handler_inv_Suc)

lemma mux_inv_alloc: "mux_inv p m \<Longrightarrow> mux_inv p (snd (alloc_stream m))"
proof -
  assume "mux_inv p m"
  then have "mux_inv p (m\<lparr>next_stream_id := next_stream_id m + 2\<rparr>)"
    by (simp add: mux_inv_def)
  then show ?thesis
    using mux_inv_register [of p "m\<lparr>next_stream_id := next_stream_id m + 2\<rparr>" "next_stream_id m"]
    by (simp add: alloc_stream_def Let_def case_prod_beta)
qed

lemma mux_inv_exit: "mux_inv p m \<Longrightarrow> mux_inv p (io_exit m)"
  by (simp add: mux_inv_def io_exit_def)

lemma mux_inv_outgoing_suffix:
  "mux_inv p m \<Longrightarrow> length fs \<le> length (outgoing m) \<Longrightarrow> mux_inv p (m\<lparr>outgoing := fs\<rparr>)"
  by (simp add: mux_inv_def)

lemma mux_inv_write_batch: "mux_inv p m \<Longrightarrow> mux_inv p (write_batch enc ok m)"
proof (cases "outgoing m")
  case (Cons f fs)
  assume inv: "mux_inv p m"
  obtain out rest where tb: "take_batch enc (MAX_BATCH_BYTES (plat m)) (enc f) fs = (out, rest)"
    by force
  have "mux_inv p (m\<lparr>outgoing := rest\<rparr>)"
    using take_batch_split [OF tb] inv Cons by (intro mux_inv_outgoing_suffix) auto
  then show ?thesis
    by (simp add: write_batch_def Cons tb mux_inv_exit)
qed (simp add: write_batch_def)

lemma mux_inv_read:
  "mux_inv p m \<Longrightarrow> vs_chan s < length (chans m) \<Longrightarrow> vs_read m s = ReadReady v m' \<Longrightarrow> mux_inv p m'"
proof -
  assume inv: "mux_inv p m" "vs_chan s < length (chans m)" and r: "vs_read m s = ReadReady v m'"
  show ?thesis
  proof (cases "queue (chans m ! vs_chan s)")
    case (Cons f fs)
    have "length fs \<le> CHANNEL_BUFFER_SIZE"
      using inv Cons by (auto simp: mux_inv_def dest!: nth_mem)
    then show ?thesis
      using r Cons mux_inv_upd_chan [OF inv(1) _ inv(2), of "\<lambda>c. c\<lparr>queue := fs\<rparr>"]
      by (auto simp: vs_read_def)
  qed (use r inv in \<open>auto simp: vs_read_def split: if_splits\<close>)
qed

lemma mux_inv_set_closed: "mux_inv p m \<Longrightarrow> c < length (chans m) \<Longrightarrow> mux_inv p (set_closed c m)"
  unfolding set_closed_def by (rule mux_inv_upd_chan) auto

lemma mux_inv_close:
  "mux_inv p m \<Longrightarrow> vs_chan s < length (chans m) \<Longrightarrow> mux_inv p (send_state (vs_close m s))"
  by (simp add: vs_close_def mux_inv_outgoing_send mux_inv_set_closed)

lemma mux_inv_drop:
  "mux_inv p m \<Longrightarrow> vs_chan s < length (chans m) \<Longrightarrow> mux_inv p (vs_drop m s)"
  unfolding vs_drop_def Let_def
  by (rule mux_inv_upd_chan) (auto intro: mux_inv_try_send mux_inv_set_closed)

lemma mux_inv_accept:
  "mux_inv p m \<Longrightarrow> incoming_handler m = Some h \<Longrightarrow> hqueue h = s # ss \<Longrightarrow>
    mux_inv p (m\<lparr>incoming_handler := Some (h\<lparr>hqueue := ss\<rparr>)\<rparr>)"
  by (simp add: mux_inv_def)

lemmas mux_inv_ops =
  mux_inv_outgoing_send mux_inv_alloc mux_inv_exit mux_inv_write_batch mux_inv_read
  mux_inv_close mux_inv_drop mux_inv_accept

locale mux_side = frame_loop +
  assumes handle_inv: "mux_inv p m \<Longrightarrow> handle m f = Some m' \<Longrightarrow> mux_inv p m'"
begin

lemma io_iter_inv:
  assumes "mux_inv p m" "io_iter dec handle m = Next m'"
  shows "mux_inv p m'"
  using assms by (auto simp: io_iter_def handle_inv split: if_splits option.splits outcome.splits)

lemma step_inv: "mux_step dec handle enc m m' \<Longrightarrow> mux_inv p m \<Longrightarrow> mux_inv p m'"
  by (induction rule: mux_step.induct) (auto intro: mux_inv_ops io_iter_inv)

lemma reachable_inv: "(mux_step dec handle enc)\<^sup>*\<^sup>* m m' \<Longrightarrow> mux_inv p m \<Longrightarrow> mux_inv p m'"
  by (induction rule: rtranclp_induct) (auto intro: step_inv)

end


section \<open>Stream identifiers\<close>

lemma alloc_ids_eq: "alloc_ids n m = map (\<lambda>i. next_stream_id m + 2 * of_nat i) [0..<n]"
proof (induction n arbitrary: m)
  case (Suc n)
  have "alloc_ids n (snd (alloc_stream m))
      = map (\<lambda>i. next_stream_id m + 2 + 2 * of_nat i) [0..<n]"
    by (simp add: Suc alloc_stream_def register_stream_def Let_def)
  moreover have "map (\<lambda>i. next_stream_id m + 2 * of_nat i) [0..<Suc n]
      = next_stream_id m # map (\<lambda>i. next_stream_id m + 2 * of_nat (Suc i)) [0..<n]"
    by (simp add: upt_conv_Cons map_Suc_upt [symmetric] comp_def del: upt_Suc)
  ultimately show ?case
    by (simp add: alloc_stream_def register_stream_def Let_def algebra_simps del: upt_Suc)
qed simp

lemma double_of_nat_inject:
  assumes "i < 2 ^ 31" "j < 2 ^ 31" "2 * (of_nat i :: u32) = 2 * of_nat j"
  shows "i = j"
proof -
  have "(of_nat (2 * i) :: u32) = of_nat (2 * j)"
    using assms(3) by simp
  then have "unat (of_nat (2 * i) :: u32) = unat (of_nat (2 * j) :: u32)"
    by simp
  then show ?thesis
    using assms(1,2) unfolding unat_of_nat by simp
qed

lemma alloc_ids_distinct: "n \<le> 2 ^ 31 \<Longrightarrow> distinct (alloc_ids n m)"
  by (auto simp: alloc_ids_eq distinct_map inj_on_def intro: double_of_nat_inject)

lemma alloc_ids_parity: "sid \<in> set (alloc_ids n m) \<Longrightarrow> odd sid = odd (next_stream_id m)"
  by (auto simp: alloc_ids_eq)


section \<open>Closing a stream\<close>

text \<open>What the holders of one stream (the stream and its writers) can do with it.\<close>

datatype stream_op = OpRead | OpWrite bytes | OpClose | OpWriterClose | OpDrop

fun send_all_state :: "send_all \<Rightarrow> mux" where
  "send_all_state (AllSent m) = m"
| "send_all_state (SendFailed m) = m"
| "send_all_state (SendParked m _) = m"

fun run_stream_op :: "VirtualStream \<Rightarrow> mux \<Rightarrow> stream_op \<Rightarrow> mux" where
  "run_stream_op s m OpRead = (case vs_read m s of ReadReady _ m' \<Rightarrow> m' | ReadWait \<Rightarrow> m)"
| "run_stream_op s m (OpWrite d) = send_all_state (vs_write m s d)"
| "run_stream_op s m OpClose = send_state (vs_close m s)"
| "run_stream_op s m OpWriterClose = send_state (vs_close m s)"
| "run_stream_op s m OpDrop = vs_drop m s"

definition fin_count :: "u32 \<Rightarrow> mux \<Rightarrow> nat" where
  "fin_count sid m =
    length (filter (\<lambda>f. stream_id f = sid \<and> frame_type f = Fin) (outgoing m))"

text \<open>The FINs the stream may still send: one until it is closed.\<close>

definition fin_budget :: "VirtualStream \<Rightarrow> mux \<Rightarrow> nat" where
  "fin_budget s m = (if closed (chans m ! vs_chan s) then 0 else 1)"

lemma fin_count_upd_chan [simp]: "fin_count sid (upd_chan c f m) = fin_count sid m"
  by (simp add: fin_count_def)

lemma fin_count_send:
  "fin_count sid (send_state (outgoing_send m f))
    \<le> fin_count sid m + (if stream_id f = sid \<and> frame_type f = Fin then 1 else 0)"
  by (auto simp: fin_count_def outgoing_send_def)

lemma chans_outgoing_send [simp]: "chans (send_state (outgoing_send m f)) = chans m"
  by (simp add: outgoing_send_def)

lemma send_frames_no_fin:
  "\<forall>f \<in> set fs. frame_type f \<noteq> Fin \<Longrightarrow>
    fin_count sid (send_all_state (send_frames m fs)) = fin_count sid m
    \<and> chans (send_all_state (send_frames m fs)) = chans m"
  by (induction m fs rule: send_frames.induct)
    (auto simp: fin_count_def split: send.splits dest!: outgoing_send_cases)

lemma fin_close:
  assumes "vs_chan s < length (chans m)"
  shows "fin_count (vs_id s) (send_state (vs_close m s)) + fin_budget s (send_state (vs_close m s))
    \<le> fin_count (vs_id s) m + fin_budget s m"
  using assms fin_count_send [of "vs_id s" "set_closed (vs_chan s) m" "frame_fin (vs_id s)"]
  by (auto simp: vs_close_def fin_budget_def frame_ctor_defs set_closed_def)

lemma fin_drop:
  assumes "vs_chan s < length (chans m)"
  shows "fin_count (vs_id s) (vs_drop m s) + fin_budget s (vs_drop m s)
    \<le> fin_count (vs_id s) m + fin_budget s m"
  using assms fin_count_send [of "vs_id s" "set_closed (vs_chan s) m" "frame_fin (vs_id s)"]
  by (auto simp: vs_drop_def Let_def fin_budget_def frame_ctor_defs set_closed_def
      outgoing_try_send_def)

lemma fin_read:
  assumes "vs_chan s < length (chans m)"
  shows "fin_count sid (run_stream_op s m OpRead) = fin_count sid m
    \<and> fin_budget s (run_stream_op s m OpRead) = fin_budget s m"
  using assms by (auto simp: vs_read_def fin_budget_def split: list.splits)

lemma fin_write:
  "fin_count sid (run_stream_op s m (OpWrite d)) = fin_count sid m
    \<and> fin_budget s (run_stream_op s m (OpWrite d)) = fin_budget s m"
  using send_frames_no_fin [of "map (frame_data (vs_id s)) (data_chunks (plat m) d)" sid m]
  by (simp add: vs_write_def send_data_frames_def frame_ctor_defs fin_budget_def)

lemma length_chans_stream_op [simp]: "length (chans (run_stream_op s m op)) = length (chans m)"
proof (cases op)
  case (OpWrite d)
  then show ?thesis
    using send_frames_no_fin [of "map (frame_data (vs_id s)) (data_chunks (plat m) d)" 0 m]
    by (simp add: vs_write_def send_data_frames_def frame_ctor_defs)
qed (auto simp: vs_read_def vs_close_def vs_drop_def Let_def split: list.splits)

lemma fin_stream_op:
  assumes "vs_chan s < length (chans m)"
  shows "fin_count (vs_id s) (run_stream_op s m op) + fin_budget s (run_stream_op s m op)
    \<le> fin_count (vs_id s) m + fin_budget s m"
proof (cases op)
  case OpRead
  then show ?thesis
    using fin_read [OF assms, of "vs_id s"] by simp
next
  case (OpWrite d)
  then show ?thesis
    using fin_write [of "vs_id s" s m d] by simp
qed (use fin_close [OF assms] fin_drop [OF assms] in auto)

lemma fin_stream_ops:
  "vs_chan s < length (chans m) \<Longrightarrow>
    fin_count (vs_id s) (foldl (run_stream_op s) m ops) + fin_budget s (foldl (run_stream_op s) m ops)
    \<le> fin_count (vs_id s) m + fin_budget s m"
proof (induction ops arbitrary: m)
  case (Cons op ops)
  have "fin_count (vs_id s) (run_stream_op s m op) + fin_budget s (run_stream_op s m op)
      \<le> fin_count (vs_id s) m + fin_budget s m"
    by (rule fin_stream_op [OF Cons.prems])
  moreover have "vs_chan s < length (chans (run_stream_op s m op))"
    using Cons.prems by simp
  then have "fin_count (vs_id s) (foldl (run_stream_op s) (run_stream_op s m op) ops)
      + fin_budget s (foldl (run_stream_op s) (run_stream_op s m op) ops)
      \<le> fin_count (vs_id s) (run_stream_op s m op) + fin_budget s (run_stream_op s m op)"
    by (rule Cons.IH)
  ultimately show ?case
    by simp
qed simp


section \<open>Draining the outgoing queue\<close>

lemma write_batch_progress:
  assumes "outgoing m = f # fs"
  shows "\<exists>sent rest. outgoing m = sent @ rest \<and> sent \<noteq> []
    \<and> write_batch enc True m
      = m\<lparr>outgoing := rest, written := written m @ concat (map enc sent)\<rparr>"
proof -
  obtain out rest where tb: "take_batch enc (MAX_BATCH_BYTES (plat m)) (enc f) fs = (out, rest)"
    by force
  then obtain sent where "fs = sent @ rest" "out = enc f @ concat (map enc sent)"
    using take_batch_split by blast
  then show ?thesis
    using assms tb by (intro exI [of _ "f # sent"] exI [of _ rest]) (simp add: write_batch_def)
qed

lemma write_batches:
  "length (outgoing m) \<le> n \<Longrightarrow>
    (write_batch enc True ^^ n) m
      = m\<lparr>outgoing := [], written := written m @ concat (map enc (outgoing m))\<rparr>"
proof (induction n arbitrary: m)
  case (Suc n)
  have unfold: "(write_batch enc True ^^ Suc n) m
      = (write_batch enc True ^^ n) (write_batch enc True m)"
    by (simp add: funpow_swap1)
  show ?case
  proof (cases "outgoing m")
    case Nil
    then have "write_batch enc True m = m"
      by (simp add: write_batch_def)
    then show ?thesis
      using Suc.IH [of m] Nil by (simp only: unfold) simp
  next
    case (Cons f fs)
    obtain sent rest where s: "outgoing m = sent @ rest" "sent \<noteq> []"
        "write_batch enc True m
          = m\<lparr>outgoing := rest, written := written m @ concat (map enc sent)\<rparr>"
      using write_batch_progress [OF Cons] by blast
    have "length rest \<le> n"
      using Suc.prems s by (cases sent) auto
    then show ?thesis
      using Suc.IH [of "write_batch enc True m"] s by (simp only: unfold) simp
  qed
qed simp

end
