(* ===== verification/Vsock_Host.thy ===== *)
theory Vsock_Host
  imports Vsock_Mux
begin

text \<open>
  The host's multiplexer (\<open>crates/nilbox-core/src/vsock/stream.rs\<close>): odd stream
  ids, new streams on \<open>ReverseRequest\<close>, \<open>DnsRequest\<close> and \<open>HostConnect\<close>, and a
  five-second bound on the delivery to a slow consumer.
\<close>

section \<open>Operations\<close>

definition host_mux_new :: "platform \<Rightarrow> handler option \<Rightarrow> mux" where
  "host_mux_new p h = mux_new p 1 h"

definition host_create_stream :: "u32 \<Rightarrow> mux \<Rightarrow> VirtualStream \<times> mux send" where
  "host_create_stream target_port m = open_stream (\<lambda>sid. frame_connect sid target_port) m"

definition is_terminal :: "Frame \<Rightarrow> bool" where
  "is_terminal f \<longleftrightarrow> frame_type f = Fin \<or> frame_type f = Rst"

definition push_frame :: "nat \<Rightarrow> Frame \<Rightarrow> mux \<Rightarrow> mux" where
  "push_frame c f m = upd_chan c (\<lambda>c. c\<lparr>queue := queue c @ [f]\<rparr>) m"

text \<open>
  A frame for a registered stream: the send waits at most five seconds, so a
  channel that is still full then is a timeout, which resets the stream.
\<close>

definition host_deliver :: "mux \<Rightarrow> nat \<Rightarrow> Frame \<Rightarrow> mux" where
  "host_deliver m c f =
    (if \<not> rx_alive (chans m ! c) then remove_stream (stream_id f) m
     else if length (queue (chans m ! c)) < CHANNEL_BUFFER_SIZE then
       (let m' = push_frame c f m in if is_terminal f then remove_stream (stream_id f) m' else m')
     else outgoing_try_send (remove_stream (stream_id f) m) (frame_rst (stream_id f)))"

text \<open>
  A new incoming stream: registered, offered to the handler, and either given its
  first frame or rejected with RST (its drop then sends no FIN).
\<close>

definition accept_stream :: "mux \<Rightarrow> handler \<Rightarrow> Frame \<Rightarrow> FrameType option \<Rightarrow> mux" where
  "accept_stream m h f ift =
    (case register_stream (stream_id f) m of (c, m1) \<Rightarrow>
      let s = \<lparr>vs_id = stream_id f, initial_frame_type = ift, vs_chan = c\<rparr>
      in if hopen h \<and> length (hqueue h) < hcap h
         then push_frame c f (m1\<lparr>incoming_handler := Some (h\<lparr>hqueue := hqueue h @ [s]\<rparr>)\<rparr>)
         else vs_drop (outgoing_try_send (remove_stream (stream_id f) (suppress_drop_close m1 s))
                (frame_rst (stream_id f))) s)"

definition host_handle_frame :: "mux \<Rightarrow> Frame \<Rightarrow> mux option" where
  "host_handle_frame m f =
    (if frame_type f = WindowUpdate then Some m
     else case streams m (stream_id f) of
       Some c \<Rightarrow> Some (host_deliver m c f)
     | None \<Rightarrow>
         if frame_type f \<in> {ReverseRequest, DnsRequest, HostConnect} then
           (case incoming_handler m of
              Some h \<Rightarrow> Some (accept_stream m h f (Some (frame_type f)))
            | None \<Rightarrow> Some m)
         else Some m)"

abbreviation host_step :: "mux \<Rightarrow> mux \<Rightarrow> bool" where
  "host_step \<equiv> mux_step decode host_handle_frame encode"

abbreviation host_feed :: "mux \<Rightarrow> bytes \<Rightarrow> mux" where
  "host_feed \<equiv> feed decode host_handle_frame"


section \<open>Laws of the handlers\<close>

lemma mux_inv_push_frame:
  assumes "mux_inv p m" "c < length (chans m)" "length (queue (chans m ! c)) < CHANNEL_BUFFER_SIZE"
  shows "mux_inv p (push_frame c f m)"
  using assms
  by (auto simp: mux_inv_def push_frame_def upd_chan_def
      dest!: set_update_subset_insert [THEN subsetD])

lemma push_frame_buf: "push_frame c f (m\<lparr>buf := b\<rparr>) = (push_frame c f m)\<lparr>buf := b\<rparr>"
  by (simp add: push_frame_def upd_chan_def)

lemma ops_buf:
  "remove_stream sid (m\<lparr>buf := b\<rparr>) = (remove_stream sid m)\<lparr>buf := b\<rparr>"
  "outgoing_try_send (m\<lparr>buf := b\<rparr>) f = (outgoing_try_send m f)\<lparr>buf := b\<rparr>"
  "set_closed c (m\<lparr>buf := b\<rparr>) = (set_closed c m)\<lparr>buf := b\<rparr>"
  "suppress_drop_close (m\<lparr>buf := b\<rparr>) s = (suppress_drop_close m s)\<lparr>buf := b\<rparr>"
  "vs_drop (m\<lparr>buf := b\<rparr>) s = (vs_drop m s)\<lparr>buf := b\<rparr>"
  by (simp_all add: remove_stream_def outgoing_try_send_def outgoing_send_def set_closed_def
      suppress_drop_close_def upd_chan_def vs_drop_def Let_def)

lemma accept_stream_buf:
  "accept_stream (m\<lparr>buf := b\<rparr>) h f t = (accept_stream m h f t)\<lparr>buf := b\<rparr>"
  by (cases m) (simp add: accept_stream_def register_stream_def push_frame_def upd_chan_def
      remove_stream_def outgoing_try_send_def outgoing_send_def set_closed_def
      suppress_drop_close_def vs_drop_def Let_def)

lemma mux_inv_accept_stream:
  assumes "mux_inv p m" "incoming_handler m = Some h"
  shows "mux_inv p (accept_stream m h f t)"
proof -
  obtain c m1 where r: "register_stream (stream_id f) m = (c, m1)"
    by force
  then have m1: "mux_inv p m1" "c < length (chans m1)" "queue (chans m1 ! c) = []"
      "incoming_handler m1 = Some h"
    using mux_inv_register [OF assms(1), of "stream_id f"] assms(2)
    by (auto simp: register_stream_def fresh_chan_def)
  let ?s = "\<lparr>vs_id = stream_id f, initial_frame_type = t, vs_chan = c\<rparr>"
  have "mux_inv p (m1\<lparr>incoming_handler := Some (h\<lparr>hqueue := hqueue h @ [?s]\<rparr>)\<rparr>)"
    if "length (hqueue h) < hcap h"
    using m1 that by (auto simp: mux_inv_def)
  moreover have "mux_inv p (suppress_drop_close m1 ?s)"
    using m1 by (simp add: suppress_drop_close_def mux_inv_set_closed)
  then have "mux_inv p (outgoing_try_send (remove_stream sid (suppress_drop_close m1 ?s)) g)" for sid g
    by (intro mux_inv_try_send mux_inv_remove_stream)
  ultimately show ?thesis
    using m1
    by (auto simp: accept_stream_def r Let_def CHANNEL_BUFFER_SIZE_def suppress_drop_close_def
        remove_stream_def intro!: mux_inv_push_frame mux_inv_drop)
qed

lemma mux_inv_host_deliver:
  "mux_inv p m \<Longrightarrow> streams m (stream_id f) = Some c \<Longrightarrow> mux_inv p (host_deliver m c f)"
  by (auto simp: host_deliver_def Let_def dest: mux_inv_chan_lt
      intro!: mux_inv_remove_stream mux_inv_try_send mux_inv_push_frame)

interpretation host_side: mux_side decode host_handle_frame
proof unfold_locales
  show "decode (encode f @ r) = Ok f" if "sendable f" for f r
    by (rule decode_encode_append [OF that])
  show "host_handle_frame (m\<lparr>buf := b\<rparr>) f
      = map_option (\<lambda>m'. m'\<lparr>buf := b\<rparr>) (host_handle_frame m f)" for m b f
    by (auto simp: host_handle_frame_def host_deliver_def Let_def push_frame_buf ops_buf
        accept_stream_buf split: option.splits)
  show "mux_inv p m \<Longrightarrow> host_handle_frame m f = Some m' \<Longrightarrow> mux_inv p m'" for p m f m'
    by (auto simp: host_handle_frame_def mux_inv_host_deliver mux_inv_accept_stream
        split: if_splits option.splits)
qed

lemma host_handle_total: "\<exists>m'. host_handle_frame m f = Some m'"
  by (auto simp: host_handle_frame_def split: option.splits)

lemma host_handle_frames_total: "\<exists>m'. handle_frames host_handle_frame m fs = Some m'"
  using host_handle_total by (induction fs arbitrary: m) (force split: option.splits)+

end
