(* ===== verification/Vsock_Guest.thy ===== *)
theory Vsock_Guest
  imports Vsock_Host
begin

text \<open>
  The guest's multiplexer (\<open>vm-agent/src/vsock/stream.rs\<close>): even stream ids, four
  kinds of opening frame, new streams on \<open>ReverseRequest\<close> and \<open>Connect\<close>, and an
  unbounded wait for room in a stream's channel.  The guest's \<open>VirtualStream\<close> has
  no \<open>initial_frame_type\<close>; the field is \<open>None\<close> here.
\<close>

section \<open>Operations\<close>

definition guest_mux_new :: "handler option \<Rightarrow> mux" where
  "guest_mux_new h = mux_new NotMacOS 2 h"

definition guest_create_stream :: "u32 \<Rightarrow> mux \<Rightarrow> VirtualStream \<times> mux send" where
  "guest_create_stream target_port m = open_stream (\<lambda>sid. frame_connect sid target_port) m"

definition guest_create_reverse_stream :: "bytes \<Rightarrow> mux \<Rightarrow> VirtualStream \<times> mux send" where
  "guest_create_reverse_stream initial_payload m =
    open_stream (\<lambda>sid. frame_reverse_request sid initial_payload) m"

definition guest_create_dns_stream :: "bytes \<Rightarrow> mux \<Rightarrow> VirtualStream \<times> mux send" where
  "guest_create_dns_stream p m = open_stream (\<lambda>sid. frame_dns_request sid p) m"

definition guest_create_host_connect_stream :: "u32 \<Rightarrow> u8 \<Rightarrow> mux \<Rightarrow> VirtualStream \<times> mux send" where
  "guest_create_host_connect_stream target_port mode m =
    open_stream (\<lambda>sid. frame_host_connect sid target_port mode) m"

text \<open>\<open>tx.send(frame).await\<close> has no time bound: a full channel blocks the IO loop.\<close>

definition guest_deliver :: "mux \<Rightarrow> nat \<Rightarrow> Frame \<Rightarrow> mux option" where
  "guest_deliver m c f =
    (if \<not> rx_alive (chans m ! c) then Some (remove_stream (stream_id f) m)
     else if length (queue (chans m ! c)) < CHANNEL_BUFFER_SIZE then
       (let m' = push_frame c f m
        in Some (if is_terminal f then remove_stream (stream_id f) m' else m'))
     else None)"

definition guest_handle_frame :: "mux \<Rightarrow> Frame \<Rightarrow> mux option" where
  "guest_handle_frame m f =
    (case streams m (stream_id f) of
       Some c \<Rightarrow> guest_deliver m c f
     | None \<Rightarrow>
         if frame_type f = ReverseRequest \<or> frame_type f = Connect then
           (case incoming_handler m of
              Some h \<Rightarrow> Some (accept_stream m h f None)
            | None \<Rightarrow> Some m)
         else Some m)"

abbreviation guest_step :: "mux \<Rightarrow> mux \<Rightarrow> bool" where
  "guest_step \<equiv> mux_step guest_decode guest_handle_frame guest_encode"

abbreviation guest_feed :: "mux \<Rightarrow> bytes \<Rightarrow> mux" where
  "guest_feed \<equiv> feed guest_decode guest_handle_frame"


section \<open>Laws\<close>

lemma mux_inv_guest_deliver:
  "mux_inv p m \<Longrightarrow> streams m (stream_id f) = Some c \<Longrightarrow> guest_deliver m c f = Some m' \<Longrightarrow>
    mux_inv p m'"
  by (auto simp: guest_deliver_def Let_def dest: mux_inv_chan_lt split: if_splits
      intro!: mux_inv_remove_stream mux_inv_push_frame)

interpretation guest_side: mux_side guest_decode guest_handle_frame
proof unfold_locales
  show "guest_decode (encode f @ r) = Ok f" if "sendable f" for f r
    using decode_encode_append [OF that] by (simp add: guest_codec_eq)
  show "guest_handle_frame (m\<lparr>buf := b\<rparr>) f
      = map_option (\<lambda>m'. m'\<lparr>buf := b\<rparr>) (guest_handle_frame m f)" for m b f
    by (auto simp: guest_handle_frame_def guest_deliver_def Let_def push_frame_buf ops_buf
        accept_stream_buf split: option.splits)
  show "mux_inv p m \<Longrightarrow> guest_handle_frame m f = Some m' \<Longrightarrow> mux_inv p m'" for p m f m'
    by (auto simp: guest_handle_frame_def mux_inv_guest_deliver mux_inv_accept_stream
        split: if_splits option.splits)
qed


section \<open>Properties\<close>

text \<open>C31: however the bytes of the guest's frames are cut into reads, the host's IO loop
  hands exactly those frames, in order, to its frame handler and ends with an empty buffer.\<close>

theorem host_reassembles:
  assumes "list_all sendable fs" "buf m = []" "concat cs = stream_bytes fs"
  shows "\<exists>m'. handle_frames host_handle_frame m fs = Some m'
    \<and> foldl host_feed m cs = m'\<lparr>buf := []\<rparr>"
proof -
  obtain m' where "handle_frames host_handle_frame m fs = Some m'"
    using host_handle_frames_total by blast
  then show ?thesis
    using host_side.feed_stream [of fs m m' cs] assms by (auto simp: incomplete_def)
qed

theorem host_reassembles_witness:
  "\<exists>m'. handle_frames host_handle_frame (host_mux_new NotMacOS None) [frame_fin 2] = Some m'
    \<and> foldl host_feed (host_mux_new NotMacOS None) [[0, 0, 0], [2, 3, 0, 0], [0, 0]]
        = m'\<lparr>buf := []\<rparr>"
  by (rule host_reassembles)
    (simp_all add: sendable_def frame_ctor_defs host_mux_new_def mux_new_def encode_def
      put_u32_be_def nat_to_le_unfold)

text \<open>C5: end to end: the frames queued on the host reach the guest's frame handler
  exactly and in order, whatever the batching of the host's writes and however the transport
  cuts the bytes, as long as no guest stream blocks; the host's queue is then empty.\<close>

theorem host_to_guest_delivery:
  assumes "list_all sendable (outgoing h)" "written h = []"
    and "(write_batch encode True ^^ length (outgoing h)) h = h'"
    and "concat cs = written h'" "buf g = []"
    and "handle_frames guest_handle_frame g (outgoing h) = Some g'"
  shows "foldl guest_feed g cs = g'\<lparr>buf := []\<rparr> \<and> outgoing h' = []"
proof -
  have h': "h' = h\<lparr>outgoing := [], written := stream_bytes (outgoing h)\<rparr>"
    using write_batches [of h "length (outgoing h)" encode] assms(2,3)
    by (simp add: stream_bytes_def)
  then have "buf g @ concat cs = stream_bytes (outgoing h)"
    using assms(4,5) by simp
  then show ?thesis
    using guest_side.feed_stream [OF assms(1,6)] assms(5) h' by (simp add: incomplete_def)
qed

definition sample_host :: mux where
  "sample_host = (host_mux_new NotMacOS None)\<lparr>outgoing := [frame_rst 4]\<rparr>"

theorem host_to_guest_delivery_witness:
  "foldl guest_feed (guest_mux_new None) [[0, 0, 0, 4], [4, 0, 0, 0, 0]]
      = (guest_mux_new None)\<lparr>buf := []\<rparr>
    \<and> outgoing (sample_host\<lparr>outgoing := [], written := [0, 0, 0, 4, 4, 0, 0, 0, 0]\<rparr>) = []"
  by (rule host_to_guest_delivery [where h = sample_host])
    (simp_all add: sample_host_def sendable_def frame_ctor_defs host_mux_new_def guest_mux_new_def
      mux_new_def write_batch_def encode_def put_u32_be_def nat_to_le_unfold guest_handle_frame_def)

text \<open>C4: no stream id is ever used by both sides, and neither side reuses one within its
  first 2^31 streams, although the 32-bit counter wraps.\<close>

theorem stream_ids_disjoint:
  assumes "n \<le> 2 ^ 31" "k \<le> 2 ^ 31"
  shows "distinct (alloc_ids n (host_mux_new p h) @ alloc_ids k (guest_mux_new g))"
proof -
  have "odd i" if "i \<in> set (alloc_ids n (host_mux_new p h))" for i
    using alloc_ids_parity [OF that] by (simp add: host_mux_new_def mux_new_def)
  moreover have "even i" if "i \<in> set (alloc_ids k (guest_mux_new g))" for i
    using alloc_ids_parity [OF that] by (simp add: guest_mux_new_def mux_new_def)
  ultimately show ?thesis
    using assms by (auto simp: alloc_ids_distinct)
qed

theorem stream_ids_disjoint_witness:
  "distinct (alloc_ids 3 (host_mux_new MacOS None) @ alloc_ids 2 (guest_mux_new None))"
  by (rule stream_ids_disjoint) simp_all



text \<open>whatever sequence of reads, writes, closes (of the stream or of its writers) and
  drops is applied to a stream, at most one FIN is queued for it, and none once it is closed.\<close>

theorem at_most_one_fin:
  assumes "vs_chan s < length (chans m)"
  shows "fin_count (vs_id s) (foldl (run_stream_op s) m ops)
    \<le> fin_count (vs_id s) m + (if closed (chans m ! vs_chan s) then 0 else 1)"
  using fin_stream_ops [OF assms, of ops] by (simp add: fin_budget_def)

definition sample_open :: "VirtualStream \<times> mux" where
  "sample_open = alloc_stream (host_mux_new NotMacOS None)"

theorem at_most_one_fin_witness:
  "fin_count 1 (foldl (run_stream_op (fst sample_open)) (snd sample_open)
      [OpWriterClose, OpClose, OpDrop]) \<le> 1"
  using at_most_one_fin [of "fst sample_open" "snd sample_open" "[OpWriterClose, OpClose, OpDrop]"]
  by (simp add: sample_open_def alloc_stream_def register_stream_def host_mux_new_def mux_new_def
      Let_def fin_count_def fresh_chan_def)

text \<open>a header with a type byte that names no frame type is never consumed: every later
  read only appends to the buffer and no further frame is handled, on either side.\<close>

theorem unknown_type_stalls:
  assumes "9 \<le> length (buf m)" "frame_type_try_from (buf m ! 4) = None"
  shows "foldl host_feed m cs = m\<lparr>buf := buf m @ concat cs\<rparr>
    \<and> foldl guest_feed m cs = m\<lparr>buf := buf m @ concat cs\<rparr>"
  using host_side.stalled_forever [OF assms] guest_side.stalled_forever [OF assms] by blast

definition sample_stalled :: mux where
  "sample_stalled = (host_mux_new NotMacOS None)\<lparr>buf := [0, 0, 0, 2, 0x0D, 0, 0, 0, 0]\<rparr>"

theorem unknown_type_stalls_witness:
  "foldl host_feed sample_stalled [encode (frame_fin 2)]
      = sample_stalled\<lparr>buf := buf sample_stalled @ concat [encode (frame_fin 2)]\<rparr>
   \<and> foldl guest_feed sample_stalled [encode (frame_fin 2)]
      = sample_stalled\<lparr>buf := buf sample_stalled @ concat [encode (frame_fin 2)]\<rparr>"
  by (rule unknown_type_stalls) (simp_all add: sample_stalled_def frame_type_try_from_def)

end
