(* ===== verification/Domain_Store.thy ===== *)
theory Domain_Store
  imports Prelude "HOL-Library.Char_ord" "HOL-Library.List_Lexorder"
begin

text \<open>
  The domain policy tables of \<open>crates/nilbox-core/src/config_store.rs\<close>: allowlist,
  denylist, token accounts per domain, block log, and the in-memory bypass cache.
  A table is the list of its rows; SQL constraints (primary key, \<open>UNIQUE\<close>, the
  foreign key with \<open>ON DELETE CASCADE\<close>) are written out in the operations.
  \<open>added_at\<close> has a resolution of one second, so rows come in insertion order here;
  failures of the database itself (I/O, poisoned lock) are outside the model.
\<close>

section \<open>Domains\<close>

text \<open>
  \<open>parent_domains\<close>: every suffix after a dot that still contains a dot.
\<close>

fun parent_domains :: "string \<Rightarrow> string list" where
  "parent_domains [] = []"
| "parent_domains (c # rest) =
    (if c = CHR ''.'' then (if CHR ''.'' \<in> set rest then [rest] else []) @ parent_domains rest
     else parent_domains rest)"

text \<open>\<open>matches_domain_set\<close> of \<open>proxy/domain_gate.rs\<close>.\<close>

definition wildcard_matches :: "string \<Rightarrow> string \<Rightarrow> bool" where
  "wildcard_matches entry domain =
    (case strip_prefix entry ''*.'' of
       Some suffix \<Rightarrow> domain = suffix \<or> ends_with domain (''.'' @ suffix)
     | None \<Rightarrow> False)"

definition matches_domain_set :: "string list \<Rightarrow> string \<Rightarrow> bool" where
  "matches_domain_set S domain =
    (if domain \<in> set S then True
     else if list_ex (\<lambda>p. p \<in> set S) (parent_domains domain) then True
     else list_ex (\<lambda>entry. wildcard_matches entry domain) S)"

text \<open>What an entry covers: itself, its subdomains when it has at least two labels,
  and for \<open>*.s\<close> the domain \<open>s\<close> and all its subdomains.\<close>

definition subdomain_of :: "string \<Rightarrow> string \<Rightarrow> bool" where
  "subdomain_of d p \<longleftrightarrow> (\<exists>l. d = l @ ''.'' @ p)"

definition covers :: "string \<Rightarrow> string \<Rightarrow> bool" where
  "covers e d \<longleftrightarrow> d = e \<or> (CHR ''.'' \<in> set e \<and> subdomain_of d e)
     \<or> (\<exists>s. e = ''*.'' @ s \<and> (d = s \<or> subdomain_of d s))"

lemma subdomain_of_Cons:
  "subdomain_of (c # rest) p \<longleftrightarrow> (c = CHR ''.'' \<and> rest = p) \<or> subdomain_of rest p"
proof
  assume "subdomain_of (c # rest) p"
  then obtain l where l: "c # rest = l @ ''.'' @ p"
    by (auto simp: subdomain_of_def)
  then show "(c = CHR ''.'' \<and> rest = p) \<or> subdomain_of rest p"
    by (cases l) (auto simp: subdomain_of_def)
next
  assume "(c = CHR ''.'' \<and> rest = p) \<or> subdomain_of rest p"
  then show "subdomain_of (c # rest) p"
    by (auto simp: subdomain_of_def intro: exI [of _ "[]"] exI [of _ "c # _"])
qed

lemma set_parent_domains:
  "p \<in> set (parent_domains d) \<longleftrightarrow> subdomain_of d p \<and> CHR ''.'' \<in> set p"
proof (induction d)
  case (Cons c rest)
  have "subdomain_of (c # rest) p \<longleftrightarrow> (c = CHR ''.'' \<and> rest = p) \<or> subdomain_of rest p"
    by (rule subdomain_of_Cons)
  then show ?case
    using Cons by auto
qed (simp add: subdomain_of_def)

lemma wildcard_matches_iff:
  "wildcard_matches e d \<longleftrightarrow> (\<exists>s. e = ''*.'' @ s \<and> (d = s \<or> subdomain_of d s))"
proof (cases "strip_prefix e ''*.''")
  case None
  then show ?thesis
    by (auto simp: wildcard_matches_def strip_prefix_def)
next
  case (Some s)
  then have "e = ''*.'' @ s"
    by (simp only: strip_prefix_eq_Some)
  then show ?thesis
    using Some by (simp add: wildcard_matches_def ends_with_iff subdomain_of_def)
qed

lemma matches_domain_set_covers:
  "matches_domain_set S d \<longleftrightarrow> (\<exists>e \<in> set S. covers e d)"
  unfolding matches_domain_set_def covers_def list_ex_iff wildcard_matches_iff [symmetric]
  using set_parent_domains [of _ d] by (auto simp: Bex_def)

lemma matches_domain_set_mono:
  "set S \<subseteq> set T \<Longrightarrow> matches_domain_set S d \<Longrightarrow> matches_domain_set T d"
  by (auto simp: matches_domain_set_covers)


section \<open>Tables\<close>

datatype InspectMode = Inspect | Bypass

fun inspect_mode_as_str :: "InspectMode \<Rightarrow> string" where
  "inspect_mode_as_str Inspect = ''inspect''"
| "inspect_mode_as_str Bypass = ''bypass''"

definition inspect_mode_from_str :: "string \<Rightarrow> InspectMode" where
  "inspect_mode_from_str s = (if s = ''bypass'' then Bypass else Inspect)"

record allow_row =
  ar_domain :: string
  ar_mode :: string
  ar_system :: bool

record AllowlistEntry =
  ae_domain :: string
  token_accounts :: "string list"
  is_system :: bool
  inspect_mode :: InspectMode

record block_log =
  bl_vm :: string
  bl_domain :: string
  bl_port :: u16

record store =
  domain_allowlist :: "allow_row list"
  domain_token_accounts :: "(string \<times> string) list"
  domain_denylist :: "string list"
  domain_block_logs :: "block_log list"
  bypass_cache :: "string list"

definition store_empty :: store where
  "store_empty = \<lparr>domain_allowlist = [], domain_token_accounts = [], domain_denylist = [],
     domain_block_logs = [], bypass_cache = []\<rparr>"

datatype store_error = SystemDomain | ForeignKey | UniqueViolation

definition SYSTEM_ALLOWLIST_DOMAINS :: "string list" where
  "SYSTEM_ALLOWLIST_DOMAINS = [''cdp.nilbox'']"

definition SYSTEM_BYPASS_DOMAINS :: "string list" where
  "SYSTEM_BYPASS_DOMAINS =
    [''registry.npmjs.org'', ''npmjs.org'', ''registry.yarnpkg.com'', ''yarnpkg.com'',
     ''pypi.org'', ''files.pythonhosted.org'', ''pythonhosted.org'', ''rubygems.org'',
     ''api.rubygems.org'', ''crates.io'', ''static.crates.io'', ''proxy.golang.org'',
     ''sum.golang.org'', ''storage.googleapis.com'', ''repo.maven.apache.org'',
     ''repo1.maven.org'', ''plugins.gradle.org'', ''services.gradle.org'',
     ''registry-1.docker.io'', ''auth.docker.io'', ''index.docker.io'',
     ''production.cloudflare.docker.com'', ''npm.pkg.github.com'', ''maven.pkg.github.com'',
     ''nuget.pkg.github.com'', ''api.nuget.org'', ''nuget.org'', ''deb.debian.org'',
     ''security.debian.org'', ''archive.ubuntu.com'', ''security.ubuntu.com'']"

definition find_row :: "store \<Rightarrow> string \<Rightarrow> allow_row option" where
  "find_row s d = find (\<lambda>r. ar_domain r = d) (domain_allowlist s)"

definition has_row :: "store \<Rightarrow> string \<Rightarrow> bool" where
  "has_row s d \<longleftrightarrow> d \<in> ar_domain ` set (domain_allowlist s)"

definition update_rows :: "(allow_row \<Rightarrow> allow_row) \<Rightarrow> string \<Rightarrow> store \<Rightarrow> store" where
  "update_rows f d s =
    s\<lparr>domain_allowlist := map (\<lambda>r. if ar_domain r = d then f r else r) (domain_allowlist s)\<rparr>"


section \<open>Bypass cache\<close>

definition bypass_rows :: "store \<Rightarrow> string list" where
  "bypass_rows s = map ar_domain (filter (\<lambda>r. ar_mode r = ''bypass'') (domain_allowlist s))"

definition refresh_bypass_cache :: "store \<Rightarrow> store" where
  "refresh_bypass_cache s = s\<lparr>bypass_cache := bypass_rows s\<rparr>"

definition is_inspect_bypass_domain :: "store \<Rightarrow> string \<Rightarrow> bool" where
  "is_inspect_bypass_domain s domain \<longleftrightarrow>
    domain \<in> set (bypass_cache s) \<or> list_ex (\<lambda>p. p \<in> set (bypass_cache s)) (parent_domains domain)"


section \<open>Allowlist operations\<close>

definition add_token_row :: "string \<Rightarrow> string \<Rightarrow> store \<Rightarrow> store" where
  "add_token_row d a s =
    (if (d, a) \<in> set (domain_token_accounts s) then s
     else s\<lparr>domain_token_accounts := domain_token_accounts s @ [(d, a)]\<rparr>)"

definition upsert_row :: "string \<Rightarrow> InspectMode \<Rightarrow> store \<Rightarrow> store" where
  "upsert_row d mode s =
    (if has_row s d
     then update_rows (\<lambda>r. if ar_system r then r else r\<lparr>ar_mode := inspect_mode_as_str mode\<rparr>) d s
     else s\<lparr>domain_allowlist := domain_allowlist s
            @ [\<lparr>ar_domain = d, ar_mode = inspect_mode_as_str mode, ar_system = False\<rparr>]\<rparr>)"

definition insert_allowlist_domain_with_mode ::
  "string \<Rightarrow> string option \<Rightarrow> InspectMode \<Rightarrow> store \<Rightarrow> store" where
  "insert_allowlist_domain_with_mode domain token_account mode s =
    (let s1 = upsert_row domain mode s;
         s2 = (case token_account of Some account \<Rightarrow> add_token_row domain account s1 | None \<Rightarrow> s1)
     in if mode = Bypass then refresh_bypass_cache s2 else s2)"

definition insert_allowlist_domain_with_token :: "string \<Rightarrow> string option \<Rightarrow> store \<Rightarrow> store" where
  "insert_allowlist_domain_with_token domain token_account s =
    insert_allowlist_domain_with_mode domain token_account Inspect s"

definition insert_allowlist_domain :: "string \<Rightarrow> store \<Rightarrow> store" where
  "insert_allowlist_domain domain s = insert_allowlist_domain_with_mode domain None Inspect s"

definition delete_allowlist_domain :: "string \<Rightarrow> store \<Rightarrow> (store_error, store) outcome" where
  "delete_allowlist_domain domain s =
    (if (case find_row s domain of Some r \<Rightarrow> ar_system r | None \<Rightarrow> False) then Err SystemDomain
     else Ok (refresh_bypass_cache
       (s\<lparr>domain_allowlist := filter (\<lambda>r. \<not> (ar_domain r = domain \<and> \<not> ar_system r)) (domain_allowlist s),
          domain_token_accounts := filter (\<lambda>t. fst t \<noteq> domain) (domain_token_accounts s)\<rparr>)))"

definition insert_or_ignore :: "string \<Rightarrow> string \<Rightarrow> store \<Rightarrow> store" where
  "insert_or_ignore d mode s =
    (if has_row s d then s
     else s\<lparr>domain_allowlist := domain_allowlist s
            @ [\<lparr>ar_domain = d, ar_mode = mode, ar_system = True\<rparr>]\<rparr>)"

definition seed_system_allow :: "string \<Rightarrow> store \<Rightarrow> store" where
  "seed_system_allow d s =
    update_rows (\<lambda>r. r\<lparr>ar_system := True\<rparr>) d (insert_or_ignore d ''inspect'' s)"

definition seed_system_bypass :: "string \<Rightarrow> store \<Rightarrow> store" where
  "seed_system_bypass d s =
    update_rows (\<lambda>r. if ar_system r then r\<lparr>ar_mode := ''bypass''\<rparr> else r) d
      (insert_or_ignore d ''bypass'' s)"

definition seed_system_bypass_domains :: "store \<Rightarrow> store" where
  "seed_system_bypass_domains s =
    refresh_bypass_cache (fold seed_system_bypass SYSTEM_BYPASS_DOMAINS
      (fold seed_system_allow SYSTEM_ALLOWLIST_DOMAINS s))"

definition DEFAULT_ALLOWLIST :: "string list" where
  "DEFAULT_ALLOWLIST =
    [''api.anthropic.com'', ''api.github.com'', ''api.openai.com'', ''store.nilbox.run'']"

definition seed_default_allowlist :: "store \<Rightarrow> store" where
  "seed_default_allowlist s =
    seed_system_bypass_domains
      (if filter (\<lambda>r. \<not> ar_system r) (domain_allowlist s) = []
       then fold insert_allowlist_domain DEFAULT_ALLOWLIST s else s)"

definition list_allowlist_domains :: "store \<Rightarrow> string list" where
  "list_allowlist_domains s = sort (map ar_domain (domain_allowlist s))"

definition count_allowlist_entries :: "store \<Rightarrow> u32" where
  "count_allowlist_entries s = of_nat (length (domain_allowlist s))"

definition tokens_of :: "store \<Rightarrow> string \<Rightarrow> string list" where
  "tokens_of s d = map snd (filter (\<lambda>t. fst t = d) (domain_token_accounts s))"

definition entry_of :: "store \<Rightarrow> allow_row \<Rightarrow> AllowlistEntry" where
  "entry_of s r =
    \<lparr>ae_domain = ar_domain r, token_accounts = tokens_of s (ar_domain r), is_system = ar_system r,
     inspect_mode = inspect_mode_from_str (ar_mode r)\<rparr>"

definition get_allowlist_entry :: "store \<Rightarrow> string \<Rightarrow> AllowlistEntry option" where
  "get_allowlist_entry s domain =
    (case filter (has_row s) (domain # parent_domains domain) of
       [] \<Rightarrow> None
     | d # _ \<Rightarrow> map_option (entry_of s) (find_row s d))"

definition list_allowlist_entries :: "store \<Rightarrow> AllowlistEntry list" where
  "list_allowlist_entries s =
    map (entry_of s) (sort_key (\<lambda>r. (if ar_system r then [CHR 0x01] else [CHR 0x00]) @ ar_domain r)
      (domain_allowlist s))"

text \<open>\<open>page * page_size\<close> is a \<open>u32\<close> product.\<close>

definition list_allowlist_entries_paginated :: "store \<Rightarrow> u32 \<Rightarrow> u32 \<Rightarrow> AllowlistEntry list" where
  "list_allowlist_entries_paginated s page page_size =
    take (unat page_size) (drop (unat (page * page_size)) (list_allowlist_entries s))"


section \<open>Token accounts and denylist\<close>

definition add_domain_token :: "string \<Rightarrow> string \<Rightarrow> store \<Rightarrow> (store_error, store) outcome" where
  "add_domain_token domain account s =
    (if (domain, account) \<in> set (domain_token_accounts s) then Ok s
     else if has_row s domain then Ok (add_token_row domain account s)
     else Err ForeignKey)"

definition remove_domain_token :: "string \<Rightarrow> string \<Rightarrow> store \<Rightarrow> store" where
  "remove_domain_token domain account s =
    s\<lparr>domain_token_accounts := filter (\<lambda>t. t \<noteq> (domain, account)) (domain_token_accounts s)\<rparr>"

text \<open>One transaction: a duplicate account or a missing domain rolls everything back.\<close>

definition set_domain_tokens :: "string \<Rightarrow> string list \<Rightarrow> store \<Rightarrow> (store_error, store) outcome" where
  "set_domain_tokens domain accounts s =
    (if accounts \<noteq> [] \<and> \<not> has_row s domain then Err ForeignKey
     else if \<not> distinct accounts then Err UniqueViolation
     else Ok (s\<lparr>domain_token_accounts :=
            filter (\<lambda>t. fst t \<noteq> domain) (domain_token_accounts s) @ map (Pair domain) accounts\<rparr>))"

definition list_domain_tokens :: "store \<Rightarrow> string \<Rightarrow> string list" where
  "list_domain_tokens s domain =
    (case filter (\<lambda>d. tokens_of s d \<noteq> []) (domain # parent_domains domain) of
       [] \<Rightarrow> [] | d # _ \<Rightarrow> tokens_of s d)"

definition all_domain_token_accounts :: "store \<Rightarrow> string list" where
  "all_domain_token_accounts s = sort (remdups (map snd (domain_token_accounts s)))"

definition delete_domain_tokens_by_accounts :: "string list \<Rightarrow> store \<Rightarrow> nat \<times> store" where
  "delete_domain_tokens_by_accounts accounts s =
    (length (filter (\<lambda>t. snd t \<in> set accounts) (domain_token_accounts s)),
     s\<lparr>domain_token_accounts := filter (\<lambda>t. snd t \<notin> set accounts) (domain_token_accounts s)\<rparr>)"

definition insert_denylist_domain :: "string \<Rightarrow> store \<Rightarrow> store" where
  "insert_denylist_domain domain s =
    (if domain \<in> set (domain_denylist s) then s
     else s\<lparr>domain_denylist := domain_denylist s @ [domain]\<rparr>)"

definition delete_denylist_domain :: "string \<Rightarrow> store \<Rightarrow> store" where
  "delete_denylist_domain domain s =
    s\<lparr>domain_denylist := filter (\<lambda>d. d \<noteq> domain) (domain_denylist s)\<rparr>"

definition list_denylist_domains :: "store \<Rightarrow> string list" where
  "list_denylist_domains s = sort (domain_denylist s)"

definition insert_block_log :: "string \<Rightarrow> string \<Rightarrow> u16 \<Rightarrow> store \<Rightarrow> store" where
  "insert_block_log vm domain port s =
    s\<lparr>domain_block_logs := domain_block_logs s @ [\<lparr>bl_vm = vm, bl_domain = domain, bl_port = port\<rparr>]\<rparr>"

definition clear_block_logs :: "string \<Rightarrow> store \<Rightarrow> store" where
  "clear_block_logs vm s =
    s\<lparr>domain_block_logs := filter (\<lambda>l. bl_vm l \<noteq> vm) (domain_block_logs s)\<rparr>"


section \<open>Store invariant\<close>

text \<open>
  The SQL constraints, and that the cache misses no bypass row (it may hold a row
  that has since gone back to inspection, see \<open>bypass_cache_stale\<close>).
\<close>

definition store_wf :: "store \<Rightarrow> bool" where
  "store_wf s \<longleftrightarrow> distinct (map ar_domain (domain_allowlist s))
    \<and> distinct (domain_token_accounts s)
    \<and> fst ` set (domain_token_accounts s) \<subseteq> ar_domain ` set (domain_allowlist s)
    \<and> distinct (domain_denylist s)
    \<and> set (bypass_rows s) \<subseteq> set (bypass_cache s)"

lemma store_wf_empty [simp]: "store_wf store_empty"
  by (simp add: store_wf_def store_empty_def bypass_rows_def)

lemma domains_update_rows [simp]:
  "(\<And>r. ar_domain (f r) = ar_domain r) \<Longrightarrow>
    map ar_domain (domain_allowlist (update_rows f d s)) = map ar_domain (domain_allowlist s)"
  by (simp add: update_rows_def comp_def if_distrib cong: if_cong)

lemma domains_upsert:
  "map ar_domain (domain_allowlist (upsert_row d m s))
    = map ar_domain (domain_allowlist s) @ (if has_row s d then [] else [d])"
  by (simp add: upsert_row_def)

lemma domains_insert_or_ignore:
  "map ar_domain (domain_allowlist (insert_or_ignore d m s))
    = map ar_domain (domain_allowlist s) @ (if has_row s d then [] else [d])"
  by (simp add: insert_or_ignore_def)

lemma has_row_iff: "has_row s d \<longleftrightarrow> d \<in> set (map ar_domain (domain_allowlist s))"
  by (simp add: has_row_def)

text \<open>The tables without the cache.\<close>

definition tables_wf :: "store \<Rightarrow> bool" where
  "tables_wf s \<longleftrightarrow> distinct (map ar_domain (domain_allowlist s))
    \<and> distinct (domain_token_accounts s)
    \<and> fst ` set (domain_token_accounts s) \<subseteq> set (map ar_domain (domain_allowlist s))
    \<and> distinct (domain_denylist s)"

lemma store_wf_tables: "store_wf s \<longleftrightarrow> tables_wf s \<and> set (bypass_rows s) \<subseteq> set (bypass_cache s)"
  by (auto simp: store_wf_def tables_wf_def)

lemma tables_wf_refresh [simp]: "tables_wf (refresh_bypass_cache s) = tables_wf s"
  by (simp add: tables_wf_def refresh_bypass_cache_def)

lemma store_wf_refresh: "tables_wf s \<Longrightarrow> store_wf (refresh_bypass_cache s)"
  by (simp add: store_wf_tables) (simp add: refresh_bypass_cache_def bypass_rows_def)

lemma tables_wf_grow:
  assumes "tables_wf s" "domain_token_accounts s' = domain_token_accounts s"
    "domain_denylist s' = domain_denylist s"
    "map ar_domain (domain_allowlist s') = map ar_domain (domain_allowlist s) @ ds"
    "ds = (if has_row s d then [] else [d])"
  shows "tables_wf s'"
  using assms by (auto simp: tables_wf_def has_row_def)

lemma upsert_tables:
  "domain_token_accounts (upsert_row d m s) = domain_token_accounts s"
  "domain_denylist (upsert_row d m s) = domain_denylist s"
  "bypass_cache (upsert_row d m s) = bypass_cache s"
  "domain_block_logs (upsert_row d m s) = domain_block_logs s"
  by (simp_all add: upsert_row_def update_rows_def)

lemma tables_wf_upsert: "tables_wf s \<Longrightarrow> tables_wf (upsert_row d m s)"
  by (rule tables_wf_grow [where s = s and d = d]) (simp_all add: upsert_tables domains_upsert)

lemma has_row_upsert [simp]: "has_row (upsert_row d m s) d"
  using domains_upsert [of d m s] by (simp add: has_row_iff split: if_splits)

lemma tables_wf_add_token: "tables_wf s \<Longrightarrow> has_row s d \<Longrightarrow> tables_wf (add_token_row d a s)"
  by (auto simp: tables_wf_def add_token_row_def has_row_def)

lemma bypass_rows_add_token [simp]: "bypass_rows (add_token_row d a s) = bypass_rows s"
  "bypass_cache (add_token_row d a s) = bypass_cache s"
  by (simp_all add: bypass_rows_def add_token_row_def)

lemma bypass_rows_upsert_inspect: "set (bypass_rows (upsert_row d Inspect s)) \<subseteq> set (bypass_rows s)"
  by (auto simp: bypass_rows_def upsert_row_def update_rows_def split: if_splits)

lemma store_wf_insert:
  assumes "store_wf s"
  shows "store_wf (insert_allowlist_domain_with_mode d a m s)"
proof -
  let ?s1 = "upsert_row d m s"
  define s2 where "s2 = (case a of Some account \<Rightarrow> add_token_row d account ?s1 | None \<Rightarrow> ?s1)"
  have t2: "tables_wf s2"
    using assms tables_wf_upsert [of s d m] tables_wf_add_token [of ?s1 d]
    by (auto simp: store_wf_tables s2_def split: option.split)
  have "set (bypass_rows s2) \<subseteq> set (bypass_cache s2)" if "m = Inspect"
    using assms that bypass_rows_upsert_inspect [of d s]
    by (auto simp: store_wf_tables upsert_tables s2_def split: option.split)
  then have "store_wf (if m = Bypass then refresh_bypass_cache s2 else s2)"
    using t2 store_wf_refresh [OF t2] by (cases m) (simp_all add: store_wf_tables)
  then show ?thesis
    unfolding insert_allowlist_domain_with_mode_def s2_def Let_def .
qed

lemma store_wf_delete:
  assumes "store_wf s" "delete_allowlist_domain d s = Ok s'"
  shows "store_wf s'"
proof -
  let ?s = "s\<lparr>domain_allowlist := filter (\<lambda>r. \<not> (ar_domain r = d \<and> \<not> ar_system r)) (domain_allowlist s),
          domain_token_accounts := filter (\<lambda>t. fst t \<noteq> d) (domain_token_accounts s)\<rparr>"
  have "tables_wf ?s"
    using assms(1) by (auto simp: store_wf_tables tables_wf_def distinct_map_filter)
  then show ?thesis
    using assms(2) store_wf_refresh [of ?s] by (auto simp: delete_allowlist_domain_def split: if_splits)
qed

lemma tables_wf_update_rows:
  "tables_wf s \<Longrightarrow> (\<And>r. ar_domain (f r) = ar_domain r) \<Longrightarrow> tables_wf (update_rows f d s)"
  unfolding tables_wf_def by (simp add: domains_update_rows) (simp add: update_rows_def)

lemma tables_wf_insert_or_ignore: "tables_wf s \<Longrightarrow> tables_wf (insert_or_ignore d m s)"
  by (rule tables_wf_grow [where s = s and d = d])
    (simp_all add: domains_insert_or_ignore insert_or_ignore_def)

lemma tables_wf_seed:
  "tables_wf s \<Longrightarrow> tables_wf (seed_system_allow d s)"
  "tables_wf s \<Longrightarrow> tables_wf (seed_system_bypass d s)"
  by (simp_all add: seed_system_allow_def seed_system_bypass_def tables_wf_update_rows
      tables_wf_insert_or_ignore)

lemma tables_wf_fold:
  "(\<And>d s. tables_wf s \<Longrightarrow> tables_wf (f d s)) \<Longrightarrow> tables_wf s \<Longrightarrow> tables_wf (fold f ds s)"
  by (induction ds arbitrary: s) simp_all

lemma store_wf_insert_defaults: "store_wf s \<Longrightarrow> store_wf (fold insert_allowlist_domain ds s)"
  by (induction ds arbitrary: s) (simp_all add: insert_allowlist_domain_def store_wf_insert)

lemma store_wf_seed_system: "store_wf s \<Longrightarrow> store_wf (seed_system_bypass_domains s)"
  unfolding seed_system_bypass_domains_def
  by (intro store_wf_refresh tables_wf_fold tables_wf_seed) (simp_all add: store_wf_tables)

lemma store_wf_seed: "store_wf s \<Longrightarrow> store_wf (seed_default_allowlist s)"
  by (simp add: seed_default_allowlist_def store_wf_seed_system store_wf_insert_defaults)


section \<open>Sequences of operations\<close>

datatype store_op =
    InsertAllow string "string option" InspectMode | DeleteAllow string | SeedDefaults
  | AddToken string string | RemoveToken string string | SetTokens string "string list"
  | DeleteTokens "string list" | InsertDeny string | DeleteDeny string
  | LogBlock string string u16 | ClearLog string

definition ok_or :: "'a \<Rightarrow> ('e, 'a) outcome \<Rightarrow> 'a" where
  "ok_or a r = (case r of Ok b \<Rightarrow> b | _ \<Rightarrow> a)"

fun run_store_op :: "store \<Rightarrow> store_op \<Rightarrow> store" where
  "run_store_op s (InsertAllow d a m) = insert_allowlist_domain_with_mode d a m s"
| "run_store_op s (DeleteAllow d) = ok_or s (delete_allowlist_domain d s)"
| "run_store_op s SeedDefaults = seed_default_allowlist s"
| "run_store_op s (AddToken d a) = ok_or s (add_domain_token d a s)"
| "run_store_op s (RemoveToken d a) = remove_domain_token d a s"
| "run_store_op s (SetTokens d as) = ok_or s (set_domain_tokens d as s)"
| "run_store_op s (DeleteTokens as) = snd (delete_domain_tokens_by_accounts as s)"
| "run_store_op s (InsertDeny d) = insert_denylist_domain d s"
| "run_store_op s (DeleteDeny d) = delete_denylist_domain d s"
| "run_store_op s (LogBlock vm d p) = insert_block_log vm d p s"
| "run_store_op s (ClearLog vm) = clear_block_logs vm s"

lemma store_wf_tokens:
  assumes "store_wf s" "distinct ts" "fst ` set ts \<subseteq> ar_domain ` set (domain_allowlist s)"
  shows "store_wf (s\<lparr>domain_token_accounts := ts\<rparr>)"
  using assms by (simp add: store_wf_def bypass_rows_def)

lemma store_wf_op: "store_wf s \<Longrightarrow> store_wf (run_store_op s op)"
proof (cases op)
  case (SetTokens d as)
  assume wf: "store_wf s"
  have "distinct (filter (\<lambda>t. fst t \<noteq> d) (domain_token_accounts s) @ map (Pair d) as)"
    if "distinct as"
    using wf that by (auto simp: store_wf_def distinct_map inj_on_def)
  then show ?thesis
    using wf SetTokens
    by (auto simp: ok_or_def set_domain_tokens_def has_row_def store_wf_def bypass_rows_def
        split: outcome.splits if_splits)
next
  case (AddToken d a)
  assume "store_wf s"
  then show ?thesis
    using AddToken by (auto simp: ok_or_def add_domain_token_def add_token_row_def store_wf_def
        bypass_rows_def has_row_def)
next
  case (InsertAllow d a m)
  then show "store_wf s \<Longrightarrow> ?thesis"
    by (simp add: store_wf_insert)
next
  case (DeleteAllow d)
  then show "store_wf s \<Longrightarrow> ?thesis"
    by (auto simp: ok_or_def store_wf_delete split: outcome.split)
next
  case SeedDefaults
  then show "store_wf s \<Longrightarrow> ?thesis"
    by (simp add: store_wf_seed)
qed (auto simp: remove_domain_token_def delete_domain_tokens_by_accounts_def
    insert_denylist_domain_def delete_denylist_domain_def insert_block_log_def
    clear_block_logs_def store_wf_def bypass_rows_def)

lemma store_wf_ops: "store_wf s \<Longrightarrow> store_wf (foldl run_store_op s ops)"
  by (induction ops arbitrary: s) (simp_all add: store_wf_op)


section \<open>System rows\<close>

definition system_row :: "store \<Rightarrow> string \<Rightarrow> bool" where
  "system_row s d \<longleftrightarrow> (\<exists>r \<in> set (domain_allowlist s). ar_domain r = d \<and> ar_system r)"

lemma system_row_refresh [simp]: "system_row (refresh_bypass_cache s) d = system_row s d"
  by (simp add: system_row_def refresh_bypass_cache_def)

lemma update_rows_mem:
  "r \<in> set (domain_allowlist s) \<Longrightarrow>
    (if ar_domain r = d then f r else r) \<in> set (domain_allowlist (update_rows f d s))"
  by (auto simp: update_rows_def)

lemma system_row_update_rows:
  assumes "system_row s d" "\<And>r. ar_domain (f r) = ar_domain r" "\<And>r. ar_system r \<Longrightarrow> ar_system (f r)"
  shows "system_row (update_rows f e s) d"
proof -
  obtain r where r: "r \<in> set (domain_allowlist s)" "ar_domain r = d" "ar_system r"
    using assms(1) by (auto simp: system_row_def)
  then show ?thesis
    unfolding system_row_def
    using update_rows_mem [OF r(1), of e f] assms(2,3) by (intro bexI) auto
qed

lemma system_row_add_token [simp]: "system_row (add_token_row e a s) d = system_row s d"
  by (simp add: system_row_def add_token_row_def)

lemma system_row_append:
  "system_row s d \<Longrightarrow> system_row (s\<lparr>domain_allowlist := domain_allowlist s @ rs\<rparr>) d"
  by (auto simp: system_row_def)

lemma system_row_upsert: "system_row s d \<Longrightarrow> system_row (upsert_row e m s) d"
  by (simp add: upsert_row_def system_row_update_rows system_row_append)

lemma system_row_insert:
  "system_row s d \<Longrightarrow> system_row (insert_allowlist_domain_with_mode e a m s) d"
  by (simp add: insert_allowlist_domain_with_mode_def Let_def system_row_upsert split: option.split)

lemma system_row_insert_or_ignore: "system_row s d \<Longrightarrow> system_row (insert_or_ignore e m s) d"
  by (simp add: insert_or_ignore_def system_row_append)

lemma system_row_fold:
  "(\<And>e s. system_row s d \<Longrightarrow> system_row (f e s) d) \<Longrightarrow> system_row s d \<Longrightarrow> system_row (fold f es s) d"
  by (induction es arbitrary: s) simp_all

lemma system_row_seed: "system_row s d \<Longrightarrow> system_row (seed_default_allowlist s) d"
  by (simp add: seed_default_allowlist_def seed_system_bypass_domains_def)
    (intro system_row_fold conjI impI, auto simp: seed_system_allow_def seed_system_bypass_def
      insert_allowlist_domain_def system_row_insert intro!: system_row_update_rows
      system_row_insert_or_ignore)

lemma system_row_delete:
  "system_row s d \<Longrightarrow> system_row (ok_or s (delete_allowlist_domain e s)) d"
  by (auto simp: system_row_def ok_or_def delete_allowlist_domain_def refresh_bypass_cache_def)

lemma system_row_op: "system_row s d \<Longrightarrow> system_row (run_store_op s op) d"
  by (cases op) (simp_all add: system_row_insert system_row_delete system_row_seed,
    auto simp: system_row_def ok_or_def add_domain_token_def add_token_row_def set_domain_tokens_def
      remove_domain_token_def delete_domain_tokens_by_accounts_def insert_denylist_domain_def
      delete_denylist_domain_def insert_block_log_def clear_block_logs_def)

lemma system_row_ops: "system_row s d \<Longrightarrow> system_row (foldl run_store_op s ops) d"
  by (induction ops arbitrary: s) (simp_all add: system_row_op)

lemma system_row_seed_allow: "system_row (seed_system_allow d s) d"
proof -
  let ?s = "insert_or_ignore d ''inspect'' s"
  have "has_row ?s d"
    by (auto simp: insert_or_ignore_def has_row_def)
  then obtain r where "r \<in> set (domain_allowlist ?s)" "ar_domain r = d"
    by (auto simp: has_row_def)
  then show ?thesis
    unfolding system_row_def seed_system_allow_def
    using update_rows_mem [of r ?s d "\<lambda>r. r\<lparr>ar_system := True\<rparr>"] by (intro bexI) auto
qed

lemma system_row_seeded: "system_row (seed_default_allowlist s) ''cdp.nilbox''"
  unfolding seed_default_allowlist_def seed_system_bypass_domains_def system_row_refresh
  by (rule system_row_fold)
    (auto simp: seed_system_bypass_def SYSTEM_ALLOWLIST_DOMAINS_def system_row_seed_allow
      intro!: system_row_update_rows system_row_insert_or_ignore)

lemma system_row_find: "store_wf s \<Longrightarrow> system_row s d \<Longrightarrow> \<exists>r. find_row s d = Some r \<and> ar_system r"
proof -
  assume wf: "store_wf s" and "system_row s d"
  then obtain r where r: "r \<in> set (domain_allowlist s)" "ar_domain r = d" "ar_system r"
    by (auto simp: system_row_def)
  then obtain r' where r': "find_row s d = Some r'"
    by (cases "find_row s d") (auto simp: find_row_def find_None_iff)
  then have "r' \<in> set (domain_allowlist s)" "ar_domain r' = d"
    by (auto simp: find_row_def find_Some_iff)
  then have "r' = r"
    using r wf by (auto simp: store_wf_def distinct_map inj_on_def)
  then show ?thesis
    using r r' by blast
qed


section \<open>Properties\<close>

text \<open>the domain test of the gate, with its three passes over a hash set, is exactly:
  some entry of the set covers the domain, where an entry covers itself, its subdomains when it
  has at least two labels, and for a leading \<open>*.\<close> the suffix and every subdomain of it.\<close>

theorem matches_domain_set_spec:
  "matches_domain_set S d \<longleftrightarrow> (\<exists>e. e \<in> set S \<and> covers e d)"
  using matches_domain_set_covers by auto

text \<open>C34: starting from an empty database, every sequence of store operations keeps primary
  keys and the foreign key intact and never lets the in-memory bypass cache miss a bypass row.\<close>

theorem store_operations_wf: "store_wf (foldl run_store_op store_empty ops)"
  by (rule store_wf_ops) simp

text \<open>once the defaults are seeded, no sequence of store operations removes a system
  domain: its row stays, stays marked, and deleting it is refused.\<close>

theorem system_domain_protected:
  assumes "store_wf s"
  shows "delete_allowlist_domain ''cdp.nilbox'' (foldl run_store_op (seed_default_allowlist s) ops)
    = Err SystemDomain"
proof -
  let ?s = "foldl run_store_op (seed_default_allowlist s) ops"
  have "store_wf ?s" "system_row ?s ''cdp.nilbox''"
    using assms by (simp_all add: store_wf_ops store_wf_seed system_row_ops system_row_seeded)
  then show ?thesis
    using system_row_find [of ?s "''cdp.nilbox''"] by (auto simp: delete_allowlist_domain_def)
qed

theorem system_domain_protected_witness:
  "delete_allowlist_domain ''cdp.nilbox''
     (foldl run_store_op (seed_default_allowlist store_empty) [DeleteAllow ''cdp.nilbox'', InsertDeny ''x''])
    = Err SystemDomain"
  by (rule system_domain_protected) simp

text \<open>switching a user's bypass domain back to inspection changes the row but not the
  cache, so the proxy goes on tunnelling the domain without inspection.\<close>

theorem bypass_cache_stale:
  assumes "store_wf s" "\<not> has_row s d"
  shows "is_inspect_bypass_domain
      (insert_allowlist_domain_with_mode d None Inspect
        (insert_allowlist_domain_with_mode d None Bypass s)) d
    \<and> d \<notin> set (bypass_rows (insert_allowlist_domain_with_mode d None Inspect
        (insert_allowlist_domain_with_mode d None Bypass s)))"
proof -
  let ?r = "\<lparr>ar_domain = d, ar_mode = ''bypass'', ar_system = False\<rparr>"
  let ?s1 = "s\<lparr>domain_allowlist := domain_allowlist s @ [?r]\<rparr>"
  have s1: "insert_allowlist_domain_with_mode d None Bypass s = refresh_bypass_cache ?s1"
    using assms(2) by (simp add: insert_allowlist_domain_with_mode_def Let_def upsert_row_def)
  have row: "has_row (refresh_bypass_cache ?s1) d"
    by (simp add: has_row_def refresh_bypass_cache_def)
  have cache: "d \<in> set (bypass_cache (refresh_bypass_cache ?s1))"
    by (simp add: refresh_bypass_cache_def bypass_rows_def)
  have "bypass_rows (upsert_row d Inspect (refresh_bypass_cache ?s1)) = bypass_rows s"
  proof -
    have "map (\<lambda>r. if ar_domain r = d then g r else r) (domain_allowlist s) = domain_allowlist s" for g
      using assms(2) by (intro map_idI) (auto simp: has_row_def)
    then show ?thesis
      using row by (simp add: upsert_row_def)
        (simp add: update_rows_def refresh_bypass_cache_def bypass_rows_def)
  qed
  moreover have "d \<notin> set (bypass_rows s)"
    using assms(2) by (auto simp: bypass_rows_def has_row_def)
  ultimately show ?thesis
    using cache unfolding s1
    by (simp add: insert_allowlist_domain_with_mode_def Let_def is_inspect_bypass_domain_def
        upsert_tables)
qed

theorem bypass_cache_stale_witness:
  "is_inspect_bypass_domain
      (insert_allowlist_domain_with_mode ''a.b'' None Inspect
        (insert_allowlist_domain_with_mode ''a.b'' None Bypass store_empty)) ''a.b''
    \<and> ''a.b'' \<notin> set (bypass_rows (insert_allowlist_domain_with_mode ''a.b'' None Inspect
        (insert_allowlist_domain_with_mode ''a.b'' None Bypass store_empty)))"
  by (rule bypass_cache_stale) (simp_all add: has_row_def, simp add: store_empty_def)

text \<open>after the accounts of a domain are replaced, exactly the new accounts are listed
  for it, and every other domain's own accounts are unchanged.\<close>

theorem set_domain_tokens_lookup:
  assumes "set_domain_tokens d as s = Ok s'" "as \<noteq> []"
  shows "list_domain_tokens s' d = as \<and> (\<forall>e. e \<noteq> d \<longrightarrow> tokens_of s' e = tokens_of s e)"
proof -
  have s': "domain_token_accounts s'
      = filter (\<lambda>t. fst t \<noteq> d) (domain_token_accounts s) @ map (Pair d) as"
    using assms(1) by (auto simp: set_domain_tokens_def split: if_splits)
  have "tokens_of s' d = as"
    by (simp add: tokens_of_def s' filter_map comp_def)
  moreover have "tokens_of s' e = tokens_of s e" if "e \<noteq> d" for e
  proof -
    have "filter (\<lambda>x. fst x \<noteq> d \<and> fst x = e) (domain_token_accounts s)
        = filter (\<lambda>x. fst x = e) (domain_token_accounts s)"
      using that by (intro filter_cong) auto
    then show ?thesis
      using that by (simp add: tokens_of_def s' filter_map comp_def conj_commute)
  qed
  ultimately show ?thesis
    using assms(2) by (simp add: list_domain_tokens_def)
qed

theorem set_domain_tokens_lookup_witness:
  "list_domain_tokens ((insert_allowlist_domain ''a.b'' store_empty)
      \<lparr>domain_token_accounts := [(''a.b'', ''KEY'')]\<rparr>) ''a.b'' = [''KEY'']
   \<and> tokens_of ((insert_allowlist_domain ''a.b'' store_empty)
      \<lparr>domain_token_accounts := [(''a.b'', ''KEY'')]\<rparr>) ''c.d''
        = tokens_of (insert_allowlist_domain ''a.b'' store_empty) ''c.d''"
  using set_domain_tokens_lookup [of "''a.b''" "[''KEY'']" "insert_allowlist_domain ''a.b'' store_empty"
      "(insert_allowlist_domain ''a.b'' store_empty) \<lparr>domain_token_accounts := [(''a.b'', ''KEY'')]\<rparr>"]
  by (simp add: set_domain_tokens_def insert_allowlist_domain_def store_empty_def has_row_def
      insert_allowlist_domain_with_mode_def upsert_row_def Let_def)

end
