(* ===== verification/Keystore.thy ===== *)
theory Keystore
  imports Prelude "HOL-Library.Char_ord" "HOL-Library.List_Lexorder"
begin

text \<open>
  The secret store: the trait \<open>KeyStore\<close> (\<open>keystore/mod.rs\<close>) as the locale
  \<open>key_store\<close>, and its SQLite implementation (\<open>keystore/sqlite_store.rs\<close>) as rows
  of the table \<open>keys\<close> with primary key \<open>account\<close>.  Encryption at rest (SQLCipher)
  does not change what the operations return and is not part of the model.
\<close>

type_synonym keys = "(string \<times> string) list"

datatype key_error = KeyNotFound | AccountExists

definition ks_get :: "keys \<Rightarrow> string \<Rightarrow> (key_error, string) outcome" where
  "ks_get ks account = (case map_of ks account of Some v \<Rightarrow> Ok v | None \<Rightarrow> Err KeyNotFound)"

definition ks_has :: "keys \<Rightarrow> string \<Rightarrow> bool" where
  "ks_has ks account \<longleftrightarrow> 0 < length (filter (\<lambda>r. fst r = account) ks)"

text \<open>\<open>INSERT .. ON CONFLICT(account) DO UPDATE\<close>.\<close>

definition ks_set :: "string \<Rightarrow> string \<Rightarrow> keys \<Rightarrow> keys" where
  "ks_set account value ks =
    (if ks_has ks account then map (\<lambda>r. if fst r = account then (account, value) else r) ks
     else ks @ [(account, value)])"

definition ks_delete :: "string \<Rightarrow> keys \<Rightarrow> (key_error, keys) outcome" where
  "ks_delete account ks =
    (if ks_has ks account then Ok (filter (\<lambda>r. fst r \<noteq> account) ks) else Err KeyNotFound)"

definition ks_list :: "keys \<Rightarrow> string list" where
  "ks_list ks = sort (map fst ks)"

text \<open>\<open>UPDATE keys SET account = new WHERE account = old\<close>: the primary key refuses a
  taken name.\<close>

definition ks_rename :: "string \<Rightarrow> string \<Rightarrow> keys \<Rightarrow> (key_error, keys) outcome" where
  "ks_rename old new ks =
    (if \<not> ks_has ks old then Err KeyNotFound
     else if old \<noteq> new \<and> ks_has ks new then Err AccountExists
     else Ok (map (\<lambda>r. if fst r = old then (new, snd r) else r) ks))"

definition get_ssh_private_key :: "keys \<Rightarrow> string option" where
  "get_ssh_private_key ks = map_of ks ''ssh:private_key''"

definition set_ssh_private_key :: "string \<Rightarrow> keys \<Rightarrow> keys" where
  "set_ssh_private_key pem ks = ks_set ''ssh:private_key'' pem ks"

definition ks_wf :: "keys \<Rightarrow> bool" where
  "ks_wf ks \<longleftrightarrow> distinct (map fst ks)"


section \<open>Lookup laws\<close>

lemma ks_has_iff: "ks_has ks a \<longleftrightarrow> a \<in> fst ` set ks"
  by (auto simp: ks_has_def filter_empty_conv)

lemma ks_has_simps [simp]: "\<not> ks_has [] a" "ks_has (r # ks) a \<longleftrightarrow> fst r = a \<or> ks_has ks a"
  by (auto simp: ks_has_iff)

lemma ks_has_map_of: "ks_has ks a \<longleftrightarrow> map_of ks a \<noteq> None"
  by (simp add: ks_has_iff map_of_eq_None_iff)

lemma map_of_ks_set: "map_of (ks_set a v ks) b = (if a = b then Some v else map_of ks b)"
  by (auto simp: ks_set_def map_of_replace_value map_of_snoc ks_has_map_of simp del: map_of_append)

lemma map_of_filter_ne: "map_of (filter (\<lambda>r. fst r \<noteq> a) ks) b = (if a = b then None else map_of ks b)"
  by (induction ks) auto

lemma ks_get_set [simp]: "ks_get (ks_set a v ks) b = (if a = b then Ok v else ks_get ks b)"
  by (simp add: ks_get_def map_of_ks_set)

lemma ks_wf_set: "ks_wf ks \<Longrightarrow> ks_wf (ks_set a v ks)"
proof (cases "ks_has ks a")
  case True
  assume "ks_wf ks"
  moreover have "map fst (map (\<lambda>r. if fst r = a then (a, v) else r) ks) = map fst ks"
    by (induction ks) auto
  ultimately show ?thesis
    using True by (simp only: ks_set_def ks_wf_def if_True)
qed (auto simp: ks_set_def ks_wf_def ks_has_iff)

lemma ks_wf_delete: "ks_wf ks \<Longrightarrow> ks_delete a ks = Ok ks' \<Longrightarrow> ks_wf ks'"
  by (auto simp: ks_delete_def ks_wf_def distinct_map_filter split: if_splits)


section \<open>The trait as a contract\<close>

locale key_store =
  fixes get :: "'s \<Rightarrow> string \<Rightarrow> (key_error, string) outcome"
    and set :: "string \<Rightarrow> string \<Rightarrow> 's \<Rightarrow> 's"
    and delete :: "string \<Rightarrow> 's \<Rightarrow> (key_error, 's) outcome"
    and inv :: "'s \<Rightarrow> bool"
  assumes set_inv: "inv s \<Longrightarrow> inv (set a v s)"
    and get_set: "get (set a v s) b = (if a = b then Ok v else get s b)"
    and delete_ok: "delete a s = Ok s' \<Longrightarrow> inv s \<Longrightarrow>
          inv s' \<and> get s' b = (if a = b then Err KeyNotFound else get s b)"
    and delete_err: "is_ok (delete a s) \<longleftrightarrow> is_ok (get s a)"
begin

text \<open>Only the last write to an account counts.\<close>

lemma get_after_sets:
  "get (fold (\<lambda>(a, v). set a v) ws s) b
    = (case map_of (rev ws) b of Some v \<Rightarrow> Ok v | None \<Rightarrow> get s b)"
proof (induction ws arbitrary: s)
  case (Cons w ws)
  obtain a v where w: "w = (a, v)"
    by force
  show ?case
    by (simp add: Cons w get_set map_add_def split: option.split)
qed simp

lemma delete_after_set: "\<exists>s'. delete a (set a v s) = Ok s'"
  using delete_err [of a "set a v s"] by (simp add: get_set is_ok_iff)

end

interpretation sqlite: key_store ks_get ks_set ks_delete ks_wf
proof unfold_locales
  show "ks_delete a s = Ok s' \<Longrightarrow> ks_wf s \<Longrightarrow>
      ks_wf s' \<and> ks_get s' b = (if a = b then Err KeyNotFound else ks_get s b)" for a s s' b
    by (auto simp: ks_wf_delete) (auto simp: ks_delete_def ks_get_def map_of_filter_ne split: if_splits)
  show "is_ok (ks_delete a s) \<longleftrightarrow> is_ok (ks_get s a)" for a s
    by (auto simp: ks_delete_def ks_get_def ks_has_map_of split: option.splits)
qed (simp_all add: ks_wf_set)


section \<open>Properties\<close>

text \<open>the account table behaves as a map: after any sequence of writes an account holds
  its last value, a delete removes exactly that account, and the primary key stays unique.\<close>

theorem keystore_map:
  assumes "ks_wf ks" "ks_delete a (fold (\<lambda>(a, v). ks_set a v) ws ks) = Ok ks'"
  shows "ks_wf ks' \<and> ks_get ks' a = Err KeyNotFound
    \<and> (b \<noteq> a \<longrightarrow> ks_get ks' b = (case map_of (rev ws) b of Some v \<Rightarrow> Ok v | None \<Rightarrow> ks_get ks b))"
proof -
  have "ks_wf (fold (\<lambda>(a, v). ks_set a v) ws ks)"
    using assms(1) by (induction ws arbitrary: ks) (auto simp: ks_wf_set)
  then show ?thesis
    using sqlite.delete_ok [OF assms(2)] sqlite.get_after_sets by auto
qed

theorem keystore_map_witness:
  "ks_wf [(''B'', ''2'')] \<and> ks_get [(''B'', ''2'')] ''A'' = Err KeyNotFound
    \<and> ks_get [(''B'', ''2'')] ''B''
        = (case map_of (rev [(''A'', ''1''), (''B'', ''2'')]) ''B'' of Some v \<Rightarrow> Ok v | None \<Rightarrow> ks_get [] ''B'')"
  using keystore_map [of "[]" "''A''" "[(''A'', ''1''), (''B'', ''2'')]" "[(''B'', ''2'')]" "''B''"]
  by (simp add: ks_wf_def ks_set_def ks_has_def ks_delete_def)

text \<open>renaming an account moves its secret: the old name is gone, the new name holds it,
  every other account is untouched; a taken name is refused and nothing is lost.\<close>

theorem keystore_rename:
  assumes "ks_wf ks" "ks_rename old new ks = Ok ks'" "old \<noteq> new"
  shows "ks_get ks' new = ks_get ks old \<and> ks_get ks' old = Err KeyNotFound
    \<and> (b \<noteq> old \<longrightarrow> b \<noteq> new \<longrightarrow> ks_get ks' b = ks_get ks b)"
proof -
  have ks': "ks' = map (\<lambda>r. if fst r = old then (new, snd r) else r) ks"
    and new: "\<not> ks_has ks new"
    using assms by (auto simp: ks_rename_def split: if_splits)
  have "map_of ks' b = (if b = new then map_of ks old else if b = old then None else map_of ks b)" for b
    unfolding ks' using assms(1,3) new
    by (induction ks) (auto simp: ks_has_iff ks_wf_def)
  then show ?thesis
    using assms(3) by (simp add: ks_get_def)
qed

theorem keystore_rename_witness:
  "ks_get [(''B'', ''1'')] ''B'' = ks_get [(''A'', ''1'')] ''A'' \<and> ks_get [(''B'', ''1'')] ''A'' = Err KeyNotFound
    \<and> ks_get [(''B'', ''1'')] ''C'' = ks_get [(''A'', ''1'')] ''C''"
  using keystore_rename [of "[(''A'', ''1'')]" "''A''" "''B''" "[(''B'', ''1'')]" "''C''"]
  by (simp add: ks_wf_def ks_rename_def ks_has_def)

end
