(* ===== verification/Rust_Text.thy ===== *)
theory Rust_Text
  imports Prelude
begin

text \<open>
  The text functions of Rust's standard library that several components use beside those
  of the prelude: lines, splitting at white space and at a string, replacement, searching
  from the right, joining, decimal numbers.  \<open>str::lines\<close> drops the piece after the last
  line end when it is empty, and one carriage return before each line end.
\<close>

definition strip_cr :: "string \<Rightarrow> string" where
  "strip_cr l = (if ends_with l [CHR 0x0D] then butlast l else l)"

definition lines_of :: "string \<Rightarrow> string list" where
  "lines_of s =
    map strip_cr (let ws = split_str (CHR 0x0A) s in if last ws = [] then butlast ws else ws)"

text \<open>\<open>split_whitespace\<close>: the maximal runs of characters that are no white space.\<close>

fun split_ws :: "string \<Rightarrow> string list" where
  "split_ws [] = []"
| "split_ws (c # s) =
    (if is_space c then split_ws s
     else (case s of
             [] \<Rightarrow> [[c]]
           | d # _ \<Rightarrow> if is_space d then [c] # split_ws s
                      else (case split_ws s of [] \<Rightarrow> [[c]] | w # ws \<Rightarrow> (c # w) # ws)))"

text \<open>\<open>str::replace\<close>: non-overlapping occurrences from the left, the pattern not empty.\<close>

function replace_all :: "string \<Rightarrow> string \<Rightarrow> string \<Rightarrow> string" where
  "replace_all [] p q = []"
| "replace_all (c # s) p q =
    (if p \<noteq> [] \<and> starts_with (c # s) p then q @ replace_all (drop (length p) (c # s)) p q
     else c # replace_all s p q)"
  by pat_completeness auto

termination replace_all
  by (relation "measure (\<lambda>(s, _, _). length s)") auto

text \<open>\<open>find\<close> and \<open>rfind\<close> of a non-empty pattern, as a byte offset.\<close>

fun find_str :: "'a list \<Rightarrow> 'a list \<Rightarrow> nat option" where
  "find_str [] p = (if p = [] then Some 0 else None)"
| "find_str (c # s) p = (if starts_with (c # s) p then Some 0 else map_option Suc (find_str s p))"

definition rfind_str :: "'a list \<Rightarrow> 'a list \<Rightarrow> nat option" where
  "rfind_str s p = map_option (\<lambda>n. length s - length p - n) (find_str (rev s) (rev p))"

text \<open>\<open>split(sep)\<close> at a separator that is a string, not empty.\<close>

function split_seq :: "'a list \<Rightarrow> 'a list \<Rightarrow> 'a list list" where
  "split_seq sep [] = [[]]"
| "split_seq sep (c # s) =
    (if sep \<noteq> [] \<and> starts_with (c # s) sep then [] # split_seq sep (drop (length sep) (c # s))
     else (case split_seq sep s of [] \<Rightarrow> [[c]] | w # ws \<Rightarrow> (c # w) # ws))"
  by pat_completeness auto

termination split_seq
  by (relation "measure (\<lambda>(_, s). length s)") auto

fun join :: "string \<Rightarrow> string list \<Rightarrow> string" where
  "join sep [] = []"
| "join sep [s] = s"
| "join sep (s # ss) = s @ sep @ join sep ss"

fun nat_digits :: "nat \<Rightarrow> string" where
  "nat_digits n =
    (if n < 10 then [char_of (48 + n)] else nat_digits (n div 10) @ [char_of (48 + n mod 10)])"

declare nat_digits.simps [simp del]

text \<open>\<open>str::parse\<close> of an unsigned integer: an optional plus sign and digits, refused on overflow.\<close>

definition digits_value :: "string \<Rightarrow> nat" where
  "digits_value s = foldl (\<lambda>n c. 10 * n + (of_char c - 48)) 0 s"

definition parse_nat :: "nat \<Rightarrow> string \<Rightarrow> nat option" where
  "parse_nat bound s =
    (let t = (case strip_prefix s ''+'' of Some r \<Rightarrow> r | None \<Rightarrow> s)
     in if t \<noteq> [] \<and> list_all is_digit t \<and> digits_value t < bound then Some (digits_value t) else None)"

definition parse_u64 :: "string \<Rightarrow> u64 option" where
  "parse_u64 s = map_option of_nat (parse_nat (2 ^ 64) s)"


section \<open>Lemmas\<close>

lemma of_char_digit [simp]: "d < 10 \<Longrightarrow> (of_char (char_of (48 + d) :: char) :: nat) = 48 + d"
  by simp

lemma is_digit_digit [simp]: "(d :: nat) < 10 \<Longrightarrow> is_digit (char_of (48 + d))"
  by (simp add: is_digit_def)

lemma nat_digits_digits: "list_all is_digit (nat_digits n)"
proof (induction n rule: nat_digits.induct)
  case (1 n)
  then show ?case
    by (subst nat_digits.simps) simp
qed

lemma nat_digits_not_Nil [simp]: "nat_digits n \<noteq> []"
  by (subst nat_digits.simps) simp

lemma digits_value_nat_digits [simp]: "digits_value (nat_digits n) = n"
proof (induction n rule: nat_digits.induct)
  case (1 n)
  then show ?case
    by (subst nat_digits.simps) (simp add: digits_value_def)
qed

lemma strip_plus_digits: "list_all is_digit t \<Longrightarrow> strip_prefix t ''+'' = None"
  by (cases t) (auto simp: strip_prefix_def is_digit_def)

lemma parse_nat_digits [simp]: "n < b \<Longrightarrow> parse_nat b (nat_digits n) = Some n"
  by (simp add: parse_nat_def strip_plus_digits nat_digits_digits)

lemma parse_nat_bound: "parse_nat b s = Some n \<Longrightarrow> n < b"
  by (auto simp: parse_nat_def Let_def split: if_splits)

lemma replace_all_absent: "\<not> contains_str s p \<Longrightarrow> replace_all s p q = s"
  by (induction s p q rule: replace_all.induct) (auto split: if_splits)

lemma split_seq_not_Nil [simp]: "split_seq sep s \<noteq> []"
  by (cases "(sep, s)" rule: split_seq.cases) (auto split: list.splits)

lemma join_Cons: "ws \<noteq> [] \<Longrightarrow> join sep (w # ws) = w @ sep @ join sep ws"
  by (cases ws) auto

lemma join_split_seq: "(sep :: string) \<noteq> [] \<Longrightarrow> join sep (split_seq sep s) = s"
proof (induction sep s rule: split_seq.induct)
  case (2 sep c s)
  show ?case
  proof (cases "starts_with (c # s) sep")
    case True
    then obtain r where "c # s = sep @ r"
      by (auto simp: starts_with_iff)
    then have "drop (length sep) (c # s) = r"
      by simp
    then have "split_seq sep (c # s) = [] # split_seq sep r" "join sep (split_seq sep r) = r"
      using 2 True by auto
    then show ?thesis
      using \<open>c # s = sep @ r\<close> by (simp only: join_Cons split_seq_not_Nil not_False_eq_True append_Nil)
  next
    case False
    obtain w ws where "split_seq sep s = w # ws"
      by (meson list.exhaust split_seq_not_Nil)
    then show ?thesis
      using 2 False by (cases ws) auto
  qed
qed simp

lemma split_seq_prefix: "(sep :: string) \<noteq> [] \<Longrightarrow> split_seq sep s = w # ws \<Longrightarrow> starts_with s w"
  using join_split_seq [of sep s] by (cases ws) (auto simp: starts_with_iff)

lemma starts_with_mono: "starts_with s p \<Longrightarrow> starts_with (s @ t) p"
  by (auto simp: starts_with_iff)

lemma Cons_eq_append_length: "c # s = p @ r \<Longrightarrow> length p \<le> Suc (length s)"
  by (metis length_Cons length_append le_add1)

lemma find_str_Some:
  "find_str s p = Some n \<Longrightarrow> s = take n s @ p @ drop (n + length p) s \<and> n + length p \<le> length s"
proof (induction s arbitrary: n)
  case (Cons c s)
  then show ?case
    by (auto simp: starts_with_iff dest: Cons_eq_append_length split: if_splits)
qed (auto split: if_splits)

lemma find_str_mono: "find_str s p = Some n \<Longrightarrow> find_str (s @ t) p = Some n"
proof (induction s arbitrary: n)
  case Nil
  then show ?case by (cases t) (auto split: if_splits)
next
  case (Cons c s)
  show ?case
  proof (cases "starts_with (c # s) p")
    case True
    then have "starts_with (c # s @ t) p"
      using starts_with_mono [of "c # s" p t] by simp
    with True Cons(2) show ?thesis
      by simp
  next
    case False
    then obtain m where m: "find_str s p = Some m" "n = Suc m"
      using Cons(2) by auto
    then have "length p \<le> length s"
      using find_str_Some by fastforce
    then have "\<not> starts_with (c # s @ t) p"
      using False by (auto simp: starts_with_iff append_eq_append_conv2 Cons_eq_append_conv)
    then show ?thesis
      using Cons(1) [OF m(1)] m(2) by simp
  qed
qed

lemma contains_str_iff: "contains_str s p \<longleftrightarrow> (\<exists>a b. s = a @ p @ b)"
proof (induction s)
  case (Cons c s)
  have "(\<exists>a b. c # s = a @ p @ b) \<longleftrightarrow> (\<exists>b. c # s = p @ b) \<or> (\<exists>a b. s = a @ p @ b)"
    by (metis append_Cons append_Nil list.exhaust list.inject)
  then show ?case
    using Cons by (simp add: starts_with_iff)
qed auto

text \<open>UTF-8 text may be cut and joined at an ASCII character.\<close>

lemma ascii_not_cont: "x \<le> 0x7F \<Longrightarrow> \<not> is_cont x"
  by (auto simp: is_cont_def word_le_nat_alt)

lemma valid_utf8_cut: "x \<le> 0x7F \<Longrightarrow> valid_utf8 (a @ x # b) \<longleftrightarrow> valid_utf8 a \<and> valid_utf8 b"
proof (induction a rule: valid_utf8.induct)
  case (2 c a)
  have x: "\<not> is_cont x"
    by (rule ascii_not_cont [OF 2(5)])
  consider "a = []" | p where "a = [p]" | p q where "a = [p, q]" | p q r t where "a = p # q # r # t"
    by (metis list.exhaust)
  then show ?case
    using 2 x by cases (auto split: list.splits)
qed simp

end
