(* ===== verification/Json.thy ===== *)
theory Json
  imports Rust_Text
begin

text \<open>
  \<open>serde_json::Value\<close> and the dot-path accessors written over it in
  \<open>proxy/token_extractor.rs\<close> and \<open>proxy/oauth_token_vault.rs\<close>.  Parsing and
  printing JSON text is \<open>serde_json\<close>'s and stays a parameter of the definitions that
  use it.  An object is an association list with one entry per key; \<open>v.get(k)\<close> is
  \<open>None\<close> unless \<open>v\<close> is an object with that key; \<open>v[k] = x\<close> inserts into an object,
  turns \<open>null\<close> into an object and panics on anything else.
\<close>

datatype json =
    JNull | JBool bool | JNum int | JFloat string | JStr string
  | JArr "json list" | JObj "(string \<times> json) list"

fun jget :: "json \<Rightarrow> string \<Rightarrow> json option" where
  "jget (JObj kvs) k = map_of kvs k"
| "jget _ k = None"

definition obj_put :: "string \<Rightarrow> json \<Rightarrow> (string \<times> json) list \<Rightarrow> (string \<times> json) list" where
  "obj_put k v kvs =
    (if k \<in> fst ` set kvs then map (\<lambda>e. if fst e = k then (k, v) else e) kvs else kvs @ [(k, v)])"

fun jput :: "json \<Rightarrow> string \<Rightarrow> json \<Rightarrow> ('e, json) outcome" where
  "jput (JObj kvs) k v = Ok (JObj (obj_put k v kvs))"
| "jput JNull k v = Ok (JObj [(k, v)])"
| "jput _ k v = Panic"

fun as_str :: "json \<Rightarrow> string option" where
  "as_str (JStr s) = Some s"
| "as_str _ = None"

fun as_u64 :: "json \<Rightarrow> nat option" where
  "as_u64 (JNum n) = (if 0 \<le> n \<and> n < 2 ^ 64 then Some (nat n) else None)"
| "as_u64 _ = None"

fun number_to_string :: "json \<Rightarrow> string option" where
  "number_to_string (JNum n) = Some ((if n < 0 then ''-'' else []) @ nat_digits (nat \<bar>n\<bar>))"
| "number_to_string (JFloat s) = Some s"
| "number_to_string _ = None"

fun walk :: "json \<Rightarrow> string list \<Rightarrow> json option" where
  "walk v [] = Some v"
| "walk v (k # ks) = (case jget v k of None \<Rightarrow> None | Some w \<Rightarrow> walk w ks)"

definition path_parts :: "string \<Rightarrow> string list" where
  "path_parts path = split_str (CHR ''.'') path"

lemma path_parts_not_Nil [simp]: "path_parts p \<noteq> []"
  by (simp add: path_parts_def)

lemma map_of_obj_put: "map_of (obj_put k v kvs) l = (if k = l then Some v else map_of kvs l)"
proof -
  have "k \<in> fst ` set kvs \<longleftrightarrow> map_of kvs k \<noteq> None"
    by (simp add: map_of_eq_None_iff)
  then show ?thesis
    unfolding obj_put_def by (cases "map_of kvs k")
      (auto simp only: map_of_replace_value map_of_snoc split: if_splits)
qed

lemma jget_jput: "jput v k x = Ok v' \<Longrightarrow> jget v' l = (if k = l then Some x else jget v l)"
  by (cases v) (auto simp: map_of_obj_put)

text \<open>For functions that recurse into the values of arrays and objects.\<close>

lemma size_json_entry: "(k, v) \<in> set kvs \<Longrightarrow> size v < size (JObj kvs)"
  by (induction kvs) auto

lemma size_json_item: "v \<in> set vs \<Longrightarrow> size v < size (JArr vs)"
  by (induction vs) auto

end
