(* ===== verification/Oauth_Vault.thy ===== *)
theory Oauth_Vault
  imports Keystore Json
begin

text \<open>
  \<open>crates/nilbox-core/src/proxy/oauth_token_vault.rs\<close>: real OAuth tokens go to the
  key store, the VM gets dummy tokens.  What third-party crates compute (serde's
  JSON text, base64, form encoding) is the record \<open>codecs\<close>; the random session
  id and the current time are arguments.
\<close>

section \<open>Sessions and codecs\<close>

definition ACCESS_PREFIX :: string where "ACCESS_PREFIX = ''nilbox_oat:''"
definition REFRESH_PREFIX :: string where "REFRESH_PREFIX = ''nilbox_ort:''"
definition KEYSTORE_PREFIX :: string where "KEYSTORE_PREFIX = ''OAUTH_TOKEN:''"
definition EXPIRY_BUFFER_SECS :: u64 where "EXPIRY_BUFFER_SECS = 60"

record OAuthSession =
  ses_provider :: string
  ses_vm :: string
  access_token :: string
  refresh_token :: "string option"
  token_type :: "string option"
  expires_at :: "u64 option"
  scope :: "string option"
  created_at :: u64
  allowed_domain :: "string option"
  ses_extra_domains :: "string list"

record OAuthSessionInfo =
  session_key :: string
  info_provider :: string
  info_vm :: string
  info_token_type :: "string option"
  info_expires_at :: "u64 option"
  info_scope :: "string option"
  info_created_at :: u64
  has_refresh_token :: bool
  info_allowed_domain :: "string option"
  info_extra_domains :: "string list"

record codecs =
  session_to_json :: "OAuthSession \<Rightarrow> string"
  session_of_json :: "string \<Rightarrow> OAuthSession option"
  b64_decode :: "string \<Rightarrow> bytes option"
  b64_encode :: "bytes \<Rightarrow> string"
  json_of_bytes :: "bytes \<Rightarrow> json option"
  json_to_bytes :: "json \<Rightarrow> bytes"
  form_parse :: "bytes \<Rightarrow> (string \<times> string) list"
  form_serialize :: "(string \<times> string) list \<Rightarrow> bytes"

record TokenResponseFields =
  response_format :: string
  access_token_field :: string
  refresh_token_field :: string
  expires_in_field :: string
  token_type_field :: string

datatype vault_error =
    ParseFailed | PathNotFound | NotStringOrNumber | NotAnObject | BadDummy | SessionNotFound
  | NoRefreshToken | BadSession | InvalidSessionKey | StoreError key_error


section \<open>Dummy tokens\<close>

definition parse_dummy_token :: "string \<Rightarrow> string \<Rightarrow> (string \<times> string) option" where
  "parse_dummy_token token prefix =
    (case strip_prefix token prefix of
       None \<Rightarrow> None
     | Some rest \<Rightarrow>
         (case split_once (CHR '':'') rest of
            None \<Rightarrow> None
          | Some (provider, session) \<Rightarrow>
              if provider = [] \<or> session = [] then None else Some (provider, session)))"

definition parse_dummy_prefix :: "string \<Rightarrow> (string \<times> string) option" where
  "parse_dummy_prefix token =
    (case parse_dummy_token token ACCESS_PREFIX of
       Some r \<Rightarrow> Some r | None \<Rightarrow> parse_dummy_token token REFRESH_PREFIX)"

text \<open>\<open>splitn(3, '.')\<close>.\<close>

definition split3 :: "string \<Rightarrow> string list" where
  "split3 token =
    (case split_once (CHR ''.'') token of
       None \<Rightarrow> [token]
     | Some (a, r) \<Rightarrow>
         (case split_once (CHR ''.'') r of None \<Rightarrow> [a, r] | Some (b, c) \<Rightarrow> [a, b, c]))"

definition extract_nilbox_jwt_session :: "codecs \<Rightarrow> string \<Rightarrow> string option" where
  "extract_nilbox_jwt_session k token =
    (case split3 token of
       [_, payload, _] \<Rightarrow>
         (case b64_decode k payload of
            None \<Rightarrow> None
          | Some bs \<Rightarrow>
              (case json_of_bytes k bs of
                 None \<Rightarrow> None
               | Some doc \<Rightarrow> (case jget doc ''nilbox'' of None \<Rightarrow> None | Some v \<Rightarrow> as_str v)))
     | _ \<Rightarrow> None)"

definition parse_dummy_access_token :: "codecs \<Rightarrow> string \<Rightarrow> (string \<times> string) option" where
  "parse_dummy_access_token k token =
    (case parse_dummy_token token ACCESS_PREFIX of
       Some r \<Rightarrow> Some r
     | None \<Rightarrow>
         (case extract_nilbox_jwt_session k token of
            None \<Rightarrow> None
          | Some inner \<Rightarrow> parse_dummy_token inner ACCESS_PREFIX))"

definition is_dummy_access_token :: "codecs \<Rightarrow> string \<Rightarrow> bool" where
  "is_dummy_access_token k v \<longleftrightarrow> parse_dummy_access_token k v \<noteq> None"

definition is_dummy_refresh_token :: "string \<Rightarrow> bool" where
  "is_dummy_refresh_token v \<longleftrightarrow> starts_with v REFRESH_PREFIX"

definition plain_dummy :: "string \<Rightarrow> string \<Rightarrow> string" where
  "plain_dummy provider session = ACCESS_PREFIX @ provider @ '':'' @ session"

definition refresh_dummy :: "string \<Rightarrow> string \<Rightarrow> string" where
  "refresh_dummy provider session = REFRESH_PREFIX @ provider @ '':'' @ session"

definition account_of :: "string \<Rightarrow> string \<Rightarrow> string" where
  "account_of provider session = KEYSTORE_PREFIX @ provider @ '':'' @ session"

definition JWT_HEADER :: bytes where
  "JWT_HEADER = str_bytes (concat [[CHR 0x7B, CHR 0x22], ''alg'', [CHR 0x22], '':'', [CHR 0x22], ''none'',
     [CHR 0x22], '','', [CHR 0x22], ''typ'', [CHR 0x22], '':'', [CHR 0x22], ''JWT'', [CHR 0x22, CHR 0x7D]])"

fun mark_payload :: "string \<Rightarrow> json \<Rightarrow> json" where
  "mark_payload dummy (JObj kvs) =
    JObj (filter (\<lambda>e. fst e \<noteq> ''jti'') (obj_put ''nilbox'' (JStr dummy) kvs))"
| "mark_payload dummy v = v"

definition make_jwt_dummy_access_token :: "codecs \<Rightarrow> string \<Rightarrow> string \<Rightarrow> string \<Rightarrow> string" where
  "make_jwt_dummy_access_token k real provider session =
    (case split3 real of
       [_, p, _] \<Rightarrow>
         (case b64_decode k p of
            None \<Rightarrow> plain_dummy provider session
          | Some bs \<Rightarrow>
              (case json_of_bytes k bs of
                 None \<Rightarrow> plain_dummy provider session
               | Some payload \<Rightarrow>
                   b64_encode k JWT_HEADER @ ''.''
                   @ b64_encode k (json_to_bytes k (mark_payload (plain_dummy provider session) payload))
                   @ ''.''))
     | _ \<Rightarrow> plain_dummy provider session)"


section \<open>Paths in a document\<close>

definition extract_by_path :: "json \<Rightarrow> string \<Rightarrow> (vault_error, string) outcome" where
  "extract_by_path doc path =
    (case walk doc (path_parts path) of
       None \<Rightarrow> Err PathNotFound
     | Some v \<Rightarrow>
         (case as_str v of
            Some s \<Rightarrow> Ok s
          | None \<Rightarrow> (case number_to_string v of Some s \<Rightarrow> Ok s | None \<Rightarrow> Err NotStringOrNumber)))"

fun replace_at :: "json \<Rightarrow> string list \<Rightarrow> json \<Rightarrow> (vault_error, json) outcome" where
  "replace_at doc [] x = Ok doc"
| "replace_at doc [part] x = jput doc part x"
| "replace_at doc (part # rest) x =
    (case jget doc part of
       None \<Rightarrow> Err PathNotFound
     | Some v \<Rightarrow> and_then (replace_at v rest x) (\<lambda>v'. jput doc part v'))"

definition replace_by_path :: "json \<Rightarrow> string \<Rightarrow> string \<Rightarrow> (vault_error, json) outcome" where
  "replace_by_path doc path new_val = replace_at doc (path_parts path) (JStr new_val)"

text \<open>Creating intermediate objects; \<open>current[part] = ..\<close> panics on a scalar.\<close>

fun set_at :: "json \<Rightarrow> string list \<Rightarrow> json \<Rightarrow> (vault_error, json) outcome" where
  "set_at doc [] x = Ok doc"
| "set_at doc [part] x = jput doc part x"
| "set_at doc (part # rest) x =
    (case jget doc part of
       None \<Rightarrow> and_then (set_at (JObj []) rest x) (\<lambda>v'. jput doc part v')
     | Some v \<Rightarrow> and_then (set_at v rest x) (\<lambda>v'. jput doc part v'))"

definition set_by_path :: "string \<Rightarrow> string \<Rightarrow> json \<Rightarrow> (vault_error, json) outcome" where
  "set_by_path path val doc = set_at doc (path_parts path) (JStr val)"

definition set_by_path_num :: "string \<Rightarrow> u64 \<Rightarrow> json \<Rightarrow> (vault_error, json) outcome" where
  "set_by_path_num path val doc = set_at doc (path_parts path) (JNum (int (unat val)))"

definition parse_form_to_json :: "codecs \<Rightarrow> bytes \<Rightarrow> json" where
  "parse_form_to_json k body = JObj (fold (\<lambda>(a, b). obj_put a (JStr b)) (form_parse k body) [])"

definition value_text :: "codecs \<Rightarrow> json \<Rightarrow> string" where
  "value_text k v = (case v of JStr s \<Rightarrow> s | _ \<Rightarrow> bytes_str (json_to_bytes k v))"

definition json_to_form :: "codecs \<Rightarrow> json \<Rightarrow> (vault_error, bytes) outcome" where
  "json_to_form k doc =
    (case doc of
       JObj kvs \<Rightarrow> Ok (form_serialize k (map (\<lambda>(a, v). (a, value_text k v)) kvs))
     | _ \<Rightarrow> Err NotAnObject)"

definition render :: "codecs \<Rightarrow> TokenResponseFields \<Rightarrow> json \<Rightarrow> (vault_error, bytes) outcome" where
  "render k flds doc =
    (if response_format flds = ''form'' then json_to_form k doc else Ok (json_to_bytes k doc))"


section \<open>Vault operations\<close>

definition load_session :: "codecs \<Rightarrow> keys \<Rightarrow> string \<Rightarrow> string \<Rightarrow> OAuthSession option" where
  "load_session k ks provider session =
    (case ks_get ks (account_of provider session) of Ok j \<Rightarrow> session_of_json k j | _ \<Rightarrow> None)"

definition ok_opt :: "('e, 'a) outcome \<Rightarrow> 'a option" where
  "ok_opt r = (case r of Ok a \<Rightarrow> Some a | _ \<Rightarrow> None)"

definition new_session ::
  "codecs \<Rightarrow> keys \<Rightarrow> string \<Rightarrow> string \<Rightarrow> json \<Rightarrow> TokenResponseFields \<Rightarrow> string option \<Rightarrow> string
    \<Rightarrow> string list \<Rightarrow> u64 \<Rightarrow> string \<Rightarrow> string option \<Rightarrow> OAuthSession" where
  "new_session k ks provider vm doc flds existing session extra now at rt =
    (let old = (if existing = None then None else load_session k ks provider session);
         expires = Option.bind (ok_opt (extract_by_path doc (expires_in_field flds))) parse_u64
     in \<lparr>ses_provider = provider, ses_vm = vm, access_token = at,
         refresh_token = (if existing = None then rt
            else if rt = None then Option.bind old refresh_token else rt),
         token_type = ok_opt (extract_by_path doc (token_type_field flds)),
         expires_at = map_option (\<lambda>ei. now + ei) expires,
         scope = ok_opt (extract_by_path doc ''scope''),
         created_at = (case old of Some s \<Rightarrow> created_at s | None \<Rightarrow> now),
         allowed_domain = Option.bind old allowed_domain,
         ses_extra_domains = (case old of Some s \<Rightarrow> ses_extra_domains s | None \<Rightarrow> extra)\<rparr>)"

definition intercept_token_response ::
  "codecs \<Rightarrow> u64 \<Rightarrow> string \<Rightarrow> keys \<Rightarrow> string \<Rightarrow> string \<Rightarrow> bytes \<Rightarrow> TokenResponseFields
    \<Rightarrow> string option \<Rightarrow> string list \<Rightarrow> (vault_error, bytes) outcome \<times> keys" where
  "intercept_token_response k now fresh_uuid ks provider vm body flds existing extra =
    (let parsed = (if response_format flds = ''form'' then Some (parse_form_to_json k body)
                   else json_of_bytes k body)
     in case parsed of None \<Rightarrow> (Err ParseFailed, ks)
      | Some doc \<Rightarrow>
        (case extract_by_path doc (access_token_field flds) of
           Err e \<Rightarrow> (Err e, ks)
         | Panic \<Rightarrow> (Panic, ks)
         | Ok at \<Rightarrow>
           (let rt = (if refresh_token_field flds \<noteq> []
                      then ok_opt (extract_by_path doc (refresh_token_field flds)) else None);
                session = (case existing of Some u \<Rightarrow> u | None \<Rightarrow> fresh_uuid);
                dummy_access = make_jwt_dummy_access_token k at provider session;
                ks' = ks_set (account_of provider session)
                  (session_to_json k (new_session k ks provider vm doc flds existing session extra now at rt)) ks
            in (and_then (replace_by_path doc (access_token_field flds) dummy_access)
                  (\<lambda>doc1. and_then (if rt = None then Ok doc1
                     else replace_by_path doc1 (refresh_token_field flds) (refresh_dummy provider session))
                  (\<lambda>doc2. render k flds doc2)), ks'))))"

definition resolve_access_token :: "codecs \<Rightarrow> keys \<Rightarrow> string \<Rightarrow> (vault_error, string option) outcome" where
  "resolve_access_token k ks dummy =
    (case parse_dummy_access_token k dummy of
       None \<Rightarrow> Ok None
     | Some (provider, session) \<Rightarrow>
         (case ks_get ks (account_of provider session) of
            Ok j \<Rightarrow> (case session_of_json k j of Some s \<Rightarrow> Ok (Some (access_token s)) | None \<Rightarrow> Err BadSession)
          | _ \<Rightarrow> Ok None))"

definition resolve_refresh_token :: "codecs \<Rightarrow> keys \<Rightarrow> string \<Rightarrow> (vault_error, string option) outcome" where
  "resolve_refresh_token k ks dummy =
    (case parse_dummy_token dummy REFRESH_PREFIX of
       None \<Rightarrow> Ok None
     | Some (provider, session) \<Rightarrow>
         (case ks_get ks (account_of provider session) of
            Ok j \<Rightarrow> (case session_of_json k j of
                       Some s \<Rightarrow> (case refresh_token s of Some rt \<Rightarrow> Ok (Some rt) | None \<Rightarrow> Err NoRefreshToken)
                     | None \<Rightarrow> Err BadSession)
          | _ \<Rightarrow> Err SessionNotFound))"

datatype OAuthDomainCheck = NotFound | FirstUse | Match | Mismatch string

definition check_and_resolve ::
  "codecs \<Rightarrow> keys \<Rightarrow> string \<Rightarrow> string \<Rightarrow> (vault_error, OAuthDomainCheck) outcome" where
  "check_and_resolve k ks dummy domain =
    (case parse_dummy_access_token k dummy of
       None \<Rightarrow> Ok NotFound
     | Some (provider, session) \<Rightarrow>
         (case ks_get ks (account_of provider session) of
            Ok j \<Rightarrow>
              (case session_of_json k j of
                 None \<Rightarrow> Err BadSession
               | Some s \<Rightarrow>
                   (case allowed_domain s of
                      None \<Rightarrow> Ok FirstUse
                    | Some bound \<Rightarrow>
                        if bound = domain then Ok Match
                        else if domain \<in> set (ses_extra_domains s) then Ok Match
                        else Ok (Mismatch bound)))
          | _ \<Rightarrow> Ok NotFound))"

definition bind_domain :: "codecs \<Rightarrow> string \<Rightarrow> string \<Rightarrow> keys \<Rightarrow> (vault_error, keys) outcome" where
  "bind_domain k dummy domain ks =
    (case parse_dummy_access_token k dummy of
       None \<Rightarrow> Err BadDummy
     | Some (provider, session) \<Rightarrow>
         (case ks_get ks (account_of provider session) of
            Ok j \<Rightarrow>
              (case session_of_json k j of
                 None \<Rightarrow> Err BadSession
               | Some s \<Rightarrow>
                   if allowed_domain s \<noteq> None then Ok ks
                   else Ok (ks_set (account_of provider session)
                          (session_to_json k (s\<lparr>allowed_domain := Some domain\<rparr>)) ks))
          | _ \<Rightarrow> Err SessionNotFound))"

definition try_cached_token_response ::
  "codecs \<Rightarrow> u64 \<Rightarrow> keys \<Rightarrow> string \<Rightarrow> TokenResponseFields \<Rightarrow> (vault_error, bytes option) outcome" where
  "try_cached_token_response k now ks dummy_refresh flds =
    (case parse_dummy_token dummy_refresh REFRESH_PREFIX of
       None \<Rightarrow> Ok None
     | Some (provider, session) \<Rightarrow>
         (case load_session k ks provider session of
            None \<Rightarrow> Ok None
          | Some s \<Rightarrow>
              (case expires_at s of
                 None \<Rightarrow> Ok None
               | Some ea \<Rightarrow>
                   if ea \<le> now + EXPIRY_BUFFER_SECS then Ok None
                   else and_then (set_by_path (access_token_field flds) (plain_dummy provider session) (JObj []))
                     (\<lambda>d1. and_then (if refresh_token_field flds \<noteq> [] \<and> refresh_token s \<noteq> None
                        then set_by_path (refresh_token_field flds) (refresh_dummy provider session) d1 else Ok d1)
                     (\<lambda>d2. and_then (set_by_path_num (expires_in_field flds) (ea - now) d2)
                     (\<lambda>d3. and_then (case token_type s of Some tt \<Rightarrow> set_by_path (token_type_field flds) tt d3
                        | None \<Rightarrow> Ok d3)
                     (\<lambda>d4. and_then (case scope s of Some sc \<Rightarrow> set_by_path ''scope'' sc d4 | None \<Rightarrow> Ok d4)
                     (\<lambda>d5. Ok (ok_opt (render k flds d5))))))))))"

definition is_session_of :: "codecs \<Rightarrow> string \<Rightarrow> keys \<Rightarrow> string \<Rightarrow> bool" where
  "is_session_of k vm ks account \<longleftrightarrow> starts_with account KEYSTORE_PREFIX
    \<and> (case ks_get ks account of
         Ok j \<Rightarrow> (case session_of_json k j of Some s \<Rightarrow> ses_vm s = vm | None \<Rightarrow> False)
       | _ \<Rightarrow> False)"

definition cleanup_vm_sessions :: "codecs \<Rightarrow> string \<Rightarrow> keys \<Rightarrow> keys" where
  "cleanup_vm_sessions k vm ks =
    fold (\<lambda>account ks'. if is_session_of k vm ks' account
        then (case ks_delete account ks' of Ok ks'' \<Rightarrow> ks'' | _ \<Rightarrow> ks') else ks')
      (filter (\<lambda>a. starts_with a KEYSTORE_PREFIX) (ks_list ks)) ks"

definition session_info :: "string \<Rightarrow> OAuthSession \<Rightarrow> OAuthSessionInfo" where
  "session_info account s =
    \<lparr>session_key = account, info_provider = ses_provider s, info_vm = ses_vm s,
     info_token_type = token_type s, info_expires_at = expires_at s, info_scope = scope s,
     info_created_at = created_at s, has_refresh_token = (refresh_token s \<noteq> None),
     info_allowed_domain = allowed_domain s, info_extra_domains = ses_extra_domains s\<rparr>"

definition list_sessions :: "codecs \<Rightarrow> keys \<Rightarrow> string option \<Rightarrow> OAuthSessionInfo list" where
  "list_sessions k ks vm_filter =
    sort_key (\<lambda>i. - int (unat (info_created_at i)))
      (List.map_filter (\<lambda>account.
         case ks_get ks account of
           Ok j \<Rightarrow> (case session_of_json k j of
                      Some s \<Rightarrow> if vm_filter = None \<or> vm_filter = Some (ses_vm s)
                                then Some (session_info account s) else None
                    | None \<Rightarrow> None)
         | _ \<Rightarrow> None)
       (filter (\<lambda>a. starts_with a KEYSTORE_PREFIX) (ks_list ks)))"

definition delete_session :: "string \<Rightarrow> keys \<Rightarrow> (vault_error, keys) outcome" where
  "delete_session key ks =
    (if \<not> starts_with key KEYSTORE_PREFIX then Err InvalidSessionKey
     else case ks_delete key ks of Ok ks' \<Rightarrow> Ok ks' | Err e \<Rightarrow> Err (StoreError e) | Panic \<Rightarrow> Panic)"


section \<open>Dummy token laws\<close>

lemma parse_dummy_token_iff:
  "parse_dummy_token t prefix = Some (p, s)
    \<longleftrightarrow> t = prefix @ p @ '':'' @ s \<and> CHR '':'' \<notin> set p \<and> p \<noteq> [] \<and> s \<noteq> []"
proof
  assume "parse_dummy_token t prefix = Some (p, s)"
  then obtain rest where "strip_prefix t prefix = Some rest" "split_once (CHR '':'') rest = Some (p, s)"
      "p \<noteq> []" "s \<noteq> []"
    by (auto simp: parse_dummy_token_def split: option.splits if_splits)
  then show "t = prefix @ p @ '':'' @ s \<and> CHR '':'' \<notin> set p \<and> p \<noteq> [] \<and> s \<noteq> []"
    by (auto simp: strip_prefix_eq_Some dest!: split_once_Some)
next
  assume "t = prefix @ p @ '':'' @ s \<and> CHR '':'' \<notin> set p \<and> p \<noteq> [] \<and> s \<noteq> []"
  then show "parse_dummy_token t prefix = Some (p, s)"
    by (simp add: parse_dummy_token_def)
qed

definition well_named :: "string \<Rightarrow> string \<Rightarrow> bool" where
  "well_named provider session \<longleftrightarrow> CHR '':'' \<notin> set provider \<and> provider \<noteq> [] \<and> session \<noteq> []"

lemma parse_plain_dummy:
  "well_named p s \<Longrightarrow> parse_dummy_access_token k (plain_dummy p s) = Some (p, s)"
  using parse_dummy_token_iff [of "plain_dummy p s" ACCESS_PREFIX p s]
  by (simp add: parse_dummy_access_token_def well_named_def plain_dummy_def)

lemma parse_refresh_dummy:
  "well_named p s \<Longrightarrow> parse_dummy_token (refresh_dummy p s) REFRESH_PREFIX = Some (p, s)"
  using parse_dummy_token_iff [of "refresh_dummy p s" REFRESH_PREFIX p s]
  by (simp add: well_named_def refresh_dummy_def)

lemma account_of_inject:
  assumes "well_named p s" "well_named p' s'" "account_of p s = account_of p' s'"
  shows "p = p' \<and> s = s'"
proof -
  have "split_once (CHR '':'') (p @ CHR '':'' # s) = split_once (CHR '':'') (p' @ CHR '':'' # s')"
    using assms(3) by (simp add: account_of_def)
  then show ?thesis
    using assms(1,2) by (simp add: well_named_def)
qed


section \<open>Path laws\<close>

lemma jget_replace_single:
  "replace_at doc [part] x = Ok doc' \<Longrightarrow> jget doc' l = (if part = l then Some x else jget doc l)"
  unfolding replace_at.simps by (rule jget_jput)

lemma replace_at_Cons:
  assumes "replace_at doc (part # p # rest) x = Ok doc'"
  obtains v v' where "jget doc part = Some v" "replace_at v (p # rest) x = Ok v'"
    "(jput doc part v' :: (vault_error, json) outcome) = Ok doc'"
  using assms by (auto split: option.splits)

lemma walk_replace_at:
  "replace_at doc ps x = Ok doc' \<Longrightarrow> ps \<noteq> [] \<Longrightarrow> walk doc' ps = Some x"
proof (induction doc ps x arbitrary: doc' rule: replace_at.induct)
  case (3 doc part q rest x)
  from 3(2) obtain v v' where v: "jget doc part = Some v" "replace_at v (q # rest) x = Ok v'"
      "(jput doc part v' :: (vault_error, json) outcome) = Ok doc'"
    by (rule replace_at_Cons)
  then show ?case
    using 3(1) [OF v(1,2)] jget_jput [OF v(3), of part] by simp
next
  case (2 doc part x)
  then show ?case
    using jget_replace_single [OF 2(1), of part] by simp
qed simp

text \<open>A replacement leaves alone every path that is not below it and not above it.\<close>

lemma walk_replace_at_other:
  "replace_at doc ps x = Ok doc' \<Longrightarrow> \<not> starts_with qs ps \<Longrightarrow> \<not> starts_with ps qs \<Longrightarrow>
    walk doc' qs = walk doc qs"
proof (induction doc ps x arbitrary: doc' qs rule: replace_at.induct)
  case (2 doc part x)
  then obtain q qs' where "qs = q # qs'" "q \<noteq> part"
    by (cases qs) auto
  then show ?case
    using jget_replace_single [OF 2(1), of q] by simp
next
  case (3 doc part p rest x)
  from 3(2) obtain v v' where v: "jget doc part = Some v" "replace_at v (p # rest) x = Ok v'"
      "(jput doc part v' :: (vault_error, json) outcome) = Ok doc'"
    by (rule replace_at_Cons)
  obtain q qs' where qs: "qs = q # qs'"
    using 3 by (cases qs) auto
  show ?case
  proof (cases "q = part")
    case True
    then have "walk v' qs' = walk v qs'"
      using 3(1) [OF v(1,2)] 3(3,4) qs by auto
    then show ?thesis
      using True qs v jget_jput [OF v(3), of q] by simp
  next
    case False
    then show ?thesis
      using qs jget_jput [OF v(3), of q] by simp
  qed
qed simp

lemma extract_replaced:
  "replace_by_path doc path t = Ok doc' \<Longrightarrow> extract_by_path doc' path = Ok t"
  using walk_replace_at [of doc "path_parts path" "JStr t" doc']
  by (simp add: replace_by_path_def extract_by_path_def)

definition separate_paths :: "string \<Rightarrow> string \<Rightarrow> bool" where
  "separate_paths a b \<longleftrightarrow> \<not> starts_with (path_parts a) (path_parts b) \<and> \<not> starts_with (path_parts b) (path_parts a)"

lemma extract_replaced_other:
  "replace_by_path doc path t = Ok doc' \<Longrightarrow> separate_paths path other \<Longrightarrow>
    extract_by_path doc' other = extract_by_path doc other"
  using walk_replace_at_other [of doc "path_parts path" "JStr t" doc' "path_parts other"]
  by (simp add: replace_by_path_def extract_by_path_def separate_paths_def)


section \<open>Session laws\<close>

text \<open>serde reads back the session it wrote.\<close>

definition faithful :: "codecs \<Rightarrow> OAuthSession \<Rightarrow> bool" where
  "faithful k s \<longleftrightarrow> session_of_json k (session_to_json k s) = Some s"

lemma stored_session_resolves:
  assumes "faithful k s" "well_named p u"
  shows "resolve_access_token k (ks_set (account_of p u) (session_to_json k s) ks) (plain_dummy p u)
      = Ok (Some (access_token s))"
    and "refresh_token s = Some r \<Longrightarrow>
      resolve_refresh_token k (ks_set (account_of p u) (session_to_json k s) ks) (refresh_dummy p u) = Ok (Some r)"
  using assms
  by (simp_all add: resolve_access_token_def resolve_refresh_token_def parse_plain_dummy
      parse_refresh_dummy faithful_def)

text \<open>Deleting in a loop over a list of accounts those that are sessions of the VM.\<close>

definition cleanup_step :: "codecs \<Rightarrow> string \<Rightarrow> string \<Rightarrow> keys \<Rightarrow> keys" where
  "cleanup_step k vm account ks =
    (if is_session_of k vm ks account then (case ks_delete account ks of Ok ks'' \<Rightarrow> ks'' | _ \<Rightarrow> ks) else ks)"

lemma cleanup_step_get:
  assumes "ks_wf ks"
  shows "ks_wf (cleanup_step k vm a ks)"
    and "ks_get (cleanup_step k vm a ks) b
      = (if b = a \<and> is_session_of k vm ks a then Err KeyNotFound else ks_get ks b)"
proof -
  have "\<exists>ks'. ks_delete a ks = Ok ks'" if "is_session_of k vm ks a"
    using that sqlite.delete_err [of a ks]
    by (auto simp: is_session_of_def is_ok_iff split: outcome.splits)
  then show "ks_wf (cleanup_step k vm a ks)"
    and "ks_get (cleanup_step k vm a ks) b
      = (if b = a \<and> is_session_of k vm ks a then Err KeyNotFound else ks_get ks b)"
    using sqlite.delete_ok [of a ks _ b] assms by (auto simp: cleanup_step_def)
qed

lemma is_session_of_cong: "ks_get ks a = ks_get ks' a \<Longrightarrow> is_session_of k vm ks a = is_session_of k vm ks' a"
  by (simp add: is_session_of_def)

lemma cleanup_fold_get:
  assumes "ks_wf ks"
  shows "ks_wf (fold (cleanup_step k vm) as ks)
    \<and> ks_get (fold (cleanup_step k vm) as ks) b
      = (if b \<in> set as \<and> is_session_of k vm ks b then Err KeyNotFound else ks_get ks b)"
  using assms
proof (induction as arbitrary: ks)
  case (Cons a as)
  note step = cleanup_step_get [OF Cons.prems, of k vm a]
  have "is_session_of k vm (cleanup_step k vm a ks) b = (b \<noteq> a \<and> is_session_of k vm ks b)"
    using step(2) [of b] by (auto simp: is_session_of_def)
  then show ?case
    using Cons.IH [OF step(1)] step(2) [of b] by auto
qed simp

lemma cleanup_get:
  assumes "ks_wf ks"
  shows "ks_get (cleanup_vm_sessions k vm ks) b
    = (if is_session_of k vm ks b then Err KeyNotFound else ks_get ks b)"
proof -
  have "b \<in> set (ks_list ks)" if "is_session_of k vm ks b"
    using that by (auto simp: is_session_of_def ks_list_def ks_get_def dest: map_of_SomeD
        split: option.splits) (metis fst_conv image_eqI map_of_SomeD)
  moreover have "starts_with b KEYSTORE_PREFIX" if "is_session_of k vm ks b"
    using that by (simp add: is_session_of_def)
  ultimately show ?thesis
    using cleanup_fold_get [OF assms, of k vm "filter (\<lambda>a. starts_with a KEYSTORE_PREFIX) (ks_list ks)" b]
    by (auto simp: cleanup_vm_sessions_def cleanup_step_def [abs_def])
qed


section \<open>Properties\<close>


text \<open>binding is first use only: once a session is bound to a domain, that domain and the
  session's extra domains match, every other domain is a mismatch that names the bound domain,
  and a second bind changes nothing.\<close>

theorem bind_domain_once:
  assumes "parse_dummy_access_token k t = Some (p, u)"
    and "ks_get ks (account_of p u) = Ok j" "session_of_json k j = Some s" "allowed_domain s = None"
    and "faithful k (s\<lparr>allowed_domain := Some d\<rparr>)" "bind_domain k t d ks = Ok ks'"
  shows "check_and_resolve k ks' t d'
      = Ok (if d' = d \<or> d' \<in> set (ses_extra_domains s) then Match else Mismatch d)
    \<and> bind_domain k t d' ks' = Ok ks'"
  using assms by (auto simp: bind_domain_def check_and_resolve_def faithful_def)

text \<open>cleaning up a VM deletes exactly its OAuth sessions: every session of the VM is
  gone and every other account, session or API key, is unchanged.\<close>

theorem cleanup_exact:
  assumes "ks_wf ks"
  shows "\<not> is_session_of k vm (cleanup_vm_sessions k vm ks) a
    \<and> (\<not> is_session_of k vm ks a \<longrightarrow> ks_get (cleanup_vm_sessions k vm ks) a = ks_get ks a)"
  using cleanup_get [OF assms, of k vm a] by (auto simp: is_session_of_def)

text \<open>Concrete codecs for one session.\<close>

definition sample_session :: OAuthSession where
  "sample_session = \<lparr>ses_provider = ''google'', ses_vm = ''vm'', access_token = ''real'',
     refresh_token = None, token_type = None, expires_at = None, scope = None, created_at = 5,
     allowed_domain = None, ses_extra_domains = [''b.c'']\<rparr>"

definition sample_codecs :: codecs where
  "sample_codecs =
    \<lparr>session_to_json = (\<lambda>s. if allowed_domain s = None then ''u'' else ''b''),
     session_of_json = (\<lambda>j. if j = ''u'' then Some sample_session
        else if j = ''b'' then Some (sample_session\<lparr>allowed_domain := Some ''a.b''\<rparr>) else None),
     b64_decode = (\<lambda>_. None), b64_encode = (\<lambda>_. []),
     json_of_bytes = (\<lambda>b. if b = [1] then Some (JObj [(''access_token'', JStr ''real'')]) else None),
     json_to_bytes = (\<lambda>_. [2]), form_parse = (\<lambda>_. []), form_serialize = (\<lambda>_. [])\<rparr>"

definition sample_fields :: TokenResponseFields where
  "sample_fields = \<lparr>response_format = ''json'', access_token_field = ''access_token'',
     refresh_token_field = ''refresh_token'', expires_in_field = ''expires_in'', token_type_field = ''token_type''\<rparr>"

lemmas sample_vault_defs = sample_session_def sample_codecs_def sample_fields_def well_named_def
  faithful_def new_session_def extract_by_path_def path_parts_def ok_opt_def Let_def

theorem bind_domain_once_witness:
  "check_and_resolve sample_codecs [(''OAUTH_TOKEN:google:u1'', ''b'')] ''nilbox_oat:google:u1'' ''evil.com''
      = Ok (if ''evil.com'' = ''a.b'' \<or> ''evil.com'' \<in> set (ses_extra_domains sample_session) then Match
            else Mismatch ''a.b'')
   \<and> bind_domain sample_codecs ''nilbox_oat:google:u1'' ''evil.com'' [(''OAUTH_TOKEN:google:u1'', ''b'')]
      = Ok [(''OAUTH_TOKEN:google:u1'', ''b'')]"
proof (rule bind_domain_once [where p = "''google''" and u = "''u1''"
      and ks = "[(''OAUTH_TOKEN:google:u1'', ''u'')]" and j = "''u''"])
  show "parse_dummy_access_token sample_codecs ''nilbox_oat:google:u1'' = Some (''google'', ''u1'')"
    by (simp add: parse_dummy_access_token_def parse_dummy_token_def strip_prefix_def ACCESS_PREFIX_def)
  then show "bind_domain sample_codecs ''nilbox_oat:google:u1'' ''a.b'' [(''OAUTH_TOKEN:google:u1'', ''u'')]
      = Ok [(''OAUTH_TOKEN:google:u1'', ''b'')]"
    by (simp add: bind_domain_def sample_vault_defs account_of_def KEYSTORE_PREFIX_def ks_get_def ks_set_def)
qed (simp_all add: sample_vault_defs account_of_def KEYSTORE_PREFIX_def ks_get_def)

theorem cleanup_exact_witness:
  "\<not> is_session_of sample_codecs ''vm'' (cleanup_vm_sessions sample_codecs ''vm''
        [(''OAUTH_TOKEN:google:u1'', ''u''), (''KEY'', ''u'')]) ''KEY''
    \<and> ks_get (cleanup_vm_sessions sample_codecs ''vm'' [(''OAUTH_TOKEN:google:u1'', ''u''), (''KEY'', ''u'')]) ''KEY''
        = ks_get [(''OAUTH_TOKEN:google:u1'', ''u''), (''KEY'', ''u'')] ''KEY''"
  using cleanup_exact [of "[(''OAUTH_TOKEN:google:u1'', ''u''), (''KEY'', ''u'')]" sample_codecs "''vm''" "''KEY''"]
  by (simp add: ks_wf_def is_session_of_def KEYSTORE_PREFIX_def)


end
