(* ===== verification/Proxy_Http.thy ===== *)
theory Proxy_Http
  imports Oauth_Vault
begin

text \<open>
  What the two HTTP paths of the proxy share: parsed requests
  (\<open>proxy/request_parser.rs\<close>), outgoing requests, \<open>detect_auth_header\<close> and the
  loopback check for OAuth callbacks (\<open>proxy/reverse_proxy.rs\<close>), reading a body
  and writing replies on the VM's stream.  The record \<open>web\<close> holds what the crates
  \<open>httparse\<close>, \<open>http\<close>, \<open>url\<close> and \<open>reqwest\<close> compute.
\<close>

section \<open>Requests\<close>

type_synonym headers = "(string \<times> string) list"

definition hget :: "headers \<Rightarrow> string \<Rightarrow> string option" where
  "hget h k = map_of h k"

definition hremove :: "string \<Rightarrow> headers \<Rightarrow> headers" where
  "hremove k h = filter (\<lambda>e. fst e \<noteq> k) h"

definition hinsert :: "string \<Rightarrow> string \<Rightarrow> headers \<Rightarrow> headers" where
  "hinsert k v h = hremove k h @ [(k, v)]"

lemma hget_hremove [simp]: "hget (hremove k h) l = (if l = k then None else hget h l)"
  by (induction h) (auto simp: hget_def hremove_def)

lemma hget_hinsert [simp]: "hget (hinsert k v h) l = (if l = k then Some v else hget h l)"
proof -
  have "map_of (hremove k h) k = None"
    using hget_hremove [of k h k] by (simp add: hget_def)
  then show ?thesis
    using hget_hremove [of k h l] by (auto simp: hinsert_def hget_def map_add_def split: option.splits)
qed

datatype parse_status =
    Complete nat "string option" "string option" "(string \<times> bytes) list"
  | Partial
  | Malformed

record out_request =
  o_method :: string
  o_url :: string
  o_headers :: headers
  o_body :: "bytes option"

record web =
  http_parse :: "bytes \<Rightarrow> parse_status"
  header_name_ok :: "string \<Rightarrow> bool"
  header_value_ok :: "string \<Rightarrow> bool"
  header_to_str :: "string \<Rightarrow> string option"
  method_parse :: "string \<Rightarrow> string option"
  url_parse :: "string \<Rightarrow> string option"
  url_host :: "string \<Rightarrow> string option"
  url_port :: "string \<Rightarrow> u16 option"
  url_path :: "string \<Rightarrow> string"
  url_set_path :: "string \<Rightarrow> string \<Rightarrow> string"
  url_query :: "string \<Rightarrow> string option"
  url_query_pairs :: "string \<Rightarrow> (string \<times> string) list"

record ParsedRequest =
  req_method :: string
  req_path :: string
  req_headers :: headers
  body_offset :: nat

datatype http_error = MissingMethod | MissingPath | Incomplete | ParseError | MissingHost | BuildFailed
  | ReadFailed | WriteFailed | NoProvider | TlsFailed

definition insert_header :: "headers \<Rightarrow> string \<times> bytes \<Rightarrow> headers" where
  "insert_header h nv =
    (if fst nv = [] then h else hinsert (to_lowercase (fst nv)) (from_utf8_lossy (snd nv)) h)"

definition parse_request_headers :: "web \<Rightarrow> bytes \<Rightarrow> (http_error, ParsedRequest) outcome" where
  "parse_request_headers w dat =
    (case http_parse w dat of
       Complete off meth path hs \<Rightarrow>
         (case meth of None \<Rightarrow> Err MissingMethod | Some m \<Rightarrow>
           (case path of None \<Rightarrow> Err MissingPath | Some p \<Rightarrow>
             Ok \<lparr>req_method = m, req_path = p, req_headers = foldl insert_header [] hs, body_offset = off\<rparr>))
     | Partial \<Rightarrow> Err Incomplete
     | Malformed \<Rightarrow> Err ParseError)"

text \<open>\<open>client.request(method, url)\<close>, one \<open>header\<close> call per entry, an optional body, \<open>build\<close>.\<close>

definition build_request :: "web \<Rightarrow> string \<Rightarrow> string \<Rightarrow> headers \<Rightarrow> bytes \<Rightarrow> out_request option" where
  "build_request w meth url h body =
    (case url_parse w url of
       None \<Rightarrow> None
     | Some u \<Rightarrow>
         if list_all (\<lambda>(k, v). header_name_ok w k \<and> header_value_ok w v) h
         then Some \<lparr>o_method = (case method_parse w meth of Some m \<Rightarrow> m | None \<Rightarrow> ''GET''), o_url = u,
                o_headers = h, o_body = (if body = [] then None else Some body)\<rparr>
         else None)"


section \<open>Auth header detection\<close>

record AuthHeader =
  ah_name :: string
  ah_prefix :: string
  ah_account :: string

fun first_prefix :: "string list \<Rightarrow> string \<Rightarrow> (string \<times> string) option" where
  "first_prefix [] v = None"
| "first_prefix (p # ps) v =
    (case strip_prefix v p of
       Some rest \<Rightarrow> if rest \<noteq> [] then Some (p, rest) else first_prefix ps v
     | None \<Rightarrow> first_prefix ps v)"

definition plain_auth :: "headers \<Rightarrow> string \<Rightarrow> AuthHeader option" where
  "plain_auth h name =
    (case hget h name of
       Some v \<Rightarrow> if v \<noteq> [] then Some \<lparr>ah_name = name, ah_prefix = [], ah_account = v\<rparr> else None
     | None \<Rightarrow> None)"

definition detect_auth_header :: "headers \<Rightarrow> AuthHeader option" where
  "detect_auth_header h =
    (case plain_auth h ''x-api-key'' of
       Some a \<Rightarrow> Some a
     | None \<Rightarrow>
         (case plain_auth h ''x-goog-api-key'' of
            Some a \<Rightarrow> Some a
          | None \<Rightarrow>
              (case plain_auth h ''authorization'' of
                 None \<Rightarrow> None
               | Some a \<Rightarrow>
                   (case first_prefix [''Bearer '', ''token '', ''Basic ''] (ah_account a) of
                      Some (p, rest) \<Rightarrow> Some \<lparr>ah_name = ''authorization'', ah_prefix = p, ah_account = rest\<rparr>
                    | None \<Rightarrow> Some a))))"

lemma first_prefix_Some: "first_prefix ps v = Some (p, r) \<Longrightarrow> v = p @ r \<and> p \<in> set ps \<and> r \<noteq> []"
  by (induction ps) (auto simp: strip_prefix_eq_Some split: option.splits if_splits)

lemma plain_auth_Some:
  "plain_auth h n = Some a \<longleftrightarrow>
    (\<exists>v. hget h n = Some v \<and> v \<noteq> [] \<and> a = \<lparr>ah_name = n, ah_prefix = [], ah_account = v\<rparr>)"
  by (auto simp: plain_auth_def split: option.splits)

lemma plain_auth_None: "plain_auth h n = None \<longleftrightarrow> hget h n = None \<or> hget h n = Some []"
  by (auto simp: plain_auth_def split: option.splits)

definition AUTH_HEADERS :: "string list" where
  "AUTH_HEADERS = [''x-api-key'', ''x-goog-api-key'', ''authorization'']"

lemma detect_auth_header_sound:
  assumes "detect_auth_header h = Some a"
  shows "hget h (ah_name a) = Some (ah_prefix a @ ah_account a) \<and> ah_account a \<noteq> []
    \<and> ah_name a \<in> set AUTH_HEADERS"
proof -
  let ?w = "plain_auth h ''authorization''"
  have plain: "?thesis" if "plain_auth h n = Some a" "n \<in> set AUTH_HEADERS" for n
    using that by (auto simp: plain_auth_Some)
  consider "plain_auth h ''x-api-key'' = Some a" | "plain_auth h ''x-goog-api-key'' = Some a"
    | "?w = Some a"
    | b p r where "?w = Some b" "first_prefix [''Bearer '', ''token '', ''Basic ''] (ah_account b) = Some (p, r)"
        "a = \<lparr>ah_name = ''authorization'', ah_prefix = p, ah_account = r\<rparr>"
    using assms unfolding detect_auth_header_def by (fastforce split: option.splits)
  then show ?thesis
  proof cases
    case 4
    then show ?thesis
      using first_prefix_Some [OF 4(2)] by (auto simp: plain_auth_Some AUTH_HEADERS_def)
  qed (rule plain, assumption, simp add: AUTH_HEADERS_def)+
qed

lemma detect_auth_header_None:
  "detect_auth_header h = None \<longleftrightarrow> (\<forall>n \<in> set AUTH_HEADERS. hget h n = None \<or> hget h n = Some [])"
proof -
  have "detect_auth_header h = None \<longleftrightarrow> plain_auth h ''x-api-key'' = None
      \<and> plain_auth h ''x-goog-api-key'' = None \<and> plain_auth h ''authorization'' = None"
    unfolding detect_auth_header_def by (simp split: option.split)
  then show ?thesis
    by (simp only: plain_auth_None AUTH_HEADERS_def list.set ball_simps) blast
qed


section \<open>The VM's stream\<close>

text \<open>
  \<open>inbox\<close>: the chunks the next reads return, then reads fail.  \<open>room\<close>: how many
  writes the other side still takes before it is gone (\<open>None\<close>: it stays).
\<close>

record conn =
  inbox :: "bytes list"
  outbox :: "bytes list"
  room :: "nat option"
  shut :: bool

definition cwrite :: "bytes \<Rightarrow> conn \<Rightarrow> bool \<times> conn" where
  "cwrite b c =
    (if room c = Some 0 then (False, c)
     else (True, c\<lparr>outbox := outbox c @ [b], room := map_option (\<lambda>n. n - 1) (room c)\<rparr>))"

definition reply :: "string \<Rightarrow> conn \<Rightarrow> conn" where
  "reply s c = (snd (cwrite (str_bytes s) c))\<lparr>shut := True\<rparr>"

fun read_body :: "nat \<Rightarrow> bytes \<Rightarrow> bytes list \<Rightarrow> bytes \<times> bytes list" where
  "read_body len body [] = (body, [])"
| "read_body len body (ch # chs) =
    (if length body < len then read_body len (body @ ch) chs else (body, ch # chs))"

definition content_length_of :: "headers \<Rightarrow> nat" where
  "content_length_of h =
    (case Option.bind (hget h ''content-length'') parse_u64 of Some n \<Rightarrow> unat n | None \<Rightarrow> 0)"

definition collect_body :: "bytes \<Rightarrow> nat \<Rightarrow> headers \<Rightarrow> conn \<Rightarrow> bytes \<times> conn" where
  "collect_body payload off h c =
    (case read_body (content_length_of h) (drop off payload) (inbox c) of
       (body, rest) \<Rightarrow> (body, c\<lparr>inbox := rest\<rparr>))"

lemma read_body_spec:
  "read_body len b chs = (body, rest) \<Longrightarrow>
    b @ concat chs = body @ concat rest \<and> (rest \<noteq> [] \<longrightarrow> len \<le> length body)"
  by (induction len b chs rule: read_body.induct) (auto split: if_splits)

definition crlf :: string where "crlf = [CHR 0x0D, CHR 0x0A]"

definition FORBIDDEN :: string where
  "FORBIDDEN = ''HTTP/1.1 403 Forbidden'' @ crlf @ ''Content-Length: 0'' @ crlf @ crlf"

definition BAD_GATEWAY :: string where
  "BAD_GATEWAY = ''HTTP/1.1 502 Bad Gateway'' @ crlf @ crlf"

definition BAD_GATEWAY0 :: string where
  "BAD_GATEWAY0 = ''HTTP/1.1 502 Bad Gateway'' @ crlf @ ''Content-Length: 0'' @ crlf @ crlf"

definition LIMIT_BODY :: string where
  "LIMIT_BODY = [CHR 0x7B, CHR 0x22] @ ''error'' @ [CHR 0x22, CHR 0x3A, CHR 0x22] @ ''token limit exceeded''
     @ [CHR 0x22, CHR 0x7D]"

definition LIMIT_HEAD :: string where
  "LIMIT_HEAD = ''HTTP/1.1 429 Too Many Requests'' @ crlf @ ''Content-Type: application/json'' @ crlf
     @ ''Content-Length: '' @ nat_digits (length LIMIT_BODY) @ crlf @ ''Connection: close'' @ crlf @ crlf"

text \<open>Responses of the upstream server; \<open>u_ok\<close>: the body stream ends without an error.\<close>

record upstream =
  u_status :: nat
  u_reason :: "string option"
  u_headers :: headers
  u_length :: "nat option"
  u_chunks :: "bytes list"
  u_ok :: bool

definition hop_by_hop :: "string \<Rightarrow> bool" where
  "hop_by_hop name \<longleftrightarrow> name \<in> {''transfer-encoding'', ''content-length'', ''connection''}"

definition header_lines :: "web \<Rightarrow> headers \<Rightarrow> string" where
  "header_lines w h =
    concat (map (\<lambda>(k, v). k @ '': '' @ (case header_to_str w v of Some s \<Rightarrow> s | None \<Rightarrow> []) @ crlf)
      (filter (\<lambda>(k, v). \<not> hop_by_hop k) h))"

definition response_head :: "web \<Rightarrow> upstream \<Rightarrow> string" where
  "response_head w r =
    ''HTTP/1.1 '' @ nat_digits (u_status r) @ '' '' @ (case u_reason r of Some s \<Rightarrow> s | None \<Rightarrow> []) @ crlf
     @ header_lines w (u_headers r)
     @ (case u_length r of Some n \<Rightarrow> ''Content-Length: '' @ nat_digits n @ crlf | None \<Rightarrow> [])
     @ ''Connection: close'' @ crlf @ crlf"


section \<open>OAuth callback ports\<close>

definition parse_octet :: "string \<Rightarrow> nat option" where
  "parse_octet s =
    (if s \<noteq> [] \<and> length s \<le> 3 \<and> list_all is_digit s \<and> (length s = 1 \<or> hd s \<noteq> CHR ''0'')
        \<and> digits_value s < 256 then Some (digits_value s) else None)"

definition parse_ipv4 :: "string \<Rightarrow> nat list option" where
  "parse_ipv4 s =
    (let os = map parse_octet (split_str (CHR ''.'') s)
     in if length os = 4 \<and> None \<notin> set os then Some (map the os) else None)"

text \<open>
  \<open>parse::<Ipv6Addr>\<close> followed by \<open>is_loopback\<close> is a parameter \<open>v6\<close>: \<open>None\<close> when
  the text is no IPv6 address.
\<close>

definition is_loopback_host :: "(string \<Rightarrow> bool option) \<Rightarrow> string \<Rightarrow> bool" where
  "is_loopback_host v6 host0 =
    (let host = (case strip_prefix host0 ''['' of
                   Some h \<Rightarrow> if ends_with h '']'' then butlast h else host0 | None \<Rightarrow> host0)
     in case parse_ipv4 host of
          Some os \<Rightarrow> hd os = 127
        | None \<Rightarrow>
            (case v6 host of
               Some b \<Rightarrow> b
             | None \<Rightarrow> (let low = to_lowercase host in low = ''localhost'' \<or> ends_with low ''.localhost'')))"

definition extract_redirect_port :: "web \<Rightarrow> (string \<Rightarrow> bool option) \<Rightarrow> string \<Rightarrow> u16 option" where
  "extract_redirect_port w v6 url =
    (case url_parse w url of None \<Rightarrow> None | Some u \<Rightarrow>
      (case map_of (url_query_pairs w u) ''redirect_uri'' of None \<Rightarrow> None | Some ru \<Rightarrow>
        (case url_parse w ru of None \<Rightarrow> None | Some r \<Rightarrow>
          (case url_host w r of None \<Rightarrow> None | Some host \<Rightarrow>
            if is_loopback_host v6 host then url_port w r else None))))"

text \<open>Recently opened URLs with their times in milliseconds.\<close>

definition record_browser_open :: "nat \<Rightarrow> string \<Rightarrow> (string \<rightharpoonup> nat) \<Rightarrow> (string \<rightharpoonup> nat)" where
  "record_browser_open now url m =
    (let m' = m(url \<mapsto> now)
     in (\<lambda>u. case m' u of Some t \<Rightarrow> if now - t < 10000 then Some t else None | None \<Rightarrow> None))"

definition was_recently_opened :: "nat \<Rightarrow> string \<Rightarrow> nat \<Rightarrow> (string \<rightharpoonup> nat) \<Rightarrow> bool" where
  "was_recently_opened now url within m =
    (case m url of Some t \<Rightarrow> now - t < within | None \<Rightarrow> False)"

lemma opened_is_recent:
  "0 < within \<Longrightarrow> within \<le> 10000 \<Longrightarrow> t0 \<le> t1 \<Longrightarrow> t1 \<le> t2 \<Longrightarrow>
    was_recently_opened t2 url within (record_browser_open t1 other (record_browser_open t0 url m))
      \<longleftrightarrow> t2 - (if other = url then t1 else t0) < within"
  by (auto simp: was_recently_opened_def record_browser_open_def Let_def)

end
