(* ===== verification/Aws_SigV4.thy ===== *)
theory Aws_SigV4
  imports Domain_Store Proxy_Http "HOL-Library.Product_Lexorder"
begin

text \<open>
  \<open>proxy/auth_delegator/aws_sigv4.rs\<close>: AWS Signature Version 4.  SHA-256 and HMAC
  and the current time are the record \<open>aws_env\<close>; the canonical request, the
  string to sign, the key derivation and the header edits are the code's.
\<close>

record aws_env =
  sha256 :: "bytes \<Rightarrow> bytes"
  hmac_sha256 :: "bytes \<Rightarrow> bytes \<Rightarrow> bytes"
  date_stamp :: string
  amz_date :: string

section \<open>Helpers\<close>

definition strip_suffix :: "string \<Rightarrow> string \<Rightarrow> string option" where
  "strip_suffix s p = (if ends_with s p then Some (take (length s - length p) s) else None)"

definition strip_aws :: "string \<Rightarrow> string option" where
  "strip_aws host =
    (case strip_suffix host ''.amazonaws.com'' of
       Some s \<Rightarrow> Some s
     | None \<Rightarrow> strip_suffix host ''.amazonaws.com.cn'')"

definition extract_region_from_host :: "string \<Rightarrow> string option" where
  "extract_region_from_host host =
    (case strip_aws host of
       None \<Rightarrow> None
     | Some s \<Rightarrow>
         (case split_once (CHR ''.'') s of
            None \<Rightarrow> None
          | Some (_, region) \<Rightarrow> if region = [] then None else Some region))"

definition extract_aws_service :: "string \<Rightarrow> string" where
  "extract_aws_service host =
    (let stripped = (case strip_aws host of Some s \<Rightarrow> s | None \<Rightarrow> host);
         prefix = hd (split_str (CHR ''.'') stripped)
     in if prefix = ''bedrock-runtime'' \<or> prefix = ''bedrock-agent-runtime'' then ''bedrock'' else prefix)"

definition hex_digit :: "bool \<Rightarrow> nat \<Rightarrow> char" where
  "hex_digit upper n = (if n < 10 then char_of (48 + n) else char_of ((if upper then 55 else 87) + n))"

definition hex_byte :: "bool \<Rightarrow> byte \<Rightarrow> string" where
  "hex_byte upper b = [hex_digit upper (unat b div 16), hex_digit upper (unat b mod 16)]"

definition hex_encode :: "bytes \<Rightarrow> string" where
  "hex_encode bs = concat (map (hex_byte False) bs)"

definition hex_sha256 :: "aws_env \<Rightarrow> bytes \<Rightarrow> string" where
  "hex_sha256 e dat = hex_encode (sha256 e dat)"

definition derive_signing_key :: "aws_env \<Rightarrow> string \<Rightarrow> string \<Rightarrow> string \<Rightarrow> string \<Rightarrow> bytes" where
  "derive_signing_key e secret date region service =
    (let k_date = hmac_sha256 e (str_bytes (''AWS4'' @ secret)) (str_bytes date);
         k_region = hmac_sha256 e k_date (str_bytes region);
         k_service = hmac_sha256 e k_region (str_bytes service)
     in hmac_sha256 e k_service (str_bytes ''aws4_request''))"

definition unreserved :: "char \<Rightarrow> bool" where
  "unreserved c \<longleftrightarrow> is_ascii_alphanumeric c \<or> c \<in> {CHR ''-'', CHR ''.'', CHR ''_'', CHR ''~''}"

fun uri_encode :: "string \<Rightarrow> bool \<Rightarrow> string" where
  "uri_encode [] encode_slash = []"
| "uri_encode (c # cs) encode_slash =
    (if unreserved c then [c]
     else if c = CHR ''/'' \<and> \<not> encode_slash then [CHR ''/'']
     else CHR ''%'' # hex_byte True (of_nat (of_char c))) @ uri_encode cs encode_slash"

definition canonical_uri :: "string \<Rightarrow> string" where
  "canonical_uri path =
    (if path = [] then ''/''
     else join ''/'' (map (\<lambda>seg. uri_encode seg False) (split_str (CHR ''/'') path)))"

definition canonical_query_string :: "web \<Rightarrow> string \<Rightarrow> string" where
  "canonical_query_string w url =
    (if (case url_query w url of Some q \<Rightarrow> q | None \<Rightarrow> []) = [] then []
     else join ''&'' (map (\<lambda>(k, v). k @ ''='' @ v)
       (sort (map (\<lambda>(k, v). (uri_encode k True, uri_encode v True)) (url_query_pairs w url)))))"


section \<open>Signing\<close>

record aws_creds =
  access_key_id :: "string option"
  secret_access_key :: "string option"
  aws_region :: "string option"
  session_token :: "string option"

definition no_creds :: aws_creds where
  "no_creds = \<lparr>access_key_id = None, secret_access_key = None, aws_region = None, session_token = None\<rparr>"

definition load_token :: "keys \<Rightarrow> aws_creds \<Rightarrow> string \<Rightarrow> aws_creds" where
  "load_token ks c name =
    (case ks_get ks name of
       Ok v \<Rightarrow>
         if name = ''AWS_ACCESS_KEY_ID'' then c\<lparr>access_key_id := Some v\<rparr>
         else if name = ''AWS_SECRET_ACCESS_KEY'' then c\<lparr>secret_access_key := Some v\<rparr>
         else if name = ''AWS_REGION'' then c\<lparr>aws_region := Some v\<rparr>
         else if name = ''session_token'' then c\<lparr>session_token := Some v\<rparr>
         else c
     | _ \<Rightarrow> c)"

text \<open>Insert a header, or stop with what was changed so far (\<open>value.parse()?\<close>).\<close>

definition try_insert ::
  "web \<Rightarrow> string \<Rightarrow> string \<Rightarrow> out_request \<Rightarrow> (out_request \<Rightarrow> out_request \<times> bool) \<Rightarrow> out_request \<times> bool" where
  "try_insert w k v r next =
    (if header_value_ok w v then next (r\<lparr>o_headers := hinsert k v (o_headers r)\<rparr>) else (r, False))"

definition signed_header_names :: "aws_creds \<Rightarrow> headers \<Rightarrow> string list" where
  "signed_header_names c h =
    sort ([''host'', ''x-amz-content-sha256'', ''x-amz-date'']
      @ (if session_token c = None then [] else [''x-amz-security-token''])
      @ (if hget h ''content-type'' = None then [] else [''content-type'']))"

definition canonical_headers :: "web \<Rightarrow> headers \<Rightarrow> string list \<Rightarrow> string" where
  "canonical_headers w h names =
    concat (map (\<lambda>n. n @ '':'' @ trim (case Option.bind (hget h n) (header_to_str w) of Some v \<Rightarrow> v | None \<Rightarrow> [])
      @ [CHR 0x0A]) names)"

definition canonical_request :: "web \<Rightarrow> out_request \<Rightarrow> string list \<Rightarrow> string \<Rightarrow> string" where
  "canonical_request w r names body_hash =
    join [CHR 0x0A] [o_method r, canonical_uri (url_path w (o_url r)), canonical_query_string w (o_url r),
      canonical_headers w (o_headers r) names, join '';'' names, body_hash]"

definition aws_scope :: "aws_env \<Rightarrow> string \<Rightarrow> string \<Rightarrow> string" where
  "aws_scope e region service = join ''/'' [date_stamp e, region, service, ''aws4_request'']"

definition authorization_value ::
  "web \<Rightarrow> aws_env \<Rightarrow> string \<Rightarrow> string \<Rightarrow> string \<Rightarrow> string \<Rightarrow> string list \<Rightarrow> out_request \<Rightarrow> string \<Rightarrow> string" where
  "authorization_value w e key_id secret region service names r body_hash =
    (let sc = aws_scope e region service;
         to_sign = join [CHR 0x0A] [''AWS4-HMAC-SHA256'', amz_date e, sc,
           hex_sha256 e (str_bytes (canonical_request w r names body_hash))];
         signature = hex_encode (hmac_sha256 e (derive_signing_key e secret (date_stamp e) region service)
           (str_bytes to_sign))
     in ''AWS4-HMAC-SHA256 Credential='' @ key_id @ ''/'' @ sc @ '', SignedHeaders='' @ join '';'' names
          @ '', Signature='' @ signature)"

text \<open>The request after the call, and whether it succeeded.\<close>

definition aws_apply_auth ::
  "web \<Rightarrow> aws_env \<Rightarrow> keys \<Rightarrow> store \<Rightarrow> string list option \<Rightarrow> string \<Rightarrow> out_request \<Rightarrow> out_request \<times> bool" where
  "aws_apply_auth w e ks st override domain r =
    (let names = (case override of Some ns \<Rightarrow> ns | None \<Rightarrow> list_domain_tokens st domain);
         c = foldl (load_token ks) no_creds names
     in case (access_key_id c, secret_access_key c, url_host w (o_url r)) of
          (Some key_id, Some secret, Some host) \<Rightarrow>
            (case (case aws_region c of Some g \<Rightarrow> Some g | None \<Rightarrow> extract_region_from_host host) of
               None \<Rightarrow> (r, False)
             | Some region \<Rightarrow>
                 (let service = extract_aws_service host;
                      r0 = r\<lparr>o_headers := hremove ''authorization'' (o_headers r)\<rparr>;
                      body_hash = hex_sha256 e (case o_body r of Some b \<Rightarrow> b | None \<Rightarrow> [])
                  in try_insert w ''host'' host r0 (\<lambda>r1.
                     try_insert w ''x-amz-date'' (amz_date e) r1 (\<lambda>r2.
                     try_insert w ''x-amz-content-sha256'' body_hash r2 (\<lambda>r3.
                     (case session_token c of
                        None \<Rightarrow> (\<lambda>k. k r3)
                      | Some t \<Rightarrow> try_insert w ''x-amz-security-token'' t r3) (\<lambda>r4.
                     (let sh = signed_header_names c (o_headers r4)
                      in try_insert w ''authorization''
                           (authorization_value w e key_id secret region service sh r4 body_hash) r4
                           (\<lambda>r5. (r5, True)))))))))
        | _ \<Rightarrow> (r, False))"


section \<open>Laws\<close>

lemma aws_apply_auth_frame:
  "aws_apply_auth w e ks st ov d r = (r', ok) \<Longrightarrow>
    o_url r' = o_url r \<and> o_method r' = o_method r \<and> o_body r' = o_body r"
  by (auto simp: aws_apply_auth_def try_insert_def Let_def split: option.splits if_splits)

text \<open>
  The percent-encoder is injective: its inverse reads the code back.
\<close>

definition hex_value :: "char \<Rightarrow> nat" where
  "hex_value c = (let n = of_char c in if n < 58 then n - 48 else n - 55)"

fun uri_decode :: "string \<Rightarrow> string" where
  "uri_decode (c # cs) =
    (if c = CHR ''%'' then (case cs of h # l # rest \<Rightarrow> char_of (16 * hex_value h + hex_value l) # uri_decode rest | _ \<Rightarrow> [])
     else c # uri_decode cs)"
| "uri_decode [] = []"

lemma hex_value_hex_digit: "n < 16 \<Longrightarrow> hex_value (hex_digit True n) = n"
  by (auto simp: hex_value_def hex_digit_def)

lemma percent_reserved: "\<not> unreserved (CHR ''%'')"
  by (simp add: unreserved_def is_ascii_alphanumeric_def is_ascii_alphabetic_def is_digit_def)

lemma uri_decode_encode: "uri_decode (uri_encode s sl) = s"
proof (induction s)
  case (Cons c s)
  have b: "unat (of_nat (of_char c) :: byte) = of_char c"
    by (simp add: unat_byte_of_nat of_char_mod_256)
  then have "char_of (16 * hex_value (hex_digit True (of_char c div 16))
      + hex_value (hex_digit True (of_char c mod 16))) = c"
    by (simp add: hex_value_hex_digit less_mult_imp_div_less)
  then show ?case
    using Cons percent_reserved b by (auto simp: hex_byte_def)
qed simp

lemma uri_encode_inj: "uri_encode s sl = uri_encode t sl \<longleftrightarrow> s = t"
  by (metis uri_decode_encode)

end
