(* ===== verification/Prompt_Board.thy ===== *)
theory Prompt_Board
  imports Prelude
begin

text \<open>
  The pattern the three gates of the proxy share (\<open>proxy/domain_gate.rs\<close>,
  \<open>proxy/api_key_gate.rs\<close>, \<open>proxy/token_mismatch_gate.rs\<close>): a mutex-protected map
  from a key to the sender of a \<open>tokio::sync::watch\<close> channel on which the user's
  answer is published.  Channels live in a store; \<open>wkey\<close> records the key a channel
  was created for.  A sender sends at most once and is dropped when its map entry
  is removed, so a channel is: open, answered, or closed without an answer.
\<close>

record 'd wchan =
  wvalue :: 'd
  wsent :: bool
  tx_alive :: bool
  wkey :: string

record 'd board =
  pending :: "string \<rightharpoonup> nat"
  wchans :: "'d wchan list"

definition board_empty :: "'d board" where
  "board_empty = \<lparr>pending = Map.empty, wchans = []\<rparr>"

text \<open>\<open>watch::channel(init)\<close> and the insertion of its sender.\<close>

definition open_prompt :: "'d \<Rightarrow> string \<Rightarrow> 'd board \<Rightarrow> nat \<times> 'd board" where
  "open_prompt init key b =
    (length (wchans b),
     b\<lparr>pending := (pending b)(key \<mapsto> length (wchans b)),
       wchans := wchans b @ [\<lparr>wvalue = init, wsent = False, tx_alive = True, wkey = key\<rparr>]\<rparr>)"

text \<open>Share the channel of a waiting request, or open one; the flag says it is new.\<close>

definition subscribe_or_open :: "'d \<Rightarrow> string \<Rightarrow> 'd board \<Rightarrow> nat \<times> bool \<times> 'd board" where
  "subscribe_or_open init key b =
    (case pending b key of
       Some c \<Rightarrow> (c, False, b)
     | None \<Rightarrow> (case open_prompt init key b of (c, b') \<Rightarrow> (c, True, b')))"

text \<open>\<open>pending.remove(key)\<close>, dropping the sender.\<close>

definition drop_prompt :: "string \<Rightarrow> 'd board \<Rightarrow> 'd board" where
  "drop_prompt key b =
    (case pending b key of
       None \<Rightarrow> b
     | Some c \<Rightarrow> b\<lparr>pending := (pending b)(key := None),
                    wchans := (wchans b)[c := (wchans b ! c)\<lparr>tx_alive := False\<rparr>]\<rparr>)"

text \<open>\<open>if let Some(tx) = pending.remove(key) { tx.send(decision) }\<close>.\<close>

definition answer_prompt :: "string \<Rightarrow> 'd \<Rightarrow> 'd board \<Rightarrow> 'd board" where
  "answer_prompt key d b =
    (case pending b key of
       None \<Rightarrow> b
     | Some c \<Rightarrow> b\<lparr>pending := (pending b)(key := None),
                    wchans := (wchans b)[c := (wchans b ! c)\<lparr>wvalue := d, wsent := True, tx_alive := False\<rparr>]\<rparr>)"

datatype 'd poll = Ready 'd | Closed | Waiting

text \<open>
  \<open>wait_for_decision\<close>: \<open>changed()\<close> returns once for the sent value and fails when
  the sender is gone; the initial value is skipped.
\<close>

definition wait_poll :: "'d \<Rightarrow> 'd board \<Rightarrow> nat \<Rightarrow> 'd poll" where
  "wait_poll init b c =
    (let ch = wchans b ! c in
     if wsent ch \<and> wvalue ch \<noteq> init then Ready (wvalue ch)
     else if \<not> tx_alive ch then Closed else Waiting)"

definition board_inv :: "'d board \<Rightarrow> bool" where
  "board_inv b \<longleftrightarrow>
     (\<forall>k c. pending b k = Some c \<longrightarrow>
        c < length (wchans b) \<and> wkey (wchans b ! c) = k \<and> \<not> wsent (wchans b ! c))
   \<and> (\<forall>c < length (wchans b). tx_alive (wchans b ! c) \<longleftrightarrow> pending b (wkey (wchans b ! c)) = Some c)"

lemma board_inv_empty [simp]: "board_inv board_empty"
  by (simp add: board_inv_def board_empty_def)

lemma board_inv_open:
  "board_inv b \<Longrightarrow> pending b key = None \<Longrightarrow> board_inv (snd (open_prompt init key b))"
  by (auto simp: board_inv_def open_prompt_def nth_append less_Suc_eq)

lemma board_inv_subscribe:
  "board_inv b \<Longrightarrow> subscribe_or_open init key b = (c, fresh, b') \<Longrightarrow>
    board_inv b' \<and> c < length (wchans b') \<and> wkey (wchans b' ! c) = key \<and> tx_alive (wchans b' ! c)
      \<and> pending b' key = Some c"
  using board_inv_open [of b key init]
  by (auto simp: subscribe_or_open_def open_prompt_def split: option.splits)
    (auto simp: board_inv_def)

lemma board_inv_drop: "board_inv b \<Longrightarrow> board_inv (drop_prompt key b)"
  by (auto simp: board_inv_def drop_prompt_def nth_list_update split: option.splits)

lemma board_inv_answer: "board_inv b \<Longrightarrow> board_inv (answer_prompt key d b)"
  by (auto simp: board_inv_def answer_prompt_def nth_update_eq split: option.splits) metis

lemma length_wchans [simp]:
  "length (wchans (drop_prompt key b)) = length (wchans b)"
  "length (wchans (answer_prompt key d b)) = length (wchans b)"
  by (simp_all add: drop_prompt_def answer_prompt_def split: option.splits)

lemma wkey_stable [simp]:
  "c < length (wchans b) \<Longrightarrow> wkey (wchans (drop_prompt key b) ! c) = wkey (wchans b ! c)"
  "c < length (wchans b) \<Longrightarrow> wkey (wchans (answer_prompt key d b) ! c) = wkey (wchans b ! c)"
  by (simp_all add: drop_prompt_def answer_prompt_def nth_update_eq split: option.splits)

lemma subscribe_stable:
  "subscribe_or_open init key b = (c, fresh, b') \<Longrightarrow> i < length (wchans b) \<Longrightarrow>
    i < length (wchans b') \<and> wchans b' ! i = wchans b ! i"
  by (auto simp: subscribe_or_open_def open_prompt_def nth_append split: option.splits)

text \<open>The answer reaches exactly the waiters of the pending channel of that key.\<close>

lemma answer_reaches:
  assumes "board_inv b" "pending b key = Some c" "d \<noteq> init"
  shows "wait_poll init (answer_prompt key d b) c = Ready d"
  using assms by (simp add: wait_poll_def answer_prompt_def board_inv_def)

lemma answer_other:
  assumes "pending b key \<noteq> Some c"
  shows "wait_poll init (answer_prompt key d b) c = wait_poll init b c"
  using assms by (cases "pending b key") (auto simp: wait_poll_def answer_prompt_def)

end
