(* ===== verification/Api_Gates.thy ===== *)
theory Api_Gates
  imports Keystore Prompt_Board
begin

text \<open>
  The two other user prompts of the proxy: \<open>proxy/api_key_gate.rs\<close> (the real key
  of an account, from the key store or from the user, 120 s) and
  \<open>proxy/token_mismatch_gate.rs\<close> (send a request whose account is not mapped, 30 s,
  timeout passes).  Each operation is split at the wait, as in the domain gate.
\<close>

section \<open>API key gate\<close>

datatype ApiKeyResponse = KeyPending | Provided string | Cancelled

record api_key_gate =
  keystore :: keys
  key_prompts :: "ApiKeyResponse board"
  key_events :: "(string \<times> string) list"

definition api_key_gate_new :: "keys \<Rightarrow> api_key_gate" where
  "api_key_gate_new ks = \<lparr>keystore = ks, key_prompts = board_empty, key_events = []\<rparr>"

definition get_or_prompt_begin :: "string \<Rightarrow> string \<Rightarrow> api_key_gate \<Rightarrow> api_key_gate \<times> (string + nat)" where
  "get_or_prompt_begin account domain g =
    (case ks_get (keystore g) account of
       Ok key \<Rightarrow> (g, Inl key)
     | _ \<Rightarrow> (case subscribe_or_open KeyPending account (key_prompts g) of (c, fresh, b) \<Rightarrow>
         (g\<lparr>key_prompts := b,
            key_events := key_events g @ (if fresh then [(account, domain)] else [])\<rparr>, Inr c)))"

fun wait_for_response :: "ApiKeyResponse poll \<Rightarrow> ApiKeyResponse" where
  "wait_for_response (Ready r) = r"
| "wait_for_response Closed = Cancelled"
| "wait_for_response Waiting = Cancelled"

definition get_or_prompt_end :: "string \<Rightarrow> ApiKeyResponse \<Rightarrow> api_key_gate \<Rightarrow> api_key_gate \<times> string option" where
  "get_or_prompt_end account response g =
    ((if response = Cancelled then g\<lparr>key_prompts := drop_prompt account (key_prompts g)\<rparr> else g),
     (case response of Provided key \<Rightarrow> Some key | _ \<Rightarrow> None))"

definition api_key_resolve :: "string \<Rightarrow> string option \<Rightarrow> api_key_gate \<Rightarrow> api_key_gate" where
  "api_key_resolve account key g =
    (case key of
       Some secret \<Rightarrow>
         g\<lparr>keystore := ks_set account secret (keystore g),
           key_prompts := answer_prompt account (Provided secret) (key_prompts g)\<rparr>
     | None \<Rightarrow> g\<lparr>key_prompts := answer_prompt account Cancelled (key_prompts g)\<rparr>)"

text \<open>
  A complete call as the proxy sees it, with nothing interleaved but the user's
  answer to this prompt: \<open>Some (Some k)\<close> a key, \<open>Some None\<close> cancel, \<open>None\<close> timeout.
\<close>

definition get_or_prompt :: "string option option \<Rightarrow> string \<Rightarrow> string \<Rightarrow> api_key_gate \<Rightarrow> api_key_gate \<times> string option" where
  "get_or_prompt user account domain g =
    (case get_or_prompt_begin account domain g of
       (g1, Inl key) \<Rightarrow> (g1, Some key)
     | (g1, Inr c) \<Rightarrow>
         (let g2 = (case user of Some k \<Rightarrow> api_key_resolve account k g1 | None \<Rightarrow> g1)
          in get_or_prompt_end account (wait_for_response (wait_poll KeyPending (key_prompts g2) c)) g2))"


section \<open>Token mismatch gate\<close>

datatype TokenMismatchDecision = MismatchPending | PassThrough | Block

record mismatch_gate =
  mismatch_prompts :: "TokenMismatchDecision board"
  mismatch_events :: "(string \<times> string \<times> string \<times> string list) list"

definition mismatch_gate_new :: mismatch_gate where
  "mismatch_gate_new = \<lparr>mismatch_prompts = board_empty, mismatch_events = []\<rparr>"

text \<open>\<open>request_id\<close> is a fresh UUID, an argument here.\<close>

definition mismatch_begin ::
  "string \<Rightarrow> string \<Rightarrow> string \<Rightarrow> string list \<Rightarrow> mismatch_gate \<Rightarrow> mismatch_gate \<times> nat" where
  "mismatch_begin request_id domain request_account mapped_tokens g =
    (case open_prompt MismatchPending request_id (mismatch_prompts g) of (c, b) \<Rightarrow>
      (g\<lparr>mismatch_prompts := b,
         mismatch_events := mismatch_events g @ [(request_id, domain, request_account, mapped_tokens)]\<rparr>, c))"

fun wait_for_mismatch :: "TokenMismatchDecision poll \<Rightarrow> TokenMismatchDecision" where
  "wait_for_mismatch (Ready d) = d"
| "wait_for_mismatch Closed = PassThrough"
| "wait_for_mismatch Waiting = PassThrough"

definition mismatch_end :: "string \<Rightarrow> TokenMismatchDecision \<Rightarrow> mismatch_gate \<Rightarrow> mismatch_gate \<times> bool" where
  "mismatch_end request_id decision g =
    (g\<lparr>mismatch_prompts := drop_prompt request_id (mismatch_prompts g)\<rparr>, decision = PassThrough)"

definition mismatch_resolve :: "string \<Rightarrow> TokenMismatchDecision \<Rightarrow> mismatch_gate \<Rightarrow> mismatch_gate" where
  "mismatch_resolve request_id decision g =
    g\<lparr>mismatch_prompts := answer_prompt request_id decision (mismatch_prompts g)\<rparr>"

definition mismatch_check ::
  "string \<Rightarrow> TokenMismatchDecision option \<Rightarrow> string \<Rightarrow> string \<Rightarrow> string list \<Rightarrow> mismatch_gate
    \<Rightarrow> mismatch_gate \<times> bool" where
  "mismatch_check request_id user domain request_account mapped_tokens g =
    (case mismatch_begin request_id domain request_account mapped_tokens g of (g1, c) \<Rightarrow>
      let g2 = (case user of Some d \<Rightarrow> mismatch_resolve request_id d g1 | None \<Rightarrow> g1)
      in mismatch_end request_id
           (wait_for_mismatch (wait_poll MismatchPending (mismatch_prompts g2) c)) g2)"


section \<open>Laws\<close>

lemma get_or_prompt_stored:
  "ks_get (keystore g) account = Ok key \<Longrightarrow> get_or_prompt user account domain g = (g, Some key)"
  by (simp add: get_or_prompt_def get_or_prompt_begin_def)

lemma subscribe_board:
  "board_inv b \<Longrightarrow> subscribe_or_open KeyPending a b = (c, fresh, b') \<Longrightarrow>
    board_inv b' \<and> pending b' a = Some c"
  using board_inv_subscribe [of b KeyPending a c fresh b'] by simp

lemma waiting_of_pending:
  "board_inv b \<Longrightarrow> pending b a = Some c \<Longrightarrow> wait_poll init b c = Waiting"
proof -
  assume inv: "board_inv b" and p: "pending b a = Some c"
  then have c: "c < length (wchans b)" "wkey (wchans b ! c) = a" "\<not> wsent (wchans b ! c)"
    unfolding board_inv_def by blast+
  then have "tx_alive (wchans b ! c)"
    using inv p unfolding board_inv_def by blast
  then show ?thesis
    using c by (simp add: wait_poll_def)
qed

lemma get_or_prompt_missing:
  assumes "ks_get (keystore g) account = Err e" "board_inv (key_prompts g)"
  shows "snd (get_or_prompt user account domain g) = (case user of Some k \<Rightarrow> k | None \<Rightarrow> None)
    \<and> pending (key_prompts (fst (get_or_prompt user account domain g))) account = None
    \<and> keystore (fst (get_or_prompt user account domain g))
        = (case user of Some (Some k) \<Rightarrow> ks_set account k (keystore g) | _ \<Rightarrow> keystore g)"
proof -
  obtain c fresh b where s: "subscribe_or_open KeyPending account (key_prompts g) = (c, fresh, b)"
    by (metis prod_cases3)
  have b: "board_inv b" "pending b account = Some c"
    using subscribe_board [OF assms(2) s] by auto
  have "pending (drop_prompt account b') account = None" for b' :: "ApiKeyResponse board"
    by (simp add: drop_prompt_def split: option.split)
  moreover have "pending (answer_prompt account r b') account = None" for r and b' :: "ApiKeyResponse board"
    by (simp add: answer_prompt_def split: option.split)
  moreover have "wait_poll KeyPending (answer_prompt account r b) c = Ready r" if "r \<noteq> KeyPending" for r
    using answer_reaches [OF b that] .
  ultimately show ?thesis
    using assms(1) b waiting_of_pending [OF b]
    by (auto simp: get_or_prompt_def get_or_prompt_begin_def s get_or_prompt_end_def api_key_resolve_def
        Let_def split: option.split)
qed

lemma mismatch_check_result:
  assumes "board_inv (mismatch_prompts g)" "pending (mismatch_prompts g) rid = None"
    and "user \<noteq> Some MismatchPending"
  shows "snd (mismatch_check rid user domain acc toks g)
    = (case user of Some d \<Rightarrow> d = PassThrough | None \<Rightarrow> True)"
proof -
  obtain c b where o: "open_prompt MismatchPending rid (mismatch_prompts g) = (c, b)"
    by force
  then have b: "board_inv b" "pending b rid = Some c"
    using board_inv_open [OF assms(1,2), of MismatchPending] by (auto simp: open_prompt_def)
  then show ?thesis
    using assms(3) waiting_of_pending [OF b] answer_reaches [OF b, of _ MismatchPending]
    by (cases user) (auto simp: mismatch_check_def mismatch_begin_def o mismatch_end_def
        mismatch_resolve_def Let_def)
qed


section \<open>Properties\<close>

text \<open>an API key request never invents a key: a stored key is returned without a prompt,
  otherwise the result is exactly what the user answered, nothing on cancel or timeout; a
  provided key is stored for that account only, and no prompt is left pending.\<close>

theorem api_key_only_from_store_or_user:
  assumes "board_inv (key_prompts g)" "get_or_prompt user account domain g = (g', r)"
  shows "r = (case ks_get (keystore g) account of Ok key \<Rightarrow> Some key
              | _ \<Rightarrow> (case user of Some k \<Rightarrow> k | None \<Rightarrow> None))
    \<and> (b \<noteq> account \<longrightarrow> ks_get (keystore g') b = ks_get (keystore g) b)
    \<and> (ks_get (keystore g) account = Err KeyNotFound \<longrightarrow> pending (key_prompts g') account = None)"
proof (cases "ks_get (keystore g) account")
  case (Ok key)
  then show ?thesis
    using assms(2) get_or_prompt_stored [OF Ok, of user domain] by auto
next
  case (Err e)
  then show ?thesis
    using assms(2) get_or_prompt_missing [OF Err assms(1), of user domain]
    by (auto split: option.splits)
next
  case Panic
  then show ?thesis
    by (auto simp: ks_get_def split: option.splits)
qed

theorem api_key_only_from_store_or_user_witness:
  "Some ''k'' = (case ks_get [] ''A'' of Ok key \<Rightarrow> Some key
              | _ \<Rightarrow> (case Some (Some ''k'') of Some k \<Rightarrow> k | None \<Rightarrow> None))
    \<and> ks_get (keystore (fst (get_or_prompt (Some (Some ''k'')) ''A'' ''d''
           (api_key_gate_new [])))) ''B'' = ks_get (keystore (api_key_gate_new [])) ''B''
    \<and> pending (key_prompts (fst (get_or_prompt (Some (Some ''k'')) ''A'' ''d'' (api_key_gate_new [])))) ''A''
          = None"
  using api_key_only_from_store_or_user [of "api_key_gate_new []" "Some (Some ''k'')" "''A''" "''d''"
      "fst (get_or_prompt (Some (Some ''k'')) ''A'' ''d'' (api_key_gate_new []))" "Some ''k''" "''B''"]
  by (simp add: api_key_gate_new_def get_or_prompt_def get_or_prompt_begin_def ks_get_def
      subscribe_or_open_def open_prompt_def board_empty_def api_key_resolve_def answer_prompt_def
      wait_poll_def get_or_prompt_end_def board_inv_def)

end
