(* ===== verification/Auth_Router.thy ===== *)
theory Auth_Router
  imports Prelude
begin

text \<open>
  \<open>crates/nilbox-core/src/proxy/auth_router.rs\<close>: domain patterns to auth delegators.
  The type of delegators is a parameter.
\<close>

record 'd AuthRoute =
  domain_pattern :: string
  delegator :: 'd
  credential_account :: string

record 'd AuthRouter =
  routes :: "'d AuthRoute list"
  default_delegator :: 'd

definition domain_matches :: "string \<Rightarrow> string \<Rightarrow> bool" where
  "domain_matches pattern domain =
    (if pattern = domain then True
     else case strip_prefix pattern ''*.'' of
       Some suffix \<Rightarrow> domain = suffix \<or> ends_with domain (''.'' @ suffix)
     | None \<Rightarrow> False)"

definition is_wildcard :: "'d AuthRoute \<Rightarrow> bool" where
  "is_wildcard r \<longleftrightarrow> starts_with (domain_pattern r) ''*.''"

text \<open>The second pass: a later route replaces the best one only if its pattern is longer.\<close>

fun best_wildcard :: "string \<Rightarrow> 'd AuthRoute option \<Rightarrow> 'd AuthRoute list \<Rightarrow> 'd AuthRoute option" where
  "best_wildcard domain best [] = best"
| "best_wildcard domain best (r # rs) =
    (if is_wildcard r \<and> domain_matches (domain_pattern r) domain then
       (case best of
          Some prev \<Rightarrow>
            if length (domain_pattern prev) < length (domain_pattern r)
            then best_wildcard domain (Some r) rs else best_wildcard domain best rs
        | None \<Rightarrow> best_wildcard domain (Some r) rs)
     else best_wildcard domain best rs)"

definition router_resolve :: "'d AuthRouter \<Rightarrow> string \<Rightarrow> 'd \<times> string option" where
  "router_resolve rt domain =
    (case find (\<lambda>r. \<not> is_wildcard r \<and> domain_matches (domain_pattern r) domain) (routes rt) of
       Some r \<Rightarrow> (delegator r, Some (credential_account r))
     | None \<Rightarrow>
         (case best_wildcard domain None (routes rt) of
            Some r \<Rightarrow> (delegator r, Some (credential_account r))
          | None \<Rightarrow> (default_delegator rt, None)))"

definition add_route :: "string \<Rightarrow> 'd \<Rightarrow> string \<Rightarrow> 'd AuthRouter \<Rightarrow> 'd AuthRouter" where
  "add_route pattern d account rt =
    rt\<lparr>routes := routes rt @ [\<lparr>domain_pattern = pattern, delegator = d, credential_account = account\<rparr>]\<rparr>"

definition remove_route :: "string \<Rightarrow> 'd AuthRouter \<Rightarrow> 'd AuthRouter" where
  "remove_route pattern rt = rt\<lparr>routes := filter (\<lambda>r. domain_pattern r \<noteq> pattern) (routes rt)\<rparr>"

definition clear_routes :: "'d AuthRouter \<Rightarrow> 'd AuthRouter" where
  "clear_routes rt = rt\<lparr>routes := []\<rparr>"


section \<open>Laws\<close>

lemma domain_matches_exact: "\<not> starts_with p ''*.'' \<Longrightarrow> domain_matches p d \<longleftrightarrow> p = d"
  by (simp add: domain_matches_def strip_prefix_def)

text \<open>The wildcard routes that apply, in order, and the longest of them.\<close>

definition wildcards_for :: "string \<Rightarrow> 'd AuthRoute list \<Rightarrow> 'd AuthRoute list" where
  "wildcards_for domain rs = filter (\<lambda>r. is_wildcard r \<and> domain_matches (domain_pattern r) domain) rs"

lemma best_wildcard_some:
  "best_wildcard domain (Some b) rs = Some w \<Longrightarrow>
    (w = b \<or> w \<in> set (wildcards_for domain rs))
    \<and> length (domain_pattern b) \<le> length (domain_pattern w)
    \<and> (\<forall>r \<in> set (wildcards_for domain rs). length (domain_pattern r) \<le> length (domain_pattern w))"
  by (induction rs arbitrary: b)
    (fastforce simp: wildcards_for_def split: if_splits)+

lemma best_wildcard_from_some: "\<exists>w. best_wildcard domain (Some b) rs = Some w"
  by (induction rs arbitrary: b) auto

lemma best_wildcard_none:
  "best_wildcard domain None rs = None \<longleftrightarrow> wildcards_for domain rs = []"
proof (induction rs)
  case (Cons r rs)
  then show ?case
    using best_wildcard_from_some [of domain r rs] by (auto simp: wildcards_for_def)
qed (simp add: wildcards_for_def)

lemma best_wildcard_longest:
  "best_wildcard domain None rs = Some w \<Longrightarrow>
    w \<in> set (wildcards_for domain rs)
    \<and> (\<forall>r \<in> set (wildcards_for domain rs). length (domain_pattern r) \<le> length (domain_pattern w))"
proof (induction rs)
  case (Cons r rs)
  show ?case
  proof (cases "is_wildcard r \<and> domain_matches (domain_pattern r) domain")
    case True
    then show ?thesis
      using Cons.prems best_wildcard_some [of domain r rs w] by (auto simp: wildcards_for_def)
  qed (use Cons in \<open>auto simp: wildcards_for_def\<close>)
qed simp


section \<open>Properties\<close>

text \<open>routing priority: an exact route for the domain always wins over every wildcard;
  without one, the route taken is a matching wildcard whose pattern is at least as long as every
  other matching wildcard; with neither, the default delegator is used with no account.\<close>

theorem route_priority:
  "(case router_resolve rt d of (del, acct) \<Rightarrow>
     if \<exists>r. r \<in> set (routes rt) \<and> \<not> is_wildcard r \<and> domain_pattern r = d
     then \<exists>r. r \<in> set (routes rt) \<and> domain_pattern r = d \<and> del = delegator r
            \<and> acct = Some (credential_account r)
     else if wildcards_for d (routes rt) \<noteq> []
     then \<exists>w. w \<in> set (wildcards_for d (routes rt)) \<and> del = delegator w
            \<and> acct = Some (credential_account w)
            \<and> (list_all (\<lambda>r. length (domain_pattern r) \<le> length (domain_pattern w)) (wildcards_for d (routes rt)))
     else del = default_delegator rt \<and> acct = None)"
proof (cases "find (\<lambda>r. \<not> is_wildcard r \<and> domain_matches (domain_pattern r) d) (routes rt)")
  case (Some r)
  then have "r \<in> set (routes rt)" "\<not> is_wildcard r" "domain_pattern r = d"
    by (auto simp: find_Some_iff is_wildcard_def domain_matches_exact)
  then show ?thesis
    using Some by (auto simp: router_resolve_def)
next
  case None
  then have no_exact: "\<not> (\<exists>r. r \<in> set (routes rt) \<and> \<not> is_wildcard r \<and> domain_pattern r = d)"
    by (auto simp: find_None_iff domain_matches_def)
  show ?thesis
  proof (cases "best_wildcard d None (routes rt)")
    case None': None
    then show ?thesis
      using None no_exact best_wildcard_none [of d "routes rt"] by (auto simp: router_resolve_def)
  next
    case (Some w)
    then have "wildcards_for d (routes rt) \<noteq> []"
      using best_wildcard_none [of d "routes rt"] by simp
    then show ?thesis
      using None no_exact Some best_wildcard_longest [OF Some]
      by (auto simp: router_resolve_def list_all_iff)
  qed
qed

end
