(* ===== verification/Delegators.thy ===== *)
theory Delegators
  imports Aws_SigV4 Api_Gates Auth_Router
begin

text \<open>
  The auth delegators (\<open>proxy/auth_delegator/\<close>): each rewrites an outgoing request
  so that it carries a secret the VM never sees.  An \<open>OAuthProvider\<close> is a loaded
  script of \<open>proxy/oauth_script_engine.rs\<close>; the results of its functions, computed
  by the Rhai interpreter, are fields of the record.
\<close>

section \<open>OAuth providers\<close>

record TokenRequestInstructions =
  field_substitutions :: "string \<rightharpoonup> string"
  target_url :: string
  allowed_redirect_hosts :: "string list"

record OAuthProvider =
  prov_id :: string
  prov_name :: string
  token_path :: string
  placeholder_prefix :: string
  auth_domains :: "string list"
  token_path_pattern :: string
  flow_type :: string
  token_endpoint_domains :: "string list"
  cross_domains :: "string list"
  token_response_fields :: TokenResponseFields
  placeholder_extraction :: "(string \<times> string) list option"
  token_request_instructions :: "(string \<rightharpoonup> string) \<Rightarrow> TokenRequestInstructions option"
  is_token_exchange_request :: "(string \<rightharpoonup> string) \<Rightarrow> bool"

text \<open>\<open>providers.values()\<close> in the iteration order of the hash map.\<close>

definition find_by_auth_domain :: "OAuthProvider list \<Rightarrow> string \<Rightarrow> OAuthProvider option" where
  "find_by_auth_domain ps domain = find (\<lambda>p. domain \<in> set (auth_domains p)) ps"

definition find_by_token_path :: "OAuthProvider list \<Rightarrow> string \<Rightarrow> OAuthProvider option" where
  "find_by_token_path ps path =
    find (\<lambda>p. token_path_pattern p \<noteq> [] \<and> contains_str path (token_path_pattern p)) ps"

definition find_by_token_domain_and_path :: "OAuthProvider list \<Rightarrow> string \<Rightarrow> string \<Rightarrow> OAuthProvider option" where
  "find_by_token_domain_and_path ps domain path =
    find (\<lambda>p. domain \<in> set (token_endpoint_domains p) \<and> contains_str path (token_path_pattern p)) ps"

text \<open>The map is keyed by the id of the script, not by the name it declares.\<close>

definition get_provider :: "OAuthProvider list \<Rightarrow> string \<Rightarrow> OAuthProvider option" where
  "get_provider ps name = find (\<lambda>p. prov_id p = name) ps"

definition resolve_json_path :: "json \<Rightarrow> string \<Rightarrow> string option" where
  "resolve_json_path v path = Option.bind (walk v (path_parts path)) as_str"

definition resolve_json_path_with_fallback :: "json \<Rightarrow> string \<Rightarrow> string option" where
  "resolve_json_path_with_fallback v path =
    (case resolve_json_path v path of
       Some r \<Rightarrow> Some r
     | None \<Rightarrow>
         (case split_once (CHR ''.'') path of
            Some (first, rest) \<Rightarrow> if first = ''installed'' then resolve_json_path v (''web.'' @ rest) else None
          | None \<Rightarrow> None))"

definition upper_char :: "char \<Rightarrow> char" where
  "upper_char c = (let n = of_char c :: nat in if 97 \<le> n \<and> n \<le> 122 then char_of (n - 32) else c)"

definition oauth_prefix :: "OAuthProvider \<Rightarrow> string" where
  "oauth_prefix p = ''OAUTH_'' @ map upper_char (prov_name p) @ ''_''"

text \<open>\<open>form_urlencoded::parse(..).collect::<HashMap>()\<close>: a later pair replaces an earlier one.\<close>

definition form_params :: "codecs \<Rightarrow> bytes \<Rightarrow> (string \<rightharpoonup> string)" where
  "form_params k body = map_of (rev (form_parse k body))"


section \<open>The delegators\<close>

datatype delegator = Bearer bool | AwsSigV4 "string list option" | Telegram | ScriptedOAuth

fun delegator_kind :: "delegator \<Rightarrow> string" where
  "delegator_kind (Bearer _) = ''bearer''"
| "delegator_kind (AwsSigV4 _) = ''aws-sigv4''"
| "delegator_kind Telegram = ''telegram''"
| "delegator_kind ScriptedOAuth = ''scripted-oauth''"

definition create_delegator :: "string \<Rightarrow> bool \<Rightarrow> delegator option" where
  "create_delegator knd has_vault =
    (if knd = ''bearer'' then Some (Bearer has_vault)
     else if knd = ''aws-sigv4'' then Some (AwsSigV4 None)
     else if knd = ''telegram'' then Some Telegram
     else None)"

record deleg_env =
  d_codecs :: codecs
  d_web :: web
  d_aws :: aws_env
  d_providers :: "OAuthProvider list"
  d_key_answer :: "string option option"

text \<open>
  A call returns the key gate, the request as it left it (also after an error),
  and whether it succeeded.
\<close>

definition bearer_token :: "string \<Rightarrow> string option" where
  "bearer_token v =
    (case strip_prefix v ''Bearer '' of Some t \<Rightarrow> Some t | None \<Rightarrow> strip_prefix v ''token '')"

definition bearer_or_token :: "string \<Rightarrow> string" where
  "bearer_or_token v = (if starts_with v ''Bearer '' then ''Bearer '' else ''token '')"

definition header_text :: "web \<Rightarrow> out_request \<Rightarrow> string \<Rightarrow> string option" where
  "header_text w r name =
    map_option (\<lambda>v. case header_to_str w v of Some s \<Rightarrow> s | None \<Rightarrow> []) (hget (o_headers r) name)"

definition auth_scheme :: "string \<Rightarrow> string" where
  "auth_scheme v =
    (if starts_with v ''Bearer '' then ''Bearer ''
     else if starts_with v ''token '' then ''token ''
     else if starts_with v ''Basic '' then ''Basic '' else [])"

definition bearer_slot :: "web \<Rightarrow> out_request \<Rightarrow> string \<times> string" where
  "bearer_slot w r =
    (case header_text w r ''authorization'' of
       Some v \<Rightarrow> (''authorization'', auth_scheme v)
     | None \<Rightarrow>
         if hget (o_headers r) ''x-api-key'' \<noteq> None then (''x-api-key'', [])
         else if hget (o_headers r) ''x-goog-api-key'' \<noteq> None then (''x-goog-api-key'', [])
         else (''authorization'', ''Bearer ''))"

definition bearer_apply_key :: "deleg_env \<Rightarrow> string \<Rightarrow> string \<Rightarrow> api_key_gate \<Rightarrow> out_request
    \<Rightarrow> api_key_gate \<times> out_request \<times> bool" where
  "bearer_apply_key e domain account g r =
    (case get_or_prompt (d_key_answer e) account domain g of
       (g', None) \<Rightarrow> (g', r, False)
     | (g', Some real_key) \<Rightarrow>
         (case bearer_slot (d_web e) r of (name, scheme) \<Rightarrow>
            (g', try_insert (d_web e) name (scheme @ real_key) r (\<lambda>r'. (r', True)))))"

definition bearer_apply_auth :: "deleg_env \<Rightarrow> bool \<Rightarrow> string \<Rightarrow> string \<Rightarrow> api_key_gate \<Rightarrow> out_request
    \<Rightarrow> api_key_gate \<times> out_request \<times> bool" where
  "bearer_apply_auth e has_vault domain account g r =
    (case (if has_vault then header_text (d_web e) r ''authorization'' else None) of
       None \<Rightarrow> bearer_apply_key e domain account g r
     | Some v \<Rightarrow>
         (case bearer_token v of
            None \<Rightarrow> bearer_apply_key e domain account g r
          | Some token \<Rightarrow>
              if is_dummy_access_token (d_codecs e) token
              then (case resolve_access_token (d_codecs e) (keystore g) token of
                      Ok (Some real) \<Rightarrow>
                        (g, try_insert (d_web e) ''authorization'' (bearer_or_token v @ real) r (\<lambda>r'. (r', True)))
                    | _ \<Rightarrow> bearer_apply_key e domain account g r)
              else bearer_apply_key e domain account g r))"

definition telegram_apply_auth :: "deleg_env \<Rightarrow> string \<Rightarrow> api_key_gate \<Rightarrow> out_request
    \<Rightarrow> api_key_gate \<times> out_request \<times> bool" where
  "telegram_apply_auth e account g r =
    (case ks_get (keystore g) account of
       Ok real \<Rightarrow>
         (let path = url_path (d_web e) (o_url r); ph = ''/bot'' @ account @ ''/''
          in if \<not> contains_str path ph then (g, r, True)
             else (g, r\<lparr>o_url := url_set_path (d_web e) (o_url r) (replace_all path ph (''/bot'' @ real @ ''/'')),
                        o_headers := hremove ''authorization'' (o_headers r)\<rparr>, True))
     | _ \<Rightarrow> (g, r, False))"

definition scripted_provider :: "OAuthProvider list \<Rightarrow> string \<Rightarrow> OAuthProvider option" where
  "scripted_provider ps account =
    (case find (\<lambda>p. token_path p = account) ps of
       Some p \<Rightarrow> Some p
     | None \<Rightarrow> find (\<lambda>p. starts_with account (oauth_prefix p)) ps)"

definition scripted_secret :: "keys \<Rightarrow> OAuthProvider \<Rightarrow> string \<Rightarrow> string option" where
  "scripted_secret ks p account =
    (case ok_opt (ks_get ks account) of
       Some j \<Rightarrow> Some j
     | None \<Rightarrow>
         (case ok_opt (ks_get ks (''oauth:'' @ prov_name p)) of
            Some j \<Rightarrow> Some j
          | None \<Rightarrow>
              (case filter (\<lambda>a. starts_with a (oauth_prefix p)) (ks_list ks) of
                 a # _ \<Rightarrow> ok_opt (ks_get ks a)
               | [] \<Rightarrow> None)))"

fun extract_values :: "json \<Rightarrow> (string \<times> string) list \<Rightarrow> (string \<times> string) list option" where
  "extract_values doc [] = Some []"
| "extract_values doc ((name, path) # rest) =
    (case resolve_json_path_with_fallback doc path of
       None \<Rightarrow> None
     | Some v \<Rightarrow> map_option (\<lambda>vs. (name, v) # vs) (extract_values doc rest))"

definition redirect_allowed :: "web \<Rightarrow> (string \<rightharpoonup> string) \<Rightarrow> TokenRequestInstructions \<Rightarrow> bool" where
  "redirect_allowed w params ins =
    (case Option.bind (params ''redirect_uri'') (url_parse w) of
       None \<Rightarrow> True
     | Some u \<Rightarrow> (case url_host w u of Some h \<Rightarrow> h | None \<Rightarrow> []) \<in> set (allowed_redirect_hosts ins))"

definition substitute_field ::
  "(string \<times> string) list \<Rightarrow> TokenRequestInstructions \<Rightarrow> string \<times> string \<Rightarrow> string \<times> string" where
  "substitute_field vals ins kv =
    (fst kv, case Option.bind (field_substitutions ins (fst kv)) (map_of vals) of Some v \<Rightarrow> v | None \<Rightarrow> snd kv)"

definition scripted_apply_auth :: "deleg_env \<Rightarrow> keys \<Rightarrow> string \<Rightarrow> out_request \<Rightarrow> out_request \<times> bool" where
  "scripted_apply_auth e ks account r =
    (case scripted_provider (d_providers e) account of None \<Rightarrow> (r, False) | Some p \<Rightarrow>
      (case placeholder_extraction p of None \<Rightarrow> (r, False) | Some extraction \<Rightarrow>
        (case Option.bind (scripted_secret ks p account) (\<lambda>j. json_of_bytes (d_codecs e) (str_bytes j)) of
           None \<Rightarrow> (r, False)
         | Some doc \<Rightarrow>
             (case extract_values doc extraction of None \<Rightarrow> (r, False) | Some vals \<Rightarrow>
               (case o_body r of None \<Rightarrow> (r, False) | Some body \<Rightarrow>
                 (case token_request_instructions p (form_params (d_codecs e) body) of None \<Rightarrow> (r, False) | Some ins \<Rightarrow>
                   if \<not> redirect_allowed (d_web e) (form_params (d_codecs e) body) ins then (r, False)
                   else (case url_parse (d_web e) (target_url ins) of
                           None \<Rightarrow> (r, False)
                         | Some u \<Rightarrow>
                             (r\<lparr>o_url := u,
                                o_body := Some (form_serialize (d_codecs e)
                                  (map (substitute_field vals ins) (form_parse (d_codecs e) body)))\<rparr>, True))))))))"

definition apply_auth :: "deleg_env \<Rightarrow> delegator \<Rightarrow> store \<Rightarrow> string \<Rightarrow> string \<Rightarrow> api_key_gate \<Rightarrow> out_request
    \<Rightarrow> api_key_gate \<times> out_request \<times> bool" where
  "apply_auth e d st domain account g r =
    (case d of
       Bearer v \<Rightarrow> bearer_apply_auth e v domain account g r
     | AwsSigV4 names \<Rightarrow> (g, aws_apply_auth (d_web e) (d_aws e) (keystore g) st names domain r)
     | Telegram \<Rightarrow> telegram_apply_auth e account g r
     | ScriptedOAuth \<Rightarrow> (g, scripted_apply_auth e (keystore g) account r))"

end
