(* ===== verification/Domain_Gate.thy ===== *)
theory Domain_Gate
  imports Domain_Store Prompt_Board
begin

text \<open>
  \<open>crates/nilbox-core/src/proxy/domain_gate.rs\<close>: whether a VM may connect to a
  domain.  \<open>check\<close> is split at its only suspension point: \<open>check_begin\<close> decides at
  once or returns the channel to wait on, \<open>check_end\<close> is what follows the wait.
  The blocklist (\<open>BloomBlocklist::contains\<close>) is a predicate here; its model is in
  the blocklist theories.
\<close>

section \<open>State and operations\<close>

datatype DomainDecision = Pending | AllowOnce | AllowAlways | Deny

datatype gate_event =
    DomainBlocked string u16 string
  | DomainAccessRequest string u16 string string

record gate =
  config_store :: store
  allow_always :: "string list"
  deny_always :: "string list"
  prompts :: "DomainDecision board"
  pending_tokens :: "string \<rightharpoonup> string list"
  blocklist :: "(string \<Rightarrow> bool) option"
  events :: "gate_event list"

definition gate_new :: "store \<Rightarrow> gate" where
  "gate_new s =
    \<lparr>config_store = s, allow_always = list_allowlist_domains s, deny_always = list_denylist_domains s,
     prompts = board_empty, pending_tokens = Map.empty, blocklist = None, events = []\<rparr>"

definition check_begin :: "string \<Rightarrow> u16 \<Rightarrow> string \<Rightarrow> string \<Rightarrow> gate \<Rightarrow> gate \<times> (bool + nat)" where
  "check_begin domain port vm_id source g =
    (if domain \<in> set SYSTEM_ALLOWLIST_DOMAINS then (g, Inl True)
     else if matches_domain_set (deny_always g) domain then (g, Inl False)
     else if matches_domain_set (allow_always g) domain then (g, Inl True)
     else if (case blocklist g of Some bl \<Rightarrow> bl domain | None \<Rightarrow> False) then
       (g\<lparr>events := events g @ [DomainBlocked domain port vm_id],
          config_store := insert_block_log vm_id domain port (config_store g)\<rparr>, Inl False)
     else (case subscribe_or_open Pending domain (prompts g) of (c, fresh, b) \<Rightarrow>
       (g\<lparr>prompts := b,
          events := events g @ (if fresh then [DomainAccessRequest domain port vm_id source] else [])\<rparr>,
        Inr c)))"

text \<open>The decision after the wait: \<open>Deny\<close> on a timeout or a closed channel.\<close>

fun wait_for_decision :: "DomainDecision poll \<Rightarrow> DomainDecision" where
  "wait_for_decision (Ready d) = d"
| "wait_for_decision Closed = Deny"
| "wait_for_decision Waiting = Deny"

definition check_end :: "string \<Rightarrow> DomainDecision \<Rightarrow> gate \<Rightarrow> gate \<times> bool" where
  "check_end domain decision g =
    ((if decision = Deny then g\<lparr>prompts := drop_prompt domain (prompts g)\<rparr> else g),
     decision = AllowOnce \<or> decision = AllowAlways)"

definition gate_resolve :: "string \<Rightarrow> DomainDecision \<Rightarrow> string list \<Rightarrow> gate \<Rightarrow> gate" where
  "gate_resolve domain decision env_names g =
    (let g1 = (if env_names \<noteq> []
               then g\<lparr>pending_tokens := (pending_tokens g)(domain \<mapsto> env_names)\<rparr> else g);
         g2 = (case decision of
                 AllowAlways \<Rightarrow>
                   g1\<lparr>allow_always := List.insert domain (allow_always g1),
                      config_store := insert_allowlist_domain_with_token domain None (config_store g1)\<rparr>
               | Deny \<Rightarrow>
                   g1\<lparr>deny_always := List.insert domain (deny_always g1),
                      config_store := insert_denylist_domain domain (config_store g1)\<rparr>
               | _ \<Rightarrow> g1)
     in g2\<lparr>prompts := answer_prompt domain decision (prompts g2)\<rparr>)"

definition has_pending_tokens :: "string \<Rightarrow> gate \<Rightarrow> bool" where
  "has_pending_tokens domain g =
    (case pending_tokens g domain of Some v \<Rightarrow> v \<noteq> [] | None \<Rightarrow> False)"

definition take_pending_tokens :: "string \<Rightarrow> gate \<Rightarrow> string list \<times> gate" where
  "take_pending_tokens domain g =
    ((case pending_tokens g domain of Some v \<Rightarrow> v | None \<Rightarrow> []),
     g\<lparr>pending_tokens := (pending_tokens g)(domain := None)\<rparr>)"

definition add_always_with_mode :: "string \<Rightarrow> string option \<Rightarrow> InspectMode \<Rightarrow> gate \<Rightarrow> gate" where
  "add_always_with_mode domain token_account mode g =
    g\<lparr>allow_always := List.insert domain (allow_always g),
      config_store := insert_allowlist_domain_with_mode domain token_account mode (config_store g)\<rparr>"

definition add_always :: "string \<Rightarrow> string option \<Rightarrow> gate \<Rightarrow> gate" where
  "add_always domain token_account g =
    g\<lparr>allow_always := List.insert domain (allow_always g),
      config_store := insert_allowlist_domain_with_token domain token_account (config_store g)\<rparr>"

definition add_deny :: "string \<Rightarrow> gate \<Rightarrow> gate" where
  "add_deny domain g =
    g\<lparr>deny_always := List.insert domain (deny_always g),
      config_store := insert_denylist_domain domain (config_store g)\<rparr>"

definition remove_always :: "string \<Rightarrow> gate \<Rightarrow> gate" where
  "remove_always domain g =
    g\<lparr>allow_always := filter (\<lambda>d. d \<noteq> domain) (allow_always g),
      config_store := ok_or (config_store g) (delete_allowlist_domain domain (config_store g))\<rparr>"

definition remove_deny :: "string \<Rightarrow> gate \<Rightarrow> gate" where
  "remove_deny domain g =
    g\<lparr>deny_always := filter (\<lambda>d. d \<noteq> domain) (deny_always g),
      config_store := delete_denylist_domain domain (config_store g)\<rparr>"

definition list_allowlist :: "gate \<Rightarrow> string list" where
  "list_allowlist g = sort (remdups (allow_always g))"

definition list_denylist :: "gate \<Rightarrow> string list" where
  "list_denylist g = sort (remdups (deny_always g))"

definition is_allowed :: "string \<Rightarrow> gate \<Rightarrow> bool" where
  "is_allowed domain g = matches_domain_set (allow_always g) domain"

definition set_blocklist :: "(string \<Rightarrow> bool) option \<Rightarrow> gate \<Rightarrow> gate" where
  "set_blocklist bl g = g\<lparr>blocklist := bl\<rparr>"


section \<open>Concurrent checks\<close>

datatype answer = Policy string bool | Decided string nat bool

record gate_sys =
  sg :: gate
  waiters :: "(string \<times> nat) list"
  answers :: "answer list"
  resolved :: "(nat \<times> string \<times> DomainDecision) list"

definition sys_new :: "store \<Rightarrow> gate_sys" where
  "sys_new s = \<lparr>sg = gate_new s, waiters = [], answers = [], resolved = []\<rparr>"

definition log_resolution :: "string \<Rightarrow> DomainDecision \<Rightarrow> gate_sys \<Rightarrow> (nat \<times> string \<times> DomainDecision) list" where
  "log_resolution d dec s =
    (case pending (prompts (sg s)) d of Some c \<Rightarrow> [(c, d, dec)] | None \<Rightarrow> [])"

inductive gate_step :: "gate_sys \<Rightarrow> gate_sys \<Rightarrow> bool" where
  begin_now: "check_begin d port vm src (sg s) = (g', Inl ok) \<Longrightarrow>
    gate_step s (s\<lparr>sg := g', answers := answers s @ [Policy d ok]\<rparr>)"
| begin_wait: "check_begin d port vm src (sg s) = (g', Inr c) \<Longrightarrow>
    gate_step s (s\<lparr>sg := g', waiters := waiters s @ [(d, c)]\<rparr>)"
| wake: "waiters s = ws @ (d, c) # vs \<Longrightarrow> wait_poll Pending (prompts (sg s)) c = p \<Longrightarrow>
    check_end d (wait_for_decision p) (sg s) = (g', ok) \<Longrightarrow>
    gate_step s (s\<lparr>sg := g', waiters := ws @ vs, answers := answers s @ [Decided d c ok]\<rparr>)"
| resolve: "gate_step s (s\<lparr>sg := gate_resolve d dec envs (sg s),
    resolved := resolved s @ log_resolution d dec s\<rparr>)"
| take_tokens: "gate_step s (s\<lparr>sg := snd (take_pending_tokens d (sg s))\<rparr>)"
| add_allow: "gate_step s (s\<lparr>sg := add_always_with_mode d a m (sg s)\<rparr>)"
| add_denied: "gate_step s (s\<lparr>sg := add_deny d (sg s)\<rparr>)"
| remove_allow: "gate_step s (s\<lparr>sg := remove_always d (sg s)\<rparr>)"
| remove_denied: "gate_step s (s\<lparr>sg := remove_deny d (sg s)\<rparr>)"
| swap_blocklist: "gate_step s (s\<lparr>sg := set_blocklist bl (sg s)\<rparr>)"

definition sys_inv :: "gate_sys \<Rightarrow> bool" where
  "sys_inv s \<longleftrightarrow> board_inv (prompts (sg s))
   \<and> (\<forall>(d, c) \<in> set (waiters s). c < length (wchans (prompts (sg s)))
        \<and> wkey (wchans (prompts (sg s)) ! c) = d)
   \<and> (\<forall>c < length (wchans (prompts (sg s))). wsent (wchans (prompts (sg s)) ! c) \<longrightarrow>
        (c, wkey (wchans (prompts (sg s)) ! c), wvalue (wchans (prompts (sg s)) ! c)) \<in> set (resolved s))
   \<and> (\<forall>d c. Decided d c True \<in> set (answers s) \<longrightarrow>
        (c, d, AllowOnce) \<in> set (resolved s) \<or> (c, d, AllowAlways) \<in> set (resolved s))"

lemma prompts_simps [simp]:
  "prompts (snd (take_pending_tokens d g)) = prompts g"
  "prompts (add_always_with_mode d a m g) = prompts g"
  "prompts (add_deny d g) = prompts g"
  "prompts (remove_always d g) = prompts g"
  "prompts (remove_deny d g) = prompts g"
  "prompts (set_blocklist bl g) = prompts g"
  by (simp_all add: take_pending_tokens_def add_always_with_mode_def add_deny_def remove_always_def
      remove_deny_def set_blocklist_def)

lemma prompts_resolve [simp]:
  "prompts (gate_resolve d dec envs g) = answer_prompt d dec (prompts g)"
  by (simp add: gate_resolve_def Let_def split: DomainDecision.split)

lemma check_begin_Inl: "check_begin d port vm src g = (g', Inl ok) \<Longrightarrow> prompts g' = prompts g"
  by (auto simp: check_begin_def split: if_splits prod.splits)

lemma check_begin_Inr:
  "check_begin d port vm src g = (g', Inr c) \<Longrightarrow>
    \<exists>fresh. subscribe_or_open Pending d (prompts g) = (c, fresh, prompts g')"
  by (auto simp: check_begin_def split: if_splits prod.splits)


text \<open>The invariant depends only on the prompt board and the ghost logs.\<close>

definition board_sys_inv ::
  "DomainDecision board \<Rightarrow> (string \<times> nat) list \<Rightarrow> answer list \<Rightarrow> (nat \<times> string \<times> DomainDecision) list \<Rightarrow> bool" where
  "board_sys_inv b ws as rs \<longleftrightarrow> board_inv b
   \<and> (\<forall>(d, c) \<in> set ws. c < length (wchans b) \<and> wkey (wchans b ! c) = d)
   \<and> (\<forall>c < length (wchans b). wsent (wchans b ! c) \<longrightarrow>
        (c, wkey (wchans b ! c), wvalue (wchans b ! c)) \<in> set rs)
   \<and> (\<forall>d c. Decided d c True \<in> set as \<longrightarrow> (c, d, AllowOnce) \<in> set rs \<or> (c, d, AllowAlways) \<in> set rs)"

lemma sys_inv_board: "sys_inv s \<longleftrightarrow> board_sys_inv (prompts (sg s)) (waiters s) (answers s) (resolved s)"
  by (simp add: sys_inv_def board_sys_inv_def)

lemma inv_begin_wait:
  assumes "board_sys_inv b ws as rs" "subscribe_or_open Pending d b = (c, fresh, b')"
  shows "board_sys_inv b' (ws @ [(d, c)]) as rs"
proof -
  have "board_inv b" and b': "board_inv b'" "c < length (wchans b')" "wkey (wchans b' ! c) = d"
    using assms board_inv_subscribe [OF _ assms(2)] by (auto simp: board_sys_inv_def)
  have old: "i < length (wchans b') \<and> wchans b' ! i = wchans b ! i" if "i < length (wchans b)" for i
    using subscribe_stable [OF assms(2) that] .
  have new: "\<not> wsent (wchans b' ! i)" if "i < length (wchans b')" "\<not> i < length (wchans b)" for i
    using assms(2) that
    by (auto simp: subscribe_or_open_def open_prompt_def nth_append split: option.splits)
  show ?thesis
    using assms(1) b' old new unfolding board_sys_inv_def by (auto; metis)
qed

lemma inv_wake:
  assumes "board_sys_inv b (ws @ (d, c) # vs) as rs" "wait_poll Pending b c = p"
    and "ok = (wait_for_decision p = AllowOnce \<or> wait_for_decision p = AllowAlways)"
  shows "board_sys_inv b (ws @ vs) (as @ [Decided d c ok]) rs"
proof -
  have c: "c < length (wchans b)" "wkey (wchans b ! c) = d"
    using assms(1) by (auto simp: board_sys_inv_def)
  have "(c, d, wait_for_decision p) \<in> set rs" if ok
  proof -
    have "p = Ready (wait_for_decision p)"
      using that assms(3) by (cases p) auto
    then have "wsent (wchans b ! c)" "wvalue (wchans b ! c) = wait_for_decision p"
      using assms(2) by (auto simp: wait_poll_def Let_def split: if_splits)
    then show ?thesis
      using assms(1) c by (auto simp: board_sys_inv_def)
  qed
  then show ?thesis
    using assms by (auto simp: board_sys_inv_def)
qed

lemma inv_drop: "board_sys_inv b ws as rs \<Longrightarrow> board_sys_inv (drop_prompt d b) ws as rs"
proof -
  assume inv: "board_sys_inv b ws as rs"
  have "wsent (wchans (drop_prompt d b) ! c) = wsent (wchans b ! c)
      \<and> wvalue (wchans (drop_prompt d b) ! c) = wvalue (wchans b ! c)" if "c < length (wchans b)" for c
    using that by (simp add: drop_prompt_def nth_update_eq split: option.splits)
  then show ?thesis
    using inv by (auto simp: board_sys_inv_def board_inv_drop)
qed

lemma inv_resolve:
  assumes "board_sys_inv b ws as rs"
  shows "board_sys_inv (answer_prompt d dec b) ws as
    (rs @ (case pending b d of Some c \<Rightarrow> [(c, d, dec)] | None \<Rightarrow> []))"
proof (cases "pending b d")
  case None
  then show ?thesis
    using assms by (simp add: answer_prompt_def)
next
  case (Some c)
  then have "c < length (wchans b)" "wkey (wchans b ! c) = d"
    using assms by (auto simp: board_sys_inv_def board_inv_def)
  then show ?thesis
    using assms Some
    by (auto simp: board_sys_inv_def board_inv_answer)
      (auto simp: answer_prompt_def nth_update_eq split: if_splits)
qed

lemma check_end_board:
  "check_end d dec g = (g', ok) \<Longrightarrow>
    (prompts g' = prompts g \<or> prompts g' = drop_prompt d (prompts g))
    \<and> ok = (dec = AllowOnce \<or> dec = AllowAlways)"
  by (auto simp: check_end_def split: if_splits)

lemma gate_step_inv: "gate_step s s' \<Longrightarrow> sys_inv s \<Longrightarrow> sys_inv s'"
proof (induction rule: gate_step.induct)
  case (begin_now d port vm src s g' ok)
  then show ?case
    using check_begin_Inl [OF begin_now(1)] by (auto simp: sys_inv_board board_sys_inv_def)
next
  case (begin_wait d port vm src s g' c)
  then show ?case
    using check_begin_Inr [OF begin_wait(1)] inv_begin_wait by (auto simp: sys_inv_board)
next
  case (wake s ws d c vs p g' ok)
  have "board_sys_inv (prompts (sg s)) (ws @ vs) (answers s @ [Decided d c ok]) (resolved s)"
    using wake check_end_board [OF wake(3)] by (intro inv_wake) (auto simp: sys_inv_board)
  then show ?case
    using check_end_board [OF wake(3)] inv_drop by (auto simp: sys_inv_board)
next
  case (resolve s d dec envs)
  then show ?case
    using inv_resolve by (simp add: sys_inv_board log_resolution_def)
qed (simp_all add: sys_inv_board)

lemma gate_reachable_inv: "gate_step\<^sup>*\<^sup>* s s' \<Longrightarrow> sys_inv s \<Longrightarrow> sys_inv s'"
  by (induction rule: rtranclp_induct) (auto intro: gate_step_inv)

lemma sys_inv_new: "sys_inv (sys_new st)"
  by (simp add: sys_inv_def sys_new_def gate_new_def) (simp add: board_empty_def)


section \<open>Properties\<close>

text \<open>C29: under every interleaving of checks, answers, timeouts and list edits, a check that
  waited is granted only if the user answered "allow once" or "allow always" for that very
  domain, on the channel that check was waiting on.\<close>

theorem granted_only_by_user:
  assumes "gate_step\<^sup>*\<^sup>* (sys_new st) s" "Decided d c True \<in> set (answers s)"
  shows "(c, d, AllowOnce) \<in> set (resolved s) \<or> (c, d, AllowAlways) \<in> set (resolved s)"
  using gate_reachable_inv [OF assms(1) sys_inv_new] assms(2) by (auto simp: sys_inv_def)

text \<open>the immediate decision of a check: system domains pass, then the denylist refuses,
  then the allowlist admits, then the blocklist refuses and is logged; every other domain waits
  for the user, and a prompt is raised exactly when no request for that domain is pending.\<close>

theorem check_begin_spec:
  "check_begin d port vm src g =
    (if d = ''cdp.nilbox'' then (g, Inl True)
     else if \<exists>e. e \<in> set (deny_always g) \<and> covers e d then (g, Inl False)
     else if \<exists>e. e \<in> set (allow_always g) \<and> covers e d then (g, Inl True)
     else if blocklist g \<noteq> None \<and> the (blocklist g) d then
       (g\<lparr>events := events g @ [DomainBlocked d port vm],
          config_store := insert_block_log vm d port (config_store g)\<rparr>, Inl False)
     else case pending (prompts g) d of
       Some c \<Rightarrow> (g, Inr c)
     | None \<Rightarrow> (g\<lparr>prompts := snd (open_prompt Pending d (prompts g)),
                  events := events g @ [DomainAccessRequest d port vm src]\<rparr>,
               Inr (length (wchans (prompts g)))))"
  using matches_domain_set_covers [of "deny_always g" d] matches_domain_set_covers [of "allow_always g" d]
  by (auto simp: check_begin_def SYSTEM_ALLOWLIST_DOMAINS_def subscribe_or_open_def open_prompt_def
      split: option.split)

text \<open>"allow once" leaves both lists and the database as they were, so the next check of
  the domain prompts again, while "allow always" makes every later check pass unless the
  denylist covers the domain, and "deny" makes every later check of a non-system domain fail.\<close>

theorem resolve_persistence:
  assumes "\<not> matches_domain_set (deny_always g) d" "\<not> matches_domain_set (allow_always g) d"
    and "d \<notin> set SYSTEM_ALLOWLIST_DOMAINS" "blocklist g = None"
  shows "(\<exists>g' c. check_begin d port vm src (gate_resolve d AllowOnce envs g) = (g', Inr c)
           \<and> DomainAccessRequest d port vm src \<in> set (events g'))
    \<and> check_begin d port vm src (gate_resolve d AllowAlways envs g)
        = (gate_resolve d AllowAlways envs g, Inl True)
    \<and> check_begin d port vm src (gate_resolve d Deny envs g)
        = (gate_resolve d Deny envs g, Inl False)"
proof -
  have "pending (answer_prompt d dec b) d = None" for dec and b :: "DomainDecision board"
    by (simp add: answer_prompt_def split: option.split)
  moreover have "matches_domain_set (List.insert d l) d" for l
    by (simp add: matches_domain_set_def)
  ultimately show ?thesis
    using assms
    by (auto simp: check_begin_def gate_resolve_def Let_def subscribe_or_open_def open_prompt_def
        split: if_splits)
qed

definition sample_gate :: gate where
  "sample_gate = gate_new store_empty"

theorem resolve_persistence_witness:
  "(\<exists>g' c. check_begin ''a.b'' 443 ''vm'' ''s'' (gate_resolve ''a.b'' AllowOnce [] sample_gate) = (g', Inr c)
      \<and> DomainAccessRequest ''a.b'' 443 ''vm'' ''s'' \<in> set (events g'))
    \<and> check_begin ''a.b'' 443 ''vm'' ''s'' (gate_resolve ''a.b'' AllowAlways [] sample_gate)
        = (gate_resolve ''a.b'' AllowAlways [] sample_gate, Inl True)
    \<and> check_begin ''a.b'' 443 ''vm'' ''s'' (gate_resolve ''a.b'' Deny [] sample_gate)
        = (gate_resolve ''a.b'' Deny [] sample_gate, Inl False)"
  by (rule resolve_persistence)
    (simp_all add: sample_gate_def gate_new_def store_empty_def list_allowlist_domains_def
      list_denylist_domains_def matches_domain_set_def SYSTEM_ALLOWLIST_DOMAINS_def)

definition sample_waiting :: gate_sys where
  "sample_waiting = (sys_new store_empty)
    \<lparr>sg := fst (check_begin ''a.b'' 443 ''vm'' ''s'' sample_gate), waiters := [(''a.b'', 0)]\<rparr>"

definition sample_answered :: gate_sys where
  "sample_answered = sample_waiting
    \<lparr>sg := gate_resolve ''a.b'' AllowOnce [] (sg sample_waiting), resolved := [(0, ''a.b'', AllowOnce)]\<rparr>"

definition sample_granted :: gate_sys where
  "sample_granted = sample_answered\<lparr>waiters := [], answers := [Decided ''a.b'' 0 True]\<rparr>"

lemmas sample_sys_defs = sample_granted_def sample_answered_def sample_waiting_def sample_gate_def
  sys_new_def gate_new_def store_empty_def board_empty_def list_allowlist_domains_def
  list_denylist_domains_def check_begin_def matches_domain_set_def SYSTEM_ALLOWLIST_DOMAINS_def
  subscribe_or_open_def open_prompt_def gate_resolve_def answer_prompt_def

lemma sample_steps:
  "gate_step (sys_new store_empty) sample_waiting" "gate_step sample_waiting sample_answered"
  "gate_step sample_answered sample_granted"
proof -
  show "gate_step (sys_new store_empty) sample_waiting"
    using gate_step.begin_wait [of "''a.b''" 443 "''vm''" "''s''" "sys_new store_empty" "sg sample_waiting" 0]
    by (simp add: sample_sys_defs)
  show "gate_step sample_waiting sample_answered"
    using gate_step.resolve [of sample_waiting "''a.b''" AllowOnce "[]"]
    by (simp add: sample_sys_defs log_resolution_def)
  show "gate_step sample_answered sample_granted"
    using gate_step.wake [of sample_answered "[]" "''a.b''" 0 "[]" "Ready AllowOnce" "sg sample_answered" True]
    by (simp add: sample_sys_defs wait_poll_def check_end_def)
qed

theorem granted_only_by_user_witness:
  "(0, ''a.b'', AllowOnce) \<in> set (resolved sample_granted)
    \<or> (0, ''a.b'', AllowAlways) \<in> set (resolved sample_granted)"
proof (rule granted_only_by_user)
  show "gate_step\<^sup>*\<^sup>* (sys_new store_empty) sample_granted"
    using sample_steps by (meson r_into_rtranclp rtranclp.rtrancl_into_rtrancl)
  show "Decided ''a.b'' 0 True \<in> set (answers sample_granted)"
    by (simp add: sample_granted_def)
qed

end
