(* ===== verification/Token_Usage.thy ===== *)
theory Token_Usage
  imports Json Complex_Main
begin

text \<open>
  Token accounting: provider matching (\<open>proxy/llm_detector.rs\<close>), extraction of
  token counts (\<open>proxy/token_extractor.rs\<close>), the usage tables and limits of
  \<open>config_store.rs\<close>, the logger (\<open>token_monitor/mod.rs\<close>) and the limit check
  before a request (\<open>proxy/token_limit.rs\<close>).  Percentages are exact rationals
  here (\<open>f64\<close> in the code); the current time is an argument.
\<close>

section \<open>Providers\<close>

record LlmProvider =
  provider_id :: string
  domain_pattern :: string
  path_prefix :: "string option"
  request_token_field :: "string option"
  response_token_field :: "string option"
  model_field :: "string option"
  enabled :: bool
  extra_domains :: "string list"

record LlmProviderMatch =
  match_provider :: string
  match_confidence :: string
  provider_info :: "LlmProvider option"

definition llm_domain_matches :: "string \<Rightarrow> string \<Rightarrow> bool" where
  "llm_domain_matches domain pattern =
    (case strip_prefix pattern ''*.'' of
       Some suffix \<Rightarrow> domain = suffix \<or> ends_with domain (''.'' @ suffix)
     | None \<Rightarrow> domain = pattern)"

definition is_heuristic_llm :: "(string \<times> string) list \<Rightarrow> bool" where
  "is_heuristic_llm headers \<longleftrightarrow>
    list_ex (\<lambda>(k, _). to_lowercase k \<in> {''authorization'', ''x-api-key'', ''x-goog-api-key''}) headers
    \<and> list_ex (\<lambda>(k, v). to_lowercase k = ''content-type'' \<and> contains_str v ''application/json'') headers"

definition domain_hit :: "string \<Rightarrow> LlmProvider \<Rightarrow> bool" where
  "domain_hit domain p \<longleftrightarrow>
    llm_domain_matches domain (domain_pattern p) \<or> list_ex (llm_domain_matches domain) (extra_domains p)"

definition provider_hit :: "string \<Rightarrow> string \<Rightarrow> LlmProvider \<Rightarrow> bool" where
  "provider_hit domain path p \<longleftrightarrow> enabled p \<and> domain_hit domain p
    \<and> (case path_prefix p of Some prefix \<Rightarrow> starts_with path prefix | None \<Rightarrow> True)"

definition match_request ::
  "LlmProvider list \<Rightarrow> string \<Rightarrow> string \<Rightarrow> (string \<times> string) list \<Rightarrow> LlmProviderMatch option" where
  "match_request providers domain path headers =
    (if providers = [] then None
     else case find (provider_hit domain path) providers of
       Some p \<Rightarrow> Some \<lparr>match_provider = provider_id p, match_confidence = ''confirmed'', provider_info = Some p\<rparr>
     | None \<Rightarrow>
         if is_heuristic_llm headers
         then Some \<lparr>match_provider = ''unknown'', match_confidence = ''estimated'', provider_info = None\<rparr>
         else None)"

definition match_domain_only :: "LlmProvider list \<Rightarrow> string \<Rightarrow> string option" where
  "match_domain_only providers domain =
    map_option provider_id (find (\<lambda>p. enabled p \<and> domain_hit domain p) providers)"


section \<open>Token extraction\<close>

record TokenUsageData =
  request_tokens :: u32
  response_tokens :: u32
  total_tokens :: u32
  model :: "string option"
  confidence :: string

text \<open>\<open>as u32\<close> truncates a 64-bit count.\<close>

definition resolve_json_u32 :: "json \<Rightarrow> string \<Rightarrow> u32 option" where
  "resolve_json_u32 value path =
    (case walk value (path_parts path) of
       Some v \<Rightarrow> map_option of_nat (as_u64 v) | None \<Rightarrow> None)"

definition resolve_json_string :: "json \<Rightarrow> string \<Rightarrow> string option" where
  "resolve_json_string value path =
    (case walk value (path_parts path) of Some v \<Rightarrow> as_str v | None \<Rightarrow> None)"

fun first_nonzero :: "json \<Rightarrow> string list \<Rightarrow> u32" where
  "first_nonzero value [] = 0"
| "first_nonzero value (p # ps) =
    (case resolve_json_u32 value (trim p) of
       Some v \<Rightarrow> if 0 < v then v else first_nonzero value ps
     | None \<Rightarrow> first_nonzero value ps)"

definition sum_token_paths :: "json \<Rightarrow> string \<Rightarrow> u32" where
  "sum_token_paths value paths =
    (if paths = [] then 0 else first_nonzero value (split_str (CHR '','') paths))"

definition field_or :: "string \<Rightarrow> string option \<Rightarrow> string" where
  "field_or d f = (case f of Some s \<Rightarrow> s | None \<Rightarrow> d)"

definition extract_from_body :: "(bytes \<Rightarrow> json option) \<Rightarrow> bytes \<Rightarrow> LlmProvider \<Rightarrow> TokenUsageData option" where
  "extract_from_body from_slice body provider =
    map_option (\<lambda>value.
      let resp = sum_token_paths value (field_or [] (response_token_field provider));
          req = sum_token_paths value (field_or [] (request_token_field provider))
      in \<lparr>request_tokens = req, response_tokens = resp, total_tokens = req + resp,
          model = Option.bind (model_field provider) (resolve_json_string value),
          confidence = ''confirmed''\<rparr>) (from_slice body)"

function trim_start_str :: "string \<Rightarrow> string \<Rightarrow> string" where
  "trim_start_str p s =
    (if p \<noteq> [] \<and> starts_with s p then trim_start_str p (drop (length p) s) else s)"
  by auto
termination
  by (relation "measure (\<lambda>(p, s). length s)") (auto simp: starts_with_iff)

declare trim_start_str.simps [simp del]

fun last_usage :: "(string \<Rightarrow> json option) \<Rightarrow> LlmProvider \<Rightarrow> string list \<Rightarrow> TokenUsageData option" where
  "last_usage from_str provider [] = None"
| "last_usage from_str provider (line # rest) =
    (case from_str (trim_start_str ''data: '' line) of
       None \<Rightarrow> last_usage from_str provider rest
     | Some value \<Rightarrow>
         (let resp = sum_token_paths value (field_or [] (response_token_field provider));
              req = sum_token_paths value (field_or [] (request_token_field provider))
          in if 0 < resp \<or> 0 < req
             then Some \<lparr>request_tokens = req, response_tokens = resp, total_tokens = req + resp,
                   model = resolve_json_string value (field_or ''model'' (model_field provider)),
                   confidence = ''confirmed''\<rparr>
             else last_usage from_str provider rest))"

definition extract_from_sse_chunks ::
  "(string \<Rightarrow> json option) \<Rightarrow> bytes list \<Rightarrow> LlmProvider \<Rightarrow> TokenUsageData option" where
  "extract_from_sse_chunks from_str chunks provider =
    last_usage from_str provider
      (rev (filter (\<lambda>l. starts_with l ''data: '' \<and> \<not> contains_str l ''[DONE]'')
        (lines_of (from_utf8_lossy (concat chunks)))))"

definition estimate_from_bytes :: "nat \<Rightarrow> nat \<Rightarrow> TokenUsageData" where
  "estimate_from_bytes request_len response_len =
    (let req = of_nat (request_len div 4); resp = of_nat (response_len div 4)
     in \<lparr>request_tokens = req, response_tokens = resp, total_tokens = req + resp, model = None,
         confidence = ''byte_estimate''\<rparr>)"

definition estimate_from_bytes_fallback :: "nat \<Rightarrow> TokenUsageData" where
  "estimate_from_bytes_fallback body_len =
    (let tokens = of_nat (body_len div 4)
     in \<lparr>request_tokens = 0, response_tokens = tokens, total_tokens = tokens, model = None,
         confidence = ''unknown''\<rparr>)"


section \<open>Usage tables and limits\<close>

record usage_log =
  ul_vm :: string
  ul_provider :: string
  ul_request :: int
  ul_response :: int
  ul_total :: int
  ul_created_at :: string
  ul_year_month :: string

record usage_month =
  um_vm :: string
  um_provider :: string
  um_year_month :: string
  um_request :: int
  um_response :: int
  um_total :: int
  um_count :: int

record TokenUsageLimit =
  lim_vm :: string
  lim_provider :: string
  limit_scope :: string
  limit_tokens :: int
  action :: string
  lim_enabled :: bool

record LimitCheckResult =
  res_action :: string
  usage_pct :: rat
  current :: int
  limit :: int

record usage_db =
  token_usage_logs :: "usage_log list"
  token_usage_monthly :: "usage_month list"
  token_usage_limits :: "TokenUsageLimit list"

definition usage_empty :: usage_db where
  "usage_empty = \<lparr>token_usage_logs = [], token_usage_monthly = [], token_usage_limits = []\<rparr>"

definition month_key :: "usage_month \<Rightarrow> string \<times> string \<times> string" where
  "month_key r = (um_vm r, um_provider r, um_year_month r)"

definition upsert_token_usage_monthly ::
  "string \<Rightarrow> string \<Rightarrow> string \<Rightarrow> int \<Rightarrow> int \<Rightarrow> usage_db \<Rightarrow> usage_db" where
  "upsert_token_usage_monthly vm provider ym req resp db =
    (if (vm, provider, ym) \<in> month_key ` set (token_usage_monthly db)
     then db\<lparr>token_usage_monthly := map (\<lambda>r. if month_key r = (vm, provider, ym)
            then r\<lparr>um_request := um_request r + req, um_response := um_response r + resp,
                   um_total := um_total r + (req + resp), um_count := um_count r + 1\<rparr>
            else r) (token_usage_monthly db)\<rparr>
     else db\<lparr>token_usage_monthly := token_usage_monthly db
            @ [\<lparr>um_vm = vm, um_provider = provider, um_year_month = ym, um_request = req,
                um_response = resp, um_total = req + resp, um_count = 1\<rparr>]\<rparr>)"

definition insert_token_usage_log :: "usage_log \<Rightarrow> usage_db \<Rightarrow> usage_db" where
  "insert_token_usage_log l db = db\<lparr>token_usage_logs := token_usage_logs db @ [l]\<rparr>"

record clock =
  now_year_month :: string
  now_today :: string
  now_timestamp :: string

text \<open>\<open>TokenUsageLogger::log\<close>.\<close>

definition log_usage :: "clock \<Rightarrow> string \<Rightarrow> string \<Rightarrow> TokenUsageData \<Rightarrow> usage_db \<Rightarrow> usage_db" where
  "log_usage now vm provider u db =
    upsert_token_usage_monthly vm provider (now_year_month now)
      (int (unat (request_tokens u))) (int (unat (response_tokens u)))
      (insert_token_usage_log
        \<lparr>ul_vm = vm, ul_provider = provider, ul_request = int (unat (request_tokens u)),
         ul_response = int (unat (response_tokens u)), ul_total = int (unat (total_tokens u)),
         ul_created_at = now_timestamp now, ul_year_month = now_year_month now\<rparr> db)"

definition limit_key :: "TokenUsageLimit \<Rightarrow> string \<times> string \<times> string" where
  "limit_key l = (lim_vm l, lim_provider l, limit_scope l)"

definition upsert_token_limit :: "TokenUsageLimit \<Rightarrow> usage_db \<Rightarrow> usage_db" where
  "upsert_token_limit l db =
    (if limit_key l \<in> limit_key ` set (token_usage_limits db)
     then db\<lparr>token_usage_limits := map (\<lambda>r. if limit_key r = limit_key l then l else r) (token_usage_limits db)\<rparr>
     else db\<lparr>token_usage_limits := token_usage_limits db @ [l]\<rparr>)"

definition delete_token_limit :: "string \<Rightarrow> string \<Rightarrow> string \<Rightarrow> usage_db \<Rightarrow> usage_db" where
  "delete_token_limit vm provider scope db =
    db\<lparr>token_usage_limits := filter (\<lambda>l. limit_key l \<noteq> (vm, provider, scope)) (token_usage_limits db)\<rparr>"

text \<open>The usage a limit is compared with: per month or per day, for one provider or all.\<close>

definition current_usage :: "clock \<Rightarrow> usage_db \<Rightarrow> string \<Rightarrow> TokenUsageLimit \<Rightarrow> int" where
  "current_usage now db vm l =
    (if limit_scope l = ''monthly'' then
       sum_list (map um_total (filter (\<lambda>r. um_vm r = vm \<and> um_year_month r = now_year_month now
         \<and> (lim_provider l = ''*'' \<or> um_provider r = lim_provider l)) (token_usage_monthly db)))
     else
       sum_list (map ul_total (filter (\<lambda>r. ul_vm r = vm \<and> starts_with (ul_created_at r) (now_today now)
         \<and> (lim_provider l = ''*'' \<or> ul_provider r = lim_provider l)) (token_usage_logs db))))"

definition applicable :: "usage_db \<Rightarrow> string \<Rightarrow> string \<Rightarrow> TokenUsageLimit list" where
  "applicable db vm provider =
    filter (\<lambda>l. lim_vm l = vm \<and> lim_provider l \<in> {provider, ''*''} \<and> lim_enabled l) (token_usage_limits db)"

definition exceeded :: "clock \<Rightarrow> usage_db \<Rightarrow> string \<Rightarrow> TokenUsageLimit \<Rightarrow> bool" where
  "exceeded now db vm l \<longleftrightarrow> limit_tokens l \<noteq> 0 \<and> limit_tokens l \<le> current_usage now db vm l"

definition pct :: "int \<Rightarrow> int \<Rightarrow> rat" where
  "pct cur cap = rat_of_int cur / rat_of_int cap * 100"

definition check_token_limit :: "clock \<Rightarrow> usage_db \<Rightarrow> string \<Rightarrow> string \<Rightarrow> LimitCheckResult option" where
  "check_token_limit now db vm provider =
    map_option (\<lambda>l. \<lparr>res_action = action l, usage_pct = pct (current_usage now db vm l) (limit_tokens l),
        current = current_usage now db vm l, limit = limit_tokens l\<rparr>)
      (find (exceeded now db vm) (applicable db vm provider))"

text \<open>\<open>ORDER BY limit_tokens ASC LIMIT 1\<close>.\<close>

fun tightest :: "TokenUsageLimit list \<Rightarrow> TokenUsageLimit option" where
  "tightest [] = None"
| "tightest (l # ls) =
    (case tightest ls of Some m \<Rightarrow> (if limit_tokens m < limit_tokens l then Some m else Some l) | None \<Rightarrow> Some l)"

definition get_token_usage_pct :: "clock \<Rightarrow> usage_db \<Rightarrow> string \<Rightarrow> string \<Rightarrow> rat option" where
  "get_token_usage_pct now db vm provider =
    map_option (\<lambda>l. pct (current_usage now db vm l) (limit_tokens l))
      (tightest (filter (\<lambda>l. 0 < limit_tokens l) (applicable db vm provider)))"

datatype limit_event =
    LimitWarning string string rat int int
  | LimitExceeded string string int int
  | LimitWarning95 string string rat
  | LimitWarning80 string string rat

definition check_soft_warnings :: "clock \<Rightarrow> usage_db \<Rightarrow> string \<Rightarrow> string \<Rightarrow> limit_event list" where
  "check_soft_warnings now db vm provider =
    (case get_token_usage_pct now db vm provider of
       None \<Rightarrow> []
     | Some p \<Rightarrow> if 95 \<le> p then [LimitWarning95 vm provider p]
                 else if 80 \<le> p then [LimitWarning80 vm provider p] else [])"

definition check_pre_request ::
  "clock \<Rightarrow> usage_db \<Rightarrow> string \<Rightarrow> string \<Rightarrow> LimitCheckResult option \<times> limit_event list" where
  "check_pre_request now db vm provider =
    (case check_token_limit now db vm provider of
       Some r \<Rightarrow>
         if res_action r = ''warn''
         then (None, [LimitWarning vm provider (usage_pct r) (current r) (limit r)])
         else (Some (r\<lparr>res_action := ''block''\<rparr>), [LimitExceeded vm provider (current r) (limit r)])
     | None \<Rightarrow> (None, check_soft_warnings now db vm provider))"


section \<open>Consistency of the two usage tables\<close>

definition month_total :: "usage_db \<Rightarrow> string \<times> string \<times> string \<Rightarrow> int" where
  "month_total db k = sum_list (map um_total (filter (\<lambda>r. month_key r = k) (token_usage_monthly db)))"

definition log_total :: "usage_db \<Rightarrow> string \<times> string \<times> string \<Rightarrow> int" where
  "log_total db k = sum_list (map (\<lambda>r. ul_request r + ul_response r)
     (filter (\<lambda>r. (ul_vm r, ul_provider r, ul_year_month r) = k) (token_usage_logs db)))"

definition months_distinct :: "usage_db \<Rightarrow> bool" where
  "months_distinct db \<longleftrightarrow> distinct (map month_key (token_usage_monthly db))"

lemma sum_update_unique:
  fixes g :: "'r \<Rightarrow> 'r"
  assumes "distinct (map key rs)" "\<And>r. key (g r) = key r" "\<And>r. tot (g r) = tot r + (d :: int)"
  shows "sum_list (map tot (filter (\<lambda>r. key r = k) (map (\<lambda>r. if key r = k0 then g r else r) rs)))
    = sum_list (map tot (filter (\<lambda>r. key r = k) rs)) + (if k = k0 \<and> k0 \<in> key ` set rs then d else 0)"
  using assms(1)
proof (induction rs)
  case (Cons r rs)
  show ?case
  proof (cases "key r = k0")
    case True
    have "\<forall>x \<in> set rs. key x \<noteq> k0"
      using Cons.prems True by (auto dest: image_eqI [OF sym])
    then have "map (\<lambda>r. if key r = k0 then g r else r) rs = rs"
      by (intro map_idI) simp
    then show ?thesis
      using Cons.prems True assms(2,3) by auto
  qed (use Cons in auto)
qed simp

lemma month_total_upsert:
  assumes "months_distinct db"
  shows "month_total (upsert_token_usage_monthly vm p ym req resp db) k
    = month_total db k + (if k = (vm, p, ym) then req + resp else 0)"
proof (cases "(vm, p, ym) \<in> month_key ` set (token_usage_monthly db)")
  case True
  then show ?thesis
    using assms sum_update_unique [of month_key "token_usage_monthly db"
        "\<lambda>r. r\<lparr>um_request := um_request r + req, um_response := um_response r + resp,
              um_total := um_total r + (req + resp), um_count := um_count r + 1\<rparr>" um_total "req + resp" k "(vm, p, ym)"]
    by (simp add: month_total_def upsert_token_usage_monthly_def months_distinct_def month_key_def)
next
  case False
  then show ?thesis
    by (auto simp: month_total_def upsert_token_usage_monthly_def month_key_def)
qed

lemma months_distinct_upsert:
  assumes "months_distinct db"
  shows "months_distinct (upsert_token_usage_monthly vm p ym req resp db)"
proof (cases "(vm, p, ym) \<in> month_key ` set (token_usage_monthly db)")
  case True
  then have "map month_key (token_usage_monthly (upsert_token_usage_monthly vm p ym req resp db))
      = map month_key (token_usage_monthly db)"
    by (simp add: upsert_token_usage_monthly_def) (auto simp: month_key_def)
  then show ?thesis
    using assms by (simp only: months_distinct_def)
next
  case False
  then show ?thesis
    using assms by (simp add: months_distinct_def upsert_token_usage_monthly_def)
      (simp add: month_key_def)
qed

lemma log_usage_totals:
  assumes "months_distinct db"
  shows "month_total (log_usage now vm p u db) k - month_total db k
      = log_total (log_usage now vm p u db) k - log_total db k"
proof -
  let ?db1 = "insert_token_usage_log
        \<lparr>ul_vm = vm, ul_provider = p, ul_request = int (unat (request_tokens u)),
         ul_response = int (unat (response_tokens u)), ul_total = int (unat (total_tokens u)),
         ul_created_at = now_timestamp now, ul_year_month = now_year_month now\<rparr> db"
  have "months_distinct ?db1"
    using assms by (simp add: months_distinct_def insert_token_usage_log_def)
  then have "month_total (log_usage now vm p u db) k = month_total db k
      + (if k = (vm, p, now_year_month now)
         then int (unat (request_tokens u)) + int (unat (response_tokens u)) else 0)"
    by (simp add: log_usage_def month_total_upsert)
      (simp add: month_total_def insert_token_usage_log_def)
  moreover have "log_total (log_usage now vm p u db) k = log_total db k
      + (if k = (vm, p, now_year_month now)
         then int (unat (request_tokens u)) + int (unat (response_tokens u)) else 0)"
    by (auto simp: log_usage_def log_total_def insert_token_usage_log_def
        upsert_token_usage_monthly_def)
  ultimately show ?thesis
    by simp
qed

type_synonym usage_entry = "clock \<times> string \<times> string \<times> TokenUsageData"

definition log_entry :: "usage_entry \<Rightarrow> usage_db \<Rightarrow> usage_db" where
  "log_entry e db = (case e of (now, vm, p, u) \<Rightarrow> log_usage now vm p u db)"

lemma months_distinct_log: "months_distinct db \<Longrightarrow> months_distinct (log_entry e db)"
  by (cases e) (simp add: log_entry_def log_usage_def months_distinct_upsert,
    simp add: months_distinct_def insert_token_usage_log_def
      months_distinct_upsert [unfolded months_distinct_def])

lemma totals_agree:
  assumes "months_distinct db" "\<And>k. month_total db k = log_total db k"
  shows "month_total (fold log_entry es db) k = log_total (fold log_entry es db) k"
  using assms
proof (induction es arbitrary: db)
  case (Cons e es)
  have "month_total (log_entry e db) k = log_total (log_entry e db) k" for k
    using log_usage_totals [OF Cons.prems(1)] Cons.prems(2)
    by (cases e) (simp add: log_entry_def)
  then show ?case
    using Cons.IH months_distinct_log [OF Cons.prems(1)] by simp
qed simp


section \<open>Properties\<close>


text \<open>a request is refused only when an enabled non-zero limit of that VM, for the
  provider or for all providers, that is not warn-only is reached by the recorded usage; and
  when no warn-only limit is reached, every reached limit refuses the request.\<close>

theorem limit_block_exact:
  "((\<exists>r. fst (check_pre_request now db vm p) = Some r) \<longrightarrow>
      (\<exists>l. l \<in> set (applicable db vm p) \<and> exceeded now db vm l \<and> action l \<noteq> ''warn''))
   \<and> ((\<forall>l. l \<in> set (applicable db vm p) \<and> exceeded now db vm l \<longrightarrow> action l \<noteq> ''warn'') \<longrightarrow>
      ((\<exists>r. fst (check_pre_request now db vm p) = Some r)
        \<longleftrightarrow> (\<exists>l. l \<in> set (applicable db vm p) \<and> exceeded now db vm l)))"
proof (cases "find (exceeded now db vm) (applicable db vm p)")
  case None
  then have "fst (check_pre_request now db vm p) = None"
    by (simp add: check_pre_request_def check_token_limit_def)
  then show ?thesis
    using None by (auto simp: find_None_iff)
next
  case (Some l)
  then have l: "l \<in> set (applicable db vm p)" "exceeded now db vm l"
    by (auto simp: find_Some_iff)
  then show ?thesis
    using Some by (auto simp: check_pre_request_def check_token_limit_def)
qed

definition sample_clock :: clock where
  "sample_clock = \<lparr>now_year_month = ''2026-01'', now_today = ''2026-01-15'', now_timestamp = ''2026-01-15 10:00:00''\<rparr>"

definition sample_limit :: "string \<Rightarrow> string \<Rightarrow> TokenUsageLimit" where
  "sample_limit scope act = \<lparr>lim_vm = ''vm'', lim_provider = ''*'', limit_scope = scope, limit_tokens = 10,
     action = act, lim_enabled = True\<rparr>"

definition sample_usage :: usage_db where
  "sample_usage = upsert_token_limit (sample_limit ''daily'' ''warn'')
     (log_usage sample_clock ''vm'' ''openai'' (estimate_from_bytes 40 40) usage_empty)"

lemmas sample_usage_defs = sample_usage_def sample_limit_def sample_clock_def upsert_token_limit_def
  limit_key_def log_usage_def insert_token_usage_log_def upsert_token_usage_monthly_def usage_empty_def
  month_key_def estimate_from_bytes_def Let_def applicable_def exceeded_def current_usage_def

theorem limit_block_exact_witness:
  "(\<exists>r. fst (check_pre_request sample_clock
      (upsert_token_limit (sample_limit ''daily'' ''block'') sample_usage) ''vm'' ''openai'') = Some r)"
proof -
  let ?db = "upsert_token_limit (sample_limit ''daily'' ''block'') sample_usage"
  have "applicable ?db ''vm'' ''openai'' = [sample_limit ''daily'' ''block'']"
    by (simp add: sample_usage_defs)
  moreover have "exceeded sample_clock ?db ''vm'' (sample_limit ''daily'' ''block'')"
    by (simp add: sample_usage_defs)
  ultimately show ?thesis
    using limit_block_exact [of sample_clock ?db "''vm''" "''openai''"] by (simp add: sample_limit_def)
qed

text \<open>the first reached limit in table order decides alone: when it is warn-only the
  request passes, even if another reached limit of the same VM says block.\<close>

theorem warn_limit_masks_block:
  assumes "applicable db vm p = ls @ w # bs" "exceeded now db vm w" "action w = ''warn''"
    and "\<And>l. l \<in> set ls \<Longrightarrow> \<not> exceeded now db vm l"
  shows "fst (check_pre_request now db vm p) = None"
proof -
  have "find (exceeded now db vm) (ls @ w # bs) = Some w"
    using assms(2,4) by (induction ls) auto
  then show ?thesis
    using assms(1,3) by (simp add: check_pre_request_def check_token_limit_def)
qed

theorem warn_limit_masks_block_witness:
  "fst (check_pre_request sample_clock (upsert_token_limit (sample_limit ''monthly'' ''block'') sample_usage)
      ''vm'' ''openai'') = None
   \<and> exceeded sample_clock (upsert_token_limit (sample_limit ''monthly'' ''block'') sample_usage) ''vm''
      (sample_limit ''monthly'' ''block'')"
proof
  show "fst (check_pre_request sample_clock
      (upsert_token_limit (sample_limit ''monthly'' ''block'') sample_usage) ''vm'' ''openai'') = None"
    by (rule warn_limit_masks_block [where ls = "[]" and w = "sample_limit ''daily'' ''warn''"
        and bs = "[sample_limit ''monthly'' ''block'']"]) (simp_all add: sample_usage_defs)
qed (simp add: sample_usage_defs)

end
