(* ===== verification/Gateway.thy ===== *)
theory Gateway
  imports Prelude
begin

text \<open>
  \<open>crates/nilbox-core/src/gateway/mod.rs\<close>: host ports forwarded into VMs.  A
  listener task is the VM and port it forwards to.  \<open>free\<close> says which ports the
  operating system lets the host bind; a port with a live listener is never free.
\<close>

datatype gateway_error = PortTaken string | BindFailed

record gateway =
  port_mapping :: "u16 \<rightharpoonup> string \<times> u16"
  listeners :: "u16 \<rightharpoonup> string \<times> u16"

definition gateway_new :: gateway where
  "gateway_new = \<lparr>port_mapping = Map.empty, listeners = Map.empty\<rparr>"

definition stop_listener :: "u16 \<Rightarrow> gateway \<Rightarrow> gateway" where
  "stop_listener hp g = g\<lparr>listeners := (listeners g)(hp := None)\<rparr>"

definition can_bind :: "(u16 \<Rightarrow> bool) \<Rightarrow> u16 \<Rightarrow> gateway \<Rightarrow> bool" where
  "can_bind free hp g \<longleftrightarrow> free hp \<and> listeners g hp = None"

definition start_listener_with :: "string \<Rightarrow> u16 \<Rightarrow> u16 \<Rightarrow> gateway \<Rightarrow> gateway" where
  "start_listener_with vm hp vp g = g\<lparr>listeners := (listeners g)(hp \<mapsto> (vm, vp))\<rparr>"

definition restart_mapping ::
  "(u16 \<Rightarrow> bool) \<Rightarrow> string \<Rightarrow> u16 \<Rightarrow> u16 \<Rightarrow> gateway \<Rightarrow> gateway \<times> (gateway_error, unit) outcome" where
  "restart_mapping free vm hp vp g =
    (let g1 = stop_listener hp g
     in if can_bind free hp g1
        then ((start_listener_with vm hp vp g1)\<lparr>port_mapping := (port_mapping g1)(hp \<mapsto> (vm, vp))\<rparr>, Ok ())
        else (g1, Err BindFailed))"

definition add_mapping ::
  "(u16 \<Rightarrow> bool) \<Rightarrow> string \<Rightarrow> u16 \<Rightarrow> u16 \<Rightarrow> gateway \<Rightarrow> gateway \<times> (gateway_error, unit) outcome" where
  "add_mapping free vm hp vp g =
    (case port_mapping g hp of
       Some (existing_vm, existing_vp) \<Rightarrow>
         if existing_vm \<noteq> vm then (g, Err (PortTaken existing_vm))
         else if existing_vp = vp \<and> listeners g hp \<noteq> None then (g, Ok ())
         else restart_mapping free vm hp vp g
     | None \<Rightarrow> restart_mapping free vm hp vp g)"

definition remove_mapping :: "u16 \<Rightarrow> gateway \<Rightarrow> gateway" where
  "remove_mapping hp g = (let g1 = stop_listener hp g in g1\<lparr>port_mapping := (port_mapping g1)(hp := None)\<rparr>)"

definition owned_by :: "string \<Rightarrow> (string \<times> u16) option \<Rightarrow> bool" where
  "owned_by vm m = (case m of Some (v, _) \<Rightarrow> v = vm | None \<Rightarrow> False)"

definition remove_mappings_for_vm :: "string \<Rightarrow> gateway \<Rightarrow> gateway" where
  "remove_mappings_for_vm vm g =
    \<lparr>port_mapping = (\<lambda>p. if owned_by vm (port_mapping g p) then None else port_mapping g p),
     listeners = (\<lambda>p. if owned_by vm (port_mapping g p) then None else listeners g p)\<rparr>"

definition get_mappings_for_vm :: "gateway \<Rightarrow> string \<Rightarrow> (u16 \<times> u16) set" where
  "get_mappings_for_vm g vm = {(hp, vp). port_mapping g hp = Some (vm, vp)}"

text \<open>\<open>os_port\<close>: the port the system assigns when \<open>vm_port\<close> is taken.\<close>

definition add_mapping_ephemeral ::
  "(u16 \<Rightarrow> bool) \<Rightarrow> u16 option \<Rightarrow> string \<Rightarrow> u16 \<Rightarrow> gateway \<Rightarrow> gateway \<times> (gateway_error, u16) outcome" where
  "add_mapping_ephemeral free os_port vm vp g =
    (case (if can_bind free vp g then Some vp else os_port) of
       None \<Rightarrow> (g, Err BindFailed)
     | Some hp \<Rightarrow>
         (start_listener_with vm hp vp (g\<lparr>port_mapping := (port_mapping g)(hp \<mapsto> (vm, vp))\<rparr>), Ok hp))"


section \<open>Invariant\<close>

text \<open>A live listener forwards where the table says.\<close>

definition gateway_inv :: "gateway \<Rightarrow> bool" where
  "gateway_inv g \<longleftrightarrow> (\<forall>hp t. listeners g hp = Some t \<longrightarrow> port_mapping g hp = Some t)"

datatype gateway_op =
    AddMapping "u16 \<Rightarrow> bool" string u16 u16
  | AddEphemeral "u16 \<Rightarrow> bool" "u16 option" string u16
  | RemoveMapping u16
  | RemoveVm string

fun run_gateway_op :: "gateway \<Rightarrow> gateway_op \<Rightarrow> gateway" where
  "run_gateway_op g (AddMapping free vm hp vp) = fst (add_mapping free vm hp vp g)"
| "run_gateway_op g (AddEphemeral free os vm vp) = fst (add_mapping_ephemeral free os vm vp g)"
| "run_gateway_op g (RemoveMapping hp) = remove_mapping hp g"
| "run_gateway_op g (RemoveVm vm) = remove_mappings_for_vm vm g"

lemmas gateway_defs = add_mapping_def restart_mapping_def add_mapping_ephemeral_def remove_mapping_def
  remove_mappings_for_vm_def stop_listener_def start_listener_with_def can_bind_def owned_by_def Let_def

lemma gateway_inv_op: "gateway_inv g \<Longrightarrow> gateway_inv (run_gateway_op g op)"
  by (cases op) (auto simp: gateway_inv_def gateway_defs split: option.splits)

lemma gateway_inv_ops: "gateway_inv g \<Longrightarrow> gateway_inv (foldl run_gateway_op g ops)"
  by (induction ops arbitrary: g) (auto intro: gateway_inv_op)

lemma gateway_inv_new: "gateway_inv gateway_new"
  by (simp add: gateway_inv_def gateway_new_def)

lemma add_mapping_other_vm:
  "port_mapping g hp = Some (v, p) \<Longrightarrow> v \<noteq> vm \<Longrightarrow> add_mapping free vm hp' vp g = (g', r) \<Longrightarrow>
    port_mapping g' hp = Some (v, p) \<and> listeners g' hp = listeners g hp"
  by (auto simp: gateway_defs split: option.splits if_splits)


section \<open>Properties\<close>

text \<open>after any sequence of gateway operations every live listener forwards to the VM and
  port of its table entry, and registering a port for one VM leaves the entries and listeners
  of every other VM alone.\<close>

theorem gateway_isolation:
  assumes "g = foldl run_gateway_op gateway_new ops"
    and "listeners g hp = Some (v, p)" "v \<noteq> vm" "add_mapping free vm hp' vp g = (g', r)"
  shows "port_mapping g' hp = Some (v, p) \<and> listeners g' hp = Some (v, p)"
proof -
  have "port_mapping g hp = Some (v, p)"
    using gateway_inv_ops [OF gateway_inv_new, of ops] assms(1,2) by (simp add: gateway_inv_def)
  then show ?thesis
    using add_mapping_other_vm [OF _ assms(3,4)] assms(2) by simp
qed

theorem gateway_isolation_witness:
  "let g = foldl run_gateway_op gateway_new [AddMapping (\<lambda>_. True) ''a'' 8080 80]
   in port_mapping (fst (add_mapping (\<lambda>_. True) ''b'' 8080 80 g)) 8080 = Some (''a'', 80)
      \<and> listeners (fst (add_mapping (\<lambda>_. True) ''b'' 8080 80 g)) 8080 = Some (''a'', 80)"
  using gateway_isolation [of _ "[AddMapping (\<lambda>_. True) ''a'' 8080 80]" 8080 "''a''" 80 "''b''" "\<lambda>_. True" 8080 80]
  by (simp add: gateway_new_def gateway_defs)

text \<open>re-mapping a port of the same VM stops the old listener before it tries to bind;
  when the bind fails the table entry stays although nothing listens any more.\<close>

theorem remap_failure_leaves_stale_entry:
  assumes "port_mapping g hp = Some (vm, old)" "old \<noteq> vp" "\<not> free hp"
  shows "add_mapping free vm hp vp g = (stop_listener hp g, Err BindFailed)
    \<and> port_mapping (stop_listener hp g) hp = Some (vm, old) \<and> listeners (stop_listener hp g) hp = None"
  using assms by (simp add: gateway_defs)

theorem remap_failure_leaves_stale_entry_witness:
  "let g = fst (add_mapping (\<lambda>_. True) ''a'' 8080 80 gateway_new)
   in add_mapping (\<lambda>_. False) ''a'' 8080 81 g = (stop_listener 8080 g, Err BindFailed)
      \<and> port_mapping (stop_listener 8080 g) 8080 = Some (''a'', 80) \<and> listeners (stop_listener 8080 g) 8080 = None"
  using remap_failure_leaves_stale_entry [of "fst (add_mapping (\<lambda>_. True) ''a'' 8080 80 gateway_new)" 8080 "''a''" 80 81
      "\<lambda>_. False"]
  by (simp add: gateway_new_def gateway_defs)

end
