(* ===== verification/Reverse_Proxy.thy ===== *)
theory Reverse_Proxy
  imports Delegators Domain_Gate Token_Usage Gateway
begin

text \<open>
  \<open>proxy/reverse_proxy.rs\<close>: \<open>handle_request\<close>, the path of a plain HTTP request
  from the VM, with \<open>handle_oauth_token\<close> and \<open>handle_nilbox_control\<close>, and the URL
  rewriter they call (\<open>proxy/oauth_url_rewriter.rs\<close>).

  \<open>rp\<close> is the state the handlers share; \<open>rp_sent\<close> is the log of the requests that
  left for the network, \<open>rp_tunnels\<close> of the raw tunnels.  \<open>env\<close> is the outside for one request: the user's answers to
  its prompts (\<open>None\<close>: timeout), the upstream servers, clocks, random ids and
  third-party code.  One request runs at a time here; the gates with several
  waiting requests are in their own theories.
\<close>

section \<open>State and environment\<close>

datatype rp_event =
    OauthDomainMismatch string string string
  | DomainEnvMissing string string
  | OauthSessionUpdated string string

record rp =
  rp_vm :: string
  rp_gate :: gate
  rp_mismatch :: mismatch_gate
  rp_keys :: api_key_gate
  rp_router :: "delegator AuthRouter"
  rp_llm :: "LlmProvider list"
  rp_usage :: usage_db
  rp_limit_events :: "limit_event list"
  rp_aws_routes :: "(string \<times> string) list"
  rp_store_token :: "string option"
  rp_gateway :: gateway
  rp_opened :: "string \<rightharpoonup> nat"
  rp_browser :: "string list"
  rp_events :: "rp_event list"
  rp_activity :: "(string \<times> nat \<times> nat) list"
  rp_sent :: "out_request list"
  rp_tunnels :: "string list"

record env =
  e_deleg :: deleg_env
  e_execute :: "out_request \<Rightarrow> upstream option"
  e_domain_answer :: "(DomainDecision \<times> string list) option"
  e_mismatch_id :: string
  e_mismatch_answer :: "TokenMismatchDecision option"
  e_clock :: clock
  e_now :: u64
  e_millis :: nat
  e_uuid :: string
  e_ipv6 :: "string \<Rightarrow> bool option"
  e_port_free :: "u16 \<Rightarrow> bool"
  e_browser_ok :: "string \<Rightarrow> bool"
  e_rewrite_auth_url :: "OAuthProvider \<Rightarrow> string \<Rightarrow> (string \<times> string) list \<Rightarrow> string option"

abbreviation e_codecs :: "env \<Rightarrow> codecs" where "e_codecs e \<equiv> d_codecs (e_deleg e)"
abbreviation e_web :: "env \<Rightarrow> web" where "e_web e \<equiv> d_web (e_deleg e)"
abbreviation rp_store :: "rp \<Rightarrow> store" where "rp_store s \<equiv> config_store (rp_gate s)"
abbreviation rp_keystore :: "rp \<Rightarrow> keys" where "rp_keystore s \<equiv> keystore (rp_keys s)"

text \<open>A whole \<open>gate.check\<close> call, with the user's answer if it comes to a prompt.\<close>

definition gate_check ::
  "(DomainDecision \<times> string list) option \<Rightarrow> string \<Rightarrow> u16 \<Rightarrow> string \<Rightarrow> string \<Rightarrow> gate \<Rightarrow> gate \<times> bool" where
  "gate_check user domain port vm source g =
    (case check_begin domain port vm source g of
       (g1, Inl b) \<Rightarrow> (g1, b)
     | (g1, Inr c) \<Rightarrow>
         (let g2 = (case user of Some (d, names) \<Rightarrow> gate_resolve domain d names g1 | None \<Rightarrow> g1)
          in check_end domain (wait_for_decision (wait_poll Pending (prompts g2) c)) g2))"


section \<open>Which secret goes into a request\<close>

text \<open>\<open>Refuse b\<close>: \<open>b\<close> for an OAuth token bound elsewhere, else a cancelled mismatch.\<close>

datatype auth_choice = Use delegator "string option" | Refuse bool

definition merge_tokens :: "string list \<Rightarrow> string list \<Rightarrow> string list" where
  "merge_tokens tokens pend = foldl (\<lambda>ts t. if t \<in> set ts then ts else ts @ [t]) tokens pend"

definition is_aws_tokens :: "string list \<Rightarrow> bool" where
  "is_aws_tokens tokens \<longleftrightarrow> ''AWS_ACCESS_KEY_ID'' \<in> set tokens \<and> ''AWS_SECRET_ACCESS_KEY'' \<in> set tokens"

definition choose_mapped ::
  "env \<Rightarrow> delegator \<Rightarrow> delegator \<Rightarrow> string list \<Rightarrow> AuthHeader option \<Rightarrow> string \<Rightarrow> rp \<Rightarrow> rp \<times> auth_choice" where
  "choose_mapped e aws_del del tokens auth domain s =
    (if is_aws_tokens tokens then (s, Use aws_del (Some domain))
     else if ''TELEGRAM_BOT_TOKEN'' \<in> set tokens then (s, Use Telegram (Some ''TELEGRAM_BOT_TOKEN''))
     else (case auth of
             None \<Rightarrow> (s, Use del None)
           | Some ah \<Rightarrow>
               if ah_account ah \<in> set tokens then (s, Use del (Some (ah_account ah)))
               else (case mismatch_check (e_mismatch_id e) (e_mismatch_answer e) domain (ah_account ah) tokens (rp_mismatch s) of
                       (m, pass) \<Rightarrow> (s\<lparr>rp_mismatch := m\<rparr>, if pass then Use del None else Refuse False))))"

definition emit :: "rp_event \<Rightarrow> rp \<Rightarrow> rp" where
  "emit ev s = s\<lparr>rp_events := rp_events s @ [ev]\<rparr>"

definition set_keystore :: "keys \<Rightarrow> rp \<Rightarrow> rp" where
  "set_keystore ks s = s\<lparr>rp_keys := (rp_keys s)\<lparr>keystore := ks\<rparr>\<rparr>"

text \<open>\<open>notify\<close>: whether an unknown session is reported to the user.\<close>

definition choose_oauth :: "env \<Rightarrow> bool \<Rightarrow> delegator \<Rightarrow> AuthHeader \<Rightarrow> string \<Rightarrow> rp \<Rightarrow> rp \<times> auth_choice" where
  "choose_oauth e notify del ah domain s =
    (case check_and_resolve (e_codecs e) (rp_keystore s) (ah_account ah) domain of
       Ok FirstUse \<Rightarrow>
         (set_keystore (ok_or (rp_keystore s) (bind_domain (e_codecs e) (ah_account ah) domain (rp_keystore s))) s,
          Use del None)
     | Ok Match \<Rightarrow> (s, Use del None)
     | Ok (Mismatch bound) \<Rightarrow> (emit (OauthDomainMismatch domain bound (rp_vm s)) s, Refuse True)
     | _ \<Rightarrow> ((if notify then emit (DomainEnvMissing domain (ah_account ah)) s else s), Use del None))"

definition choose_auth :: "env \<Rightarrow> AuthHeader option \<Rightarrow> string \<Rightarrow> rp \<Rightarrow> rp \<times> auth_choice" where
  "choose_auth e auth domain s =
    (case router_resolve (rp_router s) domain of
       (del, Some acct) \<Rightarrow> (s, Use del (Some acct))
     | (del, None) \<Rightarrow>
         (case take_pending_tokens domain (rp_gate s) of (pend, g) \<Rightarrow>
           (let tokens = merge_tokens (list_domain_tokens (rp_store s) domain) pend;
                s1 = s\<lparr>rp_gate := g\<rparr>
            in if tokens \<noteq> [] then choose_mapped e (AwsSigV4 None) del tokens auth domain s1
               else (case auth of
                       None \<Rightarrow> (s1, Use del None)
                     | Some ah \<Rightarrow>
                         if is_dummy_access_token (e_codecs e) (ah_account ah)
                         then choose_oauth e (is_allowed domain g) del ah domain s1
                         else if is_allowed domain g
                         then (emit (DomainEnvMissing domain (ah_account ah)) s1, Use del None)
                         else (s1, Use del (Some (ah_account ah)))))))"

definition delegate :: "env \<Rightarrow> delegator \<Rightarrow> string \<Rightarrow> AuthHeader option \<Rightarrow> string \<Rightarrow> rp \<Rightarrow> out_request
    \<Rightarrow> rp \<times> out_request" where
  "delegate e del acct auth domain s r =
    (case apply_auth (e_deleg e) del (rp_store s) domain acct (rp_keys s) r of (g, r', ok) \<Rightarrow>
      (s\<lparr>rp_keys := g\<rparr>,
       if ok then r'
       else (case auth of Some ah \<Rightarrow> r'\<lparr>o_headers := hremove (ah_name ah) (o_headers r')\<rparr> | None \<Rightarrow> r')))"

definition resolve_dummy :: "env \<Rightarrow> AuthHeader option \<Rightarrow> rp \<Rightarrow> out_request \<Rightarrow> out_request" where
  "resolve_dummy e auth s r =
    (case auth of
       None \<Rightarrow> r
     | Some ah \<Rightarrow>
         if is_dummy_access_token (e_codecs e) (ah_account ah)
         then (case resolve_access_token (e_codecs e) (rp_keystore s) (ah_account ah) of
                 Ok (Some secret) \<Rightarrow>
                   if header_value_ok (e_web e) (ah_prefix ah @ secret)
                   then r\<lparr>o_headers := hinsert (ah_name ah) (ah_prefix ah @ secret) (o_headers r)\<rparr> else r
               | _ \<Rightarrow> r)
         else r)"

definition inject_store_token :: "env \<Rightarrow> string \<Rightarrow> rp \<Rightarrow> out_request \<Rightarrow> out_request" where
  "inject_store_token e domain s r =
    (if domain = ''store.nilbox.run''
     then (case rp_store_token s of
             Some t \<Rightarrow> if header_value_ok (e_web e) (''Bearer '' @ t)
                       then r\<lparr>o_headers := hinsert ''authorization'' (''Bearer '' @ t) (o_headers r)\<rparr> else r
           | None \<Rightarrow> r)
     else r)"

text \<open>The auth block of \<open>handle_request\<close>: the request to send, or a refusal.\<close>

definition authorize :: "env \<Rightarrow> AuthHeader option \<Rightarrow> string \<Rightarrow> rp \<Rightarrow> out_request \<Rightarrow> rp \<times> out_request option" where
  "authorize e auth domain s r =
    (case choose_auth e auth domain s of
       (s1, Refuse _) \<Rightarrow> (s1, None)
     | (s1, Use del (Some acct)) \<Rightarrow>
         (case delegate e del acct auth domain s1 r of (s2, r2) \<Rightarrow> (s2, Some r2))
     | (s1, Use del None) \<Rightarrow>
         (let r1 = resolve_dummy e auth s1 r
          in (s1, Some (if auth = None then inject_store_token e domain s1 r1 else r1))))"


section \<open>Token limits\<close>

fun limit_loop :: "clock \<Rightarrow> usage_db \<Rightarrow> string \<Rightarrow> string list \<Rightarrow> bool \<times> limit_event list" where
  "limit_loop now db vm [] = (False, [])"
| "limit_loop now db vm (pid # pids) =
    (case check_pre_request now db vm pid of
       (Some res, evs) \<Rightarrow>
         if res_action res = ''block'' then (True, evs)
         else (case limit_loop now db vm pids of (b, evs') \<Rightarrow> (b, evs @ evs'))
     | (None, evs) \<Rightarrow> (case limit_loop now db vm pids of (b, evs') \<Rightarrow> (b, evs @ evs')))"

definition check_provider :: "LlmProvider list \<Rightarrow> string \<Rightarrow> LlmProviderMatch option \<Rightarrow> string option" where
  "check_provider ps domain lm =
    (case lm of Some m \<Rightarrow> Some (match_provider m) | None \<Rightarrow> match_domain_only ps domain)"

definition limit_gate :: "env \<Rightarrow> string option \<Rightarrow> rp \<Rightarrow> rp \<times> bool" where
  "limit_gate e provider s =
    (case provider of
       None \<Rightarrow> (s, False)
     | Some p \<Rightarrow>
         (case limit_loop (e_clock e) (rp_usage s) (rp_vm s) [p, ''*''] of
            (blocked, evs) \<Rightarrow> (s\<lparr>rp_limit_events := rp_limit_events s @ evs\<rparr>, blocked)))"


section \<open>Upstream responses and usage accounting\<close>

fun write_chunks :: "bytes list \<Rightarrow> conn \<Rightarrow> bool \<times> conn" where
  "write_chunks [] c = (True, c)"
| "write_chunks (b # bs) c = (case cwrite b c of (True, c') \<Rightarrow> write_chunks bs c' | (False, c') \<Rightarrow> (False, c'))"

definition is_event_stream :: "web \<Rightarrow> upstream \<Rightarrow> bool" where
  "is_event_stream w u =
    (case Option.bind (hget (u_headers u) ''content-type'') (header_to_str w) of
       Some ct \<Rightarrow> contains_str ct ''text/event-stream'' | None \<Rightarrow> False)"

definition log_and_warn :: "env \<Rightarrow> string \<Rightarrow> TokenUsageData \<Rightarrow> rp \<Rightarrow> rp" where
  "log_and_warn e pid usage s =
    (let db = log_usage (e_clock e) (rp_vm s) pid usage (rp_usage s)
     in s\<lparr>rp_usage := db,
          rp_limit_events := rp_limit_events s @ check_soft_warnings (e_clock e) db (rp_vm s) pid
            @ check_soft_warnings (e_clock e) db (rp_vm s) ''*''\<rparr>)"

definition or_estimate :: "TokenUsageData option \<Rightarrow> nat \<Rightarrow> TokenUsageData" where
  "or_estimate u len = (case u of Some t \<Rightarrow> t | None \<Rightarrow> estimate_from_bytes_fallback len)"

definition account_usage ::
  "env \<Rightarrow> string \<Rightarrow> LlmProviderMatch option \<Rightarrow> bool \<Rightarrow> nat \<Rightarrow> bytes list \<Rightarrow> rp \<Rightarrow> rp" where
  "account_usage e domain lm streaming req_len chunks s =
    (let len = length (concat chunks) in
     case lm of
       Some m \<Rightarrow>
         (case provider_info m of
            Some p \<Rightarrow>
              log_and_warn e (match_provider m)
                (if streaming
                 then or_estimate (extract_from_sse_chunks (\<lambda>t. json_of_bytes (e_codecs e) (str_bytes t)) chunks p) len
                 else or_estimate (extract_from_body (json_of_bytes (e_codecs e)) (concat chunks) p) len) s
          | None \<Rightarrow>
              log_and_warn e
                (case match_domain_only (rp_llm s) domain of Some pid \<Rightarrow> pid | None \<Rightarrow> match_provider m)
                (estimate_from_bytes req_len len) s)
     | None \<Rightarrow>
         (case match_domain_only (rp_llm s) domain of
            Some pid \<Rightarrow> log_and_warn e pid (estimate_from_bytes req_len len) s
          | None \<Rightarrow> s))"

definition send_upstream :: "env \<Rightarrow> out_request \<Rightarrow> rp \<Rightarrow> rp \<times> upstream option" where
  "send_upstream e r s = (s\<lparr>rp_sent := rp_sent s @ [r]\<rparr>, e_execute e r)"

type_synonym handled = "rp \<times> conn \<times> (http_error, unit) outcome"

definition forward :: "env \<Rightarrow> string \<Rightarrow> LlmProviderMatch option \<Rightarrow> nat \<Rightarrow> out_request \<Rightarrow> rp \<Rightarrow> conn \<Rightarrow> handled" where
  "forward e domain lm req_len r s c =
    (case send_upstream e r s of
       (s1, None) \<Rightarrow> (s1, reply BAD_GATEWAY c, Ok ())
     | (s1, Some u) \<Rightarrow>
         (case cwrite (str_bytes (response_head (e_web e) u)) c of
            (False, c1) \<Rightarrow> (s1, c1, Err WriteFailed)
          | (True, c1) \<Rightarrow>
              (case write_chunks (u_chunks u) c1 of
                 (False, c2) \<Rightarrow> (s1, c2, Err WriteFailed)
               | (True, c2) \<Rightarrow>
                   (let s2 = account_usage e domain lm (is_event_stream (e_web e) u) req_len (u_chunks u) s1
                    in (s2\<lparr>rp_activity := rp_activity s2 @ [(domain, length (concat (u_chunks u)), req_len)]\<rparr>,
                        c2\<lparr>shut := True\<rparr>, Ok ())))))"


section \<open>AWS path routes\<close>

definition add_aws_proxy_route :: "string \<Rightarrow> string \<Rightarrow> (string \<times> string) list \<Rightarrow> (string \<times> string) list" where
  "add_aws_proxy_route prefix host table = filter (\<lambda>e. fst e \<noteq> prefix) table @ [(prefix, host)]"

fun longest_route :: "(string \<times> string) list \<Rightarrow> string \<Rightarrow> (string \<times> string) option" where
  "longest_route [] path = None"
| "longest_route (e # es) path =
    (case longest_route es path of
       None \<Rightarrow> if starts_with path (fst e) then Some e else None
     | Some b \<Rightarrow> if starts_with path (fst e) \<and> length (fst b) < length (fst e) then Some e else Some b)"

definition find_aws_proxy_route :: "(string \<times> string) list \<Rightarrow> string \<Rightarrow> (string \<times> string) option" where
  "find_aws_proxy_route table path = longest_route table path"

definition SIGV4_HEADERS :: "string list" where
  "SIGV4_HEADERS = [''authorization'', ''x-amz-date'', ''x-amz-content-sha256'', ''x-amz-security-token'']"

definition without_headers :: "string list \<Rightarrow> headers \<Rightarrow> headers" where
  "without_headers ns h = filter (\<lambda>e. fst e \<notin> set ns) h"

definition aws_route_url :: "string \<times> string \<Rightarrow> string \<Rightarrow> string" where
  "aws_route_url route path =
    (let stripped = (case strip_prefix path (fst route) of Some r \<Rightarrow> r | None \<Rightarrow> [])
     in ''https://'' @ snd route @ (if stripped = [] then ''/'' else stripped))"

definition handle_aws_route ::
  "env \<Rightarrow> string \<times> string \<Rightarrow> string \<Rightarrow> ParsedRequest \<Rightarrow> bytes \<Rightarrow> rp \<Rightarrow> conn \<Rightarrow> handled" where
  "handle_aws_route e route path req payload s c =
    (let clean = without_headers SIGV4_HEADERS (req_headers req) in
     case collect_body payload (body_offset req) clean c of (body, c1) \<Rightarrow>
       (case build_request (e_web e) (req_method req) (aws_route_url route path) (without_headers [''host''] clean) body of
          None \<Rightarrow> (s, c1, Err BuildFailed)
        | Some r \<Rightarrow>
            (case apply_auth (e_deleg e) (AwsSigV4 None) (rp_store s) (snd route) [] (rp_keys s) r of (g, r', ok) \<Rightarrow>
              if \<not> ok then (s\<lparr>rp_keys := g\<rparr>, reply BAD_GATEWAY0 c1, Ok ())
              else (case send_upstream e r' (s\<lparr>rp_keys := g\<rparr>) of
                      (s1, None) \<Rightarrow> (s1, reply BAD_GATEWAY c1, Ok ())
                    | (s1, Some u) \<Rightarrow>
                        (case write_chunks (str_bytes (response_head (e_web e) u) # u_chunks u) c1 of
                           (False, c2) \<Rightarrow> (s1, c2, Err WriteFailed)
                         | (True, c2) \<Rightarrow> (s1, c2\<lparr>shut := True\<rparr>, Ok ()))))))"


section \<open>OAuth token endpoint\<close>

definition insert_param :: "string \<Rightarrow> string \<Rightarrow> (string \<times> string) list \<Rightarrow> (string \<times> string) list" where
  "insert_param k v ps = (filter (\<lambda>e. fst e \<noteq> k) ps) @ [(k, v)]"

text \<open>The pairs of the hash map: the last pair of each name.\<close>

definition param_pairs :: "codecs \<Rightarrow> bytes \<Rightarrow> (string \<times> string) list" where
  "param_pairs k body = foldl (\<lambda>ps e. insert_param (fst e) (snd e) ps) [] (form_parse k body)"

text \<open>A refresh grant with a dummy token: the body to send, and the dummy.\<close>

definition refresh_body :: "env \<Rightarrow> keys \<Rightarrow> bytes \<Rightarrow> bytes \<times> string option" where
  "refresh_body e ks body =
    (let ps = param_pairs (e_codecs e) body in
     case (map_of ps ''grant_type'', map_of ps ''refresh_token'') of
       (Some g, Some d) \<Rightarrow>
         if g = ''refresh_token'' \<and> is_dummy_refresh_token d
         then ((case resolve_refresh_token (e_codecs e) ks d of
                  Ok (Some t) \<Rightarrow> form_serialize (e_codecs e) (insert_param ''refresh_token'' t ps)
                | _ \<Rightarrow> body), Some d)
         else (body, None)
     | _ \<Rightarrow> (body, None))"

definition cached_response :: "env \<Rightarrow> keys \<Rightarrow> string option \<Rightarrow> TokenResponseFields \<Rightarrow> bytes option" where
  "cached_response e ks dummy flds =
    (case dummy of
       None \<Rightarrow> None
     | Some d \<Rightarrow> Option.bind (ok_opt (try_cached_token_response (e_codecs e) (e_now e) ks d flds)) id)"

definition OAUTH_HEAD :: "nat \<Rightarrow> string" where
  "OAUTH_HEAD len = ''HTTP/1.1 200 OK'' @ crlf @ ''Content-Type: application/json'' @ crlf
     @ ''Content-Length: '' @ nat_digits len @ crlf @ ''Connection: close'' @ crlf @ crlf"

definition existing_uuid :: "string option \<Rightarrow> string option" where
  "existing_uuid dummy = map_option snd (Option.bind dummy parse_dummy_prefix)"

text \<open>What the VM gets for a token response, and the state with the real tokens stored.\<close>

definition intercept_body ::
  "env \<Rightarrow> OAuthProvider \<Rightarrow> bool \<Rightarrow> bytes \<Rightarrow> string option \<Rightarrow> rp \<Rightarrow> rp \<times> bytes" where
  "intercept_body e p success body dummy s =
    (if \<not> success then (s, body)
     else (case intercept_token_response (e_codecs e) (e_now e) (e_uuid e) (rp_keystore s) (prov_name p) (rp_vm s)
                  body (token_response_fields p) (existing_uuid dummy) (cross_domains p) of
             (Ok modified, ks) \<Rightarrow> (emit (OauthSessionUpdated (rp_vm s) (prov_name p)) (set_keystore ks s), modified)
           | (_, ks) \<Rightarrow> (set_keystore ks s, body)))"

definition oauth_response_head :: "web \<Rightarrow> upstream \<Rightarrow> nat \<Rightarrow> string" where
  "oauth_response_head w u len =
    ''HTTP/1.1 '' @ nat_digits (u_status u) @ '' '' @ (case u_reason u of Some t \<Rightarrow> t | None \<Rightarrow> []) @ crlf
     @ header_lines w (u_headers u)
     @ ''Content-Length: '' @ nat_digits len @ crlf @ ''Connection: close'' @ crlf @ crlf"

definition oauth_respond :: "env \<Rightarrow> OAuthProvider \<Rightarrow> string option \<Rightarrow> upstream \<Rightarrow> rp \<Rightarrow> conn \<Rightarrow> handled" where
  "oauth_respond e p dummy u s c =
    (if \<not> u_ok u then (s, c, Err ReadFailed)
     else (case intercept_body e p (200 \<le> u_status u \<and> u_status u < 300) (concat (u_chunks u)) dummy s of
             (s1, body) \<Rightarrow>
               (case write_chunks (str_bytes (oauth_response_head (e_web e) u (length body))
                       # (if body = [] then [] else [body])) c of
                  (False, c1) \<Rightarrow> (s1, c1, Err WriteFailed)
                | (True, c1) \<Rightarrow> (s1, c1\<lparr>shut := True\<rparr>, Ok ()))))"

definition handle_oauth_token :: "env \<Rightarrow> bytes \<Rightarrow> ParsedRequest \<Rightarrow> rp \<Rightarrow> conn \<Rightarrow> handled" where
  "handle_oauth_token e payload req s c =
    (case find_by_token_path (d_providers (e_deleg e)) (req_path req) of
       None \<Rightarrow> (s, c, Err NoProvider)
     | Some p \<Rightarrow>
         (case collect_body payload (body_offset req) (req_headers req) c of (body0, c1) \<Rightarrow>
          (case refresh_body e (rp_keystore s) body0 of (body, dummy) \<Rightarrow>
           (case cached_response e (rp_keystore s) dummy (token_response_fields p) of
              Some cached \<Rightarrow>
                (s, (snd (write_chunks [str_bytes (OAUTH_HEAD (length cached)), cached] c1))\<lparr>shut := True\<rparr>, Ok ())
            | None \<Rightarrow>
                (case build_request (e_web e) ''POST'' (''http://placeholder'' @ req_path req)
                        (without_headers [''host'', ''content-length''] (req_headers req)) body of
                   None \<Rightarrow> (s, c1, Err BuildFailed)
                 | Some r0 \<Rightarrow>
                     (case scripted_apply_auth (e_deleg e) (rp_keystore s) (token_path p) (r0\<lparr>o_body := Some body\<rparr>) of
                        (r, False) \<Rightarrow> (s, reply BAD_GATEWAY0 c1, Ok ())
                      | (r, True) \<Rightarrow>
                          (case send_upstream e r s of
                             (s1, None) \<Rightarrow> (s1, reply BAD_GATEWAY c1, Ok ())
                           | (s1, Some u) \<Rightarrow> oauth_respond e p dummy u s1 c1)))))))"


section \<open>Control requests\<close>

definition rewrite_accounts :: "keys \<Rightarrow> store \<Rightarrow> OAuthProvider \<Rightarrow> string \<Rightarrow> string list \<Rightarrow> string list" where
  "rewrite_accounts ks st p domain overrides =
    (let accts = (if overrides \<noteq> [] then overrides else list_domain_tokens st domain) in
     if accts \<noteq> [] then accts
     else (let okey = ''oauth:'' @ prov_name p;
               base = [token_path p] @ (if okey \<noteq> token_path p \<and> ks_has ks okey then [okey] else [])
           in merge_tokens base (filter (\<lambda>a. starts_with a (oauth_prefix p)) (ks_list ks))))"

definition secret_document :: "codecs \<Rightarrow> string \<Rightarrow> json option" where
  "secret_document k txt =
    (case json_of_bytes k (str_bytes txt) of
       Some v \<Rightarrow> Some v
     | None \<Rightarrow>
         Option.bind (Option.bind (json_of_bytes k (str_bytes txt)) as_str) (\<lambda>inner. json_of_bytes k (str_bytes inner)))"

definition replace_placeholders :: "OAuthProvider \<Rightarrow> (string \<times> string) list \<Rightarrow> string \<Rightarrow> string" where
  "replace_placeholders p vals url =
    foldl (\<lambda>t (k, v). replace_all t (placeholder_prefix p @ ''_'' @ k) v) url vals"

fun rewrite_with ::
  "env \<Rightarrow> keys \<Rightarrow> OAuthProvider \<Rightarrow> (string \<times> string) list \<Rightarrow> string list \<Rightarrow> string \<Rightarrow> string" where
  "rewrite_with e ks p extraction [] url = url"
| "rewrite_with e ks p extraction (a # as) url =
    (case Option.bind (Option.bind (ok_opt (ks_get ks a)) (secret_document (e_codecs e)))
            (\<lambda>doc. extract_values doc extraction) of
       None \<Rightarrow> rewrite_with e ks p extraction as url
     | Some vals \<Rightarrow>
         (case e_rewrite_auth_url e p url vals of
            Some u \<Rightarrow> if u \<noteq> url then u
                      else (let t = replace_placeholders p vals url
                            in if t \<noteq> url then t else rewrite_with e ks p extraction as url)
          | None \<Rightarrow> (let t = replace_placeholders p vals url
                     in if t \<noteq> url then t else rewrite_with e ks p extraction as url)))"

definition rewrite_url :: "env \<Rightarrow> keys \<Rightarrow> store \<Rightarrow> string \<Rightarrow> string list \<Rightarrow> string \<Rightarrow> string" where
  "rewrite_url e ks st domain overrides url =
    (case find_by_auth_domain (d_providers (e_deleg e)) domain of
       None \<Rightarrow> url
     | Some p \<Rightarrow>
         (case placeholder_extraction p of
            None \<Rightarrow> url
          | Some extraction \<Rightarrow>
              if extraction = [] then url
              else rewrite_with e ks p extraction (rewrite_accounts ks st p domain overrides) url))"

definition after_host :: "string \<Rightarrow> string" where
  "after_host rest = dropWhile (\<lambda>ch. ch \<noteq> CHR ''/'') rest"

definition open_url :: "env \<Rightarrow> string \<Rightarrow> rp \<Rightarrow> conn \<Rightarrow> handled" where
  "open_url e url s c =
    (let s1 = (case extract_redirect_port (e_web e) (e_ipv6 e) url of
                 Some port \<Rightarrow> s\<lparr>rp_gateway := fst (add_mapping (e_port_free e) (rp_vm s) port port (rp_gateway s))\<rparr>
               | None \<Rightarrow> s);
         s2 = s1\<lparr>rp_browser := rp_browser s1 @ [url]\<rparr>
     in (s2, reply ((if e_browser_ok e url then ''HTTP/1.1 200 OK'' else ''HTTP/1.1 500 Internal Server Error'')
                @ crlf @ ''Content-Length: 0'' @ crlf @ crlf) c, Ok ()))"

definition handle_nilbox_control :: "env \<Rightarrow> ParsedRequest \<Rightarrow> rp \<Rightarrow> conn \<Rightarrow> handled" where
  "handle_nilbox_control e req s c =
    (let path = (case strip_prefix (req_path req) ''http://'' of Some rest \<Rightarrow> after_host rest | None \<Rightarrow> req_path req) in
     if \<not> starts_with path ''/__nilbox__/open-url''
     then (s, reply (''HTTP/1.1 404 Not Found'' @ crlf @ ''Content-Length: 0'' @ crlf @ crlf) c, Ok ())
     else
      (case Option.bind (split_once (CHR ''?'') path)
              (\<lambda>(_, qs). map_of (form_parse (e_codecs e) (str_bytes qs)) ''url'') of
         None \<Rightarrow> (s, reply (''HTTP/1.1 400 Bad Request'' @ crlf @ ''Content-Length: 0'' @ crlf @ crlf) c, Ok ())
       | Some url \<Rightarrow>
           (let s1 = s\<lparr>rp_opened := record_browser_open (e_millis e) url (rp_opened s)\<rparr> in
            case Option.bind (url_parse (e_web e) url) (url_host (e_web e)) of
              None \<Rightarrow> open_url e url s1 c
            | Some domain \<Rightarrow>
                (case gate_check (e_domain_answer e) domain 443 (rp_vm s1) ''browser'' (rp_gate s1) of
                   (g, False) \<Rightarrow>
                     (s1\<lparr>rp_gate := g\<rparr>,
                      reply (''HTTP/1.1 200 OK'' @ crlf @ ''Content-Length: 0'' @ crlf @ crlf) c, Ok ())
                 | (g, True) \<Rightarrow>
                     (case take_pending_tokens domain g of (pend, g') \<Rightarrow>
                       open_url e (if contains_str url ''NILBOX_OAUTH_''
                                   then rewrite_url e (rp_keystore s1) (config_store g') domain pend url else url)
                         (s1\<lparr>rp_gate := g'\<rparr>) c)))))"


section \<open>A request from the VM\<close>

definition host_name :: "string \<Rightarrow> string" where
  "host_name h = hd (split_str (CHR '':'') h)"

definition host_port :: "string \<Rightarrow> u16 \<Rightarrow> u16" where
  "host_port h dflt =
    (case Option.bind (split_once (CHR '':'') h) (\<lambda>(_, p). parse_u64 p) of
       Some n \<Rightarrow> if unat n < 2 ^ 16 then of_nat (unat n) else dflt
     | None \<Rightarrow> dflt)"

definition strip_origin :: "string \<Rightarrow> string" where
  "strip_origin path =
    (case strip_prefix path ''https://'' of
       Some rest \<Rightarrow> (let p = after_host rest in if p = [] then ''/'' else p)
     | None \<Rightarrow>
         (case strip_prefix path ''http://'' of
            Some rest \<Rightarrow> (let p = after_host rest in if p = [] then ''/'' else p)
          | None \<Rightarrow> path))"

definition IMDS :: string where "IMDS = ''169.254.169.254''"

definition target_host :: "ParsedRequest \<Rightarrow> string" where
  "target_host req =
    (if req_method req = ''CONNECT'' then host_name (req_path req)
     else case hget (req_headers req) ''host'' of Some h \<Rightarrow> host_name h | None \<Rightarrow> [])"

text \<open>The gate: \<open>check\<close> is asked only when the domain is not in the allow list.\<close>

definition pass_gate :: "env \<Rightarrow> string \<Rightarrow> u16 \<Rightarrow> rp \<Rightarrow> rp \<times> bool" where
  "pass_gate e domain port s =
    (if is_allowed domain (rp_gate s) then (s, True)
     else (case gate_check (e_domain_answer e) domain port (rp_vm s) ''proxy'' (rp_gate s) of
             (g, ok) \<Rightarrow> (s\<lparr>rp_gate := g\<rparr>, ok)))"

definition handle_plain :: "env \<Rightarrow> string \<Rightarrow> string \<Rightarrow> ParsedRequest \<Rightarrow> bytes \<Rightarrow> rp \<Rightarrow> conn \<Rightarrow> handled" where
  "handle_plain e host path req payload s c =
    (let domain = host_name host; auth = detect_auth_header (req_headers req) in
     case collect_body payload (body_offset req) (req_headers req) c of (body, c1) \<Rightarrow>
      (let lm = match_request (rp_llm s) domain path (req_headers req) in
       case limit_gate e (check_provider (rp_llm s) domain lm) s of
         (s1, True) \<Rightarrow>
           (s1, (snd (write_chunks [str_bytes LIMIT_HEAD, str_bytes LIMIT_BODY] c1))\<lparr>shut := True\<rparr>, Ok ())
       | (s1, False) \<Rightarrow>
           (case build_request (e_web e) (req_method req) (''https://'' @ host @ path)
                   (without_headers [''host''] (req_headers req)) body of
              None \<Rightarrow> (s1, c1, Err BuildFailed)
            | Some r \<Rightarrow>
                (case authorize e auth domain s1 r of
                   (s2, None) \<Rightarrow> (s2, reply FORBIDDEN c1, Ok ())
                 | (s2, Some r') \<Rightarrow> forward e domain lm (length body) r' s2 c1))))"

text \<open>\<open>connect\<close> is \<open>forward_proxy::handle_connect\<close>, modelled in the theory that follows.\<close>

definition handle_request ::
  "(env \<Rightarrow> ParsedRequest \<Rightarrow> rp \<Rightarrow> conn \<Rightarrow> handled) \<Rightarrow> env \<Rightarrow> rp \<Rightarrow> conn \<Rightarrow> handled" where
  "handle_request connect e s c0 =
    (case inbox c0 of
       [] \<Rightarrow> (s, c0, Err ReadFailed)
     | payload # rest \<Rightarrow>
         (let c = c0\<lparr>inbox := rest\<rparr> in
          case parse_request_headers (e_web e) payload of
            Err er \<Rightarrow> (s, c\<lparr>shut := True\<rparr>, Err er)
          | Panic \<Rightarrow> (s, c, Panic)
          | Ok req \<Rightarrow>
              if contains_str (req_path req) ''/__nilbox__/'' then handle_nilbox_control e req s c
              else if req_method req = ''POST''
                   \<and> find_by_token_path (d_providers (e_deleg e)) (req_path req) \<noteq> None
              then handle_oauth_token e payload req s c
              else if target_host req = IMDS then (s, reply FORBIDDEN c, Ok ())
              else if req_method req = ''CONNECT'' then connect e req s c
              else (case hget (req_headers req) ''host'' of
                      None \<Rightarrow> (s, c, Err MissingHost)
                    | Some host \<Rightarrow>
                        (case pass_gate e (host_name host) (host_port host 80) s of
                           (s1, False) \<Rightarrow> (s1, reply FORBIDDEN c, Ok ())
                         | (s1, True) \<Rightarrow>
                             (let path = strip_origin (req_path req) in
                              case find_aws_proxy_route (rp_aws_routes s1) path of
                                Some route \<Rightarrow> handle_aws_route e route path req payload s1 c
                              | None \<Rightarrow> handle_plain e host path req payload s1 c)))))"


section \<open>Laws of the gate\<close>

definition user_allows :: "(DomainDecision \<times> string list) option \<Rightarrow> bool" where
  "user_allows user = (case user of Some (d, _) \<Rightarrow> d = AllowOnce \<or> d = AllowAlways | None \<Rightarrow> False)"

definition blocked_by_list :: "gate \<Rightarrow> string \<Rightarrow> bool" where
  "blocked_by_list g domain = (case blocklist g of Some bl \<Rightarrow> bl domain | None \<Rightarrow> False)"

text \<open>What the user or the policy must have said before a check succeeds.\<close>

definition may_connect :: "(DomainDecision \<times> string list) option \<Rightarrow> string \<Rightarrow> gate \<Rightarrow> bool" where
  "may_connect user domain g \<longleftrightarrow>
    domain \<in> set SYSTEM_ALLOWLIST_DOMAINS
    \<or> \<not> matches_domain_set (deny_always g) domain
      \<and> (matches_domain_set (allow_always g) domain \<or> \<not> blocked_by_list g domain \<and> user_allows user)"

lemma gate_check_prompt:
  assumes "board_inv (prompts g)" "check_begin domain port vm source g = (g1, Inr c)"
  shows "snd (gate_check user domain port vm source g) = user_allows user"
proof -
  obtain fresh where "subscribe_or_open Pending domain (prompts g) = (c, fresh, prompts g1)"
    using check_begin_Inr [OF assms(2)] by blast
  then have b: "board_inv (prompts g1)" "pending (prompts g1) domain = Some c"
    using board_inv_subscribe [OF assms(1)] by blast+
  have "wait_poll Pending (answer_prompt domain d (prompts g1)) c = Ready d" if "d \<noteq> Pending" for d
    using answer_reaches [OF b that] .
  moreover have "wait_poll Pending (answer_prompt domain Pending (prompts g1)) c = Closed"
    using b by (simp add: wait_poll_def answer_prompt_def board_inv_def Let_def)
  ultimately have "wait_for_decision (wait_poll Pending (answer_prompt domain d (prompts g1)) c)
      = (if d = Pending then Deny else d)" for d
    by simp
  moreover have "wait_poll Pending (prompts g1) c = Waiting"
    by (rule waiting_of_pending [OF b])
  ultimately show ?thesis
    by (auto simp: gate_check_def assms(2) user_allows_def check_end_def Let_def split: option.splits)
qed

lemma gate_check_spec:
  assumes "board_inv (prompts g)"
  shows "snd (gate_check user domain port vm source g) \<longleftrightarrow> may_connect user domain g"
proof (cases "check_begin domain port vm source g")
  case (Pair g1 r)
  show ?thesis
  proof (cases r)
    case (Inl b)
    then show ?thesis
      using Pair by (auto simp: gate_check_def check_begin_def may_connect_def blocked_by_list_def
          split: if_splits prod.splits option.splits)
  next
    case (Inr c)
    then show ?thesis
      using Pair gate_check_prompt [OF assms, of domain port vm source g1 c user]
      by (auto simp: check_begin_def may_connect_def blocked_by_list_def split: if_splits prod.splits)
  qed
qed


section \<open>What the handlers send\<close>

lemma choose_oauth_sent [simp]: "rp_sent (fst (choose_oauth e n del ah domain s)) = rp_sent s"
  by (simp add: choose_oauth_def set_keystore_def emit_def split: outcome.split OAuthDomainCheck.split)

lemma choose_mapped_sent [simp]: "rp_sent (fst (choose_mapped e a del ts auth domain s)) = rp_sent s"
  by (simp add: choose_mapped_def split: option.split prod.split)

lemma choose_auth_sent [simp]: "rp_sent (fst (choose_auth e auth domain s)) = rp_sent s"
  by (simp add: choose_auth_def emit_def Let_def split: prod.split option.split)

lemma delegate_sent [simp]: "rp_sent (fst (delegate e del acct auth domain s r)) = rp_sent s"
  by (simp add: delegate_def split: prod.split)

lemma authorize_cases:
  obtains (refused) s1 b where "choose_auth e auth domain s = (s1, Refuse b)" "authorize e auth domain s r = (s1, None)"
  | (delegated) s1 del acct where "choose_auth e auth domain s = (s1, Use del (Some acct))"
      "authorize e auth domain s r
        = (fst (delegate e del acct auth domain s1 r), Some (snd (delegate e del acct auth domain s1 r)))"
  | (plain) s1 del where "choose_auth e auth domain s = (s1, Use del None)"
      "authorize e auth domain s r
        = (s1, Some (if auth = None then inject_store_token e domain s1 (resolve_dummy e auth s1 r)
                     else resolve_dummy e auth s1 r))"
proof -
  obtain s1 ch where ch: "choose_auth e auth domain s = (s1, ch)"
    by fastforce
  show thesis
  proof (cases ch)
    case (Refuse b)
    then show thesis using ch refused by (simp add: authorize_def)
  next
    case (Use del a)
    then show thesis
      using ch delegated plain
      by (cases a) (simp_all add: authorize_def Let_def case_prod_unfold)
  qed
qed

lemma authorize_sent [simp]: "rp_sent (fst (authorize e auth domain s r)) = rp_sent s"
  using choose_auth_sent [of e auth domain s]
  by (cases rule: authorize_cases [of e auth domain s r]) simp_all

lemma limit_gate_sent [simp]: "rp_sent (fst (limit_gate e p s)) = rp_sent s"
  by (simp add: limit_gate_def split: option.split prod.split)

lemma account_usage_sent [simp]: "rp_sent (account_usage e domain lm st n ch s) = rp_sent s"
  by (simp add: account_usage_def log_and_warn_def Let_def split: option.split)

lemma forward_sent: "forward e domain lm n r s c = (s', c', x) \<Longrightarrow> rp_sent s' = rp_sent s @ [r]"
  by (auto simp: forward_def send_upstream_def Let_def split: option.splits prod.splits bool.splits)

lemma pass_gate_sent [simp]: "rp_sent (fst (pass_gate e domain port s)) = rp_sent s"
  by (simp add: pass_gate_def split: prod.split)

lemma pass_gate_spec:
  "board_inv (prompts (rp_gate s)) \<Longrightarrow>
    snd (pass_gate e domain port s)
      \<longleftrightarrow> is_allowed domain (rp_gate s) \<or> may_connect (e_domain_answer e) domain (rp_gate s)"
  using gate_check_spec [of "rp_gate s" "e_domain_answer e" domain port "rp_vm s" "''proxy''"]
  by (auto simp: pass_gate_def split: prod.split)

lemma handle_plain_sent:
  "handle_plain e host path req payload s c = (s', c', x) \<Longrightarrow>
    rp_sent s' = rp_sent s
    \<or> (\<exists>s1 r0 r body. \<not> snd (limit_gate e (check_provider (rp_llm s) (host_name host)
            (match_request (rp_llm s) (host_name host) path (req_headers req))) s)
        \<and> build_request (e_web e) (req_method req) (''https://'' @ host @ path)
            (without_headers [''host''] (req_headers req)) body = Some r0
        \<and> snd (authorize e (detect_auth_header (req_headers req)) (host_name host) s1 r0) = Some r
        \<and> rp_sent s' = rp_sent s @ [r])"
proof -
  assume h: "handle_plain e host path req payload s c = (s', c', x)"
  let ?d = "host_name host" and ?auth = "detect_auth_header (req_headers req)"
  let ?lm = "match_request (rp_llm s) ?d path (req_headers req)"
  obtain body c1 where b: "collect_body payload (body_offset req) (req_headers req) c = (body, c1)"
    by fastforce
  obtain s1 blocked where l: "limit_gate e (check_provider (rp_llm s) ?d ?lm) s = (s1, blocked)"
    by fastforce
  have s1: "rp_sent s1 = rp_sent s"
    using limit_gate_sent [of e "check_provider (rp_llm s) ?d ?lm" s] l by simp
  show ?thesis
  proof (cases "blocked \<or> build_request (e_web e) (req_method req) (''https://'' @ host @ path)
            (without_headers [''host''] (req_headers req)) body = None")
    case True
    then show ?thesis
      using h s1 by (cases blocked) (simp_all add: handle_plain_def b l Let_def)
  next
    case False
    then obtain r0 where r0: "\<not> blocked" "build_request (e_web e) (req_method req) (''https://'' @ host @ path)
            (without_headers [''host''] (req_headers req)) body = Some r0"
      by blast
    obtain s2 o2 where a: "authorize e ?auth ?d s1 r0 = (s2, o2)"
      by fastforce
    have s2: "rp_sent s2 = rp_sent s"
      using authorize_sent [of e ?auth ?d s1 r0] a s1 by simp
    show ?thesis
    proof (cases o2)
      case None
      then show ?thesis
        using h r0 s2 by (simp add: handle_plain_def b l a Let_def)
    next
      case (Some r)
      have "rp_sent s' = rp_sent s @ [r]"
        using h r0 s2 Some forward_sent [of e ?d ?lm "length body" r s2 c1 s' c' x]
        by (simp add: handle_plain_def b l a Let_def)
      then show ?thesis
        by (intro disjI2 exI [of _ s1] exI [of _ r0] exI [of _ r] exI [of _ body])
          (use l r0 a Some in \<open>simp_all del: append.simps\<close>)
    qed
  qed
qed

lemma handle_aws_route_sent:
  "handle_aws_route e route path req payload s c = (s', c', x) \<Longrightarrow>
    rp_sent s' = rp_sent s \<or> (\<exists>r. rp_sent s' = rp_sent s @ [r])"
  by (auto simp: handle_aws_route_def send_upstream_def Let_def
      split: option.splits prod.splits bool.splits if_splits)


section \<open>Properties\<close>

text \<open>A request the proxy forwards itself: not a control request, not an OAuth token request,
  not a tunnel.\<close>

definition plain_request :: "env \<Rightarrow> ParsedRequest \<Rightarrow> bool" where
  "plain_request e req \<longleftrightarrow> \<not> contains_str (req_path req) ''/__nilbox__/''
    \<and> \<not> (req_method req = ''POST'' \<and> find_by_token_path (d_providers (e_deleg e)) (req_path req) \<noteq> None)
    \<and> req_method req \<noteq> ''CONNECT''"






text \<open>when other tokens are mapped to the domain, an unanswered mismatch prompt lets an OAuth dummy
  through and its real token is sent, whatever domain the session is bound to.\<close>

theorem mismatch_timeout_leaks_bound_token:
  assumes "router_resolve (rp_router s) domain = (del, None)"
    and "tokens = merge_tokens (list_domain_tokens (rp_store s) domain)
           (fst (take_pending_tokens domain (rp_gate s)))"
    and "tokens \<noteq> []" "\<not> is_aws_tokens tokens" "''TELEGRAM_BOT_TOKEN'' \<notin> set tokens"
    and "ah_account ah \<notin> set tokens" "e_mismatch_answer e = None"
    and "board_inv (mismatch_prompts (rp_mismatch s))" "pending (mismatch_prompts (rp_mismatch s)) (e_mismatch_id e) = None"
    and "parse_dummy_access_token (e_codecs e) (ah_account ah) = Some (provider, session)"
    and "load_session (e_codecs e) (rp_keystore s) provider session = Some ses"
    and "header_value_ok (e_web e) (ah_prefix ah @ access_token ses)"
  shows "map_option (\<lambda>r'. hget (o_headers r') (ah_name ah)) (snd (authorize e (Some ah) domain s r))
    = Some (Some (ah_prefix ah @ access_token ses))"
proof -
  obtain pend g where p: "take_pending_tokens domain (rp_gate s) = (pend, g)"
    by fastforce
  let ?s = "s\<lparr>rp_gate := g\<rparr>"
  obtain m pass where m: "mismatch_check (e_mismatch_id e) None domain (ah_account ah) tokens (rp_mismatch ?s) = (m, pass)"
    by fastforce
  have "pass"
    using mismatch_check_result [OF assms(8,9), of None domain "ah_account ah" tokens] m by simp
  then have c: "choose_auth e (Some ah) domain s = (?s\<lparr>rp_mismatch := m\<rparr>, Use del None)"
    using assms(1-7) m p by (simp add: choose_auth_def choose_mapped_def Let_def)
  have "is_dummy_access_token (e_codecs e) (ah_account ah)"
    "resolve_access_token (e_codecs e) (rp_keystore s) (ah_account ah) = Ok (Some (access_token ses))"
    using assms(10,11)
    by (auto simp: is_dummy_access_token_def resolve_access_token_def load_session_def
        split: outcome.splits option.splits)
  then show ?thesis
    using assms(12) c by (simp add: authorize_def resolve_dummy_def)
qed

text \<open>a domain in both lists: \<open>DomainGate::check\<close> denies it, the request path never asks.\<close>

theorem allow_list_shadows_deny_list:
  assumes "board_inv (prompts (rp_gate s))" "is_allowed domain (rp_gate s)"
    and "matches_domain_set (deny_always (rp_gate s)) domain" "domain \<notin> set SYSTEM_ALLOWLIST_DOMAINS"
  shows "pass_gate e domain port s = (s, True)
    \<and> \<not> snd (gate_check (e_domain_answer e) domain port (rp_vm s) ''proxy'' (rp_gate s))"
  using assms gate_check_spec [OF assms(1), of "e_domain_answer e" domain port "rp_vm s" "''proxy''"]
  by (simp add: pass_gate_def may_connect_def)

lemma limit_loop_blocked:
  "fst (limit_loop now db vm pids) \<longleftrightarrow> (\<exists>p \<in> set pids. fst (check_pre_request now db vm p) \<noteq> None)"
proof (induction pids)
  case (Cons p ps)
  have "res_action r = ''block''" if "check_pre_request now db vm p = (Some r, evs)" for r evs
    using that by (auto simp: check_pre_request_def split: option.splits if_splits)
  then show ?case
    using Cons by (auto split: prod.splits option.splits)
qed simp

text \<open>over a blocking limit of the provider or of "*", the VM gets 429, nothing is sent, no key is
  read and no usage is recorded.\<close>

theorem limit_blocks_request:
  assumes "check_provider (rp_llm s) (host_name host)
      (match_request (rp_llm s) (host_name host) path (req_headers req)) = Some p"
    and "fst (check_pre_request (e_clock e) (rp_usage s) (rp_vm s) q) \<noteq> None" "q = p \<or> q = ''*''"
    and "room c = None"
  shows "\<exists>evs c1. handle_plain e host path req payload s c
      = (s\<lparr>rp_limit_events := rp_limit_events s @ evs\<rparr>, c1, Ok ())
    \<and> outbox c1 = outbox c @ [str_bytes LIMIT_HEAD, str_bytes LIMIT_BODY] \<and> shut c1"
proof -
  have "fst (limit_loop (e_clock e) (rp_usage s) (rp_vm s) [p, ''*''])"
    unfolding limit_loop_blocked using assms(2,3) by auto
  then obtain evs where "limit_loop (e_clock e) (rp_usage s) (rp_vm s) [p, ''*''] = (True, evs)"
    by (metis (full_types) prod.collapse)
  then have "limit_gate e (Some p) s = (s\<lparr>rp_limit_events := rp_limit_events s @ evs\<rparr>, True)"
    by (simp add: limit_gate_def del: limit_loop.simps)
  moreover obtain body rest where "read_body (content_length_of (req_headers req)) (drop (body_offset req) payload) (inbox c)
      = (body, rest)"
    by fastforce
  ultimately show ?thesis
    using assms(1,4) by (auto simp: handle_plain_def collect_body_def cwrite_def Let_def)
qed

lemma write_chunks_fails: "room c = Some n \<Longrightarrow> n < length bs \<Longrightarrow> \<exists>c'. write_chunks bs c = (False, c')"
proof (induction bs arbitrary: c n)
  case (Cons b bs)
  then show ?case
    by (cases n) (auto simp: cwrite_def)
qed simp

text \<open>a VM that stops reading before the response is complete uses the provider without any usage
  being recorded.\<close>

theorem aborted_response_not_accounted:
  assumes "e_execute e r = Some u" "room c = Some n" "n \<le> length (u_chunks u)"
  shows "\<exists>c'. forward e domain lm len r s c = (s\<lparr>rp_sent := rp_sent s @ [r]\<rparr>, c', Err WriteFailed)"
proof (cases n)
  case 0
  then show ?thesis
    using assms by (simp add: forward_def send_upstream_def cwrite_def)
next
  case (Suc k)
  then have "\<exists>c2. write_chunks (u_chunks u) (snd (cwrite (str_bytes (response_head (e_web e) u)) c)) = (False, c2)"
    using assms by (intro write_chunks_fails [of _ k]) (auto simp: cwrite_def)
  then show ?thesis
    using assms Suc by (auto simp: forward_def send_upstream_def cwrite_def)
qed

text \<open>when a delegator fails, or the user cancels, the auth header the VM sent does not go out.\<close>

theorem failed_delegation_strips_header:
  assumes "choose_auth e (Some ah) domain s = (s1, Use del (Some acct))"
    and "apply_auth (e_deleg e) del (rp_store s1) domain acct (rp_keys s1) r = (g, r1, False)"
    and "snd (authorize e (Some ah) domain s r) = Some r'"
  shows "hget (o_headers r') (ah_name ah) = None"
  using assms by (auto simp: authorize_def delegate_def)



section \<open>A concrete proxy\<close>

definition sample_web :: web where
  "sample_web = \<lparr>http_parse = (\<lambda>_. Complete 0 (Some ''GET'') (Some ''/'') [(''Host'', str_bytes ''a.b'')]),
     header_name_ok = (\<lambda>_. True), header_value_ok = (\<lambda>_. True), header_to_str = Some, method_parse = Some,
     url_parse = Some, url_host = (\<lambda>_. None), url_port = (\<lambda>_. None), url_path = (\<lambda>u. u),
     url_set_path = (\<lambda>u p. p), url_query = (\<lambda>_. None), url_query_pairs = (\<lambda>_. [])\<rparr>"

definition sample_deleg :: deleg_env where
  "sample_deleg = \<lparr>d_codecs = sample_codecs, d_web = sample_web,
     d_aws = \<lparr>sha256 = (\<lambda>b. b), hmac_sha256 = (\<lambda>k b. b), date_stamp = [], amz_date = []\<rparr>,
     d_providers = [], d_key_answer = None\<rparr>"

definition sample_upstream :: upstream where
  "sample_upstream = \<lparr>u_status = 200, u_reason = None, u_headers = [], u_length = None, u_chunks = [[1]], u_ok = True\<rparr>"

definition sample_env :: env where
  "sample_env = \<lparr>e_deleg = sample_deleg, e_execute = (\<lambda>_. Some sample_upstream), e_domain_answer = None,
     e_mismatch_id = ''m'', e_mismatch_answer = None, e_clock = sample_clock, e_now = 0, e_millis = 0, e_uuid = ''u'',
     e_ipv6 = (\<lambda>_. None), e_port_free = (\<lambda>_. True), e_browser_ok = (\<lambda>_. True),
     e_rewrite_auth_url = (\<lambda>_ _ _. None)\<rparr>"

definition sample_rp :: "string list \<Rightarrow> string list \<Rightarrow> (string \<times> string) list \<Rightarrow> keys \<Rightarrow> rp" where
  "sample_rp allow deny toks ks = \<lparr>rp_vm = ''vm'',
     rp_gate = (gate_new store_empty)\<lparr>allow_always := allow, deny_always := deny,
       config_store := store_empty\<lparr>domain_token_accounts := toks\<rparr>\<rparr>,
     rp_mismatch = mismatch_gate_new, rp_keys = api_key_gate_new ks,
     rp_router = \<lparr>routes = [], default_delegator = Bearer True\<rparr>, rp_llm = [], rp_usage = usage_empty,
     rp_limit_events = [], rp_aws_routes = [], rp_store_token = None, rp_gateway = gateway_new,
     rp_opened = Map.empty, rp_browser = [], rp_events = [], rp_activity = [], rp_sent = [], rp_tunnels = []\<rparr>"

definition sample_conn :: conn where
  "sample_conn = \<lparr>inbox = [[]], outbox = [], room = None, shut = False\<rparr>"

lemmas sample_proxy_defs = sample_web_def sample_deleg_def sample_env_def sample_rp_def sample_conn_def
  sample_upstream_def gate_new_def store_empty_def mismatch_gate_new_def api_key_gate_new_def usage_empty_def

definition sample_req :: ParsedRequest where
  "sample_req = \<lparr>req_method = ''GET'', req_path = ''/'', req_headers = [(''host'', ''a.b'')], body_offset = 0\<rparr>"

lemma lower_host: "to_lowercase ''Host'' = ''host''"
  by code_simp

lemma sample_parse: "parse_request_headers (e_web sample_env) p = Ok sample_req"
  by (simp add: lower_host sample_proxy_defs sample_req_def parse_request_headers_def insert_header_def hinsert_def
      hremove_def from_utf8_lossy_def lossy_utf8_valid ascii_rust_string [unfolded rust_string_def] is_ascii_def)

lemma sample_run:
  "handle_request connect sample_env (sample_rp [''a.b''] [] [] []) sample_conn
    = handle_plain sample_env ''a.b'' ''/'' sample_req [] (sample_rp [''a.b''] [] [] []) (sample_conn\<lparr>inbox := []\<rparr>)"
  by (simp add: handle_request_def sample_parse sample_conn_def sample_req_def target_host_def hget_def
      host_name_def IMDS_def pass_gate_def is_allowed_def sample_rp_def matches_domain_set_def strip_origin_def
      strip_prefix_def find_aws_proxy_route_def Let_def)



text \<open>A session of \<open>sample_codecs\<close> bound to \<open>a.b\<close>, used on another domain.\<close>

definition sample_ah :: AuthHeader where
  "sample_ah = \<lparr>ah_name = ''authorization'', ah_prefix = ''Bearer '', ah_account = ''nilbox_oat:google:u1''\<rparr>"

definition bound_keys :: keys where
  "bound_keys = [(''OAUTH_TOKEN:google:u1'', ''b'')]"

lemma sample_dummy:
  "parse_dummy_access_token (e_codecs sample_env) (ah_account sample_ah) = Some (''google'', ''u1'')"
  by (simp add: sample_env_def sample_deleg_def sample_ah_def sample_vault_defs parse_dummy_access_token_def
      extract_nilbox_jwt_session_def parse_dummy_token_def ACCESS_PREFIX_def strip_prefix_def split3_def)

lemma sample_bound_session:
  "load_session (e_codecs sample_env) bound_keys ''google'' ''u1'' = Some (sample_session\<lparr>allowed_domain := Some ''a.b''\<rparr>)"
  by (simp add: sample_env_def sample_deleg_def bound_keys_def load_session_def account_of_def KEYSTORE_PREFIX_def
      ks_get_def sample_codecs_def)

lemma sample_route: "router_resolve (rp_router (sample_rp al dn tk ks)) d = (Bearer True, None)"
  by (simp add: sample_rp_def router_resolve_def)


definition sample_out :: out_request where
  "sample_out = \<lparr>o_method = ''GET'', o_url = ''https://x.y/'',
     o_headers = [(''authorization'', ''Bearer nilbox_oat:google:u1'')], o_body = None\<rparr>"


theorem mismatch_timeout_leaks_bound_token_witness:
  "map_option (\<lambda>r'. hget (o_headers r') (ah_name sample_ah))
      (snd (authorize sample_env (Some sample_ah) ''x.y'' (sample_rp [''x.y''] [] [(''x.y'', ''KEY'')] bound_keys) sample_out))
    = Some (Some (ah_prefix sample_ah @ access_token (sample_session\<lparr>allowed_domain := Some ''a.b''\<rparr>)))"
proof (rule mismatch_timeout_leaks_bound_token [OF sample_route refl _ _ _ _ _ _ _ sample_dummy])
  show "load_session (e_codecs sample_env) (rp_keystore (sample_rp [''x.y''] [] [(''x.y'', ''KEY'')] bound_keys))
      ''google'' ''u1'' = Some (sample_session\<lparr>allowed_domain := Some ''a.b''\<rparr>)"
    using sample_bound_session by (simp add: sample_rp_def api_key_gate_new_def)
qed (simp_all add: sample_rp_def gate_new_def store_empty_def list_domain_tokens_def tokens_of_def
    merge_tokens_def take_pending_tokens_def is_aws_tokens_def sample_ah_def sample_env_def sample_deleg_def
    sample_web_def mismatch_gate_new_def board_empty_def board_inv_def)

theorem allow_list_shadows_deny_list_witness:
  "pass_gate sample_env ''a.b'' 80 (sample_rp [''a.b''] [''a.b''] [] []) = (sample_rp [''a.b''] [''a.b''] [] [], True)
    \<and> \<not> snd (gate_check (e_domain_answer sample_env) ''a.b'' 80 (rp_vm (sample_rp [''a.b''] [''a.b''] [] [])) ''proxy''
          (rp_gate (sample_rp [''a.b''] [''a.b''] [] [])))"
  by (rule allow_list_shadows_deny_list)
    (simp_all add: sample_rp_def gate_new_def is_allowed_def matches_domain_set_def SYSTEM_ALLOWLIST_DOMAINS_def)

theorem aborted_response_not_accounted_witness:
  "\<exists>c'. forward sample_env ''a.b'' None 0 sample_out (sample_rp [] [] [] []) (sample_conn\<lparr>room := Some 1\<rparr>)
    = ((sample_rp [] [] [] [])\<lparr>rp_sent := rp_sent (sample_rp [] [] [] []) @ [sample_out]\<rparr>, c', Err WriteFailed)"
  by (rule aborted_response_not_accounted [of _ _ sample_upstream _ 1])
    (simp_all add: sample_env_def sample_conn_def sample_upstream_def)

text \<open>The key of an allowed domain is missing and the user does not answer.\<close>

theorem failed_delegation_strips_header_witness:
  "\<exists>r'. snd (authorize sample_env (Some (sample_ah\<lparr>ah_account := ''KEY''\<rparr>)) ''x.y''
      (sample_rp [''x.y''] [] [(''x.y'', ''KEY'')] []) (sample_out\<lparr>o_headers := [(''authorization'', ''Bearer KEY'')]\<rparr>)) = Some r'
    \<and> hget (o_headers r') (ah_name (sample_ah\<lparr>ah_account := ''KEY''\<rparr>)) = None"
proof -
  let ?s = "sample_rp [''x.y''] [] [(''x.y'', ''KEY'')] []" and ?ah = "sample_ah\<lparr>ah_account := ''KEY''\<rparr>"
  let ?r = "sample_out\<lparr>o_headers := [(''authorization'', ''Bearer KEY'')]\<rparr>"
  let ?s1 = "?s\<lparr>rp_gate := snd (take_pending_tokens ''x.y'' (rp_gate ?s))\<rparr>"
  have ch: "choose_auth sample_env (Some ?ah) ''x.y'' ?s = (?s1, Use (Bearer True) (Some ''KEY''))"
    by (simp add: choose_auth_def sample_route choose_mapped_def take_pending_tokens_def is_aws_tokens_def Let_def)
      (simp add: sample_rp_def gate_new_def store_empty_def list_domain_tokens_def tokens_of_def merge_tokens_def
        sample_ah_def)
  have nodummy: "\<not> is_dummy_access_token sample_codecs ''KEY''"
    by (simp add: is_dummy_access_token_def sample_vault_defs parse_dummy_access_token_def
      extract_nilbox_jwt_session_def parse_dummy_token_def ACCESS_PREFIX_def strip_prefix_def split3_def)
  have "\<exists>g. apply_auth (e_deleg sample_env) (Bearer True) (rp_store ?s1) ''x.y'' ''KEY'' (rp_keys ?s1) ?r = (g, ?r, False)"
    by (simp add: apply_auth_def bearer_apply_auth_def bearer_apply_key_def sample_env_def sample_out_def header_text_def
        bearer_token_def strip_prefix_def nodummy hget_def sample_web_def)
      (simp add: sample_deleg_def sample_rp_def sample_web_def api_key_gate_new_def get_or_prompt_def
        get_or_prompt_begin_def ks_get_def subscribe_or_open_def board_empty_def open_prompt_def wait_poll_def
        get_or_prompt_end_def Let_def nodummy)
  then obtain g where "apply_auth (e_deleg sample_env) (Bearer True) (rp_store ?s1) ''x.y'' ''KEY'' (rp_keys ?s1) ?r
      = (g, ?r, False)"
    by blast
  then show ?thesis
    using failed_delegation_strips_header [OF ch] ch by (auto simp: authorize_def split: prod.split)
qed


definition sample_llm :: LlmProvider where
  "sample_llm = \<lparr>provider_id = ''openai'', domain_pattern = ''a.b'', path_prefix = None, request_token_field = None,
     response_token_field = None, model_field = None, enabled = True, extra_domains = []\<rparr>"

definition limited_rp :: rp where
  "limited_rp = (sample_rp [''a.b''] [] [] [])\<lparr>rp_llm := [sample_llm],
     rp_usage := upsert_token_limit (sample_limit ''daily'' ''block'') sample_usage\<rparr>"

theorem limit_blocks_request_witness:
  "\<exists>evs c1. handle_plain sample_env ''a.b'' ''/'' sample_req [] limited_rp sample_conn
      = (limited_rp\<lparr>rp_limit_events := rp_limit_events limited_rp @ evs\<rparr>, c1, Ok ())
    \<and> outbox c1 = outbox sample_conn @ [str_bytes LIMIT_HEAD, str_bytes LIMIT_BODY] \<and> shut c1"
proof (rule limit_blocks_request [where p = "''openai''" and q = "''openai''"])
  have "llm_domain_matches ''a.b'' ''a.b''"
    by (simp add: llm_domain_matches_def strip_prefix_def)
  then show "check_provider (rp_llm limited_rp) (host_name ''a.b'')
      (match_request (rp_llm limited_rp) (host_name ''a.b'') ''/'' (req_headers sample_req)) = Some ''openai''"
    by (simp add: check_provider_def limited_rp_def sample_llm_def match_request_def provider_hit_def domain_hit_def
        host_name_def)
  show "fst (check_pre_request (e_clock sample_env) (rp_usage limited_rp) (rp_vm limited_rp) ''openai'') \<noteq> None"
    by (simp add: limited_rp_def sample_env_def sample_rp_def check_pre_request_def check_token_limit_def
        sample_usage_defs)
qed (simp_all add: sample_conn_def)

end
