(* ===== verification/Inspect.thy ===== *)
theory Inspect
  imports Reverse_Proxy
begin

text \<open>
  Tunnels: \<open>handle_connect\<close> (\<open>proxy/forward_proxy.rs\<close>), which asks the gate and then
  either opens a raw tunnel or terminates TLS, and \<open>handle_inspect_connect\<close>
  (\<open>proxy/inspect.rs\<close>), which handles one plaintext request inside the tunnel.
  \<open>tls_env\<close> holds the TLS handshake (the plaintext chunks of the VM, or a failure),
  TCP connects and the decompressors.  The response's \<open>Content-Encoding\<close> is read
  from its headers instead of from the head text built from them.
\<close>

section \<open>Environment\<close>

record tls_env =
  t_accept :: "string \<Rightarrow> conn \<Rightarrow> bytes list option"
  t_connect :: "string \<Rightarrow> bool"
  t_gunzip :: "bytes \<Rightarrow> bytes option"
  t_unbrotli :: "bytes \<Rightarrow> bytes option"

definition ESTABLISHED :: string where
  "ESTABLISHED = ''HTTP/1.1 200 Connection Established'' @ crlf @ crlf"

definition INSPECT_403 :: "bool \<Rightarrow> string" where
  "INSPECT_403 oauth = ''HTTP/1.1 403 Forbidden'' @ crlf @ (if oauth then ''Content-Length: 0'' @ crlf else [])
     @ ''Connection: close'' @ crlf @ crlf"


section \<open>Auth inside the tunnel\<close>

text \<open>\<open>gated\<close>: the context carries the gate (the domain was not allowed beforehand).\<close>

definition inspect_choose_auth :: "env \<Rightarrow> bool \<Rightarrow> AuthHeader option \<Rightarrow> string \<Rightarrow> rp \<Rightarrow> rp \<times> auth_choice" where
  "inspect_choose_auth e gated auth domain s =
    (case router_resolve (rp_router s) domain of
       (del, Some acct) \<Rightarrow> (s, Use del (Some acct))
     | (del, None) \<Rightarrow>
         (let (pend, g) = (if gated then take_pending_tokens domain (rp_gate s) else ([], rp_gate s));
              tokens = merge_tokens (list_domain_tokens (rp_store s) domain) pend;
              s1 = s\<lparr>rp_gate := g\<rparr>
          in if tokens \<noteq> [] then choose_mapped e (AwsSigV4 (Some tokens)) del tokens auth domain s1
             else (case auth of
                     None \<Rightarrow> (s1, Use del None)
                   | Some ah \<Rightarrow>
                       if is_dummy_access_token (e_codecs e) (ah_account ah)
                       then choose_oauth e True del ah domain s1
                       else (emit (DomainEnvMissing domain (ah_account ah)) s1, Use del None))))"

definition inspect_resolve_dummy :: "env \<Rightarrow> rp \<Rightarrow> out_request \<Rightarrow> out_request" where
  "inspect_resolve_dummy e s r =
    (case header_text (e_web e) r ''authorization'' of
       None \<Rightarrow> r
     | Some v \<Rightarrow>
         (case bearer_token v of
            None \<Rightarrow> r
          | Some token \<Rightarrow>
              if is_dummy_access_token (e_codecs e) token
              then (case resolve_access_token (e_codecs e) (rp_keystore s) token of
                      Ok (Some secret) \<Rightarrow>
                        if header_value_ok (e_web e) (bearer_or_token v @ secret)
                        then r\<lparr>o_headers := hinsert ''authorization'' (bearer_or_token v @ secret) (o_headers r)\<rparr> else r
                    | _ \<Rightarrow> r)
              else r))"

definition inspect_authorize :: "env \<Rightarrow> bool \<Rightarrow> AuthHeader option \<Rightarrow> string \<Rightarrow> rp \<Rightarrow> out_request
    \<Rightarrow> rp \<times> (bool + (delegator \<times> string option \<times> out_request))" where
  "inspect_authorize e gated auth domain s r =
    (case inspect_choose_auth e gated auth domain s of
       (s1, Refuse oauth) \<Rightarrow> (s1, Inl oauth)
     | (s1, Use del None) \<Rightarrow> (s1, Inr (del, None, inspect_resolve_dummy e s1 r))
     | (s1, Use del (Some acct)) \<Rightarrow>
         (case delegate e del acct auth domain s1 r of (s2, r2) \<Rightarrow> (s2, Inr (del, Some acct, r2))))"

definition blocked_usage :: TokenUsageData where
  "blocked_usage = \<lparr>request_tokens = 0, response_tokens = 0, total_tokens = 0, model = None, confidence = ''blocked''\<rparr>"


section \<open>OAuth token requests inside the tunnel\<close>

text \<open>
  Replace dummy refresh tokens in form parameters.  With \<open>named\<close> only the parameter
  \<open>refresh_token\<close> is looked at and an unknown dummy stays; otherwise it is blanked.
  Also the last dummy seen and whether one was resolved.
\<close>

fun subst_refresh :: "codecs \<Rightarrow> keys \<Rightarrow> bool \<Rightarrow> (string \<times> string) list
    \<Rightarrow> (string \<times> string) list \<times> string option \<times> bool" where
  "subst_refresh k ks named [] = ([], None, False)"
| "subst_refresh k ks named ((n, v) # ps) =
    (case subst_refresh k ks named ps of (ps', d, ch) \<Rightarrow>
      if is_dummy_refresh_token v \<and> (named \<longrightarrow> n = ''refresh_token'')
      then (case resolve_refresh_token k ks v of
              Ok (Some t) \<Rightarrow> ((n, t) # ps', if d = None then Some v else d, True)
            | _ \<Rightarrow> ((n, if named then v else []) # ps', if d = None then Some v else d, ch))
      else ((n, v) # ps', d, ch))"

record oauth_match =
  om_request :: out_request
  om_provider :: "string option"
  om_dummy :: "string option"

definition set_form_body :: "codecs \<Rightarrow> (string \<times> string) list \<Rightarrow> out_request \<Rightarrow> out_request" where
  "set_form_body k ps r =
    (let body = form_serialize k ps
     in r\<lparr>o_headers := hinsert ''content-length'' (nat_digits (length body)) (o_headers r), o_body := Some body\<rparr>)"

text \<open>After a scripted delegator: name the provider, resolve the refresh token.\<close>

definition match_scripted :: "env \<Rightarrow> keys \<Rightarrow> string \<Rightarrow> delegator \<Rightarrow> string option \<Rightarrow> out_request \<Rightarrow> oauth_match" where
  "match_scripted e ks meth del acct r =
    (let prov = (if del = ScriptedOAuth then Option.bind acct (scripted_provider (d_providers (e_deleg e))) else None)
     in case (if del = ScriptedOAuth \<and> meth = ''POST'' then o_body r else None) of
          None \<Rightarrow> \<lparr>om_request = r, om_provider = map_option prov_name prov, om_dummy = None\<rparr>
        | Some body \<Rightarrow>
            (case subst_refresh (e_codecs e) ks True (form_parse (e_codecs e) body) of (ps, d, ch) \<Rightarrow>
              \<lparr>om_request = (if ch then set_form_body (e_codecs e) ps r else r),
               om_provider = map_option prov_name prov, om_dummy = d\<rparr>))"

fun first_credentials :: "codecs \<Rightarrow> keys \<Rightarrow> (string \<times> string) list \<Rightarrow> string list \<Rightarrow> (string \<times> string) list option" where
  "first_credentials k ks extraction [] = None"
| "first_credentials k ks extraction (a # as) =
    (case Option.bind (Option.bind (ok_opt (ks_get ks a)) (secret_document k)) (\<lambda>doc. extract_values doc extraction) of
       Some vals \<Rightarrow> Some vals
     | None \<Rightarrow> first_credentials k ks extraction as)"

definition fill_placeholder :: "OAuthProvider \<Rightarrow> (string \<times> string) list \<Rightarrow> string \<Rightarrow> string" where
  "fill_placeholder p vals v =
    foldl (\<lambda>x (n, secret). if x = placeholder_prefix p @ ''_'' @ n then secret else x) v vals"

text \<open>Placeholders in a POST body, whatever the URL.\<close>

definition match_placeholders :: "env \<Rightarrow> keys \<Rightarrow> string \<Rightarrow> oauth_match \<Rightarrow> oauth_match" where
  "match_placeholders e ks meth om =
    (case (if meth = ''POST'' then o_body (om_request om) else None) of
       None \<Rightarrow> om
     | Some body \<Rightarrow>
         (let txt = from_utf8_lossy body in
          if \<not> contains_str txt ''NILBOX_OAUTH_'' then om
          else (case find (\<lambda>p. contains_str txt (placeholder_prefix p)) (d_providers (e_deleg e)) of
                  None \<Rightarrow> om
                | Some p \<Rightarrow>
                    (case placeholder_extraction p of
                       None \<Rightarrow> om
                     | Some extraction \<Rightarrow>
                         if extraction = [] then om
                         else (case first_credentials (e_codecs e) ks extraction [token_path p, ''oauth:'' @ prov_name p] of
                                 None \<Rightarrow> om
                               | Some vals \<Rightarrow>
                                   (case subst_refresh (e_codecs e) ks False
                                           (map (\<lambda>(n, v). (n, fill_placeholder p vals v)) (form_parse (e_codecs e) body)) of
                                      (ps, d, ch) \<Rightarrow>
                                        \<lparr>om_request = (om_request om)\<lparr>o_body := Some (form_serialize (e_codecs e) ps)\<rparr>,
                                         om_provider = Some (prov_name p), om_dummy = d\<rparr>))))))"

text \<open>PKCE: token endpoint domain and path.\<close>

definition match_pkce :: "env \<Rightarrow> keys \<Rightarrow> string \<Rightarrow> ParsedRequest \<Rightarrow> oauth_match \<Rightarrow> oauth_match" where
  "match_pkce e ks domain req om =
    (if om_provider om \<noteq> None \<or> req_method req \<noteq> ''POST'' then om
     else (case find_by_token_domain_and_path (d_providers (e_deleg e)) domain (req_path req) of
             None \<Rightarrow> om
           | Some p \<Rightarrow>
               if flow_type p \<noteq> ''pkce''
                  \<or> \<not> is_token_exchange_request p
                       (case o_body (om_request om) of Some b \<Rightarrow> form_params (e_codecs e) b | None \<Rightarrow> Map.empty)
               then om
               else (case o_body (om_request om) of
                       None \<Rightarrow> om\<lparr>om_provider := Some (prov_name p)\<rparr>
                     | Some body \<Rightarrow>
                         (case subst_refresh (e_codecs e) ks False (form_parse (e_codecs e) body) of (ps, d, ch) \<Rightarrow>
                           \<lparr>om_request = (if ch then set_form_body (e_codecs e) ps (om_request om) else om_request om),
                            om_provider = Some (prov_name p), om_dummy = d\<rparr>))))"

definition inspect_cached :: "env \<Rightarrow> keys \<Rightarrow> oauth_match \<Rightarrow> bytes option" where
  "inspect_cached e ks om =
    (case Option.bind (om_provider om) (get_provider (d_providers (e_deleg e))) of
       None \<Rightarrow> None
     | Some p \<Rightarrow> cached_response e ks (om_dummy om) (token_response_fields p))"

text \<open>An OAuth authorize page: map the callback port, and open the host browser when the
  request carries a \<open>state\<close>.\<close>

definition oauth_authorize_hook :: "env \<Rightarrow> string \<Rightarrow> string \<Rightarrow> rp \<Rightarrow> rp" where
  "oauth_authorize_hook e meth url s =
    (case (if meth = ''GET'' then url_parse (e_web e) url else None) of
       None \<Rightarrow> s
     | Some u \<Rightarrow>
         (let segs = split_str (CHR ''/'') (url_path (e_web e) u);
              pairs = url_query_pairs (e_web e) u;
              code = (''response_type'', ''code'') \<in> set pairs;
              st = ''state'' \<in> fst ` set pairs
          in if (''authorize'' \<in> set segs \<or> ''auth'' \<in> set segs) \<and> code
             then (case extract_redirect_port (e_web e) (e_ipv6 e) url of
                     None \<Rightarrow> s
                   | Some port \<Rightarrow>
                       s\<lparr>rp_gateway := fst (add_mapping (e_port_free e) (rp_vm s) port port (rp_gateway s)),
                         rp_browser := rp_browser s @ (if st then [url] else [])\<rparr>)
             else s))"


section \<open>Responses inside the tunnel\<close>

definition response_provider :: "env \<Rightarrow> string \<Rightarrow> string \<Rightarrow> string \<Rightarrow> oauth_match \<Rightarrow> (OAuthProvider \<times> bool) option" where
  "response_provider e domain path url om =
    (let ps = d_providers (e_deleg e) in
     case Option.bind (om_provider om) (get_provider ps) of
       Some p \<Rightarrow> Some (p, True)
     | None \<Rightarrow>
         (case (case find_by_token_domain_and_path ps domain path of
                  Some p \<Rightarrow> Some p
                | None \<Rightarrow> (case find_by_token_path ps path of Some p \<Rightarrow> Some p | None \<Rightarrow> find_by_token_path ps url)) of
            Some p \<Rightarrow> if flow_type p \<noteq> ''pkce'' then Some (p, False) else None
          | None \<Rightarrow> None))"

definition content_encoding :: "web \<Rightarrow> upstream \<Rightarrow> string option" where
  "content_encoding w u =
    map_option (\<lambda>v. to_lowercase (trim (takeWhile (\<lambda>ch. ch \<noteq> CHR '':'')
        (case header_to_str w v of Some t \<Rightarrow> t | None \<Rightarrow> []))))
      (hget (u_headers u) ''content-encoding'')"

definition decompressed :: "tls_env \<Rightarrow> web \<Rightarrow> upstream \<Rightarrow> bytes \<Rightarrow> bytes option" where
  "decompressed t w u raw =
    (case content_encoding w u of
       Some enc \<Rightarrow> if enc = ''gzip'' then t_gunzip t raw else if enc = ''br'' then t_unbrotli t raw else None
     | None \<Rightarrow> None)"

definition content_type :: "web \<Rightarrow> upstream \<Rightarrow> string option" where
  "content_type w u = Option.bind (hget (u_headers u) ''content-type'') (header_to_str w)"

definition looks_like_token :: "web \<Rightarrow> upstream \<Rightarrow> bytes \<Rightarrow> bool" where
  "looks_like_token w u body \<longleftrightarrow>
    (case body of b # _ \<Rightarrow> b = 0x7B | [] \<Rightarrow> False)
    \<or> (let ct = (case content_type w u of Some c \<Rightarrow> c | None \<Rightarrow> ''(unknown)'')
       in contains_str ct ''json'' \<or> contains_str ct ''form-urlencoded'')"

text \<open>The body for the VM, the headers of the head, and the state.\<close>

definition inspect_intercept ::
  "tls_env \<Rightarrow> env \<Rightarrow> string \<Rightarrow> ParsedRequest \<Rightarrow> string \<Rightarrow> oauth_match \<Rightarrow> upstream \<Rightarrow> rp \<Rightarrow> rp \<times> bytes \<times> headers" where
  "inspect_intercept t e domain req url om u s =
    (let raw = concat (u_chunks u) in
     case (if u_status u = 200 \<and> req_method req = ''POST'' then response_provider e domain (req_path req) url om else None) of
       None \<Rightarrow> (s, raw, u_headers u)
     | Some (p, by_cred) \<Rightarrow>
         (let dec = decompressed t (e_web e) u raw; body = (case dec of Some d \<Rightarrow> d | None \<Rightarrow> raw) in
          if \<not> by_cred \<and> \<not> looks_like_token (e_web e) u body then (s, raw, u_headers u)
          else (case intercept_token_response (e_codecs e) (e_now e) (e_uuid e) (rp_keystore s) (prov_name p) (rp_vm s)
                       body (token_response_fields p) (existing_uuid (om_dummy om)) (cross_domains p) of
                  (Ok modified, ks) \<Rightarrow>
                    (emit (OauthSessionUpdated (rp_vm s) (prov_name p)) (set_keystore ks s), modified,
                     if dec = None then u_headers u else without_headers [''content-encoding''] (u_headers u))
                | (_, ks) \<Rightarrow> (set_keystore ks s, raw, u_headers u))))"

definition body_is_sse :: "bytes \<Rightarrow> bool" where
  "body_is_sse body \<longleftrightarrow> starts_with body (str_bytes ''event: '') \<or> starts_with body (str_bytes ''data: '')"

definition inspect_forward ::
  "tls_env \<Rightarrow> env \<Rightarrow> string \<Rightarrow> ParsedRequest \<Rightarrow> string \<Rightarrow> LlmProviderMatch option \<Rightarrow> nat \<Rightarrow> nat \<Rightarrow> oauth_match
    \<Rightarrow> rp \<Rightarrow> conn \<Rightarrow> handled" where
  "inspect_forward t e domain req url lm req_len first_len om s c =
    (let r = (if om_provider om = None then om_request om
              else (om_request om)\<lparr>o_headers := hremove ''accept-encoding'' (o_headers (om_request om))\<rparr>) in
     case send_upstream e r s of
       (s1, None) \<Rightarrow> (s1, reply (''HTTP/1.1 502 Bad Gateway'' @ crlf @ ''Connection: close'' @ crlf @ crlf) c, Ok ())
     | (s1, Some u) \<Rightarrow>
         if \<not> u_ok u then (s1, c, Err ReadFailed)
         else (case inspect_intercept t e domain req url om u s1 of (s2, body, hs) \<Rightarrow>
                (let s3 = account_usage e domain lm (is_event_stream (e_web e) u \<or> body_is_sse body) req_len [body] s2;
                     head = oauth_response_head (e_web e) (u\<lparr>u_headers := hs\<rparr>) (length body)
                 in case write_chunks [str_bytes head, body] c of
                      (False, c1) \<Rightarrow> (s3, c1, Err WriteFailed)
                    | (True, c1) \<Rightarrow>
                        (s3\<lparr>rp_activity := rp_activity s3 @ [(domain, length head + length body, first_len)]\<rparr>,
                         c1\<lparr>shut := True\<rparr>, Ok ()))))"

definition inspect_oauth ::
  "tls_env \<Rightarrow> env \<Rightarrow> string \<Rightarrow> ParsedRequest \<Rightarrow> string \<Rightarrow> LlmProviderMatch option \<Rightarrow> nat \<Rightarrow> nat
    \<Rightarrow> delegator \<Rightarrow> string option \<Rightarrow> out_request \<Rightarrow> rp \<Rightarrow> conn \<Rightarrow> handled" where
  "inspect_oauth t e domain req url lm req_len first_len del acct r s c =
    (let om = match_pkce e (rp_keystore s) domain req
                (match_placeholders e (rp_keystore s) (req_method req)
                  (match_scripted e (rp_keystore s) (req_method req) del acct r))
     in case inspect_cached e (rp_keystore s) om of
          Some body \<Rightarrow> (s, (snd (write_chunks [str_bytes (OAUTH_HEAD (length body)), body] c))\<lparr>shut := True\<rparr>, Ok ())
        | None \<Rightarrow>
            inspect_forward t e domain req url lm req_len first_len om (oauth_authorize_hook e (req_method req) url s) c)"

definition inspect_url :: "ParsedRequest \<Rightarrow> string \<Rightarrow> string" where
  "inspect_url req domain =
    ''https://'' @ (case hget (req_headers req) ''host'' of Some h \<Rightarrow> h | None \<Rightarrow> domain)
      @ (if starts_with (req_path req) ''/'' then req_path req else ''/'')"

definition inspect_request :: "tls_env \<Rightarrow> env \<Rightarrow> bool \<Rightarrow> string \<Rightarrow> ParsedRequest \<Rightarrow> bytes \<Rightarrow> rp \<Rightarrow> conn \<Rightarrow> handled" where
  "inspect_request t e gated domain req payload s c =
    (case collect_body payload (body_offset req) (req_headers req) c of (body, c1) \<Rightarrow>
      (case build_request (e_web e) (req_method req) (inspect_url req domain)
              (without_headers [''host'', ''content-length''] (req_headers req)) body of
         None \<Rightarrow> (s, c1, Err BuildFailed)
       | Some r \<Rightarrow>
           (case inspect_authorize e gated (detect_auth_header (req_headers req)) domain s r of
              (s1, Inl oauth) \<Rightarrow> (s1, reply (INSPECT_403 oauth) c1, Ok ())
            | (s1, Inr (del, acct, r1)) \<Rightarrow>
                (let lm = match_request (rp_llm s1) domain (req_path req) [];
                     prov = check_provider (rp_llm s1) domain lm
                 in case limit_gate e prov s1 of
                      (s2, True) \<Rightarrow>
                        (s2\<lparr>rp_usage := log_usage (e_clock e) (rp_vm s2)
                              (case prov of Some p \<Rightarrow> p | None \<Rightarrow> []) blocked_usage (rp_usage s2)\<rparr>,
                         (snd (write_chunks [str_bytes LIMIT_HEAD, str_bytes LIMIT_BODY] c1))\<lparr>shut := True\<rparr>, Ok ())
                    | (s2, False) \<Rightarrow>
                        inspect_oauth t e domain req (inspect_url req domain) lm (length body) (length payload)
                          del acct r1 s2 c1))))"

definition handle_inspect_connect :: "tls_env \<Rightarrow> env \<Rightarrow> bool \<Rightarrow> string \<Rightarrow> rp \<Rightarrow> conn \<Rightarrow> handled" where
  "handle_inspect_connect t e gated domain s c =
    (case cwrite (str_bytes ESTABLISHED) c of
       (False, c1) \<Rightarrow> (s, c1, Err WriteFailed)
     | (True, c1) \<Rightarrow>
         (case t_accept t domain c1 of
            None \<Rightarrow> (s, c1, Err TlsFailed)
          | Some [] \<Rightarrow> (s, c1, Ok ())
          | Some (payload # rest) \<Rightarrow>
              (case parse_request_headers (e_web e) payload of
                 Ok req \<Rightarrow> inspect_request t e gated domain req payload s (c1\<lparr>inbox := rest\<rparr>)
               | Err er \<Rightarrow> (s, c1, Err er)
               | Panic \<Rightarrow> (s, c1, Panic))))"


section \<open>Tunnels\<close>

definition handle_connect :: "tls_env \<Rightarrow> env \<Rightarrow> ParsedRequest \<Rightarrow> rp \<Rightarrow> conn \<Rightarrow> handled" where
  "handle_connect t e req s c =
    (let target = req_path req; domain = host_name target; port = host_port target 443;
         pre = is_allowed domain (rp_gate s)
     in case (if pre then (rp_gate s, True)
              else gate_check (e_domain_answer e) domain port (rp_vm s) ''proxy'' (rp_gate s)) of
          (g, False) \<Rightarrow> (s\<lparr>rp_gate := g\<rparr>, reply FORBIDDEN c, Ok ())
        | (g, True) \<Rightarrow>
            (let s1 = s\<lparr>rp_gate := g\<rparr>;
                 has_pending = (\<not> pre \<and> has_pending_tokens domain g);
                 gate_allowed = (\<not> pre \<and> is_allowed domain g)
             in if \<not> is_inspect_bypass_domain (config_store g) domain \<and> (pre \<or> has_pending \<or> gate_allowed)
                then handle_inspect_connect t e (\<not> pre) domain s1 c
                else if t_connect t target
                then (case cwrite (str_bytes ESTABLISHED) (c :: conn) of
                        (True, c1) \<Rightarrow> (s1\<lparr>rp_tunnels := rp_tunnels s1 @ [target]\<rparr>, c1, Ok ())
                      | (False, c1) \<Rightarrow> (s1\<lparr>rp_tunnels := rp_tunnels s1 @ [target]\<rparr>, c1, Err WriteFailed))
                else (s1, reply BAD_GATEWAY c, Ok ())))"

definition handle_vm_request :: "tls_env \<Rightarrow> env \<Rightarrow> rp \<Rightarrow> conn \<Rightarrow> handled" where
  "handle_vm_request t = handle_request (handle_connect t)"


section \<open>What inspection sends\<close>

lemma inspect_intercept_sent [simp]:
  "rp_sent (fst (inspect_intercept t e domain req url om u s)) = rp_sent s"
  by (simp add: inspect_intercept_def emit_def set_keystore_def Let_def
      split: option.split prod.split outcome.split)

lemma inspect_forward_sent:
  "rp_sent (fst (inspect_forward t e domain req url lm n m om s c)) = rp_sent s
    @ [if om_provider om = None then om_request om
       else (om_request om)\<lparr>o_headers := hremove ''accept-encoding'' (o_headers (om_request om))\<rparr>]"
proof -
  let ?r = "if om_provider om = None then om_request om
       else (om_request om)\<lparr>o_headers := hremove ''accept-encoding'' (o_headers (om_request om))\<rparr>"
  let ?s = "s\<lparr>rp_sent := rp_sent s @ [?r]\<rparr>"
  show ?thesis
  proof (cases "e_execute e ?r")
    case None
    then show ?thesis
      unfolding inspect_forward_def Let_def send_upstream_def by simp
  next
    case (Some u)
    obtain s2 b h where i: "inspect_intercept t e domain req url om u ?s = (s2, b, h)"
      by (metis prod_cases3)
    then have "rp_sent s2 = rp_sent s @ [?r]"
      using inspect_intercept_sent [of t e domain req url om u ?s] by simp
    then have "rp_sent (account_usage e domain lm st n [b] s2) = rp_sent s @ [?r]" for st
      by simp
    then show ?thesis
      unfolding inspect_forward_def Let_def send_upstream_def prod.case Some option.case i
      by (cases "u_ok u") (simp_all split: prod.split bool.split)
  qed
qed


section \<open>Properties\<close>


text \<open>A tunnel to the allowed domain \<open>a.b\<close>, whose mapped token is \<open>KEY\<close>; inside, the VM sends
  \<open>Host: evil.com\<close>.\<close>

definition evil_web :: web where
  "evil_web = sample_web\<lparr>http_parse := (\<lambda>_. Complete 0 (Some ''GET'') (Some ''/'')
     [(''host'', str_bytes ''evil.com''), (''authorization'', str_bytes ''Bearer KEY'')])\<rparr>"

definition evil_env :: env where
  "evil_env = sample_env\<lparr>e_deleg := sample_deleg\<lparr>d_web := evil_web\<rparr>\<rparr>"

definition evil_tls :: tls_env where
  "evil_tls = \<lparr>t_accept = (\<lambda>_ _. Some [[]]), t_connect = (\<lambda>_. False), t_gunzip = (\<lambda>_. None), t_unbrotli = (\<lambda>_. None)\<rparr>"

definition connect_req :: ParsedRequest where
  "connect_req = \<lparr>req_method = ''CONNECT'', req_path = ''a.b:443'', req_headers = [], body_offset = 0\<rparr>"

definition evil_rp :: rp where
  "evil_rp = sample_rp [''a.b''] [] [(''a.b'', ''KEY'')] [(''KEY'', ''real-secret'')]"

definition evil_req :: ParsedRequest where
  "evil_req = \<lparr>req_method = ''GET'', req_path = ''/'',
     req_headers = [(''host'', ''evil.com''), (''authorization'', ''Bearer KEY'')], body_offset = 0\<rparr>"

lemma lower_names: "to_lowercase ''host'' = ''host''" "to_lowercase ''authorization'' = ''authorization''"
  by code_simp+

lemma evil_parse: "parse_request_headers (e_web evil_env) p = Ok evil_req"
  by (simp add: evil_env_def evil_web_def sample_web_def evil_req_def parse_request_headers_def insert_header_def
      hinsert_def hremove_def lower_names ascii_rust_string is_ascii_def)

lemma evil_connect:
  "handle_connect evil_tls evil_env connect_req evil_rp sample_conn
    = inspect_request evil_tls evil_env False ''a.b'' evil_req [] evil_rp
        (sample_conn\<lparr>outbox := [str_bytes ESTABLISHED], inbox := []\<rparr>)"
proof -
  have "is_allowed ''a.b'' (rp_gate evil_rp)" "\<not> is_inspect_bypass_domain (config_store (rp_gate evil_rp)) ''a.b''"
    by (simp_all add: evil_rp_def sample_rp_def is_allowed_def matches_domain_set_def gate_new_def store_empty_def
        is_inspect_bypass_domain_def)
  moreover have "evil_rp\<lparr>rp_gate := rp_gate evil_rp\<rparr> = evil_rp"
    by simp
  ultimately show ?thesis
    by (simp add: handle_connect_def connect_req_def host_name_def handle_inspect_connect_def evil_parse
        cwrite_def sample_conn_def evil_tls_def Let_def)
qed

definition leaked :: out_request where
  "leaked = \<lparr>o_method = ''GET'', o_url = ''https://evil.com/'',
     o_headers = [(''authorization'', ''Bearer real-secret'')], o_body = None\<rparr>"

lemma evil_choice:
  "inspect_choose_auth evil_env False (Some ah) ''a.b'' evil_rp
    = (if ah_account ah = ''KEY'' then (evil_rp, Use (Bearer True) (Some ''KEY''))
       else inspect_choose_auth evil_env False (Some ah) ''a.b'' evil_rp)"
  by (simp add: inspect_choose_auth_def evil_rp_def sample_route choose_mapped_def is_aws_tokens_def Let_def)
    (simp add: sample_rp_def gate_new_def store_empty_def list_domain_tokens_def tokens_of_def merge_tokens_def)

lemma evil_auth:
  "inspect_authorize evil_env False (detect_auth_header (req_headers evil_req)) ''a.b'' evil_rp
      (leaked\<lparr>o_headers := [(''authorization'', ''Bearer KEY'')]\<rparr>)
    = (evil_rp, Inr (Bearer True, Some ''KEY'', leaked))"
proof -
  let ?r = "leaked\<lparr>o_headers := [(''authorization'', ''Bearer KEY'')]\<rparr>"
  have auth: "detect_auth_header (req_headers evil_req)
      = Some \<lparr>ah_name = ''authorization'', ah_prefix = ''Bearer '', ah_account = ''KEY''\<rparr>"
    by (simp add: evil_req_def detect_auth_header_def plain_auth_def hget_def strip_prefix_def)
  have nodummy: "\<not> is_dummy_access_token sample_codecs ''KEY''"
    by (simp add: is_dummy_access_token_def sample_vault_defs parse_dummy_access_token_def
      extract_nilbox_jwt_session_def parse_dummy_token_def ACCESS_PREFIX_def strip_prefix_def split3_def)
  have key: "get_or_prompt a ''KEY'' d (rp_keys evil_rp) = (rp_keys evil_rp, Some ''real-secret'')" for a d
    by (rule get_or_prompt_stored) (simp add: evil_rp_def sample_rp_def api_key_gate_new_def ks_get_def)
  have htext: "header_text (d_web (e_deleg evil_env)) ?r ''authorization'' = Some ''Bearer KEY''"
    by (simp add: header_text_def hget_def evil_env_def evil_web_def sample_web_def leaked_def)
  have "bearer_apply_auth (e_deleg evil_env) True ''a.b'' ''KEY'' (rp_keys evil_rp) ?r
      = (rp_keys evil_rp, leaked, True)"
    by (simp add: bearer_apply_auth_def htext bearer_token_def strip_prefix_def bearer_apply_key_def key bearer_slot_def
        auth_scheme_def try_insert_def hinsert_def hremove_def)
      (simp add: evil_env_def sample_deleg_def nodummy evil_web_def sample_web_def leaked_def)
  then show ?thesis
    by (simp add: inspect_authorize_def auth evil_choice delegate_def apply_auth_def)
qed



text \<open>A tunnel to a new domain that the user allows once.\<close>

definition tunnel_env :: env where
  "tunnel_env = sample_env\<lparr>e_domain_answer := Some (AllowOnce, []),
     e_deleg := sample_deleg\<lparr>d_web := sample_web\<lparr>http_parse :=
       (\<lambda>_. Complete 0 (Some ''CONNECT'') (Some ''a.b:443'') [])\<rparr>\<rparr>\<rparr>"

definition tunnel_tls :: tls_env where
  "tunnel_tls = evil_tls\<lparr>t_connect := (\<lambda>_. True)\<rparr>"


end
