(* ===== verification/Fuse_Protocol.thy ===== *)
theory Fuse_Protocol
  imports Prelude
begin

text \<open>
  The FUSE proxy protocol: \<open>crates/nilbox-core/src/file_proxy/protocol.rs\<close> (host) and
  \<open>vm-agent/src/fuse/protocol.rs\<close> (guest).  A message is the magic \<open>FUSE\<close> (big-endian),
  an operation code and a payload length (little-endian) and the payload.  The guest encodes
  requests and decodes responses and notifications, the host the other way round.  A decoder
  answers \<open>None\<close> while the message is incomplete; the cursor reads inside the payload panic when
  the payload is shorter than its operation needs.  \<open>message_codec\<close> is the contract the two
  reader loops rely on, interpreted for requests and for responses.
\<close>

section \<open>Ports\<close>

definition FUSE_MAGIC :: u32 where "FUSE_MAGIC = 0x46555345"
definition FUSE_HEADER_SIZE :: nat where "FUSE_HEADER_SIZE = 10"
definition MAX_PAYLOAD_SIZE :: u32 where "MAX_PAYLOAD_SIZE = 0x01000000"
definition FUSE_PORT_BASE :: u32 where "FUSE_PORT_BASE = 9500"
definition FUSE_PORT_MAX :: u32 where "FUSE_PORT_MAX = 9519"
definition MAX_FILE_MAPPINGS :: nat where "MAX_FILE_MAPPINGS = 20"

text \<open>\<open>mapping_id as u32\<close> keeps the low 32 bits of the \<open>i64\<close>.\<close>

definition fuse_port_for_mapping :: "64 word \<Rightarrow> u32" where
  "fuse_port_for_mapping mapping_id = FUSE_PORT_BASE + ucast mapping_id mod of_nat MAX_FILE_MAPPINGS"

definition is_fuse_port :: "u32 \<Rightarrow> bool" where
  "is_fuse_port port \<longleftrightarrow> port \<ge> FUSE_PORT_BASE \<and> port \<le> FUSE_PORT_MAX"

definition guest_is_fuse_port :: "u32 \<Rightarrow> bool" where
  "guest_is_fuse_port port \<longleftrightarrow> port \<ge> FUSE_PORT_BASE \<and> port \<le> FUSE_PORT_MAX"


section \<open>Operation, status and file type codes\<close>

datatype OpType =
    OpOpen | OpRead | OpWrite | OpClose | OpReaddir | OpStat | OpMkdir | OpRemove
  | OpRename | OpTruncate | OpPathChanged | OpPathQuery | OpInvalidateCache | OpPathPending
  | OpPathReady | OpPing | OpPong | OpShutdown

fun op_code :: "OpType \<Rightarrow> u16" where
  "op_code OpOpen = 0x0001"
| "op_code OpRead = 0x0002"
| "op_code OpWrite = 0x0003"
| "op_code OpClose = 0x0004"
| "op_code OpReaddir = 0x0005"
| "op_code OpStat = 0x0006"
| "op_code OpMkdir = 0x0007"
| "op_code OpRemove = 0x0008"
| "op_code OpRename = 0x0009"
| "op_code OpTruncate = 0x000A"
| "op_code OpPathChanged = 0x0010"
| "op_code OpPathQuery = 0x0011"
| "op_code OpInvalidateCache = 0x0012"
| "op_code OpPathPending = 0x0013"
| "op_code OpPathReady = 0x0014"
| "op_code OpPing = 0x00F0"
| "op_code OpPong = 0x00F1"
| "op_code OpShutdown = 0x00FF"

definition op_try_from :: "u16 \<Rightarrow> OpType option" where
  "op_try_from v =
    (if v = 0x0001 then Some OpOpen
     else if v = 0x0002 then Some OpRead
     else if v = 0x0003 then Some OpWrite
     else if v = 0x0004 then Some OpClose
     else if v = 0x0005 then Some OpReaddir
     else if v = 0x0006 then Some OpStat
     else if v = 0x0007 then Some OpMkdir
     else if v = 0x0008 then Some OpRemove
     else if v = 0x0009 then Some OpRename
     else if v = 0x000A then Some OpTruncate
     else if v = 0x0010 then Some OpPathChanged
     else if v = 0x0011 then Some OpPathQuery
     else if v = 0x0012 then Some OpInvalidateCache
     else if v = 0x0013 then Some OpPathPending
     else if v = 0x0014 then Some OpPathReady
     else if v = 0x00F0 then Some OpPing
     else if v = 0x00F1 then Some OpPong
     else if v = 0x00FF then Some OpShutdown
     else None)"

definition guest_op_try_from :: "u16 \<Rightarrow> OpType option" where
  "guest_op_try_from v =
    (if v = 0x0001 then Some OpOpen
     else if v = 0x0002 then Some OpRead
     else if v = 0x0003 then Some OpWrite
     else if v = 0x0004 then Some OpClose
     else if v = 0x0005 then Some OpReaddir
     else if v = 0x0006 then Some OpStat
     else if v = 0x0007 then Some OpMkdir
     else if v = 0x0008 then Some OpRemove
     else if v = 0x0009 then Some OpRename
     else if v = 0x000A then Some OpTruncate
     else if v = 0x0010 then Some OpPathChanged
     else if v = 0x0011 then Some OpPathQuery
     else if v = 0x0012 then Some OpInvalidateCache
     else if v = 0x0013 then Some OpPathPending
     else if v = 0x0014 then Some OpPathReady
     else if v = 0x00F0 then Some OpPing
     else if v = 0x00F1 then Some OpPong
     else if v = 0x00FF then Some OpShutdown
     else None)"

datatype StatusCode =
    StOk | ErrNoent | ErrExist | ErrAccess | ErrNotdir | ErrIsdir | ErrNotempty | ErrNospc
  | ErrIo | ErrInval | ErrNametoolong | ErrBusy | ErrPathchange | ErrSandboxed | ErrUnknown

fun status_code :: "StatusCode \<Rightarrow> u16" where
  "status_code StOk = 0x0000"
| "status_code ErrNoent = 0x0001"
| "status_code ErrExist = 0x0002"
| "status_code ErrAccess = 0x0003"
| "status_code ErrNotdir = 0x0004"
| "status_code ErrIsdir = 0x0005"
| "status_code ErrNotempty = 0x0006"
| "status_code ErrNospc = 0x0007"
| "status_code ErrIo = 0x0008"
| "status_code ErrInval = 0x0009"
| "status_code ErrNametoolong = 0x000A"
| "status_code ErrBusy = 0x0010"
| "status_code ErrPathchange = 0x0011"
| "status_code ErrSandboxed = 0x0012"
| "status_code ErrUnknown = 0x00FF"

definition status_try_from :: "u16 \<Rightarrow> StatusCode option" where
  "status_try_from v =
    (if v = 0x0000 then Some StOk
     else if v = 0x0001 then Some ErrNoent
     else if v = 0x0002 then Some ErrExist
     else if v = 0x0003 then Some ErrAccess
     else if v = 0x0004 then Some ErrNotdir
     else if v = 0x0005 then Some ErrIsdir
     else if v = 0x0006 then Some ErrNotempty
     else if v = 0x0007 then Some ErrNospc
     else if v = 0x0008 then Some ErrIo
     else if v = 0x0009 then Some ErrInval
     else if v = 0x000A then Some ErrNametoolong
     else if v = 0x0010 then Some ErrBusy
     else if v = 0x0011 then Some ErrPathchange
     else if v = 0x0012 then Some ErrSandboxed
     else if v = 0x00FF then Some ErrUnknown
     else None)"

datatype ErrorKind =
    NotFound | AlreadyExists | PermissionDenied | InvalidInput | NotADirectory | IsADirectory
  | DirectoryNotEmpty | FilesystemLoop | OtherError

fun status_from :: "ErrorKind \<Rightarrow> StatusCode" where
  "status_from NotFound = ErrNoent"
| "status_from AlreadyExists = ErrExist"
| "status_from PermissionDenied = ErrAccess"
| "status_from InvalidInput = ErrInval"
| "status_from _ = ErrIo"

text \<open>The \<open>libc\<close> constants of Linux.\<close>

fun status_to_errno :: "StatusCode \<Rightarrow> int" where
  "status_to_errno StOk = 0"
| "status_to_errno ErrNoent = 2"
| "status_to_errno ErrExist = 17"
| "status_to_errno ErrAccess = 13"
| "status_to_errno ErrNotdir = 20"
| "status_to_errno ErrIsdir = 21"
| "status_to_errno ErrNotempty = 39"
| "status_to_errno ErrNospc = 28"
| "status_to_errno ErrIo = 5"
| "status_to_errno ErrInval = 22"
| "status_to_errno ErrNametoolong = 36"
| "status_to_errno ErrBusy = 16"
| "status_to_errno ErrPathchange = 16"
| "status_to_errno ErrSandboxed = 13"
| "status_to_errno ErrUnknown = 5"

datatype FileType = Regular | Directory | Symlink | OtherType

fun file_type_code :: "FileType \<Rightarrow> u8" where
  "file_type_code Regular = 0x01"
| "file_type_code Directory = 0x02"
| "file_type_code Symlink = 0x03"
| "file_type_code OtherType = 0x04"

definition file_type_try_from :: "u8 \<Rightarrow> FileType option" where
  "file_type_try_from v =
    (if v = 0x01 then Some Regular
     else if v = 0x02 then Some Directory
     else if v = 0x03 then Some Symlink
     else if v = 0x04 then Some OtherType
     else None)"

lemma op_try_from_code [simp]: "op_try_from (op_code op) = Some op"
  by (cases op) (simp_all add: op_try_from_def)

lemma guest_op_try_from_eq: "guest_op_try_from = op_try_from"
  by (intro ext) (simp only: guest_op_try_from_def op_try_from_def)

lemma status_try_from_code [simp]: "status_try_from (status_code s) = Some s"
  by (cases s) (simp_all add: status_try_from_def)

lemma file_type_try_from_code [simp]: "file_type_try_from (file_type_code s) = Some s"
  by (cases s) (simp_all add: file_type_try_from_def)


section \<open>Messages\<close>

type_synonym RequestId = u64

record DirEntry =
  entry_type :: FileType
  entry_name :: string

record FileAttr =
  attr_type :: u8
  attr_mode :: u32
  attr_size :: u64
  attr_mtime :: u64
  attr_atime :: u64
  attr_ctime :: u64

definition file_attr_default :: FileAttr where
  "file_attr_default =
    \<lparr>attr_type = 0, attr_mode = 0, attr_size = 0, attr_mtime = 0, attr_atime = 0, attr_ctime = 0\<rparr>"

text \<open>Both sides have the same request type; the arguments are in the order of the fields.\<close>

datatype FuseRequest =
    ReqOpen RequestId u32 u32 string
  | ReqRead RequestId u64 u64 u32
  | ReqWrite RequestId u64 u64 bytes
  | ReqClose RequestId u64
  | ReqReaddir RequestId u64 u64 u32
  | ReqStat RequestId string
  | ReqMkdir RequestId u32 string
  | ReqRemove RequestId bool string
  | ReqRename RequestId string string
  | ReqTruncate RequestId string u64
  | ReqPathQuery RequestId
  | ReqPing RequestId

fun request_id :: "FuseRequest \<Rightarrow> RequestId" where
  "request_id (ReqOpen i _ _ _) = i"
| "request_id (ReqRead i _ _ _) = i"
| "request_id (ReqWrite i _ _ _) = i"
| "request_id (ReqClose i _) = i"
| "request_id (ReqReaddir i _ _ _) = i"
| "request_id (ReqStat i _) = i"
| "request_id (ReqMkdir i _ _) = i"
| "request_id (ReqRemove i _ _) = i"
| "request_id (ReqRename i _ _) = i"
| "request_id (ReqTruncate i _ _) = i"
| "request_id (ReqPathQuery i) = i"
| "request_id (ReqPing i) = i"

fun op_type :: "FuseRequest \<Rightarrow> OpType" where
  "op_type (ReqOpen _ _ _ _) = OpOpen"
| "op_type (ReqRead _ _ _ _) = OpRead"
| "op_type (ReqWrite _ _ _ _) = OpWrite"
| "op_type (ReqClose _ _) = OpClose"
| "op_type (ReqReaddir _ _ _ _) = OpReaddir"
| "op_type (ReqStat _ _) = OpStat"
| "op_type (ReqMkdir _ _ _) = OpMkdir"
| "op_type (ReqRemove _ _ _) = OpRemove"
| "op_type (ReqRename _ _ _) = OpRename"
| "op_type (ReqTruncate _ _ _) = OpTruncate"
| "op_type (ReqPathQuery _) = OpPathQuery"
| "op_type (ReqPing _) = OpPing"

text \<open>The host's responses and notifications.\<close>

datatype FuseResponse =
    RespOpen RequestId StatusCode u64
  | RespRead RequestId StatusCode bytes
  | RespWrite RequestId StatusCode u32
  | RespClose RequestId StatusCode
  | RespReaddir RequestId StatusCode "DirEntry list"
  | RespStat RequestId StatusCode FileAttr
  | RespMkdir RequestId StatusCode
  | RespRemove RequestId StatusCode
  | RespRename RequestId StatusCode
  | RespTruncate RequestId StatusCode
  | RespPathQuery RequestId StatusCode u8 string
  | RespPong RequestId
  | PathChanged string string
  | PathPending u32 u32
  | PathReady
  | InvalidateCache

text \<open>The guest's view: responses and notifications apart, the file type of a stat decoded.\<close>

datatype GuestResponse =
    GOpen RequestId StatusCode u64
  | GRead RequestId StatusCode bytes
  | GWrite RequestId StatusCode u32
  | GClose RequestId StatusCode
  | GReaddir RequestId StatusCode "DirEntry list"
  | GStat RequestId StatusCode FileType u32 u64 u64 u64 u64
  | GMkdir RequestId StatusCode
  | GRemove RequestId StatusCode
  | GRename RequestId StatusCode
  | GTruncate RequestId StatusCode
  | GPathQuery RequestId StatusCode u8 string
  | GPong RequestId

datatype FuseNotification =
    NPathChanged string string | NPathPending u32 u32 | NPathReady | NInvalidateCache | NShutdown

datatype FuseMessage = Response GuestResponse | Notification FuseNotification

fun response_id :: "GuestResponse \<Rightarrow> RequestId" where
  "response_id (GOpen i _ _) = i"
| "response_id (GRead i _ _) = i"
| "response_id (GWrite i _ _) = i"
| "response_id (GClose i _) = i"
| "response_id (GReaddir i _ _) = i"
| "response_id (GStat i _ _ _ _ _ _ _) = i"
| "response_id (GMkdir i _) = i"
| "response_id (GRemove i _) = i"
| "response_id (GRename i _) = i"
| "response_id (GTruncate i _) = i"
| "response_id (GPathQuery i _ _ _) = i"
| "response_id (GPong i) = i"

fun response_status :: "GuestResponse \<Rightarrow> StatusCode" where
  "response_status (GOpen _ s _) = s"
| "response_status (GRead _ s _) = s"
| "response_status (GWrite _ s _) = s"
| "response_status (GClose _ s) = s"
| "response_status (GReaddir _ s _) = s"
| "response_status (GStat _ s _ _ _ _ _ _) = s"
| "response_status (GMkdir _ s) = s"
| "response_status (GRemove _ s) = s"
| "response_status (GRename _ s) = s"
| "response_status (GTruncate _ s) = s"
| "response_status (GPathQuery _ s _ _) = s"
| "response_status (GPong _) = StOk"


section \<open>Encoders\<close>

text \<open>A string is written as its 16-bit length (\<open>len() as u16\<close>, the low 16 bits) and its bytes.\<close>

definition put_str :: "string \<Rightarrow> bytes" where
  "put_str s = put_u16_le (of_nat (length s)) @ str_bytes s"

text \<open>Header and payload.\<close>

definition fuse_frame :: "OpType \<Rightarrow> bytes \<Rightarrow> bytes" where
  "fuse_frame op p = put_u32_be FUSE_MAGIC @ put_u16_le (op_code op)
     @ put_u32_le (of_nat (length p)) @ p"

fun request_payload :: "FuseRequest \<Rightarrow> bytes" where
  "request_payload (ReqOpen i flags mode path) =
    put_u64_le i @ put_u32_le flags @ put_u32_le mode @ put_str path"
| "request_payload (ReqRead i fd off sz) =
    put_u64_le i @ put_u64_le fd @ put_u64_le off @ put_u32_le sz"
| "request_payload (ReqWrite i fd off data) =
    put_u64_le i @ put_u64_le fd @ put_u64_le off @ put_u32_le (of_nat (length data)) @ data"
| "request_payload (ReqClose i fd) = put_u64_le i @ put_u64_le fd"
| "request_payload (ReqReaddir i fd off max_entries) =
    put_u64_le i @ put_u64_le fd @ put_u64_le off @ put_u32_le max_entries"
| "request_payload (ReqStat i path) = put_u64_le i @ put_str path"
| "request_payload (ReqMkdir i mode path) = put_u64_le i @ put_u32_le mode @ put_str path"
| "request_payload (ReqRemove i is_dir path) =
    put_u64_le i @ (if is_dir then 1 else 0) # put_str path"
| "request_payload (ReqRename i old_path new_path) =
    put_u64_le i @ put_str old_path @ put_str new_path"
| "request_payload (ReqTruncate i path sz) = put_u64_le i @ put_u64_le sz @ put_str path"
| "request_payload (ReqPathQuery i) = put_u64_le i"
| "request_payload (ReqPing i) = put_u64_le i"

definition encode_request :: "FuseRequest \<Rightarrow> bytes" where
  "encode_request req = fuse_frame (op_type req) (request_payload req)"

definition put_entry :: "DirEntry \<Rightarrow> bytes" where
  "put_entry e = file_type_code (entry_type e) # put_str (entry_name e)"

fun response_op :: "FuseResponse \<Rightarrow> OpType" where
  "response_op (RespOpen _ _ _) = OpOpen"
| "response_op (RespRead _ _ _) = OpRead"
| "response_op (RespWrite _ _ _) = OpWrite"
| "response_op (RespClose _ _) = OpClose"
| "response_op (RespReaddir _ _ _) = OpReaddir"
| "response_op (RespStat _ _ _) = OpStat"
| "response_op (RespMkdir _ _) = OpMkdir"
| "response_op (RespRemove _ _) = OpRemove"
| "response_op (RespRename _ _) = OpRename"
| "response_op (RespTruncate _ _) = OpTruncate"
| "response_op (RespPathQuery _ _ _ _) = OpPathQuery"
| "response_op (RespPong _) = OpPong"
| "response_op (PathChanged _ _) = OpPathChanged"
| "response_op (PathPending _ _) = OpPathPending"
| "response_op PathReady = OpPathReady"
| "response_op InvalidateCache = OpInvalidateCache"

fun response_payload :: "FuseResponse \<Rightarrow> bytes" where
  "response_payload (RespOpen i s fd) = put_u64_le i @ put_u16_le (status_code s) @ put_u64_le fd"
| "response_payload (RespRead i s data) =
    put_u64_le i @ put_u16_le (status_code s) @ put_u32_le (of_nat (length data)) @ data"
| "response_payload (RespWrite i s written) =
    put_u64_le i @ put_u16_le (status_code s) @ put_u32_le written"
| "response_payload (RespClose i s) = put_u64_le i @ put_u16_le (status_code s)"
| "response_payload (RespReaddir i s entries) =
    put_u64_le i @ put_u16_le (status_code s) @ put_u32_le (of_nat (length entries))
      @ concat (map put_entry entries)"
| "response_payload (RespStat i s attr) =
    put_u64_le i @ put_u16_le (status_code s) @ attr_type attr # put_u32_le (attr_mode attr)
      @ put_u64_le (attr_size attr) @ put_u64_le (attr_mtime attr) @ put_u64_le (attr_atime attr)
      @ put_u64_le (attr_ctime attr)"
| "response_payload (RespMkdir i s) = put_u64_le i @ put_u16_le (status_code s)"
| "response_payload (RespRemove i s) = put_u64_le i @ put_u16_le (status_code s)"
| "response_payload (RespRename i s) = put_u64_le i @ put_u16_le (status_code s)"
| "response_payload (RespTruncate i s) = put_u64_le i @ put_u16_le (status_code s)"
| "response_payload (RespPathQuery i s state path) =
    put_u64_le i @ put_u16_le (status_code s) @ state # put_str path"
| "response_payload (RespPong i) = put_u64_le i"
| "response_payload (PathChanged old_path new_path) = put_str old_path @ put_str new_path"
| "response_payload (PathPending handles timeout) = put_u32_le handles @ put_u32_le timeout"
| "response_payload PathReady = []"
| "response_payload InvalidateCache = []"

definition encode_response :: "FuseResponse \<Rightarrow> bytes" where
  "encode_response resp = fuse_frame (response_op resp) (response_payload resp)"


section \<open>Decoders\<close>

datatype fuse_error =
    InvalidMagic | PayloadTooLarge | InvalidOpType | UnexpectedType | InvalidStatusCode
  | InvalidFileType | InvalidUtf8

text \<open>
  The header check of both decoders: \<open>None\<close> while bytes are missing, else the operation code, the
  payload and the bytes after the message.
\<close>

definition split_frame :: "bytes \<Rightarrow> (fuse_error, (u16 \<times> bytes \<times> bytes) option) outcome" where
  "split_frame src =
    (if length src < FUSE_HEADER_SIZE then Ok None
     else if u32_from_be (take 4 src) \<noteq> FUSE_MAGIC then Err InvalidMagic
     else let op = u16_from_le (take 2 (drop 4 src));
              len = unat (u32_from_le (take 4 (drop 6 src)))
          in if len > unat MAX_PAYLOAD_SIZE then Err PayloadTooLarge
             else if length src < FUSE_HEADER_SIZE + len then Ok None
             else Ok (Some (op, take len (drop FUSE_HEADER_SIZE src), drop (FUSE_HEADER_SIZE + len) src)))"

text \<open>A 16-bit length and that many bytes of UTF-8.\<close>

definition get_str :: "(string, fuse_error, 'a) reader" where
  "get_str p k = get_u16_le p (\<lambda>n p. split_to (unat n) p (\<lambda>bs p.
     and_then (from_utf8 InvalidUtf8 bs) (\<lambda>s. k s p)))"

definition get_status :: "(StatusCode, fuse_error, 'a) reader" where
  "get_status p k = get_u16_le p (\<lambda>v p. case status_try_from v of
     Some s \<Rightarrow> k s p | None \<Rightarrow> Err InvalidStatusCode)"

fun decode_request_payload :: "OpType \<Rightarrow> bytes \<Rightarrow> (fuse_error, FuseRequest) outcome" where
  "decode_request_payload OpOpen p = get_u64_le p (\<lambda>i p. get_u32_le p (\<lambda>flags p.
     get_u32_le p (\<lambda>mode p. get_str p (\<lambda>path p. Ok (ReqOpen i flags mode path)))))"
| "decode_request_payload OpRead p = get_u64_le p (\<lambda>i p. get_u64_le p (\<lambda>fd p.
     get_u64_le p (\<lambda>off p. get_u32_le p (\<lambda>sz p. Ok (ReqRead i fd off sz)))))"
| "decode_request_payload OpWrite p = get_u64_le p (\<lambda>i p. get_u64_le p (\<lambda>fd p.
     get_u64_le p (\<lambda>off p. get_u32_le p (\<lambda>sz p. split_to (unat sz) p (\<lambda>data p.
       Ok (ReqWrite i fd off data))))))"
| "decode_request_payload OpClose p = get_u64_le p (\<lambda>i p. get_u64_le p (\<lambda>fd p. Ok (ReqClose i fd)))"
| "decode_request_payload OpReaddir p = get_u64_le p (\<lambda>i p. get_u64_le p (\<lambda>fd p.
     get_u64_le p (\<lambda>off p. get_u32_le p (\<lambda>mx p. Ok (ReqReaddir i fd off mx)))))"
| "decode_request_payload OpStat p = get_u64_le p (\<lambda>i p. get_str p (\<lambda>path p. Ok (ReqStat i path)))"
| "decode_request_payload OpMkdir p = get_u64_le p (\<lambda>i p. get_u32_le p (\<lambda>mode p.
     get_str p (\<lambda>path p. Ok (ReqMkdir i mode path))))"
| "decode_request_payload OpRemove p = get_u64_le p (\<lambda>i p. get_u8 p (\<lambda>d p.
     get_str p (\<lambda>path p. Ok (ReqRemove i (d \<noteq> 0) path))))"
| "decode_request_payload OpRename p = get_u64_le p (\<lambda>i p. get_str p (\<lambda>old_path p.
     get_str p (\<lambda>new_path p. Ok (ReqRename i old_path new_path))))"
| "decode_request_payload OpTruncate p = get_u64_le p (\<lambda>i p. get_u64_le p (\<lambda>sz p.
     get_str p (\<lambda>path p. Ok (ReqTruncate i path sz))))"
| "decode_request_payload OpPathQuery p = get_u64_le p (\<lambda>i p. Ok (ReqPathQuery i))"
| "decode_request_payload OpPing p = get_u64_le p (\<lambda>i p. Ok (ReqPing i))"
| "decode_request_payload _ p = Err UnexpectedType"

text \<open>The result and the buffer after the call: a complete message is consumed even when its
  payload is refused.\<close>

definition decode_request :: "bytes \<Rightarrow> (fuse_error, FuseRequest option) outcome \<times> bytes" where
  "decode_request src =
    (case split_frame src of
       Ok (Some (op, p, rest)) \<Rightarrow>
         (case op_try_from op of
            Some t \<Rightarrow> (and_then (decode_request_payload t p) (\<lambda>r. Ok (Some r)), rest)
          | None \<Rightarrow> (Err InvalidOpType, rest))
     | Ok None \<Rightarrow> (Ok None, src)
     | Err e \<Rightarrow> (Err e, src)
     | Panic \<Rightarrow> (Panic, src))"

text \<open>The loop over \<open>count\<close> directory entries.\<close>

fun get_entries :: "nat \<Rightarrow> (DirEntry list, fuse_error, 'a) reader" where
  "get_entries 0 p k = k [] p"
| "get_entries (Suc n) p k = get_u8 p (\<lambda>v p. case file_type_try_from v of
     None \<Rightarrow> Err InvalidFileType
   | Some ft \<Rightarrow> get_str p (\<lambda>name p. get_entries n p (\<lambda>es p.
       k (\<lparr>entry_type = ft, entry_name = name\<rparr> # es) p)))"

fun decode_response_payload :: "OpType \<Rightarrow> bytes \<Rightarrow> (fuse_error, FuseMessage) outcome" where
  "decode_response_payload OpOpen p = get_u64_le p (\<lambda>i p. get_status p (\<lambda>s p.
     get_u64_le p (\<lambda>fd p. Ok (Response (GOpen i s fd)))))"
| "decode_response_payload OpRead p = get_u64_le p (\<lambda>i p. get_status p (\<lambda>s p.
     get_u32_le p (\<lambda>n p. split_to (unat n) p (\<lambda>data p. Ok (Response (GRead i s data))))))"
| "decode_response_payload OpWrite p = get_u64_le p (\<lambda>i p. get_status p (\<lambda>s p.
     get_u32_le p (\<lambda>n p. Ok (Response (GWrite i s n)))))"
| "decode_response_payload OpClose p = get_u64_le p (\<lambda>i p. get_status p (\<lambda>s p. Ok (Response (GClose i s))))"
| "decode_response_payload OpReaddir p = get_u64_le p (\<lambda>i p. get_status p (\<lambda>s p.
     get_u32_le p (\<lambda>count p. get_entries (unat count) p (\<lambda>es p. Ok (Response (GReaddir i s es))))))"
| "decode_response_payload OpStat p = get_u64_le p (\<lambda>i p. get_status p (\<lambda>s p.
     get_u8 p (\<lambda>t p. get_u32_le p (\<lambda>mode p. get_u64_le p (\<lambda>sz p. get_u64_le p (\<lambda>mtime p.
       get_u64_le p (\<lambda>atime p. get_u64_le p (\<lambda>ctime p.
         Ok (Response (GStat i s (case file_type_try_from t of Some ft \<Rightarrow> ft | None \<Rightarrow> OtherType)
           mode sz mtime atime ctime))))))))))"
| "decode_response_payload OpMkdir p = get_u64_le p (\<lambda>i p. get_status p (\<lambda>s p. Ok (Response (GMkdir i s))))"
| "decode_response_payload OpRemove p = get_u64_le p (\<lambda>i p. get_status p (\<lambda>s p. Ok (Response (GRemove i s))))"
| "decode_response_payload OpRename p = get_u64_le p (\<lambda>i p. get_status p (\<lambda>s p. Ok (Response (GRename i s))))"
| "decode_response_payload OpTruncate p = get_u64_le p (\<lambda>i p. get_status p (\<lambda>s p.
     Ok (Response (GTruncate i s))))"
| "decode_response_payload OpPathQuery p = get_u64_le p (\<lambda>i p. get_status p (\<lambda>s p.
     get_u8 p (\<lambda>state p. get_str p (\<lambda>path p. Ok (Response (GPathQuery i s state path))))))"
| "decode_response_payload OpPong p = get_u64_le p (\<lambda>i p. Ok (Response (GPong i)))"
| "decode_response_payload OpPathChanged p = get_str p (\<lambda>old_path p. get_str p (\<lambda>new_path p.
     Ok (Notification (NPathChanged old_path new_path))))"
| "decode_response_payload OpPathPending p = get_u32_le p (\<lambda>handles p. get_u32_le p (\<lambda>timeout p.
     Ok (Notification (NPathPending handles timeout))))"
| "decode_response_payload OpPathReady p = Ok (Notification NPathReady)"
| "decode_response_payload OpInvalidateCache p = Ok (Notification NInvalidateCache)"
| "decode_response_payload OpShutdown p = Ok (Notification NShutdown)"
| "decode_response_payload _ p = Err UnexpectedType"

definition decode_response :: "bytes \<Rightarrow> (fuse_error, FuseMessage option) outcome \<times> bytes" where
  "decode_response src =
    (case split_frame src of
       Ok (Some (op, p, rest)) \<Rightarrow>
         (case guest_op_try_from op of
            Some t \<Rightarrow> (and_then (decode_response_payload t p) (\<lambda>m. Ok (Some m)), rest)
          | None \<Rightarrow> (Err InvalidOpType, rest))
     | Ok None \<Rightarrow> (Ok None, src)
     | Err e \<Rightarrow> (Err e, src)
     | Panic \<Rightarrow> (Panic, src))"


section \<open>What the encoders can carry\<close>

text \<open>A string fits the 16-bit length field, a payload the limit the decoders check.\<close>

definition short_str :: "string \<Rightarrow> bool" where
  "short_str s \<longleftrightarrow> rust_string s \<and> length s < 2 ^ 16"

fun request_strings :: "FuseRequest \<Rightarrow> string list" where
  "request_strings (ReqOpen _ _ _ path) = [path]"
| "request_strings (ReqStat _ path) = [path]"
| "request_strings (ReqMkdir _ _ path) = [path]"
| "request_strings (ReqRemove _ _ path) = [path]"
| "request_strings (ReqRename _ old_path new_path) = [old_path, new_path]"
| "request_strings (ReqTruncate _ path _) = [path]"
| "request_strings _ = []"

definition request_fits :: "FuseRequest \<Rightarrow> bool" where
  "request_fits r \<longleftrightarrow> list_all short_str (request_strings r)
     \<and> length (request_payload r) \<le> unat MAX_PAYLOAD_SIZE"

fun response_strings :: "FuseResponse \<Rightarrow> string list" where
  "response_strings (RespReaddir _ _ entries) = map entry_name entries"
| "response_strings (RespPathQuery _ _ _ path) = [path]"
| "response_strings (PathChanged old_path new_path) = [old_path, new_path]"
| "response_strings _ = []"

definition response_fits :: "FuseResponse \<Rightarrow> bool" where
  "response_fits r \<longleftrightarrow> list_all short_str (response_strings r)
     \<and> length (response_payload r) \<le> unat MAX_PAYLOAD_SIZE"

text \<open>The guest's reading of a host message.\<close>

fun guest_view :: "FuseResponse \<Rightarrow> FuseMessage" where
  "guest_view (RespOpen i s fd) = Response (GOpen i s fd)"
| "guest_view (RespRead i s data) = Response (GRead i s data)"
| "guest_view (RespWrite i s n) = Response (GWrite i s n)"
| "guest_view (RespClose i s) = Response (GClose i s)"
| "guest_view (RespReaddir i s es) = Response (GReaddir i s es)"
| "guest_view (RespStat i s a) = Response (GStat i s
     (case file_type_try_from (attr_type a) of Some ft \<Rightarrow> ft | None \<Rightarrow> OtherType)
     (attr_mode a) (attr_size a) (attr_mtime a) (attr_atime a) (attr_ctime a))"
| "guest_view (RespMkdir i s) = Response (GMkdir i s)"
| "guest_view (RespRemove i s) = Response (GRemove i s)"
| "guest_view (RespRename i s) = Response (GRename i s)"
| "guest_view (RespTruncate i s) = Response (GTruncate i s)"
| "guest_view (RespPathQuery i s st path) = Response (GPathQuery i s st path)"
| "guest_view (RespPong i) = Response (GPong i)"
| "guest_view (PathChanged old_path new_path) = Notification (NPathChanged old_path new_path)"
| "guest_view (PathPending handles timeout) = Notification (NPathPending handles timeout)"
| "guest_view PathReady = Notification NPathReady"
| "guest_view InvalidateCache = Notification NInvalidateCache"


section \<open>Codec lemmas\<close>

lemma max_payload_u32: "n \<le> unat MAX_PAYLOAD_SIZE \<Longrightarrow> unat (of_nat n :: u32) = n"
  by (simp add: MAX_PAYLOAD_SIZE_def unat_of_nat)

lemma get_str_put_str [wire_simps]: "short_str s \<Longrightarrow> get_str (put_str s @ r) k = k s r"
  by (simp add: get_str_def put_str_def wire_simps short_str_def unat_of_nat)

lemma get_str_put_str_all [wire_simps]: "short_str s \<Longrightarrow> get_str (put_str s) k = k s []"
  using get_str_put_str [of s "[]"] by simp

lemma get_status_put [wire_simps]:
  "get_status (put_u16_le (status_code s) @ r) k = k s r"
  "get_status (put_u16_le (status_code s)) k = k s []"
  by (simp_all add: get_status_def wire_simps)

lemma get_entries_put [wire_simps]:
  "list_all short_str (map entry_name es) \<Longrightarrow>
    get_entries (length es) (concat (map put_entry es) @ r) k = k es r"
proof (induction es arbitrary: k)
  case (Cons e es)
  then show ?case
    by (cases e) (simp add: put_entry_def wire_simps)
qed simp

lemma length_entries: "length es \<le> length (concat (map put_entry es))"
  by (induction es) (simp_all add: put_entry_def)

lemma get_entries_put_all [wire_simps]:
  "list_all short_str (map entry_name es) \<Longrightarrow>
    get_entries (length es) (concat (map put_entry es)) k = k es []"
  using get_entries_put [of es "[]"] by simp

lemma split_frame_fuse_frame:
  "length p \<le> unat MAX_PAYLOAD_SIZE \<Longrightarrow>
    split_frame (fuse_frame op p @ rest) = Ok (Some (op_code op, p, rest))"
  by (simp add: split_frame_def fuse_frame_def FUSE_HEADER_SIZE_def max_payload_u32 Let_def)

lemma length_fuse_frame: "length (fuse_frame op p) = FUSE_HEADER_SIZE + length p"
  by (simp add: fuse_frame_def FUSE_HEADER_SIZE_def)

text \<open>A proper prefix of a message leaves the decoder waiting.\<close>

lemma split_frame_prefix:
  assumes "length p \<le> unat MAX_PAYLOAD_SIZE" "fuse_frame op p = a @ b" "b \<noteq> []"
  shows "split_frame a = Ok None"
proof (cases "length a < FUSE_HEADER_SIZE")
  case False
  have len: "length a < FUSE_HEADER_SIZE + length p"
    using assms(3) length_fuse_frame [of op p] by (cases b) (simp_all add: assms(2))
  have tk: "take n (drop m a) = take n (drop m (fuse_frame op p))" if "m + n \<le> FUSE_HEADER_SIZE" for m n
    using that False by (simp add: assms(2))
  have "take 4 a = put_u32_be FUSE_MAGIC" "take 4 (drop 6 a) = put_u32_le (of_nat (length p))"
    using tk [of 0 4] tk [of 6 4] by (simp_all add: fuse_frame_def FUSE_HEADER_SIZE_def)
  then show ?thesis
    using False len assms(1) by (simp add: split_frame_def Let_def max_payload_u32)
qed (simp add: split_frame_def)

lemma decode_request_payload_inverse:
  "request_fits r \<Longrightarrow> decode_request_payload (op_type r) (request_payload r) = Ok r"
  by (cases r) (simp_all add: request_fits_def wire_simps max_payload_u32)

lemma decode_response_payload_inverse:
  "response_fits r \<Longrightarrow> decode_response_payload (response_op r) (response_payload r) = Ok (guest_view r)"
proof (cases r)
  case (RespReaddir i s es)
  moreover assume "response_fits r"
  ultimately have "unat (of_nat (length es) :: u32) = length es"
    using length_entries [of es] by (intro max_payload_u32) (simp add: response_fits_def)
  with \<open>response_fits r\<close> RespReaddir show ?thesis
    by (simp add: response_fits_def wire_simps)
qed (simp_all add: response_fits_def wire_simps max_payload_u32)


subsection \<open>The contract of a message codec\<close>

locale message_codec =
  fixes enc :: "'m \<Rightarrow> bytes" and dec :: "bytes \<Rightarrow> ('e, 'v option) outcome \<times> bytes"
    and view :: "'m \<Rightarrow> 'v" and ok :: "'m \<Rightarrow> bool"
  assumes dec_enc: "ok m \<Longrightarrow> dec (enc m @ rest) = (Ok (Some (view m)), rest)"
    and dec_part: "ok m \<Longrightarrow> enc m = a @ b \<Longrightarrow> b \<noteq> [] \<Longrightarrow> dec a = (Ok None, a)"
    and dec_empty: "dec [] = (Ok None, [])"
begin

lemma enc_nonempty: "ok m \<Longrightarrow> enc m \<noteq> []"
  using dec_enc [of m "[]"] dec_empty by auto

end

text \<open>How a pass of a reader loop over its buffer ends.\<close>

datatype loop_exit = Continue bytes | Returned | Panicked

text \<open>A read appends its data to the buffer of a loop that still runs.\<close>

definition reader_feed :: "(bytes \<Rightarrow> 's \<Rightarrow> 's \<times> loop_exit) \<Rightarrow> bytes \<Rightarrow> 's \<times> loop_exit \<Rightarrow> 's \<times> loop_exit" where
  "reader_feed loop data = (\<lambda>(s, e). case e of Continue buf \<Rightarrow> loop (buf @ data) s | _ \<Rightarrow> (s, e))"

text \<open>
  A reader loop on top of a codec: it handles complete messages one by one and keeps the rest.
  Whatever the chunks in which the transport delivers the bytes, the messages are handled exactly
  once and in order.
\<close>

locale message_reader = message_codec enc dec view ok
  for enc :: "'m \<Rightarrow> bytes" and dec :: "bytes \<Rightarrow> ('e, 'v option) outcome \<times> bytes"
    and view :: "'m \<Rightarrow> 'v" and ok :: "'m \<Rightarrow> bool" +
  fixes loop :: "bytes \<Rightarrow> 's \<Rightarrow> 's \<times> loop_exit" and handle :: "'v \<Rightarrow> 's \<Rightarrow> 's"
    and live :: "'s \<Rightarrow> bool"
  assumes loop_some: "dec b = (Ok (Some v), rest) \<Longrightarrow> live s \<Longrightarrow> loop b s = loop rest (handle v s)"
    and live_handle: "live s \<Longrightarrow> live (handle v s)"
    and loop_none: "dec b = (Ok None, rest) \<Longrightarrow> loop b s = (s, Continue rest)"
begin

lemma loop_messages:
  assumes "list_all ok ms" "b @ r = concat (map enc ms)" "live s"
  shows "\<exists>ms1 ms2 b'. ms = ms1 @ ms2 \<and> loop b s = (fold handle (map view ms1) s, Continue b')
    \<and> b' @ r = concat (map enc ms2) \<and> (r = [] \<longrightarrow> ms2 = [])"
  using assms
proof (induction ms arbitrary: b s)
  case Nil
  then show ?case
    using loop_none [OF dec_empty] by auto
next
  case (Cons m ms)
  then have m: "ok m" and ms: "list_all ok ms" and eq: "b @ r = enc m @ concat (map enc ms)"
    and live: "live s"
    by simp_all
  from eq consider (whole) us where "b = enc m @ us" "us @ r = concat (map enc ms)"
    | (part) us where "enc m = b @ us" "us \<noteq> []" "r = us @ concat (map enc ms)"
    by (fastforce simp: append_eq_append_conv2)
  then show ?case
  proof cases
    case whole
    obtain ms1 ms2 b' where ih: "ms = ms1 @ ms2"
        "loop us (handle (view m) s) = (fold handle (map view ms1) (handle (view m) s), Continue b')"
        "b' @ r = concat (map enc ms2)" "r = [] \<longrightarrow> ms2 = []"
      using Cons.IH [OF ms whole(2) live_handle [OF live], of "view m"] by blast
    have "loop b s = loop us (handle (view m) s)"
      using loop_some [of b "view m" us] dec_enc [OF m] live whole(1) by simp
    with ih show ?thesis
      by (intro exI [of _ "m # ms1"] exI [of _ ms2] exI [of _ b']) simp
  next
    case part
    then have "loop b s = (s, Continue b)"
      using loop_none dec_part [OF m] by blast
    with part eq show ?thesis
      by (intro exI [of _ "[]"] exI [of _ "m # ms"] exI [of _ b]) simp
  qed
qed

lemma feed_messages:
  assumes "list_all ok ms" "b @ concat chunks = concat (map enc ms)" "chunks = [] \<Longrightarrow> b = []"
    and "live s"
  shows "fold (reader_feed loop) chunks (s, Continue b) = (fold handle (map view ms) s, Continue [])"
  using assms
proof (induction chunks arbitrary: b s ms)
  case Nil
  then have "ms = []"
    using enc_nonempty by (cases ms) auto
  with Nil show ?case
    by simp
next
  case (Cons c cs)
  obtain ms1 ms2 b' where l: "ms = ms1 @ ms2"
      "loop (b @ c) s = (fold handle (map view ms1) s, Continue b')"
      "b' @ concat cs = concat (map enc ms2)" "concat cs = [] \<longrightarrow> ms2 = []"
    using loop_messages [OF Cons.prems(1), of "b @ c" "concat cs" s] Cons.prems(2,4) by auto
  have "cs = [] \<Longrightarrow> b' = []"
    using l(3,4) by simp
  moreover have "list_all ok ms2"
    using Cons.prems(1) l(1) by simp
  moreover have "live (fold handle vs s)" for vs
    using Cons.prems(4) by (induction vs arbitrary: s) (simp_all add: live_handle)
  ultimately show ?case
    using Cons.IH [OF _ l(3)] l(1,2) by (simp add: reader_feed_def)
qed

end

interpretation request_codec: message_codec encode_request decode_request "\<lambda>r. r" request_fits
proof unfold_locales
  fix r rest assume "request_fits r"
  then show "decode_request (encode_request r @ rest) = (Ok (Some r), rest)"
    using decode_request_payload_inverse [of r]
    by (simp add: decode_request_def encode_request_def split_frame_fuse_frame request_fits_def)
next
  fix r a b assume "request_fits r" "encode_request r = a @ b" "b \<noteq> []"
  then show "decode_request a = (Ok None, a)"
    using split_frame_prefix [of "request_payload r" "op_type r" a b]
    by (simp add: decode_request_def encode_request_def request_fits_def)
qed (simp add: decode_request_def split_frame_def FUSE_HEADER_SIZE_def)

interpretation response_codec: message_codec encode_response decode_response guest_view response_fits
proof unfold_locales
  fix r rest assume "response_fits r"
  then show "decode_response (encode_response r @ rest) = (Ok (Some (guest_view r)), rest)"
    using decode_response_payload_inverse [of r]
    by (simp add: decode_response_def encode_response_def split_frame_fuse_frame response_fits_def
        guest_op_try_from_eq)
next
  fix r a b assume "response_fits r" "encode_response r = a @ b" "b \<noteq> []"
  then show "decode_response a = (Ok None, a)"
    using split_frame_prefix [of "response_payload r" "response_op r" a b]
    by (simp add: decode_response_def encode_response_def response_fits_def)
qed (simp add: decode_response_def split_frame_def FUSE_HEADER_SIZE_def)

text \<open>A consumed message is at least a header long: the reader loops end.\<close>

lemma split_frame_shrinks:
  "split_frame src = Ok (Some (op, p, rest)) \<Longrightarrow> length rest < length src"
  by (auto simp: split_frame_def Let_def FUSE_HEADER_SIZE_def split: if_splits)

lemma decode_request_shrinks: "decode_request src = (Ok (Some r), rest) \<Longrightarrow> length rest < length src"
  by (auto simp: decode_request_def split_frame_shrinks split: outcome.splits option.splits)

lemma decode_response_shrinks: "decode_response src = (Ok (Some r), rest) \<Longrightarrow> length rest < length src"
  by (auto simp: decode_response_def split_frame_shrinks split: outcome.splits option.splits)


section \<open>Properties\<close>

text \<open>C35: a request encoded in the guest and a response or notification encoded in the host are
  decoded on the other side to the same message, whatever bytes follow, provided the strings fit
  the 16-bit length field and the payload the 16 MB limit.\<close>

theorem fuse_roundtrip:
  assumes "request_fits r" "response_fits m"
  shows "decode_request (encode_request r @ rest) = (Ok (Some r), rest)
    \<and> decode_response (encode_response m @ rest) = (Ok (Some (guest_view m)), rest)"
  using request_codec.dec_enc [OF assms(1)] response_codec.dec_enc [OF assms(2)] by simp

theorem fuse_roundtrip_witness:
  "decode_request (encode_request (ReqRename 7 ''/a'' ''/b'') @ [1]) = (Ok (Some (ReqRename 7 ''/a'' ''/b'')), [1])
    \<and> decode_response (encode_response (RespReaddir 7 StOk [\<lparr>entry_type = Regular, entry_name = ''a''\<rparr>]) @ [1])
      = (Ok (Some (guest_view (RespReaddir 7 StOk [\<lparr>entry_type = Regular, entry_name = ''a''\<rparr>]))), [1])"
  by (rule fuse_roundtrip)
    (simp_all add: request_fits_def response_fits_def short_str_def ascii_rust_string is_ascii_def
      MAX_PAYLOAD_SIZE_def put_str_def put_entry_def)

text \<open>a complete request whose payload is shorter than the request id makes the host's decoder
  panic instead of returning an error: the guest can end the host's file proxy task.\<close>

theorem short_request_panics:
  assumes "length p < 8" "op \<in> {OpOpen, OpRead, OpWrite, OpClose, OpReaddir, OpStat, OpMkdir, OpRemove,
      OpRename, OpTruncate, OpPathQuery, OpPing}"
  shows "decode_request (fuse_frame op p @ rest) = (Panic, rest)"
proof -
  have "length p \<le> unat MAX_PAYLOAD_SIZE"
    using assms(1) by (simp add: MAX_PAYLOAD_SIZE_def)
  moreover have "decode_request_payload op p = Panic"
    using assms by (auto simp: get_u64_le_def split_to_def)
  ultimately show ?thesis
    by (simp add: decode_request_def split_frame_fuse_frame)
qed

theorem short_request_panics_witness:
  "decode_request (fuse_frame OpPing [0, 0] @ []) = (Panic, [])"
  by (rule short_request_panics) simp_all

end
