(* ===== verification/Host_Fs.thy ===== *)
theory Host_Fs
  imports Fuse_Protocol
begin

text \<open>
  What the file proxy uses of the standard library's \<open>std::fs\<close> and \<open>std::path\<close> on a Unix host: a
  tree of inodes with files, directories and symbolic links, POSIX path resolution with a bounded
  number of links, and the calls of \<open>file_proxy/handler.rs\<close> and \<open>path_manager.rs\<close> on it.  A call
  may also be refused for reasons outside the tree (permissions, device errors): \<open>deny\<close> is the
  environment's answer.
\<close>

section \<open>The tree\<close>

type_synonym names = "string list"

datatype node = FileNode bytes | DirNode "(string \<times> nat) list" | LinkNode string

record hostfs =
  nodes :: "nat \<Rightarrow> node option"
  modes :: "nat \<Rightarrow> u32"
  next_node :: nat
  cwd :: names

datatype syscall =
    SysCanonicalize string | SysMetadata string | SysOpen string | SysSeek | SysRead | SysWrite
  | SysMkdir string | SysChmod string | SysRemove string | SysRename string string | SysSetLen
  | SysReadDir string

text \<open>
  The environment of a call: its refusal, the bytes a failing write leaves behind, the mode of a
  new inode, the three times of an inode and the size reported for a directory.
\<close>

record os =
  deny :: "syscall \<Rightarrow> ErrorKind option"
  part_written :: nat
  new_mode :: u32
  times :: "nat \<Rightarrow> u64 \<times> u64 \<times> u64"
  dir_len :: "nat \<Rightarrow> nat"

type_synonym 'a io = "(ErrorKind, 'a) outcome"

definition guarded :: "os \<Rightarrow> syscall \<Rightarrow> 'a io \<Rightarrow> 'a io" where
  "guarded env call r = (case deny env call of Some e \<Rightarrow> Err e | None \<Rightarrow> r)"

definition guarded_fs :: "os \<Rightarrow> syscall \<Rightarrow> hostfs \<Rightarrow> 'a io \<times> hostfs \<Rightarrow> 'a io \<times> hostfs" where
  "guarded_fs env call fs r = (case deny env call of Some e \<Rightarrow> (Err e, fs) | None \<Rightarrow> r)"

fun ino_from :: "hostfs \<Rightarrow> nat \<Rightarrow> names \<Rightarrow> nat option" where
  "ino_from fs i [] = Some i"
| "ino_from fs i (n # ns) =
    (case nodes fs i of
       Some (DirNode es) \<Rightarrow> (case map_of es n of Some j \<Rightarrow> ino_from fs j ns | None \<Rightarrow> None)
     | _ \<Rightarrow> None)"

text \<open>The root directory is inode 0.\<close>

definition ino_at :: "hostfs \<Rightarrow> names \<Rightarrow> nat option" where
  "ino_at fs ns = ino_from fs 0 ns"

definition node_at :: "hostfs \<Rightarrow> names \<Rightarrow> node option" where
  "node_at fs ns = (case ino_at fs ns of Some i \<Rightarrow> nodes fs i | None \<Rightarrow> None)"

definition set_node :: "nat \<Rightarrow> node \<Rightarrow> hostfs \<Rightarrow> hostfs" where
  "set_node i n fs = fs\<lparr>nodes := (nodes fs)(i := Some n)\<rparr>"

definition add_entry :: "nat \<Rightarrow> string \<Rightarrow> nat \<Rightarrow> hostfs \<Rightarrow> hostfs" where
  "add_entry d n i fs =
    (case nodes fs d of Some (DirNode es) \<Rightarrow> set_node d (DirNode (es @ [(n, i)])) fs | _ \<Rightarrow> fs)"

definition remove_entry :: "nat \<Rightarrow> string \<Rightarrow> hostfs \<Rightarrow> hostfs" where
  "remove_entry d n fs =
    (case nodes fs d of
       Some (DirNode es) \<Rightarrow> set_node d (DirNode (filter (\<lambda>e. fst e \<noteq> n) es)) fs | _ \<Rightarrow> fs)"


section \<open>Paths\<close>

definition is_absolute :: "string \<Rightarrow> bool" where
  "is_absolute p \<longleftrightarrow> starts_with p ''/''"

text \<open>\<open>Path::components\<close>: empty pieces and inner \<open>.\<close> pieces vanish, the root is a component.\<close>

definition path_components :: "string \<Rightarrow> names" where
  "path_components p =
    (let ws = filter (\<lambda>w. w \<noteq> []) (split_str CHR ''/'' p);
         inner = filter (\<lambda>w. w \<noteq> ''.'')
     in if is_absolute p then ''/'' # inner ws
        else (case ws of [] \<Rightarrow> [] | w # r \<Rightarrow> w # inner r))"

definition path_starts_with :: "string \<Rightarrow> string \<Rightarrow> bool" where
  "path_starts_with p q \<longleftrightarrow> starts_with (path_components p) (path_components q)"

text \<open>\<open>Path::join\<close> with a relative path.\<close>

definition path_join :: "string \<Rightarrow> string \<Rightarrow> string" where
  "path_join p r =
    (if is_absolute r then r
     else if p = [] \<or> ends_with p ''/'' then p @ r else p @ ''/'' @ r)"

definition path_string :: "names \<Rightarrow> string" where
  "path_string ns = (if ns = [] then ''/'' else concat (map (\<lambda>n. CHR ''/'' # n) ns))"

definition MAXSYMLINKS :: nat where "MAXSYMLINKS = 40"

text \<open>
  Resolution of the pieces \<open>todo\<close> from the directory \<open>at\<close>: \<open>follow\<close> tells whether a link in
  the last place is followed, \<open>creating\<close> whether the last piece may be missing.
\<close>

function walk :: "hostfs \<Rightarrow> bool \<Rightarrow> bool \<Rightarrow> nat \<Rightarrow> names \<Rightarrow> names \<Rightarrow> names io" where
  "walk fs follow creating k at [] = Ok at"
| "walk fs follow creating k at (c # cs) =
    (case node_at fs at of
       Some (DirNode es) \<Rightarrow>
         if c = [] \<or> c = ''.'' then walk fs follow creating k at cs
         else if c = ''..'' then walk fs follow creating k (butlast at) cs
         else (case map_of es c of
             None \<Rightarrow> if cs = [] \<and> creating then Ok (at @ [c]) else Err NotFound
           | Some i \<Rightarrow>
               (case nodes fs i of
                  None \<Rightarrow> Err NotFound
                | Some (LinkNode t) \<Rightarrow>
                    if cs = [] \<and> \<not> follow then Ok (at @ [c])
                    else if k = 0 then Err FilesystemLoop
                    else walk fs follow creating (k - 1) (if is_absolute t then [] else at)
                      (split_str CHR ''/'' t @ cs)
                | _ \<Rightarrow> walk fs follow creating k (at @ [c]) cs))
     | _ \<Rightarrow> Err NotADirectory)"
  by pat_completeness auto

termination
  by (relation "measures [\<lambda>(fs, f, c, k, at, todo). k, \<lambda>(fs, f, c, k, at, todo). length todo]") auto

definition resolve :: "hostfs \<Rightarrow> bool \<Rightarrow> bool \<Rightarrow> string \<Rightarrow> names io" where
  "resolve fs follow creating p =
    (if p = [] then Err NotFound
     else walk fs follow creating MAXSYMLINKS (if is_absolute p then [] else cwd fs) (split_str CHR ''/'' p))"


section \<open>Calls\<close>

definition canonicalize :: "os \<Rightarrow> hostfs \<Rightarrow> string \<Rightarrow> string io" where
  "canonicalize env fs p =
    guarded env (SysCanonicalize p) (and_then (resolve fs True False p) (\<lambda>ns. Ok (path_string ns)))"

definition fs_metadata :: "os \<Rightarrow> hostfs \<Rightarrow> string \<Rightarrow> nat io" where
  "fs_metadata env fs p = guarded env (SysMetadata p) (and_then (resolve fs True False p) (\<lambda>ns.
     case ino_at fs ns of Some i \<Rightarrow> Ok i | None \<Rightarrow> Err NotFound))"

definition path_exists :: "os \<Rightarrow> hostfs \<Rightarrow> string \<Rightarrow> bool" where
  "path_exists env fs p \<longleftrightarrow> is_ok (fs_metadata env fs p)"

definition path_is_dir :: "os \<Rightarrow> hostfs \<Rightarrow> string \<Rightarrow> bool" where
  "path_is_dir env fs p =
    (case fs_metadata env fs p of
       Ok i \<Rightarrow> (case nodes fs i of Some (DirNode _) \<Rightarrow> True | _ \<Rightarrow> False) | _ \<Rightarrow> False)"

definition path_is_symlink :: "os \<Rightarrow> hostfs \<Rightarrow> string \<Rightarrow> bool" where
  "path_is_symlink env fs p =
    (case guarded env (SysMetadata p) (resolve fs False False p) of
       Ok ns \<Rightarrow> (case node_at fs ns of Some (LinkNode _) \<Rightarrow> True | _ \<Rightarrow> False) | _ \<Rightarrow> False)"

record OpenOptions =
  o_read :: bool
  o_write :: bool
  o_create :: bool
  o_truncate :: bool
  o_append :: bool

text \<open>The combinations \<open>OpenOptions::open\<close> refuses with \<open>EINVAL\<close>.\<close>

definition options_ok :: "OpenOptions \<Rightarrow> bool" where
  "options_ok opts \<longleftrightarrow> (o_read opts \<or> o_write opts \<or> o_append opts)
     \<and> (if o_append opts then \<not> o_truncate opts
        else o_write opts \<or> \<not> (o_truncate opts \<or> o_create opts))"

record FileHandle =
  f_ino :: nat
  f_read :: bool
  f_write :: bool
  f_append :: bool
  f_pos :: nat

definition new_file :: "OpenOptions \<Rightarrow> nat \<Rightarrow> FileHandle" where
  "new_file opts i = \<lparr>f_ino = i, f_read = o_read opts, f_write = o_write opts \<or> o_append opts,
     f_append = o_append opts, f_pos = 0\<rparr>"

text \<open>A new inode under the last name of a path whose parent is a directory.\<close>

definition new_inode :: "os \<Rightarrow> names \<Rightarrow> node \<Rightarrow> hostfs \<Rightarrow> hostfs" where
  "new_inode env ns n fs =
    (case ino_at fs (butlast ns) of
       Some d \<Rightarrow> add_entry d (last ns) (next_node fs)
         (set_node (next_node fs) n (fs\<lparr>next_node := next_node fs + 1,
            modes := (modes fs)(next_node fs := new_mode env)\<rparr>))
     | None \<Rightarrow> fs)"

definition fs_open :: "os \<Rightarrow> OpenOptions \<Rightarrow> string \<Rightarrow> hostfs \<Rightarrow> FileHandle io \<times> hostfs" where
  "fs_open env opts p fs =
    (if \<not> options_ok opts then (Err InvalidInput, fs)
     else if o_create opts \<and> ends_with p ''/'' then (Err IsADirectory, fs)
     else guarded_fs env (SysOpen p) fs
       (case resolve fs True (o_create opts) p of
          Ok ns \<Rightarrow>
            (case ino_at fs ns of
               Some i \<Rightarrow>
                 (case nodes fs i of
                    Some (FileNode bs) \<Rightarrow>
                      (Ok (new_file opts i), if o_truncate opts then set_node i (FileNode []) fs else fs)
                  | _ \<Rightarrow> if o_write opts \<or> o_append opts \<or> o_create opts then (Err IsADirectory, fs)
                         else (Ok (new_file opts i), fs))
             | None \<Rightarrow> if o_create opts
                 then (Ok (new_file opts (next_node fs)), new_inode env ns (FileNode []) fs)
                 else (Err NotFound, fs))
        | Err e \<Rightarrow> (Err e, fs)
        | Panic \<Rightarrow> (Panic, fs)))"

text \<open>\<open>SeekFrom::Start\<close> converts the offset to a signed 64-bit integer.\<close>

definition file_seek :: "os \<Rightarrow> u64 \<Rightarrow> FileHandle \<Rightarrow> FileHandle io" where
  "file_seek env off f = guarded env SysSeek
     (if unat off < 2 ^ 63 then Ok (f\<lparr>f_pos := unat off\<rparr>) else Err InvalidInput)"

definition file_read :: "os \<Rightarrow> nat \<Rightarrow> FileHandle \<Rightarrow> hostfs \<Rightarrow> bytes io" where
  "file_read env n f fs = guarded env SysRead
     (if \<not> f_read f then Err OtherError
      else (case nodes fs (f_ino f) of
              Some (FileNode bs) \<Rightarrow> Ok (take n (drop (f_pos f) bs))
            | _ \<Rightarrow> Err IsADirectory))"

definition write_at :: "nat \<Rightarrow> bytes \<Rightarrow> bytes \<Rightarrow> bytes" where
  "write_at pos data bs =
    take pos bs @ replicate (pos - length bs) 0 @ data @ drop (pos + length data) bs"

text \<open>\<open>write_all\<close>: nothing at all for empty data; a failing write may have written a part.\<close>

definition file_write_all :: "os \<Rightarrow> bytes \<Rightarrow> FileHandle \<Rightarrow> hostfs \<Rightarrow> unit io \<times> hostfs" where
  "file_write_all env data f fs =
    (if data = [] then (Ok (), fs)
     else if \<not> f_write f then (Err OtherError, fs)
     else (case nodes fs (f_ino f) of
             Some (FileNode bs) \<Rightarrow>
               (let put = (\<lambda>d. set_node (f_ino f)
                      (FileNode (write_at (if f_append f then length bs else f_pos f) d bs)) fs)
                in case deny env SysWrite of
                     None \<Rightarrow> (Ok (), put data)
                   | Some e \<Rightarrow> (Err e, put (take (part_written env) data)))
           | _ \<Rightarrow> (Err OtherError, fs)))"

definition file_set_len :: "os \<Rightarrow> u64 \<Rightarrow> FileHandle \<Rightarrow> hostfs \<Rightarrow> unit io \<times> hostfs" where
  "file_set_len env sz f fs = guarded_fs env SysSetLen fs
     (if \<not> unat sz < 2 ^ 63 \<or> \<not> f_write f then (Err InvalidInput, fs)
      else (case nodes fs (f_ino f) of
              Some (FileNode bs) \<Rightarrow>
                (Ok (), set_node (f_ino f) (FileNode (take (unat sz) bs @ replicate (unat sz - length bs) 0)) fs)
            | _ \<Rightarrow> (Err InvalidInput, fs)))"

definition create_dir :: "os \<Rightarrow> string \<Rightarrow> hostfs \<Rightarrow> unit io \<times> hostfs" where
  "create_dir env p fs = guarded_fs env (SysMkdir p) fs
     (case resolve fs False True (trim_end_matches CHR ''/'' p) of
        Ok ns \<Rightarrow> (case ino_at fs ns of
                    Some _ \<Rightarrow> (Err AlreadyExists, fs)
                  | None \<Rightarrow> (Ok (), new_inode env ns (DirNode []) fs))
      | Err e \<Rightarrow> (Err e, fs)
      | Panic \<Rightarrow> (Panic, fs))"

text \<open>\<open>chmod\<close> keeps the type bits.\<close>

definition set_permissions :: "os \<Rightarrow> string \<Rightarrow> u32 \<Rightarrow> hostfs \<Rightarrow> hostfs" where
  "set_permissions env p mode fs =
    (case guarded env (SysChmod p) (fs_metadata env fs p) of
       Ok i \<Rightarrow> fs\<lparr>modes := (modes fs)(i :=
         (let m = modes fs i in m - take_bit 12 m + take_bit 12 mode))\<rparr>
     | _ \<Rightarrow> fs)"

definition remove_file :: "os \<Rightarrow> string \<Rightarrow> hostfs \<Rightarrow> unit io \<times> hostfs" where
  "remove_file env p fs = guarded_fs env (SysRemove p) fs
     (case resolve fs False False p of
        Ok ns \<Rightarrow> (case node_at fs ns of
            Some (DirNode _) \<Rightarrow> (Err IsADirectory, fs)
          | _ \<Rightarrow> (case ino_at fs (butlast ns) of
                    Some d \<Rightarrow> (Ok (), remove_entry d (last ns) fs) | None \<Rightarrow> (Err NotFound, fs)))
      | Err e \<Rightarrow> (Err e, fs)
      | Panic \<Rightarrow> (Panic, fs))"

definition remove_dir :: "os \<Rightarrow> string \<Rightarrow> hostfs \<Rightarrow> unit io \<times> hostfs" where
  "remove_dir env p fs = guarded_fs env (SysRemove p) fs
     (case resolve fs False False p of
        Ok ns \<Rightarrow> (case node_at fs ns of
            Some (DirNode es) \<Rightarrow>
              if ns = [] then (Err OtherError, fs)
              else if es \<noteq> [] then (Err DirectoryNotEmpty, fs)
              else (case ino_at fs (butlast ns) of
                      Some d \<Rightarrow> (Ok (), remove_entry d (last ns) fs) | None \<Rightarrow> (Err NotFound, fs))
          | _ \<Rightarrow> (Err NotADirectory, fs))
      | Err e \<Rightarrow> (Err e, fs)
      | Panic \<Rightarrow> (Panic, fs))"

fun is_dir_node :: "node option \<Rightarrow> bool" where
  "is_dir_node (Some (DirNode _)) = True"
| "is_dir_node _ = False"

text \<open>The checks of \<open>rename(2)\<close> on an existing target.\<close>

definition rename_target_ok :: "node option \<Rightarrow> node option \<Rightarrow> unit io" where
  "rename_target_ok src tgt =
    (case tgt of
       Some (DirNode es) \<Rightarrow> if \<not> is_dir_node src then Err IsADirectory
         else if es \<noteq> [] then Err DirectoryNotEmpty else Ok ()
     | Some _ \<Rightarrow> if is_dir_node src then Err NotADirectory else Ok ()
     | None \<Rightarrow> Ok ())"

definition fs_rename :: "os \<Rightarrow> string \<Rightarrow> string \<Rightarrow> hostfs \<Rightarrow> unit io \<times> hostfs" where
  "fs_rename env p q fs = guarded_fs env (SysRename p q) fs
     (case and_then (resolve fs False False p) (\<lambda>old.
           and_then (resolve fs False True (trim_end_matches CHR ''/'' q)) (\<lambda>new. Ok (old, new))) of
        Ok (old, new) \<Rightarrow>
          if old = [] \<or> new = [] then (Err OtherError, fs)
          else if starts_with new old \<and> new \<noteq> old then (Err InvalidInput, fs)
          else (case (ino_at fs old, ino_at fs (butlast old), ino_at fs (butlast new)) of
              (Some i, Some d, Some e) \<Rightarrow>
                if ino_at fs new = Some i then (Ok (), fs)
                else (case rename_target_ok (nodes fs i) (node_at fs new) of
                    Ok _ \<Rightarrow> (Ok (), add_entry e (last new) i
                              (remove_entry e (last new) (remove_entry d (last old) fs)))
                  | Err er \<Rightarrow> (Err er, fs)
                  | Panic \<Rightarrow> (Panic, fs))
            | _ \<Rightarrow> (Err NotFound, fs))
      | Err e \<Rightarrow> (Err e, fs)
      | Panic \<Rightarrow> (Panic, fs))"

definition read_dir :: "os \<Rightarrow> hostfs \<Rightarrow> string \<Rightarrow> names io" where
  "read_dir env fs p = guarded env (SysReadDir p) (and_then (resolve fs True False p) (\<lambda>ns.
     case node_at fs ns of Some (DirNode es) \<Rightarrow> Ok (map fst es) | _ \<Rightarrow> Err NotADirectory))"


section \<open>Link-free paths\<close>

text \<open>
  \<open>real_from fs i ns\<close>: the names lead from the directory \<open>i\<close> through directories only to an object
  that is not a link.
\<close>

definition good_name :: "string \<Rightarrow> bool" where
  "good_name n \<longleftrightarrow> n \<noteq> [] \<and> n \<noteq> ''.'' \<and> n \<noteq> ''..'' \<and> CHR ''/'' \<notin> set n"

fun real_from :: "hostfs \<Rightarrow> nat \<Rightarrow> names \<Rightarrow> bool" where
  "real_from fs i [] = (case nodes fs i of None \<Rightarrow> False | Some (LinkNode _) \<Rightarrow> False | _ \<Rightarrow> True)"
| "real_from fs i (n # ns) =
    (case nodes fs i of
       Some (DirNode es) \<Rightarrow>
         good_name n \<and> (case map_of es n of Some j \<Rightarrow> real_from fs j ns | None \<Rightarrow> False)
     | _ \<Rightarrow> False)"

abbreviation real_path :: "hostfs \<Rightarrow> names \<Rightarrow> bool" where
  "real_path fs ns \<equiv> real_from fs 0 ns"

lemma real_from_node: "real_from fs i ns \<Longrightarrow> \<exists>n. nodes fs i = Some n \<and> (\<forall>t. n \<noteq> LinkNode t)"
  by (cases ns) (auto split: option.splits node.splits)

lemma real_from_names: "real_from fs i ns \<Longrightarrow> list_all good_name ns"
  by (induction fs i ns rule: real_from.induct) (auto split: option.splits node.splits)

lemma real_from_append:
  "real_from fs i (xs @ y # ys) \<longleftrightarrow>
    real_from fs i xs \<and> (\<exists>j es k. ino_from fs i xs = Some j \<and> nodes fs j = Some (DirNode es)
      \<and> good_name y \<and> map_of es y = Some k \<and> real_from fs k ys)"
proof (induction xs arbitrary: i)
  case Nil
  then show ?case
    by (auto split: option.splits node.splits)
next
  case (Cons x xs)
  show ?case
    by (auto simp: Cons split: option.splits node.splits)
qed

lemma real_from_ino:
  "real_from fs i ns \<Longrightarrow>
    \<exists>j n. ino_from fs i ns = Some j \<and> nodes fs j = Some n \<and> (\<forall>t. n \<noteq> LinkNode t)"
proof (induction ns arbitrary: i)
  case Nil
  then show ?case using real_from_node [of fs i "[]"] by simp
next
  case (Cons n ns)
  then show ?case by (auto split: option.splits node.splits)
qed

lemma real_butlast: "real_from fs i ns \<Longrightarrow> real_from fs i (butlast ns)"
  by (cases ns rule: rev_cases) (auto simp: real_from_append)

lemma walk_real:
  assumes "walk fs True False k at todo = Ok ns" "real_path fs at"
    and "\<forall>w \<in> set todo. CHR ''/'' \<notin> set w" "real_path fs []"
  shows "real_path fs ns"
  using assms
proof (induction fs True False k at todo rule: walk.induct)
  case (2 fs k at c cs)
  note IH = 2(1-5) and walk = 2(6) and at = 2(7) and sep = 2(8) and root = 2(9)
  obtain es where es: "node_at fs at = Some (DirNode es)"
    using walk by (auto split: option.splits node.splits)
  have seps: "\<forall>w \<in> set cs. CHR ''/'' \<notin> set w" "CHR ''/'' \<notin> set c"
    using sep by auto
  show ?case
  proof (cases "c = [] \<or> c = ''.''")
    case True
    then show ?thesis using IH(1) [OF es refl True] walk es at seps root by auto
  next
    case False
    note dot = False
    show ?thesis
    proof (cases "c = ''..''")
      case True
      then show ?thesis using IH(2) [OF es refl dot True] walk es dot real_butlast [OF at] seps root by auto
    next
      case False
      then obtain i where i: "map_of es c = Some i"
        using walk es dot by (auto split: option.splits if_splits)
      have ino: "ino_from fs 0 at = Some j \<Longrightarrow> nodes fs j = Some (DirNode es)" for j
        using es by (simp add: node_at_def ino_at_def)
      obtain j where j: "ino_from fs 0 at = Some j"
        using real_from_ino [OF at] by auto
      obtain n where n: "nodes fs i = Some n"
        using walk es dot False i by (auto split: option.splits)
      show ?thesis
      proof (cases n)
        case (LinkNode t)
        have "\<forall>w \<in> set (split_str CHR ''/'' t @ cs). CHR ''/'' \<notin> set w"
          using seps split_str_sep_free [of _ "CHR ''/''" t] by auto
        moreover have "real_path fs (if is_absolute t then [] else at)"
          using at root by simp
        ultimately show ?thesis
          using IH(5) [OF es refl dot False i n LinkNode] walk es dot False i n LinkNode root
          by (auto split: if_splits)
      next
        case (FileNode bs)
        then have "real_path fs (at @ [c])"
          using at j ino [OF j] dot False seps(2) i n by (auto simp: real_from_append good_name_def)
        then show ?thesis
          using IH(3) [OF es refl dot False i n FileNode] walk es dot False i n FileNode seps(1) root by auto
      next
        case (DirNode bs)
        then have "real_path fs (at @ [c])"
          using at j ino [OF j] dot False seps(2) i n by (auto simp: real_from_append good_name_def)
        then show ?thesis
          using IH(4) [OF es refl dot False i n DirNode] walk es dot False i n DirNode seps(1) root by auto
      qed
    qed
  qed
qed auto

lemma walk_real_prefix:
  "real_path fs (at @ xs) \<Longrightarrow> walk fs follow creating k at (xs @ ys) = walk fs follow creating k (at @ xs) ys"
proof (induction xs arbitrary: at)
  case (Cons n ns)
  then obtain j es m where "ino_from fs 0 at = Some j" "nodes fs j = Some (DirNode es)" "good_name n"
      "map_of es n = Some m" "real_from fs m ns"
    by (auto simp: real_from_append)
  moreover obtain nd where "nodes fs m = Some nd" "\<forall>t. nd \<noteq> LinkNode t"
    using \<open>real_from fs m ns\<close> real_from_node by blast
  moreover have "walk fs follow creating k (at @ [n]) (ns @ ys) = walk fs follow creating k (at @ n # ns) ys"
    using Cons by simp
  ultimately show ?case
    by (cases nd) (simp_all add: node_at_def ino_at_def good_name_def)
qed simp

lemma walk_real_id: "real_path fs (at @ ns) \<Longrightarrow> walk fs follow creating k at ns = Ok (at @ ns)"
  using walk_real_prefix [of fs at ns follow creating k "[]"] by simp

lemma path_string_Cons: "ns \<noteq> [] \<Longrightarrow> path_string ns = CHR ''/'' # hd ns @ (if tl ns = [] then [] else path_string (tl ns))"
  by (cases ns) (auto simp: path_string_def)

lemma split_path_string:
  "list_all good_name ns \<Longrightarrow> split_str CHR ''/'' (path_string ns) = [] # (if ns = [] then [[]] else ns)"
proof (induction ns)
  case (Cons n ns)
  then have n: "CHR ''/'' \<notin> set n"
    by (simp add: good_name_def)
  show ?case
  proof (cases "ns = []")
    case True
    then show ?thesis using n by (simp add: path_string_def split_str_no_sep)
  next
    case False
    then obtain r where r: "path_string ns = CHR ''/'' # r"
      by (simp add: path_string_Cons)
    then have "split_str CHR ''/'' r = ns"
      using Cons False by simp
    with n False r show ?thesis
      by (simp add: path_string_Cons split_str_append)
  qed
qed (simp add: path_string_def)

lemma is_absolute_path_string [simp]: "is_absolute (path_string ns)"
  by (cases ns) (simp_all add: path_string_def is_absolute_def)

lemma path_components_path_string:
  "list_all good_name ns \<Longrightarrow> path_components (path_string ns) = ''/'' # ns"
proof -
  assume g: "list_all good_name ns"
  then have "filter (\<lambda>w. w \<noteq> ''.'') (filter (\<lambda>w. w \<noteq> []) ns) = ns"
    by (induction ns) (auto simp: good_name_def)
  with g show ?thesis
    by (simp add: path_components_def split_path_string Let_def)
qed

lemma path_starts_with_path_string:
  "list_all good_name ns \<Longrightarrow> list_all good_name ms \<Longrightarrow>
    path_starts_with (path_string ns) (path_string ms) \<longleftrightarrow> starts_with ns ms"
  by (simp add: path_starts_with_def path_components_path_string)

text \<open>The root is a directory.\<close>

definition root_ok :: "hostfs \<Rightarrow> bool" where
  "root_ok fs \<longleftrightarrow> (case nodes fs 0 of Some (DirNode _) \<Rightarrow> True | _ \<Rightarrow> False)"

lemma root_real: "root_ok fs \<Longrightarrow> real_path fs []"
  by (auto simp: root_ok_def split: option.splits node.splits)

lemma resolve_path_string:
  assumes "real_path fs ns" "root_ok fs"
  shows "resolve fs follow creating (path_string ns) = Ok ns"
proof -
  obtain es where "node_at fs [] = Some (DirNode es)"
    using assms(2) by (auto simp: root_ok_def node_at_def ino_at_def split: option.splits node.splits)
  moreover have "path_string ns \<noteq> []"
    by (cases ns) (simp_all add: path_string_def)
  ultimately show ?thesis
    using walk_real_id [of fs "[]" ns follow creating MAXSYMLINKS] assms(1)
    by (simp add: resolve_def split_path_string real_from_names)
qed

lemma resolve_real:
  assumes "resolve fs True False p = Ok ns" "root_ok fs" "real_path fs (cwd fs)"
  shows "real_path fs ns"
proof (rule walk_real)
  show "walk fs True False MAXSYMLINKS (if is_absolute p then [] else cwd fs) (split_str CHR ''/'' p) = Ok ns"
    using assms(1) by (simp add: resolve_def split: if_splits)
  show "\<forall>w \<in> set (split_str CHR ''/'' p). CHR ''/'' \<notin> set w"
    using split_str_sep_free by fastforce
qed (use assms(2,3) root_real in auto)

lemma canonicalize_real:
  assumes "canonicalize env fs p = Ok q" "root_ok fs" "real_path fs (cwd fs)"
  obtains ns where "q = path_string ns" "real_path fs ns"
  using assms resolve_real [OF _ assms(2,3)]
  by (auto simp: canonicalize_def guarded_def split: option.splits)

lemma real_path_node:
  assumes "real_path fs ns"
  obtains i n where "ino_at fs ns = Some i" "nodes fs i = Some n" "node_at fs ns = Some n" "\<forall>t. n \<noteq> LinkNode t"
  using real_from_ino [OF assms] by (auto simp: ino_at_def node_at_def)


text \<open>Appending a name to a canonical path.\<close>

lemma ends_with_singleton: "ends_with s [c] \<longleftrightarrow> s \<noteq> [] \<and> last s = c"
  by (cases s rule: rev_cases) (auto simp: ends_with_iff)

lemma path_join_name:
  assumes "list_all good_name ns" "good_name n"
  shows "path_join (path_string ns) n = path_string (ns @ [n])"
proof -
  have n: "\<not> is_absolute n"
    using assms(2) by (cases n) (auto simp: is_absolute_def good_name_def)
  show ?thesis
  proof (cases ns rule: rev_cases)
    case Nil
    with n show ?thesis
      by (simp add: path_join_def path_string_def ends_with_def)
  next
    case (snoc ms m)
    then have m: "m \<noteq> []" "CHR ''/'' \<notin> set m"
      using assms(1) by (auto simp: good_name_def)
    then have "last m \<noteq> CHR ''/''"
      using last_in_set [of m] by metis
    with m(1) have "\<not> ends_with (path_string ns) ''/''"
      by (simp add: path_string_def snoc ends_with_singleton)
    with n snoc show ?thesis
      by (simp add: path_join_def path_string_def)
  qed
qed

text \<open>A last name that is a link to a canonical path is followed there.\<close>

lemma resolve_link:
  assumes "real_path fs ns" "root_ok fs" "node_at fs ns = Some (DirNode es)" "map_of es n = Some i"
    and "nodes fs i = Some (LinkNode (path_string out))" "good_name n" "real_path fs out"
  shows "resolve fs True creating (path_string (ns @ [n])) = Ok out"
proof -
  obtain rs where root: "node_at fs [] = Some (DirNode rs)"
    using assms(2) by (auto simp: root_ok_def node_at_def ino_at_def split: option.splits node.splits)
  have good: "list_all good_name (ns @ [n])" "list_all good_name out"
    using assms(1,6,7) real_from_names by auto
  have "walk fs True creating MAXSYMLINKS [] (ns @ [n]) = walk fs True creating MAXSYMLINKS ns [n]"
    using walk_real_prefix [of fs "[]" ns] assms(1) by simp
  also have "\<dots> = walk fs True creating (MAXSYMLINKS - 1) [] ([] # (if out = [] then [[]] else out))"
    using assms(3-6) by (simp add: good_name_def MAXSYMLINKS_def split_path_string good(2))
  also have "\<dots> = Ok out"
    using root walk_real_id [of fs "[]" out] assms(7) by simp
  finally show ?thesis
    using root split_path_string [OF good(1)] by (simp add: resolve_def) (simp add: path_string_def)
qed

end
