(* ===== verification/File_Proxy.thy ===== *)
theory File_Proxy
  imports Host_Fs
begin

unbundle bit_operations_syntax

text \<open>
  The host side of a shared folder: \<open>file_proxy/path_manager.rs\<close> (the shared directory and its
  switching) and \<open>file_proxy/handler.rs\<close> (one handler per request, the request loop).  The
  notifications a switch sends and the unmount signal are fields of the state, in the order of
  sending; a lock is held for the whole of each modelled step.
\<close>

section \<open>Path manager\<close>

datatype PathState = Active | Pending | Switching

fun path_state_code :: "PathState \<Rightarrow> u8" where
  "path_state_code Active = 0"
| "path_state_code Pending = 1"
| "path_state_code Switching = 2"

definition DEFAULT_SWITCH_TIMEOUT :: nat where "DEFAULT_SWITCH_TIMEOUT = 30"

record PathManager =
  current_path :: string
  pending_path :: "string option"
  previous_paths :: "string list"
  pm_state :: PathState
  open_handles :: "u64 list"
  switch_timeout :: nat
  pending_since :: "nat option"
  notification_tx :: bool
  unmount_tx :: bool
  sent_notes :: "FuseResponse list"
  unmount_signals :: nat

definition path_manager_new :: "os \<Rightarrow> hostfs \<Rightarrow> string \<Rightarrow> PathManager" where
  "path_manager_new env fs initial_path =
    \<lparr>current_path = (case canonicalize env fs initial_path of Ok p \<Rightarrow> p | _ \<Rightarrow> initial_path),
     pending_path = None, previous_paths = [], pm_state = Active, open_handles = [],
     switch_timeout = DEFAULT_SWITCH_TIMEOUT, pending_since = None, notification_tx = False,
     unmount_tx = False, sent_notes = [], unmount_signals = 0\<rparr>"

definition set_notification_channel :: "PathManager \<Rightarrow> PathManager" where
  "set_notification_channel pm = pm\<lparr>notification_tx := True\<rparr>"

definition register_handle :: "u64 \<Rightarrow> PathManager \<Rightarrow> PathManager" where
  "register_handle fd pm = pm\<lparr>open_handles := List.insert fd (open_handles pm)\<rparr>"

definition notify :: "FuseResponse list \<Rightarrow> PathManager \<Rightarrow> PathManager" where
  "notify ms pm = (if notification_tx pm then pm\<lparr>sent_notes := sent_notes pm @ ms\<rparr> else pm)"

definition to_string_lossy :: "string \<Rightarrow> string" where
  "to_string_lossy p = from_utf8_lossy (str_bytes p)"

definition complete_switch :: "PathManager \<Rightarrow> PathManager" where
  "complete_switch pm =
    (case pending_path pm of
       Some new_path \<Rightarrow>
         notify [PathChanged (to_string_lossy (current_path pm)) (to_string_lossy new_path), PathReady,
             InvalidateCache]
           (pm\<lparr>pending_path := None, previous_paths := previous_paths pm @ [current_path pm],
               current_path := new_path, pm_state := Active, pending_since := None\<rparr>)
     | None \<Rightarrow> pm)"

definition signal_unmount :: "PathManager \<Rightarrow> PathManager" where
  "signal_unmount pm =
    (if unmount_tx pm then pm\<lparr>unmount_tx := False, unmount_signals := unmount_signals pm + 1\<rparr> else pm)"

definition unregister_handle :: "u64 \<Rightarrow> PathManager \<Rightarrow> PathManager" where
  "unregister_handle fd pm =
    (let pm = pm\<lparr>open_handles := removeAll fd (open_handles pm)\<rparr>;
         pm = (if pm_state pm = Pending \<and> open_handles pm = [] then complete_switch pm else pm)
     in if unmount_tx pm \<and> open_handles pm = [] then signal_unmount pm else pm)"

definition set_unmount_pending :: "PathManager \<Rightarrow> PathManager" where
  "set_unmount_pending pm = pm\<lparr>unmount_tx := True\<rparr>"

definition clear_open_handles :: "PathManager \<Rightarrow> PathManager" where
  "clear_open_handles pm = signal_unmount (pm\<lparr>open_handles := []\<rparr>)"

definition do_switch :: "string \<Rightarrow> PathManager \<Rightarrow> PathManager" where
  "do_switch new_path pm =
    notify [PathChanged (to_string_lossy (current_path pm)) (to_string_lossy new_path), InvalidateCache]
      (pm\<lparr>current_path := new_path, previous_paths := previous_paths pm @ [current_path pm],
          pm_state := Active, pending_since := None, pending_path := None\<rparr>)"

datatype path_error = PathMissing | PathNotDirectory | PathIo ErrorKind | NoPendingChange
  | EscapesSandbox | ParentTraversal

definition request_path_change ::
  "os \<Rightarrow> hostfs \<Rightarrow> nat \<Rightarrow> string \<Rightarrow> PathManager \<Rightarrow> (path_error, bool) outcome \<times> PathManager" where
  "request_path_change env fs now new_path pm =
    (if \<not> path_exists env fs new_path then (Err PathMissing, pm)
     else if \<not> path_is_dir env fs new_path then (Err PathNotDirectory, pm)
     else (case canonicalize env fs new_path of
         Ok new_path \<Rightarrow>
           if new_path = current_path pm then (Ok True, pm)
           else if open_handles pm = [] then (Ok True, do_switch new_path pm)
           else (Ok False,
             notify [PathPending (of_nat (length (open_handles pm))) (of_nat (switch_timeout pm))]
               (pm\<lparr>pending_path := Some new_path, pm_state := Pending, pending_since := Some now\<rparr>))
       | Err e \<Rightarrow> (Err (PathIo e), pm)
       | Panic \<Rightarrow> (Panic, pm)))"

definition force_switch :: "PathManager \<Rightarrow> (path_error, unit) outcome \<times> PathManager" where
  "force_switch pm =
    (case pending_path pm of
       Some new_path \<Rightarrow> (Ok (), do_switch new_path (pm\<lparr>pending_path := None, open_handles := []\<rparr>))
     | None \<Rightarrow> (Err NoPendingChange, pm))"

definition cancel_path_change :: "PathManager \<Rightarrow> PathManager" where
  "cancel_path_change pm =
    notify [PathReady] (pm\<lparr>pending_path := None, pm_state := Active, pending_since := None\<rparr>)"

definition check_timeout :: "nat \<Rightarrow> PathManager \<Rightarrow> bool" where
  "check_timeout now pm =
    (case pending_since pm of Some since \<Rightarrow> now - since > switch_timeout pm | None \<Rightarrow> False)"

definition trim_start_matches :: "char \<Rightarrow> string \<Rightarrow> string" where
  "trim_start_matches c s = dropWhile (\<lambda>x. x = c) s"

definition resolve_path :: "os \<Rightarrow> hostfs \<Rightarrow> PathManager \<Rightarrow> string \<Rightarrow> (path_error, string) outcome" where
  "resolve_path env fs pm relative_path =
    (let relative = trim_start_matches CHR ''/'' relative_path;
         full_path = (if relative = [] then current_path pm else path_join (current_path pm) relative)
     in case canonicalize env fs full_path of
          Ok canonical \<Rightarrow>
            if \<not> path_starts_with canonical (current_path pm) then Err EscapesSandbox else Ok canonical
        | Err e \<Rightarrow> Err (PathIo e)
        | Panic \<Rightarrow> Panic)"

definition validate_new_path :: "PathManager \<Rightarrow> string \<Rightarrow> (path_error, string) outcome" where
  "validate_new_path pm relative_path =
    (let relative = trim_start_matches CHR ''/'' relative_path
     in if ''..'' \<in> set (path_components relative) then Err ParentTraversal
        else Ok (path_join (current_path pm) relative))"


section \<open>File proxy\<close>

record OpenFile =
  of_file :: FileHandle
  of_path :: string
  of_is_dir :: bool

record FileProxy =
  path_manager :: PathManager
  open_files :: "u64 \<Rightarrow> OpenFile option"
  next_fd :: u64
  fp_read_only :: bool
  vm_mount :: string
  shutdown_notified :: bool

definition file_proxy_new :: "os \<Rightarrow> hostfs \<Rightarrow> string \<Rightarrow> bool \<Rightarrow> string \<Rightarrow> FileProxy" where
  "file_proxy_new env fs shared_path ro mount =
    \<lparr>path_manager = path_manager_new env fs shared_path, open_files = (\<lambda>_. None), next_fd = 1,
     fp_read_only = ro, vm_mount = mount, shutdown_notified = False\<rparr>"

definition fp_shutdown :: "FileProxy \<Rightarrow> FileProxy" where
  "fp_shutdown p = p\<lparr>shutdown_notified := True\<rparr>"

text \<open>The number of open handles, and whether an unmount now waits for them.\<close>

definition request_unmount :: "FileProxy \<Rightarrow> (nat \<times> bool) \<times> FileProxy" where
  "request_unmount p =
    (let count = length (open_handles (path_manager p))
     in if count = 0 then ((0, False), p)
        else ((count, True), p\<lparr>path_manager := set_unmount_pending (path_manager p)\<rparr>))"

definition force_unmount :: "FileProxy \<Rightarrow> FileProxy" where
  "force_unmount p = fp_shutdown (p\<lparr>open_files := (\<lambda>_. None),
     path_manager := clear_open_handles (path_manager p)\<rparr>)"

type_synonym share = "FileProxy \<times> hostfs"

text \<open>The flags of \<open>open(2)\<close> the handler looks at.\<close>

definition open_options :: "u32 \<Rightarrow> OpenOptions" where
  "open_options flags =
    (let access_mode = flags AND 3
     in \<lparr>o_read = access_mode = 0 \<or> access_mode = 2, o_write = access_mode = 1 \<or> access_mode = 2,
         o_create = flags AND 0x40 \<noteq> 0, o_truncate = flags AND 0x200 \<noteq> 0,
         o_append = flags AND 0x400 \<noteq> 0\<rparr>)"

text \<open>A directory is opened with \<open>File::open\<close>.\<close>

definition dir_options :: OpenOptions where
  "dir_options = \<lparr>o_read = True, o_write = False, o_create = False, o_truncate = False, o_append = False\<rparr>"

definition handle_open :: "os \<Rightarrow> RequestId \<Rightarrow> u32 \<Rightarrow> u32 \<Rightarrow> string \<Rightarrow> share \<Rightarrow> FuseResponse \<times> share" where
  "handle_open env i flags mode path = (\<lambda>(p, fs).
    (let pm = path_manager p;
         access_mode = flags AND 3;
         is_write = (access_mode = 1 \<or> access_mode = 2);
         create = flags AND 0x40 \<noteq> 0;
         fail = (\<lambda>s. RespOpen i s 0)
     in if pm_state pm \<noteq> Active then (fail ErrBusy, p, fs)
        else if fp_read_only p \<and> (is_write \<or> create) then (fail ErrAccess, p, fs)
        else (case (if create then validate_new_path pm path else resolve_path env fs pm path) of
            Ok full_path \<Rightarrow>
              (let is_dir = path_is_dir env fs full_path;
                   opts = (if is_dir then dir_options else open_options flags)
               in case fs_open env opts full_path fs of
                    (Ok f, fs') \<Rightarrow>
                      (let fd = next_fd p
                       in (RespOpen i StOk fd,
                           p\<lparr>next_fd := fd + 1, path_manager := register_handle fd pm,
                             open_files := (open_files p)(fd := Some \<lparr>of_file = f, of_path = full_path,
                               of_is_dir = is_dir\<rparr>)\<rparr>, fs'))
                  | (Err e, fs') \<Rightarrow> (fail (status_from e), p, fs')
                  | (Panic, fs') \<Rightarrow> (fail ErrIo, p, fs'))
          | _ \<Rightarrow> (fail (if create then ErrSandboxed else ErrNoent), p, fs))))"

text \<open>Every read and write seeks first, so the position a transfer leaves behind is not tracked.\<close>

definition handle_read :: "os \<Rightarrow> RequestId \<Rightarrow> u64 \<Rightarrow> u64 \<Rightarrow> u32 \<Rightarrow> share \<Rightarrow> FuseResponse \<times> share" where
  "handle_read env i fd off sz = (\<lambda>(p, fs).
    (case open_files p fd of
       None \<Rightarrow> (RespRead i ErrNoent [], p, fs)
     | Some f \<Rightarrow>
         (case file_seek env off (of_file f) of
            Ok h \<Rightarrow>
              (case file_read env (unat sz) h fs of
                 Ok data \<Rightarrow> (RespRead i StOk data,
                     p\<lparr>open_files := (open_files p)(fd := Some (f\<lparr>of_file := h\<rparr>))\<rparr>, fs)
               | Err e \<Rightarrow> (RespRead i (status_from e) [],
                     p\<lparr>open_files := (open_files p)(fd := Some (f\<lparr>of_file := h\<rparr>))\<rparr>, fs)
               | Panic \<Rightarrow> (RespRead i ErrIo [], p, fs))
          | Err e \<Rightarrow> (RespRead i (status_from e) [], p, fs)
          | Panic \<Rightarrow> (RespRead i ErrIo [], p, fs))))"

definition handle_write :: "os \<Rightarrow> RequestId \<Rightarrow> u64 \<Rightarrow> u64 \<Rightarrow> bytes \<Rightarrow> share \<Rightarrow> FuseResponse \<times> share" where
  "handle_write env i fd off data = (\<lambda>(p, fs).
    (if fp_read_only p then (RespWrite i ErrAccess 0, p, fs)
     else (case open_files p fd of
         None \<Rightarrow> (RespWrite i ErrNoent 0, p, fs)
       | Some f \<Rightarrow>
           (case file_seek env off (of_file f) of
              Ok h \<Rightarrow>
                (let p' = p\<lparr>open_files := (open_files p)(fd := Some (f\<lparr>of_file := h\<rparr>))\<rparr>
                 in case file_write_all env data h fs of
                      (Ok _, fs') \<Rightarrow> (RespWrite i StOk (of_nat (length data)), p', fs')
                    | (Err e, fs') \<Rightarrow> (RespWrite i (status_from e) 0, p', fs')
                    | (Panic, fs') \<Rightarrow> (RespWrite i ErrIo 0, p', fs'))
            | Err e \<Rightarrow> (RespWrite i (status_from e) 0, p, fs)
            | Panic \<Rightarrow> (RespWrite i ErrIo 0, p, fs)))))"

definition handle_close :: "RequestId \<Rightarrow> u64 \<Rightarrow> share \<Rightarrow> FuseResponse \<times> share" where
  "handle_close i fd = (\<lambda>(p, fs).
    (RespClose i StOk, p\<lparr>open_files := (open_files p)(fd := None),
       path_manager := unregister_handle fd (path_manager p)\<rparr>, fs))"

definition dir_entry :: "os \<Rightarrow> hostfs \<Rightarrow> string \<Rightarrow> string \<Rightarrow> DirEntry" where
  "dir_entry env fs dir name =
    (let path = path_join dir name
     in \<lparr>entry_type = (if path_is_dir env fs path then Directory
                       else if path_is_symlink env fs path then Symlink else Regular),
         entry_name = to_string_lossy name\<rparr>)"

definition handle_readdir :: "os \<Rightarrow> RequestId \<Rightarrow> u64 \<Rightarrow> u64 \<Rightarrow> u32 \<Rightarrow> share \<Rightarrow> FuseResponse \<times> share" where
  "handle_readdir env i fd off max_entries = (\<lambda>(p, fs).
    ((case open_files p fd of
        None \<Rightarrow> RespReaddir i ErrNoent []
      | Some f \<Rightarrow>
          if \<not> of_is_dir f then RespReaddir i ErrNotdir []
          else (case read_dir env fs (of_path f) of
              Ok entries \<Rightarrow>
                RespReaddir i StOk (map (dir_entry env fs (of_path f)) (take (unat max_entries) entries))
            | Err e \<Rightarrow> RespReaddir i (status_from e) []
            | Panic \<Rightarrow> RespReaddir i ErrIo [])), p, fs))"

definition node_size :: "os \<Rightarrow> hostfs \<Rightarrow> nat \<Rightarrow> nat" where
  "node_size env fs i =
    (case nodes fs i of Some (FileNode bs) \<Rightarrow> length bs | Some (LinkNode t) \<Rightarrow> length t | _ \<Rightarrow> dir_len env i)"

definition handle_stat :: "os \<Rightarrow> RequestId \<Rightarrow> string \<Rightarrow> share \<Rightarrow> FuseResponse \<times> share" where
  "handle_stat env i path = (\<lambda>(p, fs).
    ((case resolve_path env fs (path_manager p) path of
        Ok full_path \<Rightarrow>
          (case fs_metadata env fs full_path of
             Ok ino \<Rightarrow>
               (let (mtime, atime, ctime) = times env ino
                in RespStat i StOk
                    \<lparr>attr_type = file_type_code (if is_dir_node (nodes fs ino) then Directory
                         else (case nodes fs ino of Some (LinkNode _) \<Rightarrow> Symlink | _ \<Rightarrow> Regular)),
                     attr_mode = modes fs ino, attr_size = of_nat (node_size env fs ino),
                     attr_mtime = mtime, attr_atime = atime, attr_ctime = ctime\<rparr>)
           | Err e \<Rightarrow> RespStat i (status_from e) file_attr_default
           | Panic \<Rightarrow> RespStat i ErrIo file_attr_default)
      | _ \<Rightarrow> RespStat i ErrNoent file_attr_default), p, fs))"

text \<open>The status of a call that changes the tree.\<close>

fun io_status :: "unit io \<Rightarrow> StatusCode" where
  "io_status (Ok _) = StOk"
| "io_status (Err e) = status_from e"
| "io_status Panic = ErrIo"

definition handle_mkdir :: "os \<Rightarrow> RequestId \<Rightarrow> u32 \<Rightarrow> string \<Rightarrow> share \<Rightarrow> FuseResponse \<times> share" where
  "handle_mkdir env i mode path = (\<lambda>(p, fs).
    (if fp_read_only p then (RespMkdir i ErrAccess, p, fs)
     else (case validate_new_path (path_manager p) path of
         Ok full_path \<Rightarrow>
           (let (r, fs') = create_dir env full_path fs
            in (RespMkdir i (io_status r), p,
                if is_ok r then set_permissions env full_path mode fs' else fs'))
       | _ \<Rightarrow> (RespMkdir i ErrSandboxed, p, fs))))"

definition handle_remove :: "os \<Rightarrow> RequestId \<Rightarrow> bool \<Rightarrow> string \<Rightarrow> share \<Rightarrow> FuseResponse \<times> share" where
  "handle_remove env i is_dir path = (\<lambda>(p, fs).
    (if fp_read_only p then (RespRemove i ErrAccess, p, fs)
     else (case resolve_path env fs (path_manager p) path of
         Ok full_path \<Rightarrow>
           (let (r, fs') = (if is_dir then remove_dir env full_path fs else remove_file env full_path fs)
            in (RespRemove i (io_status r), p, fs'))
       | _ \<Rightarrow> (RespRemove i ErrNoent, p, fs))))"

definition handle_rename :: "os \<Rightarrow> RequestId \<Rightarrow> string \<Rightarrow> string \<Rightarrow> share \<Rightarrow> FuseResponse \<times> share" where
  "handle_rename env i old_path new_path = (\<lambda>(p, fs).
    (if fp_read_only p then (RespRename i ErrAccess, p, fs)
     else (case resolve_path env fs (path_manager p) old_path of
         Ok old_full \<Rightarrow>
           (case validate_new_path (path_manager p) new_path of
              Ok new_full \<Rightarrow>
                (let (r, fs') = fs_rename env old_full new_full fs in (RespRename i (io_status r), p, fs'))
            | _ \<Rightarrow> (RespRename i ErrSandboxed, p, fs))
       | _ \<Rightarrow> (RespRename i ErrNoent, p, fs))))"

definition handle_truncate :: "os \<Rightarrow> RequestId \<Rightarrow> string \<Rightarrow> u64 \<Rightarrow> share \<Rightarrow> FuseResponse \<times> share" where
  "handle_truncate env i path sz = (\<lambda>(p, fs).
    (if fp_read_only p then (RespTruncate i ErrAccess, p, fs)
     else (case resolve_path env fs (path_manager p) path of
         Ok full_path \<Rightarrow>
           (case fs_open env \<lparr>o_read = False, o_write = True, o_create = False, o_truncate = False,
                o_append = False\<rparr> full_path fs of
              (Ok f, fs') \<Rightarrow>
                (let (r, fs'') = file_set_len env sz f fs' in (RespTruncate i (io_status r), p, fs''))
            | (Err e, fs') \<Rightarrow> (RespTruncate i (status_from e), p, fs')
            | (Panic, fs') \<Rightarrow> (RespTruncate i ErrIo, p, fs'))
       | _ \<Rightarrow> (RespTruncate i ErrNoent, p, fs))))"

definition handle_path_query :: "RequestId \<Rightarrow> share \<Rightarrow> FuseResponse \<times> share" where
  "handle_path_query i = (\<lambda>(p, fs).
    (RespPathQuery i StOk (path_state_code (pm_state (path_manager p)))
       (to_string_lossy (current_path (path_manager p))), p, fs))"

fun fp_handle_request :: "os \<Rightarrow> FuseRequest \<Rightarrow> share \<Rightarrow> FuseResponse \<times> share" where
  "fp_handle_request env (ReqOpen i flags mode path) sh = handle_open env i flags mode path sh"
| "fp_handle_request env (ReqRead i fd off sz) sh = handle_read env i fd off sz sh"
| "fp_handle_request env (ReqWrite i fd off data) sh = handle_write env i fd off data sh"
| "fp_handle_request env (ReqClose i fd) sh = handle_close i fd sh"
| "fp_handle_request env (ReqReaddir i fd off mx) sh = handle_readdir env i fd off mx sh"
| "fp_handle_request env (ReqStat i path) sh = handle_stat env i path sh"
| "fp_handle_request env (ReqMkdir i mode path) sh = handle_mkdir env i mode path sh"
| "fp_handle_request env (ReqRemove i is_dir path) sh = handle_remove env i is_dir path sh"
| "fp_handle_request env (ReqRename i old_path new_path) sh = handle_rename env i old_path new_path sh"
| "fp_handle_request env (ReqTruncate i path sz) sh = handle_truncate env i path sz sh"
| "fp_handle_request env (ReqPathQuery i) sh = handle_path_query i sh"
| "fp_handle_request env (ReqPing i) sh = (RespPong i, sh)"


section \<open>The request loop\<close>

text \<open>
  The state of \<open>listen\<close>: the share, the responses queued for the writer task, and whether that
  task has gone.  \<open>envs n\<close> is the environment of the \<open>n\<close>-th request.
\<close>

record served =
  the_share :: share
  replies :: "FuseResponse list"
  writer_gone :: bool

definition handshake :: "FileProxy \<Rightarrow> bytes" where
  "handshake p = put_u16_le (of_nat (length (vm_mount p))) @ str_bytes (vm_mount p)"

definition listen_start :: "share \<Rightarrow> bytes \<times> served" where
  "listen_start = (\<lambda>(p, fs). (handshake p,
     \<lparr>the_share = (p\<lparr>path_manager := set_notification_channel (path_manager p)\<rparr>, fs), replies = [],
      writer_gone = False\<rparr>))"

definition serve :: "(nat \<Rightarrow> os) \<Rightarrow> FuseRequest \<Rightarrow> served \<Rightarrow> served" where
  "serve envs r st =
    (let (resp, sh) = fp_handle_request (envs (length (replies st))) r (the_share st)
     in st\<lparr>the_share := sh, replies := (if writer_gone st then replies st else replies st @ [resp])\<rparr>)"

function proxy_loop :: "(nat \<Rightarrow> os) \<Rightarrow> bytes \<Rightarrow> served \<Rightarrow> served \<times> loop_exit" where
  "proxy_loop envs buf st =
    (case decode_request buf of
       (Ok (Some r), rest) \<Rightarrow>
         if writer_gone st then (serve envs r st, Returned) else proxy_loop envs rest (serve envs r st)
     | (Ok None, rest) \<Rightarrow> (st, Continue rest)
     | (Err e, rest) \<Rightarrow> (st, Returned)
     | (Panic, rest) \<Rightarrow> (st, Panicked))"
  by pat_completeness auto

termination
  by (relation "measure (\<lambda>(envs, buf, st). length buf)") (auto dest: decode_request_shrinks [OF sym])

declare proxy_loop.simps [simp del]


section \<open>What the handlers change\<close>

lemmas handler_defs = handle_open_def handle_read_def handle_write_def handle_close_def
  handle_readdir_def handle_stat_def handle_mkdir_def handle_remove_def handle_rename_def
  handle_truncate_def handle_path_query_def

lemma handle_pm:
  assumes "fp_handle_request env r (p, fs) = (resp, p', fs')"
  shows "path_manager p' = (case r of ReqClose i fd \<Rightarrow> unregister_handle fd (path_manager p) | _ \<Rightarrow> path_manager p)
    \<or> pm_state (path_manager p) = Active \<and> path_manager p' = register_handle (next_fd p) (path_manager p)"
  using assms
  by (cases r) (auto simp: handler_defs Let_def split: if_splits option.splits outcome.splits prod.splits)

lemma handle_read_only_flag:
  "fp_handle_request env r (p, fs) = (resp, p', fs') \<Longrightarrow> fp_read_only p' = fp_read_only p"
  by (cases r) (auto simp: handler_defs Let_def split: if_splits option.splits outcome.splits prod.splits)

lemma handle_reply_id:
  "fp_handle_request env r (p, fs) = (resp, p', fs') \<Longrightarrow>
    \<exists>g. guest_view resp = Response g \<and> response_id g = request_id r"
  by (cases r) (auto simp: handler_defs Let_def split: if_splits option.splits outcome.splits prod.splits)

text \<open>Opening without write access, creation or truncation changes nothing.\<close>

lemma fs_open_pure:
  "\<not> o_write opts \<Longrightarrow> \<not> o_create opts \<Longrightarrow> snd (fs_open env opts q fs) = fs"
  by (auto simp: fs_open_def guarded_fs_def options_ok_def split: option.splits outcome.splits node.splits)

lemma handle_read_only_fs:
  assumes "fp_handle_request env r (p, fs) = (resp, p', fs')" "fp_read_only p"
  shows "fs' = fs"
proof (cases r)
  case (ReqOpen i flags mode path)
  have "snd (fs_open env (open_options flags) q fs) = fs"
    if "\<not> (flags AND 3 = 1 \<or> flags AND 3 = 2 \<or> flags AND 0x40 \<noteq> 0)" for q
    using that by (intro fs_open_pure) (auto simp: open_options_def Let_def)
  moreover have "snd (fs_open env dir_options q fs) = fs" for q
    by (rule fs_open_pure) (simp_all add: dir_options_def)
  ultimately show ?thesis
    using assms ReqOpen
    by (auto simp: handle_open_def Let_def split: if_splits outcome.splits prod.splits)
      (metis snd_conv)+
qed (use assms in \<open>auto simp: handler_defs Let_def split: if_splits option.splits outcome.splits prod.splits\<close>)


subsection \<open>The loop\<close>

lemma serve_reply:
  "\<not> writer_gone st \<Longrightarrow> \<exists>resp g. replies (serve envs r st) = replies st @ [resp]
    \<and> guest_view resp = Response g \<and> response_id g = request_id r"
  by (cases "the_share st") (auto simp: serve_def split: prod.splits dest: handle_reply_id)

lemma serve_gone [simp]: "writer_gone (serve envs r st) = writer_gone st"
  by (simp add: serve_def split: prod.splits)

lemma serve_fold_gone [simp]: "writer_gone (fold (serve envs) rs st) = writer_gone st"
  by (induction rs arbitrary: st) simp_all

interpretation proxy_reader: message_reader encode_request decode_request "\<lambda>r. r" request_fits
  "proxy_loop envs" "serve envs" "\<lambda>st. \<not> writer_gone st"
  by unfold_locales (simp_all add: proxy_loop.simps)

definition answers :: "FuseRequest \<Rightarrow> FuseResponse \<Rightarrow> bool" where
  "answers r resp = (case guest_view resp of Response g \<Rightarrow> response_id g = request_id r | _ \<Rightarrow> False)"

lemma serve_fold_replies:
  "\<not> writer_gone st \<Longrightarrow>
    \<exists>resps. replies (fold (serve envs) rs st) = replies st @ resps \<and> list_all2 answers rs resps"
proof (induction rs arbitrary: st)
  case (Cons r rs)
  obtain resp g where "replies (serve envs r st) = replies st @ [resp]" "answers r resp"
    using serve_reply [OF Cons.prems, of envs r] by (auto simp: answers_def)
  moreover obtain resps where "replies (fold (serve envs) rs (serve envs r st)) = replies (serve envs r st) @ resps"
      "list_all2 answers rs resps"
    using Cons.IH [of "serve envs r st"] Cons.prems by auto
  ultimately show ?case
    by (intro exI [of _ "resp # resps"]) simp
qed simp

lemma proxy_loop_preserves:
  assumes "\<And>r st. P st \<Longrightarrow> P (serve envs r st)" "P st"
  shows "P (fst (proxy_loop envs buf st))"
  using assms
proof (induction envs buf st rule: proxy_loop.induct)
  case (1 envs buf st)
  note IH = 1(1) and step = 1(2) and st = 1(3)
  show ?case
  proof (cases "decode_request buf")
    case (Pair o' rest)
    show ?thesis
    proof (cases "\<exists>r. o' = Ok (Some r) \<and> \<not> writer_gone st")
      case True
      then obtain r where r: "o' = Ok (Some r)" "\<not> writer_gone st" by blast
      then have "P (fst (proxy_loop envs rest (serve envs r st)))"
        using IH [OF Pair [symmetric] r(1) refl r(2)] step step [OF st] by blast
      with Pair r show ?thesis
        by (simp add: proxy_loop.simps [of envs buf])
    next
      case False
      with Pair st step show ?thesis
        by (auto simp: proxy_loop.simps [of envs buf] split: outcome.splits option.splits)
    qed
  qed
qed

lemma serve_read_only:
  assumes "fp_read_only (fst (the_share st))"
  shows "fp_read_only (fst (the_share (serve envs r st)))"
    and "snd (the_share (serve envs r st)) = snd (the_share st)"
proof -
  obtain resp p' fs' where h: "fp_handle_request (envs (length (replies st))) r (the_share st) = (resp, p', fs')"
    by (cases "fp_handle_request (envs (length (replies st))) r (the_share st)")
  then show "fp_read_only (fst (the_share (serve envs r st)))"
      and "snd (the_share (serve envs r st)) = snd (the_share st)"
    using assms handle_read_only_flag handle_read_only_fs
    by (cases "the_share st"; fastforce simp: serve_def)+
qed

lemma reader_feed_read_only:
  assumes "fp_read_only (fst (the_share st))"
  shows "snd (the_share (fst (fold (reader_feed (proxy_loop envs)) chunks (st, e)))) = snd (the_share st)"
  using assms
proof (induction chunks arbitrary: st e)
  case (Cons c cs)
  let ?P = "\<lambda>t. fp_read_only (fst (the_share t)) \<and> snd (the_share t) = snd (the_share st)"
  obtain st' e' where f: "reader_feed (proxy_loop envs) c (st, e) = (st', e')"
    by (cases "reader_feed (proxy_loop envs) c (st, e)")
  have "?P (fst (proxy_loop envs b st))" for b
    by (rule proxy_loop_preserves) (use Cons.prems serve_read_only in auto)
  then have "?P st'"
    using f Cons.prems by (auto simp: reader_feed_def split: loop_exit.splits) (metis fst_conv)+
  then show ?case
    using Cons.IH [of st' e'] f by simp
qed simp


subsection \<open>Path switching\<close>

text \<open>What holds of the path manager between requests, unless an unmount was forced.\<close>

definition pm_inv :: "PathManager \<Rightarrow> bool" where
  "pm_inv pm \<longleftrightarrow> pm_state pm \<noteq> Switching \<and> distinct (open_handles pm)
     \<and> (pm_state pm = Pending \<longleftrightarrow> pending_path pm \<noteq> None)
     \<and> (pm_state pm = Pending \<longleftrightarrow> pending_since pm \<noteq> None)
     \<and> (pm_state pm = Pending \<longrightarrow> open_handles pm \<noteq> [])"

lemmas pm_defs = notify_def complete_switch_def signal_unmount_def unregister_handle_def
  register_handle_def do_switch_def set_unmount_pending_def cancel_path_change_def
  set_notification_channel_def Let_def

lemma insert_not_Nil [simp]: "List.insert x xs \<noteq> []"
  by (metis List.set_insert empty_set insert_not_empty)

lemma pm_inv_ops:
  assumes "pm_inv pm"
  shows "pm_inv (register_handle fd pm)" "pm_inv (unregister_handle fd pm)"
    "pm_inv (set_unmount_pending pm)" "pm_inv (set_notification_channel pm)"
    "pm_inv (cancel_path_change pm)" "pm_inv (snd (force_switch pm))"
    "pm_inv (snd (request_path_change env fs now q pm))"
  using assms
  by (auto simp: pm_inv_def pm_defs force_switch_def request_path_change_def distinct_removeAll
      split: option.splits if_splits outcome.splits)

lemma pm_inv_request:
  "fp_handle_request env r (p, fs) = (resp, p', fs') \<Longrightarrow> pm_inv (path_manager p) \<Longrightarrow> pm_inv (path_manager p')"
  by (drule handle_pm) (auto simp: pm_inv_ops split: FuseRequest.splits)

lemma pm_inv_new: "pm_inv (path_manager_new env fs q)"
  by (simp add: pm_inv_def path_manager_new_def)

text \<open>A pending switch to \<open>new\<close>, or the switch done.\<close>

definition closing :: "FuseRequest \<Rightarrow> u64 set" where
  "closing r = (case r of ReqClose _ fd \<Rightarrow> {fd} | _ \<Rightarrow> {})"

definition switching_to :: "string \<Rightarrow> PathManager \<Rightarrow> u64 set \<Rightarrow> bool" where
  "switching_to new pm fds \<longleftrightarrow> pm_inv pm \<and>
     (if pm_state pm = Pending then pending_path pm = Some new \<and> set (open_handles pm) \<subseteq> fds
      else pm_state pm = Active \<and> current_path pm = new)"

lemma unregister_pending:
  assumes "pm_inv pm" "pm_state pm = Pending" "pending_path pm = Some new"
  shows "if set (open_handles pm) \<subseteq> {fd}
    then pm_state (unregister_handle fd pm) = Active \<and> current_path (unregister_handle fd pm) = new
    else pm_state (unregister_handle fd pm) = Pending \<and> pending_path (unregister_handle fd pm) = Some new
      \<and> set (open_handles (unregister_handle fd pm)) = set (open_handles pm) - {fd}"
proof -
  have "removeAll fd (open_handles pm) = [] \<longleftrightarrow> set (open_handles pm) \<subseteq> {fd}"
    by (induction "open_handles pm") (auto simp: removeAll_filter_not_eq filter_empty_conv)
  with assms show ?thesis
    by (auto simp: pm_defs pm_inv_def)
qed

lemma unregister_active:
  "pm_state pm = Active \<Longrightarrow> pm_state (unregister_handle fd pm) = Active
    \<and> current_path (unregister_handle fd pm) = current_path pm"
  by (simp add: pm_defs)

lemma switching_request:
  assumes "fp_handle_request env r (p, fs) = (resp, p', fs')"
    and "switching_to new (path_manager p) (closing r \<union> fds)"
  shows "switching_to new (path_manager p') fds"
proof -
  let ?pm = "path_manager p"
  have inv: "pm_inv ?pm" "pm_inv (path_manager p')"
    using assms pm_inv_request by (auto simp: switching_to_def)
  have idle: "switching_to new ?pm fds" if "\<forall>i fd. r \<noteq> ReqClose i fd"
    using that assms(2) by (auto simp: closing_def split: FuseRequest.splits)
  have close: "switching_to new (unregister_handle fd ?pm) fds" if "r = ReqClose i fd" for i fd
    using assms(2) that unregister_pending [OF inv(1), of new fd] unregister_active [of ?pm fd]
      pm_inv_ops(2) [OF inv(1), of fd]
    by (auto simp: switching_to_def closing_def split: if_splits)
  have opens: "switching_to new (register_handle fd ?pm) fds" if "pm_state ?pm = Active" for fd
    using that assms(2) pm_inv_ops(1) [OF inv(1), of fd] by (auto simp: switching_to_def register_handle_def)
  show ?thesis
    using handle_pm [OF assms(1)] idle close opens by (cases r) auto
qed

lemma switching_serve:
  assumes "switching_to new (path_manager (fst (the_share st))) (\<Union> (closing ` set rs))"
  shows "switching_to new (path_manager (fst (the_share (fold (serve envs) rs st)))) {}"
  using assms
proof (induction rs arbitrary: st)
  case (Cons r rs)
  obtain p fs where sh: "the_share st = (p, fs)" by (cases "the_share st")
  obtain resp p' fs' where "fp_handle_request (envs (length (replies st))) r (p, fs) = (resp, p', fs')"
    by (cases "fp_handle_request (envs (length (replies st))) r (p, fs)")
  then have "switching_to new (path_manager (fst (the_share (serve envs r st)))) (\<Union> (closing ` set rs))"
    using switching_request [of _ r p fs resp p' fs' new "\<Union> (closing ` set rs)"] Cons.prems sh
    by (simp add: serve_def)
  then show ?case
    using Cons.IH by simp
qed simp


subsection \<open>The sandbox\<close>

text \<open>The objects of the shared directory: reached from it without a link.\<close>

definition share_objects :: "names \<Rightarrow> hostfs \<Rightarrow> nat set" where
  "share_objects root fs = {i. \<exists>ns. real_path fs ns \<and> starts_with ns root \<and> ino_at fs ns = Some i}"

text \<open>The share is at the canonical path \<open>root\<close>.\<close>

definition shared_at :: "names \<Rightarrow> FileProxy \<Rightarrow> hostfs \<Rightarrow> bool" where
  "shared_at root p fs \<longleftrightarrow> root_ok fs \<and> real_path fs (cwd fs) \<and> real_path fs root
     \<and> current_path (path_manager p) = path_string root"

lemma resolve_path_in_share:
  assumes "resolve_path env fs (path_manager p) rel = Ok q" "shared_at root p fs"
  obtains ns where "q = path_string ns" "real_path fs ns" "starts_with ns root"
proof -
  from assms obtain full where c: "canonicalize env fs full = Ok q"
      and st: "path_starts_with q (path_string root)"
    by (auto simp: resolve_path_def shared_at_def Let_def split: outcome.splits if_splits)
  obtain ns where ns: "q = path_string ns" "real_path fs ns"
    using canonicalize_real [OF c] assms(2) by (auto simp: shared_at_def)
  moreover have "starts_with ns root"
    using st ns assms(2) path_starts_with_path_string real_from_names by (auto simp: shared_at_def)
  ultimately show ?thesis
    using that by blast
qed

lemma fs_open_in_share:
  assumes "fs_open env opts (path_string ns) fs = (Ok f, fs')" "\<not> o_create opts"
    and "real_path fs ns" "root_ok fs" "starts_with ns root"
  shows "f_ino f \<in> share_objects root fs" "nodes fs' j \<noteq> nodes fs j \<Longrightarrow> j = f_ino f"
proof -
  obtain i n where i: "ino_at fs ns = Some i" "nodes fs i = Some n" "\<forall>t. n \<noteq> LinkNode t"
    using real_path_node [OF assms(3)] by metis
  have f: "f = new_file opts i" and fs': "fs' = fs \<or> fs' = set_node i (FileNode []) fs"
    using assms(1,2) i resolve_path_string [OF assms(3,4)]
    by (auto simp: fs_open_def guarded_fs_def split: if_splits option.splits node.splits)
  show "f_ino f \<in> share_objects root fs"
    using f i(1) assms(3,5) by (auto simp: share_objects_def new_file_def)
  show "nodes fs' j \<noteq> nodes fs j \<Longrightarrow> j = f_ino f"
    using f fs' by (auto simp: set_node_def new_file_def split: if_splits)
qed

lemma fs_open_err: "fs_open env opts q fs = (Err e, fs') \<Longrightarrow> fs' = fs"
  "fs_open env opts q fs = (Panic, fs') \<Longrightarrow> fs' = fs"
  by (auto simp: fs_open_def guarded_fs_def split: if_splits option.splits node.splits outcome.splits)

lemma file_set_len_nodes: "nodes (snd (file_set_len env sz f fs)) j \<noteq> nodes fs j \<Longrightarrow> j = f_ino f"
  by (auto simp: file_set_len_def guarded_fs_def set_node_def split: if_splits option.splits node.splits)

lemma open_in_share:
  assumes "handle_open env i flags mode path (p, fs) = (resp, p', fs')" "flags AND 0x40 = 0" "shared_at root p fs"
  shows "nodes fs' j \<noteq> nodes fs j \<Longrightarrow> j \<in> share_objects root fs"
    and "open_files p' fd = Some f \<Longrightarrow> open_files p fd \<noteq> Some f \<Longrightarrow> f_ino (of_file f) \<in> share_objects root fs"
proof -
  define opts where "opts = (\<lambda>q. if path_is_dir env fs q then dir_options else open_options flags)"
  have opts: "\<not> o_create (opts q)" for q
    using assms(2) by (simp add: opts_def dir_options_def open_options_def Let_def)
  consider "fs' = fs" "p' = p"
    | q h ns where "fs_open env (opts q) q fs = (Ok h, fs')" "q = path_string ns" "real_path fs ns" "starts_with ns root"
        "open_files p' = (open_files p)(next_fd p := Some \<lparr>of_file = h, of_path = q, of_is_dir = path_is_dir env fs q\<rparr>)"
  proof -
    assume t1: "fs' = fs \<Longrightarrow> p' = p \<Longrightarrow> thesis"
      and t2: "\<And>q h ns. fs_open env (opts q) q fs = (Ok h, fs') \<Longrightarrow> q = path_string ns \<Longrightarrow> real_path fs ns \<Longrightarrow>
        starts_with ns root \<Longrightarrow> open_files p' = (open_files p)(next_fd p := Some \<lparr>of_file = h, of_path = q,
          of_is_dir = path_is_dir env fs q\<rparr>) \<Longrightarrow> thesis"
    show thesis
    proof (cases "resolve_path env fs (path_manager p) path")
      case (Ok q)
      then obtain ns where "q = path_string ns" "real_path fs ns" "starts_with ns root"
        using resolve_path_in_share assms(3) by blast
      with Ok assms(1,2) t1 t2 [of q _ ns] show ?thesis
        by (auto simp: handle_open_def Let_def opts_def dest: fs_open_err split: if_splits outcome.splits prod.splits)
    qed (use assms(1,2) t1 in \<open>auto simp: handle_open_def Let_def split: if_splits\<close>)
  qed
  then have "(nodes fs' j \<noteq> nodes fs j \<longrightarrow> j \<in> share_objects root fs)
    \<and> (open_files p' fd = Some f \<longrightarrow> open_files p fd \<noteq> Some f \<longrightarrow> f_ino (of_file f) \<in> share_objects root fs)"
  proof cases
    case (2 q h ns)
    have "root_ok fs"
      using assms(3) by (simp add: shared_at_def)
    then have "f_ino h \<in> share_objects root fs" "nodes fs' j \<noteq> nodes fs j \<Longrightarrow> j = f_ino h"
      using fs_open_in_share [OF 2(1) [unfolded 2(2)] opts [of q, unfolded 2(2)] 2(3) _ 2(4)] by blast+
    with 2(5) show ?thesis
      by auto
  qed simp
  then show "nodes fs' j \<noteq> nodes fs j \<Longrightarrow> j \<in> share_objects root fs"
    and "open_files p' fd = Some f \<Longrightarrow> open_files p fd \<noteq> Some f \<Longrightarrow> f_ino (of_file f) \<in> share_objects root fs"
    by blast+
qed

lemma truncate_in_share:
  assumes "handle_truncate env i path sz (p, fs) = (resp, p', fs')" "shared_at root p fs" "nodes fs' j \<noteq> nodes fs j"
  shows "j \<in> share_objects root fs"
proof -
  let ?opts = "\<lparr>o_read = False, o_write = True, o_create = False, o_truncate = False, o_append = False\<rparr>"
  from assms(1,3) obtain q f fs1 where q: "resolve_path env fs (path_manager p) path = Ok q"
      and o: "fs_open env ?opts q fs = (Ok f, fs1)" and l: "fs' = snd (file_set_len env sz f fs1)"
    by (auto simp: handle_truncate_def dest: fs_open_err split: if_splits outcome.splits prod.splits)
  obtain ns where ns: "q = path_string ns" "real_path fs ns" "starts_with ns root"
    using resolve_path_in_share [OF q assms(2)] .
  have "j = f_ino f"
    using fs_open_in_share(2) [OF o [unfolded ns(1)] _ ns(2) _ ns(3)] file_set_len_nodes assms(2,3) l
    by (auto simp: shared_at_def) metis
  with fs_open_in_share(1) [OF o [unfolded ns(1)] _ ns(2) _ ns(3)] assms(2) show ?thesis
    by (simp add: shared_at_def)
qed


lemma create_follows_link:
  assumes "shared_at root p fs" "pm_state (path_manager p) = Active" "\<not> fp_read_only p" "\<And>c. deny env c = None"
    and "node_at fs root = Some (DirNode es)" "map_of es l = Some k" "good_name l"
    and "nodes fs k = Some (LinkNode (path_string out))" "real_path fs out" "node_at fs out = Some (FileNode bs)"
    and "flags AND 3 = 1" "flags AND 0x40 \<noteq> 0" "flags AND 0x400 = 0"
  shows "\<exists>p' fs' f. handle_open env i flags mode (CHR ''/'' # l) (p, fs) = (RespOpen i StOk (next_fd p), p', fs')
    \<and> open_files p' (next_fd p) = Some f \<and> ino_at fs out = Some (f_ino (of_file f)) \<and> f_write (of_file f)"
proof -
  have r: "real_path fs root" "root_ok fs" "current_path (path_manager p) = path_string root"
    using assms(1) by (simp_all add: shared_at_def)
  have l: "l \<noteq> []" "hd l \<noteq> CHR ''/''" "CHR ''/'' \<notin> set l" "l \<noteq> ''..''"
    using assms(7) by (cases l; auto simp: good_name_def)+
  have comps: "''..'' \<notin> set (path_components l)"
    using l by (cases l) (auto simp: path_components_def split_str_no_sep is_absolute_def Let_def)
  have "trim_start_matches CHR ''/'' (CHR ''/'' # l) = l"
    using l by (cases l) (simp_all add: trim_start_matches_def)
  then have val: "validate_new_path (path_manager p) (CHR ''/'' # l) = Ok (path_string (root @ [l]))"
    using comps path_join_name [of root l] real_from_names [OF r(1)] assms(7)
    by (simp add: validate_new_path_def r(3) Let_def)
  have res: "resolve fs True creating (path_string (root @ [l])) = Ok out" for creating
    using resolve_link [OF r(1,2) assms(5,6,8,7,9)] .
  obtain i where i: "ino_at fs out = Some i" "nodes fs i = Some (FileNode bs)"
    using assms(10) by (auto simp: node_at_def split: option.splits)
  have dir: "\<not> path_is_dir env fs (path_string (root @ [l]))"
    using res i assms(4) by (simp add: path_is_dir_def fs_metadata_def guarded_def)
  have "last l \<noteq> CHR ''/''"
    using l last_in_set [of l] by metis
  then have "\<not> ends_with (path_string (root @ [l])) ''/''"
    using l(1) by (simp add: ends_with_singleton path_string_def)
  then have "\<exists>f fs'. fs_open env (open_options flags) (path_string (root @ [l])) fs = (Ok f, fs') \<and> f_ino f = i \<and> f_write f"
    using res i assms(4,11-13)
    by (simp add: fs_open_def guarded_fs_def open_options_def options_ok_def new_file_def Let_def)
  then show ?thesis
    using val dir i assms(2,3,12) by (auto simp: handle_open_def Let_def)
qed

lemma status_from_not_ok [simp]: "status_from e \<noteq> StOk" "StOk \<noteq> status_from e"
  by (cases e; simp)+

lemma write_at_read: "take (length data) (drop pos (write_at pos data bs)) = data"
  by (simp add: write_at_def min_def)


section \<open>Properties\<close>

definition sample_env :: os where
  "sample_env = \<lparr>deny = (\<lambda>_. None), part_written = 0, new_mode = 0x81A4, times = (\<lambda>_. (0, 0, 0)),
     dir_len = (\<lambda>_. 4096)\<rparr>"

text \<open>\<open>/s\<close> holds a file \<open>f\<close> and a link \<open>l\<close> to \<open>/x\<close>, which is outside.\<close>

definition sample_fs :: hostfs where
  "sample_fs = \<lparr>nodes = (\<lambda>_. None)(0 := Some (DirNode [(''s'', 1), (''x'', 2)]),
       1 := Some (DirNode [(''l'', 3), (''f'', 4)]), 2 := Some (FileNode [7]), 3 := Some (LinkNode ''/x''),
       4 := Some (FileNode [1, 2, 3])), modes = (\<lambda>_. 0), next_node = 5, cwd = []\<rparr>"

definition sample_proxy :: "bool \<Rightarrow> FileProxy" where
  "sample_proxy ro = \<lparr>path_manager = \<lparr>current_path = ''/s'', pending_path = None, previous_paths = [],
       pm_state = Active, open_handles = [1], switch_timeout = 30, pending_since = None, notification_tx = True,
       unmount_tx = False, sent_notes = [], unmount_signals = 0\<rparr>,
     open_files = (\<lambda>_. None)(1 := Some \<lparr>of_file = \<lparr>f_ino = 4, f_read = True, f_write = True, f_append = False,
       f_pos = 0\<rparr>, of_path = ''/s/f'', of_is_dir = False\<rparr>), next_fd = 2, fp_read_only = ro,
     vm_mount = ''/mnt'', shutdown_notified = False\<rparr>"

lemma sample_shared: "shared_at [''s''] (sample_proxy ro) sample_fs"
  by (simp add: shared_at_def sample_fs_def sample_proxy_def root_ok_def good_name_def path_string_def)

text \<open>C10: a read-only share is read-only: whatever bytes the guest sends on the stream, in whatever
  pieces, well-formed or not, and whatever state the proxy is in, the host's file system is unchanged.\<close>

theorem read_only_share_untouched:
  assumes "fp_read_only (fst (the_share st))"
  shows "snd (the_share (fst (fold (reader_feed (proxy_loop envs)) chunks (st, Continue buf)))) = snd (the_share st)"
  using assms by (rule reader_feed_read_only)

theorem read_only_share_untouched_witness:
  "snd (the_share (fst (fold (reader_feed (proxy_loop (\<lambda>_. sample_env)))
      [encode_request (ReqTruncate 1 ''/f'' 0), encode_request (ReqWrite 2 1 0 [9]), [255]]
      (\<lparr>the_share = (sample_proxy True, sample_fs), replies = [], writer_gone = False\<rparr>, Continue []))))
    = snd (the_share \<lparr>the_share = (sample_proxy True, sample_fs), replies = [], writer_gone = False\<rparr>)"
  by (rule read_only_share_untouched) (simp add: sample_proxy_def)

text \<open>C12: the request loop on a byte stream is the handlers in sequence: however the transport cuts the
  bytes of a list of requests, the loop ends waiting on an empty buffer in the state that handling the
  requests one after the other gives, and it has queued one answer per request, in order, with its id.\<close>

theorem requests_answered_in_order:
  assumes "list_all request_fits rs" "concat chunks = concat (map encode_request rs)" "\<not> writer_gone st"
  shows "fold (reader_feed (proxy_loop envs)) chunks (st, Continue []) = (fold (serve envs) rs st, Continue [])
    \<and> (\<exists>resps. replies (fold (serve envs) rs st) = replies st @ resps \<and> list_all2 answers rs resps)"
  using proxy_reader.feed_messages [of rs "[]" chunks st envs] assms serve_fold_replies [OF assms(3)]
  by simp

theorem requests_answered_in_order_witness:
  "fold (reader_feed (proxy_loop (\<lambda>_. sample_env)))
      [take 5 (encode_request (ReqPing 8)), drop 5 (encode_request (ReqPing 8)) @ encode_request (ReqClose 9 1)]
      (\<lparr>the_share = (sample_proxy True, sample_fs), replies = [], writer_gone = False\<rparr>, Continue [])
    = (fold (serve (\<lambda>_. sample_env)) [ReqPing 8, ReqClose 9 1]
        \<lparr>the_share = (sample_proxy True, sample_fs), replies = [], writer_gone = False\<rparr>, Continue [])
    \<and> (\<exists>resps. replies (fold (serve (\<lambda>_. sample_env)) [ReqPing 8, ReqClose 9 1]
        \<lparr>the_share = (sample_proxy True, sample_fs), replies = [], writer_gone = False\<rparr>)
      = replies \<lparr>the_share = (sample_proxy True, sample_fs), replies = [], writer_gone = False\<rparr> @ resps
        \<and> list_all2 answers [ReqPing 8, ReqClose 9 1] resps)"
  by (rule requests_answered_in_order) (simp_all add: request_fits_def MAX_PAYLOAD_SIZE_def)

text \<open>C13: a pending switch of the shared directory completes: once the guest has closed every handle
  that was open, in any order and with any other requests in between, the new directory is current and
  no switch is pending; until then no new handle is opened.\<close>

theorem pending_switch_completes:
  assumes "the_share st = (p, fs)" "pm_inv (path_manager p)" "pending_path (path_manager p) = Some new"
    and "set (open_handles (path_manager p)) \<subseteq> \<Union> (closing ` set rs)"
  shows "(let pm = path_manager (fst (the_share (fold (serve envs) rs st)))
      in pm_state pm = Active \<and> current_path pm = new \<and> pending_path pm = None)
    \<and> handle_open env i flags mode path (p, fs) = (RespOpen i ErrBusy 0, p, fs)"
proof -
  have "switching_to new (path_manager (fst (the_share st))) (\<Union> (closing ` set rs))"
    using assms by (auto simp: switching_to_def pm_inv_def)
  from switching_serve [OF this, of envs] show ?thesis
    using assms(2,3) by (auto simp: switching_to_def pm_inv_def handle_open_def Let_def split: if_splits)
qed

theorem pending_switch_completes_witness:
  "(let pm = path_manager (fst (the_share (fold (serve (\<lambda>_. sample_env)) [ReqOpen 1 0 0 ''f'', ReqClose 2 1]
      \<lparr>the_share = (sample_proxy True\<lparr>path_manager := snd (request_path_change sample_env sample_fs 7 ''/''
        (path_manager (sample_proxy True)))\<rparr>, sample_fs), replies = [], writer_gone = False\<rparr>)))
    in pm_state pm = Active \<and> current_path pm = ''/'' \<and> pending_path pm = None)
    \<and> handle_open sample_env 3 0 0 ''f'' (sample_proxy True\<lparr>path_manager := snd (request_path_change sample_env
        sample_fs 7 ''/'' (path_manager (sample_proxy True)))\<rparr>, sample_fs)
      = (RespOpen 3 ErrBusy 0, sample_proxy True\<lparr>path_manager := snd (request_path_change sample_env
        sample_fs 7 ''/'' (path_manager (sample_proxy True)))\<rparr>, sample_fs)"
proof (rule pending_switch_completes)
  let ?pm = "snd (request_path_change sample_env sample_fs 7 ''/'' (path_manager (sample_proxy True)))"
  have pm: "?pm = notify [PathPending 1 30] ((path_manager (sample_proxy True))
      \<lparr>pending_path := Some ''/'', pm_state := Pending, pending_since := Some 7\<rparr>)"
    by (simp add: request_path_change_def sample_proxy_def sample_fs_def sample_env_def path_exists_def
        path_is_dir_def fs_metadata_def canonicalize_def guarded_def resolve_def is_absolute_def node_at_def
        ino_at_def path_string_def)
  show "pm_inv (path_manager (sample_proxy True\<lparr>path_manager := ?pm\<rparr>))"
    by (simp add: pm) (simp add: pm_inv_def notify_def sample_proxy_def)
  show "pending_path (path_manager (sample_proxy True\<lparr>path_manager := ?pm\<rparr>)) = Some ''/''"
    by (simp add: pm notify_def)
  show "set (open_handles (path_manager (sample_proxy True\<lparr>path_manager := ?pm\<rparr>)))
      \<subseteq> \<Union> (closing ` set [ReqOpen 1 0 0 ''f'', ReqClose 2 1])"
    by (simp add: pm) (simp add: notify_def closing_def sample_proxy_def)
qed simp

text \<open>C11: opening without \<open>O_CREAT\<close> and truncating stay inside the share: the only objects they change, and
  the objects of the handles they create, are reached from the shared directory without passing a link,
  whatever links and \<open>..\<close> pieces the requested path has.\<close>

theorem existing_objects_stay_in_share:
  assumes "shared_at root p fs" "fp_handle_request env r (p, fs) = (resp, p', fs')"
    and "r = ReqOpen i flags mode path \<and> flags AND 0x40 = 0 \<or> r = ReqTruncate i path sz"
  shows "(nodes fs' j \<noteq> nodes fs j \<longrightarrow> j \<in> share_objects root fs)
    \<and> (open_files p' fd = Some f \<and> open_files p fd \<noteq> Some f \<longrightarrow> f_ino (of_file f) \<in> share_objects root fs)"
  using assms(3)
proof
  assume "r = ReqOpen i flags mode path \<and> flags AND 0x40 = 0"
  then show ?thesis
    using open_in_share [of env i flags mode path p fs resp p' fs'] assms(1,2) by auto
next
  assume t: "r = ReqTruncate i path sz"
  then have "p' = p"
    using assms(2) by (auto simp: handle_truncate_def split: if_splits outcome.splits prod.splits)
  with t show ?thesis
    using truncate_in_share [of env i path sz p fs resp p' fs' root j] assms(1,2) by auto
qed


theorem existing_objects_stay_in_share_witness:
  "(nodes (set_node 4 (FileNode [1]) sample_fs) 4 = Some (FileNode [1]) \<and> 4 \<in> share_objects [''s''] sample_fs)"
proof -
  let ?r = "ReqTruncate 9 ''/./../s/f'' 1"
  have r: "fp_handle_request sample_env ?r (sample_proxy False, sample_fs)
      = (RespTruncate 9 StOk, sample_proxy False, set_node 4 (FileNode [1]) sample_fs)"
    by (simp add: handle_truncate_def sample_proxy_def sample_fs_def sample_env_def resolve_path_def
        trim_start_matches_def path_join_def is_absolute_def ends_with_def canonicalize_def guarded_def resolve_def
        MAXSYMLINKS_def node_at_def ino_at_def path_string_def path_starts_with_def path_components_def Let_def
        fs_open_def guarded_fs_def options_ok_def new_file_def file_set_len_def set_node_def)
  show ?thesis
    using existing_objects_stay_in_share [OF sample_shared r, of 9 0 0 "''/./../s/f''" 1 4 0 undefined]
    by (simp add: sample_fs_def set_node_def)
qed

text \<open>C36: creating is not confined: a name of the share that is a link to a file elsewhere on the host is
  followed, so an open with \<open>O_CREAT\<close> and write access gives the guest a writable handle on the file outside.\<close>

theorem create_escapes_share:
  assumes "shared_at root p fs" "pm_state (path_manager p) = Active" "\<not> fp_read_only p" "\<And>c. deny env c = None"
    and "node_at fs root = Some (DirNode es)" "map_of es l = Some k" "good_name l"
    and "nodes fs k = Some (LinkNode (path_string out))" "real_path fs out" "node_at fs out = Some (FileNode bs)"
  shows "\<exists>p' fs' f. handle_open env i 0x41 mode (CHR ''/'' # l) (p, fs) = (RespOpen i StOk (next_fd p), p', fs')
    \<and> open_files p' (next_fd p) = Some f \<and> ino_at fs out = Some (f_ino (of_file f)) \<and> f_write (of_file f)"
  by (rule create_follows_link [OF assms]) simp_all

theorem create_escapes_share_witness:
  "\<exists>p' fs' f. handle_open sample_env 5 0x41 0 ''/l'' (sample_proxy False, sample_fs)
      = (RespOpen 5 StOk (next_fd (sample_proxy False)), p', fs')
    \<and> open_files p' (next_fd (sample_proxy False)) = Some f \<and> ino_at sample_fs [''x''] = Some (f_ino (of_file f))
    \<and> f_write (of_file f)"
  by (rule create_escapes_share [OF sample_shared, where k = 3 and es = "[(''l'', 3), (''f'', 4)]" and bs = "[7]"])
    (simp_all add: sample_proxy_def sample_env_def sample_fs_def node_at_def ino_at_def good_name_def path_string_def)

text \<open>what is written can be read back: after a successful write through a handle open for reading
  and writing, a read of the same length at the same offset returns exactly the bytes written.\<close>

theorem write_then_read:
  assumes "open_files p fd = Some f" "f_read (of_file f)" "\<not> f_append (of_file f)" "deny env2 SysSeek = None"
      "deny env2 SysRead = None" "length data < 2 ^ 32"
    and "handle_write env i fd off data (p, fs) = (RespWrite i StOk n, p', fs')"
    and "nodes fs (f_ino (of_file f)) = Some (FileNode bs)"
  shows "n = of_nat (length data)
    \<and> fst (handle_read env2 i2 fd off (of_nat (length data)) (p', fs')) = RespRead i2 StOk data"
proof -
  have sz: "unat (of_nat (length data) :: u32) = length data"
    using assms(6) by (simp add: unat_of_nat)
  from assms(1,7) obtain h where h: "file_seek env off (of_file f) = Ok h" "fst (file_write_all env data h fs) = Ok ()"
      and n: "n = of_nat (length data)" and fs': "fs' = snd (file_write_all env data h fs)"
      and p': "p' = p\<lparr>open_files := (open_files p)(fd := Some (f\<lparr>of_file := h\<rparr>))\<rparr>"
    by (auto simp: handle_write_def Let_def split: if_splits outcome.splits prod.splits)
  have off: "unat off < 2 ^ 63" "h = of_file f\<lparr>f_pos := unat off\<rparr>"
    using h(1) by (auto simp: file_seek_def guarded_def split: option.splits if_splits)
  have "file_read env2 (length data) h fs' = Ok data"
  proof (cases "data = []")
    case True
    then show ?thesis
      using assms(2,5,8) fs' off(2) by (simp add: file_read_def file_write_all_def guarded_def)
  next
    case False
    then have "nodes fs' (f_ino (of_file f)) = Some (FileNode (write_at (unat off) data bs))"
      using h(2) fs' off(2) assms(3,8)
      by (auto simp: file_write_all_def set_node_def Let_def split: if_splits option.splits)
    then show ?thesis
      using assms(2,5) off(2) by (simp add: file_read_def guarded_def write_at_read)
  qed
  with n p' off sz assms(4) show ?thesis
    by (simp add: handle_read_def file_seek_def guarded_def)
qed

theorem write_then_read_witness:
  "(2::u32) = of_nat (length [8, 9 :: byte]) \<and> fst (handle_read sample_env 5 1 1 (of_nat (length [8, 9 :: byte]))
      (snd (handle_write sample_env 4 1 1 [8, 9] (sample_proxy False, sample_fs)))) = RespRead 5 StOk [8, 9]"
proof -
  obtain p' fs' where w: "handle_write sample_env 4 1 1 [8, 9] (sample_proxy False, sample_fs) = (RespWrite 4 StOk 2, p', fs')"
    by (simp add: handle_write_def sample_proxy_def sample_env_def sample_fs_def file_seek_def guarded_def
        file_write_all_def Let_def)
  show ?thesis
    unfolding w snd_conv
    by (rule write_then_read [OF _ _ _ _ _ _ w, where f = "\<lparr>of_file = \<lparr>f_ino = 4, f_read = True, f_write = True,
        f_append = False, f_pos = 0\<rparr>, of_path = ''/s/f'', of_is_dir = False\<rparr>" and bs = "[1, 2, 3]"])
      (simp_all add: sample_proxy_def sample_env_def sample_fs_def)
qed

text \<open>a forced switch does not revoke the handles of the old directory: they are forgotten by the path
  manager, so an unmount no longer waits for them, but every handle keeps its file, and reads through it
  answer as before.\<close>

theorem force_switch_keeps_handles:
  assumes "pending_path (path_manager p) = Some new"
  shows "fst (force_switch (path_manager p)) = Ok ()
    \<and> (let p' = p\<lparr>path_manager := snd (force_switch (path_manager p))\<rparr>
       in current_path (path_manager p') = new \<and> fst (request_unmount p') = (0, False)
         \<and> fst (handle_read env i fd off sz (p', fs)) = fst (handle_read env i fd off sz (p, fs)))"
  using assms
  by (auto simp: force_switch_def do_switch_def notify_def request_unmount_def handle_read_def Let_def
      split: option.splits outcome.splits)

theorem force_switch_keeps_handles_witness:
  "fst (force_switch (path_manager (sample_proxy True\<lparr>path_manager := (path_manager (sample_proxy True))
      \<lparr>pending_path := Some ''/''\<rparr>\<rparr>))) = Ok ()
    \<and> (let p' = (sample_proxy True\<lparr>path_manager := (path_manager (sample_proxy True))\<lparr>pending_path := Some ''/''\<rparr>\<rparr>)
         \<lparr>path_manager := snd (force_switch (path_manager (sample_proxy True\<lparr>path_manager :=
            (path_manager (sample_proxy True))\<lparr>pending_path := Some ''/''\<rparr>\<rparr>)))\<rparr>
       in current_path (path_manager p') = ''/'' \<and> fst (request_unmount p') = (0, False)
         \<and> fst (handle_read sample_env 3 1 0 2 (p', sample_fs))
           = fst (handle_read sample_env 3 1 0 2 (sample_proxy True\<lparr>path_manager :=
              (path_manager (sample_proxy True))\<lparr>pending_path := Some ''/''\<rparr>\<rparr>, sample_fs)))"
  by (rule force_switch_keeps_handles) simp

text \<open>asking for the directory that is current while another switch is pending is answered as done
  at once, but the pending switch is kept: when the last handle is closed the share moves away all the same.\<close>

theorem return_to_current_keeps_pending:
  assumes "pm_inv pm" "pending_path pm = Some new" "path_is_dir env fs q" "canonicalize env fs q = Ok (current_path pm)"
    and "open_handles pm = [fd]"
  shows "request_path_change env fs now q pm = (Ok True, pm)
    \<and> current_path (unregister_handle fd pm) = new"
proof -
  have "path_exists env fs q"
    using assms(3) by (auto simp: path_exists_def path_is_dir_def split: outcome.splits)
  with assms show ?thesis
    using unregister_pending [OF assms(1) _ assms(2), of fd] by (simp add: request_path_change_def pm_inv_def)
qed

theorem return_to_current_keeps_pending_witness:
  "request_path_change sample_env sample_fs 9 ''/s'' ((path_manager (sample_proxy True))
      \<lparr>pending_path := Some ''/'', pm_state := Pending, pending_since := Some 7\<rparr>)
    = (Ok True, (path_manager (sample_proxy True))\<lparr>pending_path := Some ''/'', pm_state := Pending,
        pending_since := Some 7\<rparr>)
    \<and> current_path (unregister_handle 1 ((path_manager (sample_proxy True))
      \<lparr>pending_path := Some ''/'', pm_state := Pending, pending_since := Some 7\<rparr>)) = ''/''"
  by (rule return_to_current_keeps_pending)
    (simp_all add: pm_inv_def sample_proxy_def sample_fs_def sample_env_def path_is_dir_def fs_metadata_def
      canonicalize_def guarded_def resolve_def is_absolute_def node_at_def ino_at_def path_string_def)

end
