(* ===== verification/Fuse_Guest.thy ===== *)
theory Fuse_Guest
  imports File_Proxy
begin

unbundle bit_operations_syntax

text \<open>
  The guest side of a shared folder: \<open>vm-agent/src/fuse/dispatcher.rs\<close> (pending requests and the
  reader of responses), \<open>cache.rs\<close> (attribute and directory cache with expiry), \<open>filesystem.rs\<close> (the
  inode and handle tables and one operation per kernel callback) and the mount handshake of
  \<open>mod.rs\<close>.  A kernel callback sends its requests one after the other; \<open>rpc\<close> answers a request in a
  state of the other side, so the callbacks can be run against the model of the host.
\<close>

section \<open>Request dispatcher\<close>

datatype DispatcherError = DTimeout | DChannelClosed | DTransport | DProtocol | DStatus StatusCode

type_synonym 'a dresult = "(DispatcherError, 'a) outcome"

text \<open>
  \<open>d_pending\<close>: the ids waiting for a response; \<open>d_delivered\<close>: the results handed to the waiting
  callers, in order; \<open>d_notified\<close>: the notifications handed to the handler.
\<close>

record dispatcher =
  d_pending :: "RequestId list"
  d_next_id :: u64
  d_delivered :: "(RequestId \<times> GuestResponse) list"
  d_notified :: "FuseNotification list"
  d_handler :: bool

definition dispatcher_new :: dispatcher where
  "dispatcher_new = \<lparr>d_pending = [], d_next_id = 1, d_delivered = [], d_notified = [], d_handler = False\<rparr>"

definition set_notification_handler :: "dispatcher \<Rightarrow> dispatcher" where
  "set_notification_handler d = d\<lparr>d_handler := True\<rparr>"

definition allocate_id :: "dispatcher \<Rightarrow> RequestId \<times> dispatcher" where
  "allocate_id d = (d_next_id d, d\<lparr>d_next_id := d_next_id d + 1\<rparr>)"

fun timeout_for_op :: "OpType \<Rightarrow> nat" where
  "timeout_for_op OpRead = 60"
| "timeout_for_op OpWrite = 60"
| "timeout_for_op OpOpen = 10"
| "timeout_for_op _ = 30"

text \<open>
  \<open>send_request\<close> up to the wait: the id is pending and the bytes go to the writer; when the write
  fails the id is withdrawn.
\<close>

definition send_begin :: "bool \<Rightarrow> FuseRequest \<Rightarrow> dispatcher \<Rightarrow> (bytes dresult) \<times> dispatcher" where
  "send_begin write_ok req d =
    (if write_ok then (Ok (encode_request req), d\<lparr>d_pending := List.insert (request_id req) (d_pending d)\<rparr>)
     else (Err DTransport, d\<lparr>d_pending := removeAll (request_id req) (d_pending d)\<rparr>))"

text \<open>The end of a wait that got no response: timed out, or the channel was dropped.\<close>

definition send_abandon :: "DispatcherError \<Rightarrow> RequestId \<Rightarrow> dispatcher \<Rightarrow> GuestResponse dresult \<times> dispatcher" where
  "send_abandon e i d = (Err e, d\<lparr>d_pending := removeAll i (d_pending d)\<rparr>)"

fun handle_message :: "FuseMessage \<Rightarrow> dispatcher \<Rightarrow> dispatcher" where
  "handle_message (Response resp) d =
    (let i = response_id resp
     in if i \<in> set (d_pending d)
        then d\<lparr>d_pending := removeAll i (d_pending d), d_delivered := d_delivered d @ [(i, resp)]\<rparr>
        else d)"
| "handle_message (Notification n) d =
    (if d_handler d then d\<lparr>d_notified := d_notified d @ [n]\<rparr> else d)"

function reader_loop :: "bytes \<Rightarrow> dispatcher \<Rightarrow> dispatcher \<times> loop_exit" where
  "reader_loop buf d =
    (case decode_response buf of
       (Ok (Some m), rest) \<Rightarrow> reader_loop rest (handle_message m d)
     | (Ok None, rest) \<Rightarrow> (d, Continue rest)
     | (Err e, rest) \<Rightarrow> (d, Returned)
     | (Panic, rest) \<Rightarrow> (d, Panicked))"
  by pat_completeness auto

termination
  by (relation "measure (\<lambda>(buf, d). length buf)") (auto dest: decode_response_shrinks [OF sym])

declare reader_loop.simps [simp del]

text \<open>
  The calls of the file system: a fresh id, the request, and the check of the answer.  \<open>rpc\<close> is the
  outcome of \<open>send_request\<close> in a state of the other side.
\<close>

type_synonym 'h rpc = "FuseRequest \<Rightarrow> 'h \<Rightarrow> GuestResponse dresult \<times> 'h"

record 'h link =
  next_id :: u64
  peer :: 'h

definition call :: "'h rpc \<Rightarrow> (RequestId \<Rightarrow> FuseRequest) \<Rightarrow> (GuestResponse \<Rightarrow> 'a option) \<Rightarrow> 'h link
    \<Rightarrow> 'a dresult \<times> 'h link" where
  "call rpc req pick l =
    (let (r, h) = rpc (req (next_id l)) (peer l)
     in (case r of
           Ok resp \<Rightarrow>
             (case pick resp of
                Some a \<Rightarrow> if response_status resp = StOk then Ok a else Err (DStatus (response_status resp))
              | None \<Rightarrow> Err DProtocol)
         | Err e \<Rightarrow> Err e
         | Panic \<Rightarrow> Panic,
         l\<lparr>next_id := next_id l + 1, peer := h\<rparr>))"

definition d_open :: "'h rpc \<Rightarrow> string \<Rightarrow> u32 \<Rightarrow> u32 \<Rightarrow> 'h link \<Rightarrow> u64 dresult \<times> 'h link" where
  "d_open rpc path flags mode =
    call rpc (\<lambda>i. ReqOpen i flags mode path) (\<lambda>r. case r of GOpen _ _ fd \<Rightarrow> Some fd | _ \<Rightarrow> None)"

definition d_read :: "'h rpc \<Rightarrow> u64 \<Rightarrow> u64 \<Rightarrow> u32 \<Rightarrow> 'h link \<Rightarrow> bytes dresult \<times> 'h link" where
  "d_read rpc fd off sz = call rpc (\<lambda>i. ReqRead i fd off sz) (\<lambda>r. case r of GRead _ _ data \<Rightarrow> Some data | _ \<Rightarrow> None)"

definition d_write :: "'h rpc \<Rightarrow> u64 \<Rightarrow> u64 \<Rightarrow> bytes \<Rightarrow> 'h link \<Rightarrow> u32 dresult \<times> 'h link" where
  "d_write rpc fd off data = call rpc (\<lambda>i. ReqWrite i fd off data) (\<lambda>r. case r of GWrite _ _ n \<Rightarrow> Some n | _ \<Rightarrow> None)"

definition d_truncate :: "'h rpc \<Rightarrow> string \<Rightarrow> u64 \<Rightarrow> 'h link \<Rightarrow> unit dresult \<times> 'h link" where
  "d_truncate rpc path sz = call rpc (\<lambda>i. ReqTruncate i path sz) (\<lambda>r. case r of GTruncate _ _ \<Rightarrow> Some () | _ \<Rightarrow> None)"

definition d_close :: "'h rpc \<Rightarrow> u64 \<Rightarrow> 'h link \<Rightarrow> unit dresult \<times> 'h link" where
  "d_close rpc fd = call rpc (\<lambda>i. ReqClose i fd) (\<lambda>r. case r of GClose _ _ \<Rightarrow> Some () | _ \<Rightarrow> None)"

definition d_readdir :: "'h rpc \<Rightarrow> u64 \<Rightarrow> u64 \<Rightarrow> u32 \<Rightarrow> 'h link \<Rightarrow> DirEntry list dresult \<times> 'h link" where
  "d_readdir rpc fd off mx =
    call rpc (\<lambda>i. ReqReaddir i fd off mx) (\<lambda>r. case r of GReaddir _ _ es \<Rightarrow> Some es | _ \<Rightarrow> None)"

text \<open>The fields of a stat response: type, mode, size, mtime, atime, ctime.\<close>

type_synonym stat_fields = "FileType \<times> u32 \<times> u64 \<times> u64 \<times> u64 \<times> u64"

definition d_stat :: "'h rpc \<Rightarrow> string \<Rightarrow> 'h link \<Rightarrow> stat_fields dresult \<times> 'h link" where
  "d_stat rpc path = call rpc (\<lambda>i. ReqStat i path)
     (\<lambda>r. case r of GStat _ _ t mode sz mtime atime ctime \<Rightarrow> Some (t, mode, sz, mtime, atime, ctime) | _ \<Rightarrow> None)"

definition d_mkdir :: "'h rpc \<Rightarrow> string \<Rightarrow> u32 \<Rightarrow> 'h link \<Rightarrow> unit dresult \<times> 'h link" where
  "d_mkdir rpc path mode = call rpc (\<lambda>i. ReqMkdir i mode path) (\<lambda>r. case r of GMkdir _ _ \<Rightarrow> Some () | _ \<Rightarrow> None)"

definition d_remove :: "'h rpc \<Rightarrow> string \<Rightarrow> bool \<Rightarrow> 'h link \<Rightarrow> unit dresult \<times> 'h link" where
  "d_remove rpc path is_dir =
    call rpc (\<lambda>i. ReqRemove i is_dir path) (\<lambda>r. case r of GRemove _ _ \<Rightarrow> Some () | _ \<Rightarrow> None)"

definition d_rename :: "'h rpc \<Rightarrow> string \<Rightarrow> string \<Rightarrow> 'h link \<Rightarrow> unit dresult \<times> 'h link" where
  "d_rename rpc old_path new_path =
    call rpc (\<lambda>i. ReqRename i old_path new_path) (\<lambda>r. case r of GRename _ _ \<Rightarrow> Some () | _ \<Rightarrow> None)"

definition d_ping :: "'h rpc \<Rightarrow> 'h link \<Rightarrow> unit dresult \<times> 'h link" where
  "d_ping rpc = call rpc ReqPing (\<lambda>r. case r of GPong _ \<Rightarrow> Some () | _ \<Rightarrow> None)"


section \<open>Cache\<close>

datatype FuserType = RegularFile | FDirectory | FSymlink

text \<open>\<open>fuser::FileAttr\<close>; times are seconds after the epoch.\<close>

record FuserAttr =
  fa_ino :: u64
  fa_size :: u64
  fa_blocks :: u64
  fa_atime :: nat
  fa_mtime :: nat
  fa_ctime :: nat
  fa_crtime :: nat
  fa_kind :: FuserType
  fa_perm :: u16

fun fuser_type :: "FileType \<Rightarrow> FuserType" where
  "fuser_type Regular = RegularFile"
| "fuser_type Directory = FDirectory"
| "fuser_type Symlink = FSymlink"
| "fuser_type OtherType = RegularFile"

text \<open>\<open>UNIX_EPOCH + Duration\<close> panics when the seconds do not fit a signed 64-bit integer.\<close>

definition epoch_plus :: "u64 \<Rightarrow> ('e, nat) outcome" where
  "epoch_plus t = (if unat t < 2 ^ 63 then Ok (unat t) else Panic)"

definition make_file_attr :: "u64 \<Rightarrow> stat_fields \<Rightarrow> FuserAttr dresult" where
  "make_file_attr ino = (\<lambda>(t, mode, sz, mtime, atime, ctime).
    and_then (epoch_plus atime) (\<lambda>at. and_then (epoch_plus mtime) (\<lambda>mt. and_then (epoch_plus ctime) (\<lambda>ct.
      Ok \<lparr>fa_ino = ino, fa_size = sz, fa_blocks = (sz + 511) div 512, fa_atime = at, fa_mtime = mt,
          fa_ctime = ct, fa_crtime = ct, fa_kind = fuser_type t, fa_perm = ucast mode\<rparr>))))"

text \<open>Times of insertion in milliseconds.\<close>

record cache =
  attr_cache :: "string \<Rightarrow> (FuserAttr \<times> nat) option"
  dir_cache :: "string \<Rightarrow> (DirEntry list \<times> nat) option"

definition DEFAULT_ATTR_TTL :: nat where "DEFAULT_ATTR_TTL = 5000"
definition DEFAULT_DIR_TTL :: nat where "DEFAULT_DIR_TTL = 3000"

definition cache_new :: cache where
  "cache_new = \<lparr>attr_cache = (\<lambda>_. None), dir_cache = (\<lambda>_. None)\<rparr>"

definition get_attr :: "nat \<Rightarrow> cache \<Rightarrow> string \<Rightarrow> FuserAttr option" where
  "get_attr now c path =
    (case attr_cache c path of
       Some (attr, at) \<Rightarrow> if now - at < DEFAULT_ATTR_TTL then Some attr else None | None \<Rightarrow> None)"

definition put_attr :: "nat \<Rightarrow> string \<Rightarrow> FuserAttr \<Rightarrow> cache \<Rightarrow> cache" where
  "put_attr now path attr c = c\<lparr>attr_cache := (attr_cache c)(path := Some (attr, now))\<rparr>"

definition get_dir :: "nat \<Rightarrow> cache \<Rightarrow> string \<Rightarrow> DirEntry list option" where
  "get_dir now c path =
    (case dir_cache c path of
       Some (es, at) \<Rightarrow> if now - at < DEFAULT_DIR_TTL then Some es else None | None \<Rightarrow> None)"

definition put_dir :: "nat \<Rightarrow> string \<Rightarrow> DirEntry list \<Rightarrow> cache \<Rightarrow> cache" where
  "put_dir now path es c = c\<lparr>dir_cache := (dir_cache c)(path := Some (es, now))\<rparr>"

definition invalidate :: "string \<Rightarrow> cache \<Rightarrow> cache" where
  "invalidate path c = c\<lparr>attr_cache := (attr_cache c)(path := None), dir_cache := (dir_cache c)(path := None)\<rparr>"

text \<open>The last \<open>/\<close> of the path without trailing slashes.\<close>

definition parent_path :: "string \<Rightarrow> string option" where
  "parent_path path =
    (if path = ''/'' \<or> path = [] then None
     else (case split_once CHR ''/'' (rev (trim_end_matches CHR ''/'' path)) of
         Some (_, r) \<Rightarrow> Some (if r = [] then ''/'' else rev r)
       | None \<Rightarrow> None))"

definition invalidate_with_parent :: "string \<Rightarrow> cache \<Rightarrow> cache" where
  "invalidate_with_parent path c =
    (let c = invalidate path c
     in case parent_path path of Some parent \<Rightarrow> c\<lparr>dir_cache := (dir_cache c)(parent := None)\<rparr> | None \<Rightarrow> c)"

definition cache_clear :: "cache \<Rightarrow> cache" where
  "cache_clear c = cache_new"


section \<open>Inodes and handles\<close>

definition ROOT_INO :: u64 where "ROOT_INO = 1"

record InodeMap =
  ino_to_path :: "u64 \<Rightarrow> string option"
  path_to_ino :: "string \<Rightarrow> u64 option"
  next_ino :: u64

definition inode_map_new :: InodeMap where
  "inode_map_new = \<lparr>ino_to_path = (\<lambda>_. None)(ROOT_INO := Some ''/''),
     path_to_ino = (\<lambda>_. None)(''/'' := Some ROOT_INO), next_ino = 2\<rparr>"

definition get_or_create :: "string \<Rightarrow> InodeMap \<Rightarrow> u64 \<times> InodeMap" where
  "get_or_create path m =
    (case path_to_ino m path of
       Some ino \<Rightarrow> (ino, m)
     | None \<Rightarrow> (next_ino m, m\<lparr>next_ino := next_ino m + 1,
         ino_to_path := (ino_to_path m)(next_ino m := Some path),
         path_to_ino := (path_to_ino m)(path := Some (next_ino m))\<rparr>))"

definition get_path :: "InodeMap \<Rightarrow> u64 \<Rightarrow> string option" where
  "get_path m ino = ino_to_path m ino"

definition inode_remove :: "string \<Rightarrow> InodeMap \<Rightarrow> InodeMap" where
  "inode_remove path m =
    (case path_to_ino m path of
       Some ino \<Rightarrow> m\<lparr>path_to_ino := (path_to_ino m)(path := None), ino_to_path := (ino_to_path m)(ino := None)\<rparr>
     | None \<Rightarrow> m)"

definition inode_rename :: "string \<Rightarrow> string \<Rightarrow> InodeMap \<Rightarrow> InodeMap" where
  "inode_rename old_path new_path m =
    (let m = inode_remove new_path m
     in case path_to_ino m old_path of
          Some ino \<Rightarrow> m\<lparr>ino_to_path := (ino_to_path m)(ino := Some new_path),
            path_to_ino := (path_to_ino m)(old_path := None, new_path := Some ino)\<rparr>
        | None \<Rightarrow> m)"

record HandleManager =
  local_to_remote :: "u64 \<Rightarrow> u64 option"
  next_fh :: u64

definition handles_new :: HandleManager where
  "handles_new = \<lparr>local_to_remote = (\<lambda>_. None), next_fh = 1\<rparr>"

definition handle_allocate :: "u64 \<Rightarrow> HandleManager \<Rightarrow> u64 \<times> HandleManager" where
  "handle_allocate remote_fd h =
    (next_fh h, h\<lparr>next_fh := next_fh h + 1, local_to_remote := (local_to_remote h)(next_fh h := Some remote_fd)\<rparr>)"

definition get_remote :: "HandleManager \<Rightarrow> u64 \<Rightarrow> u64 option" where
  "get_remote h fh = local_to_remote h fh"

definition handle_release :: "u64 \<Rightarrow> HandleManager \<Rightarrow> u64 option \<times> HandleManager" where
  "handle_release fh h = (local_to_remote h fh, h\<lparr>local_to_remote := (local_to_remote h)(fh := None)\<rparr>)"


section \<open>The file system callbacks\<close>

record 'h HostFilesystem =
  link_state :: "'h link"
  handles :: HandleManager
  cached :: cache
  inodes :: InodeMap

text \<open>Entries of a directory reply: inode, offset of the next entry, type, name.\<close>

datatype reply =
    RError int | REntry FuserAttr | RAttr FuserAttr | ROpened u64 | RData bytes | RWritten u32 | REmpty
  | RDirectory "(u64 \<times> nat \<times> FuserType \<times> string) list" | RCreated FuserAttr u64 | RPanicked

abbreviation ENOENT :: int where "ENOENT \<equiv> 2"
abbreviation EIO :: int where "EIO \<equiv> 5"

fun err_to_errno :: "DispatcherError \<Rightarrow> int" where
  "err_to_errno (DStatus status) = status_to_errno status"
| "err_to_errno DTimeout = 110"
| "err_to_errno _ = EIO"

definition build_path :: "string \<Rightarrow> string \<Rightarrow> string" where
  "build_path parent name =
    (let name_str = to_string_lossy name
     in if parent = ''/'' then CHR ''/'' # name_str else parent @ CHR ''/'' # name_str)"

definition on_notification :: "FuseNotification \<Rightarrow> 'h HostFilesystem \<Rightarrow> 'h HostFilesystem" where
  "on_notification n s =
    (case n of
       NPathChanged _ _ \<Rightarrow> s\<lparr>cached := cache_clear (cached s)\<rparr>
     | NInvalidateCache \<Rightarrow> s\<lparr>cached := cache_clear (cached s)\<rparr>
     | _ \<Rightarrow> s)"

definition fs_new :: "'h \<Rightarrow> 'h HostFilesystem" where
  "fs_new h = \<lparr>link_state = \<lparr>next_id = 1, peer = h\<rparr>, handles = handles_new, cached = cache_new,
     inodes = inode_map_new\<rparr>"

text \<open>The error reply of a failed call; a panic in the task leaves no reply of its own.\<close>

fun fail_reply :: "'a dresult \<Rightarrow> reply" where
  "fail_reply (Err e) = RError (err_to_errno e)"
| "fail_reply _ = RPanicked"

definition fs_lookup :: "'h rpc \<Rightarrow> nat \<Rightarrow> u64 \<Rightarrow> string \<Rightarrow> 'h HostFilesystem \<Rightarrow> reply \<times> 'h HostFilesystem" where
  "fs_lookup rpc now parent name s =
    (case get_path (inodes s) parent of
       None \<Rightarrow> (RError ENOENT, s)
     | Some pp \<Rightarrow>
         (let path = build_path pp name
          in case get_attr now (cached s) path of
               Some attr \<Rightarrow> (REntry attr, s)
             | None \<Rightarrow>
                 (case d_stat rpc path (link_state s) of
                    (Ok st, l) \<Rightarrow>
                      (let (ino, m) = get_or_create path (inodes s);
                           s = s\<lparr>link_state := l, inodes := m\<rparr>
                       in case make_file_attr ino st of
                            Ok attr \<Rightarrow> (REntry attr, s\<lparr>cached := put_attr now path attr (cached s)\<rparr>)
                          | r \<Rightarrow> (fail_reply r, s))
                  | (r, l) \<Rightarrow> (fail_reply r, s\<lparr>link_state := l\<rparr>))))"

definition fs_getattr :: "'h rpc \<Rightarrow> nat \<Rightarrow> u64 \<Rightarrow> 'h HostFilesystem \<Rightarrow> reply \<times> 'h HostFilesystem" where
  "fs_getattr rpc now ino s =
    (case get_path (inodes s) ino of
       None \<Rightarrow> (RError ENOENT, s)
     | Some path \<Rightarrow>
         (case get_attr now (cached s) path of
            Some attr \<Rightarrow> (RAttr attr, s)
          | None \<Rightarrow>
              (case d_stat rpc path (link_state s) of
                 (Ok st, l) \<Rightarrow>
                   (let s = s\<lparr>link_state := l\<rparr>
                    in case make_file_attr ino st of
                         Ok attr \<Rightarrow> (RAttr attr, s\<lparr>cached := put_attr now path attr (cached s)\<rparr>)
                       | r \<Rightarrow> (fail_reply r, s))
               | (r, l) \<Rightarrow> (fail_reply r, s\<lparr>link_state := l\<rparr>))))"

definition fs_open_ino :: "'h rpc \<Rightarrow> u64 \<Rightarrow> u32 \<Rightarrow> 'h HostFilesystem \<Rightarrow> reply \<times> 'h HostFilesystem" where
  "fs_open_ino rpc ino flags s =
    (case get_path (inodes s) ino of
       None \<Rightarrow> (RError ENOENT, s)
     | Some path \<Rightarrow>
         (case d_open rpc path flags 0 (link_state s) of
            (Ok fd, l) \<Rightarrow>
              (let (fh, h) = handle_allocate fd (handles s) in (ROpened fh, s\<lparr>link_state := l, handles := h\<rparr>))
          | (r, l) \<Rightarrow> (fail_reply r, s\<lparr>link_state := l\<rparr>)))"

definition fs_opendir :: "'h rpc \<Rightarrow> u64 \<Rightarrow> 'h HostFilesystem \<Rightarrow> reply \<times> 'h HostFilesystem" where
  "fs_opendir rpc ino s = fs_open_ino rpc ino 0 s"

definition fs_read :: "'h rpc \<Rightarrow> u64 \<Rightarrow> 64 word \<Rightarrow> u32 \<Rightarrow> 'h HostFilesystem \<Rightarrow> reply \<times> 'h HostFilesystem" where
  "fs_read rpc fh off sz s =
    (case get_remote (handles s) fh of
       None \<Rightarrow> (RError ENOENT, s)
     | Some fd \<Rightarrow>
         (case d_read rpc fd off sz (link_state s) of
            (Ok data, l) \<Rightarrow> (RData data, s\<lparr>link_state := l\<rparr>)
          | (r, l) \<Rightarrow> (fail_reply r, s\<lparr>link_state := l\<rparr>)))"

definition fs_write :: "'h rpc \<Rightarrow> u64 \<Rightarrow> u64 \<Rightarrow> 64 word \<Rightarrow> bytes \<Rightarrow> 'h HostFilesystem \<Rightarrow> reply \<times> 'h HostFilesystem" where
  "fs_write rpc ino fh off data s =
    (case get_remote (handles s) fh of
       None \<Rightarrow> (RError ENOENT, s)
     | Some fd \<Rightarrow>
         (case d_write rpc fd off data (link_state s) of
            (Ok written, l) \<Rightarrow>
              (RWritten written, s\<lparr>link_state := l, cached :=
                 (case get_path (inodes s) ino of Some path \<Rightarrow> invalidate path (cached s) | None \<Rightarrow> cached s)\<rparr>)
          | (r, l) \<Rightarrow> (fail_reply r, s\<lparr>link_state := l\<rparr>)))"

definition fs_release :: "'h rpc \<Rightarrow> u64 \<Rightarrow> 'h HostFilesystem \<Rightarrow> reply \<times> 'h HostFilesystem" where
  "fs_release rpc fh s =
    (let (remote, h) = handle_release fh (handles s); s = s\<lparr>handles := h\<rparr>
     in case remote of
          Some fd \<Rightarrow> (case d_close rpc fd (link_state s) of
              (Panic, l) \<Rightarrow> (RPanicked, s\<lparr>link_state := l\<rparr>)
            | (_, l) \<Rightarrow> (REmpty, s\<lparr>link_state := l\<rparr>))
        | None \<Rightarrow> (REmpty, s))"

definition fs_releasedir :: "'h rpc \<Rightarrow> u64 \<Rightarrow> 'h HostFilesystem \<Rightarrow> reply \<times> 'h HostFilesystem" where
  "fs_releasedir rpc fh s = fs_release rpc fh s"

text \<open>
  The entries from offset \<open>idx\<close> on, until the reply buffer is full: \<open>room\<close> entries fit.  An inode is
  allocated for an entry before it is added.
\<close>

fun add_entries :: "string \<Rightarrow> nat \<Rightarrow> nat \<Rightarrow> DirEntry list \<Rightarrow> InodeMap
    \<Rightarrow> (u64 \<times> nat \<times> FuserType \<times> string) list \<times> InodeMap" where
  "add_entries path room idx [] m = ([], m)"
| "add_entries path room idx (e # es) m =
    (let (ino, m) = get_or_create (build_path path (entry_name e)) m
     in if room = 0 then ([], m)
        else (let (out, m) = add_entries path (room - 1) (idx + 1) es m
              in ((ino, idx + 1, fuser_type (entry_type e), entry_name e) # out, m)))"

definition fs_readdir :: "'h rpc \<Rightarrow> nat \<Rightarrow> nat \<Rightarrow> u64 \<Rightarrow> u64 \<Rightarrow> u64 \<Rightarrow> 'h HostFilesystem
    \<Rightarrow> reply \<times> 'h HostFilesystem" where
  "fs_readdir rpc now room ino fh off s =
    (case (get_path (inodes s) ino, get_remote (handles s) fh) of
       (Some path, Some fd) \<Rightarrow>
         (case get_dir now (cached s) path of
            Some es \<Rightarrow>
              (let (out, m) = add_entries path room (unat off) (drop (unat off) es) (inodes s)
               in (RDirectory out, s\<lparr>inodes := m\<rparr>))
          | None \<Rightarrow>
              (case d_readdir rpc fd off 100 (link_state s) of
                 (Ok es, l) \<Rightarrow>
                   (let (out, m) = add_entries path room (unat off) (drop (unat off) es) (inodes s)
                    in (RDirectory out, s\<lparr>link_state := l, cached := put_dir now path es (cached s), inodes := m\<rparr>))
               | (r, l) \<Rightarrow> (fail_reply r, s\<lparr>link_state := l\<rparr>)))
     | _ \<Rightarrow> (RError ENOENT, s))"

definition fs_mkdir :: "'h rpc \<Rightarrow> u64 \<Rightarrow> string \<Rightarrow> u32 \<Rightarrow> 'h HostFilesystem \<Rightarrow> reply \<times> 'h HostFilesystem" where
  "fs_mkdir rpc parent name mode s =
    (case get_path (inodes s) parent of
       None \<Rightarrow> (RError ENOENT, s)
     | Some pp \<Rightarrow>
         (let path = build_path pp name
          in case d_mkdir rpc path mode (link_state s) of
               (Ok _, l) \<Rightarrow>
                 (let s = s\<lparr>cached := invalidate_with_parent path (cached s)\<rparr>
                  in case d_stat rpc path l of
                       (Ok st, l) \<Rightarrow>
                         (let (ino, m) = get_or_create path (inodes s); s = s\<lparr>link_state := l, inodes := m\<rparr>
                          in case make_file_attr ino st of
                               Ok attr \<Rightarrow> (REntry attr, s) | r \<Rightarrow> (fail_reply r, s))
                     | (Panic, l) \<Rightarrow> (RPanicked, s\<lparr>link_state := l\<rparr>)
                     | (_, l) \<Rightarrow> (RError EIO, s\<lparr>link_state := l\<rparr>))
             | (r, l) \<Rightarrow> (fail_reply r, s\<lparr>link_state := l\<rparr>)))"

definition fs_create :: "'h rpc \<Rightarrow> nat \<Rightarrow> u64 \<Rightarrow> string \<Rightarrow> u32 \<Rightarrow> u32 \<Rightarrow> 'h HostFilesystem
    \<Rightarrow> reply \<times> 'h HostFilesystem" where
  "fs_create rpc now_secs parent name mode flags s =
    (case get_path (inodes s) parent of
       None \<Rightarrow> (RError ENOENT, s)
     | Some pp \<Rightarrow>
         (let path = build_path pp name; open_flags = flags OR 0x40
          in case d_open rpc path open_flags mode (link_state s) of
               (Ok fd, l) \<Rightarrow>
                 (let (ino, m) = get_or_create path (inodes s);
                      (fh, h) = handle_allocate fd (handles s)
                  in (RCreated \<lparr>fa_ino = ino, fa_size = 0, fa_blocks = 0, fa_atime = now_secs, fa_mtime = now_secs,
                        fa_ctime = now_secs, fa_crtime = now_secs, fa_kind = RegularFile,
                        fa_perm = ucast (mode AND 0xFFF)\<rparr> fh,
                      s\<lparr>link_state := l, inodes := m, cached := invalidate_with_parent path (cached s),
                        handles := h\<rparr>))
             | (r, l) \<Rightarrow> (fail_reply r, s\<lparr>link_state := l\<rparr>)))"

definition fs_remove :: "bool \<Rightarrow> 'h rpc \<Rightarrow> u64 \<Rightarrow> string \<Rightarrow> 'h HostFilesystem \<Rightarrow> reply \<times> 'h HostFilesystem" where
  "fs_remove is_dir rpc parent name s =
    (case get_path (inodes s) parent of
       None \<Rightarrow> (RError ENOENT, s)
     | Some pp \<Rightarrow>
         (let path = build_path pp name
          in case d_remove rpc path is_dir (link_state s) of
               (Ok _, l) \<Rightarrow>
                 (REmpty, s\<lparr>link_state := l, cached := invalidate_with_parent path (cached s),
                    inodes := inode_remove path (inodes s)\<rparr>)
             | (r, l) \<Rightarrow> (fail_reply r, s\<lparr>link_state := l\<rparr>)))"

definition fs_unlink :: "'h rpc \<Rightarrow> u64 \<Rightarrow> string \<Rightarrow> 'h HostFilesystem \<Rightarrow> reply \<times> 'h HostFilesystem" where
  "fs_unlink rpc = fs_remove False rpc"

definition fs_rmdir :: "'h rpc \<Rightarrow> u64 \<Rightarrow> string \<Rightarrow> 'h HostFilesystem \<Rightarrow> reply \<times> 'h HostFilesystem" where
  "fs_rmdir rpc = fs_remove True rpc"

definition fs_rename_op :: "'h rpc \<Rightarrow> u64 \<Rightarrow> string \<Rightarrow> u64 \<Rightarrow> string \<Rightarrow> 'h HostFilesystem \<Rightarrow> reply \<times> 'h HostFilesystem" where
  "fs_rename_op rpc parent name newparent newname s =
    (case (get_path (inodes s) parent, get_path (inodes s) newparent) of
       (Some pp, Some np) \<Rightarrow>
         (let old_path = build_path pp name; new_path = build_path np newname
          in case d_rename rpc old_path new_path (link_state s) of
               (Ok _, l) \<Rightarrow>
                 (REmpty, s\<lparr>link_state := l,
                    cached := invalidate_with_parent new_path (invalidate_with_parent old_path (cached s)),
                    inodes := inode_rename old_path new_path (inodes s)\<rparr>)
             | (r, l) \<Rightarrow> (fail_reply r, s\<lparr>link_state := l\<rparr>))
     | _ \<Rightarrow> (RError ENOENT, s))"

definition fs_setattr :: "'h rpc \<Rightarrow> nat \<Rightarrow> u64 \<Rightarrow> u64 option \<Rightarrow> 'h HostFilesystem \<Rightarrow> reply \<times> 'h HostFilesystem" where
  "fs_setattr rpc now ino sz s =
    (case get_path (inodes s) ino of
       None \<Rightarrow> (RError ENOENT, s)
     | Some path \<Rightarrow>
         (case (case sz of
                  Some n \<Rightarrow> (case d_truncate rpc path n (link_state s) of
                      (Ok _, l) \<Rightarrow> (Ok (), s\<lparr>link_state := l, cached := invalidate path (cached s)\<rparr>)
                    | (r, l) \<Rightarrow> (r, s\<lparr>link_state := l\<rparr>))
                | None \<Rightarrow> (Ok (), s)) of
            (Ok _, s) \<Rightarrow>
              (case d_stat rpc path (link_state s) of
                 (Ok st, l) \<Rightarrow>
                   (let s = s\<lparr>link_state := l\<rparr>
                    in case make_file_attr ino st of
                         Ok attr \<Rightarrow> (RAttr attr, s\<lparr>cached := put_attr now path attr (cached s)\<rparr>)
                       | r \<Rightarrow> (fail_reply r, s))
               | (r, l) \<Rightarrow> (fail_reply r, s\<lparr>link_state := l\<rparr>))
          | (r, s) \<Rightarrow> (fail_reply r, s)))"


section \<open>The mount handshake\<close>

datatype handshake_error = HandshakeTooShort | HandshakeIncomplete | HandshakeNotUtf8

definition parse_handshake :: "bytes \<Rightarrow> (handshake_error, string) outcome" where
  "parse_handshake data =
    (if length data < 2 then Err HandshakeTooShort
     else let path_len = unat (u16_from_le (take 2 data))
          in if length data < 2 + path_len then Err HandshakeIncomplete
             else and_then (from_utf8 HandshakeNotUtf8 (take path_len (drop 2 data))) (\<lambda>path.
               Ok (if path = [] then ''/mnt/host'' else path)))"


section \<open>The reader and the host's loop together\<close>

interpretation guest_reader: message_reader encode_response decode_response guest_view response_fits
  reader_loop handle_message "\<lambda>_. True"
  by unfold_locales (simp_all add: reader_loop.simps)

lemma deliver_responses:
  assumes "distinct (map response_id gs)" "set (map response_id gs) \<subseteq> set (d_pending d)"
  shows "fold handle_message (map Response gs) d =
    d\<lparr>d_pending := filter (\<lambda>i. i \<notin> set (map response_id gs)) (d_pending d),
      d_delivered := d_delivered d @ map (\<lambda>g. (response_id g, g)) gs\<rparr>"
  using assms
proof (induction gs arbitrary: d)
  case (Cons g gs)
  let ?d = "handle_message (Response g) d"
  have "?d = d\<lparr>d_pending := removeAll (response_id g) (d_pending d), d_delivered := d_delivered d @ [(response_id g, g)]\<rparr>"
    using Cons.prems by (simp add: Let_def)
  moreover have "set (map response_id gs) \<subseteq> set (removeAll (response_id g) (d_pending d))"
    using Cons.prems by auto (metis image_eqI)
  moreover have "filter (\<lambda>i. i \<notin> set (map response_id gs)) (removeAll (response_id g) (d_pending d))
      = filter (\<lambda>i. i \<notin> set (map response_id (g # gs))) (d_pending d)"
    by (simp add: removeAll_filter_not_eq conj_commute eq_commute)
  ultimately show ?case
    using Cons.IH [of ?d] Cons.prems(1) by simp
qed simp

lemma answers_views:
  "list_all2 answers rs resps \<Longrightarrow>
    \<exists>gs. map guest_view resps = map Response gs \<and> map response_id gs = map request_id rs"
proof (induction rs resps rule: list_all2_induct)
  case (Cons r rs resp resps)
  then obtain g gs where "guest_view resp = Response g" "response_id g = request_id r"
      "map guest_view resps = map Response gs" "map response_id gs = map request_id rs"
    by (auto simp: answers_def split: FuseMessage.splits)
  then show ?case
    by (intro exI [of _ "g # gs"]) simp
qed simp


section \<open>The tables\<close>

text \<open>The inode table is a bijection between paths and inodes below the next free one.\<close>

definition inode_inv :: "InodeMap \<Rightarrow> bool" where
  "inode_inv m \<longleftrightarrow> (\<forall>ino path. ino_to_path m ino = Some path \<longleftrightarrow> path_to_ino m path = Some ino)
     \<and> (\<forall>ino. ino_to_path m ino \<noteq> None \<longrightarrow> unat ino < unat (next_ino m))"

lemma inode_invD:
  assumes "inode_inv m"
  shows "ino_to_path m ino = Some path \<longleftrightarrow> path_to_ino m path = Some ino"
    and "ino_to_path m ino = Some path \<Longrightarrow> unat ino < unat (next_ino m)"
    and "path_to_ino m p = Some ino \<Longrightarrow> path_to_ino m q = Some ino \<Longrightarrow> p = q"
  using assms unfolding inode_inv_def by (blast, blast, metis option.inject)

lemma inode_invI:
  assumes "\<And>ino path. ino_to_path m ino = Some path \<longleftrightarrow> path_to_ino m path = Some ino"
    and "\<And>ino path. ino_to_path m ino = Some path \<Longrightarrow> unat ino < unat (next_ino m)"
  shows "inode_inv m"
  unfolding inode_inv_def using assms by blast

lemma inode_inv_new: "inode_inv inode_map_new"
  by (auto simp: inode_inv_def inode_map_new_def ROOT_INO_def)

lemma unat_Suc_word: "unat (w :: u64) + 1 < 2 ^ 64 \<Longrightarrow> unat (w + 1) = unat w + 1"
  by (simp add: unat_word_ariths)

lemma get_or_create_inv:
  assumes "inode_inv m" "unat (next_ino m) + 1 < 2 ^ 64"
  shows "inode_inv (snd (get_or_create path m))"
    and "get_path (snd (get_or_create path m)) (fst (get_or_create path m)) = Some path"
    and "unat (next_ino (snd (get_or_create path m))) \<le> unat (next_ino m) + 1"
proof -
  note un = unat_Suc_word [OF assms(2)]
  note inv = inode_invD [OF assms(1)]
  show "inode_inv (snd (get_or_create path m))"
  proof (cases "path_to_ino m path")
    case None
    have fresh: "path_to_ino m p \<noteq> Some (next_ino m)" for p
      using inv(1,2) [of "next_ino m" p] by auto
    show ?thesis
      by (rule inode_invI) (auto simp: get_or_create_def None inv(1) fresh un split: if_splits dest: inv(2) [unfolded inv(1)])
  qed (simp add: get_or_create_def assms(1))
  show "get_path (snd (get_or_create path m)) (fst (get_or_create path m)) = Some path"
    using assms(1) by (auto simp: inode_inv_def get_path_def get_or_create_def split: option.splits)
  show "unat (next_ino (snd (get_or_create path m))) \<le> unat (next_ino m) + 1"
    using un by (simp add: get_or_create_def split: option.splits)
qed

lemma inode_remove_inv: "inode_inv m \<Longrightarrow> inode_inv (inode_remove path m)"
proof (cases "path_to_ino m path")
  case (Some i)
  assume m: "inode_inv m"
  note inv = inode_invD [OF m]
  show ?thesis
    by (rule inode_invI)
      (auto simp: inode_remove_def Some inv(1) split: if_splits dest: inv(2) [unfolded inv(1)] inv(3) [OF Some])
qed (simp add: inode_remove_def)

lemma inode_remove_gone [simp]: "path_to_ino (inode_remove path m) path = None"
  by (auto simp: inode_remove_def split: option.splits)

lemma inode_rename_inv: "inode_inv m \<Longrightarrow> inode_inv (inode_rename old_path new_path m)"
proof -
  assume "inode_inv m"
  define m1 where "m1 = inode_remove new_path m"
  have m1: "inode_inv m1" "path_to_ino m1 new_path = None"
    using inode_remove_inv [OF \<open>inode_inv m\<close>] by (simp_all add: m1_def)
  note inv = inode_invD [OF m1(1)]
  show ?thesis
  proof (cases "path_to_ino m1 old_path")
    case (Some i)
    then have "inode_inv (m1\<lparr>ino_to_path := (ino_to_path m1)(i := Some new_path),
        path_to_ino := (path_to_ino m1)(old_path := None, new_path := Some i)\<rparr>)"
      by (intro inode_invI)
        (auto simp: inv(1) m1(2) split: if_splits dest: inv(2) [unfolded inv(1)] inv(3) [OF Some])
    with Some show ?thesis
      by (simp add: inode_rename_def m1_def Let_def)
  qed (simp add: inode_rename_def m1_def [symmetric] m1(1) Let_def)
qed

lemma next_ino_edits [simp]:
  "next_ino (inode_remove path m) = next_ino m" "next_ino (inode_rename old_path new_path m) = next_ino m"
  by (auto simp: inode_remove_def inode_rename_def Let_def split: option.splits)

text \<open>The calls the callbacks make on the table.\<close>

datatype inode_op = GetOrCreate string | RemovePath string | RenamePath string string

fun inode_step :: "inode_op \<Rightarrow> InodeMap \<Rightarrow> InodeMap" where
  "inode_step (GetOrCreate path) m = snd (get_or_create path m)"
| "inode_step (RemovePath path) m = inode_remove path m"
| "inode_step (RenamePath old_path new_path) m = inode_rename old_path new_path m"

lemma inode_steps_inv:
  assumes "inode_inv m" "unat (next_ino m) + length ops < 2 ^ 64"
  shows "inode_inv (fold inode_step ops m) \<and> unat (next_ino (fold inode_step ops m)) \<le> unat (next_ino m) + length ops"
  using assms
proof (induction ops arbitrary: m)
  case (Cons op ops)
  have "inode_inv (inode_step op m) \<and> unat (next_ino (inode_step op m)) \<le> unat (next_ino m) + 1"
    using Cons.prems get_or_create_inv [of m] inode_remove_inv inode_rename_inv by (cases op) auto
  then show ?case
    using Cons.IH [of "inode_step op m"] Cons.prems by simp
qed simp

lemma rename_keeps_other:
  assumes "inode_inv m" "get_path m ino = Some path" "path \<noteq> old_path" "path \<noteq> new_path"
  shows "get_path (inode_rename old_path new_path m) ino = Some path"
proof -
  have ino: "path_to_ino m path = Some ino"
    using assms(2) inode_invD(1) [OF assms(1)] by (simp add: get_path_def)
  define m1 where "m1 = inode_remove new_path m"
  have m1: "inode_inv m1"
    using inode_remove_inv [OF assms(1)] by (simp add: m1_def)
  have p: "path_to_ino m1 path = Some ino"
    using ino assms(4) by (simp add: m1_def inode_remove_def split: option.splits)
  then have i: "ino_to_path m1 ino = Some path"
    using inode_invD(1) [OF m1] by simp
  show ?thesis
  proof (cases "path_to_ino m1 old_path")
    case (Some j)
    then have "j \<noteq> ino"
      using inode_invD(3) [OF m1 p, of old_path] assms(3) by auto
    with Some i show ?thesis
      by (simp add: inode_rename_def m1_def [symmetric] Let_def get_path_def)
  qed (simp add: inode_rename_def m1_def [symmetric] Let_def get_path_def i)
qed

lemma add_entries_names:
  "set (map (\<lambda>x. snd (snd (snd x))) (fst (add_entries path room idx es m))) \<subseteq> entry_name ` set es"
proof (induction es arbitrary: room idx m)
  case (Cons e es)
  obtain ino m1 where g: "get_or_create (build_path path (entry_name e)) m = (ino, m1)"
    by (cases "get_or_create (build_path path (entry_name e)) m")
  obtain out m2 where r: "add_entries path (room - 1) (idx + 1) es m1 = (out, m2)"
    by (cases "add_entries path (room - 1) (idx + 1) es m1")
  have "set (map (\<lambda>x. snd (snd (snd x))) out) \<subseteq> entry_name ` set es"
    using Cons [of "room - 1" "idx + 1" m1] by (simp only: r fst_conv)
  then show ?case
    using r by (simp add: g) blast
qed simp

text \<open>The host as the other side of the calls.\<close>

definition host_rpc :: "os \<Rightarrow> share rpc" where
  "host_rpc env r sh =
    (let (resp, sh') = fp_handle_request env r sh
     in (case guest_view resp of Response g \<Rightarrow> Ok g | _ \<Rightarrow> Err DProtocol, sh'))"

lemma handshake_roundtrip:
  "short_str (vm_mount p) \<Longrightarrow> vm_mount p \<noteq> [] \<Longrightarrow> parse_handshake (handshake p) = Ok (vm_mount p)"
  by (simp add: parse_handshake_def handshake_def short_str_def unat_of_nat from_utf8_str_bytes Let_def)

text \<open>A time before 1970 (a negative \<open>i64\<close> cast to \<open>u64\<close> on the host) panics in the guest.\<close>

lemma negative_time_panics: "2 ^ 63 \<le> unat mtime \<Longrightarrow> make_file_attr ino (t, mode, sz, mtime, at, ct) = Panic"
  by (simp add: make_file_attr_def epoch_plus_def)


section \<open>Properties\<close>

text \<open>C14: guest and host together: for outstanding requests with distinct ids, whatever pieces the two streams
  deliver the bytes in, every waiting caller receives exactly the host handler's response to its own request, once,
  and nothing stays pending.\<close>

theorem fuse_end_to_end:
  assumes "list_all request_fits rs" "distinct (map request_id rs)" "d_pending d = map request_id rs"
    and "concat chunks = concat (map encode_request rs)" "\<not> writer_gone st" "replies st = []"
    and "list_all response_fits (replies (fold (serve envs) rs st))"
    and "concat chunks2 = concat (map encode_response
      (replies (fst (fold (reader_feed (proxy_loop envs)) chunks (st, Continue [])))))"
  shows "\<exists>gs. map guest_view (replies (fold (serve envs) rs st)) = map Response gs
    \<and> fold (reader_feed reader_loop) chunks2 (d, Continue [])
      = (d\<lparr>d_pending := [], d_delivered := d_delivered d @ zip (map request_id rs) gs\<rparr>, Continue [])"
proof -
  let ?st = "fold (serve envs) rs st"
  have st: "fst (fold (reader_feed (proxy_loop envs)) chunks (st, Continue [])) = ?st"
    using proxy_reader.feed_messages [of rs "[]" chunks st envs] assms(1,4,5) by simp
  obtain gs where gs: "map guest_view (replies ?st) = map Response gs" "map response_id gs = map request_id rs"
    using answers_views serve_fold_replies [OF assms(5), of envs rs] assms(6) by auto
  have ids: "filter (\<lambda>i. i \<notin> set (map response_id gs)) (map response_id gs) = []"
    by (auto simp: filter_empty_conv)
  have zip_gs: "map (\<lambda>g. (response_id g, g)) gs = zip (map response_id gs) gs"
    by (induction gs) simp_all
  have "fold (reader_feed reader_loop) chunks2 (d, Continue [])
      = (fold handle_message (map guest_view (replies ?st)) d, Continue [])"
    using guest_reader.feed_messages [of "replies ?st" "[]" chunks2 d] assms(7,8) st by simp
  also have "fold handle_message (map guest_view (replies ?st)) d
      = d\<lparr>d_pending := [], d_delivered := d_delivered d @ zip (map request_id rs) gs\<rparr>"
    using deliver_responses [of gs d] assms(2,3) ids zip_gs unfolding gs(1) gs(2) [symmetric]
    by simp
  finally show ?thesis
    using gs(1) by blast
qed


definition sample_st :: served where
  "sample_st = \<lparr>the_share = (sample_proxy True, sample_fs), replies = [], writer_gone = False\<rparr>"

theorem fuse_end_to_end_witness:
  "\<exists>gs. map guest_view (replies (fold (serve (\<lambda>_. sample_env)) [ReqPing 8, ReqClose 9 1] sample_st)) = map Response gs
    \<and> fold (reader_feed reader_loop)
        [concat (map encode_response (replies (fst (fold (reader_feed (proxy_loop (\<lambda>_. sample_env)))
          [encode_request (ReqPing 8), encode_request (ReqClose 9 1)] (sample_st, Continue [])))))]
        (dispatcher_new\<lparr>d_pending := [8, 9]\<rparr>, Continue [])
      = (dispatcher_new\<lparr>d_pending := [8, 9]\<rparr>\<lparr>d_pending := [], d_delivered := d_delivered
          (dispatcher_new\<lparr>d_pending := [8, 9]\<rparr>) @ zip (map request_id [ReqPing 8, ReqClose 9 1]) gs\<rparr>, Continue [])"
  by (rule fuse_end_to_end [where chunks = "[encode_request (ReqPing 8), encode_request (ReqClose 9 1)]"])
    (simp_all add: request_fits_def response_fits_def MAX_PAYLOAD_SIZE_def sample_st_def serve_def handle_close_def
      dispatcher_new_def)

text \<open>C15: the guest's inode table stays a bijection: after any sequence of look-ups, removals and renames short of
  exhausting the 64-bit numbers, an inode has a path exactly when that path has that inode, and the inode
  handed out for a path leads back to it.\<close>

theorem inode_table_bijective:
  assumes "length ops + 3 < 2 ^ 64" "m = fold inode_step ops inode_map_new"
  shows "(ino_to_path m ino = Some path \<longleftrightarrow> path_to_ino m path = Some ino)
    \<and> get_path (snd (get_or_create p m)) (fst (get_or_create p m)) = Some p"
proof -
  have "unat (next_ino inode_map_new) = 2"
    by (simp add: inode_map_new_def)
  then have m: "inode_inv m" "unat (next_ino m) + 1 < 2 ^ 64"
    using inode_steps_inv [OF inode_inv_new, of ops] assms by auto
  then show ?thesis
    using inode_invD(1) [OF m(1)] get_or_create_inv(2) [OF m] by blast
qed

theorem inode_table_bijective_witness:
  "(ino_to_path (fold inode_step [GetOrCreate ''/a'', RenamePath ''/a'' ''/b''] inode_map_new) 2 = Some ''/b''
      \<longleftrightarrow> path_to_ino (fold inode_step [GetOrCreate ''/a'', RenamePath ''/a'' ''/b''] inode_map_new) ''/b'' = Some 2)
    \<and> get_path (snd (get_or_create ''/c'' (fold inode_step [GetOrCreate ''/a'', RenamePath ''/a'' ''/b''] inode_map_new)))
        (fst (get_or_create ''/c'' (fold inode_step [GetOrCreate ''/a'', RenamePath ''/a'' ''/b''] inode_map_new)))
      = Some ''/c''"
  by (rule inode_table_bijective [where ops = "[GetOrCreate ''/a'', RenamePath ''/a'' ''/b'']"]) simp_all

text \<open>renaming a directory strands what is below it: after a successful rename the inodes of the directory's
  children still stand for their old paths, so the guest goes on sending paths that no longer exist.\<close>

theorem rename_strands_children:
  assumes "fs_rename_op rpc parent name newparent newname s = (REmpty, s')" "inode_inv (inodes s)"
    and "get_path (inodes s) parent = Some pp" "get_path (inodes s) newparent = Some np"
    and "get_path (inodes s) child = Some (build_path pp name @ CHR ''/'' # rest)"
    and "build_path np newname \<noteq> build_path pp name @ CHR ''/'' # rest"
  shows "get_path (inodes s') child = Some (build_path pp name @ CHR ''/'' # rest)"
proof -
  obtain l where "s' = s\<lparr>link_state := l, cached := invalidate_with_parent (build_path np newname)
      (invalidate_with_parent (build_path pp name) (cached s)),
      inodes := inode_rename (build_path pp name) (build_path np newname) (inodes s)\<rparr>"
    using assms(1,3,4) by (auto simp: fs_rename_op_def Let_def split: prod.splits outcome.splits)
  then show ?thesis
    using rename_keeps_other [OF assms(2,5), of "build_path pp name" "build_path np newname"] assms(6) by simp
qed

definition sample_gfs :: "unit HostFilesystem" where
  "sample_gfs = (fs_new ())\<lparr>inodes := fold inode_step [GetOrCreate ''/d'', GetOrCreate ''/d/x''] inode_map_new\<rparr>"

theorem rename_strands_children_witness:
  "get_path (inodes (snd (fs_rename_op (\<lambda>r h. (Ok (GRename 1 StOk), h)) 1 ''d'' 1 ''e'' sample_gfs))) 3
    = Some (build_path ''/'' ''d'' @ CHR ''/'' # ''x'')"
proof -
  have lossy: "to_string_lossy ''d'' = ''d''" "to_string_lossy ''e'' = ''e''"
    unfolding to_string_lossy_def by (simp_all add: ascii_rust_string is_ascii_def)
  have inv: "inode_inv (inodes sample_gfs)"
    using inode_steps_inv [OF inode_inv_new, of "[GetOrCreate ''/d'', GetOrCreate ''/d/x'']"]
    by (simp add: sample_gfs_def inode_map_new_def)
  note ev = sample_gfs_def fs_new_def inode_map_new_def get_or_create_def get_path_def ROOT_INO_def build_path_def lossy
  have r: "fs_rename_op (\<lambda>r h. (Ok (GRename 1 StOk), h)) 1 ''d'' 1 ''e'' sample_gfs
      = (REmpty, snd (fs_rename_op (\<lambda>r h. (Ok (GRename 1 StOk), h)) 1 ''d'' 1 ''e'' sample_gfs))"
    by (simp add: ev fs_rename_op_def d_rename_def call_def Let_def)
  show ?thesis
    by (rule rename_strands_children [OF r inv, where np = "''/''"]) (simp_all add: ev)
qed

text \<open>a shared directory is listed only up to its first hundred entries: the host ignores the offset of a
  directory read, the guest asks for a hundred entries and skips what the offset covers, so a reply, at whatever
  offset the kernel asks, only ever holds entries among the first hundred, and none from offset 100 on.\<close>

theorem readdir_capped:
  assumes "fs_readdir (host_rpc env) now room ino fh off s = (RDirectory out, s')"
    and "get_path (inodes s) ino = Some path" "get_dir now (cached s) path = None" "get_remote (handles s) fh = Some fd"
    and "peer (link_state s) = (p, fs)" "open_files p fd = Some f" "read_dir env fs (of_path f) = Ok names"
  shows "set (map (\<lambda>x. snd (snd (snd x))) out) \<subseteq> to_string_lossy ` set (take 100 names)
    \<and> (100 \<le> unat off \<longrightarrow> out = [])"
proof -
  obtain l es where d: "d_readdir (host_rpc env) fd off 100 (link_state s) = (Ok es, l)"
      and out: "out = fst (add_entries path room (unat off) (drop (unat off) es) (inodes s))"
    using assms(1) by (auto simp: fs_readdir_def assms(2-4) Let_def split: prod.splits outcome.splits)
  have es: "es = map (dir_entry env fs (of_path f)) (take 100 names)"
    using d by (cases "of_is_dir f")
      (simp_all add: d_readdir_def call_def host_rpc_def handle_readdir_def assms(5-7))
  have "entry_name ` set (drop (unat off) es) \<subseteq> to_string_lossy ` set (take 100 names)"
    using set_drop_subset [of "unat off" es] by (auto simp: es dir_entry_def Let_def)
  moreover have "out = []" if "100 \<le> unat off"
  proof -
    have "drop (unat off) es = []"
      using that by (simp add: es)
    then show ?thesis
      by (simp add: out)
  qed
  ultimately show ?thesis
    using subset_trans [OF add_entries_names [of path room "unat off" "drop (unat off) es" "inodes s"]]
    unfolding out [symmetric] by simp
qed


definition sample_listing :: "share HostFilesystem" where
  "sample_listing = (fs_new (sample_proxy True\<lparr>open_files := (\<lambda>_. None)(1 := Some \<lparr>of_file = \<lparr>f_ino = 1, f_read = True,
     f_write = False, f_append = False, f_pos = 0\<rparr>, of_path = ''/s'', of_is_dir = True\<rparr>)\<rparr>, sample_fs))
     \<lparr>handles := snd (handle_allocate 1 handles_new)\<rparr>"

theorem readdir_capped_witness:
  "\<exists>out. fst (fs_readdir (host_rpc sample_env) 0 50 1 1 100 sample_listing) = RDirectory out
    \<and> set (map (\<lambda>x. snd (snd (snd x))) out) \<subseteq> to_string_lossy ` set (take 100 [''l'', ''f'']) \<and> out = []"
proof -
  let ?p = "fst (peer (link_state sample_listing))"
  note ev = sample_listing_def fs_new_def handle_allocate_def handles_new_def get_path_def inode_map_new_def
    ROOT_INO_def get_dir_def cache_new_def get_remote_def
  have dir: "read_dir sample_env sample_fs ''/s'' = Ok [''l'', ''f'']"
    by (simp add: read_dir_def guarded_def sample_env_def sample_fs_def resolve_def is_absolute_def node_at_def ino_at_def)
  obtain out s' where r: "fs_readdir (host_rpc sample_env) 0 50 1 1 100 sample_listing = (RDirectory out, s')"
    by (simp add: fs_readdir_def d_readdir_def call_def host_rpc_def handle_readdir_def dir ev Let_def)
  have "set (map (\<lambda>x. snd (snd (snd x))) out) \<subseteq> to_string_lossy ` set (take 100 [''l'', ''f''])
      \<and> (100 \<le> unat (100 :: u64) \<longrightarrow> out = [])"
    by (rule readdir_capped [OF r, where path = "''/''" and fd = 1 and p = ?p and fs = sample_fs
        and f = "\<lparr>of_file = \<lparr>f_ino = 1, f_read = True, f_write = False, f_append = False, f_pos = 0\<rparr>,
          of_path = ''/s'', of_is_dir = True\<rparr>"])
      (simp_all add: ev dir)
  then show ?thesis
    using r by simp
qed

end
