(* ===== verification/Blocklist.thy ===== *)
theory Blocklist
  imports Domain_Gate Rust_Text
begin

unbundle bit_operations_syntax

text \<open>
  The domain blocklist of \<open>crates/nilbox-blocklist\<close>: the bloom filter (\<open>bloom.rs\<close>), the file format
  (\<open>format.rs\<close>), loading and checking (\<open>lib.rs\<close>, \<open>verify.rs\<close>), the list parsers (\<open>sources\<close>) and the
  builder (\<open>builder.rs\<close>), and its use by the domain gate.  Parameters: the hash of the standard
  library's \<open>DefaultHasher\<close> (whose algorithm is not specified), SHA-256, Ed25519, the floating-point
  sizing of the filter, and the files and downloads the builder reads.
\<close>

section \<open>Bloom filter\<close>

datatype blocklist_error =
    HeaderTooShort | BadMagic | UnsupportedVersion | FileTooSmall | SizeMismatch | ContentHashMismatch
  | Unsigned | SignatureInvalid | UnknownSource | ReadFailed | SigningFailed | NoNetwork

type_synonym siphash = "string \<Rightarrow> u64 \<Rightarrow> u64"

record BloomFilter =
  bits :: bytes
  num_bits :: u64
  num_hashes :: u32

text \<open>The rounding of the sizes \<open>m\<close> (bits) and \<open>k\<close> (hashes) the floating-point formulas give.\<close>

definition with_capacity :: "nat \<times> u32 \<Rightarrow> BloomFilter" where
  "with_capacity = (\<lambda>(m, k).
    (let k = max k 1; byte_len = (m + 7) div 8
     in \<lparr>bits = replicate byte_len 0, num_bits = of_nat byte_len * 8, num_hashes = k\<rparr>))"

definition from_raw :: "bytes \<Rightarrow> u64 \<Rightarrow> u32 \<Rightarrow> BloomFilter" where
  "from_raw bs nb k = \<lparr>bits = bs, num_bits = nb, num_hashes = k\<rparr>"

definition normalize_domain :: "string \<Rightarrow> string" where
  "normalize_domain domain = trim_end_matches CHR ''.'' (to_lowercase domain)"

text \<open>The remainder panics when the filter has no bits.\<close>

definition compute_positions :: "siphash \<Rightarrow> BloomFilter \<Rightarrow> string \<Rightarrow> (blocklist_error, nat list) outcome" where
  "compute_positions sip f domain =
    (let h1 = sip domain 0; h2 = sip domain 1
     in if num_bits f = 0 \<and> num_hashes f \<noteq> 0 then Panic
        else Ok (map (\<lambda>i. unat ((h1 + of_nat i * h2) mod num_bits f)) [0..<unat (num_hashes f)]))"

definition set_bit_at :: "nat \<Rightarrow> bytes \<Rightarrow> (blocklist_error, bytes) outcome" where
  "set_bit_at pos bs =
    (let byte = pos div 8; bit_no = pos mod 8
     in if byte < length bs then Ok (bs[byte := bs ! byte OR push_bit bit_no 1]) else Panic)"

fun set_bits :: "nat list \<Rightarrow> bytes \<Rightarrow> (blocklist_error, bytes) outcome" where
  "set_bits [] bs = Ok bs"
| "set_bits (p # ps) bs = and_then (set_bit_at p bs) (set_bits ps)"

definition bloom_insert :: "siphash \<Rightarrow> string \<Rightarrow> BloomFilter \<Rightarrow> (blocklist_error, BloomFilter) outcome" where
  "bloom_insert sip domain f =
    and_then (compute_positions sip f (normalize_domain domain)) (\<lambda>positions.
      and_then (set_bits positions (bits f)) (\<lambda>bs. Ok (f\<lparr>bits := bs\<rparr>)))"

fun test_bits :: "nat list \<Rightarrow> bytes \<Rightarrow> (blocklist_error, bool) outcome" where
  "test_bits [] bs = Ok True"
| "test_bits (p # ps) bs =
    (if p div 8 < length bs then
       if drop_bit (p mod 8) (bs ! (p div 8)) AND 1 = 1 then test_bits ps bs else Ok False
     else Panic)"

definition bloom_contains :: "siphash \<Rightarrow> BloomFilter \<Rightarrow> string \<Rightarrow> (blocklist_error, bool) outcome" where
  "bloom_contains sip f domain =
    and_then (compute_positions sip f (normalize_domain domain)) (\<lambda>positions. test_bits positions (bits f))"

function check_parents :: "siphash \<Rightarrow> BloomFilter \<Rightarrow> string \<Rightarrow> (blocklist_error, bool) outcome" where
  "check_parents sip f d =
    and_then (bloom_contains sip f d) (\<lambda>hit.
      if hit then Ok True
      else (case split_once CHR ''.'' d of Some (_, r) \<Rightarrow> check_parents sip f r | None \<Rightarrow> Ok False))"
  by pat_completeness auto

termination
  by (relation "measure (\<lambda>(sip, f, d). length d)") (auto dest: split_once_Some)

declare check_parents.simps [simp del]

definition check_with_parents :: "siphash \<Rightarrow> BloomFilter \<Rightarrow> string \<Rightarrow> (blocklist_error, bool) outcome" where
  "check_with_parents sip f domain = check_parents sip f (normalize_domain domain)"


section \<open>File format\<close>

definition NBLK_MAGIC :: bytes where "NBLK_MAGIC = str_bytes ''NBLK''"
definition FORMAT_VERSION :: u16 where "FORMAT_VERSION = 1"
definition NBLK_HEADER_SIZE :: nat where "NBLK_HEADER_SIZE = 64"
definition SIG_SIZE :: nat where "SIG_SIZE = 64"

record BlocklistHeader =
  magic :: bytes
  format_version :: u16
  category_flags :: u8
  reserved :: u8
  domain_count :: u32
  fp_rate_millionths :: u32
  num_hash_functions :: u32
  bit_array_len_bytes :: u32
  build_timestamp :: u64
  content_sha256 :: bytes

definition header_to_bytes :: "BlocklistHeader \<Rightarrow> bytes" where
  "header_to_bytes h = magic h @ put_u16_le (format_version h) @ [category_flags h, reserved h]
     @ put_u32_le (domain_count h) @ put_u32_le (fp_rate_millionths h) @ put_u32_le (num_hash_functions h)
     @ put_u32_le (bit_array_len_bytes h) @ put_u64_le (build_timestamp h) @ content_sha256 h"

definition header_from_bytes :: "bytes \<Rightarrow> (blocklist_error, BlocklistHeader) outcome" where
  "header_from_bytes b =
    (if length b < NBLK_HEADER_SIZE then Err HeaderTooShort
     else if take 4 b \<noteq> NBLK_MAGIC then Err BadMagic
     else if u16_from_le (take 2 (drop 4 b)) \<noteq> FORMAT_VERSION then Err UnsupportedVersion
     else Ok \<lparr>magic = take 4 b, format_version = u16_from_le (take 2 (drop 4 b)), category_flags = b ! 6,
       reserved = b ! 7, domain_count = u32_from_le (take 4 (drop 8 b)),
       fp_rate_millionths = u32_from_le (take 4 (drop 12 b)),
       num_hash_functions = u32_from_le (take 4 (drop 16 b)),
       bit_array_len_bytes = u32_from_le (take 4 (drop 20 b)),
       build_timestamp = u64_from_le (take 8 (drop 24 b)), content_sha256 = take 32 (drop 32 b)\<rparr>)"

definition serialize :: "BlocklistHeader \<Rightarrow> bytes \<Rightarrow> bytes \<Rightarrow> bytes" where
  "serialize h bs signature = header_to_bytes h @ bs @ signature"

definition deserialize :: "(bytes \<Rightarrow> bytes) \<Rightarrow> bytes \<Rightarrow> (blocklist_error, BlocklistHeader \<times> bytes \<times> bytes) outcome" where
  "deserialize sha256 data =
    (if length data < NBLK_HEADER_SIZE + SIG_SIZE then Err FileTooSmall
     else and_then (header_from_bytes (take NBLK_HEADER_SIZE data)) (\<lambda>h.
       let bit_len = unat (bit_array_len_bytes h)
       in if length data \<noteq> NBLK_HEADER_SIZE + bit_len + SIG_SIZE then Err SizeMismatch
          else let bs = take bit_len (drop NBLK_HEADER_SIZE data)
               in if sha256 bs \<noteq> content_sha256 h then Err ContentHashMismatch
                  else Ok (h, bs, drop (NBLK_HEADER_SIZE + bit_len) data)))"

definition signable_bytes :: "BlocklistHeader \<Rightarrow> bytes \<Rightarrow> bytes" where
  "signable_bytes h bs = header_to_bytes h @ bs"


section \<open>Loading\<close>

text \<open>\<open>verifies\<close>: the Ed25519 check under the pinned public key.\<close>

definition verify_signature :: "(bytes \<Rightarrow> bytes \<Rightarrow> bool) \<Rightarrow> bytes \<Rightarrow> bytes \<Rightarrow> (blocklist_error, unit) outcome" where
  "verify_signature verifies data signature =
    (if list_all (\<lambda>b. b = 0) signature then Err Unsigned
     else if verifies data signature then Ok () else Err SignatureInvalid)"

record BloomBlocklist =
  header :: BlocklistHeader
  filter_of :: BloomFilter
  signature_verified :: bool

definition header_num_bits :: "BlocklistHeader \<Rightarrow> u64" where
  "header_num_bits h = ucast (bit_array_len_bytes h) * 8"

definition load_blocklist :: "(bytes \<Rightarrow> bytes) \<Rightarrow> (bytes \<Rightarrow> bytes \<Rightarrow> bool) \<Rightarrow> bytes \<Rightarrow> bool
    \<Rightarrow> (blocklist_error, BloomBlocklist) outcome" where
  "load_blocklist sha256 verifies data verify_sig =
    and_then (deserialize sha256 data) (\<lambda>(h, bs, sig).
      and_then (if verify_sig then verify_signature verifies (signable_bytes h bs) sig else Ok ()) (\<lambda>_.
        Ok \<lparr>header = h, filter_of = from_raw bs (header_num_bits h) (num_hash_functions h),
            signature_verified = verify_sig\<rparr>))"

definition list_contains :: "siphash \<Rightarrow> BloomBlocklist \<Rightarrow> string \<Rightarrow> (blocklist_error, bool) outcome" where
  "list_contains sip bl domain = check_with_parents sip (filter_of bl) domain"

definition age_secs :: "u64 \<Rightarrow> BloomBlocklist \<Rightarrow> nat" where
  "age_secs now_unix bl = unat now_unix - unat (build_timestamp (header bl))"

record BlocklistInfo =
  info_count :: u32
  info_timestamp :: u64
  info_verified :: bool

definition blocklist_info :: "BloomBlocklist \<Rightarrow> BlocklistInfo" where
  "blocklist_info bl = \<lparr>info_count = domain_count (header bl), info_timestamp = build_timestamp (header bl),
     info_verified = signature_verified bl\<rparr>"


section \<open>List parsers\<close>

text \<open>The last test of both parsers.\<close>

definition listed :: "string \<Rightarrow> string option" where
  "listed domain = (let n = normalize_domain domain in if n = [] \<or> CHR ''.'' \<notin> set n then None else Some n)"

definition parse_oisd_line :: "string \<Rightarrow> string option" where
  "parse_oisd_line l =
    (let l = trim l
     in if l = [] \<or> starts_with l ''#'' then None
        else listed (case strip_prefix l ''*.'' of Some r \<Rightarrow> r | None \<Rightarrow> l))"

definition parse_oisd :: "string \<Rightarrow> string list" where
  "parse_oisd s = List.map_filter parse_oisd_line (lines_of s)"

definition parse_urlhaus_line :: "string \<Rightarrow> string option" where
  "parse_urlhaus_line l =
    (let l = trim l
     in if l = [] \<or> starts_with l ''#'' then None
        else (case dropWhile (\<lambda>c. \<not> is_space c) l of [] \<Rightarrow> None | _ # r \<Rightarrow> listed (trim r)))"

definition parse_urlhaus :: "string \<Rightarrow> string list" where
  "parse_urlhaus s = List.map_filter parse_urlhaus_line (lines_of s)"


section \<open>Builder\<close>

record BuilderConfig =
  sources :: "string list"
  user_deny_path :: "string option"
  user_allow_path :: "string option"
  sign_key_path :: "string option"
  cfg_category_flags :: u8
  offline_dir :: "string option"

text \<open>
  What the builder gets from outside: files, downloads (with the \<open>cli\<close> feature), the signature under
  a key file, the sizes and the rate as fixed-point number, and the clock.
\<close>

record builder_env =
  read_file :: "string \<Rightarrow> string option"
  cli :: bool
  download :: "string \<Rightarrow> string option"
  sign_with :: "string \<Rightarrow> bytes \<Rightarrow> bytes option"
  sizes :: "u32 \<Rightarrow> nat \<times> u32"
  fp_millionths :: u32
  build_time :: u64
  hash_256 :: "bytes \<Rightarrow> bytes"

definition parse_source :: "string \<Rightarrow> string \<Rightarrow> string list" where
  "parse_source source s = (if source = ''oisd'' then parse_oisd s else parse_urlhaus s)"

definition extend_set :: "string list \<Rightarrow> string list \<Rightarrow> string list" where
  "extend_set ds domains = fold List.insert ds domains"

definition source_file :: "string \<Rightarrow> string \<Rightarrow> string" where
  "source_file dir src = (if dir = [] \<or> ends_with dir ''/'' then dir else dir @ ''/'') @ src @ ''.txt''"

fun load_offline_sources :: "builder_env \<Rightarrow> string \<Rightarrow> string list \<Rightarrow> string list \<Rightarrow> (blocklist_error, string list) outcome" where
  "load_offline_sources env dir [] domains = Ok domains"
| "load_offline_sources env dir (src # srcs) domains =
    (if src \<noteq> ''oisd'' \<and> src \<noteq> ''urlhaus'' then Err UnknownSource
     else (case read_file env (source_file dir src) of
         None \<Rightarrow> Err ReadFailed
       | Some s \<Rightarrow> load_offline_sources env dir srcs (extend_set (parse_source src s) domains)))"

fun fetch_sources :: "builder_env \<Rightarrow> string list \<Rightarrow> string list \<Rightarrow> (blocklist_error, string list) outcome" where
  "fetch_sources env [] domains = Ok domains"
| "fetch_sources env (src # srcs) domains =
    (if src \<noteq> ''oisd'' \<and> src \<noteq> ''urlhaus'' then Err UnknownSource
     else (case download env src of
         None \<Rightarrow> Err ReadFailed
       | Some s \<Rightarrow> fetch_sources env srcs (extend_set (parse_source src s) domains)))"

definition fetch_online_sources :: "builder_env \<Rightarrow> string list \<Rightarrow> string list \<Rightarrow> (blocklist_error, string list) outcome" where
  "fetch_online_sources env srcs domains = (if cli env then fetch_sources env srcs domains else Err NoNetwork)"

text \<open>A file of overrides, one domain per line.\<close>

definition override_lines :: "builder_env \<Rightarrow> string option \<Rightarrow> (blocklist_error, string list) outcome" where
  "override_lines env path =
    (case path of
       None \<Rightarrow> Ok []
     | Some p \<Rightarrow> (case read_file env p of
           None \<Rightarrow> Err ReadFailed
         | Some s \<Rightarrow> Ok (filter (\<lambda>d. d \<noteq> []) (map (\<lambda>l. normalize_domain (trim l)) (lines_of s)))))"

definition collect_domains :: "builder_env \<Rightarrow> BuilderConfig \<Rightarrow> (blocklist_error, string list) outcome" where
  "collect_domains env cfg =
    and_then (case offline_dir cfg of
        Some dir \<Rightarrow> load_offline_sources env dir (sources cfg) []
      | None \<Rightarrow> fetch_online_sources env (sources cfg) []) (\<lambda>domains.
    and_then (override_lines env (user_allow_path cfg)) (\<lambda>allow.
    and_then (override_lines env (user_deny_path cfg)) (\<lambda>deny_lines.
      Ok (extend_set (filter (\<lambda>d. CHR ''.'' \<in> set d) deny_lines) (filter (\<lambda>d. d \<notin> set allow) domains)))))"

fun insert_all :: "siphash \<Rightarrow> string list \<Rightarrow> BloomFilter \<Rightarrow> (blocklist_error, BloomFilter) outcome" where
  "insert_all sip [] f = Ok f"
| "insert_all sip (d # ds) f = and_then (bloom_insert sip d f) (insert_all sip ds)"

definition build_header :: "builder_env \<Rightarrow> BuilderConfig \<Rightarrow> u32 \<Rightarrow> BloomFilter \<Rightarrow> BlocklistHeader" where
  "build_header env cfg count f =
    \<lparr>magic = NBLK_MAGIC, format_version = FORMAT_VERSION, category_flags = cfg_category_flags cfg, reserved = 0,
     domain_count = count, fp_rate_millionths = fp_millionths env, num_hash_functions = num_hashes f,
     bit_array_len_bytes = of_nat (length (bits f)), build_timestamp = build_time env,
     content_sha256 = hash_256 env (bits f)\<rparr>"

definition sign_blocklist :: "builder_env \<Rightarrow> BuilderConfig \<Rightarrow> bytes \<Rightarrow> (blocklist_error, bytes) outcome" where
  "sign_blocklist env cfg data =
    (case sign_key_path cfg of
       None \<Rightarrow> Ok (replicate SIG_SIZE 0)
     | Some key \<Rightarrow>
         if \<not> cli env then Err SigningFailed
         else (case read_file env key of
             None \<Rightarrow> Err ReadFailed
           | Some pem \<Rightarrow> (case sign_with env pem data of Some sig \<Rightarrow> Ok sig | None \<Rightarrow> Err SigningFailed)))"

definition build_blocklist :: "siphash \<Rightarrow> builder_env \<Rightarrow> BuilderConfig \<Rightarrow> (blocklist_error, bytes) outcome" where
  "build_blocklist sip env cfg =
    and_then (collect_domains env cfg) (\<lambda>domains.
      let count = of_nat (length domains) :: u32
      in and_then (insert_all sip domains (with_capacity (sizes env (max count 1)))) (\<lambda>f.
        let h = build_header env cfg count f
        in and_then (sign_blocklist env cfg (signable_bytes h (bits f))) (\<lambda>sig.
             Ok (serialize h (bits f) sig))))"


section \<open>The gate\<close>

text \<open>\<open>reload_blocklist\<close> and the start-up loading: the signature is not asked for.\<close>

definition reload_blocklist :: "siphash \<Rightarrow> (bytes \<Rightarrow> bytes) \<Rightarrow> (bytes \<Rightarrow> bytes \<Rightarrow> bool) \<Rightarrow> bytes option \<Rightarrow> gate
    \<Rightarrow> (blocklist_error, BlocklistInfo) outcome \<times> gate" where
  "reload_blocklist sip sha256 verifies file g =
    (case file of
       None \<Rightarrow> (Err ReadFailed, g)
     | Some data \<Rightarrow>
         (case load_blocklist sha256 verifies data False of
            Ok bl \<Rightarrow> (Ok (blocklist_info bl),
              set_blocklist (Some (\<lambda>d. list_contains sip bl d = Ok True)) g)
          | Err e \<Rightarrow> (Err e, g)
          | Panic \<Rightarrow> (Panic, g)))"


section \<open>Filter lemmas\<close>

text \<open>A filter whose bit count is that of its array.\<close>

definition filter_wf :: "BloomFilter \<Rightarrow> bool" where
  "filter_wf f \<longleftrightarrow> unat (num_bits f) = 8 * length (bits f) \<and> bits f \<noteq> []"

definition has_bit :: "bytes \<Rightarrow> nat \<Rightarrow> bool" where
  "has_bit bs pos \<longleftrightarrow> pos div 8 < length bs \<and> bit (bs ! (pos div 8)) (pos mod 8)"

lemma and_one_bit: "(drop_bit n (b :: byte) AND 1 = 1) \<longleftrightarrow> bit b n"
  by (simp add: and_one_eq bit_iff_odd_drop_bit odd_iff_mod_2_eq_one)

lemma test_bits_iff:
  "list_all (\<lambda>p. p div 8 < length bs) ps \<Longrightarrow> test_bits ps bs = Ok (list_all (has_bit bs) ps)"
  by (induction ps) (auto simp: and_one_bit has_bit_def)

lemma has_bit_set:
  assumes "set_bit_at p bs = Ok bs'"
  shows "length bs' = length bs" "has_bit bs' q \<longleftrightarrow> has_bit bs q \<or> q = p"
proof -
  have p: "p div 8 < length bs" and bs': "bs' = bs[p div 8 := bs ! (p div 8) OR push_bit (p mod 8) 1]"
    using assms by (auto simp: set_bit_at_def Let_def split: if_splits)
  show "length bs' = length bs"
    by (simp add: bs')
  have eq: "q = p \<longleftrightarrow> q div 8 = p div 8 \<and> q mod 8 = p mod 8"
    by (metis mult_div_mod_eq)
  have "bit (push_bit (p mod 8) 1 :: byte) (q mod 8) \<longleftrightarrow> q mod 8 = p mod 8"
    by (auto simp: bit_exp_iff possible_bit_def)
  then show "has_bit bs' q \<longleftrightarrow> has_bit bs q \<or> q = p"
    using p by (cases "q div 8 = p div 8") (auto simp: has_bit_def bs' eq bit_or_iff nth_list_update)
qed

lemma set_bits_ok:
  "list_all (\<lambda>p. p div 8 < length bs) ps \<Longrightarrow>
    \<exists>bs'. set_bits ps bs = Ok bs' \<and> length bs' = length bs \<and> (\<forall>q. has_bit bs' q \<longleftrightarrow> has_bit bs q \<or> q \<in> set ps)"
proof (induction ps arbitrary: bs)
  case (Cons p ps)
  then obtain bs1 where bs1: "set_bit_at p bs = (Ok bs1 :: (blocklist_error, bytes) outcome)"
    by (auto simp: set_bit_at_def Let_def)
  note h = has_bit_set [OF bs1]
  obtain bs' where "set_bits ps bs1 = (Ok bs' :: (blocklist_error, bytes) outcome)" "length bs' = length bs1"
      "\<forall>q. has_bit bs' q \<longleftrightarrow> has_bit bs1 q \<or> q \<in> set ps"
    using Cons.IH [of bs1] Cons.prems h(1) by auto
  with bs1 h show ?case
    by auto
qed simp

lemma positions_ok:
  assumes "filter_wf f"
  shows "\<exists>ps. compute_positions sip f d = Ok ps \<and> list_all (\<lambda>p. p div 8 < length (bits f)) ps"
proof -
  have pos: "0 < num_bits f"
    using assms by (auto simp: filter_wf_def word_greater_zero_iff)
  have "unat (x mod num_bits f) < 8 * length (bits f)" for x
    using unat_mono [OF word_mod_less_divisor [OF pos, of x]] assms by (simp add: filter_wf_def)
  then have "unat (x mod num_bits f) div 8 < length (bits f)" for x
    by (simp add: less_mult_imp_div_less mult.commute)
  then show ?thesis
    using pos by (auto simp: compute_positions_def Let_def list_all_iff)
qed

text \<open>Two filters of the same shape, the second with at least the bits of the first.\<close>

definition grows :: "BloomFilter \<Rightarrow> BloomFilter \<Rightarrow> bool" where
  "grows f g \<longleftrightarrow> num_bits g = num_bits f \<and> num_hashes g = num_hashes f \<and> length (bits g) = length (bits f)
     \<and> (\<forall>q. has_bit (bits f) q \<longrightarrow> has_bit (bits g) q)"

lemma grows_trans: "grows f g \<Longrightarrow> grows g h \<Longrightarrow> grows f h"
  by (auto simp: grows_def)

lemma grows_wf: "grows f g \<Longrightarrow> filter_wf f \<Longrightarrow> filter_wf g"
  by (auto simp: grows_def filter_wf_def)

lemma positions_cong: "grows f g \<Longrightarrow> compute_positions sip g d = compute_positions sip f d"
  by (simp add: grows_def compute_positions_def)

lemma bloom_contains_wf:
  "filter_wf f \<Longrightarrow> compute_positions sip f (normalize_domain d) = Ok ps \<Longrightarrow>
    list_all (\<lambda>p. p div 8 < length (bits f)) ps \<Longrightarrow>
    bloom_contains sip f d = (Ok (list_all (has_bit (bits f)) ps) :: (blocklist_error, bool) outcome)"
  by (simp add: bloom_contains_def test_bits_iff)

lemma bloom_contains_total: "filter_wf f \<Longrightarrow> \<exists>b. bloom_contains sip f d = Ok b"
  using positions_ok [of f sip "normalize_domain d"] by (auto simp: bloom_contains_wf)

lemma bloom_contains_grows:
  assumes "grows f g" "filter_wf f" "bloom_contains sip f d = Ok True"
  shows "bloom_contains sip g d = Ok True"
proof -
  obtain ps where ps: "compute_positions sip f (normalize_domain d) = Ok ps"
      "list_all (\<lambda>p. p div 8 < length (bits f)) ps"
    using positions_ok [OF assms(2)] by blast
  then have "list_all (has_bit (bits f)) ps"
    using assms(2,3) by (simp add: bloom_contains_wf)
  then show ?thesis
    using ps assms(1,2) bloom_contains_wf [OF grows_wf [OF assms(1,2)], of sip d ps]
    by (simp add: positions_cong [OF assms(1)] list_all_iff) (simp add: grows_def)
qed

lemma bloom_insert_ok:
  assumes "filter_wf f"
  shows "\<exists>g. bloom_insert sip d f = Ok g \<and> grows f g
    \<and> bloom_contains sip g d = Ok True"
proof -
  obtain ps where ps: "compute_positions sip f (normalize_domain d) = Ok ps"
      "list_all (\<lambda>p. p div 8 < length (bits f)) ps"
    using positions_ok [OF assms] by blast
  obtain bs where bs: "set_bits ps (bits f) = Ok bs" "length bs = length (bits f)"
      "\<forall>q. has_bit bs q \<longleftrightarrow> has_bit (bits f) q \<or> q \<in> set ps"
    using set_bits_ok [OF ps(2)] by blast
  define g where "g = f\<lparr>bits := bs\<rparr>"
  have g: "grows f g"
    using bs by (simp add: grows_def g_def)
  have "bloom_contains sip g d = Ok (list_all (has_bit bs) ps)"
    using bloom_contains_wf [OF grows_wf [OF g assms], of sip d ps] ps bs(2) positions_cong [OF g]
    by (simp add: g_def)
  with g bs ps show ?thesis
    by (auto simp: bloom_insert_def g_def list_all_iff)
qed

lemma insert_all_ok:
  assumes "filter_wf f"
  shows "\<exists>g. insert_all sip ds f = Ok g \<and> grows f g
    \<and> (\<forall>d \<in> set ds. bloom_contains sip g d = Ok True)"
  using assms
proof (induction ds arbitrary: f)
  case Nil
  then show ?case by (simp add: grows_def)
next
  case (Cons d ds)
  obtain f1 where f1: "bloom_insert sip d f = Ok f1" "grows f f1"
      "bloom_contains sip f1 d = Ok True"
    using bloom_insert_ok [OF Cons.prems] by blast
  obtain g where "insert_all sip ds f1 = Ok g" "grows f1 g"
      "\<forall>d \<in> set ds. bloom_contains sip g d = Ok True"
    using Cons.IH [OF grows_wf [OF f1(2) Cons.prems]] by blast
  with f1 Cons.prems show ?case
    using grows_trans bloom_contains_grows [OF \<open>grows f1 g\<close> grows_wf [OF f1(2) Cons.prems], of sip d] by auto
qed

text \<open>The parents of a domain: what is left of it after a dot.\<close>

definition parents :: "string \<Rightarrow> string set" where
  "parents d = insert d {r. \<exists>l. d = l @ CHR ''.'' # r}"

lemma split_at_sep:
  "c \<notin> set l \<Longrightarrow> l @ c # r = m @ c # t \<Longrightarrow> t = r \<or> (\<exists>n. r = n @ c # t)"
proof (induction l arbitrary: m)
  case Nil
  then show ?case by (cases m) auto
next
  case (Cons x l)
  then show ?case by (cases m) auto
qed

lemma parents_split:
  "parents d = insert d (case split_once CHR ''.'' d of Some (_, r) \<Rightarrow> parents r | None \<Rightarrow> {})"
proof (cases "split_once CHR ''.'' d")
  case None
  then have "CHR ''.'' \<notin> set d"
    by (simp add: split_once_None)
  then show ?thesis
    by (auto simp: parents_def None)
next
  case (Some p)
  obtain l r where p: "p = (l, r)" by (cases p)
  then have d: "d = l @ CHR ''.'' # r" "CHR ''.'' \<notin> set l"
    using split_once_Some [of "CHR ''.''" d l r] Some by simp_all
  have "(\<exists>m. d = m @ CHR ''.'' # t) \<longleftrightarrow> t = r \<or> (\<exists>m. r = m @ CHR ''.'' # t)" for t
  proof
    assume "\<exists>m. d = m @ CHR ''.'' # t"
    then obtain m where "l @ CHR ''.'' # r = m @ CHR ''.'' # t"
      using d(1) by auto
    then show "t = r \<or> (\<exists>m. r = m @ CHR ''.'' # t)"
      by (rule split_at_sep [OF d(2)])
  next
    assume "t = r \<or> (\<exists>m. r = m @ CHR ''.'' # t)"
    then show "\<exists>m. d = m @ CHR ''.'' # t"
    proof
      assume "\<exists>m. r = m @ CHR ''.'' # t"
      then obtain m where "d = (l @ CHR ''.'' # m) @ CHR ''.'' # t"
        using d(1) by auto
      then show ?thesis ..
    qed (use d(1) in blast)
  qed
  then show ?thesis
    by (simp add: parents_def Some p) blast
qed

lemma check_parents_total:
  assumes "filter_wf f"
  shows "check_parents sip f d = (Ok (\<exists>r \<in> parents d. bloom_contains sip f r = Ok True)
    :: (blocklist_error, bool) outcome)"
proof (induction "length d" arbitrary: d rule: less_induct)
  case less
  obtain b where b: "bloom_contains sip f d = Ok b"
    using bloom_contains_total [OF assms] by blast
  show ?case
  proof (cases b)
    case True
    with b show ?thesis
      by (simp add: check_parents.simps [of sip f d]) (auto simp: parents_def)
  next
    case False
    show ?thesis
    proof (cases "split_once CHR ''.'' d")
      case None
      with b False show ?thesis
        by (simp add: check_parents.simps [of sip f d] parents_split [of d])
    next
      case (Some p)
      obtain l r where p: "p = (l, r)" by (cases p)
      then have "length r < length d"
        using split_once_Some [of "CHR ''.''" d l r] Some by simp
      from less [OF this] b False Some p show ?thesis
        by (simp add: check_parents.simps [of sip f d] parents_split [of d])
    qed
  qed
qed


section \<open>Format lemmas\<close>

definition header_wf :: "BlocklistHeader \<Rightarrow> bool" where
  "header_wf h \<longleftrightarrow> magic h = NBLK_MAGIC \<and> format_version h = FORMAT_VERSION \<and> length (content_sha256 h) = 32"

lemma length_header_to_bytes: "header_wf h \<Longrightarrow> length (header_to_bytes h) = NBLK_HEADER_SIZE"
  by (simp add: header_wf_def header_to_bytes_def NBLK_MAGIC_def NBLK_HEADER_SIZE_def)

lemma header_from_to_bytes:
  assumes "header_wf h"
  shows "header_from_bytes (header_to_bytes h) = Ok h"
proof -
  have m: "length (magic h) = 4"
    using assms by (simp add: header_wf_def NBLK_MAGIC_def)
  have "header_to_bytes h ! 6 = category_flags h" "header_to_bytes h ! 7 = reserved h"
    by (simp_all add: header_to_bytes_def nth_append m)
  then show ?thesis
    using assms m length_header_to_bytes [OF assms]
    by (cases h) (simp add: header_from_bytes_def header_to_bytes_def header_wf_def)
qed

lemma deserialize_serialize:
  assumes "header_wf h" "unat (bit_array_len_bytes h) = length bs" "content_sha256 h = sha256 bs" "length sig = SIG_SIZE"
  shows "deserialize sha256 (serialize h bs sig) = Ok (h, bs, sig)"
  using assms length_header_to_bytes [OF assms(1)]
  by (simp add: deserialize_def serialize_def header_from_to_bytes Let_def)


lemma put_le_from_le:
  "length bs = 2 \<Longrightarrow> put_u16_le (u16_from_le bs) = bs" "length cs = 4 \<Longrightarrow> put_u32_le (u32_from_le cs) = cs"
  "length ds = 8 \<Longrightarrow> put_u64_le (u64_from_le ds) = ds"
  using nat_to_le_le_to_nat [of bs] nat_to_le_le_to_nat [of cs] nat_to_le_le_to_nat [of ds]
    le_to_nat_bound [of bs] le_to_nat_bound [of cs] le_to_nat_bound [of ds]
  by (auto simp: put_defs from_defs unat_of_nat)

lemma take_drop_join: "take n (drop m xs) @ drop (m + n) xs = drop m xs"
  by (metis add.commute append_take_drop_id drop_drop)

lemma header_to_from_bytes:
  assumes "header_from_bytes b = Ok h" "length b = NBLK_HEADER_SIZE"
  shows "header_to_bytes h = b"
proof -
  have h: "h = \<lparr>magic = take 4 b, format_version = u16_from_le (take 2 (drop 4 b)), category_flags = b ! 6,
       reserved = b ! 7, domain_count = u32_from_le (take 4 (drop 8 b)),
       fp_rate_millionths = u32_from_le (take 4 (drop 12 b)),
       num_hash_functions = u32_from_le (take 4 (drop 16 b)),
       bit_array_len_bytes = u32_from_le (take 4 (drop 20 b)),
       build_timestamp = u64_from_le (take 8 (drop 24 b)), content_sha256 = take 32 (drop 32 b)\<rparr>"
    using assms(1) by (auto simp: header_from_bytes_def split: if_splits)
  have len: "length b = 64"
    using assms(2) by (simp add: NBLK_HEADER_SIZE_def)
  have two: "[b ! 6, b ! 7] @ drop 8 b = drop 6 b"
    using len by (simp add: Cons_nth_drop_Suc [symmetric])
  have "drop 32 b = take 32 (drop 32 b)"
    using len by simp
  then show ?thesis
    using len two take_drop_join [of 8 24 b] take_drop_join [of 4 20 b] take_drop_join [of 4 16 b]
      take_drop_join [of 4 12 b] take_drop_join [of 4 8 b] take_drop_join [of 2 4 b] take_drop_join [of 4 0 b]
    by (simp add: h header_to_bytes_def put_le_from_le del: append_take_drop_id)
qed

lemma deserialize_inverse:
  assumes "deserialize sha256 data = Ok (h, bs, sig)"
  shows "data = serialize h bs sig" "length sig = SIG_SIZE" "sha256 bs = content_sha256 h"
    "unat (bit_array_len_bytes h) = length bs"
proof -
  let ?n = "unat (bit_array_len_bytes h)"
  have hdr: "header_from_bytes (take NBLK_HEADER_SIZE data) = Ok h"
    and len: "length data = NBLK_HEADER_SIZE + ?n + SIG_SIZE"
    and bs: "bs = take ?n (drop NBLK_HEADER_SIZE data)" and sig: "sig = drop (NBLK_HEADER_SIZE + ?n) data"
    and sha: "sha256 bs = content_sha256 h"
    using assms by (auto simp: deserialize_def Let_def split: if_splits)
  have "header_to_bytes h = take NBLK_HEADER_SIZE data"
    using header_to_from_bytes [OF hdr] len by simp
  then show "data = serialize h bs sig"
    using take_drop_join [of ?n NBLK_HEADER_SIZE data] by (simp add: serialize_def bs sig)
  show "length sig = SIG_SIZE" "sha256 bs = content_sha256 h" "?n = length bs"
    using len sha by (simp_all add: sig bs)
qed


section \<open>Properties\<close>

text \<open>The sizing leaves a filter whose bit array is not empty and fits the 32-bit length field.\<close>

definition sizes_ok :: "nat \<times> u32 \<Rightarrow> bool" where
  "sizes_ok = (\<lambda>(m, k). 0 < m \<and> m + 7 < 2 ^ 32)"

lemma with_capacity_wf:
  assumes "sizes_ok mk"
  shows "filter_wf (with_capacity mk)" "length (bits (with_capacity mk)) < 2 ^ 32"
proof -
  obtain m k where mk: "mk = (m, k)" by (cases mk)
  with assms have b: "0 < (m + 7) div 8" "(m + 7) div 8 < 2 ^ 32" "(m + 7) div 8 * 8 < 2 ^ 64"
    by (auto simp: sizes_ok_def)
  then have "unat (of_nat ((m + 7) div 8) * 8 :: u64) = 8 * ((m + 7) div 8)"
    by (simp add: unat_word_ariths unat_of_nat)
  with b show "filter_wf (with_capacity mk)" "length (bits (with_capacity mk)) < 2 ^ 32"
    by (simp_all add: filter_wf_def with_capacity_def mk Let_def)
qed

lemma unat_ucast_u32: "unat (ucast (w :: u32) :: u64) = unat w"
  using unat_bound [of w] by (simp add: unsigned_ucast_eq take_bit_nat_eq_self_iff)

lemma build_load:
  assumes "collect_domains env cfg = Ok domains" "build_blocklist sip env cfg = Ok data"
    and "sizes_ok (sizes env (max (of_nat (length domains)) 1))" "\<And>b. length (hash_256 env b) = 32"
    and "\<And>k b sig. sign_with env k b = Some sig \<Longrightarrow> length sig = SIG_SIZE"
  shows "\<exists>bl. load_blocklist (hash_256 env) verifies data False = Ok bl \<and> filter_wf (filter_of bl)
    \<and> (\<forall>d \<in> set domains. bloom_contains sip (filter_of bl) d = Ok True)"
proof -
  let ?f0 = "with_capacity (sizes env (max (of_nat (length domains)) 1))"
  note f0 = with_capacity_wf [OF assms(3)]
  obtain f where f: "insert_all sip domains ?f0 = Ok f" "grows ?f0 f"
      "\<forall>d \<in> set domains. bloom_contains sip f d = Ok True"
    using insert_all_ok [OF f0(1)] by blast
  have wf: "filter_wf f" and len: "length (bits f) < 2 ^ 32"
    using grows_wf [OF f(2) f0(1)] f(2) f0(2) by (simp_all add: grows_def)
  define h where "h = build_header env cfg (of_nat (length domains)) f"
  obtain sig where sig: "sign_blocklist env cfg (signable_bytes h (bits f)) = Ok sig"
      and data: "data = serialize h (bits f) sig"
    using assms(1,2) f(1) by (auto simp: build_blocklist_def h_def Let_def)
  have "length sig = SIG_SIZE"
    using sig assms(5) by (auto simp: sign_blocklist_def split: option.splits if_splits)
  moreover have n: "unat (bit_array_len_bytes h) = length (bits f)"
    using len by (simp add: h_def build_header_def unat_of_nat)
  ultimately have "deserialize (hash_256 env) data = Ok (h, bits f, sig)"
    unfolding data using assms(4)
    by (intro deserialize_serialize) (simp_all add: h_def build_header_def header_wf_def)
  moreover have "header_num_bits h = num_bits f"
  proof -
    have "unat (header_num_bits h) = 8 * length (bits f)"
      using n len by (simp add: header_num_bits_def unat_word_ariths unat_ucast_u32)
    then show ?thesis
      using wf by (simp add: filter_wf_def word_unat_eq_iff)
  qed
  moreover have "num_hash_functions h = num_hashes f"
    by (simp add: h_def build_header_def)
  ultimately have "load_blocklist (hash_256 env) verifies data False
      = Ok \<lparr>header = h, filter_of = f, signature_verified = False\<rparr>"
    by (cases f) (simp add: load_blocklist_def from_raw_def)
  then show ?thesis
    using wf f(3) by simp
qed

text \<open>C16: no blocklisted domain is let through: for a list built from its sources and overrides, written, read
  back and installed in the gate, a check of a listed domain or of any subdomain of it, in any letter case
  and with trailing dots, is refused unless the user's allow list or the system list admits it.\<close>

theorem built_list_blocks:
  assumes "collect_domains env cfg = Ok domains" "build_blocklist sip env cfg = Ok data"
    and "sizes_ok (sizes env (max (of_nat (length domains)) 1))" "\<And>b. length (hash_256 env b) = 32"
    and "\<And>k b sig. sign_with env k b = Some sig \<Longrightarrow> length sig = SIG_SIZE"
    and "d \<in> set domains" "d \<in> parents (normalize_domain q)"
    and "q \<notin> set SYSTEM_ALLOWLIST_DOMAINS" "\<not> matches_domain_set (allow_always g) q"
  shows "\<exists>info g'. reload_blocklist sip (hash_256 env) verifies (Some data) g = (Ok info, g')
    \<and> snd (check_begin q port vm src g') = Inl False"
proof -
  obtain bl where bl: "load_blocklist (hash_256 env) verifies data False = Ok bl" "filter_wf (filter_of bl)"
      "bloom_contains sip (filter_of bl) d = Ok True"
    using build_load [OF assms(1-4), of verifies] assms(5,6) by blast
  have "list_contains sip bl q = Ok True"
    using check_parents_total [OF bl(2), of sip "normalize_domain q"] bl(3) assms(7)
    by (auto simp: list_contains_def check_with_parents_def)
  then show ?thesis
    using bl(1) assms(8,9) by (auto simp: reload_blocklist_def check_begin_def set_blocklist_def)
qed

definition sample_builder :: builder_env where
  "sample_builder = \<lparr>read_file = (\<lambda>p. if p = ''d/oisd.txt'' then Some (''*.Evil.com'' @ [CHR 0x0A]) else None), cli = False,
     download = (\<lambda>_. None), sign_with = (\<lambda>_ _. None), sizes = (\<lambda>_. (8, 1)), fp_millionths = 10000, build_time = 7,
     hash_256 = (\<lambda>_. replicate 32 5)\<rparr>"

definition sample_config :: BuilderConfig where
  "sample_config = \<lparr>sources = [''oisd''], user_deny_path = None, user_allow_path = None, sign_key_path = None,
     cfg_category_flags = 255, offline_dir = Some ''d''\<rparr>"

lemma sample_collect: "collect_domains sample_builder sample_config = Ok [''evil.com'']"
  by (simp add: collect_domains_def sample_builder_def sample_config_def source_file_def ends_with_def
      parse_source_def parse_oisd_def lines_of_def strip_cr_def ends_with_def parse_oisd_line_def trim_def trim_start_def trim_end_def is_space_def
      strip_prefix_def listed_def normalize_domain_def to_lowercase_def lower_char_def trim_end_matches_def char_of_def bit_Suc_0_iff
      extend_set_def override_lines_def map_filter_simps)

theorem built_list_blocks_witness:
  "\<exists>data info g'. build_blocklist (\<lambda>_ _. 0) sample_builder sample_config = Ok data
    \<and> reload_blocklist (\<lambda>_ _. 0) (hash_256 sample_builder) (\<lambda>_ _. False) (Some data) (gate_new store_empty) = (Ok info, g')
    \<and> snd (check_begin ''A.evil.COM.'' 443 ''vm'' ''src'' g') = Inl False"
proof -
  obtain data where data: "build_blocklist (\<lambda>_ _. 0) sample_builder sample_config = Ok data"
    by (simp add: build_blocklist_def sample_collect)
      (simp add: sample_builder_def sample_config_def with_capacity_def bloom_insert_def compute_positions_def
        set_bit_at_def sign_blocklist_def)
  have "normalize_domain ''A.evil.COM.'' = ''a.'' @ ''evil.com''"
    by (simp add: normalize_domain_def to_lowercase_def lower_char_def trim_end_matches_def char_of_def bit_Suc_0_iff)
  then have "''evil.com'' \<in> parents (normalize_domain ''A.evil.COM.'')"
    by (auto simp: parents_def)
  then have "\<exists>info g'. reload_blocklist (\<lambda>_ _. 0) (hash_256 sample_builder) (\<lambda>_ _. False) (Some data) (gate_new store_empty)
      = (Ok info, g') \<and> snd (check_begin ''A.evil.COM.'' 443 ''vm'' ''src'' g') = Inl False"
    by (intro built_list_blocks [OF sample_collect data, where d = "''evil.com''"])
      (simp_all add: sample_builder_def sizes_ok_def SYSTEM_ALLOWLIST_DOMAINS_def gate_new_def list_allowlist_domains_def
        store_empty_def matches_domain_set_def)
  with data show ?thesis
    by blast
qed

text \<open>C17: the check of a domain and its parents always ends and is exact: on every filter with bits it answers
  yes exactly when the filter holds the normalised domain or what is left of it after one of its dots.\<close>

theorem check_with_parents_exact:
  assumes "filter_wf f"
  shows "check_with_parents sip f q = Ok (\<exists>r \<in> parents (normalize_domain q). bloom_contains sip f r = Ok True)"
  using check_parents_total [OF assms] by (simp add: check_with_parents_def)

theorem check_with_parents_exact_witness:
  "check_with_parents (\<lambda>d s. of_nat (length d)) (with_capacity (8, 2)) ''a.b''
    = Ok (\<exists>r \<in> parents (normalize_domain ''a.b'').
        bloom_contains (\<lambda>d s. of_nat (length d)) (with_capacity (8, 2)) r = Ok True)"
  by (rule check_with_parents_exact) (simp add: filter_wf_def with_capacity_def)

text \<open>a list loaded with signature verification is exactly what was signed: the file is the header and the bit
  array that the signature covers, followed by a signature that is not all zeros and verifies over them.\<close>

theorem verified_list_is_signed:
  assumes "load_blocklist sha256 verifies data True = Ok bl"
  shows "\<exists>sig. data = signable_bytes (header bl) (bits (filter_of bl)) @ sig \<and> length sig = SIG_SIZE
    \<and> \<not> list_all (\<lambda>b. b = 0) sig \<and> verifies (signable_bytes (header bl) (bits (filter_of bl))) sig"
proof -
  obtain h bs sig where d: "deserialize sha256 data = Ok (h, bs, sig)"
      and v: "verify_signature verifies (signable_bytes h bs) sig = Ok ()"
      and bl: "bl = \<lparr>header = h, filter_of = from_raw bs (header_num_bits h) (num_hash_functions h),
        signature_verified = True\<rparr>"
    using assms by (auto simp: load_blocklist_def)
  show ?thesis
    using deserialize_inverse(1,2) [OF d] v
    by (auto simp: bl from_raw_def serialize_def signable_bytes_def verify_signature_def split: if_splits)
qed

text \<open>a list file with an empty bit array is accepted, and then every check of a domain panics: the remainder
  by the number of bits divides by zero.\<close>

theorem empty_list_panics:
  assumes "header_wf h" "bit_array_len_bytes h = 0" "content_sha256 h = sha256 []" "length sig = SIG_SIZE"
    and "num_hash_functions h \<noteq> 0"
  shows "\<exists>bl. load_blocklist sha256 verifies (serialize h [] sig) False = Ok bl \<and> list_contains sip bl q = Panic"
proof -
  have "deserialize sha256 (serialize h [] sig) = Ok (h, [], sig)"
    using assms by (intro deserialize_serialize) simp_all
  then show ?thesis
    using assms(2,5)
    by (simp add: load_blocklist_def list_contains_def check_with_parents_def check_parents.simps
        bloom_contains_def compute_positions_def from_raw_def header_num_bits_def Let_def)
qed


definition sample_header :: BlocklistHeader where
  "sample_header = \<lparr>magic = NBLK_MAGIC, format_version = FORMAT_VERSION, category_flags = 0, reserved = 0,
     domain_count = 0, fp_rate_millionths = 0, num_hash_functions = 1, bit_array_len_bytes = 0, build_timestamp = 0,
     content_sha256 = replicate 32 5\<rparr>"

lemma sample_header_wf: "header_wf sample_header"
  by (simp add: header_wf_def sample_header_def)

theorem verified_list_is_signed_witness:
  "\<exists>sig. serialize sample_header [] (replicate 64 1) = signable_bytes sample_header [] @ sig \<and> length sig = SIG_SIZE
    \<and> \<not> list_all (\<lambda>b. b = 0) sig \<and> sig ! 0 = 1"
proof -
  have "deserialize (\<lambda>_. replicate 32 5) (serialize sample_header [] (replicate 64 1)) = Ok (sample_header, [], replicate 64 1)"
    by (rule deserialize_serialize [OF sample_header_wf]) (simp_all add: sample_header_def SIG_SIZE_def)
  then have "load_blocklist (\<lambda>_. replicate 32 5) (\<lambda>_ s. s ! 0 = 1) (serialize sample_header [] (replicate 64 1)) True
      = Ok \<lparr>header = sample_header, filter_of = from_raw [] (header_num_bits sample_header) 1, signature_verified = True\<rparr>"
    by (simp add: load_blocklist_def verify_signature_def list_all_iff) (simp add: sample_header_def)
  from verified_list_is_signed [OF this] show ?thesis
    by (simp add: from_raw_def)
qed

theorem empty_list_panics_witness:
  "\<exists>bl. load_blocklist (\<lambda>_. replicate 32 5) (\<lambda>_ _. False) (serialize sample_header [] (replicate 64 0)) False = Ok bl
    \<and> list_contains (\<lambda>_ _. 0) bl ''a.b'' = Panic"
  by (rule empty_list_panics [OF sample_header_wf]) (simp_all add: sample_header_def SIG_SIZE_def)

end
