(* ===== verification/Cdp_Rewriter.thy ===== *)
theory Cdp_Rewriter
  imports Json
begin

text \<open>
  \<open>crates/nilbox-core/src/gateway/cdp_rewriter.rs\<close> and \<open>gateway/forwarder.rs\<close>: connections from a VM to
  Chrome's debugging port on the host.  The results that future reads of the two sides give
  are queues of the connection record, in order (\<open>Data []\<close> on the TCP side is the end of the
  stream); an exhausted queue is a peer that sends nothing more and keeps the connection open,
  so the code waits.  The results of writes are queues of booleans (exhausted: success), and
  the choices of \<open>tokio::select!\<close> are a list of booleans (\<open>True\<close>: the TCP side).  Parsing and
  printing JSON are \<open>serde_json\<close>'s and parameters.
\<close>

datatype rd = Data bytes | Fail

datatype cdp_end = Closed | Failed | Waiting

record conn =
  tcp_in :: "rd list"
  vs_in :: "rd list"
  tcp_wr :: "bool list"
  vs_wr :: "bool list"
  to_tcp :: "bytes list"
  to_vs :: "bytes list"
  tcp_shut :: bool
  vs_closed :: bool

record json_lib =
  json_parse :: "bytes \<Rightarrow> json option"
  json_print :: "json \<Rightarrow> bytes option"

definition tcp_write :: "bytes \<Rightarrow> conn \<Rightarrow> bool \<times> conn" where
  "tcp_write bs c =
    (case tcp_wr c of
       False # r \<Rightarrow> (False, c\<lparr>tcp_wr := r\<rparr>)
     | r \<Rightarrow> (True, c\<lparr>tcp_wr := tl r, to_tcp := to_tcp c @ [bs]\<rparr>))"

definition vm_write :: "bytes \<Rightarrow> conn \<Rightarrow> bool \<times> conn" where
  "vm_write bs c =
    (case vs_wr c of
       False # r \<Rightarrow> (False, c\<lparr>vs_wr := r\<rparr>)
     | r \<Rightarrow> (True, c\<lparr>vs_wr := tl r, to_vs := to_vs c @ [bs]\<rparr>))"


section \<open>Raw tunnels\<close>

fun tunnel_loop :: "bool list \<Rightarrow> conn \<Rightarrow> conn \<times> cdp_end" where
  "tunnel_loop [] c = (c, Waiting)"
| "tunnel_loop (True # sched) c =
    (case tcp_in c of
       [] \<Rightarrow> tunnel_loop sched c
     | Data bs # r \<Rightarrow>
         if bs = [] then (c\<lparr>tcp_in := r, vs_closed := True\<rparr>, Closed)
         else (let (ok, c') = vm_write bs (c\<lparr>tcp_in := r\<rparr>)
               in if ok then tunnel_loop sched c' else (c', Closed))
     | Fail # r \<Rightarrow> (c\<lparr>tcp_in := r, vs_closed := True\<rparr>, Closed))"
| "tunnel_loop (False # sched) c =
    (case vs_in c of
       [] \<Rightarrow> tunnel_loop sched c
     | Data bs # r \<Rightarrow>
         (let (ok, c') = tcp_write bs (c\<lparr>vs_in := r\<rparr>)
          in if ok then tunnel_loop sched c' else (c', Closed))
     | Fail # r \<Rightarrow> (c\<lparr>vs_in := r, tcp_shut := True\<rparr>, Closed))"

definition forward_connection :: "bool list \<Rightarrow> conn \<Rightarrow> conn \<times> cdp_end" where
  "forward_connection sched c = tunnel_loop sched c"

definition raw_tunnel :: "bool list \<Rightarrow> bytes \<Rightarrow> bytes \<Rightarrow> conn \<Rightarrow> conn \<times> cdp_end" where
  "raw_tunnel sched leftover_tcp leftover_vsock c =
    (let (ok1, c1) = (if leftover_tcp \<noteq> [] then vm_write leftover_tcp c else (True, c))
     in if \<not> ok1 then (c1, Failed)
        else let (ok2, c2) = (if leftover_vsock \<noteq> [] then tcp_write leftover_vsock c1 else (True, c1))
             in if \<not> ok2 then (c2, Failed) else tunnel_loop sched c2)"


section \<open>Requests\<close>

definition rewrite_request_host :: "bytes \<Rightarrow> bytes" where
  "rewrite_request_host request =
    (if \<not> valid_utf8 request then request
     else str_bytes (foldl (\<lambda>s (p, q). replace_all s p q) (bytes_str request)
       [(''Host: headless.cdp.nilbox'', ''Host: 127.0.0.1''),
        (''host: headless.cdp.nilbox'', ''host: 127.0.0.1''),
        (''Host: headed.cdp.nilbox'', ''Host: 127.0.0.1''),
        (''host: headed.cdp.nilbox'', ''host: 127.0.0.1''),
        (''Host: cdp.nilbox'', ''Host: 127.0.0.1''),
        (''host: cdp.nilbox'', ''host: 127.0.0.1'')]))"

text \<open>The second word of the first line: the path of a request, the status of a response.\<close>

definition second_word :: "bytes \<Rightarrow> string option" where
  "second_word bs =
    (if \<not> valid_utf8 bs then None
     else case lines_of (bytes_str bs) of
            [] \<Rightarrow> None
          | l # _ \<Rightarrow> (case split_ws l of _ # w # _ \<Rightarrow> Some w | _ \<Rightarrow> None))"

definition is_cdp_discovery_path :: "bytes \<Rightarrow> bool" where
  "is_cdp_discovery_path request =
    (case second_word request of
       None \<Rightarrow> False
     | Some path \<Rightarrow> path = ''/json'' \<or> path = ''/json/'' \<or> starts_with path ''/json/version''
         \<or> starts_with path ''/json/list'' \<or> starts_with path ''/json/new'' \<or> starts_with path ''/json/protocol'')"

definition looks_http :: "bytes \<Rightarrow> bool" where
  "looks_http request \<longleftrightarrow>
    list_ex (\<lambda>m. starts_with request (str_bytes m)) [''GET '', ''POST '', ''PUT '', ''HEAD '']"


section \<open>Responses\<close>

definition parse_status_code :: "bytes \<Rightarrow> nat option" where
  "parse_status_code headers = Option.bind (second_word headers) (parse_nat (2 ^ 16))"

function rewrite_json_value :: "string \<Rightarrow> json \<Rightarrow> json" where
  "rewrite_json_value h (JObj m) =
    JObj (map (\<lambda>(k, v). (k,
      if k = ''webSocketDebuggerUrl'' \<or> k = ''devtoolsFrontendUrl''
      then (case v of JStr s \<Rightarrow> JStr (replace_all (replace_all s ''127.0.0.1'' h) ''localhost'' h)
                    | _ \<Rightarrow> rewrite_json_value h v)
      else rewrite_json_value h v)) m)"
| "rewrite_json_value h (JArr vs) = JArr (map (rewrite_json_value h) vs)"
| "rewrite_json_value h JNull = JNull"
| "rewrite_json_value h (JBool b) = JBool b"
| "rewrite_json_value h (JNum n) = JNum n"
| "rewrite_json_value h (JFloat s) = JFloat s"
| "rewrite_json_value h (JStr s) = JStr s"
  by pat_completeness auto

termination rewrite_json_value
  by (relation "measure (\<lambda>(_, v). size v)") (auto dest: size_json_entry size_json_item)

definition rewrite_cdp_json :: "json_lib \<Rightarrow> bytes \<Rightarrow> string \<Rightarrow> bytes option" where
  "rewrite_cdp_json J body h =
    Option.bind (json_parse J body) (\<lambda>v. json_print J (rewrite_json_value h v))"

definition CRLF :: string where "CRLF = [CHR 0x0D, CHR 0x0A]"

definition length_line :: "nat \<Rightarrow> string" where
  "length_line n = ''Content-Length: '' @ nat_digits n"

definition is_length_line :: "string \<Rightarrow> bool" where
  "is_length_line l \<longleftrightarrow> starts_with (to_lowercase l) ''content-length:''"

fun copy_lines :: "nat \<Rightarrow> string \<times> bool \<Rightarrow> string list \<Rightarrow> string \<times> bool" where
  "copy_lines n acc [] = acc"
| "copy_lines n (result, found) (l # ls) =
    (let result' = (if result = [] then result else result @ CRLF)
     in if is_length_line l then copy_lines n (result' @ length_line n, True) ls
        else copy_lines n (result' @ l, found) ls)"

definition update_content_length :: "bytes \<Rightarrow> nat \<Rightarrow> bytes" where
  "update_content_length headers n =
    (if \<not> valid_utf8 headers then headers
     else let (result, found) = copy_lines n ([], False) (split_seq CRLF (bytes_str headers))
          in str_bytes
            (if found then result
             else case rfind_str result (CRLF @ CRLF) of
                    Some pos \<Rightarrow> take pos result @ CRLF @ length_line n @ drop pos result
                  | None \<Rightarrow> result))"

definition find_header_end :: "bytes \<Rightarrow> nat option" where
  "find_header_end buf = find_str buf (str_bytes (CRLF @ CRLF))"

definition length_field :: "string \<Rightarrow> string option" where
  "length_field l =
    (case strip_prefix l ''Content-Length:'' of Some r \<Rightarrow> Some r | None \<Rightarrow> strip_prefix l ''content-length:'')"

fun first_length :: "string list \<Rightarrow> nat option" where
  "first_length [] = None"
| "first_length (l # ls) =
    (case length_field l of Some r \<Rightarrow> parse_nat (2 ^ 64) (trim r) | None \<Rightarrow> first_length ls)"

definition parse_content_length :: "bytes \<Rightarrow> nat option" where
  "parse_content_length headers =
    (if valid_utf8 headers then first_length (split_seq CRLF (bytes_str headers)) else None)"

text \<open>A read that has returned, failed, or still waits for the peer.\<close>

datatype 'a got = Got 'a | ReadErr | Pending

fun read_headers :: "bytes \<Rightarrow> rd list \<Rightarrow> (nat \<times> bytes) got \<times> rd list" where
  "read_headers buf rs =
    (case find_header_end buf of
       Some pos \<Rightarrow> (Got (pos, buf), rs)
     | None \<Rightarrow>
         (case rs of
            [] \<Rightarrow> (Pending, [])
          | Fail # r \<Rightarrow> (ReadErr, r)
          | Data bs # r \<Rightarrow> if bs = [] then (ReadErr, r) else read_headers (buf @ bs) r))"

fun read_sized_body :: "nat \<Rightarrow> bytes \<Rightarrow> rd list \<Rightarrow> bytes got \<times> rd list" where
  "read_sized_body cl body rs =
    (if cl \<le> length body then (Got body, rs)
     else case rs of
            [] \<Rightarrow> (Pending, [])
          | Fail # r \<Rightarrow> (ReadErr, r)
          | Data bs # r \<Rightarrow> if bs = [] then (Got body, r) else read_sized_body cl (body @ bs) r)"

declare read_headers.simps [simp del] read_sized_body.simps [simp del]

definition read_http_response :: "bytes \<Rightarrow> rd list \<Rightarrow> (bytes \<times> bytes \<times> bytes) got \<times> rd list" where
  "read_http_response leftover rs =
    (case read_headers leftover rs of
       (Got (header_end, buf), rs1) \<Rightarrow>
         (let headers = take (header_end + 4) buf; after = drop (header_end + 4) buf
          in case parse_content_length headers of
               Some cl \<Rightarrow>
                 (case read_sized_body cl after rs1 of
                    (Got body, rs2) \<Rightarrow> (Got (headers, take cl body, drop cl body), rs2)
                  | (ReadErr, rs2) \<Rightarrow> (ReadErr, rs2)
                  | (Pending, rs2) \<Rightarrow> (Pending, rs2))
             | None \<Rightarrow> (Got (headers, after, []), rs1))
     | (ReadErr, rs1) \<Rightarrow> (ReadErr, rs1)
     | (Pending, rs1) \<Rightarrow> (Pending, rs1))"


section \<open>The loop\<close>

definition MAX_BODY_SIZE :: nat where "MAX_BODY_SIZE = 1048576"

definition read_vsock_data :: "bytes \<Rightarrow> conn \<Rightarrow> bytes got \<times> conn" where
  "read_vsock_data leftover c =
    (if leftover \<noteq> [] then (Got leftover, c)
     else case vs_in c of
            [] \<Rightarrow> (Pending, c)
          | Fail # r \<Rightarrow> (ReadErr, c\<lparr>vs_in := r\<rparr>)
          | Data bs # r \<Rightarrow> (Got bs, c\<lparr>vs_in := r\<rparr>))"

fun vm_write_all :: "bytes list \<Rightarrow> conn \<Rightarrow> bool \<times> conn" where
  "vm_write_all [] c = (True, c)"
| "vm_write_all (b # bs) c =
    (case vm_write b c of (True, c') \<Rightarrow> vm_write_all bs c' | (False, c') \<Rightarrow> (False, c'))"

definition unchanged_reply :: "bytes \<Rightarrow> bytes \<Rightarrow> bytes list" where
  "unchanged_reply headers body = headers # (if body \<noteq> [] then [body] else [])"

definition cdp_reply :: "json_lib \<Rightarrow> string \<Rightarrow> bytes \<Rightarrow> bytes \<Rightarrow> bytes list" where
  "cdp_reply J h headers body =
    (case (if parse_status_code headers = Some 200 \<and> length body \<le> MAX_BODY_SIZE
           then rewrite_cdp_json J body h else None) of
       Some rewritten \<Rightarrow> [update_content_length headers (length rewritten), rewritten]
     | None \<Rightarrow> unchanged_reply headers body)"

lemma write_keeps_vs_in [simp]:
  "tcp_write bs c = (ok, c') \<Longrightarrow> vs_in c' = vs_in c" "vm_write bs c = (ok, c') \<Longrightarrow> vs_in c' = vs_in c"
  by (auto simp: tcp_write_def vm_write_def split: list.splits bool.splits)

lemma vm_write_all_keeps_vs_in [simp]: "vm_write_all bs c = (ok, c') \<Longrightarrow> vs_in c' = vs_in c"
  by (induction bs c rule: vm_write_all.induct) (auto split: prod.splits bool.splits)

lemma read_vsock_data_less:
  "read_vsock_data l c = (Got d, c') \<Longrightarrow>
    length (vs_in c') < length (vs_in c) + (if l = [] then 0 else 1)"
  by (auto simp: read_vsock_data_def split: if_splits list.splits rd.splits)

lemma cdp_iteration_less:
  assumes "(Got d, c1) = read_vsock_data l c" "(ok, c2) = tcp_write w c1"
    "(ok', c3) = vm_write_all bs (c2\<lparr>tcp_in := rs\<rparr>)"
  shows "length (vs_in c3) < length (vs_in c) + (if l = [] then 0 else 1)"
  using read_vsock_data_less [OF assms(1) [symmetric]] write_keeps_vs_in(1) [OF assms(2) [symmetric]]
    vm_write_all_keeps_vs_in [OF assms(3) [symmetric]] by simp

function cdp_loop ::
  "json_lib \<Rightarrow> string \<Rightarrow> bool list \<Rightarrow> bytes \<Rightarrow> bytes \<Rightarrow> conn \<Rightarrow> conn \<times> cdp_end" where
  "cdp_loop J h sched leftover_tcp leftover_vsock c =
    (case read_vsock_data leftover_vsock c of
       (Pending, c1) \<Rightarrow> (c1, Waiting)
     | (ReadErr, c1) \<Rightarrow> (c1, Closed)
     | (Got request, c1) \<Rightarrow>
         if request = [] then (c1, Closed)
         else if \<not> looks_http request then
           (case tcp_write request c1 of
              (False, c2) \<Rightarrow> (c2, Failed)
            | (True, c2) \<Rightarrow> raw_tunnel sched leftover_tcp [] c2)
         else
           (case tcp_write (rewrite_request_host request) c1 of
              (False, c2) \<Rightarrow> (c2, Failed)
            | (True, c2) \<Rightarrow>
                if \<not> is_cdp_discovery_path request then raw_tunnel sched leftover_tcp [] c2
                else
                  (case read_http_response leftover_tcp (tcp_in c2) of
                     (Pending, rs) \<Rightarrow> (c2\<lparr>tcp_in := rs\<rparr>, Waiting)
                   | (ReadErr, rs) \<Rightarrow> raw_tunnel sched [] [] (c2\<lparr>tcp_in := rs\<rparr>)
                   | (Got (headers, body, extra), rs) \<Rightarrow>
                       if parse_status_code headers = Some 101 then
                         (case vm_write_all (unchanged_reply headers body) (c2\<lparr>tcp_in := rs\<rparr>) of
                            (False, c3) \<Rightarrow> (c3, Failed)
                          | (True, c3) \<Rightarrow> raw_tunnel sched extra [] c3)
                       else
                         (case vm_write_all (cdp_reply J h headers body) (c2\<lparr>tcp_in := rs\<rparr>) of
                            (False, c3) \<Rightarrow> (c3, Failed)
                          | (True, c3) \<Rightarrow> cdp_loop J h sched extra [] c3))))"
  by pat_completeness auto

termination cdp_loop
  by (relation "measure (\<lambda>(J, h, sched, lt, lv, c). length (vs_in c) + (if lv = [] then 0 else 1))")
    (auto dest: cdp_iteration_less)

declare cdp_loop.simps [simp del]

definition forward_cdp_connection :: "json_lib \<Rightarrow> string \<Rightarrow> bool list \<Rightarrow> conn \<Rightarrow> conn \<times> cdp_end" where
  "forward_cdp_connection J h sched c = cdp_loop J h sched [] [] c"


section \<open>Lines\<close>

lemma CRLF_not_Nil [simp]: "CRLF \<noteq> []" and length_CRLF [simp]: "length CRLF = 2"
  by (simp_all add: CRLF_def)

lemma split_seq_line:
  "\<not> contains_str l CRLF \<Longrightarrow> split_seq CRLF (l @ CRLF @ t) = l # split_seq CRLF t"
proof (induction l)
  case (Cons c l)
  then have "\<not> starts_with (c # l @ CRLF @ t) CRLF"
    by (cases l) (auto simp: CRLF_def)
  then show ?case
    using Cons by simp
qed (simp add: CRLF_def)

lemma split_seq_last: "\<not> contains_str l CRLF \<Longrightarrow> split_seq CRLF l = [l]"
  by (induction l) auto

lemma split_seq_join:
  "ls \<noteq> [] \<Longrightarrow> list_all (\<lambda>l. \<not> contains_str l CRLF) ls \<Longrightarrow> split_seq CRLF (join CRLF ls) = ls"
  by (induction CRLF ls rule: join.induct) (auto simp: split_seq_line split_seq_last)

lemma split_seq_lines: "list_all (\<lambda>l. \<not> contains_str l CRLF) (split_seq CRLF s)"
proof (induction CRLF s rule: split_seq.induct)
  case (2 c s)
  show ?case
  proof (cases "starts_with (c # s) CRLF")
    case True
    with 2 show ?thesis by (simp add: CRLF_def)
  next
    case False
    obtain w ws where ws: "split_seq CRLF s = w # ws"
      by (meson list.exhaust split_seq_not_Nil)
    then have "starts_with s w"
      by (rule split_seq_prefix [OF CRLF_not_Nil])
    then have "\<not> starts_with (c # w) CRLF"
      using False starts_with_mono [of "c # w" CRLF] by (auto simp: starts_with_iff)
    with False ws 2(2) show ?thesis
      by simp
  qed
qed (simp add: CRLF_def)

lemma str_bytes_append [simp]: "str_bytes (s @ t) = str_bytes s @ str_bytes t"
  by (simp add: str_bytes_def)

lemma str_bytes_bytes_str [simp]: "str_bytes (bytes_str bs) = bs"
proof -
  have "(of_nat (of_char (char_of (unat b) :: char)) :: byte) = b" for b :: byte
    using unsigned_less [of b, where ?'a = nat] by simp
  then show ?thesis
    by (induction bs) (simp_all add: str_bytes_def bytes_str_def)
qed

lemma valid_utf8_lines:
  "ls \<noteq> [] \<Longrightarrow> valid_utf8 (str_bytes (join CRLF ls)) \<longleftrightarrow> list_all (\<lambda>l. valid_utf8 (str_bytes l)) ls"
proof (induction CRLF ls rule: join.induct)
  case (3 s v va)
  have "valid_utf8 (str_bytes s @ 0x0D # [] @ 0x0A # r) \<longleftrightarrow> valid_utf8 (str_bytes s) \<and> valid_utf8 r" for r
    using valid_utf8_cut [of "0x0D" "str_bytes s" "[] @ 0x0A # r"] valid_utf8_cut [of "0x0A" "[]" r] by simp
  moreover have "str_bytes CRLF = [0x0D, 0x0A]"
    by (simp add: CRLF_def str_bytes_def)
  ultimately show ?case
    using 3 by simp
qed simp_all


section \<open>The declared length\<close>

lemma valid_length_line: "valid_utf8 (str_bytes (length_line n))"
proof -
  have "is_ascii (nat_digits n)"
    using nat_digits_digits [of n] by (auto simp: is_ascii_def is_digit_def list_all_iff Let_def)
  then have "is_ascii (length_line n)"
    by (simp add: length_line_def is_ascii_def)
  then show ?thesis
    using ascii_rust_string rust_string_def by blast
qed

lemma length_line_one: "\<not> contains_str (length_line n) CRLF"
proof -
  have "CHR 0x0A \<notin> set (nat_digits n)"
    using nat_digits_digits [of n] by (auto simp: is_digit_def list_all_iff)
  then have "CHR 0x0A \<notin> set (length_line n)"
    by (simp add: length_line_def)
  then show ?thesis
    by (auto simp: contains_str_iff CRLF_def)
qed

lemma trim_digits: "list_all is_digit ds \<Longrightarrow> ds \<noteq> [] \<Longrightarrow> trim (CHR '' '' # ds) = ds"
proof -
  assume ds: "list_all is_digit ds" "ds \<noteq> []"
  have n: "\<not> is_space c" if "is_digit c" for c
    using that by (auto simp: is_digit_def is_space_def Let_def)
  have "dropWhile is_space xs = xs" if "list_all is_digit xs" for xs
    using that n by (cases xs) auto
  then show ?thesis
    using ds by (simp add: trim_def trim_start_def trim_end_def is_space_def)
qed

lemma length_field_length_line:
  "n < 2 ^ 64 \<Longrightarrow> \<exists>r. length_field (length_line n) = Some r \<and> parse_nat (2 ^ 64) (trim r) = Some n"
  by (simp add: length_field_def length_line_def strip_prefix_def trim_digits nat_digits_digits)

lemma length_field_is_length_line: "length_field l = Some r \<Longrightarrow> is_length_line l"
proof -
  assume "length_field l = Some r"
  then consider "l = ''Content-Length:'' @ r" | "l = ''content-length:'' @ r"
    by (auto simp: length_field_def strip_prefix_eq_Some split: option.splits)
  then show ?thesis
  proof cases
    case 1
    have "to_lowercase ''Content-Length:'' = ''content-length:''" by code_simp
    with 1 show ?thesis by (simp only: is_length_line_def to_lowercase_append starts_with_append)
  next
    case 2
    have "to_lowercase ''content-length:'' = ''content-length:''" by code_simp
    with 2 show ?thesis by (simp only: is_length_line_def to_lowercase_append starts_with_append)
  qed
qed

definition relength :: "nat \<Rightarrow> string \<Rightarrow> string" where
  "relength n l = (if is_length_line l then length_line n else l)"

lemma first_length_relength:
  assumes "n < 2 ^ 64"
  shows "list_ex is_length_line ls \<Longrightarrow> first_length (map (relength n) ls) = Some n"
proof (induction ls)
  case (Cons l ls)
  then show ?case
    using length_field_length_line [OF assms] length_field_is_length_line [of l]
    by (auto simp: relength_def split: option.splits)
qed simp

lemma first_length_insert:
  assumes "n < 2 ^ 64"
  shows "\<not> list_ex is_length_line ls \<Longrightarrow> first_length (ls @ length_line n # rest) = Some n"
proof (induction ls)
  case Nil
  then show ?case
    using length_field_length_line [OF assms] by auto
next
  case (Cons l ls)
  then show ?case
    using length_field_is_length_line [of l] by (auto split: option.splits)
qed

lemma join_prefix: "join sep ((a @ b) # ls) = a @ join sep (b # ls)"
  by (cases ls) auto

lemma copy_lines_join:
  "result \<noteq> [] \<Longrightarrow> copy_lines n (result, found) ls =
    (join CRLF (result # map (relength n) ls), found \<or> list_ex is_length_line ls)"
proof (induction ls arbitrary: result found)
  case (Cons l ls)
  then show ?case
    by (simp add: relength_def Let_def join_prefix)
qed simp

lemma copy_lines_all:
  "l \<noteq> [] \<Longrightarrow> copy_lines n ([], False) (l # ls) =
    (join CRLF (map (relength n) (l # ls)), list_ex is_length_line (l # ls))"
  by (auto simp: copy_lines_join relength_def length_line_def)

lemma find_str_start: "p \<noteq> [] \<Longrightarrow> find_str (p @ r) p = Some 0"
  by (cases p) auto

lemma rfind_suffix: "p \<noteq> [] \<Longrightarrow> rfind_str (r @ p) p = Some (length r)"
  using find_str_start [of "rev p" "rev r"] by (simp add: rfind_str_def)

lemma join_append: "xs \<noteq> [] \<Longrightarrow> ys \<noteq> [] \<Longrightarrow> join sep (xs @ ys) = join sep xs @ sep @ join sep ys"
proof (induction xs)
  case (Cons x xs)
  then show ?case
    by (cases xs) (auto simp: join_Cons)
qed simp

text \<open>What a header block is as lines: none of them holds a line end, all are UTF-8.\<close>

definition header_line :: "string \<Rightarrow> bool" where
  "header_line l \<longleftrightarrow> \<not> contains_str l CRLF \<and> valid_utf8 (str_bytes l)"

lemma header_lines_split:
  assumes "valid_utf8 (str_bytes s)"
  shows "list_all header_line (split_seq CRLF s)"
  using split_seq_lines [of s] valid_utf8_lines [OF split_seq_not_Nil, of CRLF s] assms
  by (simp add: header_line_def list_all_iff join_split_seq)

lemma parse_content_length_join:
  "ls \<noteq> [] \<Longrightarrow> list_all header_line ls \<Longrightarrow>
    parse_content_length (str_bytes (join CRLF ls)) = first_length ls"
  by (simp add: parse_content_length_def header_line_def list_all_iff split_seq_join valid_utf8_lines)

lemma header_line_Nil [simp]: "header_line []"
  by (simp add: header_line_def str_bytes_def)

lemma header_line_length_line [simp]: "header_line (length_line n)"
  by (simp add: header_line_def length_line_one valid_length_line)

lemma header_line_relength [simp]: "header_line l \<Longrightarrow> header_line (relength n l)"
  by (simp add: relength_def)

lemma split_block:
  assumes "valid_utf8 (str_bytes (s0 @ CRLF @ CRLF))"
  shows "\<exists>ls. ls \<noteq> [] \<and> s0 = join CRLF ls \<and> list_all header_line ls
    \<and> split_seq CRLF (s0 @ CRLF @ CRLF) = ls @ [[], []]"
proof -
  let ?ls = "split_seq CRLF s0"
  have s: "s0 @ CRLF @ CRLF = join CRLF (?ls @ [[], []])"
    by (simp add: join_append join_split_seq)
  have h: "list_all (\<lambda>l. \<not> contains_str l CRLF) (?ls @ [[], []])"
    using split_seq_lines [of s0] by (simp add: CRLF_def)
  have "split_seq CRLF (s0 @ CRLF @ CRLF) = ?ls @ [[], []]"
    unfolding s by (rule split_seq_join [OF _ h]) simp
  with header_lines_split [OF assms] show ?thesis
    by (intro exI [of _ ?ls]) (simp add: join_split_seq)
qed

lemma update_content_length_lines:
  assumes "valid_utf8 (str_bytes (s0 @ CRLF @ CRLF))" "\<not> starts_with (s0 @ CRLF) CRLF"
  shows "\<exists>ls. ls \<noteq> [] \<and> list_all header_line ls \<and>
    update_content_length (str_bytes (s0 @ CRLF @ CRLF)) n = str_bytes (join CRLF ls)
    \<and> (n < 2 ^ 64 \<longrightarrow> first_length ls = Some n)"
proof -
  obtain ls where ls: "ls \<noteq> []" "s0 = join CRLF ls" "list_all header_line ls"
    "split_seq CRLF (s0 @ CRLF @ CRLF) = ls @ [[], []]"
    using split_block [OF assms(1)] by blast
  obtain l ls' where l: "ls = l # ls'"
    using ls(1) by (cases ls) auto
  have "l \<noteq> []"
    using ls(2) assms(2) l by (cases ls') auto
  note l = l this
  have copy: "copy_lines n ([], False) (ls @ [[], []]) =
      (join CRLF (map (relength n) (ls @ [[], []])), list_ex is_length_line (ls @ [[], []]))"
    using copy_lines_all [OF l(2), of n "ls' @ [[], []]"] l(1) by simp
  have hdr: "bytes_str (str_bytes (s0 @ CRLF @ CRLF)) = s0 @ CRLF @ CRLF"
    by (rule bytes_str_str_bytes)
  have no_empty: "\<not> is_length_line []"
    by (simp add: is_length_line_def to_lowercase_def)
  show ?thesis
  proof (cases "list_ex is_length_line ls")
    case True
    have "update_content_length (str_bytes (s0 @ CRLF @ CRLF)) n
        = str_bytes (join CRLF (map (relength n) (ls @ [[], []])))"
      using assms(1) True by (simp only: update_content_length_def hdr ls(4) copy) simp
    moreover have "list_all header_line (map (relength n) (ls @ [[], []]))"
      using ls(3) by (auto simp: list_all_iff)
    moreover have "n < 2 ^ 64 \<longrightarrow> first_length (map (relength n) (ls @ [[], []])) = Some n"
      using first_length_relength [of n "ls @ [[], []]"] True by (simp del: map_append)
    ultimately show ?thesis
      by (intro exI [of _ "map (relength n) (ls @ [[], []])"]) simp
  next
    case False
    then have "map (relength n) (ls @ [[], []]) = ls @ [[], []]"
      using no_empty by (auto simp: relength_def list_ex_iff intro!: map_idI)
    then have r: "join CRLF (map (relength n) (ls @ [[], []])) = s0 @ CRLF @ CRLF"
      using ls(1,2) by (simp add: join_append)
    have "update_content_length (str_bytes (s0 @ CRLF @ CRLF)) n
        = str_bytes (s0 @ CRLF @ length_line n @ CRLF @ CRLF)"
      using assms(1) False no_empty rfind_suffix [of "CRLF @ CRLF" s0]
      by (simp only: update_content_length_def hdr ls(4) copy r) simp
    also have "s0 @ CRLF @ length_line n @ CRLF @ CRLF = join CRLF (ls @ [length_line n, [], []])"
      using ls(1,2) by (simp add: join_append)
    finally show ?thesis
      using ls first_length_insert [OF _ False] by (intro exI [of _ "ls @ [length_line n, [], []]"]) simp
  qed
qed

text \<open>whatever length the header block of a response declared (or when it declared none), the
  block the forwarder sends in its place declares exactly the length of the rewritten body,
  read by the code's own parser.\<close>

theorem declared_length_matches:
  assumes "valid_utf8 (str_bytes (s0 @ CRLF @ CRLF))" "\<not> starts_with (s0 @ CRLF) CRLF" "n < 2 ^ 64"
  shows "parse_content_length (update_content_length (str_bytes (s0 @ CRLF @ CRLF)) n) = Some n"
proof -
  obtain ls where "ls \<noteq> []" "list_all header_line ls" "first_length ls = Some n"
    "update_content_length (str_bytes (s0 @ CRLF @ CRLF)) n = str_bytes (join CRLF ls)"
    using update_content_length_lines [OF assms(1,2)] assms(3) by blast
  then show ?thesis
    by (simp add: parse_content_length_join)
qed

theorem declared_length_matches_witness:
  "parse_content_length (update_content_length (str_bytes ((''HTTP/1.1 200 OK'' @ CRLF @ ''content-LENGTH: 9'') @ CRLF @ CRLF)) 120)
    = Some 120"
proof (rule declared_length_matches)
  show "valid_utf8 (str_bytes ((''HTTP/1.1 200 OK'' @ CRLF @ ''content-LENGTH: 9'') @ CRLF @ CRLF))"
    by code_simp
  show "\<not> starts_with ((''HTTP/1.1 200 OK'' @ CRLF @ ''content-LENGTH: 9'') @ CRLF) CRLF"
    by code_simp
qed simp


section \<open>Reading a response\<close>

lemma find_header_end_bound: "find_header_end buf = Some pos \<Longrightarrow> pos + 4 \<le> length buf"
  unfolding find_header_end_def by (drule find_str_Some) simp

lemma read_headers_chunks:
  "find_header_end (buf @ concat cs) = Some pos \<Longrightarrow> [] \<notin> set cs \<Longrightarrow>
    \<exists>es ds. cs = es @ ds \<and> pos + 4 \<le> length (buf @ concat es)
      \<and> read_headers buf (map Data cs @ later) = (Got (pos, buf @ concat es), map Data ds @ later)"
proof (induction cs arbitrary: buf)
  case Nil
  then show ?case
    using find_header_end_bound [of buf pos] by (intro exI [of _ "[]"]) (auto simp: read_headers.simps)
next
  case (Cons c cs)
  show ?case
  proof (cases "find_header_end buf")
    case None
    obtain es ds where "cs = es @ ds" "pos + 4 \<le> length ((buf @ c) @ concat es)"
      "read_headers (buf @ c) (map Data cs @ later) = (Got (pos, (buf @ c) @ concat es), map Data ds @ later)"
      using Cons(1) [of "buf @ c"] Cons(2,3) by auto
    then show ?thesis
      using None Cons(3) by - (rule exI [of _ "c # es"], rule exI [of _ ds], auto simp: read_headers.simps [of buf])
  next
    case (Some p)
    then have "p = pos" "pos + 4 \<le> length buf"
      using Cons(2) find_str_mono [of buf _ p "c @ concat cs"] find_header_end_bound [OF Some]
      by (simp_all add: find_header_end_def)
    with Some show ?thesis
      by - (rule exI [of _ "[]"], rule exI [of _ "c # cs"], simp add: read_headers.simps [of buf])
  qed
qed

lemma read_sized_body_chunks:
  "cl \<le> length (body @ concat cs) \<Longrightarrow> [] \<notin> set cs \<Longrightarrow>
    \<exists>es ds. cs = es @ ds \<and> cl \<le> length (body @ concat es)
      \<and> read_sized_body cl body (map Data cs @ later) = (Got (body @ concat es), map Data ds @ later)"
proof (induction cs arbitrary: body)
  case Nil
  then show ?case
    by (intro exI [of _ "[]"]) (auto simp: read_sized_body.simps)
next
  case (Cons c cs)
  show ?case
  proof (cases "cl \<le> length body")
    case False
    obtain es ds where "cs = es @ ds" "cl \<le> length ((body @ c) @ concat es)"
      "read_sized_body cl (body @ c) (map Data cs @ later) = (Got ((body @ c) @ concat es), map Data ds @ later)"
      using Cons(1) [of "body @ c"] Cons(2,3) by auto
    then show ?thesis
      using False Cons(3) by - (rule exI [of _ "c # es"], rule exI [of _ ds], auto simp: read_sized_body.simps [of cl body])
  next
    case True
    then show ?thesis
      by - (rule exI [of _ "[]"], rule exI [of _ "c # cs"], simp add: read_sized_body.simps [of cl body])
  qed
qed

text \<open>A header block ends with its first empty line.\<close>

definition header_block :: "bytes \<Rightarrow> bool" where
  "header_block h \<longleftrightarrow> 4 \<le> length h \<and> find_header_end h = Some (length h - 4)"

lemma read_http_response_chunks:
  assumes "header_block headers" "parse_content_length headers = Some (length body)" "[] \<notin> set cs"
    "leftover @ concat cs = headers @ body @ rest"
  shows "\<exists>es ds extra. cs = es @ ds \<and> extra @ concat ds = rest
    \<and> read_http_response leftover (map Data cs @ later) = (Got (headers, body, extra), map Data ds @ later)"
proof -
  let ?n = "length headers"
  have n: "4 \<le> ?n" "find_header_end headers = Some (?n - 4)"
    using assms(1) by (simp_all add: header_block_def)
  have "find_header_end (leftover @ concat cs) = Some (?n - 4)"
    using n(2) find_str_mono [of headers _ "?n - 4" "body @ rest"] assms(4) by (simp add: find_header_end_def)
  then obtain es ds where hd: "cs = es @ ds" "?n \<le> length (leftover @ concat es)"
    "read_headers leftover (map Data cs @ later) = (Got (?n - 4, leftover @ concat es), map Data ds @ later)"
    using read_headers_chunks [OF _ assms(3), of leftover "?n - 4" later] n(1) by auto
  let ?buf = "leftover @ concat es"
  have b: "?buf @ concat ds = headers @ body @ rest"
    using assms(4) hd(1) by simp
  have t: "take ?n ?buf = headers" "drop ?n ?buf @ concat ds = body @ rest"
    using arg_cong [OF b, of "take ?n"] arg_cong [OF b, of "drop ?n"] hd(2) by simp_all
  obtain es2 ds2 where bd: "ds = es2 @ ds2" "length body \<le> length (drop ?n ?buf @ concat es2)"
    "read_sized_body (length body) (drop ?n ?buf) (map Data ds @ later) = (Got (drop ?n ?buf @ concat es2), map Data ds2 @ later)"
    using read_sized_body_chunks [of "length body" "drop ?n ?buf" ds later] t(2) assms(3) hd(1)
    by (metis Un_iff le_add1 length_append set_append)
  let ?body = "drop ?n ?buf @ concat es2"
  have c: "?body @ concat ds2 = body @ rest"
    using t(2) bd(1) by simp
  have "take (length body) ?body = body" "drop (length body) ?body @ concat ds2 = rest"
    using arg_cong [OF c, of "take (length body)"] arg_cong [OF c, of "drop (length body)"] bd(2) by simp_all
  then show ?thesis
    using hd bd t(1) n(1) assms(2)
    by (intro exI [of _ "es @ es2"] exI [of _ ds2] exI [of _ "drop (length body) ?body"])
      (simp add: read_http_response_def Let_def)
qed

text \<open>Writes that succeed.\<close>

lemma tcp_write_ok [simp]: "tcp_wr c = [] \<Longrightarrow> tcp_write bs c = (True, c\<lparr>to_tcp := to_tcp c @ [bs]\<rparr>)"
  by (simp add: tcp_write_def)

lemma vm_write_ok [simp]: "vs_wr c = [] \<Longrightarrow> vm_write bs c = (True, c\<lparr>to_vs := to_vs c @ [bs]\<rparr>)"
  by (simp add: vm_write_def)

lemma vm_write_all_ok [simp]: "vs_wr c = [] \<Longrightarrow> vm_write_all bs c = (True, c\<lparr>to_vs := to_vs c @ bs\<rparr>)"
  by (induction bs arbitrary: c) simp_all

text \<open>One exchange of the loop, with a complete response.\<close>

lemma cdp_loop_exchange:
  assumes "vs_in c = Data request # r" "looks_http request" "is_cdp_discovery_path request"
    "tcp_wr c = []" "vs_wr c = []" "read_http_response leftover (tcp_in c) = (Got (headers, body, extra), rs)"
    "parse_status_code headers \<noteq> Some 101"
  shows "cdp_loop J h sched leftover [] c = cdp_loop J h sched extra []
    (c\<lparr>vs_in := r, to_tcp := to_tcp c @ [rewrite_request_host request], tcp_in := rs,
       to_vs := to_vs c @ cdp_reply J h headers body\<rparr>)"
proof -
  have "request \<noteq> []"
    using assms(2) by (auto simp: looks_http_def str_bytes_def)
  then show ?thesis
    using assms by (subst cdp_loop.simps) (simp add: read_vsock_data_def)
qed

text \<open>a discovery request is answered with the whole response, rewritten, however Chrome's bytes
  are cut into reads: the request goes to Chrome with its host rewritten, the VM gets the
  response's header block and body (or, when the body is JSON, their rewritten forms), and
  the loop goes on with exactly the bytes after the response.\<close>

theorem discovery_answered:
  assumes "vs_in c = Data request # r" "looks_http request" "is_cdp_discovery_path request"
    and "tcp_wr c = []" "vs_wr c = []"
    and "tcp_in c = map Data cs @ later" "[] \<notin> set cs" "leftover @ concat cs = headers @ body @ rest"
    and "header_block headers" "parse_content_length headers = Some (length body)"
    and "parse_status_code headers \<noteq> Some 101"
  shows "\<exists>ds extra. extra @ concat ds = rest \<and>
    cdp_loop J h sched leftover [] c = cdp_loop J h sched extra []
      (c\<lparr>vs_in := r, to_tcp := to_tcp c @ [rewrite_request_host request], tcp_in := map Data ds @ later,
         to_vs := to_vs c @ cdp_reply J h headers body\<rparr>)"
proof -
  obtain ds extra where "extra @ concat ds = rest"
    "read_http_response leftover (tcp_in c) = (Got (headers, body, extra), map Data ds @ later)"
    using read_http_response_chunks [OF assms(9,10,7,8), of later] assms(6) by auto
  then show ?thesis
    using cdp_loop_exchange [OF assms(1-5) _ assms(11)] by blast
qed

definition sample_conn :: conn where
  "sample_conn = \<lparr>tcp_in = [Data (str_bytes (''HTTP/1.1 200 OK'' @ CRLF @ ''Content-'')),
       Data (str_bytes (''Length: 4'' @ CRLF @ CRLF @ ''nul'')), Data (str_bytes ''lHT'')],
     vs_in = [Data (str_bytes ''GET /json/version HTTP/1.1'')], tcp_wr = [], vs_wr = [], to_tcp = [], to_vs = [],
     tcp_shut = False, vs_closed = False\<rparr>"

lemma sample_headers:
  "parse_content_length (str_bytes (''HTTP/1.1 200 OK'' @ CRLF @ ''Content-Length: 4'' @ CRLF @ CRLF)) = Some 4"
  "parse_content_length (str_bytes (''HTTP/1.1 200 OK'' @ CRLF @ ''Content-length: 4'' @ CRLF @ CRLF)) = None"
  "parse_status_code (str_bytes (''HTTP/1.1 200 OK'' @ CRLF @ ''Content-Length: 4'' @ CRLF @ CRLF)) = Some 200"
  "parse_status_code (str_bytes (''HTTP/1.1 200 OK'' @ CRLF @ ''Content-length: 4'' @ CRLF @ CRLF)) = Some 200"
proof -
  have ls: "list_all header_line [''HTTP/1.1 200 OK'', ''Content-Length: 4'', ''Content-length: 4'', []]"
    by code_simp
  have "length_field ''HTTP/1.1 200 OK'' = None" "length_field ''Content-Length: 4'' = Some '' 4''"
    "length_field ''Content-length: 4'' = None" "length_field [] = None" "trim '' 4'' = ''4''"
    by code_simp+
  moreover have "parse_nat (2 ^ 64) ''4'' = Some 4"
    by (simp add: parse_nat_def strip_prefix_def is_digit_def digits_value_def)
  ultimately show
    "parse_content_length (str_bytes (''HTTP/1.1 200 OK'' @ CRLF @ ''Content-Length: 4'' @ CRLF @ CRLF)) = Some 4"
    "parse_content_length (str_bytes (''HTTP/1.1 200 OK'' @ CRLF @ ''Content-length: 4'' @ CRLF @ CRLF)) = None"
    using parse_content_length_join [of "[''HTTP/1.1 200 OK'', ''Content-Length: 4'', [], []]"]
      parse_content_length_join [of "[''HTTP/1.1 200 OK'', ''Content-length: 4'', [], []]"] ls by simp_all
  have "second_word (str_bytes (''HTTP/1.1 200 OK'' @ CRLF @ ''Content-Length: 4'' @ CRLF @ CRLF)) = Some ''200''"
    "second_word (str_bytes (''HTTP/1.1 200 OK'' @ CRLF @ ''Content-length: 4'' @ CRLF @ CRLF)) = Some ''200''"
    by code_simp+
  moreover have "parse_nat (2 ^ 16) ''200'' = Some 200"
    by (simp add: parse_nat_def strip_prefix_def is_digit_def digits_value_def)
  ultimately show
    "parse_status_code (str_bytes (''HTTP/1.1 200 OK'' @ CRLF @ ''Content-Length: 4'' @ CRLF @ CRLF)) = Some 200"
    "parse_status_code (str_bytes (''HTTP/1.1 200 OK'' @ CRLF @ ''Content-length: 4'' @ CRLF @ CRLF)) = Some 200"
    by (simp_all add: parse_status_code_def)
qed

theorem discovery_answered_witness:
  "\<forall>J h sched. \<exists>ds extra. extra @ concat ds = str_bytes ''HT'' \<and>
    cdp_loop J h sched [] [] sample_conn = cdp_loop J h sched extra []
      (sample_conn\<lparr>vs_in := [],
         to_tcp := to_tcp sample_conn @ [rewrite_request_host (str_bytes ''GET /json/version HTTP/1.1'')],
         tcp_in := map Data ds @ [],
         to_vs := to_vs sample_conn @ cdp_reply J h
           (str_bytes (''HTTP/1.1 200 OK'' @ CRLF @ ''Content-Length: 4'' @ CRLF @ CRLF)) (str_bytes ''null'')\<rparr>)"
proof (intro allI, rule discovery_answered)
  let ?r = "str_bytes ''GET /json/version HTTP/1.1''"
  let ?h = "str_bytes (''HTTP/1.1 200 OK'' @ CRLF @ ''Content-Length: 4'' @ CRLF @ CRLF)"
  let ?cs = "[str_bytes (''HTTP/1.1 200 OK'' @ CRLF @ ''Content-''),
       str_bytes (''Length: 4'' @ CRLF @ CRLF @ ''nul''), str_bytes ''lHT'']"
  show "vs_in sample_conn = [Data ?r]" "tcp_in sample_conn = map Data ?cs @ []"
    "tcp_wr sample_conn = []" "vs_wr sample_conn = []"
    by (simp_all add: sample_conn_def)
  show "looks_http ?r" "is_cdp_discovery_path ?r" "header_block ?h" "[] \<notin> set ?cs"
    by code_simp+
  show "[] @ concat ?cs = ?h @ str_bytes ''null'' @ str_bytes ''HT''"
    by (simp add: str_bytes_def)
  show "parse_content_length ?h = Some (length (str_bytes ''null''))" "parse_status_code ?h \<noteq> Some 101"
    using sample_headers by simp_all
qed

text \<open>a response whose header block has no line that starts with \<open>Content-Length:\<close> or
  \<open>content-length:\<close> (a chunked response, or another spelling of the name) stalls: when
  its body comes after its header block, the forwarder passes the header block on and then waits
  for the VM's next request without ever reading the body.\<close>

theorem unsized_response_stalls:
  assumes "vs_in c = [Data request]" "looks_http request" "is_cdp_discovery_path request"
    and "tcp_wr c = []" "vs_wr c = []" "tcp_in c = Data headers # later"
    and "header_block headers" "parse_content_length headers = None" "parse_status_code headers \<noteq> Some 101"
  shows "\<exists>c'. forward_cdp_connection J h sched c = (c', Waiting) \<and> tcp_in c' = later
    \<and> to_vs c' = to_vs c @ cdp_reply J h headers []"
proof -
  have "headers \<noteq> []" "find_header_end [] = None"
    using assms(7) by (auto simp: header_block_def find_header_end_def str_bytes_def CRLF_def)
  then have "read_http_response [] (tcp_in c) = (Got (headers, [], []), later)"
    using assms(6-8) by (simp add: read_http_response_def read_headers.simps header_block_def)
  then show ?thesis
    unfolding forward_cdp_connection_def
    using cdp_loop_exchange [OF assms(1-5) _ assms(9), of "[]"]
    by (simp add: cdp_loop.simps [of J h sched "[]" "[]" "_\<lparr>to_vs := _\<rparr>"] read_vsock_data_def)
qed

theorem unsized_response_stalls_witness:
  "let c = sample_conn\<lparr>tcp_in := [Data (str_bytes (''HTTP/1.1 200 OK'' @ CRLF @ ''Content-length: 4'' @ CRLF @ CRLF)),
     Data (str_bytes ''null'')]\<rparr>
   in \<forall>J h sched. \<exists>c'. forward_cdp_connection J h sched c = (c', Waiting) \<and> tcp_in c' = [Data (str_bytes ''null'')]
     \<and> to_vs c' = to_vs c @ cdp_reply J h (str_bytes (''HTTP/1.1 200 OK'' @ CRLF @ ''Content-length: 4'' @ CRLF @ CRLF)) []"
proof -
  let ?r = "str_bytes ''GET /json/version HTTP/1.1''"
  let ?h = "str_bytes (''HTTP/1.1 200 OK'' @ CRLF @ ''Content-length: 4'' @ CRLF @ CRLF)"
  have "looks_http ?r" "is_cdp_discovery_path ?r" "header_block ?h"
    by code_simp+
  moreover have "parse_content_length ?h = None" "parse_status_code ?h \<noteq> Some 101"
    using sample_headers by simp_all
  ultimately show ?thesis
    unfolding Let_def by (intro allI unsized_response_stalls) (simp_all add: sample_conn_def)
qed


section \<open>Raw tunnels relay what they read\<close>

definition relayed :: "conn \<Rightarrow> conn \<Rightarrow> nat \<Rightarrow> bool" where
  "relayed c c' n \<longleftrightarrow> (\<exists>bs cs rs ss.
    to_vs c' = to_vs c @ bs \<and> tcp_in c = map Data bs @ rs @ tcp_in c' \<and>
    to_tcp c' = to_tcp c @ cs \<and> vs_in c = map Data cs @ ss @ vs_in c' \<and> length rs + length ss \<le> n)"

lemma relayed_refl: "relayed c c 0"
  by (simp add: relayed_def)

lemma relayed_drop:
  "to_vs c' = to_vs c \<Longrightarrow> to_tcp c' = to_tcp c \<Longrightarrow> tcp_in c = rs @ tcp_in c' \<Longrightarrow> vs_in c = ss @ vs_in c' \<Longrightarrow>
    length rs + length ss \<le> 1 \<Longrightarrow> relayed c c' 1"
  unfolding relayed_def by (intro exI [of _ "[]"] exI [of _ rs] exI [of _ ss]) auto

lemma relayed_tcp:
  assumes "tcp_in c = Data b # tcp_in c1" "vs_in c = vs_in c1" "to_vs c1 = to_vs c @ [b]" "to_tcp c1 = to_tcp c"
    "relayed c1 c' n"
  shows "relayed c c' n"
proof -
  obtain bs cs rs ss where "to_vs c' = to_vs c1 @ bs" "tcp_in c1 = map Data bs @ rs @ tcp_in c'"
    "to_tcp c' = to_tcp c1 @ cs" "vs_in c1 = map Data cs @ ss @ vs_in c'" "length rs + length ss \<le> n"
    using assms(5) unfolding relayed_def by blast
  then show ?thesis
    unfolding relayed_def using assms(1-4)
    by - (rule exI [of _ "b # bs"], rule exI [of _ cs], rule exI [of _ rs], rule exI [of _ ss], simp)
qed

lemma relayed_vs:
  assumes "vs_in c = Data b # vs_in c1" "tcp_in c = tcp_in c1" "to_tcp c1 = to_tcp c @ [b]" "to_vs c1 = to_vs c"
    "relayed c1 c' n"
  shows "relayed c c' n"
proof -
  obtain bs cs rs ss where "to_vs c' = to_vs c1 @ bs" "tcp_in c1 = map Data bs @ rs @ tcp_in c'"
    "to_tcp c' = to_tcp c1 @ cs" "vs_in c1 = map Data cs @ ss @ vs_in c'" "length rs + length ss \<le> n"
    using assms(5) unfolding relayed_def by blast
  then show ?thesis
    unfolding relayed_def using assms(1-4)
    by - (rule exI [of _ bs], rule exI [of _ "b # cs"], rule exI [of _ rs], rule exI [of _ ss], simp)
qed

lemma vm_write_cases:
  "vm_write b c = (True, c\<lparr>vs_wr := tl (vs_wr c), to_vs := to_vs c @ [b]\<rparr>) \<or>
   vm_write b c = (False, c\<lparr>vs_wr := tl (vs_wr c)\<rparr>)"
proof (cases "vs_wr c")
  case (Cons ok r)
  then show ?thesis by (cases ok) (simp_all add: vm_write_def)
qed (simp add: vm_write_def)

lemma tcp_write_cases:
  "tcp_write b c = (True, c\<lparr>tcp_wr := tl (tcp_wr c), to_tcp := to_tcp c @ [b]\<rparr>) \<or>
   tcp_write b c = (False, c\<lparr>tcp_wr := tl (tcp_wr c)\<rparr>)"
proof (cases "tcp_wr c")
  case (Cons ok r)
  then show ?thesis by (cases ok) (simp_all add: tcp_write_def)
qed (simp add: tcp_write_def)

lemma tunnel_loop_relays:
  "relayed c (fst (tunnel_loop sched c)) (if snd (tunnel_loop sched c) = Waiting then 0 else 1)"
proof (induction sched arbitrary: c)
  case Nil
  then show ?case by (simp add: relayed_refl)
next
  case (Cons b sched)
  let ?slack = "\<lambda>e. if e = Waiting then 0 else 1 :: nat"
  show ?case
  proof (cases b)
    case True
    show ?thesis
    proof (cases "tcp_in c")
      case Nil
      then show ?thesis using True Cons.IH by simp
    next
      case (Cons d r)
      have drop: "relayed c c' (Suc 0)" if "to_vs c' = to_vs c" "to_tcp c' = to_tcp c" "tcp_in c' = r" "vs_in c' = vs_in c" for c'
        using relayed_drop [of c' c "[d]" "[]"] that Cons by simp
      show ?thesis
      proof (cases d)
        case (Data bs)
        let ?c1 = "c\<lparr>tcp_in := r, vs_wr := tl (vs_wr c), to_vs := to_vs c @ [bs]\<rparr>"
        have "relayed c (fst (tunnel_loop sched ?c1)) (?slack (snd (tunnel_loop sched ?c1)))"
          by (rule relayed_tcp [OF _ _ _ _ Cons.IH]) (simp_all add: Cons Data)
        then show ?thesis
          using True Cons Data drop vm_write_cases [of bs "c\<lparr>tcp_in := r\<rparr>"] by (cases "bs = []") auto
      qed (simp add: True Cons drop)
    qed
  next
    case False
    show ?thesis
    proof (cases "vs_in c")
      case Nil
      then show ?thesis using False Cons.IH by simp
    next
      case (Cons d r)
      have drop: "relayed c c' (Suc 0)" if "to_vs c' = to_vs c" "to_tcp c' = to_tcp c" "tcp_in c' = tcp_in c" "vs_in c' = r" for c'
        using relayed_drop [of c' c "[]" "[d]"] that Cons by simp
      show ?thesis
      proof (cases d)
        case (Data bs)
        let ?c1 = "c\<lparr>vs_in := r, tcp_wr := tl (tcp_wr c), to_tcp := to_tcp c @ [bs]\<rparr>"
        have "relayed c (fst (tunnel_loop sched ?c1)) (?slack (snd (tunnel_loop sched ?c1)))"
          by (rule relayed_vs [OF _ _ _ _ Cons.IH]) (simp_all add: Cons Data)
        then show ?thesis
          using False Cons Data drop tcp_write_cases [of bs "c\<lparr>vs_in := r\<rparr>"] by auto
      qed (simp add: False Cons drop)
    qed
  qed
qed

text \<open>a raw tunnel relays what it reads, byte for byte and in order, on both sides, for every
  order in which the sides become ready; while it runs nothing that was read is missing, and
  when it ends at most the last read (an end of stream, an error, or data whose write failed) is.\<close>

theorem tunnel_faithful:
  "\<exists>bs cs rs ss. let (c', e) = forward_connection sched c in
    to_vs c' = to_vs c @ bs \<and> tcp_in c = map Data bs @ rs @ tcp_in c' \<and>
    to_tcp c' = to_tcp c @ cs \<and> vs_in c = map Data cs @ ss @ vs_in c' \<and>
    length rs + length ss \<le> (if e = Waiting then 0 else 1)"
  using tunnel_loop_relays [of c sched]
  by (simp add: relayed_def forward_connection_def case_prod_beta Let_def)

end
