(* ===== verification/Dns.thy ===== *)
theory Dns
  imports Rust_Text
begin

text \<open>
  DNS for the VM: the guest's forwarder (\<open>vm-agent/src/outbound/dns.rs\<close>), which sends each query it
  receives on \<open>127.0.0.53:53\<close> to the host over a stream, and the host's resolver
  (\<open>nilbox-core/src/proxy/dns_resolver.rs\<close>), which answers the \<open>cdp.nilbox\<close> names itself and forwards
  other queries to the system's server.  The network is a parameter: \<open>upstream\<close> gives
  the datagram a server answers within five seconds, if any, and \<open>resolv_conf\<close> the contents of
  \<open>/etc/resolv.conf\<close>.
\<close>

record dns_env =
  resolv_conf :: "string option"
  upstream :: "string \<Rightarrow> bytes \<Rightarrow> bytes option"


section \<open>Host\<close>

function qname_labels :: "bytes \<Rightarrow> string + string list" where
  "qname_labels [] = Inr []"
| "qname_labels (b # r) =
    (if b = 0 then Inr []
     else if length r < unat b then Inl ''<truncated>''
     else if \<not> valid_utf8 (take (unat b) r) then Inl ''<non-utf8>''
     else map_sum id (\<lambda>ls. bytes_str (take (unat b) r) # ls) (qname_labels (drop (unat b) r)))"
  by pat_completeness auto

termination qname_labels
  by (relation "measure length") auto

definition extract_qname :: "bytes \<Rightarrow> string" where
  "extract_qname query =
    (if length query < 13 then ''<invalid>''
     else case qname_labels (drop 12 query) of
            Inl err \<Rightarrow> err
          | Inr parts \<Rightarrow> if parts = [] then ''<empty>'' else join ''.'' parts)"

text \<open>How far the name's length bytes lead; a last label may point past the end.\<close>

function name_span :: "bytes \<Rightarrow> nat" where
  "name_span [] = 0"
| "name_span (b # r) = (if b = 0 then 0 else 1 + unat b + name_span (drop (unat b) r))"
  by pat_completeness auto

termination name_span
  by (relation "measure length") auto

definition build_a_record :: "bytes \<Rightarrow> bytes \<Rightarrow> bytes" where
  "build_a_record query ip =
    (if length query < 12 then []
     else let pos = 12 + name_span (drop 12 query) + 1 + 4;
              question_section = drop 12 (take pos query)
          in [query ! 0, query ! 1] @ [0x81, 0x80] @ [0x00, 0x01] @ [0x00, 0x01] @ [0x00, 0x00] @ [0x00, 0x00]
             @ question_section @ [0xC0, 0x0C] @ [0x00, 0x01] @ [0x00, 0x01] @ [0x00, 0x00, 0x00, 0x3C]
             @ [0x00, 0x04] @ ip)"

definition build_servfail :: "bytes \<Rightarrow> bytes option" where
  "build_servfail query =
    (if length query < 12 then None
     else Some ((replicate 12 0)[0 := query ! 0, 1 := query ! 1, 2 := 0x80, 3 := 0x02,
       4 := query ! 4, 5 := query ! 5]))"

fun first_server :: "string list \<Rightarrow> string option" where
  "first_server [] = None"
| "first_server (l # ls) =
    (case strip_prefix (trim l) ''nameserver'' of
       Some r \<Rightarrow>
         (let server = trim r
          in if server = ''127.0.0.53'' then first_server ls
             else if server \<noteq> [] then Some (server @ '':53'')
             else first_server ls)
     | None \<Rightarrow> first_server ls)"

definition get_system_dns :: "dns_env \<Rightarrow> string" where
  "get_system_dns e =
    (case Option.bind (resolv_conf e) (\<lambda>s. first_server (lines_of s)) of
       Some s \<Rightarrow> s | None \<Rightarrow> ''8.8.8.8:53'')"

text \<open>The answer is read into a buffer of 4096 bytes; a longer datagram is cut.\<close>

definition resolve_dns :: "dns_env \<Rightarrow> bytes \<Rightarrow> bytes option" where
  "resolve_dns e query = map_option (take 4096) (upstream e (get_system_dns e) query)"

definition synthetic_ip :: "string \<Rightarrow> bytes option" where
  "synthetic_ip qname =
    (if qname = ''cdp.nilbox'' \<or> qname = ''cdp.nilbox.'' then Some [169, 254, 254, 1]
     else if qname = ''headless.cdp.nilbox'' \<or> qname = ''headless.cdp.nilbox.'' then Some [169, 254, 254, 2]
     else if qname = ''headed.cdp.nilbox'' \<or> qname = ''headed.cdp.nilbox.'' then Some [169, 254, 254, 3]
     else None)"

text \<open>The payload of the response frame.\<close>

definition handle_dns :: "dns_env \<Rightarrow> bytes \<Rightarrow> bytes" where
  "handle_dns e query =
    (case synthetic_ip (extract_qname query) of
       Some ip \<Rightarrow> build_a_record query ip
     | None \<Rightarrow>
         (case resolve_dns e query of
            Some resp \<Rightarrow> resp
          | None \<Rightarrow> (case build_servfail query of Some r \<Rightarrow> r | None \<Rightarrow> [])))"


section \<open>Guest\<close>

text \<open>
  \<open>mux\<close> is the active multiplexer as the forwarder sees it: what reading the stream it opens
  for a query gives within five seconds (\<open>None\<close>: no stream, an error or a timeout).
\<close>

definition handle_dns_query :: "(bytes \<Rightarrow> bytes option) option \<Rightarrow> bytes \<Rightarrow> bytes option" where
  "handle_dns_query mux query = Option.bind mux (\<lambda>m. m query)"

definition dns_forward :: "(bytes \<Rightarrow> bytes option) option \<Rightarrow> bytes \<Rightarrow> bytes option" where
  "dns_forward mux datagram =
    (let query = take 512 datagram
     in case handle_dns_query mux query of
          Some response \<Rightarrow> Some response
        | None \<Rightarrow> build_servfail query)"


section \<open>Names on the wire\<close>

fun wire_name :: "string list \<Rightarrow> bytes" where
  "wire_name [] = []"
| "wire_name (l # ls) = of_nat (length l) # str_bytes l @ wire_name ls"

definition wire_label :: "string \<Rightarrow> bool" where
  "wire_label l \<longleftrightarrow> l \<noteq> [] \<and> length l < 256 \<and> rust_string l"

lemma wire_label_length: "wire_label l \<Longrightarrow> unat (of_nat (length l) :: byte) = length l \<and> (of_nat (length l) :: byte) \<noteq> 0"
  by (metis length_0_conv unat_0 unat_byte_of_nat mod_less wire_label_def)

lemma qname_labels_wire:
  "list_all wire_label ls \<Longrightarrow> qname_labels (wire_name ls @ 0 # r) = Inr ls"
proof (induction ls)
  case (Cons l ls)
  then show ?case
    using wire_label_length [of l] by (simp add: wire_label_def rust_string_def)
qed simp

lemma name_span_wire:
  "list_all wire_label ls \<Longrightarrow> name_span (wire_name ls @ 0 # r) = length (wire_name ls)"
proof (induction ls)
  case (Cons l ls)
  then show ?case
    using wire_label_length [of l] by simp
qed simp

lemma extract_qname_wire:
  assumes "length hdr = 12" "ls \<noteq> []" "list_all wire_label ls"
  shows "extract_qname (hdr @ wire_name ls @ 0 # r) = join ''.'' ls"
proof -
  have "wire_name ls \<noteq> []"
    using assms(2) by (cases ls) auto
  then show ?thesis
    using assms by (simp add: extract_qname_def qname_labels_wire)
qed

lemma two_bytes: "2 \<le> length q \<Longrightarrow> [q ! 0, q ! 1] = take 2 q"
  by (cases q; cases "tl q") auto

lemma build_a_record_wire:
  assumes "length hdr = 12" "list_all wire_label ls" "length qt = 4"
  shows "build_a_record (hdr @ wire_name ls @ 0 # qt @ r) ip =
    take 2 hdr @ [0x81, 0x80, 0, 1, 0, 1, 0, 0, 0, 0] @ wire_name ls @ 0 # qt
      @ [0xC0, 0x0C, 0, 1, 0, 1, 0, 0, 0, 0x3C, 0, 4] @ ip"
proof -
  have "[hdr ! 0, hdr ! 1] = take 2 hdr"
    using assms(1) by (intro two_bytes) simp
  then show ?thesis
    using assms(1,3) name_span_wire [OF assms(2), of "qt @ r"] by (simp add: build_a_record_def nth_append)
qed


section \<open>Properties\<close>

text \<open>a query for one of the names the host answers itself, with any type, class and trailing
  sections, is answered from the query alone: same identifier, the question copied, and one
  address record that carries the sentinel address of the name.\<close>

theorem sentinel_names_answered:
  assumes "length hdr = 12" "ls \<noteq> []" "list_all wire_label ls" "length qt = 4"
    "synthetic_ip (join ''.'' ls) = Some ip"
  shows "handle_dns e (hdr @ wire_name ls @ 0 # qt @ r) =
    take 2 hdr @ [0x81, 0x80, 0, 1, 0, 1, 0, 0, 0, 0] @ wire_name ls @ 0 # qt
      @ [0xC0, 0x0C, 0, 1, 0, 1, 0, 0, 0, 0x3C, 0, 4] @ ip"
  using assms by (simp add: handle_dns_def extract_qname_wire build_a_record_wire)

theorem sentinel_names_answered_witness:
  "\<forall>e. handle_dns e (replicate 12 7 @ wire_name [''headed'', ''cdp'', ''nilbox''] @ 0 # [0, 28, 0, 1] @ [0, 0, 41]) =
    take 2 (replicate 12 7) @ [0x81, 0x80, 0, 1, 0, 1, 0, 0, 0, 0] @ wire_name [''headed'', ''cdp'', ''nilbox''] @ 0 # [0, 28, 0, 1]
      @ [0xC0, 0x0C, 0, 1, 0, 1, 0, 0, 0, 0x3C, 0, 4] @ [169, 254, 254, 3]"
proof
  fix e
  have "is_ascii ''headed''" "is_ascii ''cdp''" "is_ascii ''nilbox''"
    by code_simp+
  then have "list_all wire_label [''headed'', ''cdp'', ''nilbox'']"
    by (simp add: wire_label_def ascii_rust_string)
  then show "handle_dns e (replicate 12 7 @ wire_name [''headed'', ''cdp'', ''nilbox''] @ 0 # [0, 28, 0, 1] @ [0, 0, 41]) =
    take 2 (replicate 12 7) @ [0x81, 0x80, 0, 1, 0, 1, 0, 0, 0, 0] @ wire_name [''headed'', ''cdp'', ''nilbox''] @ 0 # [0, 28, 0, 1]
      @ [0xC0, 0x0C, 0, 1, 0, 1, 0, 0, 0, 0x3C, 0, 4] @ [169, 254, 254, 3]"
    by (intro sentinel_names_answered) (simp_all add: synthetic_ip_def)
qed

text \<open>every query that has a DNS header is answered by the guest, whatever happens to the
  connection, the host or the upstream server, and the answer carries the query's identifier
  (provided that a server that answers at all repeats it, as DNS requires).\<close>

theorem every_query_answered:
  assumes "12 \<le> length q" "length q \<le> 512"
    and "mux = None \<or> mux = Some (\<lambda>_. None) \<or> mux = Some (\<lambda>q. Some (handle_dns e q))"
    and "\<And>server resp. upstream e server q = Some resp \<Longrightarrow> take 2 resp = take 2 q"
  shows "\<exists>resp. dns_forward mux q = Some resp \<and> take 2 resp = take 2 q"
proof -
  obtain a b c d f g t where q: "q = a # b # c # d # f # g # t"
    using assms(1) by (auto simp: Suc_le_length_iff numeral_eq_Suc)
  have sf: "\<exists>r. build_servfail q = Some r \<and> take 2 r = take 2 q"
    using assms(1) q by (simp add: build_servfail_def numeral_eq_Suc)
  have "take 2 (build_a_record q ip) = take 2 q" for ip
    using assms(1) q by (simp add: build_a_record_def)
  then have "take 2 (handle_dns e q) = take 2 q"
    using assms(4) sf by (auto simp: handle_dns_def resolve_dns_def min_def split: option.splits)
  then show ?thesis
    using assms(2,3) sf by (auto simp: dns_forward_def handle_dns_query_def)
qed

theorem every_query_answered_witness:
  "let e = \<lparr>resolv_conf = None, upstream = (\<lambda>_ q. if q ! 2 = 0 then None else Some q)\<rparr>; q = replicate 12 0
   in \<exists>resp. dns_forward (Some (\<lambda>q. Some (handle_dns e q))) q = Some resp \<and> take 2 resp = take 2 q"
  unfolding Let_def by (rule every_query_answered) (auto split: if_splits)

end
