(* ===== verification/Vm_Store.thy ===== *)
theory Vm_Store
  imports Domain_Store Rust_Text
begin

text \<open>
  The tables of \<open>crates/nilbox-core/src/config_store.rs\<close> that describe VMs: VMs with their admin
  URLs, port and file mappings, installed apps and function keys, the settings, auth routes
  and credentials, the creation and migration of the schema, and the import of the legacy
  \<open>config.json\<close>.  A table with an automatic key is the list of its rows with the last key
  given; constraints (\<open>PRIMARY KEY\<close>, \<open>UNIQUE\<close>, foreign keys with \<open>ON DELETE CASCADE\<close>) are written
  out in the operations.  A statement that names a column the table does not have fails.
  \<open>now\<close> is the current time as the code formats it.
\<close>

datatype db_error = SqlError | NotFound

record 'r tbl =
  rows :: "(nat \<times> 'r) list"
  seq :: nat

definition tbl_empty :: "'r tbl" where
  "tbl_empty = \<lparr>rows = [], seq = 0\<rparr>"

definition tbl_insert :: "'r \<Rightarrow> 'r tbl \<Rightarrow> 'r tbl" where
  "tbl_insert r t = \<lparr>rows = rows t @ [(Suc (seq t), r)], seq = Suc (seq t)\<rparr>"

definition tbl_delete :: "(nat \<times> 'r \<Rightarrow> bool) \<Rightarrow> 'r tbl \<Rightarrow> 'r tbl" where
  "tbl_delete P t = t\<lparr>rows := filter (\<lambda>e. \<not> P e) (rows t)\<rparr>"

definition tbl_ex :: "(nat \<times> 'r \<Rightarrow> bool) \<Rightarrow> 'r tbl \<Rightarrow> bool" where
  "tbl_ex P t \<longleftrightarrow> list_ex P (rows t)"

record VmRecord =
  r_id :: string
  r_name :: string
  r_disk_image :: string
  r_kernel :: "string option"
  r_initrd :: "string option"
  r_append :: "string option"
  r_memory_mb :: u32
  r_cpus :: u32
  r_is_default :: bool
  r_description :: "string option"
  r_last_boot_at :: "string option"
  r_created_at :: string
  r_admin_url :: "string option"
  r_admin_label :: "string option"
  r_base_os :: "string option"
  r_base_os_version :: "string option"
  r_target_platform :: "string option"
  r_manifest_version :: "string option"

record AdminUrlRecord = au_vm :: string  au_url :: string  au_label :: string

record PortMappingConfig = pm_vm :: string  pm_host_port :: u16  pm_vm_port :: u16  pm_label :: string

record FileMappingRecord =
  fm_vm :: string
  fm_host_path :: string
  fm_vm_mount :: string
  fm_read_only :: bool
  fm_label :: string
  fm_sort_order :: int
  fm_is_active :: bool

record InstalledAppRecord =
  ia_vm :: string
  ia_app :: string
  ia_name :: string
  ia_version :: string
  ia_installed_at :: string

record FunctionKeyRecord =
  fk_vm :: string
  fk_label :: string
  fk_bash :: string
  fk_app_id :: "string option"
  fk_app_name :: "string option"
  fk_sort_order :: int

record CredentialMetaRecord =
  cm_account :: string
  cm_delegator_kind :: string
  cm_display_name :: "string option"
  cm_metadata_json :: "string option"

record vm_db =
  versions :: "nat list"
  vms_columns :: "string list"
  allowlist_columns :: "string list"
  vms :: "VmRecord list"
  vm_admin_urls :: "AdminUrlRecord tbl"
  port_mappings :: "PortMappingConfig tbl"
  file_mappings :: "FileMappingRecord tbl"
  installed_apps :: "InstalledAppRecord tbl"
  function_keys :: "FunctionKeyRecord tbl"
  settings :: "(string \<times> string) list"
  auth_routes :: "(string \<times> string \<times> string) list"
  credential_meta :: "CredentialMetaRecord list"
  last_insert_rowid :: nat


section \<open>Schema\<close>

definition db_absent :: vm_db where
  "db_absent = \<lparr>versions = [], vms_columns = [], allowlist_columns = [], vms = [], vm_admin_urls = tbl_empty,
     port_mappings = tbl_empty, file_mappings = tbl_empty, installed_apps = tbl_empty,
     function_keys = tbl_empty, settings = [], auth_routes = [], credential_meta = [], last_insert_rowid = 0\<rparr>"

definition VMS_COLUMNS :: "string list" where
  "VMS_COLUMNS = [''id'', ''name'', ''disk_image'', ''kernel'', ''initrd'', ''append'', ''memory_mb'', ''cpus'',
     ''is_default'', ''created_at'', ''description'', ''last_boot_at'', ''admin_url'', ''admin_label'',
     ''base_os'', ''base_os_version'', ''target_platform'']"

definition ALLOWLIST_COLUMNS :: "string list" where
  "ALLOWLIST_COLUMNS = [''domain'', ''added_at'', ''inspect_mode'', ''is_system'']"

text \<open>\<open>INSERT OR IGNORE\<close> and the upsert of a table keyed by a string.\<close>

definition put_setting :: "string \<Rightarrow> string \<Rightarrow> (string \<times> string) list \<Rightarrow> (string \<times> string) list" where
  "put_setting k v kvs =
    (if k \<in> fst ` set kvs then map (\<lambda>e. if fst e = k then (k, v) else e) kvs else kvs @ [(k, v)])"

definition create_schema :: "vm_db \<Rightarrow> (db_error, vm_db) outcome" where
  "create_schema db =
    (if vms_columns db \<noteq> [] then Err SqlError
     else Ok (db\<lparr>vms_columns := VMS_COLUMNS, allowlist_columns := ALLOWLIST_COLUMNS,
       settings := [(''auto_update_check'', ''true''), (''developer_mode'', ''false'')],
       versions := versions db @ [38]\<rparr>))"

definition add_columns :: "string \<Rightarrow> string list \<Rightarrow> string list \<Rightarrow> string list" where
  "add_columns test new cols = (if test \<in> set cols then cols else cols @ new)"

definition init_schema :: "vm_db \<Rightarrow> (db_error, vm_db) outcome" where
  "init_schema db =
    (let current_version = (if versions db = [] then 0 else Max (set (versions db)))
     in and_then (if current_version = 0 then create_schema db else Ok db) (\<lambda>db1.
        let db2 = (if current_version > 0 \<and> current_version < 40
                   then db1\<lparr>vms_columns := add_columns ''manifest_version'' [''manifest_version''] (vms_columns db1),
                            versions := versions db1 @ [40]\<rparr>
                   else db1);
            db3 = (if current_version > 0 \<and> current_version < 39
                   then db2\<lparr>allowlist_columns :=
                              add_columns ''inspect_mode'' [''inspect_mode'', ''is_system''] (allowlist_columns db2),
                            versions := versions db2 @ [39]\<rparr>
                   else db2)
        in Ok db3))"

text \<open>The columns that the statements on \<open>vms\<close> name.\<close>

definition vms_ready :: "vm_db \<Rightarrow> bool" where
  "vms_ready db \<longleftrightarrow> set VMS_COLUMNS \<subseteq> set (vms_columns db) \<and> ''manifest_version'' \<in> set (vms_columns db)"


section \<open>VMs\<close>

definition has_vm :: "vm_db \<Rightarrow> string \<Rightarrow> bool" where
  "has_vm db vid \<longleftrightarrow> vid \<in> r_id ` set (vms db)"

definition numbered :: "string \<Rightarrow> nat \<Rightarrow> string" where
  "numbered base i = base @ '' ('' @ nat_digits i @ '')''"

lemma inj_numbered: "inj (numbered base)"
proof (rule injI)
  fix i j assume "numbered base i = numbered base j"
  then have "nat_digits i = nat_digits j"
    by (simp add: numbered_def)
  then show "i = j"
    by (metis digits_value_nat_digits)
qed

definition taken_from :: "string \<Rightarrow> string list \<Rightarrow> nat \<Rightarrow> nat set" where
  "taken_from base names i = {j. i \<le> j \<and> numbered base j \<in> set names}"

lemma finite_taken_from [simp]: "finite (taken_from base names i)"
proof -
  have "finite (numbered base -` set names)"
    by (rule finite_vimageI [OF finite_set inj_numbered])
  then show ?thesis
    by (rule rev_finite_subset) (auto simp: taken_from_def)
qed

lemma taken_from_less:
  "numbered base i \<in> set names \<Longrightarrow> card (taken_from base names (Suc i)) < card (taken_from base names i)"
proof (rule psubset_card_mono [OF finite_taken_from psubsetI])
  assume "numbered base i \<in> set names"
  then have "i \<in> taken_from base names i" "i \<notin> taken_from base names (Suc i)"
    by (simp_all add: taken_from_def)
  then show "taken_from base names (Suc i) \<noteq> taken_from base names i"
    by blast
qed (auto simp: taken_from_def)

function first_free :: "string \<Rightarrow> string list \<Rightarrow> nat \<Rightarrow> string" where
  "first_free base names i =
    (if numbered base i \<notin> set names then numbered base i else first_free base names (Suc i))"
  by auto

termination first_free
  by (relation "measure (\<lambda>(base, names, i). card (taken_from base names i))") (auto simp: taken_from_less)

declare first_free.simps [simp del]

definition unique_vm_name :: "vm_db \<Rightarrow> string \<Rightarrow> string" where
  "unique_vm_name db base_name =
    (let names = map r_name (vms db)
     in if base_name \<notin> set names then base_name else first_free base_name names 1)"

definition insert_admin_row :: "string \<Rightarrow> string \<Rightarrow> string \<Rightarrow> vm_db \<Rightarrow> vm_db" where
  "insert_admin_row vm url label db =
    (let t = tbl_insert \<lparr>au_vm = vm, au_url = url, au_label = label\<rparr> (vm_admin_urls db)
     in db\<lparr>vm_admin_urls := t, last_insert_rowid := seq t\<rparr>)"

definition insert_vm ::
  "string \<Rightarrow> VmRecord \<Rightarrow> (string \<times> string) list \<Rightarrow> vm_db \<Rightarrow> vm_db \<times> (db_error, string) outcome" where
  "insert_vm now r admin_urls db =
    (if \<not> vms_ready db \<or> has_vm db (r_id r) then (db, Err SqlError)
     else
       let db1 = db\<lparr>vms := vms db @ [r\<lparr>r_created_at := now\<rparr>]\<rparr>
       in (foldl (\<lambda>d (url, label). if url \<noteq> [] then insert_admin_row (r_id r) url label d else d) db1 admin_urls,
           Ok now))"

definition update_vm :: "VmRecord \<Rightarrow> vm_db \<Rightarrow> vm_db \<times> (db_error, unit) outcome" where
  "update_vm r db =
    (if has_vm db (r_id r)
     then (db\<lparr>vms := map (\<lambda>v. if r_id v = r_id r
              then v\<lparr>r_name := r_name r, r_disk_image := r_disk_image r, r_kernel := r_kernel r,
                     r_initrd := r_initrd r, r_append := r_append r, r_memory_mb := r_memory_mb r,
                     r_cpus := r_cpus r, r_is_default := r_is_default r, r_description := r_description r\<rparr>
              else v) (vms db)\<rparr>, Ok ())
     else (db, Err NotFound))"

definition delete_vm :: "string \<Rightarrow> vm_db \<Rightarrow> vm_db \<times> (db_error, unit) outcome" where
  "delete_vm vid db =
    (if has_vm db vid
     then (db\<lparr>vms := filter (\<lambda>v. r_id v \<noteq> vid) (vms db),
              vm_admin_urls := tbl_delete (\<lambda>e. au_vm (snd e) = vid) (vm_admin_urls db),
              port_mappings := tbl_delete (\<lambda>e. pm_vm (snd e) = vid) (port_mappings db),
              file_mappings := tbl_delete (\<lambda>e. fm_vm (snd e) = vid) (file_mappings db),
              installed_apps := tbl_delete (\<lambda>e. ia_vm (snd e) = vid) (installed_apps db),
              function_keys := tbl_delete (\<lambda>e. fk_vm (snd e) = vid) (function_keys db)\<rparr>, Ok ())
     else (db, Err NotFound))"

definition get_vm :: "string \<Rightarrow> vm_db \<Rightarrow> (db_error, VmRecord option) outcome" where
  "get_vm vid db = (if vms_ready db then Ok (find (\<lambda>v. r_id v = vid) (vms db)) else Err SqlError)"

definition list_vms :: "vm_db \<Rightarrow> (db_error, VmRecord list) outcome" where
  "list_vms db = (if vms_ready db then Ok (sort_key r_created_at (vms db)) else Err SqlError)"

definition get_default_vm :: "vm_db \<Rightarrow> (db_error, VmRecord option) outcome" where
  "get_default_vm db = (if vms_ready db then Ok (find r_is_default (vms db)) else Err SqlError)"

definition insert_vm_admin_url ::
  "string \<Rightarrow> string \<Rightarrow> string \<Rightarrow> vm_db \<Rightarrow> vm_db \<times> (db_error, nat) outcome" where
  "insert_vm_admin_url vm url label db =
    (if has_vm db vm then let db' = insert_admin_row vm url label db in (db', Ok (last_insert_rowid db'))
     else (db, Err SqlError))"

definition delete_vm_admin_url :: "nat \<Rightarrow> vm_db \<Rightarrow> vm_db \<times> (db_error, unit) outcome" where
  "delete_vm_admin_url vid db =
    (if tbl_ex (\<lambda>e. fst e = vid) (vm_admin_urls db)
     then (db\<lparr>vm_admin_urls := tbl_delete (\<lambda>e. fst e = vid) (vm_admin_urls db)\<rparr>, Ok ())
     else (db, Err NotFound))"

definition list_vm_admin_urls :: "string \<Rightarrow> vm_db \<Rightarrow> (nat \<times> AdminUrlRecord) list" where
  "list_vm_admin_urls vm db = sort_key fst (filter (\<lambda>e. au_vm (snd e) = vm) (rows (vm_admin_urls db)))"

definition update_vm_last_boot :: "string \<Rightarrow> string \<Rightarrow> vm_db \<Rightarrow> vm_db \<times> (db_error, string) outcome" where
  "update_vm_last_boot now vid db =
    (if has_vm db vid
     then (db\<lparr>vms := map (\<lambda>v. if r_id v = vid then v\<lparr>r_last_boot_at := Some now\<rparr> else v) (vms db)\<rparr>, Ok now)
     else (db, Err NotFound))"

definition set_default_vm :: "string \<Rightarrow> vm_db \<Rightarrow> vm_db \<times> (db_error, unit) outcome" where
  "set_default_vm vid db =
    (let db1 = db\<lparr>vms := map (\<lambda>v. v\<lparr>r_is_default := False\<rparr>) (vms db)\<rparr>;
         db2 = db1\<lparr>vms := map (\<lambda>v. if r_id v = vid then v\<lparr>r_is_default := True\<rparr> else v) (vms db1)\<rparr>
     in if has_vm db vid then (db2, Ok ()) else (db1, Err NotFound))"


section \<open>Port and file mappings\<close>

text \<open>An ignored insertion leaves the last row id of the connection as it was.\<close>

definition insert_port_mapping ::
  "string \<Rightarrow> u16 \<Rightarrow> u16 \<Rightarrow> string \<Rightarrow> vm_db \<Rightarrow> vm_db \<times> (db_error, nat) outcome" where
  "insert_port_mapping vm hp vp label db =
    (if tbl_ex (\<lambda>e. pm_vm (snd e) = vm \<and> pm_host_port (snd e) = hp) (port_mappings db)
     then (db, Ok (last_insert_rowid db))
     else if \<not> has_vm db vm then (db, Err SqlError)
     else let t = tbl_insert \<lparr>pm_vm = vm, pm_host_port = hp, pm_vm_port = vp, pm_label = label\<rparr> (port_mappings db)
          in (db\<lparr>port_mappings := t, last_insert_rowid := seq t\<rparr>, Ok (seq t)))"

definition delete_port_mapping :: "u16 \<Rightarrow> vm_db \<Rightarrow> vm_db \<times> (db_error, unit) outcome" where
  "delete_port_mapping hp db =
    (if tbl_ex (\<lambda>e. pm_host_port (snd e) = hp) (port_mappings db)
     then (db\<lparr>port_mappings := tbl_delete (\<lambda>e. pm_host_port (snd e) = hp) (port_mappings db)\<rparr>, Ok ())
     else (db, Err NotFound))"

definition list_port_mappings :: "string \<Rightarrow> vm_db \<Rightarrow> PortMappingConfig list" where
  "list_port_mappings vm db = map snd (filter (\<lambda>e. pm_vm (snd e) = vm) (rows (port_mappings db)))"

definition insert_file_row :: "FileMappingRecord \<Rightarrow> vm_db \<Rightarrow> vm_db \<times> (db_error, nat) outcome" where
  "insert_file_row r db =
    (if \<not> has_vm db (fm_vm r)
        \<or> tbl_ex (\<lambda>e. fm_vm (snd e) = fm_vm r \<and> fm_vm_mount (snd e) = fm_vm_mount r) (file_mappings db)
     then (db, Err SqlError)
     else let t = tbl_insert r (file_mappings db)
          in (db\<lparr>file_mappings := t, last_insert_rowid := seq t\<rparr>, Ok (seq t)))"

definition insert_file_mapping ::
  "string \<Rightarrow> string \<Rightarrow> string \<Rightarrow> bool \<Rightarrow> string \<Rightarrow> vm_db \<Rightarrow> vm_db \<times> (db_error, nat) outcome" where
  "insert_file_mapping vm host_path vm_mount read_only label db =
    insert_file_row \<lparr>fm_vm = vm, fm_host_path = host_path, fm_vm_mount = vm_mount, fm_read_only = read_only,
      fm_label = label, fm_sort_order = 0, fm_is_active = True\<rparr> db"

definition delete_file_mapping :: "nat \<Rightarrow> vm_db \<Rightarrow> vm_db \<times> (db_error, unit) outcome" where
  "delete_file_mapping vid db =
    (if tbl_ex (\<lambda>e. fst e = vid) (file_mappings db)
     then (db\<lparr>file_mappings := tbl_delete (\<lambda>e. fst e = vid) (file_mappings db)\<rparr>, Ok ())
     else (db, Err NotFound))"

definition list_file_mappings :: "string \<Rightarrow> vm_db \<Rightarrow> (nat \<times> FileMappingRecord) list" where
  "list_file_mappings vm db =
    sort_key (\<lambda>e. fm_sort_order (snd e)) (sort_key fst (filter (\<lambda>e. fm_vm (snd e) = vm) (rows (file_mappings db))))"


section \<open>Apps and function keys\<close>

definition upsert_installed_app ::
  "string \<Rightarrow> string \<Rightarrow> string \<Rightarrow> string \<Rightarrow> string \<Rightarrow> vm_db \<Rightarrow> vm_db \<times> (db_error, nat) outcome" where
  "upsert_installed_app now vm app name version db =
    (let same = (\<lambda>e. ia_vm (snd e) = vm \<and> ia_app (snd e) = app)
     in if \<not> has_vm db vm then (db, Err SqlError)
        else if tbl_ex same (installed_apps db)
        then (db\<lparr>installed_apps := (installed_apps db)\<lparr>rows := map (\<lambda>e. if same e
                then (fst e, (snd e)\<lparr>ia_name := name, ia_version := version, ia_installed_at := now\<rparr>) else e)
                (rows (installed_apps db))\<rparr>\<rparr>, Ok (last_insert_rowid db))
        else let t = tbl_insert \<lparr>ia_vm = vm, ia_app = app, ia_name = name, ia_version = version,
                                 ia_installed_at = now\<rparr> (installed_apps db)
             in (db\<lparr>installed_apps := t, last_insert_rowid := seq t\<rparr>, Ok (seq t)))"

definition list_installed_apps :: "string \<Rightarrow> vm_db \<Rightarrow> (nat \<times> InstalledAppRecord) list" where
  "list_installed_apps vm db =
    rev (sort_key (\<lambda>e. ia_installed_at (snd e)) (rev (filter (\<lambda>e. ia_vm (snd e) = vm) (rows (installed_apps db)))))"

definition delete_installed_app :: "string \<Rightarrow> string \<Rightarrow> vm_db \<Rightarrow> vm_db \<times> (db_error, unit) outcome" where
  "delete_installed_app vm app db =
    (let same = (\<lambda>e. ia_vm (snd e) = vm \<and> ia_app (snd e) = app)
     in if tbl_ex same (installed_apps db)
        then (db\<lparr>installed_apps := tbl_delete same (installed_apps db)\<rparr>, Ok ())
        else (db, Err NotFound))"

definition insert_function_key ::
  "string \<Rightarrow> string \<Rightarrow> string \<Rightarrow> string option \<Rightarrow> string option \<Rightarrow> vm_db \<Rightarrow> vm_db \<times> (db_error, nat) outcome" where
  "insert_function_key vm label bash app app_name db =
    (if has_vm db vm
     then let t = tbl_insert \<lparr>fk_vm = vm, fk_label = label, fk_bash = bash, fk_app_id = app, fk_app_name = app_name,
                              fk_sort_order = 0\<rparr> (function_keys db)
          in (db\<lparr>function_keys := t, last_insert_rowid := seq t\<rparr>, Ok (seq t))
     else (db, Err SqlError))"

definition delete_function_key :: "nat \<Rightarrow> vm_db \<Rightarrow> vm_db \<times> (db_error, unit) outcome" where
  "delete_function_key vid db =
    (if tbl_ex (\<lambda>e. fst e = vid) (function_keys db)
     then (db\<lparr>function_keys := tbl_delete (\<lambda>e. fst e = vid) (function_keys db)\<rparr>, Ok ())
     else (db, Err NotFound))"

definition delete_function_keys_by_app :: "string \<Rightarrow> string \<Rightarrow> vm_db \<Rightarrow> vm_db" where
  "delete_function_keys_by_app vm app db =
    db\<lparr>function_keys := tbl_delete (\<lambda>e. fk_vm (snd e) = vm \<and> fk_app_id (snd e) = Some app) (function_keys db)\<rparr>"

definition delete_all_function_keys_by_app :: "string \<Rightarrow> vm_db \<Rightarrow> vm_db" where
  "delete_all_function_keys_by_app app db =
    db\<lparr>function_keys := tbl_delete (\<lambda>e. fk_app_id (snd e) = Some app) (function_keys db)\<rparr>"

definition list_function_keys :: "string \<Rightarrow> vm_db \<Rightarrow> (nat \<times> FunctionKeyRecord) list" where
  "list_function_keys vm db =
    sort_key (\<lambda>e. fk_sort_order (snd e)) (sort_key fst (filter (\<lambda>e. fk_vm (snd e) = vm) (rows (function_keys db))))"


section \<open>Settings, routes and credentials\<close>

definition set_setting :: "string \<Rightarrow> string \<Rightarrow> vm_db \<Rightarrow> vm_db" where
  "set_setting k v db = db\<lparr>settings := put_setting k v (settings db)\<rparr>"

definition get_setting :: "string \<Rightarrow> vm_db \<Rightarrow> string option" where
  "get_setting k db = map_of (settings db) k"

definition bool_str :: "bool \<Rightarrow> string" where
  "bool_str b = (if b then ''true'' else ''false'')"

definition get_auto_update_check :: "vm_db \<Rightarrow> bool" where
  "get_auto_update_check db = (case get_setting ''auto_update_check'' db of Some v \<Rightarrow> v = ''true'' | None \<Rightarrow> True)"

definition set_auto_update_check :: "bool \<Rightarrow> vm_db \<Rightarrow> vm_db" where
  "set_auto_update_check enabled = set_setting ''auto_update_check'' (bool_str enabled)"

definition get_last_update_check :: "vm_db \<Rightarrow> string option" where
  "get_last_update_check = get_setting ''last_update_check''"

definition set_last_update_check :: "string \<Rightarrow> vm_db \<Rightarrow> vm_db" where
  "set_last_update_check = set_setting ''last_update_check''"

definition get_developer_mode :: "vm_db \<Rightarrow> bool" where
  "get_developer_mode db = (case get_setting ''developer_mode'' db of Some v \<Rightarrow> v = ''true'' | None \<Rightarrow> False)"

definition set_developer_mode :: "bool \<Rightarrow> vm_db \<Rightarrow> vm_db" where
  "set_developer_mode enabled = set_setting ''developer_mode'' (bool_str enabled)"

definition get_cdp_browser :: "vm_db \<Rightarrow> string" where
  "get_cdp_browser db = (case get_setting ''cdp_browser'' db of Some v \<Rightarrow> v | None \<Rightarrow> ''chrome'')"

definition set_cdp_browser :: "string \<Rightarrow> vm_db \<Rightarrow> vm_db" where
  "set_cdp_browser = set_setting ''cdp_browser''"

definition get_cdp_open_mode :: "vm_db \<Rightarrow> string" where
  "get_cdp_open_mode db = (case get_setting ''cdp_open_mode'' db of Some v \<Rightarrow> v | None \<Rightarrow> ''auto'')"

definition set_cdp_open_mode :: "string \<Rightarrow> vm_db \<Rightarrow> vm_db" where
  "set_cdp_open_mode = set_setting ''cdp_open_mode''"

definition insert_auth_route :: "string \<Rightarrow> string \<Rightarrow> string \<Rightarrow> vm_db \<Rightarrow> vm_db" where
  "insert_auth_route pattern kind account db =
    db\<lparr>auth_routes := filter (\<lambda>e. fst e \<noteq> pattern) (auth_routes db) @ [(pattern, kind, account)]\<rparr>"

definition delete_auth_route :: "string \<Rightarrow> vm_db \<Rightarrow> vm_db" where
  "delete_auth_route pattern db = db\<lparr>auth_routes := filter (\<lambda>e. fst e \<noteq> pattern) (auth_routes db)\<rparr>"

definition list_auth_routes :: "vm_db \<Rightarrow> (string \<times> string \<times> string) list" where
  "list_auth_routes db = sort_key fst (auth_routes db)"

definition upsert_credential_meta ::
  "string \<Rightarrow> string \<Rightarrow> string option \<Rightarrow> string option \<Rightarrow> vm_db \<Rightarrow> vm_db" where
  "upsert_credential_meta account kind display meta db =
    (let r = \<lparr>cm_account = account, cm_delegator_kind = kind, cm_display_name = display, cm_metadata_json = meta\<rparr>
     in if account \<in> cm_account ` set (credential_meta db)
        then db\<lparr>credential_meta := map (\<lambda>c. if cm_account c = account then r else c) (credential_meta db)\<rparr>
        else db\<lparr>credential_meta := credential_meta db @ [r]\<rparr>)"

definition delete_credential_meta :: "string \<Rightarrow> vm_db \<Rightarrow> vm_db" where
  "delete_credential_meta account db =
    db\<lparr>credential_meta := filter (\<lambda>c. cm_account c \<noteq> account) (credential_meta db)\<rparr>"

definition list_credential_meta :: "vm_db \<Rightarrow> CredentialMetaRecord list" where
  "list_credential_meta db = sort_key cm_account (credential_meta db)"


section \<open>Import of the legacy configuration\<close>

record FileMappingConfig =
  lf_vm :: string
  lf_host_path :: string
  lf_vm_mount :: string
  lf_read_only :: bool
  lf_label :: string

record LegacyAppConfig =
  l_disk_image :: string
  l_kernel :: "string option"
  l_initrd :: "string option"
  l_append :: "string option"
  l_memory_mb :: u32
  l_cpus :: u32
  l_port_mappings :: "PortMappingConfig list"
  l_file_mappings :: "FileMappingConfig list"
  l_active_file_mapping :: "string \<rightharpoonup> nat"
  l_domains :: "string list"
  l_whitelist_mode :: string

definition legacy_vm :: "string \<Rightarrow> string \<Rightarrow> LegacyAppConfig \<Rightarrow> VmRecord" where
  "legacy_vm now vid l =
    \<lparr>r_id = vid, r_name = ''Alpine Linux'', r_disk_image = l_disk_image l, r_kernel = l_kernel l,
     r_initrd = l_initrd l, r_append = l_append l, r_memory_mb = l_memory_mb l, r_cpus = l_cpus l,
     r_is_default = True, r_description = None, r_last_boot_at = None, r_created_at = now, r_admin_url = None,
     r_admin_label = None, r_base_os = None, r_base_os_version = None, r_target_platform = None,
     r_manifest_version = None\<rparr>"

definition migrate_file :: "string \<Rightarrow> LegacyAppConfig \<Rightarrow> nat \<Rightarrow> FileMappingConfig \<Rightarrow> FileMappingRecord" where
  "migrate_file vid l i f =
    \<lparr>fm_vm = vid, fm_host_path = lf_host_path f, fm_vm_mount = lf_vm_mount f, fm_read_only = lf_read_only f,
     fm_label = lf_label f, fm_sort_order = int i,
     fm_is_active = (l_active_file_mapping l (lf_vm f) = Some i \<or> l_active_file_mapping l vid = Some i)\<rparr>"

fun migrate_files ::
  "string \<Rightarrow> LegacyAppConfig \<Rightarrow> nat \<Rightarrow> FileMappingConfig list \<Rightarrow> vm_db \<Rightarrow> (db_error, vm_db) outcome" where
  "migrate_files vid l i [] db = Ok db"
| "migrate_files vid l i (f # fs) db =
    (case insert_file_row (migrate_file vid l i f) db of
       (db', Ok _) \<Rightarrow> migrate_files vid l (Suc i) fs db'
     | (_, Err e) \<Rightarrow> Err e
     | (_, Panic) \<Rightarrow> Panic)"

definition ignore_insert_domain :: "store \<Rightarrow> string \<Rightarrow> store" where
  "ignore_insert_domain s d =
    (if has_row s d then s
     else s\<lparr>domain_allowlist := domain_allowlist s @ [\<lparr>ar_domain = d, ar_mode = ''inspect'', ar_system = False\<rparr>]\<rparr>)"

text \<open>
  The file system: \<open>content\<close> is the contents of \<open>config.json\<close>, if it exists, \<open>parse\<close> is
  \<open>serde_json\<close>, \<open>rename_ok\<close> whether the file can be renamed; the transaction is rolled back when a
  statement of it fails.  The second component of the result says whether the file is still there.
\<close>

definition migrate_from_json ::
  "(string \<Rightarrow> LegacyAppConfig option) \<Rightarrow> bool \<Rightarrow> string \<Rightarrow> string \<Rightarrow> string option \<Rightarrow> vm_db \<times> store
    \<Rightarrow> (vm_db \<times> store) \<times> bool \<times> (db_error, bool) outcome" where
  "migrate_from_json parse rename_ok now vid content st =
    (let (db, ds) = st in
     case content of
       None \<Rightarrow> (st, False, Ok False)
     | Some text \<Rightarrow>
         (case parse text of
            None \<Rightarrow> (st, True, Err SqlError)
          | Some l \<Rightarrow>
              if vms db \<noteq> [] then (st, True, Ok False)
              else
                let db1 = db\<lparr>vms := [legacy_vm now vid l]\<rparr>;
                    db2 = foldl (\<lambda>d p. fst (insert_port_mapping vid (pm_host_port p) (pm_vm_port p) (pm_label p) d))
                            db1 (l_port_mappings l)
                in case migrate_files vid l 0 (l_file_mappings l) db2 of
                     Ok db3 \<Rightarrow>
                       ((set_setting ''whitelist_mode'' (l_whitelist_mode l) db3, foldl ignore_insert_domain ds (l_domains l)),
                        \<not> rename_ok, if rename_ok then Ok True else Err SqlError)
                   | Err e \<Rightarrow> (st, True, Err e)
                   | Panic \<Rightarrow> (st, True, Panic)))"


section \<open>Consistency of the tables\<close>

text \<open>
  A table whose rows belong to VMs: keys are distinct and were given out, owners are VMs of
  \<open>ids\<close>, and the columns of the \<open>UNIQUE\<close> constraint identify a row.
\<close>

definition child_wf :: "('r \<Rightarrow> string) \<Rightarrow> (nat \<times> 'r \<Rightarrow> 'k) \<Rightarrow> string set \<Rightarrow> 'r tbl \<Rightarrow> bool" where
  "child_wf owner slot ids t \<longleftrightarrow>
    distinct (map fst (rows t)) \<and> (\<forall>e \<in> set (rows t). fst e \<le> seq t \<and> owner (snd e) \<in> ids)
    \<and> distinct (map slot (rows t))"

lemma child_wf_empty [simp]: "child_wf owner slot ids tbl_empty"
  by (simp add: child_wf_def tbl_empty_def)

lemma seq_fresh: "child_wf owner slot ids t \<Longrightarrow> Suc (seq t) \<notin> fst ` set (rows t)"
  unfolding child_wf_def by fastforce

lemma child_wf_insert:
  "child_wf owner slot ids t \<Longrightarrow> owner r \<in> ids \<Longrightarrow> slot (Suc (seq t), r) \<notin> slot ` set (rows t) \<Longrightarrow>
    child_wf owner slot ids (tbl_insert r t)"
  using seq_fresh [of owner slot ids t] by (simp add: child_wf_def tbl_insert_def le_SucI)

lemma child_wf_insert_key:
  "child_wf owner fst ids t \<Longrightarrow> owner r \<in> ids \<Longrightarrow> child_wf owner fst ids (tbl_insert r t)"
  using seq_fresh [of owner fst ids t] by (simp add: child_wf_insert)

lemma child_wf_delete: "child_wf owner slot ids t \<Longrightarrow> child_wf owner slot ids (tbl_delete P t)"
  unfolding child_wf_def tbl_delete_def by (auto simp: distinct_map_filter)

lemma child_wf_cascade:
  "child_wf owner slot ids t \<Longrightarrow> child_wf owner slot (ids - {v}) (tbl_delete (\<lambda>e. owner (snd e) = v) t)"
  unfolding child_wf_def tbl_delete_def by (auto simp: distinct_map_filter)

lemma child_wf_mono: "child_wf owner slot ids t \<Longrightarrow> ids \<subseteq> ids' \<Longrightarrow> child_wf owner slot ids' t"
  unfolding child_wf_def by blast

lemma child_wf_map:
  "child_wf owner slot ids t \<Longrightarrow> (\<And>e. fst (f e) = fst e \<and> owner (snd (f e)) = owner (snd e) \<and> slot (f e) = slot e) \<Longrightarrow>
    child_wf owner slot ids (t\<lparr>rows := map f (rows t)\<rparr>)"
  unfolding child_wf_def by (simp add: comp_def)

definition db_wf :: "vm_db \<Rightarrow> bool" where
  "db_wf db \<longleftrightarrow>
    (let ids = r_id ` set (vms db)
     in distinct (map r_id (vms db)) \<and> distinct (map fst (settings db))
        \<and> distinct (map fst (auth_routes db)) \<and> distinct (map cm_account (credential_meta db))
        \<and> child_wf au_vm fst ids (vm_admin_urls db)
        \<and> child_wf pm_vm (\<lambda>e. (pm_vm (snd e), pm_host_port (snd e))) ids (port_mappings db)
        \<and> child_wf fm_vm (\<lambda>e. (fm_vm (snd e), fm_vm_mount (snd e))) ids (file_mappings db)
        \<and> child_wf ia_vm (\<lambda>e. (ia_vm (snd e), ia_app (snd e))) ids (installed_apps db)
        \<and> child_wf fk_vm fst ids (function_keys db))"

lemma db_wf_vms_update:
  assumes "db_wf db" "\<And>v. r_id (f v) = r_id v"
  shows "db_wf (db\<lparr>vms := map f (vms db)\<rparr>)"
  using assms by (simp add: db_wf_def Let_def comp_def image_image)

lemma db_wf_admin_row:
  assumes "db_wf db" "has_vm db vm"
  shows "db_wf (insert_admin_row vm url label db)"
  using assms by (auto simp: db_wf_def Let_def insert_admin_row_def has_vm_def intro!: child_wf_insert_key)

lemma has_vm_admin_row [simp]: "has_vm (insert_admin_row vm url label db) v = has_vm db v"
  by (simp add: insert_admin_row_def has_vm_def Let_def)

lemma db_wf_admin_rows:
  "db_wf db \<Longrightarrow> has_vm db vm \<Longrightarrow>
    db_wf (foldl (\<lambda>d (url, label). if url \<noteq> [] then insert_admin_row vm url label d else d) db urls)"
  by (induction urls arbitrary: db) (auto simp: db_wf_admin_row)

lemma db_wf_insert_vm: "db_wf db \<Longrightarrow> db_wf (fst (insert_vm now r urls db))"
proof (cases "\<not> vms_ready db \<or> has_vm db (r_id r)")
  case False
  assume "db_wf db"
  with False have "db_wf (db\<lparr>vms := vms db @ [r\<lparr>r_created_at := now\<rparr>]\<rparr>)"
    by (auto simp: db_wf_def Let_def has_vm_def intro: child_wf_mono)
  then show ?thesis
    using False db_wf_admin_rows [of "db\<lparr>vms := vms db @ [r\<lparr>r_created_at := now\<rparr>]\<rparr>" "r_id r" urls]
    by (simp add: insert_vm_def has_vm_def Let_def)
qed (auto simp: insert_vm_def)

lemma remaining_ids: "r_id ` {x \<in> set vs. r_id x \<noteq> v} = r_id ` set vs - {v}"
  by auto

lemma db_wf_delete_vm: "db_wf db \<Longrightarrow> db_wf (fst (delete_vm v db))"
  by (auto simp: db_wf_def delete_vm_def Let_def remaining_ids distinct_map_filter intro!: child_wf_cascade)

datatype vm_op =
    OpenDb
  | InsertVm string VmRecord "(string \<times> string) list"
  | UpdateVm VmRecord
  | DeleteVm string
  | InsertUrl string string string
  | DeleteUrl nat
  | LastBoot string string
  | SetDefault string
  | InsertPort string u16 u16 string
  | DeletePort u16
  | InsertFile string string string bool string
  | DeleteFile nat
  | UpsertApp string string string string string
  | DeleteApp string string
  | InsertKey string string string "string option" "string option"
  | DeleteKey nat
  | DeleteAppKeys string string
  | DeleteAllAppKeys string
  | SetSetting string string
  | InsertRoute string string string
  | DeleteRoute string
  | UpsertCredential string string "string option" "string option"
  | DeleteCredential string

fun run_vm_op :: "vm_db \<Rightarrow> vm_op \<Rightarrow> vm_db" where
  "run_vm_op db OpenDb = (case init_schema db of Ok db' \<Rightarrow> db' | _ \<Rightarrow> db)"
| "run_vm_op db (InsertVm now r urls) = fst (insert_vm now r urls db)"
| "run_vm_op db (UpdateVm r) = fst (update_vm r db)"
| "run_vm_op db (DeleteVm v) = fst (delete_vm v db)"
| "run_vm_op db (InsertUrl v u l) = fst (insert_vm_admin_url v u l db)"
| "run_vm_op db (DeleteUrl n) = fst (delete_vm_admin_url n db)"
| "run_vm_op db (LastBoot now v) = fst (update_vm_last_boot now v db)"
| "run_vm_op db (SetDefault v) = fst (set_default_vm v db)"
| "run_vm_op db (InsertPort v h p l) = fst (insert_port_mapping v h p l db)"
| "run_vm_op db (DeletePort h) = fst (delete_port_mapping h db)"
| "run_vm_op db (InsertFile v h m r l) = fst (insert_file_mapping v h m r l db)"
| "run_vm_op db (DeleteFile n) = fst (delete_file_mapping n db)"
| "run_vm_op db (UpsertApp now v a n ver) = fst (upsert_installed_app now v a n ver db)"
| "run_vm_op db (DeleteApp v a) = fst (delete_installed_app v a db)"
| "run_vm_op db (InsertKey v l b a n) = fst (insert_function_key v l b a n db)"
| "run_vm_op db (DeleteKey n) = fst (delete_function_key n db)"
| "run_vm_op db (DeleteAppKeys v a) = delete_function_keys_by_app v a db"
| "run_vm_op db (DeleteAllAppKeys a) = delete_all_function_keys_by_app a db"
| "run_vm_op db (SetSetting k v) = set_setting k v db"
| "run_vm_op db (InsertRoute p k a) = insert_auth_route p k a db"
| "run_vm_op db (DeleteRoute p) = delete_auth_route p db"
| "run_vm_op db (UpsertCredential a k d m) = upsert_credential_meta a k d m db"
| "run_vm_op db (DeleteCredential a) = delete_credential_meta a db"

lemma db_wf_absent: "db_wf db_absent"
  by (simp add: db_wf_def db_absent_def)

lemma map_fst_put_setting: "distinct (map fst kvs) \<Longrightarrow> distinct (map fst (put_setting k v kvs))"
proof -
  have keys: "map (fst \<circ> (\<lambda>e. if fst e = k then (k, v) else e)) kvs = map fst kvs"
    by simp
  show "distinct (map fst kvs) \<Longrightarrow> ?thesis"
    unfolding put_setting_def by (simp add: keys)
qed

lemma db_wf_open: "db_wf db \<Longrightarrow> init_schema db = Ok db' \<Longrightarrow> db_wf db'"
proof -
  assume db: "db_wf db" and "init_schema db = Ok db'"
  have schema [simp]: "db_wf (d\<lparr>vms_columns := c, versions := v\<rparr>) = db_wf d"
    "db_wf (d\<lparr>allowlist_columns := c, versions := v\<rparr>) = db_wf d" "db_wf (d\<lparr>vms_columns := c\<rparr>) = db_wf d" for d c v
    by (simp_all add: db_wf_def Let_def)
  have "create_schema db = Ok db1 \<Longrightarrow> db_wf db1" for db1
    using db by (auto simp: create_schema_def db_wf_def Let_def split: if_splits)
  then show "db_wf db'"
    using db \<open>init_schema db = Ok db'\<close> by (simp add: init_schema_def Let_def split: if_splits) auto
qed

lemma db_wf_port: "db_wf db \<Longrightarrow> db_wf (fst (insert_port_mapping v h p l db))"
  by (auto simp: db_wf_def Let_def insert_port_mapping_def has_vm_def tbl_ex_def list_ex_iff intro!: child_wf_insert)

lemma db_wf_file: "db_wf db \<Longrightarrow> db_wf (fst (insert_file_row r db))"
  by (auto simp: db_wf_def Let_def insert_file_row_def has_vm_def tbl_ex_def list_ex_iff intro!: child_wf_insert)

lemma db_wf_app: "db_wf db \<Longrightarrow> db_wf (fst (upsert_installed_app now v a n ver db))"
  by (auto simp: db_wf_def Let_def upsert_installed_app_def has_vm_def tbl_ex_def list_ex_iff
      intro!: child_wf_insert child_wf_map)

lemma db_wf_credential: "db_wf db \<Longrightarrow> db_wf (upsert_credential_meta a k d m db)"
proof -
  let ?r = "\<lparr>cm_account = a, cm_delegator_kind = k, cm_display_name = d, cm_metadata_json = m\<rparr>"
  have keys: "map (cm_account \<circ> (\<lambda>c. if cm_account c = a then ?r else c)) cs = map cm_account cs" for cs
    by simp
  show "db_wf db \<Longrightarrow> ?thesis"
    unfolding db_wf_def Let_def upsert_credential_meta_def by (simp add: keys)
qed

lemma db_wf_set_default: "db_wf db \<Longrightarrow> db_wf (fst (set_default_vm v db))"
proof -
  assume db: "db_wf db"
  then have 1: "db_wf (db\<lparr>vms := map (\<lambda>v. v\<lparr>r_is_default := False\<rparr>) (vms db)\<rparr>)"
    by (intro db_wf_vms_update) simp_all
  then have "db_wf (db\<lparr>vms := map (\<lambda>x. if r_id x = v then x\<lparr>r_is_default := True\<rparr> else x)
      (map (\<lambda>v. v\<lparr>r_is_default := False\<rparr>) (vms db))\<rparr>)"
    using db_wf_vms_update [OF 1, of "\<lambda>x. if r_id x = v then x\<lparr>r_is_default := True\<rparr> else x"] by simp
  with 1 show ?thesis
    by (simp add: set_default_vm_def Let_def)
qed

lemma db_wf_update: "db_wf db \<Longrightarrow> db_wf (fst (update_vm r db))"
  by (auto simp: update_vm_def intro!: db_wf_vms_update)

lemma db_wf_last_boot: "db_wf db \<Longrightarrow> db_wf (fst (update_vm_last_boot now v db))"
  by (auto simp: update_vm_last_boot_def intro!: db_wf_vms_update)

lemma db_wf_key: "db_wf db \<Longrightarrow> db_wf (fst (insert_function_key v l b a n db))"
  by (simp add: db_wf_def Let_def insert_function_key_def has_vm_def child_wf_insert_key)

lemma db_wf_deletes:
  assumes "db_wf db"
  shows "db_wf (fst (delete_vm_admin_url n db))" "db_wf (fst (delete_port_mapping h db))"
    "db_wf (fst (delete_file_mapping n db))" "db_wf (fst (delete_installed_app v a db))"
    "db_wf (fst (delete_function_key n db))" "db_wf (delete_function_keys_by_app v a db)"
    "db_wf (delete_all_function_keys_by_app a db)"
  using assms by (simp_all add: db_wf_def Let_def delete_vm_admin_url_def delete_port_mapping_def
      delete_file_mapping_def delete_installed_app_def delete_function_key_def delete_function_keys_by_app_def
      delete_all_function_keys_by_app_def child_wf_delete)

lemma db_wf_keyed:
  assumes "db_wf db"
  shows "db_wf (set_setting k v db)" "db_wf (insert_auth_route p k a db)" "db_wf (delete_auth_route p db)"
    "db_wf (delete_credential_meta a db)"
  using assms by (auto simp: db_wf_def Let_def set_setting_def insert_auth_route_def delete_auth_route_def
      delete_credential_meta_def map_fst_put_setting distinct_map_filter)

lemma db_wf_op:
  assumes "db_wf db"
  shows "db_wf (run_vm_op db op)"
proof (cases op)
  case OpenDb
  then show ?thesis using assms db_wf_open by (simp split: outcome.splits)
next
  case (InsertUrl v u l)
  then show ?thesis using assms db_wf_admin_row by (simp add: insert_vm_admin_url_def Let_def)
next
  case (InsertFile v h m r l)
  then show ?thesis using assms db_wf_file by (simp add: insert_file_mapping_def)
qed (simp_all add: assms db_wf_insert_vm db_wf_update db_wf_delete_vm db_wf_last_boot db_wf_set_default db_wf_port
    db_wf_app db_wf_key db_wf_deletes db_wf_keyed db_wf_credential)

lemma db_wf_ops: "db_wf db \<Longrightarrow> db_wf (foldl run_vm_op db ops)"
  by (induction ops arbitrary: db) (auto intro: db_wf_op)


section \<open>Properties\<close>


text \<open>the schema that opening a database for the first time creates lacks the column
  \<open>manifest_version\<close>, which the migration of that same run does not add: until the program is
  started again no VM can be inserted, read or listed.\<close>

theorem fresh_database_rejects_vms:
  "\<exists>db db2. init_schema db_absent = Ok db \<and> init_schema db = Ok db2
    \<and> insert_vm now r urls db = (db, Err SqlError) \<and> list_vms db = Err SqlError
    \<and> get_vm v db = Err SqlError \<and> get_default_vm db = Err SqlError
    \<and> list_vms db2 = Ok [] \<and> snd (insert_vm now r urls db2) = Ok now"
proof -
  let ?db = "db_absent\<lparr>vms_columns := VMS_COLUMNS, allowlist_columns := ALLOWLIST_COLUMNS,
       settings := [(''auto_update_check'', ''true''), (''developer_mode'', ''false'')], versions := [38]\<rparr>"
  let ?db2 = "?db\<lparr>vms_columns := VMS_COLUMNS @ [''manifest_version''], versions := [38, 40, 39]\<rparr>"
  have cols: "''manifest_version'' \<notin> set VMS_COLUMNS" "''inspect_mode'' \<in> set ALLOWLIST_COLUMNS"
    by (simp_all add: VMS_COLUMNS_def ALLOWLIST_COLUMNS_def)
  have "init_schema db_absent = Ok ?db" "init_schema ?db = Ok ?db2"
    using cols by (simp_all add: init_schema_def create_schema_def db_absent_def Let_def add_columns_def)
  moreover have "\<not> vms_ready ?db" "vms_ready ?db2"
    using cols by (auto simp: vms_ready_def)
  ultimately show ?thesis
    by (intro exI [of _ ?db] exI [of _ ?db2])
      (simp add: insert_vm_def list_vms_def get_vm_def get_default_vm_def has_vm_def Let_def db_absent_def)
qed

lemma first_free_least:
  "\<exists>n. i \<le> n \<and> first_free base names i = numbered base n \<and> numbered base n \<notin> set names
    \<and> (\<forall>j. i \<le> j \<and> j < n \<longrightarrow> numbered base j \<in> set names)"
proof (induction base names i rule: first_free.induct)
  case (1 base names i)
  show ?case
  proof (cases "numbered base i \<in> set names")
    case True
    then obtain n where n: "Suc i \<le> n" "first_free base names (Suc i) = numbered base n"
      "numbered base n \<notin> set names" "\<forall>j. Suc i \<le> j \<and> j < n \<longrightarrow> numbered base j \<in> set names"
      using 1 by blast
    then have "\<forall>j. i \<le> j \<and> j < n \<longrightarrow> numbered base j \<in> set names"
      using True by (metis Suc_leI le_neq_implies_less)
    with n True show ?thesis
      by (intro exI [of _ n]) (simp add: first_free.simps [of base names i])
  next
    case False
    then show ?thesis
      by (intro exI [of _ i]) (auto simp: first_free.simps [of base names i])
  qed
qed

lemma unique_name_fresh: "unique_vm_name db base \<notin> r_name ` set (vms db)"
proof -
  have "unique_vm_name db base \<notin> set (map r_name (vms db))"
    using first_free_least [of 1 base "map r_name (vms db)"] by (auto simp: unique_vm_name_def Let_def simp del: set_map)
  then show ?thesis
    by simp
qed

text \<open>the search for a free VM name ends, with a name no VM has: the base name itself when it is
  free, else the base name with the least free number from 1 on.\<close>

theorem unique_vm_name_free:
  "unique_vm_name db base \<notin> r_name ` set (vms db) \<and>
    (unique_vm_name db base = base \<or> (\<exists>n. 1 \<le> n \<and> unique_vm_name db base = numbered base n
      \<and> numbered base ` {1..<n} \<subseteq> r_name ` set (vms db) \<and> base \<in> r_name ` set (vms db)))"
proof (cases "base \<in> r_name ` set (vms db)")
  case True
  let ?names = "map r_name (vms db)"
  obtain n where "1 \<le> n" "first_free base ?names 1 = numbered base n" "numbered base n \<notin> set ?names"
    "\<forall>j. 1 \<le> j \<and> j < n \<longrightarrow> numbered base j \<in> set ?names"
    using first_free_least [of 1 base ?names] by blast
  then show ?thesis
    using True unfolding unique_vm_name_def Let_def by (intro conjI disjI2 exI [of _ n]) auto
qed (simp add: unique_vm_name_def)

text \<open>The rows of a table that belong to a VM.\<close>

definition rows_of :: "('r \<Rightarrow> string) \<Rightarrow> string \<Rightarrow> 'r tbl \<Rightarrow> (nat \<times> 'r) list" where
  "rows_of owner v t = filter (\<lambda>e. owner (snd e) = v) (rows t)"

lemma rows_of_cascade:
  "rows_of owner w (tbl_delete (\<lambda>e. owner (snd e) = v) t) = (if w = v then [] else rows_of owner w t)"
  by (auto simp: rows_of_def tbl_delete_def filter_empty_conv intro!: filter_cong)

text \<open>deleting a VM leaves no row of any table that belongs to it, and touches no row of
  another VM.\<close>

theorem delete_vm_exact:
  assumes "has_vm db v" "delete_vm v db = (db', res)"
  shows "res = Ok () \<and> \<not> has_vm db' v
    \<and> rows_of au_vm w (vm_admin_urls db') = (if w = v then [] else rows_of au_vm w (vm_admin_urls db))
    \<and> rows_of pm_vm w (port_mappings db') = (if w = v then [] else rows_of pm_vm w (port_mappings db))
    \<and> rows_of fm_vm w (file_mappings db') = (if w = v then [] else rows_of fm_vm w (file_mappings db))
    \<and> rows_of ia_vm w (installed_apps db') = (if w = v then [] else rows_of ia_vm w (installed_apps db))
    \<and> rows_of fk_vm w (function_keys db') = (if w = v then [] else rows_of fk_vm w (function_keys db))"
  using assms by (auto simp: delete_vm_def has_vm_def rows_of_cascade)

definition sample_vm :: "string \<Rightarrow> VmRecord" where
  "sample_vm v = \<lparr>r_id = v, r_name = ''vm'', r_disk_image = [], r_kernel = None, r_initrd = None, r_append = None,
     r_memory_mb = 512, r_cpus = 2, r_is_default = False, r_description = None, r_last_boot_at = None,
     r_created_at = [], r_admin_url = None, r_admin_label = None, r_base_os = None, r_base_os_version = None,
     r_target_platform = None, r_manifest_version = None\<rparr>"

definition sample_db :: vm_db where
  "sample_db = db_absent\<lparr>vms_columns := VMS_COLUMNS @ [''manifest_version''], vms := [sample_vm ''a'', sample_vm ''b''],
     port_mappings := \<lparr>rows = [(1, \<lparr>pm_vm = ''a'', pm_host_port = 80, pm_vm_port = 80, pm_label = []\<rparr>),
       (2, \<lparr>pm_vm = ''b'', pm_host_port = 80, pm_vm_port = 8080, pm_label = []\<rparr>)], seq = 2\<rparr>\<rparr>"

theorem delete_vm_exact_witness:
  "rows_of pm_vm ''a'' (port_mappings (fst (delete_vm ''a'' sample_db))) = []
    \<and> rows_of pm_vm ''b'' (port_mappings (fst (delete_vm ''a'' sample_db))) = rows_of pm_vm ''b'' (port_mappings sample_db)"
proof -
  have "has_vm sample_db ''a''"
    by (simp add: has_vm_def sample_db_def sample_vm_def)
  then show ?thesis
    using delete_vm_exact [of sample_db "''a''", OF _ prod.collapse [symmetric], of "''a''"]
      delete_vm_exact [of sample_db "''a''", OF _ prod.collapse [symmetric], of "''b''"] by simp
qed

text \<open>port mappings are unique per VM and host port, but they are deleted by host port alone:
  removing the mapping of one VM deletes the mapping every other VM has for that host port.\<close>

theorem delete_port_mapping_hits_other_vms:
  assumes "m \<in> set (list_port_mappings v db)" "m' \<in> set (list_port_mappings w db)"
    and "pm_host_port m = hp" "pm_host_port m' = hp" "delete_port_mapping hp db = (db', res)"
  shows "res = Ok () \<and> m \<notin> set (list_port_mappings v db') \<and> m' \<notin> set (list_port_mappings w db')"
proof -
  have "tbl_ex (\<lambda>e. pm_host_port (snd e) = hp) (port_mappings db)"
    using assms(1,3) by (auto simp: list_port_mappings_def tbl_ex_def list_ex_iff)
  then have "res = Ok ()" "port_mappings db' = tbl_delete (\<lambda>e. pm_host_port (snd e) = hp) (port_mappings db)"
    using assms(5) by (auto simp: delete_port_mapping_def)
  then show ?thesis
    using assms(3,4) by (auto simp: list_port_mappings_def tbl_delete_def)
qed

theorem delete_port_mapping_hits_other_vms_witness:
  "let m = \<lparr>pm_vm = ''b'', pm_host_port = 80, pm_vm_port = 8080, pm_label = []\<rparr>
   in m \<in> set (list_port_mappings ''b'' sample_db)
      \<and> m \<notin> set (list_port_mappings ''b'' (fst (delete_port_mapping 80 sample_db)))"
  using delete_port_mapping_hits_other_vms [OF _ _ _ _ prod.collapse [symmetric],
      of "\<lparr>pm_vm = ''a'', pm_host_port = 80, pm_vm_port = 80, pm_label = []\<rparr>" "''a''" sample_db
         "\<lparr>pm_vm = ''b'', pm_host_port = 80, pm_vm_port = 8080, pm_label = []\<rparr>" "''b''" 80]
  by (simp add: Let_def list_port_mappings_def sample_db_def)

lemma vms_insert_port_mapping [simp]: "vms (fst (insert_port_mapping x h p l d)) = vms d"
  by (simp add: insert_port_mapping_def Let_def)

lemma vms_insert_ports [simp]:
  "vms (foldl (\<lambda>d p. fst (insert_port_mapping x (f p) (g p) (h p) d)) d ps) = vms d"
  by (induction ps arbitrary: d) simp_all

lemma vms_insert_file_row: "insert_file_row r d = (d', res) \<Longrightarrow> vms d' = vms d"
  by (auto simp: insert_file_row_def Let_def split: if_splits)

lemma vms_migrate_files: "migrate_files x l i fs d = Ok d' \<Longrightarrow> vms d' = vms d"
  by (induction fs arbitrary: i d) (auto dest: vms_insert_file_row split: prod.splits outcome.splits)

lemma get_set_setting [simp]: "get_setting k (set_setting k w d) = Some w"
  using map_of_eq_None_iff [of "settings d" k]
  by (auto simp: get_setting_def set_setting_def put_setting_def map_of_replace_value map_add_def
      simp del: map_of_eq_None_iff)

lemma vms_set_setting [simp]: "vms (set_setting k w d) = vms d"
  by (simp add: set_setting_def)

lemma migrate_cases:
  assumes "migrate_from_json parse rename_ok now v content (db, ds) = ((db', ds'), e, res)"
  obtains "db' = db" "ds' = ds"
  | l raw db3 where "content = Some raw" "parse raw = Some l" "vms db3 = [legacy_vm now v l]" "db' = set_setting ''whitelist_mode'' (l_whitelist_mode l) db3"
      "e = (\<not> rename_ok)" "res = (if rename_ok then Ok True else Err SqlError)"
proof (cases content)
  case (Some raw)
  show ?thesis
  proof (cases "parse raw")
    case (Some l)
    let ?db2 = "foldl (\<lambda>d p. fst (insert_port_mapping v (pm_host_port p) (pm_vm_port p) (pm_label p) d))
      (db\<lparr>vms := [legacy_vm now v l]\<rparr>) (l_port_mappings l)"
    show ?thesis
    proof (cases "migrate_files v l 0 (l_file_mappings l) ?db2")
      case (Ok db3)
      then show ?thesis
        using assms that vms_migrate_files [OF Ok] \<open>content = _\<close> Some
        by (cases "vms db = []") (auto simp: migrate_from_json_def Let_def)
    qed (use assms that(1) \<open>content = _\<close> Some in \<open>auto simp: migrate_from_json_def Let_def split: if_splits\<close>)
  qed (use assms that(1) Some in \<open>auto simp: migrate_from_json_def\<close>)
qed (use assms that(1) in \<open>auto simp: migrate_from_json_def\<close>)

lemma migrate_again: "vms d \<noteq> [] \<Longrightarrow> fst (migrate_from_json parse ok now v content (d, e)) = (d, e)"
  by (simp add: migrate_from_json_def split: option.split)

text \<open>importing the legacy configuration happens at most once and as a whole: a run that fails
  before the commit changes no table, one that succeeds registers exactly one VM, the
  default, and whatever an import left behind, the next one reports that nothing was to do
  (or fails to read the file) and changes nothing.\<close>

theorem legacy_import_once:
  assumes "migrate_from_json parse rename_ok now v content (db, ds) = ((db', ds'), exists_after, res)"
  shows "(db' = db \<and> ds' = ds \<or> (\<exists>l raw. content = Some raw \<and> parse raw = Some l \<and> map r_id (vms db') = [v] \<and> get_setting ''whitelist_mode'' db' = Some (l_whitelist_mode l)
        \<and> (res = Ok True \<longleftrightarrow> rename_ok) \<and> (exists_after \<longleftrightarrow> \<not> rename_ok)))
    \<and> (db' \<noteq> db \<longrightarrow> fst (migrate_from_json parse rename_ok' now' v' content' (db', ds')) = (db', ds'))"
  using assms
proof (cases rule: migrate_cases)
  case 1
  then show ?thesis by simp
next
  case (2 l raw db3)
  then have "vms db' \<noteq> []" "map r_id (vms db') = [v]"
    by (simp_all add: legacy_vm_def)
  then show ?thesis
    using 2(1,2,4-6) migrate_again [of db'] get_set_setting [of "''whitelist_mode''" "l_whitelist_mode l" db3]
    by (metis (no_types, lifting) outcome.distinct(1))
qed

definition sample_legacy :: LegacyAppConfig where
  "sample_legacy = \<lparr>l_disk_image = ''disk.img'', l_kernel = None, l_initrd = None, l_append = None, l_memory_mb = 512,
     l_cpus = 2, l_port_mappings = [\<lparr>pm_vm = [], pm_host_port = 80, pm_vm_port = 80, pm_label = []\<rparr>],
     l_file_mappings = [], l_active_file_mapping = Map.empty, l_domains = [''example.com''],
     l_whitelist_mode = ''strict''\<rparr>"

theorem legacy_import_once_witness:
  "let r = migrate_from_json (\<lambda>_. Some sample_legacy) True ''t'' ''id'' (Some ''{}'') (db_absent, store_empty)
   in map r_id (vms (fst (fst r))) = [''id''] \<and> snd (snd r) = Ok True
      \<and> fst (migrate_from_json (\<lambda>_. Some sample_legacy) False ''u'' ''x'' (Some []) (fst r)) = fst r"
proof -
  let ?r = "migrate_from_json (\<lambda>_. Some sample_legacy) True ''t'' ''id'' (Some ''{}'') (db_absent, store_empty)"
  have eq: "?r = ((fst (fst ?r), snd (fst ?r)), fst (snd ?r), snd (snd ?r))"
    by simp
  have "vms db_absent = []" "l_file_mappings sample_legacy = []"
    by (simp_all add: db_absent_def sample_legacy_def)
  then have "vms (fst (fst ?r)) \<noteq> vms db_absent"
    by (simp add: migrate_from_json_def Let_def)
  then have "fst (fst ?r) \<noteq> db_absent"
    by force
  with legacy_import_once [OF eq, of False "''u''" "''x''" "Some []"] show ?thesis
    unfolding Let_def by auto
qed

end
