(* ===== verification/Store_Envelope.thy ===== *)
theory Store_Envelope
  imports Json "HOL-Library.Char_ord" "HOL-Library.List_Lexorder" "HOL-Library.Product_Lexorder"
    "HOL-Library.Multiset"
begin

text \<open>
  The store's signed documents: \<open>crates/nilbox-core/src/store/envelope.rs\<close>, \<open>verify.rs\<close>, \<open>keys.rs\<close>
  and \<open>canonical_json_value\<close> of \<open>vm_install.rs\<close>; the version comparison of \<open>version_check.rs\<close> and the
  catalogue of \<open>store/mod.rs\<close>.  Base64, AES-GCM, Ed25519, SHA-256 and \<open>serde_json\<close> are
  parameters; \<open>dev_store\<close> is the build feature of that name.
\<close>

record store_lib =
  b64_decode :: "string \<Rightarrow> bytes option"
  aes_decrypt :: "bytes \<Rightarrow> bytes \<Rightarrow> bytes \<Rightarrow> bytes option"
  ed_key_ok :: "bytes \<Rightarrow> bool"
  ed_verify :: "bytes \<Rightarrow> bytes \<Rightarrow> bytes \<Rightarrow> bool"
  sha256_hex :: "bytes \<Rightarrow> string"
  from_json :: "bytes \<Rightarrow> json option"
  to_json :: "json \<Rightarrow> string"
  dev_store :: bool

datatype envelope_error =
    MissingField string | BadBase64 string | BadNonce nat | UnknownKey string | BadCipher
  | NotJson | NotVersion2 | BadKey | BadSignature | SignatureMismatch string | ShaMismatch


section \<open>Keys\<close>

definition NILBOX_STORE_PUB_KEYID :: bytes where
  "NILBOX_STORE_PUB_KEYID =
    [0x05, 0x46, 0xd5, 0x92, 0x95, 0x63, 0x09, 0xc3, 0x1f, 0x6a, 0x38, 0x7f, 0x6d, 0xac, 0x81, 0x04,
     0xe1, 0xcb, 0x79, 0x9a, 0x40, 0x1a, 0xfa, 0x7e, 0x57, 0x70, 0x5c, 0xf6, 0xcb, 0xce, 0xb8, 0x89]"

definition DEV_STORE_KEY :: bytes where
  "DEV_STORE_KEY =
    [0x3b, 0x6a, 0x27, 0xbc, 0xce, 0xb6, 0xa4, 0x2d, 0x62, 0xa3, 0xa8, 0xd0, 0x2a, 0x6f, 0x0d, 0x73,
     0x65, 0x32, 0x15, 0x77, 0x1d, 0xe2, 0x43, 0xa6, 0x3a, 0xc0, 0x48, 0xa1, 0x8b, 0x59, 0xda, 0x29]"

definition get_store_public_key :: "store_lib \<Rightarrow> string \<Rightarrow> (envelope_error, bytes) outcome" where
  "get_store_public_key L key_id =
    (let check = (\<lambda>k. if ed_key_ok L k then Ok k else Err BadKey)
     in if key_id = ''nilbox-store-2026'' then check NILBOX_STORE_PUB_KEYID
        else if dev_store L \<and> key_id = ''nilbox-store-dev'' then check DEV_STORE_KEY
        else Err (UnknownKey key_id))"

definition NILBOX_ENC_KEY :: bytes where
  "NILBOX_ENC_KEY =
    [0xc7, 0xc4, 0xac, 0xba, 0x95, 0x2b, 0x33, 0x21, 0x20, 0x30, 0xa9, 0x44, 0xcb, 0x6d, 0xf0, 0xff,
     0xd4, 0x54, 0x81, 0x83, 0x18, 0x31, 0x20, 0xe1, 0x83, 0x29, 0x81, 0x8d, 0x5c, 0x0b, 0xc6, 0x2f]"

definition DEV_ENC_KEY :: bytes where
  "DEV_ENC_KEY = map of_nat [1..<33]"

definition get_enc_key :: "store_lib \<Rightarrow> string \<Rightarrow> (envelope_error, bytes) outcome" where
  "get_enc_key L key_id =
    (if key_id = ''nilbox-enc-2026'' then Ok NILBOX_ENC_KEY
     else if dev_store L \<and> key_id = ''nilbox-enc-dev'' then Ok DEV_ENC_KEY
     else Err (UnknownKey key_id))"


section \<open>Canonical JSON\<close>

function canonical_json_value :: "json \<Rightarrow> json" where
  "canonical_json_value (JObj m) = JObj (sort_key fst (map (\<lambda>(k, v). (k, canonical_json_value v)) m))"
| "canonical_json_value (JArr vs) = JArr (map canonical_json_value vs)"
| "canonical_json_value JNull = JNull"
| "canonical_json_value (JBool b) = JBool b"
| "canonical_json_value (JNum n) = JNum n"
| "canonical_json_value (JFloat s) = JFloat s"
| "canonical_json_value (JStr s) = JStr s"
  by pat_completeness auto

termination canonical_json_value
  by (relation "measure size") (auto dest: size_json_entry size_json_item)


section \<open>Envelopes\<close>

record SignedPayload =
  manifest_sha256 :: string
  manifest :: json

record SignedEnvelopeV2 =
  store_signature :: bytes
  store_public_key_id :: string
  timestamp :: string
  signed_payload :: SignedPayload
  canonical_payload_bytes :: bytes

record SignedEnvelopeV3 =
  key_id :: string
  nonce :: bytes
  ciphertext :: bytes
  inner :: SignedEnvelopeV2

datatype ManifestEnvelope = V3 SignedEnvelopeV3 | V2 SignedEnvelopeV2 | Legacy SignedPayload

text \<open>\<open>v[k]\<close> read only: null unless \<open>v\<close> is an object with that key.\<close>

definition index :: "json \<Rightarrow> string \<Rightarrow> json" where
  "index v k = (case jget v k of Some w \<Rightarrow> w | None \<Rightarrow> JNull)"

definition str_field :: "json \<Rightarrow> string \<Rightarrow> (envelope_error, string) outcome" where
  "str_field v k = (case as_str (index v k) of Some s \<Rightarrow> Ok s | None \<Rightarrow> Err (MissingField k))"

definition b64_field :: "store_lib \<Rightarrow> json \<Rightarrow> string \<Rightarrow> (envelope_error, bytes) outcome" where
  "b64_field L v k =
    and_then (str_field v k) (\<lambda>s. case b64_decode L s of Some bs \<Rightarrow> Ok bs | None \<Rightarrow> Err (BadBase64 k))"

definition manifest_field :: "json \<Rightarrow> (envelope_error, json) outcome" where
  "manifest_field v = (if index v ''manifest'' = JNull then Err (MissingField ''manifest'') else Ok (index v ''manifest''))"

definition version_of :: "json \<Rightarrow> nat option" where
  "version_of v = Option.bind (jget v ''version'') as_u64"

definition parse_legacy :: "json \<Rightarrow> (envelope_error, ManifestEnvelope) outcome" where
  "parse_legacy raw =
    and_then (str_field raw ''manifest_sha256'') (\<lambda>sha.
    and_then (manifest_field raw) (\<lambda>m. Ok (Legacy \<lparr>manifest_sha256 = sha, manifest = m\<rparr>)))"

definition parse_v2_body :: "store_lib \<Rightarrow> json \<Rightarrow> (envelope_error, SignedEnvelopeV2) outcome" where
  "parse_v2_body L raw =
    and_then (b64_field L raw ''store_signature'') (\<lambda>sig.
    and_then (str_field raw ''store_public_key_id'') (\<lambda>kid.
    and_then (str_field raw ''timestamp'') (\<lambda>ts.
    case jget raw ''signed_payload'' of
      None \<Rightarrow> Err (MissingField ''signed_payload'')
    | Some payload \<Rightarrow>
        and_then (str_field payload ''manifest_sha256'') (\<lambda>sha.
        and_then (manifest_field payload) (\<lambda>m.
        Ok \<lparr>store_signature = sig, store_public_key_id = kid, timestamp = ts,
            signed_payload = \<lparr>manifest_sha256 = sha, manifest = m\<rparr>,
            canonical_payload_bytes = str_bytes (to_json L (canonical_json_value payload))\<rparr>)))))"

definition parse_v2 :: "store_lib \<Rightarrow> json \<Rightarrow> (envelope_error, ManifestEnvelope) outcome" where
  "parse_v2 L raw = and_then (parse_v2_body L raw) (\<lambda>v2. Ok (V2 v2))"

definition parse_inner :: "store_lib \<Rightarrow> bytes \<Rightarrow> (envelope_error, SignedEnvelopeV2) outcome" where
  "parse_inner L plaintext =
    (case from_json L plaintext of
       None \<Rightarrow> Err NotJson
     | Some v2_json \<Rightarrow> if version_of v2_json \<noteq> Some 2 then Err NotVersion2 else parse_v2_body L v2_json)"

definition parse_v3 :: "store_lib \<Rightarrow> json \<Rightarrow> (envelope_error, ManifestEnvelope) outcome" where
  "parse_v3 L raw =
    and_then (str_field raw ''key_id'') (\<lambda>kid.
    and_then (b64_field L raw ''nonce'') (\<lambda>nonce_bytes.
    if length nonce_bytes \<noteq> 12 then Err (BadNonce (length nonce_bytes))
    else and_then (b64_field L raw ''ciphertext'') (\<lambda>ct.
    and_then (get_enc_key L kid) (\<lambda>key.
    case aes_decrypt L key nonce_bytes ct of
      None \<Rightarrow> Err BadCipher
    | Some plaintext \<Rightarrow>
        and_then (parse_inner L plaintext) (\<lambda>v2.
        Ok (V3 \<lparr>key_id = kid, nonce = nonce_bytes, ciphertext = ct, inner = v2\<rparr>))))))"

definition parse_envelope :: "store_lib \<Rightarrow> json \<Rightarrow> (envelope_error, ManifestEnvelope) outcome" where
  "parse_envelope L raw =
    (case version_of raw of
       Some n \<Rightarrow> if n = 3 then parse_v3 L raw else if n = 2 then parse_v2 L raw else parse_legacy raw
     | None \<Rightarrow> parse_legacy raw)"


section \<open>Verification\<close>

fun without_taskfile :: "json \<Rightarrow> json" where
  "without_taskfile (JObj m) = JObj (filter (\<lambda>e. fst e \<noteq> ''taskfile_content'') m)"
| "without_taskfile v = v"

definition integrity_hash :: "store_lib \<Rightarrow> json \<Rightarrow> string" where
  "integrity_hash L m = sha256_hex L (str_bytes (to_json L (canonical_json_value (without_taskfile m))))"

definition verify_sha256_integrity :: "store_lib \<Rightarrow> SignedPayload \<Rightarrow> (envelope_error, unit) outcome" where
  "verify_sha256_integrity L p =
    (if integrity_hash L (manifest p) \<noteq> manifest_sha256 p then Err ShaMismatch else Ok ())"

definition verify_v2_inner :: "store_lib \<Rightarrow> SignedEnvelopeV2 \<Rightarrow> (envelope_error, json) outcome" where
  "verify_v2_inner L v2 =
    and_then (get_store_public_key L (store_public_key_id v2)) (\<lambda>key.
    if length (store_signature v2) \<noteq> 64 then Err BadSignature
    else if \<not> ed_verify L key (canonical_payload_bytes v2) (store_signature v2)
    then Err (SignatureMismatch (store_public_key_id v2))
    else and_then (verify_sha256_integrity L (signed_payload v2)) (\<lambda>_. Ok (manifest (signed_payload v2))))"

fun verify_envelope :: "store_lib \<Rightarrow> ManifestEnvelope \<Rightarrow> (envelope_error, json) outcome" where
  "verify_envelope L (V3 v3) = verify_v2_inner L (inner v3)"
| "verify_envelope L (V2 v2) = verify_v2_inner L v2"
| "verify_envelope L (Legacy payload) =
    and_then (verify_sha256_integrity L payload) (\<lambda>_. Ok (manifest payload))"

text \<open>What every caller does with a document from the network.\<close>

definition checked_manifest :: "store_lib \<Rightarrow> json \<Rightarrow> (envelope_error, json) outcome" where
  "checked_manifest L raw = and_then (parse_envelope L raw) (verify_envelope L)"


section \<open>Versions\<close>

definition version_parts :: "string \<Rightarrow> nat list" where
  "version_parts s =
    map (\<lambda>p. case parse_nat (2 ^ 64) p of Some n \<Rightarrow> n | None \<Rightarrow> 0) (split_str (CHR ''.'') s)"

definition ver_part :: "nat list \<Rightarrow> nat \<Rightarrow> nat" where
  "ver_part v i = (if i < length v then v ! i else 0)"

fun newer_from :: "nat list \<Rightarrow> nat list \<Rightarrow> nat list \<Rightarrow> bool" where
  "newer_from va vb [] = False"
| "newer_from va vb (i # is) =
    (if ver_part va i > ver_part vb i then True
     else if ver_part va i < ver_part vb i then False
     else newer_from va vb is)"

definition is_newer :: "string \<Rightarrow> string \<Rightarrow> bool" where
  "is_newer a b = newer_from (version_parts a) (version_parts b) [0..<3]"

definition needs_force_upgrade :: "string \<Rightarrow> string \<Rightarrow> bool" where
  "needs_force_upgrade current min_version = is_newer min_version current"


section \<open>Catalogue\<close>

record StoreItem =
  si_id :: string
  si_name :: string

record InstalledItem =
  ii_id :: string
  ii_name :: string
  ii_version :: string
  ii_installed_at :: "string option"

record StoreManager =
  catalog :: "StoreItem list"
  installed :: "string \<rightharpoonup> InstalledItem"

datatype catalog_error = ItemNotFound string | ItemNotInstalled string

definition store_manager_new :: StoreManager where
  "store_manager_new = \<lparr>catalog = [], installed = Map.empty\<rparr>"

definition install_item :: "string \<Rightarrow> StoreManager \<Rightarrow> StoreManager \<times> (catalog_error, unit) outcome" where
  "install_item item_id s =
    (case find (\<lambda>i. si_id i = item_id) (catalog s) of
       None \<Rightarrow> (s, Err (ItemNotFound item_id))
     | Some i \<Rightarrow>
         (s\<lparr>installed := (installed s)(item_id \<mapsto>
            \<lparr>ii_id = si_id i, ii_name = si_name i, ii_version = ''latest'', ii_installed_at = None\<rparr>)\<rparr>, Ok ()))"

definition uninstall_item :: "string \<Rightarrow> StoreManager \<Rightarrow> StoreManager \<times> (catalog_error, unit) outcome" where
  "uninstall_item item_id s =
    (if installed s item_id = None then (s, Err (ItemNotInstalled item_id))
     else (s\<lparr>installed := (installed s)(item_id := None)\<rparr>, Ok ()))"


section \<open>Lemmas\<close>

lemma sort_key_distinct:
  assumes "distinct (map f xs)" "set xs = set ys" "distinct (map f ys)"
  shows "sort_key f xs = sort_key f ys"
proof -
  have "inj_on f (set xs)"
    using assms(1) by (simp add: distinct_map)
  then show ?thesis
    using assms by (intro map_sorted_distinct_set_unique [of f]) (auto simp: distinct_map)
qed

lemma canonical_reorder:
  assumes "mset kvs = mset kvs'" "distinct (map fst kvs)"
  shows "canonical_json_value (JObj kvs) = canonical_json_value (JObj kvs')"
proof -
  let ?c = "\<lambda>(k, v). (k, canonical_json_value v)"
  have keys: "map (fst \<circ> ?c) m = map fst m" for m :: "(string \<times> json) list"
    by auto
  have "distinct (map fst kvs')"
    using assms mset_eq_imp_distinct_iff [of "map fst kvs" "map fst kvs'"] by simp
  moreover have "set kvs = set kvs'"
    using assms(1) by (rule mset_eq_setD)
  ultimately show ?thesis
    using assms(2) sort_key_distinct [of fst "map ?c kvs" "map ?c kvs'"] by (simp add: keys)
qed

lemma str_field_Ok: "str_field v k = Ok s \<longleftrightarrow> as_str (index v k) = Some s"
  by (simp add: str_field_def split: option.split)

lemma manifest_field_Ok: "manifest_field v = Ok m \<longleftrightarrow> index v ''manifest'' = m \<and> m \<noteq> JNull"
  by (auto simp: manifest_field_def)

lemma parse_v2_body_Ok:
  assumes "parse_v2_body L raw = Ok v2"
  shows "\<exists>payload. jget raw ''signed_payload'' = Some payload
    \<and> canonical_payload_bytes v2 = str_bytes (to_json L (canonical_json_value payload))
    \<and> index payload ''manifest'' = manifest (signed_payload v2)
    \<and> as_str (index payload ''manifest_sha256'') = Some (manifest_sha256 (signed_payload v2))"
  using assms by (auto simp: parse_v2_body_def str_field_Ok manifest_field_Ok split: option.splits)

lemma parse_inner_Ok: "parse_inner L plaintext = Ok v2 \<Longrightarrow> \<exists>v2_json. parse_v2_body L v2_json = Ok v2"
  by (auto simp: parse_inner_def split: option.splits if_splits)

lemma parse_v3_Ok:
  assumes "parse_v3 L raw = Ok env"
  shows "\<exists>plaintext v3. env = V3 v3 \<and> parse_inner L plaintext = Ok (inner v3)"
  using assms by (fastforce simp: parse_v3_def split: if_splits option.splits)

lemma verify_v2_inner_Ok:
  assumes "verify_v2_inner L v2 = Ok m" "\<not> dev_store L"
  shows "m = manifest (signed_payload v2) \<and> length (store_signature v2) = 64
    \<and> ed_verify L NILBOX_STORE_PUB_KEYID (canonical_payload_bytes v2) (store_signature v2)
    \<and> manifest_sha256 (signed_payload v2) = integrity_hash L m"
  using assms by (auto simp: verify_v2_inner_def get_store_public_key_def verify_sha256_integrity_def Let_def
      split: if_splits)

definition signed_by_store :: "store_lib \<Rightarrow> json \<Rightarrow> bool" where
  "signed_by_store L m \<longleftrightarrow> (\<exists>payload sig. index payload ''manifest'' = m \<and> length sig = 64
    \<and> ed_verify L NILBOX_STORE_PUB_KEYID (str_bytes (to_json L (canonical_json_value payload))) sig
    \<and> as_str (index payload ''manifest_sha256'') = Some (integrity_hash L m))"

lemma signed_v2:
  "parse_v2_body L raw = Ok v2 \<Longrightarrow> verify_v2_inner L v2 = Ok m \<Longrightarrow> \<not> dev_store L \<Longrightarrow> signed_by_store L m"
  unfolding signed_by_store_def using parse_v2_body_Ok [of L raw v2] verify_v2_inner_Ok [of L v2 m] by metis

definition legacy_document :: "string \<Rightarrow> json \<Rightarrow> json" where
  "legacy_document sha m = JObj [(''manifest_sha256'', JStr sha), (''manifest'', m)]"

lemma checked_legacy:
  "checked_manifest L (legacy_document sha m) =
    (if m = JNull then Err (MissingField ''manifest'')
     else if integrity_hash L m \<noteq> sha then Err ShaMismatch else Ok m)"
  by (simp add: checked_manifest_def legacy_document_def parse_envelope_def version_of_def parse_legacy_def
      str_field_def manifest_field_def index_def verify_sha256_integrity_def)


section \<open>Properties\<close>

text \<open>C20: in a release build, a document that declares version 2 or 3 is accepted only if the pinned
  store key signed the canonical form of a payload that contains the manifest handed to the
  caller and the hash of that manifest.\<close>

theorem versioned_manifest_is_signed:
  assumes "checked_manifest L raw = Ok m" "version_of raw = Some 2 \<or> version_of raw = Some 3" "\<not> dev_store L"
  shows "signed_by_store L m"
proof -
  obtain env where env: "parse_envelope L raw = Ok env" "verify_envelope L env = Ok m"
    using assms(1) by (auto simp: checked_manifest_def)
  show ?thesis
  proof (cases "version_of raw = Some 3")
    case True
    then have "parse_v3 L raw = Ok env"
      using env(1) by (simp add: parse_envelope_def)
    then obtain v2_json v3 where "env = V3 v3" "parse_v2_body L v2_json = Ok (inner v3)"
      using parse_v3_Ok parse_inner_Ok by blast
    then show ?thesis
      using env(2) assms(3) signed_v2 by auto
  next
    case False
    then obtain v2 where "env = V2 v2" "parse_v2_body L raw = Ok v2"
      using env(1) assms(2) by (auto simp: parse_envelope_def parse_v2_def)
    then show ?thesis
      using env(2) assms(3) signed_v2 by auto
  qed
qed

definition sample_lib :: store_lib where
  "sample_lib = \<lparr>b64_decode = (\<lambda>_. Some (replicate 64 0)), aes_decrypt = (\<lambda>_ _ _. None), ed_key_ok = (\<lambda>_. True),
     ed_verify = (\<lambda>_ _ _. True), sha256_hex = (\<lambda>_. ''00''), from_json = (\<lambda>_. None), to_json = (\<lambda>_. []),
     dev_store = False\<rparr>"

definition sample_v2 :: json where
  "sample_v2 = JObj [(''version'', JNum 2), (''store_signature'', JStr []),
     (''store_public_key_id'', JStr ''nilbox-store-2026''), (''timestamp'', JStr []),
     (''signed_payload'', JObj [(''manifest_sha256'', JStr ''00''), (''manifest'', JNum 1)])]"

theorem versioned_manifest_is_signed_witness: "signed_by_store sample_lib (JNum 1)"
proof (rule versioned_manifest_is_signed [of _ sample_v2])
  show "checked_manifest sample_lib sample_v2 = Ok (JNum 1)"
    by (simp add: checked_manifest_def sample_v2_def parse_envelope_def version_of_def parse_v2_def parse_v2_body_def
        b64_field_def str_field_def index_def manifest_field_def verify_v2_inner_def get_store_public_key_def
        verify_sha256_integrity_def integrity_hash_def sample_lib_def Let_def)
  show "version_of sample_v2 = Some 2 \<or> version_of sample_v2 = Some 3"
    by (simp add: sample_v2_def version_of_def)
qed (simp add: sample_lib_def)

text \<open>a document that declares no version needs no signature: for every manifest anybody can write
  one that is accepted, also where a signed one is expected; and its install script can be
  replaced without even changing the hash.\<close>

theorem unsigned_manifest_accepted:
  "checked_manifest L (legacy_document (integrity_hash L (JObj m)) (JObj m)) = Ok (JObj m)
   \<and> checked_manifest L (legacy_document (integrity_hash L (JObj m)) (JObj ((''taskfile_content'', t) # m)))
      = Ok (JObj ((''taskfile_content'', t) # m))"
  by (simp add: checked_legacy integrity_hash_def)

text \<open>the hash and the signature do not depend on the order in which the members of an object
  come.\<close>

theorem member_order_irrelevant:
  assumes "mset m = mset m'" "distinct (map fst m)"
  shows "integrity_hash L (JObj m) = integrity_hash L (JObj m')"
proof -
  let ?P = "\<lambda>e. fst e \<noteq> ''taskfile_content''"
  have "mset (filter ?P m) = mset (filter ?P m')" "distinct (map fst (filter ?P m))"
    using assms by (simp_all add: distinct_map_filter)
  then show ?thesis
    using canonical_reorder [of "filter ?P m" "filter ?P m'"]
    by (simp add: integrity_hash_def del: canonical_json_value.simps mset_filter)
qed

theorem member_order_irrelevant_witness:
  "\<forall>L. integrity_hash L (JObj [(''a'', JNull), (''b'', JNum 1)]) = integrity_hash L (JObj [(''b'', JNum 1), (''a'', JNull)])"
  by (intro allI member_order_irrelevant) simp_all

text \<open>the version comparison is the lexicographic order on the first three numbers, a missing or
  unreadable number counting as zero.\<close>

theorem version_order:
  "is_newer a b \<longleftrightarrow>
    (ver_part (version_parts b) 0, ver_part (version_parts b) 1, ver_part (version_parts b) 2)
    < (ver_part (version_parts a) 0, ver_part (version_parts a) 1, ver_part (version_parts a) 2)"
  by (auto simp: is_newer_def upt_rec numeral_eq_Suc)

end
