(* ===== verification/Vm_Install.thy ===== *)
theory Vm_Install
  imports Vm_Store Store_Envelope
begin

text \<open>
  \<open>crates/nilbox-core/src/vm_install.rs\<close>: installing a VM from a store manifest or from the local
  cache.  The state is the cache (a directory per key, with its five files), the files of
  the VM directories, and the database.  The network, ZIP reading, the deserialisation of a
  manifest and the hash of URLs are parameters; local disk errors, progress events, log
  messages and the partial file that a failed download leaves are left out.
\<close>

definition STORE_BASE_URL :: string where "STORE_BASE_URL = ''https://store.nilbox.run''"

record ManifestSource =
  image_url :: string
  image_format :: "string option"
  first_boot_script :: "string option"
  disk_image :: "string option"
  src_sha256 :: "string option"
  kernel :: "string option"
  initrd :: "string option"
  kernel_append :: "string option"
  min_memory :: "u32 option"
  min_cpus :: "u32 option"
  tauri_cacheable :: bool

record VmManifest =
  m_id :: string
  m_name :: string
  m_version :: "string option"
  m_category :: "string option"
  m_description :: "string option"
  m_source :: ManifestSource
  m_inbound_ports :: "u16 list"
  m_admin :: "(string \<times> string option) list"
  m_base_os :: "string option"
  m_base_os_version :: "string option"
  m_platform :: "string list option"

record cache_entry =
  c_zip :: "bytes option"
  c_manifest :: "string option"
  c_manifest_full :: "string option"
  c_app_id :: "string option"
  c_sha256 :: "string option"

record install_state =
  i_cache :: "string \<rightharpoonup> cache_entry"
  i_files :: "string \<times> string \<rightharpoonup> bytes"
  i_db :: vm_db

record http_resp =
  status :: nat
  chunks :: "bytes list"
  stream_ok :: bool

record download_url =
  du_url :: string
  du_sha256 :: "string option"
  du_signature :: "string option"

record install_env =
  e_lib :: store_lib
  e_host_platform :: string
  e_fetch :: "string \<Rightarrow> string option"
  e_get :: "string \<Rightarrow> nat option \<Rightarrow> http_resp option"
  e_client :: "(string \<Rightarrow> download_url option) option"
  e_zip :: "bytes \<Rightarrow> (string \<times> bytes) option list option"
  e_manifest :: "json \<Rightarrow> VmManifest option"
  e_url_hash :: "string \<Rightarrow> string"
  e_app_dir :: string
  e_now :: string

datatype install_error =
    FetchFailed | NotAuthentic envelope_error | BadManifest | Incompatible string
  | Database db_error | DownloadFailed | Corrupted | BadFileSignature
  | BadZip | NotInZip string | NoCacheEntry | NoCachedZip | OutdatedCache


section \<open>Helpers\<close>

definition then_st ::
  "'s \<times> ('e, 'a) outcome \<Rightarrow> ('s \<Rightarrow> 'a \<Rightarrow> 's \<times> ('e, 'b) outcome) \<Rightarrow> 's \<times> ('e, 'b) outcome" where
  "then_st r k = (case r of (s, Ok a) \<Rightarrow> k s a | (s, Err e) \<Rightarrow> (s, Err e) | (s, Panic) \<Rightarrow> (s, Panic))"

lemma then_st_simps [simp]:
  "then_st (s, Ok a) k = k s a" "then_st (s, Err e) k = (s, Err e)" "then_st (s, Panic) k = (s, Panic)"
  by (simp_all add: then_st_def)

lemma then_st_Ok:
  "then_st r k = (s', Ok b) \<longleftrightarrow> (\<exists>s a. r = (s, Ok a) \<and> k s a = (s', Ok b))"
  by (auto simp: then_st_def split: prod.splits outcome.splits)

fun map_err :: "('e \<Rightarrow> 'f) \<Rightarrow> ('e, 'a) outcome \<Rightarrow> ('f, 'a) outcome" where
  "map_err f (Ok a) = Ok a"
| "map_err f (Err e) = Err (f e)"
| "map_err f Panic = Panic"

lemma map_err_Ok [simp]: "map_err f r = Ok a \<longleftrightarrow> r = Ok a"
  by (cases r) auto

definition is_http :: "string \<Rightarrow> bool" where
  "is_http s \<longleftrightarrow> starts_with s ''http://'' \<or> starts_with s ''https://''"

definition rewrite_to_store :: "string \<Rightarrow> string" where
  "rewrite_to_store url =
    (if starts_with url ''/'' \<or> \<not> is_http url then url
     else case find_str url ''//'' of
            None \<Rightarrow> url
          | Some after_scheme \<Rightarrow>
              (let rest = drop (after_scheme + 2) url
               in case find_str rest ''/'' of
                    None \<Rightarrow> url
                  | Some path_start \<Rightarrow> STORE_BASE_URL @ drop path_start rest))"

text \<open>\<open>Path::file_name\<close> and \<open>Path::file_stem\<close> of a path in Unix syntax.\<close>

definition base_name :: "string \<Rightarrow> string option" where
  "base_name p =
    (let cs = filter (\<lambda>c. c \<noteq> [] \<and> c \<noteq> ''.'') (split_str (CHR ''/'') p)
     in if cs = [] \<or> last cs = ''..'' then None else Some (last cs))"

definition stem_of :: "string \<Rightarrow> string" where
  "stem_of n =
    (case rfind_str n ''.'' of Some i \<Rightarrow> if i = 0 then n else take i n | None \<Rightarrow> n)"

definition disk_filename :: "ManifestSource \<Rightarrow> string" where
  "disk_filename src =
    (case disk_image src of
       Some s \<Rightarrow> if s \<noteq> [] then s else
         (case base_name (image_url src) of Some n \<Rightarrow> stem_of n @ ''.img'' | None \<Rightarrow> ''disk.img'')
     | None \<Rightarrow> (case base_name (image_url src) of Some n \<Rightarrow> stem_of n @ ''.img'' | None \<Rightarrow> ''disk.img''))"

definition compatible :: "install_env \<Rightarrow> VmManifest \<Rightarrow> bool" where
  "compatible e m =
    (case m_platform m of
       None \<Rightarrow> True
     | Some ps \<Rightarrow> ps = [] \<or> list_ex (\<lambda>p. p = e_host_platform e \<or> starts_with (e_host_platform e) p) ps)"

definition vm_file :: "install_env \<Rightarrow> string \<Rightarrow> string \<Rightarrow> string" where
  "vm_file e vm name = e_app_dir e @ ''/vms/'' @ vm @ ''/'' @ name"


section \<open>Integrity\<close>

text \<open>A slice up to byte 12 of a string panics unless 12 is the start of a character or the end.\<close>

definition can_cut :: "nat \<Rightarrow> string \<Rightarrow> bool" where
  "can_cut n s \<longleftrightarrow> n \<le> length s \<and> (n < length s \<longrightarrow> \<not> is_cont (str_bytes s ! n))"

definition verify_sha256 :: "store_lib \<Rightarrow> bytes \<Rightarrow> string \<Rightarrow> (install_error, unit) outcome" where
  "verify_sha256 L contents expected =
    (if sha256_hex L contents = to_lowercase expected then Ok ()
     else if can_cut 12 (sha256_hex L contents) \<and> can_cut 12 (to_lowercase expected) then Err Corrupted
     else Panic)"

definition verify_file_signature :: "store_lib \<Rightarrow> string \<Rightarrow> string \<Rightarrow> (install_error, unit) outcome" where
  "verify_file_signature L sha sig_b64 =
    (case b64_decode L sig_b64 of
       None \<Rightarrow> Err BadFileSignature
     | Some sig \<Rightarrow>
         if length sig \<noteq> 64 then Err BadFileSignature
         else if list_ex (\<lambda>kid. case get_store_public_key L kid of
                   Ok key \<Rightarrow> ed_verify L key (str_bytes sha) sig | _ \<Rightarrow> False)
                 ((if dev_store L then [''nilbox-store-dev''] else []) @ [''nilbox-store-2026''])
         then Ok () else Err BadFileSignature)"


section \<open>Downloads\<close>

text \<open>
  \<open>download_stream\<close>: the contents of the finished file and the bytes that were hashed, or what
  is left in the \<open>.part\<close> file.
\<close>

definition download_stream ::
  "http_resp \<Rightarrow> bytes \<Rightarrow> bytes \<Rightarrow> (install_error, bytes \<times> bytes) outcome \<times> bytes option" where
  "download_stream r part hashed =
    (let got = concat (chunks r)
     in if stream_ok r then (Ok (part @ got, hashed @ got), None) else (Err DownloadFailed, Some (part @ got)))"

text \<open>\<open>part\<close>: the contents and age of the \<open>.part\<close> file, if there is one.\<close>

definition download_file_with_hash ::
  "install_env \<Rightarrow> string \<Rightarrow> (bytes \<times> nat) option \<Rightarrow> (install_error, bytes \<times> bytes) outcome \<times> bytes option" where
  "download_file_with_hash e url part =
    (let kept = (case part of Some (bs, age) \<Rightarrow> if age < 86400 \<and> bs \<noteq> [] then bs else [] | None \<Rightarrow> []);
         offset = length kept
     in case e_get e url (if offset > 0 then Some offset else None) of
          None \<Rightarrow> (Err DownloadFailed, if kept = [] then None else Some kept)
        | Some r \<Rightarrow>
            if status r = 200 then download_stream r [] []
            else if status r = 206 then download_stream r kept kept
            else if status r = 416 then
              (case e_get e url None of
                 None \<Rightarrow> (Err DownloadFailed, None)
               | Some r2 \<Rightarrow>
                   if \<not> (200 \<le> status r2 \<and> status r2 < 300) then (Err DownloadFailed, None)
                   else download_stream r2 [] [])
            else if 200 \<le> status r \<and> status r < 300 then download_stream r kept kept
            else (Err DownloadFailed, if kept = [] then None else Some kept))"

text \<open>A download into a new VM directory, which has no \<open>.part\<close> file.\<close>

definition download_into ::
  "install_env \<Rightarrow> string \<Rightarrow> (string \<times> string) \<Rightarrow> install_state \<Rightarrow> install_state \<times> (install_error, bytes) outcome" where
  "download_into e url dest st =
    (case download_file_with_hash e url None of
       (Ok (contents, hashed), _) \<Rightarrow> (st\<lparr>i_files := (i_files st)(dest \<mapsto> contents)\<rparr>, Ok hashed)
     | (Err x, _) \<Rightarrow> (st, Err x)
     | (Panic, _) \<Rightarrow> (st, Panic))"


section \<open>Archives\<close>

fun zip_find :: "string \<Rightarrow> (string \<times> bytes) option list \<Rightarrow> (install_error, bytes option) outcome" where
  "zip_find filename [] = Ok None"
| "zip_find filename (None # es) = Err BadZip"
| "zip_find filename (Some (name, contents) # es) =
    (if (case base_name name of Some b \<Rightarrow> b | None \<Rightarrow> []) = filename then Ok (Some contents) else zip_find filename es)"

definition try_extract :: "install_env \<Rightarrow> bytes \<Rightarrow> string \<Rightarrow> (install_error, bytes option) outcome" where
  "try_extract e archive filename =
    (case e_zip e archive of None \<Rightarrow> Err BadZip | Some es \<Rightarrow> zip_find filename es)"

definition extract_zip ::
  "install_env \<Rightarrow> bytes \<Rightarrow> string \<Rightarrow> string \<times> string \<Rightarrow> install_state \<Rightarrow> install_state \<times> (install_error, unit) outcome" where
  "extract_zip e archive filename dest st =
    (case try_extract e archive filename of
       Ok (Some contents) \<Rightarrow> (st\<lparr>i_files := (i_files st)(dest \<mapsto> contents)\<rparr>, Ok ())
     | Ok None \<Rightarrow> (st, Err (NotInZip filename))
     | Err x \<Rightarrow> (st, Err x)
     | Panic \<Rightarrow> (st, Panic))"

definition resolve_boot_file ::
  "install_env \<Rightarrow> string \<Rightarrow> bytes \<Rightarrow> string option \<Rightarrow> string \<Rightarrow> install_state
    \<Rightarrow> install_state \<times> (install_error, string option) outcome" where
  "resolve_boot_file e vm archive value dest_name st =
    (case value of
       None \<Rightarrow> (st, Ok None)
     | Some s \<Rightarrow>
         if s = [] then (st, Ok None)
         else if starts_with s ''/'' then (st, Ok (Some s))
         else if is_http s
         then then_st (download_into e s (vm, dest_name) st) (\<lambda>st' _. (st', Ok (Some (vm_file e vm dest_name))))
         else then_st (extract_zip e archive s (vm, dest_name) st) (\<lambda>st' _. (st', Ok (Some (vm_file e vm dest_name)))))"

definition extract_boot_file_from_zip ::
  "install_env \<Rightarrow> string \<Rightarrow> bytes \<Rightarrow> string option \<Rightarrow> string \<Rightarrow> install_state \<Rightarrow> install_state \<times> string option" where
  "extract_boot_file_from_zip e vm archive source default_name st =
    (case source of
       None \<Rightarrow> (st, None)
     | Some name \<Rightarrow>
         if is_http name then (st, None)
         else if starts_with name ''/'' then (st, Some name)
         else (case extract_zip e archive name (vm, default_name) st of
                 (st', Ok _) \<Rightarrow> (st', Some (vm_file e vm default_name))
               | (st', _) \<Rightarrow> (st', None)))"


section \<open>Cache\<close>

definition cache_key_for :: "install_env \<Rightarrow> ManifestSource \<Rightarrow> string" where
  "cache_key_for e src = (case src_sha256 src of Some s \<Rightarrow> s | None \<Rightarrow> ''url-'' @ e_url_hash e (image_url src))"

text \<open>The key and zip of the cache entry, when its directory has a zip.\<close>

definition get_cache_zip :: "install_env \<Rightarrow> ManifestSource \<Rightarrow> install_state \<Rightarrow> (string \<times> cache_entry \<times> bytes) option" where
  "get_cache_zip e src st =
    (let key = cache_key_for e src
     in case i_cache st key of
          None \<Rightarrow> None
        | Some c \<Rightarrow> map_option (\<lambda>z. (key, c, z)) (c_zip c))"

text \<open>What listing the cache directory shows: entries whose key is a plain name.\<close>

definition listed_key :: "string \<Rightarrow> bool" where
  "listed_key k \<longleftrightarrow> k \<noteq> [] \<and> CHR ''/'' \<notin> set k"

definition has_app_id :: "string \<Rightarrow> cache_entry \<Rightarrow> bool" where
  "has_app_id app c \<longleftrightarrow> (case c_app_id c of Some s \<Rightarrow> trim s = app | None \<Rightarrow> False)"

definition evict_old_caches :: "string \<Rightarrow> string \<Rightarrow> install_state \<Rightarrow> install_state" where
  "evict_old_caches app current_key st =
    st\<lparr>i_cache := (\<lambda>k. case i_cache st k of
       Some c \<Rightarrow> if listed_key k \<and> k \<noteq> current_key \<and> has_app_id app c then None else Some c
     | None \<Rightarrow> None)\<rparr>"

definition no_entry :: cache_entry where
  "no_entry = \<lparr>c_zip = None, c_manifest = None, c_manifest_full = None, c_app_id = None, c_sha256 = None\<rparr>"

definition save_to_cache ::
  "install_env \<Rightarrow> ManifestSource \<Rightarrow> bytes \<Rightarrow> string \<Rightarrow> string \<Rightarrow> string \<Rightarrow> string option \<Rightarrow> install_state \<Rightarrow> install_state" where
  "save_to_cache e src archive manifest_raw manifest_json app verified st =
    (let key = cache_key_for e src;
         old = (case i_cache st key of Some c \<Rightarrow> c | None \<Rightarrow> no_entry);
         new = \<lparr>c_zip = Some archive, c_manifest = Some manifest_raw, c_manifest_full = Some manifest_json,
                c_app_id = Some app, c_sha256 = (case verified of Some s \<Rightarrow> Some s | None \<Rightarrow> c_sha256 old)\<rparr>
     in evict_old_caches app key (st\<lparr>i_cache := (i_cache st)(key \<mapsto> new)\<rparr>))"


record CachedImageInfo =
  ci_id :: string
  ci_name :: string
  ci_version :: "string option"
  ci_base_os :: "string option"
  ci_base_os_version :: "string option"
  ci_manifest_url :: string

text \<open>\<open>keys\<close> is the order in which the directory lists its entries.\<close>

definition image_info :: "install_env \<Rightarrow> cache_entry \<Rightarrow> CachedImageInfo option" where
  "image_info e c =
    (case (c_zip c, c_manifest_full c) of
       (Some _, Some full) \<Rightarrow>
         (case Option.bind (from_json (e_lib e) (str_bytes full)) (e_manifest e) of
            None \<Rightarrow> None
          | Some m \<Rightarrow>
              (let app = (case c_app_id c of Some s \<Rightarrow> trim s | None \<Rightarrow> m_id m)
               in Some \<lparr>ci_id = app, ci_name = m_name m, ci_version = m_version m, ci_base_os = m_base_os m,
                 ci_base_os_version = m_base_os_version m,
                 ci_manifest_url = ''https://store.nilbox.run/apps/'' @ app @ ''/manifest''\<rparr>))
     | _ \<Rightarrow> None)"

definition list_cached_images :: "install_env \<Rightarrow> string list \<Rightarrow> install_state \<Rightarrow> CachedImageInfo list" where
  "list_cached_images e keys st =
    List.map_filter (\<lambda>k. Option.bind (i_cache st k) (image_info e)) (filter listed_key keys)"


section \<open>Installing\<close>

definition fetch_manifest ::
  "install_env \<Rightarrow> string \<Rightarrow> (install_error, VmManifest \<times> string \<times> string) outcome" where
  "fetch_manifest e url =
    (let L = e_lib e
     in case Option.bind (e_fetch e url) (\<lambda>t. from_json L (str_bytes t)) of
          None \<Rightarrow> Err FetchFailed
        | Some raw \<Rightarrow>
            and_then (map_err NotAuthentic (parse_envelope L raw)) (\<lambda>envelope.
            and_then (map_err NotAuthentic (verify_envelope L envelope)) (\<lambda>v.
            case e_manifest e v of
              None \<Rightarrow> Err BadManifest
            | Some m \<Rightarrow>
                Ok (m, (case envelope of V3 v3 \<Rightarrow> manifest_sha256 (signed_payload (inner v3))
                          | V2 v2 \<Rightarrow> manifest_sha256 (signed_payload v2)
                          | Legacy p \<Rightarrow> manifest_sha256 p), to_json L v))))"

definition normalize_source :: "ManifestSource \<Rightarrow> ManifestSource" where
  "normalize_source src = src\<lparr>image_url := rewrite_to_store (image_url src),
     kernel := map_option rewrite_to_store (kernel src), initrd := map_option rewrite_to_store (initrd src)\<rparr>"

text \<open>Where the archive comes from: its URL, expected hash and signature.\<close>

definition choose_download :: "install_env \<Rightarrow> VmManifest \<Rightarrow> string \<times> string option \<times> string option" where
  "choose_download e m =
    (let direct = (image_url (m_source m), src_sha256 (m_source m), None)
     in case e_client e of
          None \<Rightarrow> direct
        | Some request \<Rightarrow>
            (case request (m_id m) of
               Some d \<Rightarrow> (rewrite_to_store (du_url d), du_sha256 d, du_signature d)
             | None \<Rightarrow> direct))"

definition drop_cache :: "string \<Rightarrow> install_state \<Rightarrow> install_state" where
  "drop_cache key st = st\<lparr>i_cache := (i_cache st)(key := None)\<rparr>"

text \<open>The cached archive, when it may be used; \<open>None\<close> means it has to be downloaded.\<close>

definition use_cache ::
  "install_env \<Rightarrow> ManifestSource \<Rightarrow> string option \<Rightarrow> string \<Rightarrow> string \<Rightarrow> install_state
    \<Rightarrow> install_state \<times> (install_error, bytes option) outcome" where
  "use_cache e src expected manifest_raw manifest_json st =
    (case get_cache_zip e src st of
       None \<Rightarrow> (st, Ok None)
     | Some (key, c, z) \<Rightarrow>
         if (case c_manifest c of Some t \<Rightarrow> t | None \<Rightarrow> []) \<noteq> manifest_raw then (drop_cache key st, Ok None)
         else
           let hit = (if c_manifest_full c = None \<and> manifest_json \<noteq> []
                      then st\<lparr>i_cache := (i_cache st)(key \<mapsto> c\<lparr>c_manifest_full := Some manifest_json\<rparr>)\<rparr> else st)
           in case expected of
                None \<Rightarrow> (hit, Ok (Some z))
              | Some h \<Rightarrow>
                  (case verify_sha256 (e_lib e) z h of
                     Ok _ \<Rightarrow> (hit, Ok (Some z))
                   | Err _ \<Rightarrow> (drop_cache key st, Ok None)
                   | Panic \<Rightarrow> (st, Panic)))"

definition read_file :: "install_state \<Rightarrow> string \<times> string \<Rightarrow> bytes" where
  "read_file st f = (case i_files st f of Some bs \<Rightarrow> bs | None \<Rightarrow> [])"

text \<open>The archive in the VM directory, and whether it has to be saved to the cache.\<close>

definition obtain_archive ::
  "install_env \<Rightarrow> string \<Rightarrow> ManifestSource \<Rightarrow> string \<times> string option \<times> string option \<Rightarrow> string \<Rightarrow> string
    \<Rightarrow> install_state \<Rightarrow> install_state \<times> (install_error, bool) outcome" where
  "obtain_archive e vm src download manifest_raw manifest_json st =
    (let (url, expected, signature) = download; L = e_lib e
     in if tauri_cacheable src
        then then_st (use_cache e src expected manifest_raw manifest_json st) (\<lambda>st1 cached.
          case cached of
            Some z \<Rightarrow> (st1\<lparr>i_files := (i_files st1)((vm, ''disk.zip'') \<mapsto> z)\<rparr>, Ok False)
          | None \<Rightarrow> then_st (download_into e url (vm, ''disk.zip'') st1) (\<lambda>st2 _. (st2, Ok True)))
        else then_st (download_into e url (vm, ''disk.zip'') st) (\<lambda>st1 hashed.
          case expected of
            None \<Rightarrow> (st1, Ok False)
          | Some h \<Rightarrow>
              if sha256_hex L hashed \<noteq> to_lowercase h then (st1, Err Corrupted)
              else (case signature of
                      None \<Rightarrow> (st1, Ok False)
                    | Some sig \<Rightarrow> (st1, and_then (verify_file_signature L h sig) (\<lambda>_. Ok False)))))"

definition vm_record :: "install_env \<Rightarrow> string \<Rightarrow> string \<Rightarrow> VmManifest \<Rightarrow> string option \<Rightarrow> string option \<Rightarrow> VmRecord" where
  "vm_record e vm vm_name m kernel_path initrd_path =
    \<lparr>r_id = vm, r_name = vm_name, r_disk_image = vm_file e vm ''disk.img'', r_kernel = kernel_path,
     r_initrd = initrd_path, r_append = kernel_append (m_source m),
     r_memory_mb = (case min_memory (m_source m) of Some n \<Rightarrow> n | None \<Rightarrow> 512),
     r_cpus = (case min_cpus (m_source m) of Some n \<Rightarrow> n | None \<Rightarrow> 2), r_is_default = False,
     r_description = m_description m, r_last_boot_at = None, r_created_at = [],
     r_admin_url = (case m_admin m of [] \<Rightarrow> None | (u, _) # _ \<Rightarrow> Some u),
     r_admin_label = (case m_admin m of [] \<Rightarrow> None | (_, l) # _ \<Rightarrow> l),
     r_base_os = m_base_os m, r_base_os_version = m_base_os_version m,
     r_target_platform = map_option (join '','') (m_platform m), r_manifest_version = m_version m\<rparr>"

definition register_record ::
  "install_env \<Rightarrow> VmRecord \<Rightarrow> VmManifest \<Rightarrow> install_state \<Rightarrow> install_state \<times> (install_error, VmRecord) outcome" where
  "register_record e r m st =
    (let urls = map (\<lambda>(u, l). (u, case l of Some t \<Rightarrow> t | None \<Rightarrow> [])) (m_admin m);
         (db', res) = insert_vm (e_now e) r urls (i_db st)
     in (st\<lparr>i_db := db'\<rparr>, and_then (map_err Database res) (\<lambda>created. Ok (r\<lparr>r_created_at := created\<rparr>))))"

fun insert_inbound_ports ::
  "string \<Rightarrow> string \<Rightarrow> u16 list \<Rightarrow> install_state \<Rightarrow> install_state \<times> (install_error, unit) outcome" where
  "insert_inbound_ports vm label [] st = (st, Ok ())"
| "insert_inbound_ports vm label (p # ps) st =
    (let (db', res) = insert_port_mapping vm p p label (i_db st)
     in then_st (st\<lparr>i_db := db'\<rparr>, map_err Database res) (\<lambda>st' _. insert_inbound_ports vm label ps st'))"

definition remove_archive :: "string \<Rightarrow> install_state \<Rightarrow> install_state" where
  "remove_archive vm st = st\<lparr>i_files := (i_files st)((vm, ''disk.zip'') := None)\<rparr>"

text \<open>From the verified archive to the registered VM.\<close>

definition unpack_and_register ::
  "install_env \<Rightarrow> string \<Rightarrow> string \<Rightarrow> VmManifest \<Rightarrow> install_state \<Rightarrow> install_state \<times> (install_error, VmRecord) outcome" where
  "unpack_and_register e vm vm_name m st =
    (let src = m_source m; archive = read_file st (vm, ''disk.zip'')
     in then_st (extract_zip e archive (disk_filename src) (vm, ''disk.img'') st) (\<lambda>st1 _.
        then_st (resolve_boot_file e vm archive (kernel src) ''vmlinuz'' st1) (\<lambda>st2 kernel_path.
        then_st (resolve_boot_file e vm archive (initrd src) ''initrd.img'' st2) (\<lambda>st3 initrd_path.
        register_record e (vm_record e vm vm_name m kernel_path initrd_path) m (remove_archive vm st3)))))"

text \<open>The hash that the archive must have: the signed one, else the manifest's.\<close>

definition verify_hash :: "string option \<Rightarrow> ManifestSource \<Rightarrow> string option" where
  "verify_hash expected src = (case expected of Some h \<Rightarrow> Some h | None \<Rightarrow> src_sha256 src)"

definition check_hash :: "install_env \<Rightarrow> bytes \<Rightarrow> string option \<Rightarrow> (install_error, unit) outcome" where
  "check_hash e archive h = (case h of Some x \<Rightarrow> verify_sha256 (e_lib e) archive x | None \<Rightarrow> Ok ())"

text \<open>\<open>vm\<close> is the fresh identifier of the VM.\<close>

definition install_from_manifest_url ::
  "install_env \<Rightarrow> string \<Rightarrow> string \<Rightarrow> string option \<Rightarrow> install_state
    \<Rightarrow> install_state \<times> (install_error, VmRecord) outcome" where
  "install_from_manifest_url e manifest_url vm user_verified st =
    then_st (st, fetch_manifest e manifest_url) (\<lambda>st0 (m0, manifest_raw, manifest_json).
    if \<not> compatible e m0 then (st0, Err (Incompatible (e_host_platform e)))
    else
      let m = m0\<lparr>m_source := normalize_source (m_source m0)\<rparr>;
          vm_name = unique_vm_name (i_db st0) (m_name m);
          download = choose_download e m;
          hash = verify_hash (fst (snd download)) (m_source m)
      in then_st (obtain_archive e vm (m_source m) download manifest_raw manifest_json st0) (\<lambda>st1 needs_cache_save.
         let archive = read_file st1 (vm, ''disk.zip'')
         in then_st (st1, check_hash e archive hash) (\<lambda>st2 _.
            let st3 = (if needs_cache_save
                       then save_to_cache e (m_source m) archive manifest_raw manifest_json (m_id m) hash st2 else st2)
            in then_st (unpack_and_register e vm vm_name m st3) (\<lambda>st4 r.
               then_st (if user_verified = Some ''admin''
                        then insert_inbound_ports vm (m_name m) (m_inbound_ports m) st4 else (st4, Ok ()))
                 (\<lambda>st5 _. (st5, Ok r))))))"

text \<open>\<open>keys\<close> is the order in which the cache directory lists its entries.\<close>

definition find_cached :: "string \<Rightarrow> string list \<Rightarrow> install_state \<Rightarrow> cache_entry option" where
  "find_cached app keys st =
    Option.bind (find (\<lambda>k. listed_key k \<and> (case i_cache st k of Some c \<Rightarrow> has_app_id app c | None \<Rightarrow> False)) keys)
      (i_cache st)"

definition install_from_cache ::
  "install_env \<Rightarrow> string \<Rightarrow> string list \<Rightarrow> string \<Rightarrow> install_state
    \<Rightarrow> install_state \<times> (install_error, VmRecord) outcome" where
  "install_from_cache e app keys vm st =
    (case find_cached app keys st of
       None \<Rightarrow> (st, Err NoCacheEntry)
     | Some c \<Rightarrow>
         (case c_zip c of
            None \<Rightarrow> (st, Err NoCachedZip)
          | Some archive \<Rightarrow>
              (case c_manifest_full c of
                 None \<Rightarrow> (st, Err OutdatedCache)
               | Some full \<Rightarrow>
                   (case Option.bind (from_json (e_lib e) (str_bytes full)) (e_manifest e) of
                      None \<Rightarrow> (st, Err BadManifest)
                    | Some m \<Rightarrow>
                        if \<not> compatible e m then (st, Err (Incompatible (e_host_platform e)))
                        else
                          let src = m_source m;
                              vm_name = unique_vm_name (i_db st) (m_name m);
                              st1 = st\<lparr>i_files := (i_files st)((vm, ''disk.zip'') \<mapsto> archive)\<rparr>;
                              hash = (case c_sha256 c of Some h \<Rightarrow> Some h | None \<Rightarrow> src_sha256 src)
                          in then_st (st1, check_hash e archive hash) (\<lambda>st2 _.
                             then_st (extract_zip e archive (disk_filename src) (vm, ''disk.img'') st2) (\<lambda>st3 _.
                             let (st4, kernel_path) = extract_boot_file_from_zip e vm archive (kernel src) ''vmlinuz'' st3;
                                 (st5, initrd_path) = extract_boot_file_from_zip e vm archive (initrd src) ''initrd.img'' st4
                             in register_record e (vm_record e vm vm_name m kernel_path initrd_path) m
                                  (remove_archive vm st5)))))))"


section \<open>Lemmas\<close>

lemma verify_sha256_Ok [simp]:
  "verify_sha256 L bs h = Ok u \<longleftrightarrow> sha256_hex L bs = to_lowercase h"
  by (simp add: verify_sha256_def)

lemma download_into_db [simp]: "download_into e url dest st = (st', r) \<Longrightarrow> i_db st' = i_db st"
  by (auto simp: download_into_def split: prod.splits outcome.splits)

lemma extract_zip_db: "extract_zip e a f d st = (st', r) \<Longrightarrow> i_db st' = i_db st"
  by (auto simp: extract_zip_def split: outcome.splits option.splits)

lemma extract_zip_files:
  "extract_zip e a f d st = (st', r) \<Longrightarrow> d' \<noteq> d \<Longrightarrow> i_files st' d' = i_files st d'"
  by (auto simp: extract_zip_def split: outcome.splits option.splits)

lemma download_into_files:
  "download_into e url d st = (st', r) \<Longrightarrow> d' \<noteq> d \<Longrightarrow> i_files st' d' = i_files st d'"
  by (auto simp: download_into_def split: prod.splits outcome.splits)

lemma extract_zip_Ok:
  "extract_zip e a f d st = (st', Ok u) \<Longrightarrow>
    \<exists>disk. try_extract e a f = Ok (Some disk) \<and> st' = st\<lparr>i_files := (i_files st)(d \<mapsto> disk)\<rparr>"
  by (auto simp: extract_zip_def split: outcome.splits option.splits)

lemma then_st_pair: "then_st r k = (s', b) \<Longrightarrow> \<exists>s x. r = (s, x) \<and> (s' = s \<or> (\<exists>a. k s a = (s', b)))"
  by (auto simp: then_st_def split: prod.splits outcome.splits)

lemma resolve_boot_file_frame:
  assumes "resolve_boot_file e vm a v name st = (st', r)"
  shows "i_db st' = i_db st \<and> (d \<noteq> (vm, name) \<longrightarrow> i_files st' d = i_files st d)"
proof (cases v)
  case (Some s)
  then consider "s = [] \<or> starts_with s ''/''"
    | "s \<noteq> []" "\<not> starts_with s ''/''" "is_http s" | "s \<noteq> []" "\<not> starts_with s ''/''" "\<not> is_http s"
    by blast
  then show ?thesis
  proof cases
    case 2
    obtain st1 x where "download_into e s (vm, name) st = (st1, x)"
      by fastforce
    then show ?thesis
      using assms Some 2 download_into_files [of e s "(vm, name)" st st1 x d]
      by (cases x) (auto simp: resolve_boot_file_def)
  next
    case 3
    obtain st1 x where "extract_zip e a s (vm, name) st = (st1, x)"
      by fastforce
    then show ?thesis
      using assms Some 3 extract_zip_files [of e a s "(vm, name)" st st1 x d] extract_zip_db [of e a s "(vm, name)" st st1 x]
      by (cases x) (auto simp: resolve_boot_file_def)
  qed (use assms Some in \<open>auto simp: resolve_boot_file_def split: if_splits\<close>)
qed (use assms in \<open>simp add: resolve_boot_file_def\<close>)

lemma insert_admin_rows_keep:
  "vms (foldl (\<lambda>d (url, label). if url \<noteq> [] then insert_admin_row v url label d else d) db urls) = vms db
   \<and> port_mappings (foldl (\<lambda>d (url, label). if url \<noteq> [] then insert_admin_row v url label d else d) db urls) = port_mappings db"
  by (induction urls arbitrary: db) (auto simp: insert_admin_row_def Let_def)

lemma insert_vm_keep:
  assumes "insert_vm now r urls db = (db', res)"
  shows "port_mappings db' = port_mappings db
    \<and> (case res of Ok t \<Rightarrow> t = now \<and> vms db' = vms db @ [r\<lparr>r_created_at := now\<rparr>] | _ \<Rightarrow> db' = db)"
  using assms insert_admin_rows_keep [of "r_id r" "db\<lparr>vms := vms db @ [r\<lparr>r_created_at := now\<rparr>]\<rparr>" urls]
  by (auto simp: insert_vm_def Let_def split: if_splits)

lemma register_record_keep:
  assumes "register_record e r m st = (st', res)"
  shows "i_files st' = i_files st \<and> port_mappings (i_db st') = port_mappings (i_db st)
    \<and> (case res of Ok r' \<Rightarrow> r' = r\<lparr>r_created_at := e_now e\<rparr> \<and> vms (i_db st') = vms (i_db st) @ [r']
       | _ \<Rightarrow> vms (i_db st') = vms (i_db st))"
proof -
  let ?urls = "map (\<lambda>(u, l). (u, case l of Some t \<Rightarrow> t | None \<Rightarrow> [])) (m_admin m)"
  obtain db' x where x: "insert_vm (e_now e) r ?urls (i_db st) = (db', x)"
    by fastforce
  then show ?thesis
    using assms insert_vm_keep [OF x] by (cases x) (auto simp: register_record_def Let_def)
qed

lemma unpack_and_register_Ok:
  assumes "unpack_and_register e vm name m st = (st', Ok r)"
  shows "\<exists>disk k i. try_extract e (read_file st (vm, ''disk.zip'')) (disk_filename (m_source m)) = Ok (Some disk)
    \<and> i_files st' (vm, ''disk.img'') = Some disk \<and> i_files st' (vm, ''disk.zip'') = None
    \<and> r = (vm_record e vm name m k i)\<lparr>r_created_at := e_now e\<rparr>
    \<and> vms (i_db st') = vms (i_db st) @ [r] \<and> port_mappings (i_db st') = port_mappings (i_db st)"
proof -
  let ?z = "read_file st (vm, ''disk.zip'')"
  obtain st1 u st2 k st3 i where steps:
    "extract_zip e ?z (disk_filename (m_source m)) (vm, ''disk.img'') st = (st1, Ok u)"
    "resolve_boot_file e vm ?z (kernel (m_source m)) ''vmlinuz'' st1 = (st2, Ok k)"
    "resolve_boot_file e vm ?z (initrd (m_source m)) ''initrd.img'' st2 = (st3, Ok i)"
    "register_record e (vm_record e vm name m k i) m (remove_archive vm st3) = (st', Ok r)"
    using assms by (auto simp: unpack_and_register_def Let_def then_st_Ok)
  obtain disk where disk: "try_extract e ?z (disk_filename (m_source m)) = Ok (Some disk)"
    "st1 = st\<lparr>i_files := (i_files st)((vm, ''disk.img'') \<mapsto> disk)\<rparr>"
    using extract_zip_Ok [OF steps(1)] by blast
  have "i_files st3 (vm, ''disk.img'') = Some disk" "i_db st3 = i_db st"
    using disk resolve_boot_file_frame [OF steps(2), of "(vm, ''disk.img'')"]
      resolve_boot_file_frame [OF steps(3), of "(vm, ''disk.img'')"] by auto
  then show ?thesis
    using disk(1) register_record_keep [OF steps(4)] by (auto simp: remove_archive_def)
qed

lemma then_st_frame: "P (fst r) \<Longrightarrow> (\<And>s a. P s \<Longrightarrow> P (fst (k s a))) \<Longrightarrow> P (fst (then_st r k))"
  by (auto simp: then_st_def split: prod.splits outcome.splits)

lemma use_cache_db: "i_db (fst (use_cache e src h raw js st)) = i_db st"
  by (simp add: use_cache_def drop_cache_def Let_def split: option.split outcome.split)

lemma obtain_archive_db:
  assumes "obtain_archive e vm src d raw js st = (st', r)"
  shows "i_db st' = i_db st"
proof -
  have load: "i_db (fst (download_into e url f s)) = i_db s" for url f s
    by (rule download_into_db [of e url f s _ "snd (download_into e url f s)"]) simp
  obtain url h sig where d: "d = (url, h, sig)"
    by (cases d)
  have "i_db (fst (obtain_archive e vm src d raw js st)) = i_db st"
  proof (cases "tauri_cacheable src")
    case True
    then show ?thesis
      unfolding obtain_archive_def d Let_def prod.case
      by (simp only: if_True, intro then_st_frame [where P = "\<lambda>s. i_db s = i_db st"])
        (auto simp: use_cache_db load split: option.split intro!: then_st_frame [where P = "\<lambda>s. i_db s = i_db st"])
  next
    case False
    then show ?thesis
      unfolding obtain_archive_def d Let_def prod.case
      by (simp only: if_False, intro then_st_frame [where P = "\<lambda>s. i_db s = i_db st"])
        (auto simp: load split: option.split)
  qed
  then show ?thesis
    by (simp add: assms)
qed

lemma insert_inbound_ports_keep:
  "insert_inbound_ports vm label ps st = (st', r) \<Longrightarrow> i_files st' = i_files st \<and> vms (i_db st') = vms (i_db st)"
proof (induction ps arbitrary: st)
  case (Cons p ps)
  obtain db x where "insert_port_mapping vm p p label (i_db st) = (db, x)"
    by fastforce
  then show ?case
    using Cons vms_insert_port_mapping [of vm p p label "i_db st"] by (cases x) fastforce+
qed simp

lemma save_to_cache_keep [simp]:
  "i_db (save_to_cache e src z raw js app h st) = i_db st"
  "i_files (save_to_cache e src z raw js app h st) = i_files st"
  by (simp_all add: save_to_cache_def evict_old_caches_def Let_def)

text \<open>A successful installation, step by step.\<close>

lemma install_Ok:
  assumes "install_from_manifest_url e url vm uv st = (st', Ok r)"
  shows "\<exists>m0 raw js m archive disk k i st4. fetch_manifest e url = Ok (m0, raw, js) \<and> compatible e m0
    \<and> m = m0\<lparr>m_source := normalize_source (m_source m0)\<rparr>
    \<and> check_hash e archive (verify_hash (fst (snd (choose_download e m))) (m_source m)) = Ok ()
    \<and> try_extract e archive (disk_filename (m_source m)) = Ok (Some disk)
    \<and> i_files st' (vm, ''disk.img'') = Some disk \<and> i_files st' (vm, ''disk.zip'') = None
    \<and> r = (vm_record e vm (unique_vm_name (i_db st) (m_name m)) m k i)\<lparr>r_created_at := e_now e\<rparr>
    \<and> vms (i_db st') = vms (i_db st) @ [r]
    \<and> port_mappings (i_db st4) = port_mappings (i_db st)
    \<and> (if uv = Some ''admin'' then insert_inbound_ports vm (m_name m) (m_inbound_ports m) st4 = (st', Ok ())
       else st' = st4)"
proof -
  obtain m0 raw js where fetched: "fetch_manifest e url = Ok (m0, raw, js)" "compatible e m0"
    using assms by (auto simp: install_from_manifest_url_def then_st_Ok split: if_splits)
  define m where m: "m = m0\<lparr>m_source := normalize_source (m_source m0)\<rparr>"
  let ?name = "unique_vm_name (i_db st) (m_name m)"
  let ?h = "verify_hash (fst (snd (choose_download e m))) (m_source m)"
  obtain st1 b st4 where steps:
    "obtain_archive e vm (m_source m) (choose_download e m) raw js st = (st1, Ok b)"
    "check_hash e (read_file st1 (vm, ''disk.zip'')) ?h = Ok ()"
    "unpack_and_register e vm ?name m
       (if b then save_to_cache e (m_source m) (read_file st1 (vm, ''disk.zip'')) raw js (m_id m) ?h st1 else st1)
       = (st4, Ok r)"
    "(if uv = Some ''admin'' then insert_inbound_ports vm (m_name m) (m_inbound_ports m) st4 else (st4, Ok ()))
       = (st', Ok ())"
    using assms fetched unfolding install_from_manifest_url_def by (auto simp: Let_def then_st_Ok simp flip: m)
  have read: "read_file (if b then save_to_cache e (m_source m) z raw js (m_id m) h st1 else st1) f = read_file st1 f"
    for z h f
    by (simp add: read_file_def)
  have "i_files st' = i_files st4 \<and> vms (i_db st') = vms (i_db st4)"
    using steps(4) insert_inbound_ports_keep by (fastforce split: if_splits)
  then show ?thesis
    using fetched m steps(2,4) unpack_and_register_Ok [OF steps(3)] obtain_archive_db [OF steps(1)]
    by (auto simp: read split: if_splits)
qed

lemma fetch_manifest_Ok:
  "fetch_manifest e url = Ok (m, raw, js) \<Longrightarrow>
    \<exists>doc v. Option.bind (e_fetch e url) (\<lambda>t. from_json (e_lib e) (str_bytes t)) = Some doc
      \<and> checked_manifest (e_lib e) doc = Ok v \<and> e_manifest e v = Some m"
  by (auto simp: fetch_manifest_def checked_manifest_def Let_def split: option.splits)

lemma insert_port_row: "insert_port_mapping vm hp vp l db = (db', Ok n) \<Longrightarrow>
    \<exists>e \<in> set (rows (port_mappings db')). pm_vm (snd e) = vm \<and> pm_host_port (snd e) = hp"
  by (auto simp: insert_port_mapping_def tbl_ex_def list_ex_iff tbl_insert_def Let_def split: if_splits)

lemma insert_port_grows:
  "set (rows (port_mappings db)) \<subseteq> set (rows (port_mappings (fst (insert_port_mapping vm hp vp l db))))"
  by (auto simp: insert_port_mapping_def tbl_insert_def Let_def)

lemma insert_inbound_ports_rows:
  "insert_inbound_ports vm l ps st = (st', Ok u) \<Longrightarrow>
    set (rows (port_mappings (i_db st))) \<subseteq> set (rows (port_mappings (i_db st')))
    \<and> (\<forall>p \<in> set ps. \<exists>e \<in> set (rows (port_mappings (i_db st'))). pm_vm (snd e) = vm \<and> pm_host_port (snd e) = p)"
proof (induction ps arbitrary: st)
  case (Cons p ps)
  obtain db x where step: "insert_port_mapping vm p p l (i_db st) = (db, x)"
    by fastforce
  then obtain n where n: "x = Ok n" "insert_inbound_ports vm l ps (st\<lparr>i_db := db\<rparr>) = (st', Ok u)"
    using Cons.prems by (cases x) auto
  show ?case
    using Cons.IH [OF n(2)] insert_port_grows [of "i_db st" vm p p l] insert_port_row [of vm p p l] step n(1)
    by fastforce
qed simp


section \<open>Properties\<close>

text \<open>C19: the installed disk image is the file the manifest names, out of an archive whose SHA-256 is
  the expected one (the server's, else the manifest's) whenever there is one; the manifest passed the
  checks of the store envelope; the archive is removed.\<close>

theorem installed_disk_verified:
  assumes "install_from_manifest_url e url vm uv st = (st', Ok r)"
  shows "\<exists>doc v m0 m archive disk.
    Option.bind (e_fetch e url) (\<lambda>t. from_json (e_lib e) (str_bytes t)) = Some doc
    \<and> checked_manifest (e_lib e) doc = Ok v \<and> e_manifest e v = Some m0 \<and> compatible e m0
    \<and> m = m0\<lparr>m_source := normalize_source (m_source m0)\<rparr>
    \<and> (\<forall>h. verify_hash (fst (snd (choose_download e m))) (m_source m) = Some h \<longrightarrow>
          sha256_hex (e_lib e) archive = to_lowercase h)
    \<and> try_extract e archive (disk_filename (m_source m)) = Ok (Some disk)
    \<and> i_files st' (vm, ''disk.img'') = Some disk \<and> i_files st' (vm, ''disk.zip'') = None"
  using install_Ok [OF assms] fetch_manifest_Ok
  by (fastforce simp: check_hash_def split: option.splits)

text \<open>a successful installation registers exactly one VM, under the fresh identifier and a name no VM
  has; inbound ports are mapped only for an administrator, and then all of them.\<close>

theorem install_registers_one_vm:
  assumes "install_from_manifest_url e url vm uv st = (st', Ok r)"
  shows "vms (i_db st') = vms (i_db st) @ [r] \<and> r_id r = vm \<and> r_name r \<notin> r_name ` set (vms (i_db st))
    \<and> (if uv = Some ''admin''
       then \<exists>m. fetch_manifest e url = Ok m \<and> (\<forall>p \<in> set (m_inbound_ports (fst m)).
              \<exists>x \<in> set (rows (port_mappings (i_db st'))). pm_vm (snd x) = vm \<and> pm_host_port (snd x) = p)
       else port_mappings (i_db st') = port_mappings (i_db st))"
proof -
  obtain m0 raw js m k i st4 where run: "fetch_manifest e url = Ok (m0, raw, js)"
    "m = m0\<lparr>m_source := normalize_source (m_source m0)\<rparr>"
    "r = (vm_record e vm (unique_vm_name (i_db st) (m_name m)) m k i)\<lparr>r_created_at := e_now e\<rparr>"
    "vms (i_db st') = vms (i_db st) @ [r]" "port_mappings (i_db st4) = port_mappings (i_db st)"
    "if uv = Some ''admin'' then insert_inbound_ports vm (m_name m) (m_inbound_ports m) st4 = (st', Ok ()) else st' = st4"
    using install_Ok [OF assms] by blast
  have "r_id r = vm" "r_name r = unique_vm_name (i_db st) (m_name m)"
    by (simp_all add: run(3) vm_record_def)
  moreover have "m_inbound_ports m = m_inbound_ports m0"
    by (simp add: run(2))
  ultimately show ?thesis
    using run insert_inbound_ports_rows [of vm "m_name m" "m_inbound_ports m" st4 st' "()"] unique_name_fresh
    by auto
qed

definition sample_manifest :: VmManifest where
  "sample_manifest = \<lparr>m_id = ''deb'', m_name = ''Debian'', m_version = Some ''1'', m_category = None, m_description = None,
     m_source = \<lparr>image_url = ''/d.zip'', image_format = None, first_boot_script = None, disk_image = Some ''disk.img'',
       src_sha256 = Some ''00'', kernel = None, initrd = None, kernel_append = None, min_memory = None, min_cpus = None,
       tauri_cacheable = False\<rparr>,
     m_inbound_ports = [22], m_admin = [], m_base_os = None, m_base_os_version = None, m_platform = None\<rparr>"

definition sample_env :: install_env where
  "sample_env = \<lparr>e_lib = sample_lib\<lparr>from_json := (\<lambda>_. Some (legacy_document ''00'' (JNum 1)))\<rparr>,
     e_host_platform = ''linux'', e_fetch = (\<lambda>_. Some []), e_get = (\<lambda>_ _. Some \<lparr>status = 200, chunks = [[7]], stream_ok = True\<rparr>),
     e_client = None, e_zip = (\<lambda>bs. Some [Some (''x/disk.img'', bs)]), e_manifest = (\<lambda>_. Some sample_manifest),
     e_url_hash = (\<lambda>u. u), e_app_dir = [], e_now = ''now''\<rparr>"

definition sample_state :: install_state where
  "sample_state = \<lparr>i_cache = Map.empty, i_files = Map.empty, i_db = sample_db\<rparr>"

lemma sample_install:
  "\<exists>st' r. install_from_manifest_url sample_env [] ''v'' (Some ''admin'') sample_state = (st', Ok r)"
proof -
  let ?run = "install_from_manifest_url sample_env [] ''v'' (Some ''admin'') sample_state"
  have "case snd ?run of Ok _ \<Rightarrow> True | _ \<Rightarrow> False"
    by code_simp
  then show ?thesis
    by (cases ?run) (simp split: outcome.splits)
qed

theorem installed_disk_verified_witness:
  "\<exists>st' (m :: VmManifest) archive disk. sha256_hex (e_lib sample_env) archive = ''00''
     \<and> try_extract sample_env archive (disk_filename (m_source m)) = Ok (Some disk)
     \<and> fst (install_from_manifest_url sample_env [] ''v'' (Some ''admin'') sample_state) = st'
     \<and> i_files st' (''v'', ''disk.img'') = Some disk"
proof -
  obtain st' r where run: "install_from_manifest_url sample_env [] ''v'' (Some ''admin'') sample_state = (st', Ok r)"
    using sample_install by blast
  have sha: "sha256_hex (e_lib sample_env) archive = ''00''" for archive
    by (simp add: sample_env_def sample_lib_def)
  obtain m :: VmManifest and archive disk where "try_extract sample_env archive (disk_filename (m_source m)) = Ok (Some disk)"
    "i_files st' (''v'', ''disk.img'') = Some disk"
    using installed_disk_verified [OF run] by blast
  then show ?thesis
    using run sha by (simp only: fst_conv) blast
qed

theorem install_registers_one_vm_witness:
  "map r_id (vms (i_db (fst (install_from_manifest_url sample_env [] ''v'' (Some ''admin'') sample_state))))
    = [''a'', ''b'', ''v'']"
proof -
  obtain st' r where run: "install_from_manifest_url sample_env [] ''v'' (Some ''admin'') sample_state = (st', Ok r)"
    using sample_install by blast
  show ?thesis
    using install_registers_one_vm [OF run] run by (simp add: sample_state_def sample_db_def sample_vm_def)
qed

text \<open>for a cacheable image the signature the server sends with the download is ignored: any
  other, or none, gives the same installation.\<close>

theorem cacheable_ignores_signature:
  assumes "tauri_cacheable src"
  shows "obtain_archive e vm src (url, h, sig) raw js st = obtain_archive e vm src (url, h, sig') raw js st"
  using assms by (simp add: obtain_archive_def)

theorem cacheable_ignores_signature_witness:
  "let src = (m_source sample_manifest)\<lparr>tauri_cacheable := True\<rparr>
   in \<exists>st'. obtain_archive sample_env ''v'' src (''u'', Some ''00'', Some ''forged'') [] [] sample_state = (st', Ok True)
     \<and> obtain_archive sample_env ''v'' src (''u'', Some ''00'', None) [] [] sample_state = (st', Ok True)"
  unfolding Let_def
  by (subst cacheable_ignores_signature [where sig' = None])
    (simp_all add: obtain_archive_def use_cache_def get_cache_zip_def download_into_def download_file_with_hash_def
      download_stream_def sample_env_def sample_state_def Let_def)

text \<open>reporting a mismatch cuts the expected hash to twelve bytes: a manifest whose hash is shorter
  and does not match makes the installer panic instead of failing.\<close>

theorem short_hash_panics:
  assumes "length (to_lowercase expected) < 12"
  shows "verify_sha256 L contents expected = (if sha256_hex L contents = to_lowercase expected then Ok () else Panic)"
  using assms by (simp add: verify_sha256_def can_cut_def)

theorem short_hash_panics_witness: "verify_sha256 sample_lib [] ''abc'' = Panic"
  using short_hash_panics [of "''abc''" sample_lib "[]"] by (simp add: sample_lib_def to_lowercase_def)

text \<open>after an archive was saved, a lookup for its application finds exactly it, whatever order the
  directory lists its entries in: every other version was evicted.\<close>

theorem saved_image_found:
  assumes "listed_key (cache_key_for e src)" "trim app = app" "cache_key_for e src \<in> set keys"
    and "st' = save_to_cache e src archive raw js app h st"
  shows "\<exists>c. find_cached app keys st' = Some c \<and> c_zip c = Some archive \<and> c_manifest_full c = Some js
    \<and> (\<forall>k c'. listed_key k \<and> i_cache st' k = Some c' \<and> has_app_id app c' \<longrightarrow> k = cache_key_for e src)"
proof -
  let ?key = "cache_key_for e src"
  let ?P = "\<lambda>k. listed_key k \<and> (case i_cache st' k of Some c \<Rightarrow> has_app_id app c | None \<Rightarrow> False)"
  have only: "?P k \<Longrightarrow> k = ?key" for k
    by (auto simp: assms(4) save_to_cache_def evict_old_caches_def Let_def split: option.splits if_splits)
  obtain c where c: "i_cache st' ?key = Some c" "c_zip c = Some archive" "c_manifest_full c = Some js" "c_app_id c = Some app"
    by (simp add: assms(4) save_to_cache_def evict_old_caches_def Let_def)
  then have "?P ?key"
    using assms(1,2) by (simp add: has_app_id_def)
  then have "find ?P keys \<noteq> None"
    using assms(3) by (auto simp: find_None_iff)
  then obtain k where "find ?P keys = Some k" "?P k"
    by (auto simp: find_Some_iff)
  then show ?thesis
    using c only by (auto simp: find_cached_def)
qed

theorem saved_image_found_witness:
  "\<exists>c. find_cached ''deb'' [''ff'', ''00''] (save_to_cache sample_env (m_source sample_manifest) [1] [] ''{}'' ''deb'' None
      sample_state) = Some c \<and> c_zip c = Some [1]"
proof -
  have "cache_key_for sample_env (m_source sample_manifest) = ''00''"
    by (simp add: cache_key_for_def sample_manifest_def)
  moreover have "trim ''deb'' = ''deb''"
    by code_simp
  ultimately show ?thesis
    using saved_image_found [OF _ _ _ refl, of sample_env "m_source sample_manifest" "''deb''" "[''ff'', ''00'']" "[1]" "[]" "''{}''"
      None sample_state] by (auto simp: listed_key_def)
qed

lemma find_slash: "CHR ''/'' \<notin> set host \<Longrightarrow> find_str (host @ t) ''/'' = map_option ((+) (length host)) (find_str t ''/'')"
  by (induction host) (auto simp: option.map_comp comp_def map_option_case split: option.split)

text \<open>every HTTP URL with a path is sent to the store, whatever host the manifest names, and keeps its
  path; a URL that has no slash after the host keeps its host.\<close>

theorem store_host_enforced:
  assumes "scheme = ''http:'' \<or> scheme = ''https:''" "CHR ''/'' \<notin> set host"
  shows "rewrite_to_store (scheme @ ''//'' @ host @ ''/'' @ path) = STORE_BASE_URL @ ''/'' @ path
    \<and> rewrite_to_store (scheme @ ''//'' @ host) = scheme @ ''//'' @ host"
  using assms find_slash [OF assms(2), of "''/'' @ path"] find_slash [OF assms(2), of "[]"]
  by (auto simp: rewrite_to_store_def is_http_def numeral_eq_Suc)

theorem store_host_enforced_witness:
  "rewrite_to_store ''http://evil.example/a/b.zip'' = STORE_BASE_URL @ ''/a/b.zip''
   \<and> rewrite_to_store ''http://evil.example'' = ''http://evil.example''"
  using store_host_enforced [of "''http:''" "''evil.example''" "''a/b.zip''"] by simp

end
