(* ===== verification/Vm_Service.thy ===== *)
theory Vm_Service
  imports Vm_Install Gateway File_Proxy Keystore
begin

text \<open>
  \<open>crates/nilbox-core/src/service.rs\<close>: the VMs the service knows, their configuration, port and file
  mappings.  A VM instance (\<open>state.rs\<close>) keeps a copy of what the database records; its platform is
  the configuration it was created with.  The virtualisation platform, the operating system and
  the connection to the guest are fields of \<open>svc_env\<close>; events and log messages are left out.
\<close>

datatype VmStatus = Stopped | Starting | Running | Stopping | VmError

record VmConfig =
  vc_disk_image :: string
  vc_kernel :: "string option"
  vc_initrd :: "string option"
  vc_append :: "string option"
  vc_memory_mb :: u32
  vc_cpus :: u32

record VmInstance =
  in_id :: string
  in_name :: string
  in_description :: "string option"
  in_last_boot_at :: "string option"
  in_created_at :: string
  in_memory_mb :: u32
  in_cpus :: u32
  in_base_os :: "string option"
  in_base_os_version :: "string option"
  in_target_platform :: "string option"
  in_manifest_version :: "string option"
  in_admin_urls :: "(nat \<times> AdminUrlRecord) list"
  in_platform :: VmConfig
  in_multiplexer :: bool
  in_ssh_client :: bool
  in_file_proxies :: "nat \<rightharpoonup> FileProxy"
  in_metrics_cancelled :: bool
  in_disk_image :: string

datatype rmdir_result = Removed | Missing | RmdirFailed

record svc_env =
  v_status :: "string \<Rightarrow> VmStatus"
  v_create :: "VmConfig \<Rightarrow> bool"
  v_stop :: "string \<Rightarrow> bool"
  v_rmdir :: "string \<Rightarrow> rmdir_result"
  v_free :: "u16 \<Rightarrow> bool"
  v_os_port :: "u16 option"
  v_max_cpus :: u32
  v_home :: "string option"
  v_stream :: "u32 \<Rightarrow> bool"
  v_os :: os
  v_fs :: hostfs
  v_len :: "string \<Rightarrow> u64 option"

record core_state =
  s_vms :: "string \<rightharpoonup> VmInstance"
  s_active :: "string option"
  s_gateway :: gateway
  s_install :: install_state
  s_removed :: "string list"
  s_removals :: "nat set"

datatype svc_error =
    VmNotFound string | RecordNotFound string | Db db_error | PlatformFailed | NotStopped VmStatus | NotRunning VmStatus
  | MemoryRange u32 | CpuRange u32 | PrivilegedPort u16 | ZeroPort | ReservedPort u16 | GatewayFailed gateway_error
  | NotAbsolute string | MountExists string | TooManyMappings | NoHostPath string | BeingRemoved nat
  | InstallFailed install_error | NoDiskImage string | NotLarger

type_synonym 'a svc = "core_state \<times> (svc_error, 'a) outcome"

definition s_db :: "core_state \<Rightarrow> vm_db" where "s_db st = i_db (s_install st)"

definition on_db :: "(vm_db \<Rightarrow> vm_db \<times> (db_error, 'a) outcome) \<Rightarrow> core_state \<Rightarrow> 'a svc" where
  "on_db f st = (let (db', r) = f (s_db st) in (st\<lparr>s_install := (s_install st)\<lparr>i_db := db'\<rparr>\<rparr>, map_err Db r))"

definition set_instance :: "string \<Rightarrow> VmInstance \<Rightarrow> core_state \<Rightarrow> core_state" where
  "set_instance vid v st = st\<lparr>s_vms := (s_vms st)(vid \<mapsto> v)\<rparr>"

text \<open>\<open>get_vm\<close> of the service.\<close>

definition with_vm :: "string \<Rightarrow> (VmInstance \<Rightarrow> 'a svc) \<Rightarrow> core_state \<Rightarrow> 'a svc" where
  "with_vm vid k st = (case s_vms st vid of Some v \<Rightarrow> k v | None \<Rightarrow> (st, Err (VmNotFound vid)))"

definition with_record :: "string \<Rightarrow> (VmRecord \<Rightarrow> 'a svc) \<Rightarrow> core_state \<Rightarrow> 'a svc" where
  "with_record vid k st =
    (case get_vm vid (s_db st) of
       Ok (Some r) \<Rightarrow> k r
     | Ok None \<Rightarrow> (st, Err (RecordNotFound vid))
     | Err e \<Rightarrow> (st, Err (Db e))
     | Panic \<Rightarrow> (st, Panic))"


section \<open>VMs\<close>

definition config_of :: "VmRecord \<Rightarrow> VmConfig" where
  "config_of r = \<lparr>vc_disk_image = r_disk_image r, vc_kernel = r_kernel r, vc_initrd = r_initrd r,
     vc_append = r_append r, vc_memory_mb = r_memory_mb r, vc_cpus = r_cpus r\<rparr>"

definition instance_of :: "VmRecord \<Rightarrow> (nat \<times> AdminUrlRecord) list \<Rightarrow> VmInstance" where
  "instance_of r urls =
    \<lparr>in_id = r_id r, in_name = r_name r, in_description = r_description r, in_last_boot_at = r_last_boot_at r,
     in_created_at = r_created_at r, in_memory_mb = r_memory_mb r, in_cpus = r_cpus r, in_base_os = r_base_os r,
     in_base_os_version = r_base_os_version r, in_target_platform = r_target_platform r,
     in_manifest_version = r_manifest_version r, in_admin_urls = urls, in_platform = config_of r,
     in_multiplexer = False, in_ssh_client = False, in_file_proxies = Map.empty, in_metrics_cancelled = False,
     in_disk_image = r_disk_image r\<rparr>"

definition register_vm :: "svc_env \<Rightarrow> VmRecord \<Rightarrow> core_state \<Rightarrow> string svc" where
  "register_vm e r st =
    (if \<not> v_create e (config_of r) then (st, Err PlatformFailed)
     else
       let st1 = set_instance (r_id r) (instance_of r (list_vm_admin_urls (r_id r) (s_db st))) st
       in (if s_active st = None \<or> r_is_default r then st1\<lparr>s_active := Some (r_id r)\<rparr> else st1, Ok (r_id r)))"

text \<open>\<open>vid\<close> is the fresh identifier, \<open>now\<close> the time the database records.\<close>

definition create_vm :: "svc_env \<Rightarrow> string \<Rightarrow> string \<Rightarrow> string \<Rightarrow> VmConfig \<Rightarrow> core_state \<Rightarrow> string svc" where
  "create_vm e vid now name c st =
    (let r = \<lparr>r_id = vid, r_name = name, r_disk_image = vc_disk_image c, r_kernel = vc_kernel c, r_initrd = vc_initrd c,
           r_append = vc_append c, r_memory_mb = vc_memory_mb c, r_cpus = vc_cpus c, r_is_default = True,
           r_description = None, r_last_boot_at = None, r_created_at = [], r_admin_url = None, r_admin_label = None,
           r_base_os = None, r_base_os_version = None, r_target_platform = None, r_manifest_version = None\<rparr>
     in then_st (on_db (insert_vm now r []) st) (\<lambda>st1 created.
        then_st (on_db (set_default_vm vid) st1) (\<lambda>st2 _.
        if \<not> v_create e c then (st2, Err PlatformFailed)
        else
          let st3 = set_instance vid (instance_of (r\<lparr>r_created_at := created\<rparr>) []) st2
          in (if s_active st3 = None then st3\<lparr>s_active := Some vid\<rparr> else st3, Ok vid))))"

definition vm_files :: "VmRecord \<Rightarrow> string list" where
  "vm_files r = r_disk_image r # (case r_kernel r of Some k \<Rightarrow> [k] | None \<Rightarrow> []) @ (case r_initrd r of Some i \<Rightarrow> [i] | None \<Rightarrow> [])"

text \<open>The files that are removed when the VM has no directory of its own.\<close>

definition removed_files :: "VmRecord \<Rightarrow> (db_error, VmRecord list) outcome \<Rightarrow> string list" where
  "removed_files r remaining =
    r_disk_image r #
    (case remaining of
       Ok all_vms \<Rightarrow>
         (let kept = concat (map vm_files all_vms)
          in (case r_kernel r of Some k \<Rightarrow> if k \<notin> set kept then [k] else [] | None \<Rightarrow> [])
             @ (case r_initrd r of Some i \<Rightarrow> if i \<notin> set kept then [i] else [] | None \<Rightarrow> []))
     | _ \<Rightarrow> [])"

definition drop_vm_dir :: "string \<Rightarrow> core_state \<Rightarrow> core_state" where
  "drop_vm_dir vid st =
    st\<lparr>s_install := (s_install st)\<lparr>i_files := (\<lambda>(v, n). if v = vid then None else i_files (s_install st) (v, n))\<rparr>\<rparr>"

definition svc_delete_vm :: "svc_env \<Rightarrow> string \<Rightarrow> core_state \<Rightarrow> unit svc" where
  "svc_delete_vm e vid st =
    (if s_vms st vid = None then (st, Err (VmNotFound vid))
     else
       let st1 = st\<lparr>s_vms := (s_vms st)(vid := None)\<rparr>
       in if v_status e vid \<in> {Running, Starting} \<and> \<not> v_stop e vid then (st1, Err PlatformFailed)
          else
            let st2 = (if s_active st1 = Some vid then st1\<lparr>s_active := None\<rparr> else st1);
                r = (case get_vm vid (s_db st2) of Ok x \<Rightarrow> x | _ \<Rightarrow> None)
            in then_st (on_db (delete_vm vid) st2) (\<lambda>st3 _.
               (case v_rmdir e vid of
                  Removed \<Rightarrow> (drop_vm_dir vid st3, Ok ())
                | RmdirFailed \<Rightarrow> (st3, Ok ())
                | Missing \<Rightarrow>
                    (case r of
                       None \<Rightarrow> (st3, Ok ())
                     | Some x \<Rightarrow> (st3\<lparr>s_removed := s_removed st3 @ removed_files x (list_vms (s_db st3))\<rparr>, Ok ())))))"

definition svc_stop_vm :: "svc_env \<Rightarrow> string \<Rightarrow> core_state \<Rightarrow> unit svc" where
  "svc_stop_vm e vid st =
    with_vm vid (\<lambda>v.
      if \<not> v_stop e vid then (st, Err PlatformFailed)
      else (set_instance vid (v\<lparr>in_metrics_cancelled := True, in_multiplexer := False, in_ssh_client := False\<rparr>)
              (st\<lparr>s_gateway := remove_mappings_for_vm vid (s_gateway st)\<rparr>), Ok ())) st"

definition svc_vm_status :: "svc_env \<Rightarrow> string \<Rightarrow> core_state \<Rightarrow> VmStatus svc" where
  "svc_vm_status e vid st = with_vm vid (\<lambda>_. (st, Ok (v_status e vid))) st"

definition select_vm :: "string \<Rightarrow> core_state \<Rightarrow> unit svc" where
  "select_vm vid st = (if s_vms st vid = None then (st, Err (VmNotFound vid)) else (st\<lparr>s_active := Some vid\<rparr>, Ok ()))"

definition active_vm_instance :: "core_state \<Rightarrow> VmInstance option" where
  "active_vm_instance st = Option.bind (s_active st) (s_vms st)"

definition get_vm_disk_size :: "svc_env \<Rightarrow> string \<Rightarrow> core_state \<Rightarrow> u64 svc" where
  "get_vm_disk_size e vid st =
    with_record vid (\<lambda>r. case v_len e (r_disk_image r) of
      Some n \<Rightarrow> (st, Ok n) | None \<Rightarrow> (st, Err (NoDiskImage (r_disk_image r)))) st"

text \<open>The new length of the image; the product does not overflow 64 bits.\<close>

definition resize_vm_disk :: "svc_env \<Rightarrow> string \<Rightarrow> u32 \<Rightarrow> core_state \<Rightarrow> u64 svc" where
  "resize_vm_disk e vid gb st =
    with_record vid (\<lambda>r. with_vm vid (\<lambda>_.
      if v_status e vid \<noteq> Stopped then (st, Err (NotStopped (v_status e vid)))
      else (case v_len e (r_disk_image r) of
              None \<Rightarrow> (st, Err (NoDiskImage (r_disk_image r)))
            | Some cur \<Rightarrow>
                (let new = ucast gb * 1024 * 1024 * 1024 in if new \<le> cur then (st, Err NotLarger) else (st, Ok new)))) st) st"

text \<open>The common part of the setters: the record, then the instance.\<close>

definition update_record ::
  "string \<Rightarrow> (VmRecord \<Rightarrow> VmRecord) \<Rightarrow> (VmInstance \<Rightarrow> VmInstance) \<Rightarrow> (VmRecord \<Rightarrow> core_state \<Rightarrow> unit svc) \<Rightarrow> core_state \<Rightarrow> unit svc" where
  "update_record vid f g k st =
    with_vm vid (\<lambda>v. with_record vid (\<lambda>r0.
      let r = f r0
      in then_st (on_db (update_vm r) st) (\<lambda>st1 _. k r (set_instance vid (g v) st1))) st) st"

definition recreate :: "svc_env \<Rightarrow> string \<Rightarrow> VmRecord \<Rightarrow> core_state \<Rightarrow> unit svc" where
  "recreate e vid r st =
    (if \<not> v_create e (config_of r) then (st, Err PlatformFailed)
     else (st\<lparr>s_vms := (s_vms st)(vid := map_option (\<lambda>v. v\<lparr>in_platform := config_of r\<rparr>) (s_vms st vid))\<rparr>, Ok ()))"

definition stopped_only :: "svc_env \<Rightarrow> string \<Rightarrow> (core_state \<Rightarrow> unit svc) \<Rightarrow> core_state \<Rightarrow> unit svc" where
  "stopped_only e vid k st =
    with_vm vid (\<lambda>_. if v_status e vid \<noteq> Stopped then (st, Err (NotStopped (v_status e vid))) else k st) st"

definition update_vm_memory :: "svc_env \<Rightarrow> string \<Rightarrow> u32 \<Rightarrow> core_state \<Rightarrow> unit svc" where
  "update_vm_memory e vid mb st =
    (if mb < 256 \<or> 65536 < mb then (st, Err (MemoryRange mb))
     else stopped_only e vid
       (update_record vid (\<lambda>r. r\<lparr>r_memory_mb := mb\<rparr>) (\<lambda>v. v\<lparr>in_memory_mb := mb\<rparr>) (recreate e vid)) st)"

definition update_vm_cpus :: "svc_env \<Rightarrow> string \<Rightarrow> u32 \<Rightarrow> core_state \<Rightarrow> unit svc" where
  "update_vm_cpus e vid n st =
    (if n < 1 \<or> v_max_cpus e < n then (st, Err (CpuRange n))
     else stopped_only e vid
       (update_record vid (\<lambda>r. r\<lparr>r_cpus := n\<rparr>) (\<lambda>v. v\<lparr>in_cpus := n\<rparr>) (recreate e vid)) st)"

definition update_vm_name :: "string \<Rightarrow> string \<Rightarrow> core_state \<Rightarrow> unit svc" where
  "update_vm_name vid name =
    update_record vid (\<lambda>r. r\<lparr>r_name := name\<rparr>) (\<lambda>v. v\<lparr>in_name := name\<rparr>) (\<lambda>_ st. (st, Ok ()))"

definition update_vm_description :: "string \<Rightarrow> string option \<Rightarrow> core_state \<Rightarrow> unit svc" where
  "update_vm_description vid d =
    update_record vid (\<lambda>r. r\<lparr>r_description := d\<rparr>) (\<lambda>v. v\<lparr>in_description := d\<rparr>) (\<lambda>_ st. (st, Ok ()))"

definition append_vm_description :: "string \<Rightarrow> string \<Rightarrow> core_state \<Rightarrow> unit svc" where
  "append_vm_description vid tag st =
    with_vm vid (\<lambda>v.
      if (case in_description v of Some d \<Rightarrow> contains_str d tag | None \<Rightarrow> False) then (st, Ok ())
      else update_vm_description vid
        (Some (case in_description v of Some d \<Rightarrow> if d \<noteq> [] then d @ '', '' @ tag else tag | None \<Rightarrow> tag)) st) st"

definition add_vm_admin_url :: "string \<Rightarrow> string \<Rightarrow> string \<Rightarrow> core_state \<Rightarrow> nat svc" where
  "add_vm_admin_url vid url label st =
    then_st (on_db (insert_vm_admin_url vid url label) st) (\<lambda>st1 new_id.
      (st1\<lparr>s_vms := (s_vms st1)(vid := map_option (\<lambda>v. v\<lparr>in_admin_urls := in_admin_urls v
         @ [(new_id, \<lparr>au_vm = vid, au_url = url, au_label = label\<rparr>)]\<rparr>) (s_vms st1 vid))\<rparr>, Ok new_id))"

definition remove_vm_admin_url :: "string \<Rightarrow> nat \<Rightarrow> core_state \<Rightarrow> unit svc" where
  "remove_vm_admin_url vid url_id st =
    then_st (on_db (delete_vm_admin_url url_id) st) (\<lambda>st1 _.
      (st1\<lparr>s_vms := (s_vms st1)(vid := map_option (\<lambda>v. v\<lparr>in_admin_urls := filter (\<lambda>a. fst a \<noteq> url_id)
         (in_admin_urls v)\<rparr>) (s_vms st1 vid))\<rparr>, Ok ()))"

text \<open>\<open>vid\<close> is the fresh identifier of the VM.\<close>

definition lift_install ::
  "svc_env \<Rightarrow> install_state \<times> (install_error, VmRecord) outcome \<Rightarrow> core_state \<Rightarrow> string svc" where
  "lift_install e run st =
    then_st (st\<lparr>s_install := fst run\<rparr>, map_err InstallFailed (snd run)) (\<lambda>st1 r. register_vm e r st1)"

definition install_vm_from_manifest_url ::
  "svc_env \<Rightarrow> install_env \<Rightarrow> string \<Rightarrow> string \<Rightarrow> string option \<Rightarrow> core_state \<Rightarrow> string svc" where
  "install_vm_from_manifest_url e ie url vid verified st =
    lift_install e (install_from_manifest_url ie url vid verified (s_install st)) st"

definition install_vm_from_cache :: "svc_env \<Rightarrow> install_env \<Rightarrow> string \<Rightarrow> string list \<Rightarrow> string \<Rightarrow> core_state \<Rightarrow> string svc" where
  "install_vm_from_cache e ie app keys vid st =
    lift_install e (install_from_cache ie app keys vid (s_install st)) st"


section \<open>Port mappings\<close>

definition RESERVED_VM_PORTS :: "u16 list" where "RESERVED_VM_PORTS = [22, 18088]"

definition svc_add_mapping :: "svc_env \<Rightarrow> string \<Rightarrow> u16 \<Rightarrow> u16 \<Rightarrow> string \<Rightarrow> core_state \<Rightarrow> unit svc" where
  "svc_add_mapping e vid hp vp label st =
    (if hp < 1024 then (st, Err (PrivilegedPort hp))
     else if vp = 0 then (st, Err ZeroPort)
     else if vp \<in> set RESERVED_VM_PORTS then (st, Err (ReservedPort vp))
     else
       let (g, r) = add_mapping (v_free e) vid hp vp (s_gateway st)
       in then_st (st\<lparr>s_gateway := g\<rparr>, map_err GatewayFailed r) (\<lambda>st1 _.
          then_st (on_db (insert_port_mapping vid hp vp label) st1) (\<lambda>st2 _. (st2, Ok ()))))"

definition svc_remove_mapping :: "u16 \<Rightarrow> core_state \<Rightarrow> unit svc" where
  "svc_remove_mapping hp st =
    (fst (on_db (delete_port_mapping hp) (st\<lparr>s_gateway := remove_mapping hp (s_gateway st)\<rparr>)), Ok ())"

definition list_mappings :: "string \<Rightarrow> core_state \<Rightarrow> PortMappingConfig list" where
  "list_mappings vid st = list_port_mappings vid (s_db st)"

text \<open>\<open>existing\<close> is the order in which the gateway lists its mappings of the VM.\<close>

definition open_admin_proxy :: "svc_env \<Rightarrow> string \<Rightarrow> u16 \<Rightarrow> (u16 \<times> u16) list \<Rightarrow> core_state \<Rightarrow> u16 svc" where
  "open_admin_proxy e vid vp existing st =
    (if vp \<in> set RESERVED_VM_PORTS then (st, Err (ReservedPort vp))
     else with_vm vid (\<lambda>_.
       if v_status e vid \<noteq> Running then (st, Err (NotRunning (v_status e vid)))
       else (case find (\<lambda>(_, p). p = vp) existing of
               Some (hp, _) \<Rightarrow> (st, Ok hp)
             | None \<Rightarrow>
                 (let (g, r) = add_mapping_ephemeral (v_free e) (v_os_port e) vid vp (s_gateway st)
                  in (st\<lparr>s_gateway := g\<rparr>, map_err GatewayFailed r)))) st)"

definition close_admin_proxy :: "u16 \<Rightarrow> core_state \<Rightarrow> unit svc" where
  "close_admin_proxy hp st = (st\<lparr>s_gateway := remove_mapping hp (s_gateway st)\<rparr>, Ok ())"

text \<open>The check of the host ports before a VM starts: the ports that cannot be bound.\<close>

definition blocked_ports :: "svc_env \<Rightarrow> string \<Rightarrow> core_state \<Rightarrow> u16 list" where
  "blocked_ports e vid st =
    filter (\<lambda>hp. \<not> can_bind (v_free e) hp (s_gateway st)) (map pm_host_port (list_port_mappings vid (s_db st)))"


section \<open>File mappings\<close>

definition expand_tilde :: "string option \<Rightarrow> string \<Rightarrow> string" where
  "expand_tilde home path =
    (if starts_with path ''~/'' then (case home of Some h \<Rightarrow> h @ tl path | None \<Rightarrow> path) else path)"

definition setup_file_proxy :: "svc_env \<Rightarrow> string \<Rightarrow> string \<Rightarrow> bool \<Rightarrow> string \<Rightarrow> nat \<Rightarrow> core_state \<Rightarrow> core_state" where
  "setup_file_proxy e vid shared_path read_only mount mapping_id st =
    (case s_vms st vid of
       None \<Rightarrow> st
     | Some v \<Rightarrow>
         if v_stream e (fuse_port_for_mapping (of_nat mapping_id))
         then set_instance vid (v\<lparr>in_file_proxies := (in_file_proxies v)(mapping_id \<mapsto>
                file_proxy_new (v_os e) (v_fs e) shared_path read_only mount)\<rparr>) st
         else st)"

definition add_file_mapping ::
  "svc_env \<Rightarrow> string \<Rightarrow> string \<Rightarrow> string \<Rightarrow> bool \<Rightarrow> string \<Rightarrow> core_state \<Rightarrow> unit svc" where
  "add_file_mapping e vid host_path mount read_only label st =
    (let existing = list_file_mappings vid (s_db st); expanded = expand_tilde (v_home e) host_path
     in if \<not> starts_with mount ''/'' then (st, Err (NotAbsolute mount))
        else if list_ex (\<lambda>m. fm_vm_mount (snd m) = mount) existing then (st, Err (MountExists mount))
        else if MAX_FILE_MAPPINGS \<le> length existing then (st, Err TooManyMappings)
        else (case canonicalize (v_os e) (v_fs e) expanded of
                Ok canonical \<Rightarrow>
                  then_st (on_db (insert_file_mapping vid (to_string_lossy canonical) mount read_only label) st) (\<lambda>st1 mapping_id.
                    (case s_vms st1 vid of
                       Some v \<Rightarrow> if in_multiplexer v then setup_file_proxy e vid expanded read_only mount mapping_id st1 else st1
                     | None \<Rightarrow> st1, Ok ()))
              | _ \<Rightarrow> (st, Err (NoHostPath host_path))))"

text \<open>The state, the proxy taken out of the table, the result, and whether a task now waits for the handles.\<close>

definition remove_file_mapping_inner ::
  "string \<Rightarrow> nat \<Rightarrow> core_state \<Rightarrow> (core_state \<times> FileProxy option) \<times> (svc_error, unit) outcome \<times> bool" where
  "remove_file_mapping_inner vid mapping_id st =
    (case on_db (delete_file_mapping mapping_id) st of
       (st1, Ok _) \<Rightarrow>
         (case s_vms st1 vid of
            None \<Rightarrow> ((st1, None), Ok (), False)
          | Some v \<Rightarrow>
              (let st2 = set_instance vid (v\<lparr>in_file_proxies := (in_file_proxies v)(mapping_id := None)\<rparr>) st1
               in case in_file_proxies v mapping_id of
                    None \<Rightarrow> ((st2, None), Ok (), False)
                  | Some proxy \<Rightarrow>
                      (case request_unmount proxy of
                         ((pending, waits), proxy') \<Rightarrow>
                           if pending > 0 then ((st2, Some proxy'), Ok (), waits)
                           else ((st2, Some (fp_shutdown proxy')), Ok (), False))))
     | (st1, Err x) \<Rightarrow> ((st1, None), Err x, False)
     | (st1, Panic) \<Rightarrow> ((st1, None), Panic, False))"

text \<open>The result, and the proxy that was taken out of the table.\<close>

definition remove_file_mapping ::
  "string \<Rightarrow> nat \<Rightarrow> core_state \<Rightarrow> (core_state \<times> FileProxy option) \<times> (svc_error, unit) outcome" where
  "remove_file_mapping vid mapping_id st =
    (if mapping_id \<in> s_removals st then ((st, None), Err (BeingRemoved mapping_id))
     else
       let ((st1, proxy), r, spawned) =
             remove_file_mapping_inner vid mapping_id (st\<lparr>s_removals := insert mapping_id (s_removals st)\<rparr>)
       in ((if spawned then st1 else st1\<lparr>s_removals := s_removals st1 - {mapping_id}\<rparr>, proxy), r))"

text \<open>The background task: the handles were closed in time, or the time ran out.\<close>

definition unmount_done :: "bool \<Rightarrow> nat \<Rightarrow> FileProxy \<Rightarrow> core_state \<Rightarrow> core_state \<times> FileProxy" where
  "unmount_done in_time mapping_id proxy st =
    (st\<lparr>s_removals := s_removals st - {mapping_id}\<rparr>, if in_time then fp_shutdown proxy else force_unmount proxy)"

definition force_unmount_file_proxy ::
  "string \<Rightarrow> nat \<Rightarrow> core_state \<Rightarrow> (core_state \<times> FileProxy option) \<times> (svc_error, unit) outcome" where
  "force_unmount_file_proxy vid mapping_id st =
    (case s_vms st vid of
       None \<Rightarrow> ((st, None), Err (VmNotFound vid))
     | Some v \<Rightarrow>
         ((set_instance vid (v\<lparr>in_file_proxies := (in_file_proxies v)(mapping_id := None)\<rparr>) st,
           map_option force_unmount (in_file_proxies v mapping_id)), Ok ()))"


section \<open>Tokens\<close>

text \<open>\<open>lookup\<close> is what the key store answers: it also fails when it is locked or broken.\<close>

definition cleanup_orphan_tokens :: "(string \<Rightarrow> (key_error, string) outcome) \<Rightarrow> store \<Rightarrow> store" where
  "cleanup_orphan_tokens lookup s =
    (let orphans = filter (\<lambda>a. \<not> is_ok (lookup a)) (all_domain_token_accounts s)
     in if orphans = [] then s else snd (delete_domain_tokens_by_accounts orphans s))"


section \<open>Consistency of instances and records\<close>

definition matches_record :: "VmInstance \<Rightarrow> VmRecord \<Rightarrow> bool" where
  "matches_record v r \<longleftrightarrow> in_id v = r_id r \<and> in_name v = r_name r \<and> in_description v = r_description r
     \<and> in_memory_mb v = r_memory_mb r \<and> in_cpus v = r_cpus r \<and> in_disk_image v = r_disk_image r
     \<and> in_created_at v = r_created_at r \<and> in_base_os v = r_base_os r \<and> in_manifest_version v = r_manifest_version r"

definition recorded :: "VmRecord list \<Rightarrow> string \<Rightarrow> VmInstance \<Rightarrow> bool" where
  "recorded rs vid v \<longleftrightarrow> (\<exists>r \<in> set rs. r_id r = vid \<and> matches_record v r)"

definition svc_inv :: "core_state \<Rightarrow> bool" where
  "svc_inv st \<longleftrightarrow> distinct (map r_id (vms (s_db st)))
     \<and> (\<forall>vid v. s_vms st vid = Some v \<longrightarrow> recorded (vms (s_db st)) vid v)"

lemma s_db_simps [simp]:
  "s_db (st\<lparr>s_vms := a\<rparr>) = s_db st" "s_db (st\<lparr>s_active := b\<rparr>) = s_db st" "s_db (st\<lparr>s_gateway := c\<rparr>) = s_db st"
  "s_db (st\<lparr>s_removed := d\<rparr>) = s_db st" "s_db (st\<lparr>s_removals := f\<rparr>) = s_db st" "s_db (st\<lparr>s_install := i\<rparr>) = i_db i"
  "s_db (set_instance vid v st) = s_db st" "s_db (drop_vm_dir vid st) = s_db st"
  by (simp_all add: s_db_def set_instance_def drop_vm_dir_def)

lemma svc_inv_simps [simp]:
  "svc_inv (st\<lparr>s_active := b\<rparr>) = svc_inv st" "svc_inv (st\<lparr>s_gateway := c\<rparr>) = svc_inv st"
  "svc_inv (st\<lparr>s_removed := d\<rparr>) = svc_inv st" "svc_inv (st\<lparr>s_removals := f\<rparr>) = svc_inv st"
  "svc_inv (drop_vm_dir vid st) = svc_inv st"
  by (simp_all add: svc_inv_def) (simp add: drop_vm_dir_def)

lemma svc_inv_instance:
  "svc_inv st \<Longrightarrow> recorded (vms (s_db st)) vid v \<Longrightarrow> svc_inv (set_instance vid v st)"
  by (auto simp: svc_inv_def set_instance_def)

lemma svc_inv_same_record:
  assumes "svc_inv st" "s_vms st vid = Some v" "\<And>r. matches_record v r \<Longrightarrow> matches_record (f v) r"
  shows "svc_inv (st\<lparr>s_vms := (s_vms st)(vid \<mapsto> f v)\<rparr>)"
proof -
  have "recorded (vms (s_db st)) vid (f v)"
    using assms unfolding svc_inv_def recorded_def by blast
  then show ?thesis
    using assms(1) by (auto simp: svc_inv_def)
qed

lemma on_db_fst: "s_db (fst (on_db f st)) = fst (f (s_db st)) \<and> s_vms (fst (on_db f st)) = s_vms st"
  by (simp add: on_db_def s_db_def split: prod.split)

lemma svc_inv_on_db: "svc_inv st \<Longrightarrow> vms (fst (f (s_db st))) = vms (s_db st) \<Longrightarrow> svc_inv (fst (on_db f st))"
  using on_db_fst [of f st] by (simp add: svc_inv_def)

lemma svc_inv_grow:
  assumes "svc_inv st" "s_vms st' = s_vms st" "vms (s_db st') = vms (s_db st) @ [r]" "\<not> has_vm (s_db st) (r_id r)"
  shows "svc_inv st'"
  using assms by (auto simp: svc_inv_def recorded_def has_vm_def list_ex_iff)

lemma vms_db_ops [simp]:
  "vms (fst (insert_port_mapping v a b l db)) = vms db" "vms (fst (delete_port_mapping a db)) = vms db"
  "vms (fst (insert_file_mapping v h m ro l db)) = vms db" "vms (fst (delete_file_mapping n db)) = vms db"
  "vms (fst (insert_vm_admin_url v u l db)) = vms db" "vms (fst (delete_vm_admin_url n db)) = vms db"
  by (simp_all add: insert_port_mapping_def delete_port_mapping_def insert_file_mapping_def insert_file_row_def
      delete_file_mapping_def insert_vm_admin_url_def insert_admin_row_def delete_vm_admin_url_def Let_def)

lemma with_vm_inv:
  "svc_inv st \<Longrightarrow> (\<And>v. s_vms st vid = Some v \<Longrightarrow> svc_inv (fst (k v))) \<Longrightarrow> svc_inv (fst (with_vm vid k st))"
  by (auto simp: with_vm_def split: option.split)

lemma with_record_inv:
  "svc_inv st \<Longrightarrow> (\<And>r. find (\<lambda>v. r_id v = vid) (vms (s_db st)) = Some r \<Longrightarrow> svc_inv (fst (k r))) \<Longrightarrow> svc_inv (fst (with_record vid k st))"
  by (auto simp: with_record_def get_vm_def split: outcome.split option.split if_splits)

text \<open>The setters write the same value to the record and to the instance.\<close>

lemma update_record_inv:
  assumes inv: "svc_inv st"
    and f: "\<And>r. r_id (f r) = r_id r"
    and g: "\<And>v r. matches_record v r \<Longrightarrow> matches_record (g v) (r\<lparr>r_name := r_name (f r), r_disk_image := r_disk_image (f r),
        r_kernel := r_kernel (f r), r_initrd := r_initrd (f r), r_append := r_append (f r), r_memory_mb := r_memory_mb (f r),
        r_cpus := r_cpus (f r), r_is_default := r_is_default (f r), r_description := r_description (f r)\<rparr>)"
    and k: "\<And>r s. svc_inv s \<Longrightarrow> svc_inv (fst (k r s))"
  shows "svc_inv (fst (update_record vid f g k st))"
  unfolding update_record_def Let_def
proof (intro with_vm_inv with_record_inv inv)
  fix v r0
  assume v: "s_vms st vid = Some v" and r0: "find (\<lambda>v. r_id v = vid) (vms (s_db st)) = Some r0"
  have in_vms: "r0 \<in> set (vms (s_db st))" "r_id r0 = vid"
    using r0 by (auto simp: find_Some_iff)
  define up where "up = (\<lambda>x :: VmRecord. if r_id x = vid then x\<lparr>r_name := r_name (f r0), r_disk_image := r_disk_image (f r0),
        r_kernel := r_kernel (f r0), r_initrd := r_initrd (f r0), r_append := r_append (f r0), r_memory_mb := r_memory_mb (f r0),
        r_cpus := r_cpus (f r0), r_is_default := r_is_default (f r0), r_description := r_description (f r0)\<rparr> else x)"
  obtain st1 where st1: "on_db (update_vm (f r0)) st = (st1, Ok ())" "vms (s_db st1) = map up (vms (s_db st))"
    "s_vms st1 = s_vms st"
    using in_vms f by (auto simp: on_db_def update_vm_def has_vm_def list_ex_iff up_def s_db_def)
  have ids: "map r_id (map up (vms (s_db st))) = map r_id (vms (s_db st))"
    by (auto simp: up_def)
  have same: "recorded (map up (vms (s_db st))) w x" if "s_vms st w = Some x" "w \<noteq> vid" for w x
    using inv that by (fastforce simp: svc_inv_def recorded_def up_def)
  obtain r where r: "r \<in> set (vms (s_db st))" "r_id r = vid" "matches_record v r"
    using inv v unfolding svc_inv_def recorded_def by blast
  moreover have "inj_on r_id (set (vms (s_db st)))"
    using inv by (simp add: svc_inv_def distinct_map)
  ultimately have "matches_record v r0"
    using in_vms by (metis inj_onD)
  then have "matches_record (g v) (up r0)"
    using g [of v r0] in_vms(2) by (simp add: up_def)
  moreover have "up r0 \<in> set (map up (vms (s_db st)))" "r_id (up r0) = vid"
    using in_vms by (auto simp: up_def)
  ultimately have "recorded (map up (vms (s_db st))) vid (g v)"
    unfolding recorded_def by blast
  then have "svc_inv (set_instance vid (g v) st1)"
    using inv ids same st1 by (auto simp: svc_inv_def set_instance_def simp del: map_map)
  then show "svc_inv (fst (then_st (on_db (update_vm (f r0)) st) (\<lambda>st1 _. k (f r0) (set_instance vid (g v) st1))))"
    using st1 k by simp
qed

lemma then_st_frame2:
  "Q (fst r) \<Longrightarrow> (\<And>s. Q s \<Longrightarrow> P s) \<Longrightarrow> (\<And>s a. Q s \<Longrightarrow> P (fst (k s a))) \<Longrightarrow> P (fst (then_st r k))"
  by (auto simp: then_st_def split: prod.split outcome.split)

text \<open>An installation adds at most the record of the new VM.\<close>

definition grown :: "vm_db \<Rightarrow> string \<Rightarrow> install_state \<Rightarrow> bool" where
  "grown db vid st \<longleftrightarrow> vms (i_db st) = vms db \<or> (\<not> has_vm db vid \<and> (\<exists>r. r_id r = vid \<and> vms (i_db st) = vms db @ [r]))"

lemma register_record_grown:
  assumes "vms (i_db st) = vms db" "r_id r = vid"
  shows "grown db vid (fst (register_record e r m st))"
  using assms insert_vm_keep [of "e_now e" r _ "i_db st"]
  by (auto simp: register_record_def grown_def Let_def insert_vm_def has_vm_def split: if_splits prod.splits)

lemma unpack_and_register_grown:
  assumes "vms (i_db st) = vms db"
  shows "grown db vid (fst (unpack_and_register e vid name m st))"
proof -
  let ?same = "\<lambda>s. vms (i_db s) = vms db"
  have same: "?same s \<Longrightarrow> grown db vid s" for s
    by (simp add: grown_def)
  have boot: "?same (fst (resolve_boot_file e vid a v n s))" if "?same s" for a v n s
    using that resolve_boot_file_frame [of e vid a v n s "fst (resolve_boot_file e vid a v n s)" "snd (resolve_boot_file e vid a v n s)"]
    by simp
  have zip: "?same (fst (extract_zip e a f d s))" if "?same s" for a f d s
    using that extract_zip_db [of e a f d s "fst (extract_zip e a f d s)" "snd (extract_zip e a f d s)"] by simp
  have reg: "grown db vid (fst (register_record e (vm_record e vid name m k i) m (remove_archive vid s)))" if "?same s" for k i s
    using that by (intro register_record_grown) (simp_all add: remove_archive_def vm_record_def)
  show ?thesis
    unfolding unpack_and_register_def Let_def using assms
    by (intro then_st_frame2 [where P = "grown db vid" and Q = ?same]) (simp_all add: zip boot reg same)
qed

lemma grown_cong: "vms (i_db s') = vms (i_db s) \<Longrightarrow> grown db vid s' = grown db vid s"
  by (simp add: grown_def)

lemma install_grown: "grown (i_db st) vid (fst (install_from_manifest_url e url vid uv st))"
proof -
  have archive: "i_db (fst (obtain_archive e vid src d raw js s)) = i_db s" for src d raw js s
    by (rule obtain_archive_db [OF prod.collapse [symmetric]])
  have ports: "vms (i_db (fst (insert_inbound_ports vid l ps s))) = vms (i_db s)" for l ps s
    using insert_inbound_ports_keep [OF prod.collapse [symmetric], of vid l ps s] by simp
  have last: "grown (i_db st) vid (fst (then_st (if b then insert_inbound_ports vid l ps s else (s, Ok ())) (\<lambda>s5 _. (s5, Ok r))))"
    if "grown (i_db st) vid s" for b l ps s and r :: VmRecord
    using that by (intro then_st_frame [where P = "grown (i_db st) vid"]) (auto simp: grown_def ports)
  have same: "grown (i_db st) vid (fst (then_st (unpack_and_register e vid name m s') (\<lambda>s4 r.
      then_st (if b then insert_inbound_ports vid l ps s4 else (s4, Ok ())) (\<lambda>s5 _. (s5, Ok r)))))"
    if "i_db s' = i_db st" for name m s' b l ps
    using that by (intro then_st_frame [where P = "grown (i_db st) vid"] last unpack_and_register_grown) simp
  show ?thesis
  proof (cases "fetch_manifest e url")
    case (Ok x)
    obtain m0 raw js where x: "x = (m0, raw, js)"
      by (cases x)
    show ?thesis
    proof (cases "compatible e m0")
      case True
      show ?thesis
        unfolding install_from_manifest_url_def Ok x Let_def then_st_simps prod.case
        by (simp only: True simp_thms if_False, intro then_st_frame2 [where P = "grown (i_db st) vid" and Q = "\<lambda>s. i_db s = i_db st"] same)
          (simp_all add: archive grown_def)
    qed (simp add: install_from_manifest_url_def Ok x grown_def)
  qed (simp_all add: install_from_manifest_url_def grown_def)
qed

lemma boot_from_zip_db: "extract_boot_file_from_zip e vid a src n st = (st', k) \<Longrightarrow> i_db st' = i_db st"
  by (auto simp: extract_boot_file_from_zip_def dest: extract_zip_db split: option.splits if_splits prod.splits outcome.splits)

lemma cache_grown: "grown (i_db st) vid (fst (install_from_cache e app keys vid st))"
proof -
  let ?same = "\<lambda>s. i_db s = i_db st"
  have zip: "?same (fst (extract_zip e a f d s))" if "?same s" for a f d s
    using that extract_zip_db [of e a f d s "fst (extract_zip e a f d s)" "snd (extract_zip e a f d s)"] by simp
  have reg: "grown (i_db st) vid (fst (let (st4, k) = extract_boot_file_from_zip e vid a ks ''vmlinuz'' s;
       (st5, i) = extract_boot_file_from_zip e vid a is ''initrd.img'' st4
     in register_record e (vm_record e vid name m k i) m (remove_archive vid st5)))" if "?same s" for a ks "is" s name m
    using that by (auto simp: vm_record_def remove_archive_def dest!: boot_from_zip_db
        intro!: register_record_grown split: prod.splits)
  have weak: "?same s \<Longrightarrow> grown (i_db st) vid s" for s
    by (simp add: grown_def)
  show ?thesis
    unfolding install_from_cache_def Let_def
    by (auto simp: weak split: option.split
        intro!: then_st_frame2 [where P = "grown (i_db st) vid" and Q = ?same] zip reg [unfolded Let_def])
qed

section \<open>Operations\<close>

datatype svc_op =
    CreateVm string string string VmConfig
  | DeleteVm string
  | StopVm string
  | SelectVm string
  | SetMemory string u32
  | SetCpus string u32
  | SetName string string
  | SetDescription string "string option"
  | AppendDescription string string
  | AddAdminUrl string string string
  | RemoveAdminUrl string nat
  | InstallUrl install_env string string "string option"
  | InstallCache install_env string "string list" string
  | AddPort string u16 u16 string
  | RemovePort u16
  | OpenAdmin string u16 "(u16 \<times> u16) list"
  | AddFile string string string bool string
  | RemoveFile string nat
  | UnmountDone bool nat FileProxy
  | ForceUnmount string nat

fun run_svc_op :: "core_state \<Rightarrow> svc_env \<times> svc_op \<Rightarrow> core_state" where
  "run_svc_op st (e, CreateVm vid now name c) = fst (create_vm e vid now name c st)"
| "run_svc_op st (e, DeleteVm vid) = fst (svc_delete_vm e vid st)"
| "run_svc_op st (e, StopVm vid) = fst (svc_stop_vm e vid st)"
| "run_svc_op st (e, SelectVm vid) = fst (select_vm vid st)"
| "run_svc_op st (e, SetMemory vid n) = fst (update_vm_memory e vid n st)"
| "run_svc_op st (e, SetCpus vid n) = fst (update_vm_cpus e vid n st)"
| "run_svc_op st (e, SetName vid n) = fst (update_vm_name vid n st)"
| "run_svc_op st (e, SetDescription vid d) = fst (update_vm_description vid d st)"
| "run_svc_op st (e, AppendDescription vid t) = fst (append_vm_description vid t st)"
| "run_svc_op st (e, AddAdminUrl vid u l) = fst (add_vm_admin_url vid u l st)"
| "run_svc_op st (e, RemoveAdminUrl vid n) = fst (remove_vm_admin_url vid n st)"
| "run_svc_op st (e, InstallUrl ie url vid uv) = fst (install_vm_from_manifest_url e ie url vid uv st)"
| "run_svc_op st (e, InstallCache ie app keys vid) = fst (install_vm_from_cache e ie app keys vid st)"
| "run_svc_op st (e, AddPort vid hp vp l) = fst (svc_add_mapping e vid hp vp l st)"
| "run_svc_op st (e, RemovePort hp) = fst (svc_remove_mapping hp st)"
| "run_svc_op st (e, OpenAdmin vid vp existing) = fst (open_admin_proxy e vid vp existing st)"
| "run_svc_op st (e, AddFile vid h m ro l) = fst (add_file_mapping e vid h m ro l st)"
| "run_svc_op st (e, RemoveFile vid n) = fst (fst (remove_file_mapping vid n st))"
| "run_svc_op st (e, UnmountDone b n p) = fst (unmount_done b n p st)"
| "run_svc_op st (e, ForceUnmount vid n) = fst (fst (force_unmount_file_proxy vid n st))"

lemma matches_instance_of [simp]: "matches_record (instance_of r urls) r"
  by (simp add: matches_record_def instance_of_def)

lemma register_vm_inv:
  assumes "svc_inv st" "r \<in> set (vms (s_db st))"
  shows "svc_inv (fst (register_vm e r st))"
proof -
  have "recorded (vms (s_db st)) (r_id r) (instance_of r urls)" for urls
    using assms(2) matches_instance_of unfolding recorded_def by blast
  then show ?thesis
    using svc_inv_instance [OF assms(1)] by (simp add: register_vm_def assms(1) Let_def)
qed

lemma svc_inv_grown:
  assumes "svc_inv st" "grown (s_db st) vid i"
  shows "svc_inv (st\<lparr>s_install := i\<rparr>)"
  using assms svc_inv_grow [of st "st\<lparr>s_install := i\<rparr>"]
  by (fastforce simp: grown_def svc_inv_def)

lemma lift_install_inv:
  assumes "svc_inv st" "grown (s_db st) vid (fst run)" "\<And>r. snd run = Ok r \<Longrightarrow> r \<in> set (vms (i_db (fst run)))"
  shows "svc_inv (fst (lift_install e run st))"
  using assms svc_inv_grown [OF assms(1,2)]
  by (cases "snd run") (auto simp: lift_install_def intro!: register_vm_inv)

lemma set_default_inv:
  assumes "svc_inv st"
  shows "svc_inv (fst (on_db (set_default_vm vid) st))"
proof -
  have "\<exists>f. vms (fst (set_default_vm vid (s_db st))) = map f (vms (s_db st))
      \<and> (\<forall>r. r_id (f r) = r_id r \<and> (\<forall>v. matches_record v r \<longrightarrow> matches_record v (f r)))"
  proof (cases "has_vm (s_db st) vid")
    case True
    then show ?thesis
      by (intro exI [of _ "(\<lambda>v. if r_id v = vid then v\<lparr>r_is_default := True\<rparr> else v) \<circ> (\<lambda>v. v\<lparr>r_is_default := False\<rparr>)"])
        (auto simp: set_default_vm_def Let_def matches_record_def)
  next
    case False
    then show ?thesis
      by (intro exI [of _ "\<lambda>v. v\<lparr>r_is_default := False\<rparr>"]) (auto simp: set_default_vm_def Let_def matches_record_def)
  qed
  then obtain f where f: "vms (fst (set_default_vm vid (s_db st))) = map f (vms (s_db st))"
    "\<And>r. r_id (f r) = r_id r" "\<And>r v. matches_record v r \<Longrightarrow> matches_record v (f r)"
    by blast
  have "map r_id (map f (vms (s_db st))) = map r_id (vms (s_db st))"
    by (simp add: f(2))
  then show ?thesis
    using assms on_db_fst [of "set_default_vm vid" st] f by (auto simp: svc_inv_def recorded_def simp del: map_map) blast
qed

lemma create_vm_inv:
  assumes "svc_inv st"
  shows "svc_inv (fst (create_vm e vid now name c st))"
proof -
  define r where "r = \<lparr>r_id = vid, r_name = name, r_disk_image = vc_disk_image c, r_kernel = vc_kernel c, r_initrd = vc_initrd c,
     r_append = vc_append c, r_memory_mb = vc_memory_mb c, r_cpus = vc_cpus c, r_is_default = True,
     r_description = None, r_last_boot_at = None, r_created_at = [], r_admin_url = None, r_admin_label = None,
     r_base_os = None, r_base_os_version = None, r_target_platform = None, r_manifest_version = None\<rparr>"
  obtain st1 x where st1: "on_db (insert_vm now r []) st = (st1, x)"
    by fastforce
  show ?thesis
  proof (cases "vms_ready (s_db st) \<and> \<not> has_vm (s_db st) vid")
    case True
    then have new: "x = Ok now" "vms (s_db st1) = vms (s_db st) @ [r\<lparr>r_created_at := now\<rparr>]" "s_vms st1 = s_vms st"
      using st1 by (auto simp: on_db_def insert_vm_def r_def s_db_def)
    have inv1: "svc_inv st1"
      by (rule svc_inv_grow [OF assms new(3,2)]) (use True in \<open>simp add: r_def\<close>)
    obtain st2 y where st2: "on_db (set_default_vm vid) st1 = (st2, y)"
      by fastforce
    have inv2: "svc_inv st2"
      using set_default_inv [OF inv1, of vid] st2 by simp
    have "vms (s_db st2) = map (\<lambda>v. if r_id v = vid then v\<lparr>r_is_default := True\<rparr> else v\<lparr>r_is_default := False\<rparr>) (vms (s_db st1))"
      using st2 new(2) on_db_fst [of "set_default_vm vid" st1]
      by (auto simp: set_default_vm_def Let_def has_vm_def r_def)
    then have "recorded (vms (s_db st2)) vid (instance_of (r\<lparr>r_created_at := now\<rparr>) [])"
      using new(2) by (auto simp: recorded_def r_def matches_record_def instance_of_def)
    then have "svc_inv (set_instance vid (instance_of (r\<lparr>r_created_at := now\<rparr>) []) st2)"
      using inv2 svc_inv_instance by blast
    then show ?thesis
      unfolding create_vm_def Let_def r_def [symmetric] using st1 st2 new(1) inv2 by (cases y) auto
  next
    case False
    then have "x = Err (Db SqlError)" "s_db st1 = s_db st" "s_vms st1 = s_vms st"
      using st1 by (auto simp: on_db_def insert_vm_def r_def s_db_def)
    then show ?thesis
      unfolding create_vm_def Let_def r_def [symmetric] using st1 assms by (simp add: svc_inv_def)
  qed
qed

lemma delete_vm_inv:
  assumes "svc_inv st"
  shows "svc_inv (fst (svc_delete_vm e vid st))"
proof -
  let ?st1 = "st\<lparr>s_vms := (s_vms st)(vid := None)\<rparr>"
  let ?st2 = "if s_active ?st1 = Some vid then ?st1\<lparr>s_active := None\<rparr> else ?st1"
  have inv1: "svc_inv ?st1"
    using assms by (auto simp: svc_inv_def)
  obtain st3 x where st3: "on_db (delete_vm vid) ?st2 = (st3, x)"
    by fastforce
  have "vms (s_db st3) = (if has_vm (s_db st) vid then filter (\<lambda>v. r_id v \<noteq> vid) (vms (s_db st)) else vms (s_db st))"
    "s_vms st3 = (s_vms st)(vid := None)"
    using st3 on_db_fst [of "delete_vm vid" ?st2] by (auto simp: delete_vm_def split: if_splits)
  then have inv3: "svc_inv st3"
    using assms by (auto simp: svc_inv_def recorded_def distinct_map_filter split: if_splits)
  show ?thesis
    using assms inv1 inv3 st3 by (cases x) (auto simp: svc_delete_vm_def Let_def split: rmdir_result.split option.split)
qed

lemma instance_field_inv:
  assumes "svc_inv st" "\<And>v r. matches_record v r \<Longrightarrow> matches_record (f v) r"
  shows "svc_inv (st\<lparr>s_vms := (s_vms st)(vid := map_option f (s_vms st vid))\<rparr>)"
proof (cases "s_vms st vid")
  case (Some v)
  show ?thesis
    using svc_inv_same_record [of st vid v f] assms Some by simp
qed (use assms(1) in \<open>simp add: fun_upd_idem\<close>)

lemma then_svc_inv: "svc_inv (fst r) \<Longrightarrow> (\<And>s a. svc_inv s \<Longrightarrow> svc_inv (fst (k s a))) \<Longrightarrow> svc_inv (fst (then_st r k))"
  by (rule then_st_frame)

lemmas matches_defs = matches_record_def instance_of_def

lemma recreate_inv: "svc_inv st \<Longrightarrow> svc_inv (fst (recreate e vid r st))"
  by (auto simp: recreate_def matches_record_def intro!: instance_field_inv)

lemma stopped_only_inv: "svc_inv st \<Longrightarrow> svc_inv (fst (k st)) \<Longrightarrow> svc_inv (fst (stopped_only e vid k st))"
  by (simp add: stopped_only_def with_vm_def split: option.split)

lemma setters_inv:
  assumes "svc_inv st"
  shows "svc_inv (fst (update_vm_memory e vid mb st))" "svc_inv (fst (update_vm_cpus e vid mb st))"
    "svc_inv (fst (update_vm_name vid name st))" "svc_inv (fst (update_vm_description vid d st))"
  using assms by (auto simp: update_vm_memory_def update_vm_cpus_def update_vm_name_def update_vm_description_def
      matches_record_def intro!: stopped_only_inv update_record_inv recreate_inv)

lemma append_description_inv: "svc_inv st \<Longrightarrow> svc_inv (fst (append_vm_description vid tag st))"
  by (auto simp: append_vm_description_def intro!: with_vm_inv setters_inv(4))

lemma admin_url_inv:
  assumes "svc_inv st"
  shows "svc_inv (fst (add_vm_admin_url vid u l st))" "svc_inv (fst (remove_vm_admin_url vid n st))"
  using assms by (auto simp: add_vm_admin_url_def remove_vm_admin_url_def matches_record_def
      intro!: then_svc_inv svc_inv_on_db instance_field_inv)

lemma stop_vm_inv: "svc_inv st \<Longrightarrow> svc_inv (fst (svc_stop_vm e vid st))"
  using svc_inv_same_record [of "st\<lparr>s_gateway := remove_mappings_for_vm vid (s_gateway st)\<rparr>" vid _
      "\<lambda>v. v\<lparr>in_metrics_cancelled := True, in_multiplexer := False, in_ssh_client := False\<rparr>"]
  by (auto simp: svc_stop_vm_def matches_record_def set_instance_def intro!: with_vm_inv)

lemma ports_inv:
  assumes "svc_inv st"
  shows "svc_inv (fst (svc_add_mapping e vid hp vp l st))" "svc_inv (fst (svc_remove_mapping hp st))"
    "svc_inv (fst (open_admin_proxy e vid vp existing st))"
  using assms by (auto simp: svc_add_mapping_def svc_remove_mapping_def open_admin_proxy_def Let_def
      intro!: then_svc_inv svc_inv_on_db with_vm_inv split: prod.split option.split)

lemma proxies_inv:
  "svc_inv st \<Longrightarrow> s_vms st vid = Some v \<Longrightarrow> svc_inv (set_instance vid (v\<lparr>in_file_proxies := ps\<rparr>) st)"
  using svc_inv_same_record [of st vid v "\<lambda>v. v\<lparr>in_file_proxies := ps\<rparr>"] by (simp add: set_instance_def matches_record_def)

lemma files_inv:
  assumes "svc_inv st"
  shows "svc_inv (fst (add_file_mapping e vid h m ro l st))"
    "svc_inv (fst (fst (force_unmount_file_proxy vid n st)))"
    "svc_inv (fst (unmount_done b n p st))"
  using assms by (auto simp: add_file_mapping_def setup_file_proxy_def force_unmount_file_proxy_def unmount_done_def Let_def
      intro!: then_svc_inv svc_inv_on_db proxies_inv split: outcome.split option.split)

lemma remove_file_inv:
  assumes "svc_inv st"
  shows "svc_inv (fst (fst (remove_file_mapping vid n st)))"
proof -
  have inner: "svc_inv (fst (fst (remove_file_mapping_inner vid n s)))" if "svc_inv s" for s
  proof -
    obtain s1 x where s1: "on_db (delete_file_mapping n) s = (s1, x)"
      by fastforce
    moreover have "svc_inv s1"
      using svc_inv_on_db [OF that, of "delete_file_mapping n"] s1 by simp
    ultimately show ?thesis
      by (cases x) (auto simp: remove_file_mapping_inner_def Let_def proxies_inv split: option.split prod.split)
  qed
  show ?thesis
    using assms inner [of "st\<lparr>s_removals := insert n (s_removals st)\<rparr>"]
    by (auto simp: remove_file_mapping_def Let_def split: prod.split)
qed

lemma cache_Ok:
  assumes "install_from_cache ie app keys vid st = (st', Ok r)"
  shows "r \<in> set (vms (i_db st'))"
proof -
  have "\<exists>st5 r0 m. register_record ie r0 m st5 = (st', Ok r)"
    using assms unfolding install_from_cache_def Let_def
    by (auto simp: then_st_Ok case_prod_beta split: option.splits if_splits)
  then show ?thesis
    using register_record_keep by fastforce
qed

lemma installs_inv:
  assumes "svc_inv st"
  shows "svc_inv (fst (install_vm_from_manifest_url e ie url vid uv st))" "svc_inv (fst (install_vm_from_cache e ie app keys vid st))"
proof -
  have "r \<in> set (vms (i_db (fst (install_from_manifest_url ie url vid uv (s_install st)))))"
    if "snd (install_from_manifest_url ie url vid uv (s_install st)) = Ok r" for r
    using that install_Ok [of ie url vid uv "s_install st" _ r] by (cases "install_from_manifest_url ie url vid uv (s_install st)") fastforce
  then show "svc_inv (fst (install_vm_from_manifest_url e ie url vid uv st))"
    unfolding install_vm_from_manifest_url_def using assms install_grown [of "s_install st" vid ie url uv]
    by (intro lift_install_inv) (simp_all add: s_db_def)
  have "r \<in> set (vms (i_db (fst (install_from_cache ie app keys vid (s_install st)))))"
    if "snd (install_from_cache ie app keys vid (s_install st)) = Ok r" for r
    using cache_Ok that by (metis prod.collapse)
  then show "svc_inv (fst (install_vm_from_cache e ie app keys vid st))"
    unfolding install_vm_from_cache_def using assms cache_grown [of "s_install st" vid ie app keys]
    by (intro lift_install_inv) (simp_all add: s_db_def)
qed

lemma svc_inv_op: "svc_inv st \<Longrightarrow> svc_inv (run_svc_op st op)"
proof -
  assume inv: "svc_inv st"
  obtain e o' where "op = (e, o')"
    by (cases op)
  then show ?thesis
    using inv by (cases o') (simp_all add: create_vm_inv delete_vm_inv stop_vm_inv select_vm_def setters_inv
        append_description_inv admin_url_inv installs_inv ports_inv files_inv remove_file_inv)
qed

lemma svc_delete_Ok:
  assumes "svc_delete_vm e vid st = (st', Ok ())"
  shows "\<exists>st2 st3. (st2 = st\<lparr>s_vms := (s_vms st)(vid := None)\<rparr> \<or> st2 = st\<lparr>s_vms := (s_vms st)(vid := None), s_active := None\<rparr>)
    \<and> on_db (delete_vm vid) st2 = (st3, Ok ()) \<and> s_db st' = s_db st3 \<and> s_vms st' = s_vms st3 \<and> s_gateway st' = s_gateway st3
    \<and> (s_removed st' = s_removed st3 \<or> (\<exists>x. get_vm vid (s_db st2) = Ok (Some x)
       \<and> s_removed st' = s_removed st3 @ removed_files x (list_vms (s_db st3))))"
proof -
  let ?st1 = "st\<lparr>s_vms := (s_vms st)(vid := None)\<rparr>"
  define st2 where "st2 = (if s_active ?st1 = Some vid then ?st1\<lparr>s_active := None\<rparr> else ?st1)"
  define r where "r = (case get_vm vid (s_db st2) of Ok x \<Rightarrow> x | _ \<Rightarrow> None)"
  define fin where "fin = (\<lambda>st3 (_ :: unit). case v_rmdir e vid of
       Removed \<Rightarrow> (drop_vm_dir vid st3, Ok ())
     | RmdirFailed \<Rightarrow> (st3, Ok () :: (svc_error, unit) outcome)
     | Missing \<Rightarrow> (case r of None \<Rightarrow> (st3, Ok ())
         | Some x \<Rightarrow> (st3\<lparr>s_removed := s_removed st3 @ removed_files x (list_vms (s_db st3))\<rparr>, Ok ())))"
  have "then_st (on_db (delete_vm vid) st2) fin = (st', Ok ())"
    using assms unfolding svc_delete_vm_def Let_def st2_def [symmetric] r_def [symmetric] fin_def [symmetric]
    by (simp only: split: if_splits) auto
  then obtain st3 where st3: "on_db (delete_vm vid) st2 = (st3, Ok ())" "fin st3 () = (st', Ok ())"
    by (auto simp: then_st_Ok)
  have "s_db st' = s_db st3 \<and> s_vms st' = s_vms st3 \<and> s_gateway st' = s_gateway st3
    \<and> (s_removed st' = s_removed st3 \<or> (\<exists>x. r = Some x \<and> s_removed st' = s_removed st3 @ removed_files x (list_vms (s_db st3))))"
    using st3(2) by (auto simp: fin_def drop_vm_dir_def s_db_def split: rmdir_result.splits option.splits)
  moreover have "r = Some x \<Longrightarrow> get_vm vid (s_db st2) = Ok (Some x)" for x
    by (simp add: r_def split: outcome.splits)
  moreover have "st2 = ?st1 \<or> st2 = ?st1\<lparr>s_active := None\<rparr>"
    by (simp add: st2_def)
  ultimately show ?thesis
    using st3(1) by blast
qed


section \<open>Properties\<close>


text \<open>deleting a VM removes its record, but the listeners that forward host ports to it stay open;
  stopping it would have closed them.\<close>

theorem deleted_vm_keeps_listeners:
  assumes "svc_delete_vm e vid st = (st', Ok ())" "port_mapping (s_gateway st) hp = Some (vid, vp)"
    and "listeners (s_gateway st) hp = Some (vid, vp)"
  shows "\<not> has_vm (s_db st') vid \<and> s_vms st' vid = None \<and> listeners (s_gateway st') hp = Some (vid, vp)
    \<and> (\<forall>st'. svc_stop_vm e vid st = (st', Ok ()) \<longrightarrow> listeners (s_gateway st') hp = None)"
proof -
  obtain st2 st3 where run: "st2 = st\<lparr>s_vms := (s_vms st)(vid := None)\<rparr> \<or> st2 = st\<lparr>s_vms := (s_vms st)(vid := None), s_active := None\<rparr>"
    "on_db (delete_vm vid) st2 = (st3, Ok ())" "s_db st' = s_db st3" "s_vms st' = s_vms st3" "s_gateway st' = s_gateway st3"
    using svc_delete_Ok [OF assms(1)] by blast
  have "has_vm (s_db st2) vid" "s_gateway st3 = s_gateway st" "s_vms st3 = (s_vms st)(vid := None)"
    "s_db st3 = fst (delete_vm vid (s_db st2))"
    using run(1,2) by (auto simp: on_db_def delete_vm_def s_db_def split: if_splits)
  moreover have "listeners (s_gateway s) hp = None" if "svc_stop_vm e vid st = (s, Ok ())" for s
    using that assms(2) by (auto simp: svc_stop_vm_def with_vm_def set_instance_def remove_mappings_for_vm_def owned_by_def
        split: option.splits if_splits)
  ultimately show ?thesis
    using run assms(3) by (auto simp: delete_vm_def has_vm_def list_ex_iff)
qed

text \<open>when a VM without a directory of its own is deleted, the kernel and the initial disk it shares with
  another VM are kept: besides its own disk image only files no remaining VM uses are removed.\<close>

theorem shared_boot_files_kept:
  assumes "svc_delete_vm e vid st = (st', Ok ())"
  shows "\<exists>removed. s_removed st' = s_removed st @ removed
    \<and> (\<forall>f \<in> set removed. (\<exists>r \<in> set (vms (s_db st)). r_id r = vid \<and> f \<in> set (vm_files r)
         \<and> (f = r_disk_image r \<or> (\<forall>r' \<in> set (vms (s_db st')). f \<notin> set (vm_files r')))))"
proof -
  obtain st2 st3 where run: "st2 = st\<lparr>s_vms := (s_vms st)(vid := None)\<rparr> \<or> st2 = st\<lparr>s_vms := (s_vms st)(vid := None), s_active := None\<rparr>"
    "on_db (delete_vm vid) st2 = (st3, Ok ())" "s_db st' = s_db st3"
    "s_removed st' = s_removed st3 \<or> (\<exists>x. get_vm vid (s_db st2) = Ok (Some x)
       \<and> s_removed st' = s_removed st3 @ removed_files x (list_vms (s_db st3)))"
    using svc_delete_Ok [OF assms] by blast
  have st3: "s_removed st3 = s_removed st"
    using run(1,2) by (auto simp: on_db_def split: prod.splits)
  show ?thesis
  proof (cases "s_removed st' = s_removed st3")
    case False
    then obtain x where x: "get_vm vid (s_db st2) = Ok (Some x)"
      "s_removed st' = s_removed st3 @ removed_files x (list_vms (s_db st3))"
      using run(4) by blast
    have "s_db st2 = s_db st"
      using run(1) by auto
    then have "x \<in> set (vms (s_db st))" "r_id x = vid"
      using x(1) by (auto simp: get_vm_def find_Some_iff split: if_splits)
    moreover have "f \<in> set (vm_files x) \<and> (f = r_disk_image x \<or> (\<forall>r' \<in> set (vms (s_db st3)). f \<notin> set (vm_files r')))"
      if "f \<in> set (removed_files x (list_vms (s_db st3)))" for f
      using that by (auto simp: removed_files_def vm_files_def list_vms_def Let_def split: option.splits if_splits)
    ultimately show ?thesis
      using x(2) st3 run(3) by auto
  qed (use st3 in simp)
qed

text \<open>removing a file mapping while the VM has files open takes the proxy out of the table at once, so
  that the command to force it off finds nothing: the proxy stays in use until its handles are
  closed or the time runs out.\<close>

theorem forced_unmount_has_no_effect:
  assumes "s_vms st vid = Some v" "in_file_proxies v n = Some p" "open_handles (path_manager p) \<noteq> []"
    and "remove_file_mapping vid n st = ((st', q), Ok ())"
  shows "force_unmount_file_proxy vid n st' = ((st', None), Ok ()) \<and> n \<in> s_removals st'
    \<and> (\<exists>p'. q = Some p' \<and> open_handles (path_manager p') = open_handles (path_manager p) \<and> shutdown_notified p' = shutdown_notified p)"
proof -
  let ?st0 = "st\<lparr>s_removals := insert n (s_removals st)\<rparr>"
  obtain st1 where st1: "on_db (delete_file_mapping n) ?st0 = (st1, Ok ())"
    using assms(4) by (auto simp: remove_file_mapping_def remove_file_mapping_inner_def Let_def
        split: if_splits prod.splits outcome.splits)
  have keep: "s_vms st1 = s_vms st" "s_removals st1 = insert n (s_removals st)"
    using st1 by (auto simp: on_db_def split: prod.splits)
  have new: "n \<notin> s_removals st"
    using assms(4) by (auto simp: remove_file_mapping_def split: if_splits)
  have "st' = set_instance vid (v\<lparr>in_file_proxies := (in_file_proxies v)(n := None)\<rparr>) st1"
    "q = Some (p\<lparr>path_manager := set_unmount_pending (path_manager p)\<rparr>)"
    using assms st1 keep new by (auto simp: remove_file_mapping_def remove_file_mapping_inner_def request_unmount_def Let_def)
  then show ?thesis
    using keep by (simp add: force_unmount_file_proxy_def set_instance_def set_unmount_pending_def)
qed

text \<open>a port mapping that was accepted has an unprivileged host port, leads to a port that is neither
  zero nor one of nilbox's own, is live in the gateway, and is in the database.\<close>

theorem accepted_mapping:
  assumes "svc_add_mapping e vid hp vp label st = (st', Ok ())" "gateway_inv (s_gateway st)"
  shows "1024 \<le> hp \<and> vp \<noteq> 0 \<and> vp \<notin> {22, 18088} \<and> port_mapping (s_gateway st') hp = Some (vid, vp)
    \<and> listeners (s_gateway st') hp = Some (vid, vp)
    \<and> (\<exists>x \<in> set (rows (port_mappings (s_db st'))). pm_vm (snd x) = vid \<and> pm_host_port (snd x) = hp)"
proof -
  have guards: "1024 \<le> hp" "vp \<noteq> 0" "vp \<notin> {22, 18088}"
    using assms(1) by (auto simp: svc_add_mapping_def RESERVED_VM_PORTS_def not_less split: if_splits)
  obtain g x where g: "add_mapping (v_free e) vid hp vp (s_gateway st) = (g, x)"
    by fastforce
  have "\<exists>u. x = Ok u \<and> (\<exists>n. on_db (insert_port_mapping vid hp vp label) (st\<lparr>s_gateway := g\<rparr>) = (st', Ok n))"
    using assms(1) g by (auto simp: svc_add_mapping_def Let_def then_st_Ok split: if_splits)
  then obtain n where n: "x = Ok ()" "on_db (insert_port_mapping vid hp vp label) (st\<lparr>s_gateway := g\<rparr>) = (st', Ok n)"
    by auto
  have "s_gateway st' = g" "insert_port_mapping vid hp vp label (s_db st) = (s_db st', Ok n)"
    using n(2) by (auto simp: on_db_def s_db_def split: prod.splits)
  moreover have "port_mapping g hp = Some (vid, vp)" "listeners g hp = Some (vid, vp)"
    using g n(1) assms(2) by (auto simp: gateway_defs gateway_inv_def split: option.splits if_splits)
  ultimately show ?thesis
    using guards insert_port_row [of vid hp vp label "s_db st" "s_db st'" n] by simp
qed

text \<open>the cleanup keeps exactly the token mappings whose account the key store can read; when it cannot read
  any, because it is locked or broken, every mapping is deleted.\<close>

theorem orphan_cleanup_exact:
  "domain_token_accounts (cleanup_orphan_tokens lookup s)
    = filter (\<lambda>t. is_ok (lookup (snd t))) (domain_token_accounts s)"
  by (auto simp: cleanup_orphan_tokens_def all_domain_token_accounts_def delete_domain_tokens_by_accounts_def
      filter_empty_conv Let_def intro!: filter_cong filter_True [symmetric])


section \<open>Examples\<close>

definition sample_svc_env :: svc_env where
  "sample_svc_env = \<lparr>v_status = (\<lambda>_. Stopped), v_create = (\<lambda>_. True), v_stop = (\<lambda>_. True), v_rmdir = (\<lambda>_. Missing),
     v_free = (\<lambda>_. True), v_os_port = None, v_max_cpus = 8, v_home = None, v_stream = (\<lambda>_. True), v_os = File_Proxy.sample_env,
     v_fs = sample_fs, v_len = (\<lambda>_. None)\<rparr>"

definition sample_vm_config :: VmConfig where
  "sample_vm_config = \<lparr>vc_disk_image = ''/d'', vc_kernel = Some ''/k'', vc_initrd = None, vc_append = None,
     vc_memory_mb = 512, vc_cpus = 2\<rparr>"

definition sample_core :: core_state where
  "sample_core = \<lparr>s_vms = Map.empty, s_active = None, s_gateway = gateway_new,
     s_install = \<lparr>i_cache = Map.empty, i_files = Map.empty, i_db = db_absent\<lparr>vms_columns := VMS_COLUMNS @ [''manifest_version'']\<rparr>\<rparr>,
     s_removed = [], s_removals = {}\<rparr>"

definition sample_running :: core_state where
  "sample_running = foldl run_svc_op sample_core
     (map (Pair sample_svc_env) [CreateVm ''a'' ''t'' ''A'' sample_vm_config, CreateVm ''b'' ''t'' ''B'' sample_vm_config])"

definition sample_open :: core_state where
  "sample_open = sample_core\<lparr>s_vms := [''a'' \<mapsto> (instance_of (sample_vm ''a'') [])
       \<lparr>in_file_proxies := [1 \<mapsto> (sample_proxy True)\<lparr>path_manager := (path_manager (sample_proxy True))\<lparr>open_handles := [7]\<rparr>\<rparr>]\<rparr>],
     s_gateway := start_listener_with ''a'' 8080 80 (gateway_new\<lparr>port_mapping := [8080 \<mapsto> (''a'', 80)]\<rparr>),
     s_install := (s_install sample_core)\<lparr>i_db := sample_db\<lparr>file_mappings := \<lparr>rows = [(1,
       \<lparr>fm_vm = ''a'', fm_host_path = ''/s'', fm_vm_mount = ''/m'', fm_read_only = True, fm_label = [], fm_sort_order = 0,
        fm_is_active = True\<rparr>)], seq = 1\<rparr>\<rparr>\<rparr>\<rparr>"

lemma sample_db_ready: "vms_ready (sample_db\<lparr>file_mappings := t\<rparr>)" "has_vm (sample_db\<lparr>file_mappings := t\<rparr>) ''a''"
  by (auto simp: vms_ready_def has_vm_def sample_db_def sample_vm_def)

lemma sample_run_names:
  "map_option in_name (s_vms sample_running ''b'') = Some ''B''"
  by code_simp


lemma sample_delete: "\<exists>st'. svc_delete_vm sample_svc_env ''a'' sample_open = (st', Ok ())"
  by (simp add: svc_delete_vm_def sample_open_def sample_svc_env_def on_db_def delete_vm_def sample_db_ready s_db_def Let_def
      split: option.split)

theorem deleted_vm_keeps_listeners_witness:
  "listeners (s_gateway (fst (svc_delete_vm sample_svc_env ''a'' sample_open))) 8080 = Some (''a'', 80)
   \<and> \<not> has_vm (s_db (fst (svc_delete_vm sample_svc_env ''a'' sample_open))) ''a''"
proof -
  obtain st' where run: "svc_delete_vm sample_svc_env ''a'' sample_open = (st', Ok ())"
    using sample_delete by blast
  show ?thesis
    using deleted_vm_keeps_listeners [OF run, of 8080 80] run by (simp add: sample_open_def start_listener_with_def gateway_new_def)
qed

theorem shared_boot_files_kept_witness:
  "\<exists>removed. s_removed (fst (svc_delete_vm sample_svc_env ''a'' sample_open)) = s_removed sample_open @ removed"
proof -
  obtain st' where run: "svc_delete_vm sample_svc_env ''a'' sample_open = (st', Ok ())"
    using sample_delete by blast
  show ?thesis
    using shared_boot_files_kept [OF run] run by auto
qed

theorem forced_unmount_has_no_effect_witness:
  "let st' = fst (fst (remove_file_mapping ''a'' 1 sample_open))
   in force_unmount_file_proxy ''a'' 1 st' = ((st', None), Ok ()) \<and> 1 \<in> s_removals st'"
proof -
  have "\<exists>st' q. remove_file_mapping ''a'' 1 sample_open = ((st', q), Ok ())"
    by (simp add: remove_file_mapping_def remove_file_mapping_inner_def on_db_def delete_file_mapping_def tbl_ex_def
        request_unmount_def sample_open_def sample_core_def s_db_def Let_def)
  then obtain st' q where run: "remove_file_mapping ''a'' 1 sample_open = ((st', q), Ok ())"
    by blast
  show ?thesis
    using forced_unmount_has_no_effect [OF _ _ _ run] run by (simp add: sample_open_def Let_def)
qed

lemma create_vm_gateway: "s_gateway (fst (create_vm e vid now name c st)) = s_gateway st"
  unfolding create_vm_def Let_def
  by (intro then_st_frame [where P = "\<lambda>s. s_gateway s = s_gateway st"])
    (auto simp: on_db_def set_instance_def split: prod.split)

theorem accepted_mapping_witness:
  "listeners (s_gateway (fst (svc_add_mapping sample_svc_env ''b'' 9000 80 [] sample_running))) 9000 = Some (''b'', 80)"
proof -
  have "snd (svc_add_mapping sample_svc_env ''b'' 9000 80 [] sample_running) = Ok ()"
    by code_simp
  then have run: "svc_add_mapping sample_svc_env ''b'' 9000 80 [] sample_running
      = (fst (svc_add_mapping sample_svc_env ''b'' 9000 80 [] sample_running), Ok ())"
    by (metis prod.collapse)
  have "s_gateway sample_running = gateway_new"
    by (simp add: sample_running_def create_vm_gateway) (simp add: sample_core_def)
  then show ?thesis
    using accepted_mapping [OF run] gateway_inv_new by simp
qed

end
