(* ===== verification/Usage_Reports.thy ===== *)
theory Usage_Reports
  imports Token_Usage "HOL-Library.Char_ord" "HOL-Library.List_Lexorder" "HOL-Library.Product_Lexorder"
begin

text \<open>
  The usage reports and the maintenance of the usage tables: the rest of the token usage
  queries of \<open>config_store.rs\<close> and \<open>run_token_usage_maintenance\<close> of \<open>service.rs\<close>.  A time stamp
  is \<open>YYYY-MM-DD HH:MM:SS\<close> in UTC, as \<open>datetime('now')\<close> writes it, so that its date and its month
  are prefixes.  The conversion to local time (SQLite) and the calendar (chrono) are parameters.
  The order of the groups of \<open>GROUP BY\<close> is that of first appearance.  Sums do not overflow.
\<close>

section \<open>Tables\<close>

record usage_period =
  up_vm :: string
  up_provider :: string
  up_date :: string
  up_request :: int
  up_response :: int
  up_total :: int
  up_count :: int

record usage_tables =
  ut_base :: usage_db
  token_usage_daily :: "usage_period list"
  token_usage_weekly :: "usage_period list"

record TokenUsageDaily =
  ud_provider :: string
  ud_request :: int
  ud_response :: int
  ud_total :: int
  ud_count :: int

record TokenUsageDateEntry =
  de_date :: string
  de_provider :: string
  de_total :: int
  de_count :: int

definition sql_date :: "string \<Rightarrow> string" where "sql_date t = take 10 t"

definition sql_month :: "string \<Rightarrow> string" where "sql_month d = take 7 d"

definition log_date :: "usage_log \<Rightarrow> string" where "log_date l = sql_date (ul_created_at l)"

definition period_key :: "usage_period \<Rightarrow> string \<times> string \<times> string" where
  "period_key r = (up_vm r, up_provider r, up_date r)"

definition group_by :: "('r \<Rightarrow> 'k) \<Rightarrow> 'r list \<Rightarrow> ('k \<times> 'r list) list" where
  "group_by key rs = map (\<lambda>k. (k, filter (\<lambda>r. key r = k) rs)) (remdups (map key rs))"

definition sum_by :: "('r \<Rightarrow> int) \<Rightarrow> 'r list \<Rightarrow> int" where
  "sum_by f rs = sum_list (map f rs)"

definition insert_or_replace :: "('r \<Rightarrow> 'k) \<Rightarrow> 'r list \<Rightarrow> 'r list \<Rightarrow> 'r list" where
  "insert_or_replace key new rs = foldl (\<lambda>rs r. filter (\<lambda>x. key x \<noteq> key r) rs @ [r]) rs new"


section \<open>Aggregation\<close>

definition aggregate_daily_from_logs :: "string \<Rightarrow> usage_tables \<Rightarrow> usage_tables" where
  "aggregate_daily_from_logs date db =
    db\<lparr>token_usage_daily := insert_or_replace period_key
      (map (\<lambda>((vm, p), ls). \<lparr>up_vm = vm, up_provider = p, up_date = date, up_request = sum_by ul_request ls,
             up_response = sum_by ul_response ls, up_total = sum_by ul_total ls, up_count = int (length ls)\<rparr>)
        (group_by (\<lambda>l. (ul_vm l, ul_provider l))
          (filter (\<lambda>l. log_date l = date) (token_usage_logs (ut_base db)))))
      (token_usage_daily db)\<rparr>"

definition aggregate_weekly_from_daily :: "string \<Rightarrow> string \<Rightarrow> usage_tables \<Rightarrow> usage_tables" where
  "aggregate_weekly_from_daily week_start week_end db =
    db\<lparr>token_usage_weekly := insert_or_replace period_key
      (map (\<lambda>((vm, p), rs). \<lparr>up_vm = vm, up_provider = p, up_date = week_start, up_request = sum_by up_request rs,
             up_response = sum_by up_response rs, up_total = sum_by up_total rs, up_count = sum_by up_count rs\<rparr>)
        (group_by (\<lambda>r. (up_vm r, up_provider r))
          (filter (\<lambda>r. week_start \<le> up_date r \<and> up_date r \<le> week_end) (token_usage_daily db))))
      (token_usage_weekly db)\<rparr>"

definition finalize_monthly_from_daily :: "string \<Rightarrow> usage_tables \<Rightarrow> usage_tables" where
  "finalize_monthly_from_daily ym db =
    (let base = ut_base db;
         new = map (\<lambda>((vm, p), rs). \<lparr>um_vm = vm, um_provider = p, um_year_month = ym, um_request = sum_by up_request rs,
                  um_response = sum_by up_response rs, um_total = sum_by up_total rs, um_count = sum_by up_count rs\<rparr>)
                (group_by (\<lambda>r. (up_vm r, up_provider r))
                  (filter (\<lambda>r. sql_month (up_date r) = ym) (token_usage_daily db)))
     in db\<lparr>ut_base := base\<lparr>token_usage_monthly := insert_or_replace month_key new (token_usage_monthly base)\<rparr>\<rparr>)"

text \<open>\<open>cutoff\<close> is \<open>datetime('now', '-N days')\<close>.\<close>

definition delete_old_token_usage_logs :: "string \<Rightarrow> usage_tables \<Rightarrow> usage_tables \<times> nat" where
  "delete_old_token_usage_logs cutoff db =
    (let base = ut_base db
     in (db\<lparr>ut_base := base\<lparr>token_usage_logs := filter (\<lambda>l. \<not> ul_created_at l < cutoff) (token_usage_logs base)\<rparr>\<rparr>,
         length (filter (\<lambda>l. ul_created_at l < cutoff) (token_usage_logs base))))"

definition get_dates_needing_daily_aggregation :: "string \<Rightarrow> string \<Rightarrow> usage_tables \<Rightarrow> string list" where
  "get_dates_needing_daily_aggregation from_date to_date db =
    sort (remdups (filter (\<lambda>d. from_date \<le> d \<and> d \<le> to_date
        \<and> d \<notin> set (filter (\<lambda>x. from_date \<le> x \<and> x \<le> to_date) (map up_date (token_usage_daily db))))
      (map log_date (token_usage_logs (ut_base db)))))"


section \<open>Maintenance\<close>

text \<open>
  Dates are day numbers: \<open>c_format\<close> prints one (\<open>%Y-%m-%d\<close>), \<open>c_weekday\<close> is the number of days since
  Sunday, \<open>c_year\<close> and \<open>c_month\<close> are its year and month, and \<open>c_ym\<close> prints a year and a month.
\<close>

record calendar =
  c_format :: "int \<Rightarrow> string"
  c_weekday :: "int \<Rightarrow> nat"
  c_year :: "int \<Rightarrow> int"
  c_month :: "int \<Rightarrow> int"
  c_ym :: "int \<Rightarrow> int \<Rightarrow> string"

definition sunday_of :: "calendar \<Rightarrow> int \<Rightarrow> int" where
  "sunday_of c d = d - int (c_weekday c d)"

function weekly_loop :: "calendar \<Rightarrow> int \<Rightarrow> int \<Rightarrow> usage_tables \<Rightarrow> usage_tables" where
  "weekly_loop c week_start final db =
    (if week_start \<le> final
     then weekly_loop c (week_start + 7) final
            (aggregate_weekly_from_daily (c_format c week_start) (c_format c (week_start + 6)) db)
     else db)"
  by auto

termination weekly_loop
  by (relation "measure (\<lambda>(c, week_start, final, db). nat (final + 1 - week_start))") auto

declare weekly_loop.simps [simp del]

definition previous_month :: "int \<times> int \<Rightarrow> int \<times> int" where
  "previous_month = (\<lambda>(y, m). if m - 1 = 0 then (y - 1, 12) else (y, m - 1))"

definition daily_catch_up :: "calendar \<Rightarrow> int \<Rightarrow> usage_tables \<Rightarrow> usage_tables" where
  "daily_catch_up c today db =
    foldl (\<lambda>db date. aggregate_daily_from_logs date db) db
      (get_dates_needing_daily_aggregation (c_format c (today - 60)) (c_format c (today - 1)) db)"

definition weekly_catch_up :: "calendar \<Rightarrow> int \<Rightarrow> usage_tables \<Rightarrow> usage_tables" where
  "weekly_catch_up c today db = weekly_loop c (sunday_of c (today - 60)) (sunday_of c today - 7) db"

definition monthly_catch_up :: "calendar \<Rightarrow> int \<Rightarrow> usage_tables \<Rightarrow> usage_tables" where
  "monthly_catch_up c today db =
    (let m1 = previous_month (c_year c today, c_month c today); m2 = previous_month m1
     in finalize_monthly_from_daily (c_ym c (fst m2) (snd m2))
          (finalize_monthly_from_daily (c_ym c (fst m1) (snd m1)) db))"

text \<open>\<open>today\<close> is the date in local time.\<close>

definition run_token_usage_maintenance :: "calendar \<Rightarrow> int \<Rightarrow> string \<Rightarrow> usage_tables \<Rightarrow> usage_tables" where
  "run_token_usage_maintenance c today cutoff db =
    fst (delete_old_token_usage_logs cutoff (monthly_catch_up c today (weekly_catch_up c today (daily_catch_up c today db))))"


section \<open>Reports\<close>

text \<open>SQLite's \<open>LIKE\<close>, which ignores the case of ASCII letters.\<close>

fun sql_like :: "string \<Rightarrow> string \<Rightarrow> bool" where
  "sql_like [] t \<longleftrightarrow> t = []"
| "sql_like (p # ps) [] \<longleftrightarrow> p = CHR ''%'' \<and> sql_like ps []"
| "sql_like (p # ps) (c # t) \<longleftrightarrow>
    (if p = CHR ''%'' then sql_like ps (c # t) \<or> sql_like (p # ps) t
     else (p = CHR ''_'' \<or> lower_char p = lower_char c) \<and> sql_like ps t)"

definition get_token_usage_monthly :: "string \<Rightarrow> string \<Rightarrow> usage_tables \<Rightarrow> usage_month list" where
  "get_token_usage_monthly vm ym db =
    sort_key (\<lambda>r. - um_total r)
      (filter (\<lambda>r. um_vm r = vm \<and> um_year_month r = ym) (token_usage_monthly (ut_base db)))"

definition get_token_usage_daily :: "(string \<Rightarrow> string) \<Rightarrow> string \<Rightarrow> string \<Rightarrow> usage_tables \<Rightarrow> TokenUsageDaily list" where
  "get_token_usage_daily local_date vm date db =
    sort_key (\<lambda>r. - ud_total r)
      (map (\<lambda>(p, ls). \<lparr>ud_provider = p, ud_request = sum_by ul_request ls, ud_response = sum_by ul_response ls,
            ud_total = sum_by ul_total ls, ud_count = int (length ls)\<rparr>)
        (group_by ul_provider
          (filter (\<lambda>l. ul_vm l = vm \<and> sql_like (date @ ''%'') (local_date (ul_created_at l)))
            (token_usage_logs (ut_base db)))))"

text \<open>A negative limit is no limit, a negative offset is zero.\<close>

definition get_token_usage_logs :: "string \<Rightarrow> int \<Rightarrow> int \<Rightarrow> usage_tables \<Rightarrow> usage_log list" where
  "get_token_usage_logs vm n offset db =
    (let found = drop (nat offset) (rev (filter (\<lambda>l. ul_vm l = vm) (token_usage_logs (ut_base db))))
     in if n < 0 then found else take (nat n) found)"

definition count_token_usage_logs :: "string \<Rightarrow> usage_tables \<Rightarrow> int" where
  "count_token_usage_logs vm db = int (length (filter (\<lambda>l. ul_vm l = vm) (token_usage_logs (ut_base db))))"

definition get_token_usage_date_range ::
  "(string \<Rightarrow> string) \<Rightarrow> string \<Rightarrow> string \<Rightarrow> string \<Rightarrow> usage_tables \<Rightarrow> TokenUsageDateEntry list" where
  "get_token_usage_date_range local_date vm from_date to_date db =
    sort_key (\<lambda>e. (de_date e, de_provider e))
      (map (\<lambda>((d, p), ls). \<lparr>de_date = d, de_provider = p, de_total = sum_by ul_total ls, de_count = int (length ls)\<rparr>)
        (group_by (\<lambda>l. (local_date (ul_created_at l), ul_provider l))
          (filter (\<lambda>l. ul_vm l = vm \<and> from_date \<le> local_date (ul_created_at l) \<and> local_date (ul_created_at l) \<le> to_date)
            (token_usage_logs (ut_base db)))))"

definition period_entry :: "usage_period \<Rightarrow> TokenUsageDateEntry" where
  "period_entry r = \<lparr>de_date = up_date r, de_provider = up_provider r, de_total = up_total r, de_count = up_count r\<rparr>"

definition get_token_usage_from_daily_table ::
  "string \<Rightarrow> string \<Rightarrow> string \<Rightarrow> usage_tables \<Rightarrow> TokenUsageDateEntry list" where
  "get_token_usage_from_daily_table vm from_date to_date db =
    sort_key (\<lambda>e. (de_date e, de_provider e))
      (map period_entry (filter (\<lambda>r. up_vm r = vm \<and> from_date \<le> up_date r \<and> up_date r \<le> to_date) (token_usage_daily db)))"

text \<open>\<open>plus_6\<close> and \<open>last_day\<close> are SQLite's \<open>date(d, '+6 days')\<close> and \<open>date(m || '-01', '+1 month', '-1 day')\<close>.\<close>

definition get_token_usage_weekly_for_month ::
  "(string \<Rightarrow> string) \<Rightarrow> (string \<Rightarrow> string) \<Rightarrow> string \<Rightarrow> string \<Rightarrow> usage_tables \<Rightarrow> TokenUsageDateEntry list" where
  "get_token_usage_weekly_for_month plus_6 last_day vm ym db =
    sort_key (\<lambda>e. (de_date e, de_provider e))
      (map period_entry (filter (\<lambda>r. up_vm r = vm \<and> ym @ ''-01'' \<le> plus_6 (up_date r) \<and> up_date r \<le> last_day ym)
        (token_usage_weekly db)))"

definition get_token_usage_monthly_for_year :: "string \<Rightarrow> string \<Rightarrow> usage_tables \<Rightarrow> usage_month list" where
  "get_token_usage_monthly_for_year vm year db =
    sort_key (\<lambda>r. (um_year_month r, - um_total r))
      (filter (\<lambda>r. um_vm r = vm \<and> take 4 (um_year_month r) = year) (token_usage_monthly (ut_base db)))"



section \<open>Lemmas\<close>

lemma filter_insert_or_replace:
  assumes "distinct (map key new)"
  shows "filter (\<lambda>r. key r = k) (insert_or_replace key new rs)
    = (if k \<in> key ` set new then filter (\<lambda>r. key r = k) new else filter (\<lambda>r. key r = k) rs)"
  using assms unfolding insert_or_replace_def
proof (induction new arbitrary: rs)
  case (Cons n new)
  have "filter (\<lambda>r. key r = k) (filter (\<lambda>x. key x \<noteq> key n) rs @ [n])
    = (if key n = k then [n] else filter (\<lambda>r. key r = k) rs)"
    by (auto simp: filter_empty_conv intro: filter_cong)
  moreover have "key n = k \<Longrightarrow> filter (\<lambda>r. key r = k) new = []"
    using Cons.prems by (auto simp: filter_empty_conv image_iff)
  ultimately show ?case
    using Cons by (auto simp: image_iff)
qed simp

lemma set_insert_or_replace:
  "set (insert_or_replace key new rs) \<subseteq> set new \<union> set rs"
  unfolding insert_or_replace_def by (induction new arbitrary: rs) force+

lemma insert_or_replace_keys:
  "key ` set (insert_or_replace key new rs) = key ` set new \<union> key ` set rs"
  unfolding insert_or_replace_def
proof (induction new arbitrary: rs)
  case (Cons n new)
  have "key ` set (filter (\<lambda>x. key x \<noteq> key n) rs @ [n]) = insert (key n) (key ` set rs)"
    by auto
  then show ?case
    using Cons by auto
qed simp

lemma group_by_map:
  assumes "\<And>k ls. key (row (k, ls)) = mk k" "inj mk"
  shows "distinct (map key (map row (group_by g rs)))"
    and "filter (\<lambda>r. key r = mk k) (map row (group_by g rs))
      = (if k \<in> g ` set rs then [row (k, filter (\<lambda>r. g r = k) rs)] else [])"
    and "key ` set (map row (group_by g rs)) = mk ` g ` set rs"
proof -
  have keys: "map key (map row (group_by g rs)) = map mk (remdups (map g rs))"
    by (simp add: group_by_def assms(1))
  show "distinct (map key (map row (group_by g rs)))"
    unfolding keys using assms(2) by (auto simp: distinct_map intro: inj_on_subset)
  show "key ` set (map row (group_by g rs)) = mk ` g ` set rs"
    using arg_cong [OF keys, of set] by (simp only: set_map set_remdups)
  have "filter (\<lambda>r. key r = mk k) (map row (map (\<lambda>k. (k, filter (\<lambda>r. g r = k) rs)) ks))
      = (if k \<in> set ks then [row (k, filter (\<lambda>r. g r = k) rs)] else [])" if "distinct ks" for ks
    using that assms by (induction ks) (auto simp: inj_eq)
  then show "filter (\<lambda>r. key r = mk k) (map row (group_by g rs))
      = (if k \<in> g ` set rs then [row (k, filter (\<lambda>r. g r = k) rs)] else [])"
    unfolding group_by_def by simp
qed

definition logs_of :: "usage_tables \<Rightarrow> string \<times> string \<times> string \<Rightarrow> usage_log list" where
  "logs_of db k = filter (\<lambda>l. (ul_vm l, ul_provider l, log_date l) = k) (token_usage_logs (ut_base db))"

definition day_row :: "string \<times> string \<times> string \<Rightarrow> usage_log list \<Rightarrow> usage_period" where
  "day_row k ls = (case k of (vm, p, d) \<Rightarrow>
    \<lparr>up_vm = vm, up_provider = p, up_date = d, up_request = sum_by ul_request ls, up_response = sum_by ul_response ls,
     up_total = sum_by ul_total ls, up_count = int (length ls)\<rparr>)"

definition day_rows :: "usage_tables \<Rightarrow> string \<times> string \<times> string \<Rightarrow> usage_period list" where
  "day_rows db k = filter (\<lambda>r. period_key r = k) (token_usage_daily db)"

definition month_rows :: "usage_tables \<Rightarrow> string \<times> string \<times> string \<Rightarrow> usage_period list" where
  "month_rows db k =
    filter (\<lambda>r. (up_vm r, up_provider r, sql_month (up_date r)) = k) (token_usage_daily db)"

lemma aggregate_daily_rows:
  "day_rows (aggregate_daily_from_logs date db) (vm, p, d)
    = (if d = date \<and> logs_of db (vm, p, d) \<noteq> [] then [day_row (vm, p, d) (logs_of db (vm, p, d))] else day_rows db (vm, p, d))"
proof -
  define row where "row = (\<lambda>((vm, p), ls :: usage_log list). \<lparr>up_vm = vm, up_provider = p, up_date = date, up_request = sum_by ul_request ls,
    up_response = sum_by ul_response ls, up_total = sum_by ul_total ls, up_count = int (length ls)\<rparr>)"
  let ?g = "\<lambda>l :: usage_log. (ul_vm l, ul_provider l)" let ?mk = "\<lambda>(vm, p). (vm, p, date)"
  let ?logs = "filter (\<lambda>l. log_date l = date) (token_usage_logs (ut_base db))"
  have mk: "period_key (row (k, ls)) = ?mk k" for k ls
    by (cases k) (simp add: row_def period_key_def)
  have inj: "inj ?mk"
    by (auto simp: inj_def)
  note g = group_by_map [of period_key row, OF mk inj, where g = ?g and rs = ?logs]
  have logs: "filter (\<lambda>l. ?g l = (vm, p)) ?logs = logs_of db (vm, p, date)"
    by (auto simp: logs_of_def intro: filter_cong)
  have some: "(vm, p) \<in> ?g ` set ?logs \<longleftrightarrow> logs_of db (vm, p, date) \<noteq> []"
    by (auto simp: logs_of_def filter_empty_conv)
  have table: "token_usage_daily (aggregate_daily_from_logs date db)
      = insert_or_replace period_key (map row (group_by ?g ?logs)) (token_usage_daily db)"
    by (simp add: aggregate_daily_from_logs_def row_def)
  have rows: "day_rows (aggregate_daily_from_logs date db) k = (if k \<in> ?mk ` ?g ` set ?logs
      then filter (\<lambda>r. period_key r = k) (map row (group_by ?g ?logs)) else day_rows db k)" for k
    unfolding day_rows_def table filter_insert_or_replace [OF g(1)] g(3) ..
  have hit: "(vm, p, d) \<in> ?mk ` ?g ` set ?logs \<longleftrightarrow> d = date \<and> logs_of db (vm, p, date) \<noteq> []"
    unfolding some [symmetric] by auto
  have "filter (\<lambda>r. period_key r = (vm, p, date)) (map row (group_by ?g ?logs))
      = (if logs_of db (vm, p, date) \<noteq> [] then [row ((vm, p), logs_of db (vm, p, date))] else [])"
    using g(2) [of "(vm, p)"] unfolding some logs by simp
  then show ?thesis
    unfolding rows hit by (cases "d = date") (auto simp: row_def day_row_def)
qed

lemma finalize_monthly_rows:
  "month_total (ut_base (finalize_monthly_from_daily ym db)) (vm, p, m)
    = (if m = ym \<and> month_rows db (vm, p, m) \<noteq> [] then sum_by up_total (month_rows db (vm, p, m))
       else month_total (ut_base db) (vm, p, m))"
proof -
  define row where "row = (\<lambda>((vm, p), rs :: usage_period list). \<lparr>um_vm = vm, um_provider = p, um_year_month = ym, um_request = sum_by up_request rs,
    um_response = sum_by up_response rs, um_total = sum_by up_total rs, um_count = sum_by up_count rs\<rparr>)"
  let ?g = "\<lambda>r :: usage_period. (up_vm r, up_provider r)" let ?mk = "\<lambda>(vm, p). (vm, p, ym)"
  let ?rs = "filter (\<lambda>r. sql_month (up_date r) = ym) (token_usage_daily db)"
  have mk: "month_key (row (k, ls)) = ?mk k" for k ls
    by (cases k) (simp add: row_def month_key_def)
  have inj: "inj ?mk"
    by (auto simp: inj_def)
  note g = group_by_map [of month_key row, OF mk inj, where g = ?g and rs = ?rs]
  have days: "filter (\<lambda>r. ?g r = (vm, p)) ?rs = month_rows db (vm, p, ym)"
    by (auto simp: month_rows_def intro: filter_cong)
  have some: "(vm, p) \<in> ?g ` set ?rs \<longleftrightarrow> month_rows db (vm, p, ym) \<noteq> []"
    by (auto simp: month_rows_def filter_empty_conv)
  have table: "token_usage_monthly (ut_base (finalize_monthly_from_daily ym db))
      = insert_or_replace month_key (map row (group_by ?g ?rs)) (token_usage_monthly (ut_base db))"
    by (simp add: finalize_monthly_from_daily_def row_def Let_def)
  have rows: "filter (\<lambda>r. month_key r = k) (token_usage_monthly (ut_base (finalize_monthly_from_daily ym db)))
      = (if k \<in> ?mk ` ?g ` set ?rs then filter (\<lambda>r. month_key r = k) (map row (group_by ?g ?rs))
         else filter (\<lambda>r. month_key r = k) (token_usage_monthly (ut_base db)))" for k
    unfolding table filter_insert_or_replace [OF g(1)] g(3) ..
  have hit: "(vm, p, m) \<in> ?mk ` ?g ` set ?rs \<longleftrightarrow> m = ym \<and> month_rows db (vm, p, ym) \<noteq> []"
    unfolding some [symmetric] by auto
  have "filter (\<lambda>r. month_key r = (vm, p, ym)) (map row (group_by ?g ?rs))
      = (if month_rows db (vm, p, ym) \<noteq> [] then [row ((vm, p), month_rows db (vm, p, ym))] else [])"
    using g(2) [of "(vm, p)"] unfolding some days by simp
  then show ?thesis
    unfolding month_total_def rows hit by (cases "m = ym") (auto simp: row_def)
qed

lemma aggregate_daily_base [simp]: "ut_base (aggregate_daily_from_logs d db) = ut_base db"
  by (simp add: aggregate_daily_from_logs_def)

lemma logs_of_aggregate [simp]: "logs_of (aggregate_daily_from_logs d db) k = logs_of db k"
  by (simp add: logs_of_def)

lemma fold_daily_rows:
  "day_rows (foldl (\<lambda>db date. aggregate_daily_from_logs date db) db ds) (vm, p, d)
    = (if d \<in> set ds \<and> logs_of db (vm, p, d) \<noteq> [] then [day_row (vm, p, d) (logs_of db (vm, p, d))] else day_rows db (vm, p, d))"
  by (induction ds arbitrary: db) (auto simp: aggregate_daily_rows)

lemma fold_daily_base [simp]: "ut_base (foldl (\<lambda>db date. aggregate_daily_from_logs date db) db ds) = ut_base db"
  by (induction ds arbitrary: db) simp_all

lemma needing_dates:
  "d \<in> set (get_dates_needing_daily_aggregation a b db) \<longleftrightarrow>
    a \<le> d \<and> d \<le> b \<and> d \<in> log_date ` set (token_usage_logs (ut_base db)) \<and> d \<notin> up_date ` set (token_usage_daily db)"
  by (auto simp: get_dates_needing_daily_aggregation_def)

lemma weekly_keeps [simp]:
  "token_usage_daily (weekly_loop c a b db) = token_usage_daily db" "ut_base (weekly_loop c a b db) = ut_base db"
proof (induction c a b db rule: weekly_loop.induct)
  case (1 c a b db)
  case 1
  show ?case
    using "1.IH" by (subst weekly_loop.simps) (simp add: aggregate_weekly_from_daily_def)
  case 2
  show ?case
    using "1.IH" by (subst weekly_loop.simps) (simp add: aggregate_weekly_from_daily_def)
qed

lemma finalize_keeps [simp]:
  "token_usage_daily (finalize_monthly_from_daily ym db) = token_usage_daily db"
  "token_usage_logs (ut_base (finalize_monthly_from_daily ym db)) = token_usage_logs (ut_base db)"
  by (simp_all add: finalize_monthly_from_daily_def Let_def)

lemma month_rows_cong: "token_usage_daily db = token_usage_daily db' \<Longrightarrow> month_rows db k = month_rows db' k"
  by (simp add: month_rows_def)

definition finalized_months :: "calendar \<Rightarrow> int \<Rightarrow> string list" where
  "finalized_months c today =
    (let m1 = previous_month (c_year c today, c_month c today); m2 = previous_month m1
     in [c_ym c (fst m1) (snd m1), c_ym c (fst m2) (snd m2)])"

lemma maintenance_daily:
  "token_usage_daily (run_token_usage_maintenance c today cutoff db) = token_usage_daily (daily_catch_up c today db)"
  by (simp add: run_token_usage_maintenance_def delete_old_token_usage_logs_def monthly_catch_up_def weekly_catch_up_def Let_def)

lemma maintenance_monthly:
  "month_total (ut_base (run_token_usage_maintenance c today cutoff db)) (vm, p, m)
    = (if m \<in> set (finalized_months c today) \<and> month_rows (daily_catch_up c today db) (vm, p, m) \<noteq> []
       then sum_by up_total (month_rows (daily_catch_up c today db) (vm, p, m)) else month_total (ut_base db) (vm, p, m))"
proof -
  let ?w = "weekly_catch_up c today (daily_catch_up c today db)"
  have rows: "month_rows (finalize_monthly_from_daily ym ?w) k = month_rows (daily_catch_up c today db) k"
    "month_rows ?w k = month_rows (daily_catch_up c today db) k" for ym k
    by (auto simp: weekly_catch_up_def intro!: month_rows_cong)
  have base: "month_total (ut_base ?w) k = month_total (ut_base db) k" for k
    by (simp add: weekly_catch_up_def daily_catch_up_def)
  have two: "month_total (ut_base (finalize_monthly_from_daily m2 (finalize_monthly_from_daily m1 ?w))) (vm, p, m)
      = (if m \<in> {m1, m2} \<and> month_rows (daily_catch_up c today db) (vm, p, m) \<noteq> []
         then sum_by up_total (month_rows (daily_catch_up c today db) (vm, p, m)) else month_total (ut_base db) (vm, p, m))"
    for m1 m2
    by (cases "m = m1") (auto simp: finalize_monthly_rows rows base)
  show ?thesis
    using two by (simp add: run_token_usage_maintenance_def delete_old_token_usage_logs_def month_total_def
        monthly_catch_up_def finalized_months_def Let_def)
qed


lemma aggregate_daily_cong:
  assumes "token_usage_daily db = token_usage_daily db'"
    and "filter (\<lambda>l. log_date l = d) (token_usage_logs (ut_base db)) = filter (\<lambda>l. log_date l = d) (token_usage_logs (ut_base db'))"
  shows "token_usage_daily (aggregate_daily_from_logs d db) = token_usage_daily (aggregate_daily_from_logs d db')"
  using assms by (simp add: aggregate_daily_from_logs_def)

lemma fold_daily_cong:
  assumes "token_usage_daily db = token_usage_daily db'"
    and "\<And>d. d \<in> set ds \<Longrightarrow>
      filter (\<lambda>l. log_date l = d) (token_usage_logs (ut_base db)) = filter (\<lambda>l. log_date l = d) (token_usage_logs (ut_base db'))"
  shows "token_usage_daily (foldl (\<lambda>db date. aggregate_daily_from_logs date db) db ds)
    = token_usage_daily (foldl (\<lambda>db date. aggregate_daily_from_logs date db) db' ds)"
  using assms
proof (induction ds arbitrary: db db')
  case (Cons d ds)
  have "token_usage_daily (aggregate_daily_from_logs d db) = token_usage_daily (aggregate_daily_from_logs d db')"
    by (rule aggregate_daily_cong) (simp_all add: Cons.prems)
  then show ?case
    using Cons.IH [of "aggregate_daily_from_logs d db" "aggregate_daily_from_logs d db'"] Cons.prems(2) by simp
qed simp

lemma catch_up_ignores_late_log:
  assumes "token_usage_logs (ut_base db') = token_usage_logs (ut_base db) @ [l]"
    and "token_usage_daily db' = token_usage_daily db" "log_date l \<in> up_date ` set (token_usage_daily db)"
  shows "token_usage_daily (daily_catch_up c today db') = token_usage_daily (daily_catch_up c today db)"
proof -
  have same: "get_dates_needing_daily_aggregation a b db' = get_dates_needing_daily_aggregation a b db" for a b
    using assms by (auto simp: get_dates_needing_daily_aggregation_def image_iff)
  show ?thesis
    unfolding daily_catch_up_def same
    by (rule fold_daily_cong) (use assms in \<open>auto simp: needing_dates\<close>)
qed

lemma month_rows_grow:
  assumes "month_rows db k \<noteq> []"
  shows "month_rows (daily_catch_up c today db) k \<noteq> []"
proof -
  have grow: "period_key ` set (token_usage_daily db) \<subseteq> period_key ` set (token_usage_daily (aggregate_daily_from_logs d db))"
    for d db
    by (auto simp: aggregate_daily_from_logs_def insert_or_replace_keys)
  have "period_key ` set (token_usage_daily db)
      \<subseteq> period_key ` set (token_usage_daily (foldl (\<lambda>db date. aggregate_daily_from_logs date db) db ds))" for ds
  proof (induction ds arbitrary: db)
    case (Cons d ds)
    show ?case
      using subset_trans [OF grow [of db d] Cons.IH [of "aggregate_daily_from_logs d db"]] by simp
  qed simp
  then have "period_key ` set (token_usage_daily db) \<subseteq> period_key ` set (token_usage_daily (daily_catch_up c today db))"
    by (simp add: daily_catch_up_def)
  then show ?thesis
    using assms by (fastforce simp: month_rows_def filter_empty_conv period_key_def image_subset_iff image_iff)
qed


section \<open>Properties\<close>

text \<open>what maintenance does to the tables: a day between sixty days ago and yesterday that has usage and
  no aggregate yet gets exact aggregates, every other day keeps what it has; and the totals of
  the two months before this one are replaced by the sums of their daily aggregates, wherever
  there are any.\<close>

theorem maintenance_effect:
  "day_rows (run_token_usage_maintenance c today cutoff db) (vm, p, d) =
     (if c_format c (today - 60) \<le> d \<and> d \<le> c_format c (today - 1) \<and> d \<notin> up_date ` set (token_usage_daily db)
         \<and> logs_of db (vm, p, d) \<noteq> []
      then [day_row (vm, p, d) (logs_of db (vm, p, d))] else day_rows db (vm, p, d))
   \<and> month_total (ut_base (run_token_usage_maintenance c today cutoff db)) (vm, p, m) =
     (let days = month_rows (run_token_usage_maintenance c today cutoff db) (vm, p, m)
      in if m \<in> set (finalized_months c today) \<and> days \<noteq> [] then sum_by up_total days
         else month_total (ut_base db) (vm, p, m))"
proof -
  have "logs_of db (vm, p, d) \<noteq> [] \<Longrightarrow> d \<in> log_date ` set (token_usage_logs (ut_base db))"
    by (auto simp: logs_of_def filter_empty_conv)
  then have "day_rows (daily_catch_up c today db) (vm, p, d) =
     (if c_format c (today - 60) \<le> d \<and> d \<le> c_format c (today - 1) \<and> d \<notin> up_date ` set (token_usage_daily db)
         \<and> logs_of db (vm, p, d) \<noteq> []
      then [day_row (vm, p, d) (logs_of db (vm, p, d))] else day_rows db (vm, p, d))"
    by (auto simp: daily_catch_up_def fold_daily_rows needing_dates)
  then show ?thesis
    using maintenance_daily [of c today cutoff db] by (simp add: maintenance_monthly day_rows_def month_rows_def Let_def)
qed

text \<open>usage logged on a day that already has an aggregate is lost: maintenance leaves the monthly total
  as if that usage had never been logged.  This happens when maintenance runs at a local date
  ahead of UTC, since it aggregates a UTC day that is not over yet.\<close>

theorem late_usage_lost:
  assumes "sql_date (now_timestamp now) \<in> up_date ` set (token_usage_daily db)"
    and "m \<in> set (finalized_months c today)" "month_rows db (vm, p, m) \<noteq> []"
    and "db' = db\<lparr>ut_base := log_usage now vm p u (ut_base db)\<rparr>"
  shows "month_total (ut_base (run_token_usage_maintenance c today cutoff db')) (vm, p, m)
    = month_total (ut_base (run_token_usage_maintenance c today cutoff db)) (vm, p, m)"
proof -
  have "token_usage_daily (daily_catch_up c today db') = token_usage_daily (daily_catch_up c today db)"
    by (rule catch_up_ignores_late_log [where l = "\<lparr>ul_vm = vm, ul_provider = p, ul_request = int (unat (request_tokens u)),
        ul_response = int (unat (response_tokens u)), ul_total = int (unat (total_tokens u)),
        ul_created_at = now_timestamp now, ul_year_month = now_year_month now\<rparr>"])
      (use assms(1) in \<open>simp_all add: assms(4) log_usage_def insert_token_usage_log_def upsert_token_usage_monthly_def log_date_def\<close>)
  then have "month_rows (daily_catch_up c today db') k = month_rows (daily_catch_up c today db) k" for k
    by (rule month_rows_cong)
  then show ?thesis
    using assms(2) month_rows_grow [OF assms(3), of c today] by (simp add: maintenance_monthly)
qed

definition sample_calendar :: calendar where
  "sample_calendar = \<lparr>c_format = (\<lambda>d. if d = 40 then ''2026-02-09'' else ''2025-12-11''), c_weekday = (\<lambda>d. nat (d mod 7)),
     c_year = (\<lambda>_. 2026), c_month = (\<lambda>_. 2), c_ym = (\<lambda>y m. if m = 1 then ''2026-01'' else ''2025-12'')\<rparr>"

definition sample_tables :: usage_tables where
  "sample_tables = \<lparr>ut_base = usage_empty, token_usage_daily =
     [\<lparr>up_vm = ''v'', up_provider = ''openai'', up_date = ''2026-01-31'', up_request = 1, up_response = 1, up_total = 2, up_count = 1\<rparr>],
     token_usage_weekly = []\<rparr>"

definition sample_late :: usage_tables where
  "sample_late = sample_tables\<lparr>ut_base := log_usage
     \<lparr>now_year_month = ''2026-01'', now_today = ''2026-01-31'', now_timestamp = ''2026-01-31 20:00:00''\<rparr> ''v'' ''openai''
     \<lparr>request_tokens = 1000, response_tokens = 0, total_tokens = 1000, model = None, confidence = ''confirmed''\<rparr>
     (ut_base sample_tables)\<rparr>"

theorem late_usage_lost_witness:
  "month_total (ut_base sample_late) (''v'', ''openai'', ''2026-01'') = 1000
   \<and> month_total (ut_base (run_token_usage_maintenance sample_calendar 41 [] sample_late)) (''v'', ''openai'', ''2026-01'')
     = month_total (ut_base (run_token_usage_maintenance sample_calendar 41 [] sample_tables)) (''v'', ''openai'', ''2026-01'')"
proof
  show "month_total (ut_base sample_late) (''v'', ''openai'', ''2026-01'') = 1000"
    by (simp add: sample_late_def month_total_def month_key_def log_usage_def upsert_token_usage_monthly_def
        insert_token_usage_log_def usage_empty_def sample_tables_def)
qed (rule late_usage_lost [OF _ _ _ sample_late_def],
    simp_all add: sample_tables_def sql_date_def month_rows_def sql_month_def finalized_months_def previous_month_def
      sample_calendar_def Let_def)

end
