(* ===== verification/Oauth_Engine.thy ===== *)
theory Oauth_Engine
  imports Delegators Store_Envelope
begin

text \<open>
  \<open>crates/nilbox-core/src/proxy/oauth_script_engine.rs\<close>: loading the OAuth scripts and the
  wrappers around their functions.  The Rhai interpreter is the parameter \<open>rhai\<close>: it compiles a
  text to a \<open>script\<close>, whose functions return a dynamic value or fail.  \<open>cast::<Map>()\<close> panics on
  a value that is no map.  A loaded script with the functions' results read off is the
  \<open>OAuthProvider\<close> of the delegators.
\<close>

datatype dyn = DStr string | DArr "dyn list" | DMap "(string \<times> dyn) list" | DOther

record script =
  sc_provider_info :: "dyn option"
  sc_token_response_fields :: "dyn option"
  sc_placeholder_extraction :: "dyn option"
  sc_make_dummy_secret :: "string \<Rightarrow> dyn option"
  sc_rewrite_auth_url :: "string \<Rightarrow> (string \<rightharpoonup> string) \<Rightarrow> dyn option"
  sc_is_token_exchange :: "(string \<rightharpoonup> string) \<Rightarrow> bool option"
  sc_build_instructions :: "(string \<rightharpoonup> string) \<Rightarrow> dyn option"

type_synonym rhai = "string \<Rightarrow> script option"

datatype engine_error =
    CompileError string | CallFailed string | MissingEntry string | NotArray string | NonString string
  | NoEntry key_error | BadEntry | NotBase64 string | BadSignatureFormat | Unverified | NotUtf8

record ProviderInfo =
  pi_name :: string
  pi_token_path :: string
  pi_placeholder_prefix :: string
  pi_auth_domains :: "string list"
  pi_token_path_pattern :: string
  pi_flow_type :: string
  pi_token_endpoint_domains :: "string list"
  pi_cross_domains :: "string list"

record loaded =
  ld_info :: ProviderInfo
  ld_ast :: script


section \<open>Dynamic values\<close>

fun into_string :: "dyn \<Rightarrow> string option" where
  "into_string (DStr s) = Some s"
| "into_string _ = None"

fun into_array :: "dyn \<Rightarrow> dyn list option" where
  "into_array (DArr vs) = Some vs"
| "into_array _ = None"

fun cast_map :: "dyn \<Rightarrow> ('e, (string \<times> dyn) list) outcome" where
  "cast_map (DMap m) = Ok m"
| "cast_map _ = Panic"

definition string_entry :: "(string \<times> dyn) list \<Rightarrow> string \<Rightarrow> string option" where
  "string_entry m k = Option.bind (map_of m k) into_string"

definition required_string :: "(string \<times> dyn) list \<Rightarrow> string \<Rightarrow> (engine_error, string) outcome" where
  "required_string m k = (case string_entry m k of Some s \<Rightarrow> Ok s | None \<Rightarrow> Err (MissingEntry k))"

definition string_or :: "string \<Rightarrow> (string \<times> dyn) list \<Rightarrow> string \<Rightarrow> string" where
  "string_or dflt m k = (case string_entry m k of Some s \<Rightarrow> s | None \<Rightarrow> dflt)"

definition optional_strings :: "(string \<times> dyn) list \<Rightarrow> string \<Rightarrow> string list" where
  "optional_strings m k =
    (case Option.bind (map_of m k) into_array of Some vs \<Rightarrow> List.map_filter into_string vs | None \<Rightarrow> [])"

fun all_strings :: "string \<Rightarrow> dyn list \<Rightarrow> (engine_error, string list) outcome" where
  "all_strings k [] = Ok []"
| "all_strings k (v # vs) =
    (case into_string v of
       None \<Rightarrow> Err (NonString k)
     | Some s \<Rightarrow> and_then (all_strings k vs) (\<lambda>ss. Ok (s # ss)))"

definition extract_string_array :: "(string \<times> dyn) list \<Rightarrow> string \<Rightarrow> (engine_error, string list) outcome" where
  "extract_string_array m k =
    (case map_of m k of
       None \<Rightarrow> Err (MissingEntry k)
     | Some v \<Rightarrow> (case into_array v of None \<Rightarrow> Err (NotArray k) | Some vs \<Rightarrow> all_strings k vs))"

fun string_entries :: "string \<Rightarrow> (string \<times> dyn) list \<Rightarrow> (engine_error, (string \<times> string) list) outcome" where
  "string_entries what [] = Ok []"
| "string_entries what ((k, v) # m) =
    (case into_string v of
       None \<Rightarrow> Err (NonString what)
     | Some s \<Rightarrow> and_then (string_entries what m) (\<lambda>out. Ok ((k, s) # out)))"


section \<open>Loading\<close>

definition provider_info :: "(string \<times> dyn) list \<Rightarrow> (engine_error, ProviderInfo) outcome" where
  "provider_info m =
    and_then (required_string m ''name'') (\<lambda>name.
    and_then (required_string m ''token_path'') (\<lambda>path.
    and_then (required_string m ''placeholder_prefix'') (\<lambda>prefix.
    and_then (extract_string_array m ''auth_domains'') (\<lambda>domains.
    and_then (required_string m ''token_path_pattern'') (\<lambda>pattern.
    Ok \<lparr>pi_name = name, pi_token_path = path, pi_placeholder_prefix = prefix, pi_auth_domains = domains,
        pi_token_path_pattern = pattern, pi_flow_type = string_or ''placeholder'' m ''flow_type'',
        pi_token_endpoint_domains = optional_strings m ''token_endpoint_domains'',
        pi_cross_domains = optional_strings m ''cross_domains''\<rparr>)))))"

definition load_one_from_code :: "rhai \<Rightarrow> string \<Rightarrow> string \<Rightarrow> (engine_error, loaded) outcome" where
  "load_one_from_code R name code =
    (case R code of
       None \<Rightarrow> Err (CompileError name)
     | Some s \<Rightarrow>
         (case sc_provider_info s of
            None \<Rightarrow> Err (CallFailed name)
          | Some v \<Rightarrow> and_then (cast_map v) (\<lambda>m. and_then (provider_info m) (\<lambda>i. Ok \<lparr>ld_info = i, ld_ast = s\<rparr>))))"

definition validate_script :: "rhai \<Rightarrow> string \<Rightarrow> (engine_error, ProviderInfo) outcome" where
  "validate_script R code = and_then (load_one_from_code R ''_validate'' code) (\<lambda>p. Ok (ld_info p))"

definition script_key_ids :: "string list" where
  "script_key_ids = [''nilbox-store-dev'', ''nilbox-store-2026'']"

text \<open>A signature of the text by one of the store's keys.\<close>

definition script_verified :: "store_lib \<Rightarrow> bytes \<Rightarrow> bytes \<Rightarrow> bool" where
  "script_verified L code sig =
    list_ex (\<lambda>k. case get_store_public_key L k of Ok vk \<Rightarrow> ed_verify L vk code sig | _ \<Rightarrow> False) script_key_ids"

definition signed_code :: "store_lib \<Rightarrow> string \<Rightarrow> string \<Rightarrow> (engine_error, bytes) outcome" where
  "signed_code L code_b64 sig_b64 =
    (case store_lib.b64_decode L code_b64 of
       None \<Rightarrow> Err (NotBase64 ''code'')
     | Some code \<Rightarrow>
         (case store_lib.b64_decode L sig_b64 of
            None \<Rightarrow> Err (NotBase64 ''signature'')
          | Some sig \<Rightarrow>
              if length sig \<noteq> 64 then Err BadSignatureFormat
              else if script_verified L code sig then Ok code else Err Unverified))"

definition entry_field :: "json \<Rightarrow> string \<Rightarrow> (engine_error, string) outcome" where
  "entry_field v k = (case Option.bind (jget v k) as_str of Some s \<Rightarrow> Ok s | None \<Rightarrow> Err (MissingEntry k))"

definition script_account :: "string \<Rightarrow> string" where
  "script_account provider_id = ''OAUTH_SCRIPT:'' @ provider_id"

definition load_entry :: "store_lib \<Rightarrow> rhai \<Rightarrow> keys \<Rightarrow> string \<Rightarrow> (engine_error, loaded) outcome" where
  "load_entry L R ks provider_id =
    (case ks_get ks (script_account provider_id) of
       Ok value \<Rightarrow>
         (case from_json L (str_bytes value) of
            None \<Rightarrow> Err BadEntry
          | Some entry \<Rightarrow>
              and_then (entry_field entry ''code'') (\<lambda>code_b64.
              and_then (entry_field entry ''signature'') (\<lambda>sig_b64.
              and_then (signed_code L code_b64 sig_b64) (\<lambda>code.
              and_then (from_utf8 NotUtf8 code) (\<lambda>text.
              load_one_from_code R provider_id text)))))
     | Err e \<Rightarrow> Err (NoEntry e)
     | Panic \<Rightarrow> Panic)"

text \<open>The hash map of the engine is a list of its entries, one per id; \<open>insert\<close>.\<close>

type_synonym engine = "(string \<times> loaded) list"

definition engine_put :: "string \<Rightarrow> loaded \<Rightarrow> engine \<Rightarrow> engine" where
  "engine_put k p ps = filter (\<lambda>e. fst e \<noteq> k) ps @ [(k, p)]"

fun load_entries :: "store_lib \<Rightarrow> rhai \<Rightarrow> keys \<Rightarrow> string list \<Rightarrow> engine \<Rightarrow> (engine_error, engine) outcome" where
  "load_entries L R ks [] ps = Ok ps"
| "load_entries L R ks (i # is) ps =
    (case load_entry L R ks i of
       Ok p \<Rightarrow> load_entries L R ks is (engine_put i p ps)
     | Err _ \<Rightarrow> load_entries L R ks is ps
     | Panic \<Rightarrow> Panic)"

definition script_ids :: "keys \<Rightarrow> string list" where
  "script_ids ks = List.map_filter (\<lambda>a. strip_prefix a ''OAUTH_SCRIPT:'') (ks_list ks)"

definition load_from_keystore :: "store_lib \<Rightarrow> rhai \<Rightarrow> keys \<Rightarrow> (engine_error, engine) outcome" where
  "load_from_keystore L R ks = load_entries L R ks (script_ids ks) []"

text \<open>The custom scripts (id and text) are compiled and then dropped.\<close>

fun compile_custom :: "rhai \<Rightarrow> (string \<times> string) list \<Rightarrow> (engine_error, unit) outcome" where
  "compile_custom R [] = Ok ()"
| "compile_custom R ((i, code) # cs) =
    (case load_one_from_code R i code of Panic \<Rightarrow> Panic | _ \<Rightarrow> compile_custom R cs)"

definition load_all ::
  "store_lib \<Rightarrow> rhai \<Rightarrow> keys \<Rightarrow> (string \<times> string) list \<Rightarrow> (engine_error, engine) outcome" where
  "load_all L R ks custom =
    and_then (load_from_keystore L R ks) (\<lambda>ps. and_then (compile_custom R custom) (\<lambda>_. Ok ps))"


section \<open>Calls\<close>

definition call_token_response_fields :: "loaded \<Rightarrow> (engine_error, TokenResponseFields) outcome" where
  "call_token_response_fields p =
    (case sc_token_response_fields (ld_ast p) of
       None \<Rightarrow> Ok \<lparr>response_format = ''json'', access_token_field = ''access_token'',
                  refresh_token_field = ''refresh_token'', expires_in_field = ''expires_in'',
                  token_type_field = ''token_type''\<rparr>
     | Some v \<Rightarrow>
         and_then (cast_map v) (\<lambda>m.
         Ok \<lparr>response_format = string_or ''json'' m ''response_format'',
             access_token_field = string_or ''access_token'' m ''access_token_field'',
             refresh_token_field = string_or ''refresh_token'' m ''refresh_token_field'',
             expires_in_field = string_or ''expires_in'' m ''expires_in_field'',
             token_type_field = string_or ''token_type'' m ''token_type_field''\<rparr>))"

definition call_placeholder_extraction_instructions ::
  "loaded \<Rightarrow> (engine_error, (string \<times> string) list) outcome" where
  "call_placeholder_extraction_instructions p =
    (case sc_placeholder_extraction (ld_ast p) of
       None \<Rightarrow> Err (CallFailed ''placeholder_extraction_instructions'')
     | Some v \<Rightarrow> and_then (cast_map v) (string_entries ''placeholder_extraction_instructions''))"

definition string_result :: "string \<Rightarrow> dyn option \<Rightarrow> (engine_error, string) outcome" where
  "string_result f r =
    (case r of
       None \<Rightarrow> Err (CallFailed f)
     | Some v \<Rightarrow> (case into_string v of Some s \<Rightarrow> Ok s | None \<Rightarrow> Err (NonString f)))"

definition call_make_dummy_secret :: "loaded \<Rightarrow> (engine_error, string) outcome" where
  "call_make_dummy_secret p =
    string_result ''make_dummy_secret'' (sc_make_dummy_secret (ld_ast p) (pi_placeholder_prefix (ld_info p)))"

definition call_rewrite_auth_url :: "loaded \<Rightarrow> string \<Rightarrow> (string \<rightharpoonup> string) \<Rightarrow> (engine_error, string) outcome" where
  "call_rewrite_auth_url p url placeholders =
    string_result ''rewrite_auth_url'' (sc_rewrite_auth_url (ld_ast p) url placeholders)"

definition call_is_token_exchange_request :: "loaded \<Rightarrow> (string \<rightharpoonup> string) \<Rightarrow> bool" where
  "call_is_token_exchange_request p params =
    (case sc_is_token_exchange (ld_ast p) params of Some b \<Rightarrow> b | None \<Rightarrow> True)"

definition call_build_token_request_instructions ::
  "loaded \<Rightarrow> (string \<rightharpoonup> string) \<Rightarrow> (engine_error, TokenRequestInstructions) outcome" where
  "call_build_token_request_instructions p params =
    (case sc_build_instructions (ld_ast p) params of
       None \<Rightarrow> Err (CallFailed ''build_token_request_instructions'')
     | Some v \<Rightarrow>
         and_then (cast_map v) (\<lambda>m.
         case map_of m ''field_substitutions'' of
           None \<Rightarrow> Err (MissingEntry ''field_substitutions'')
         | Some fs \<Rightarrow>
             and_then (cast_map fs) (\<lambda>fm.
             and_then (string_entries ''field_substitutions'' fm) (\<lambda>subs.
             and_then (required_string m ''target_url'') (\<lambda>url.
             and_then (extract_string_array m ''allowed_redirect_hosts'') (\<lambda>hosts.
             Ok \<lparr>field_substitutions = map_of subs, target_url = url, allowed_redirect_hosts = hosts\<rparr>))))))"

text \<open>The provider the delegators work with, where no call of the script panics.\<close>

definition provider_of :: "string \<Rightarrow> loaded \<Rightarrow> TokenResponseFields \<Rightarrow> OAuthProvider" where
  "provider_of i p names =
    \<lparr>prov_id = i, prov_name = pi_name (ld_info p), token_path = pi_token_path (ld_info p),
     placeholder_prefix = pi_placeholder_prefix (ld_info p), auth_domains = pi_auth_domains (ld_info p),
     token_path_pattern = pi_token_path_pattern (ld_info p), flow_type = pi_flow_type (ld_info p),
     token_endpoint_domains = pi_token_endpoint_domains (ld_info p), cross_domains = pi_cross_domains (ld_info p),
     token_response_fields = names,
     placeholder_extraction =
       (case call_placeholder_extraction_instructions p of Ok m \<Rightarrow> Some m | _ \<Rightarrow> None),
     token_request_instructions =
       (\<lambda>params. case call_build_token_request_instructions p params of Ok r \<Rightarrow> Some r | _ \<Rightarrow> None),
     is_token_exchange_request = call_is_token_exchange_request p\<rparr>"


section \<open>Lemmas\<close>

lemma into_string_iff: "into_string v = Some s \<longleftrightarrow> v = DStr s"
  by (cases v) auto

lemma required_string_Ok: "required_string m k = Ok s \<longleftrightarrow> map_of m k = Some (DStr s)"
  by (auto simp: required_string_def string_entry_def bind_eq_Some_conv into_string_iff split: option.splits)

lemma required_string_not_Panic [simp]: "required_string m k \<noteq> Panic"
  by (simp add: required_string_def split: option.split)

lemma all_strings_not_Panic [simp]: "all_strings k vs \<noteq> Panic"
  by (induction vs) (auto split: option.split elim: and_then.elims)

lemma and_then_not_Panic: "m \<noteq> Panic \<Longrightarrow> (\<And>a. m = Ok a \<Longrightarrow> k a \<noteq> Panic) \<Longrightarrow> and_then m k \<noteq> Panic"
  by (cases m) auto

lemma extract_not_Panic [simp]: "extract_string_array m k \<noteq> Panic"
  by (simp add: extract_string_array_def split: option.split)

lemma provider_info_not_Panic [simp]: "provider_info m \<noteq> Panic"
  unfolding provider_info_def by (intro and_then_not_Panic) auto

lemma load_one_Panic:
  "load_one_from_code R name code = Panic
    \<longleftrightarrow> (\<exists>s v. R code = Some s \<and> sc_provider_info s = Some v \<and> (\<forall>m. v \<noteq> DMap m))"
proof -
  have "and_then (cast_map v) (\<lambda>m. and_then (provider_info m) (\<lambda>i. Ok \<lparr>ld_info = i, ld_ast = s\<rparr>)) = Panic
      \<longleftrightarrow> (\<forall>m. v \<noteq> DMap m)" for v s
    by (cases v) (auto simp: and_then_not_Panic)
  then show ?thesis
    by (auto simp: load_one_from_code_def split: option.split)
qed

lemma load_entries_source:
  assumes "load_entries L R ks is acc = Ok ps" "(i, p) \<in> set ps"
  shows "(i, p) \<in> set acc \<or> (i \<in> set is \<and> load_entry L R ks i = Ok p)"
  using assms
  by (induction L R ks "is" acc rule: load_entries.induct) (auto simp: engine_put_def split: outcome.splits)

lemma load_entries_keep: "load_entries L R ks is acc = Ok ps \<Longrightarrow> i \<notin> set is \<Longrightarrow> (i, p) \<in> set acc \<Longrightarrow> (i, p) \<in> set ps"
  by (induction L R ks "is" acc rule: load_entries.induct) (auto simp: engine_put_def split: outcome.splits)

lemma load_entries_complete:
  assumes "load_entries L R ks is acc = Ok ps" "i \<in> set is" "load_entry L R ks i = Ok p"
  shows "(i, p) \<in> set ps"
  using assms
proof (induction L R ks "is" acc rule: load_entries.induct)
  case (2 L R ks j js acc)
  show ?case
  proof (cases "i \<in> set js")
    case True
    then show ?thesis
      using 2 by (auto split: outcome.splits)
  next
    case False
    then have "i = j"
      using 2 by simp
    then have "load_entries L R ks js (engine_put i p acc) = Ok ps"
      using 2(3,5) by simp
    then show ?thesis
      using False by (rule load_entries_keep) (simp add: engine_put_def)
  qed
qed simp

lemma script_ids_iff: "i \<in> set (script_ids ks) \<longleftrightarrow> ks_has ks (script_account i)"
proof -
  have "i \<in> set (script_ids ks) \<longleftrightarrow> (\<exists>a\<in>set (map fst ks). strip_prefix a ''OAUTH_SCRIPT:'' = Some i)"
    by (force simp: script_ids_def ks_list_def List.map_filter_def)
  also have "\<dots> \<longleftrightarrow> script_account i \<in> set (map fst ks)"
    by (auto simp only: strip_prefix_eq_Some script_account_def)
  finally show ?thesis
    by (simp add: ks_has_iff)
qed

lemma loaded_iff:
  assumes "load_from_keystore L R ks = Ok ps"
  shows "(i, p) \<in> set ps \<longleftrightarrow> ks_has ks (script_account i) \<and> load_entry L R ks i = Ok p"
  using load_entries_source [of L R ks "script_ids ks" "[]" ps i p]
    load_entries_complete [of L R ks "script_ids ks" "[]" ps i p] assms
  by (auto simp: load_from_keystore_def script_ids_iff)

lemma load_all_cases: "load_all L R ks custom = Ok ps \<Longrightarrow> load_from_keystore L R ks = Ok ps"
  by (simp add: load_all_def)

lemma compile_custom_cases: "compile_custom R cs = Ok () \<or> compile_custom R cs = Panic"
  by (induction R cs rule: compile_custom.induct) (auto split: outcome.split)

lemma compile_custom_Panic:
  "compile_custom R cs = Panic \<longleftrightarrow> (\<exists>(i, code) \<in> set cs. load_one_from_code R i code = Panic)"
  by (induction R cs rule: compile_custom.induct) (auto split: outcome.splits)

lemma load_entry_signed:
  assumes "load_entry L R ks i = Ok p"
  obtains code sig entry where
    "Option.bind (map_of ks (script_account i)) (\<lambda>v. from_json L (str_bytes v)) = Some entry"
    "Option.bind (Option.bind (jget entry ''code'') as_str) (store_lib.b64_decode L) = Some code"
    "Option.bind (Option.bind (jget entry ''signature'') as_str) (store_lib.b64_decode L) = Some sig"
    "script_verified L code sig" "load_one_from_code R i (bytes_str code) = Ok p"
proof -
  obtain v entry where v: "map_of ks (script_account i) = Some v" "from_json L (str_bytes v) = Some entry"
    and rest: "and_then (entry_field entry ''code'') (\<lambda>code_b64.
              and_then (entry_field entry ''signature'') (\<lambda>sig_b64.
              and_then (signed_code L code_b64 sig_b64) (\<lambda>code.
              and_then (from_utf8 NotUtf8 code) (\<lambda>text.
              load_one_from_code R i text)))) = Ok p"
    using assms by (auto simp: load_entry_def ks_get_def split: option.splits)
  obtain cb sb code where c: "entry_field entry ''code'' = Ok cb" "entry_field entry ''signature'' = Ok sb"
    "signed_code L cb sb = Ok code" "and_then (from_utf8 NotUtf8 code) (load_one_from_code R i) = Ok p"
    using rest by auto
  have "Option.bind (jget entry ''code'') as_str = Some cb" "Option.bind (jget entry ''signature'') as_str = Some sb"
    using c(1,2) by (auto simp: entry_field_def split: option.splits)
  moreover obtain sig where "store_lib.b64_decode L cb = Some code" "store_lib.b64_decode L sb = Some sig"
    "script_verified L code sig"
    using c(3) by (auto simp: signed_code_def split: option.splits if_splits)
  moreover have "load_one_from_code R i (bytes_str code) = Ok p"
    using c(4) by (auto simp: from_utf8_def split: if_splits)
  ultimately show thesis
    using v by (intro that [of entry code sig]) auto
qed

lemma script_verified_iff:
  "script_verified L code sig \<longleftrightarrow>
    (ed_key_ok L NILBOX_STORE_PUB_KEYID \<and> ed_verify L NILBOX_STORE_PUB_KEYID code sig)
    \<or> (dev_store L \<and> ed_key_ok L DEV_STORE_KEY \<and> ed_verify L DEV_STORE_KEY code sig)"
  by (auto simp: script_verified_def script_key_ids_def get_store_public_key_def Let_def)

definition store_signed :: "store_lib \<Rightarrow> bytes \<Rightarrow> bytes \<Rightarrow> bool" where
  "store_signed L code sig \<longleftrightarrow>
    (\<exists>key \<in> {NILBOX_STORE_PUB_KEYID, DEV_STORE_KEY}.
       (key = DEV_STORE_KEY \<longrightarrow> dev_store L) \<and> ed_verify L key code sig)"

lemma script_verified_signed: "script_verified L code sig \<Longrightarrow> store_signed L code sig"
  by (auto simp: script_verified_iff store_signed_def NILBOX_STORE_PUB_KEYID_def DEV_STORE_KEY_def)

definition sample_info :: "(string \<times> dyn) list" where
  "sample_info = [(''name'', DStr ''google''), (''token_path'', DStr ''GOOGLE_FILE''), (''placeholder_prefix'', DStr ''p''),
     (''auth_domains'', DArr [DStr ''accounts.google.com'']), (''token_path_pattern'', DStr ''/token'')]"

definition sample_script :: "dyn \<Rightarrow> script" where
  "sample_script v = \<lparr>sc_provider_info = Some v, sc_token_response_fields = None, sc_placeholder_extraction = None,
     sc_make_dummy_secret = (\<lambda>p. Some (DStr p)), sc_rewrite_auth_url = (\<lambda>_ _. None),
     sc_is_token_exchange = (\<lambda>_. None), sc_build_instructions = (\<lambda>_. None)\<rparr>"

definition sample_rhai :: rhai where
  "sample_rhai code = Some (sample_script (if code = ''bad'' then DOther else DMap sample_info))"

definition sample_entry :: json where
  "sample_entry = JObj [(''code'', JStr ''c''), (''version'', JStr ''1''), (''signature'', JStr ''s'')]"

definition script_lib :: store_lib where
  "script_lib = sample_lib\<lparr>store_lib.b64_decode := (\<lambda>s. Some (if s = ''c'' then str_bytes ''ok'' else replicate 64 0)),
     from_json := (\<lambda>_. Some sample_entry)\<rparr>"

definition sample_loaded :: loaded where
  "sample_loaded = \<lparr>ld_info = \<lparr>pi_name = ''google'', pi_token_path = ''GOOGLE_FILE'', pi_placeholder_prefix = ''p'',
     pi_auth_domains = [''accounts.google.com''], pi_token_path_pattern = ''/token'', pi_flow_type = ''placeholder'',
     pi_token_endpoint_domains = [], pi_cross_domains = []\<rparr>, ld_ast = sample_script (DMap sample_info)\<rparr>"

lemma provider_info_sample: "provider_info sample_info = Ok (ld_info sample_loaded)"
  by (simp add: provider_info_def sample_info_def sample_loaded_def required_string_def string_entry_def
      extract_string_array_def string_or_def optional_strings_def)

lemma load_one_sample: "code \<noteq> ''bad'' \<Longrightarrow> load_one_from_code sample_rhai i code = Ok sample_loaded"
  by (simp add: load_one_from_code_def sample_rhai_def sample_script_def provider_info_sample)
    (simp add: sample_loaded_def sample_script_def)

lemma script_verified_sample: "script_verified script_lib code sig"
  by (simp add: script_verified_iff script_lib_def sample_lib_def)

lemma ok_utf8: "from_utf8 e (str_bytes ''ok'') = Ok ''ok''"
  by (rule from_utf8_str_bytes) (simp add: rust_string_def str_bytes_def)

lemma load_entry_sample: "load_entry script_lib sample_rhai [(''OAUTH_SCRIPT:g'', ''x'')] ''g'' = Ok sample_loaded"
proof -
  have "signed_code script_lib ''c'' ''s'' = Ok (str_bytes ''ok'')"
    using script_verified_sample by (simp add: signed_code_def script_lib_def)
  then show ?thesis
    by (simp add: load_entry_def ks_get_def script_account_def script_lib_def sample_entry_def entry_field_def
        ok_utf8 load_one_sample)
qed

lemma load_sample: "load_from_keystore script_lib sample_rhai [(''OAUTH_SCRIPT:g'', ''x'')] = Ok [(''g'', sample_loaded)]"
proof -
  have "script_ids [(''OAUTH_SCRIPT:g'', ''x'')] = [''g'']"
    by (simp add: script_ids_def ks_list_def List.map_filter_def strip_prefix_def)
  then show ?thesis
    by (simp add: load_from_keystore_def load_entry_sample engine_put_def)
qed


section \<open>Properties\<close>



text \<open>the scripts of custom providers are never loaded: they only decide whether loading
  panics, which one whose \<open>provider_info\<close> returns something other than a map makes it do.\<close>

theorem custom_scripts_without_effect:
  "load_all L R ks custom =
    (case load_from_keystore L R ks of
       Ok ps \<Rightarrow>
         if list_ex (\<lambda>(i, code). case R code of
              Some s \<Rightarrow> (case sc_provider_info s of Some (DMap m) \<Rightarrow> False | Some v \<Rightarrow> True | None \<Rightarrow> False)
            | None \<Rightarrow> False) custom
         then Panic else Ok ps
     | r \<Rightarrow> r)"
proof -
  have "load_one_from_code R i code = Panic \<longleftrightarrow>
      (case R code of
         Some s \<Rightarrow> (case sc_provider_info s of Some (DMap m) \<Rightarrow> False | Some v \<Rightarrow> True | None \<Rightarrow> False)
       | None \<Rightarrow> False)" for i code
    by (auto simp: load_one_Panic split: option.splits dyn.splits)
  then show ?thesis
    using compile_custom_cases [of R custom] compile_custom_Panic [of R custom]
    by (cases "load_from_keystore L R ks") (auto simp: load_all_def list_ex_iff split_beta)
qed

end
