(* ===== verification/Env_Providers.thy ===== *)
theory Env_Providers
  imports Oauth_Engine Vm_Store
begin

text \<open>
  Environment variables and OAuth providers of the VMs: their tables in
  \<open>crates/nilbox-core/src/config_store.rs\<close>, and the commands over them in
  \<open>apps/nilbox/src-tauri/src/commands/env_injection.rs\<close>.  Times of update are left out, except
  the setting that records one.  \<open>serde\<close>'s reading of the providers of a manifest is a parameter.
\<close>

record EnvProvider =
  ep_env_name :: string
  ep_provider_name :: string
  ep_sort_order :: int
  ep_domain :: string

record EnvEntryRow =
  ev_vm :: string
  ev_name :: string
  ev_enabled :: bool
  ev_builtin :: bool
  ev_provider_name :: string

record EnvVarEntry =
  ee_name :: string
  ee_value :: string
  ee_enabled :: bool
  ee_builtin :: bool
  ee_domain :: string

record CustomEnvVar =
  cv_name :: string
  cv_provider_name :: string
  cv_domain :: string
  cv_sort_order :: int

record OAuthProviderRow =
  op_id :: string
  op_name :: string
  op_sort_order :: int
  op_input_type :: string
  op_domain :: string
  op_is_custom :: bool
  op_script_code :: "string option"

record prov_db =
  env_providers :: "EnvProvider tbl"
  env_var_entries :: "EnvEntryRow tbl"
  custom_env_vars :: "CustomEnvVar tbl"
  oauth_providers :: "OAuthProviderRow list"
  oauth_provider_envs :: "(string \<times> string) tbl"
  oauth_entries :: "(string \<times> string) tbl"
  prov_settings :: "(string \<times> string) list"

definition no_version :: string where "no_version = ''19700101-01''"

definition version_setting :: "string \<Rightarrow> prov_db \<Rightarrow> string" where
  "version_setting k db = (case map_of (prov_settings db) k of Some v \<Rightarrow> v | None \<Rightarrow> no_version)"


section \<open>Environment providers\<close>

definition get_env_providers_version :: "prov_db \<Rightarrow> string" where
  "get_env_providers_version db = version_setting ''env_providers_version'' db"

definition list_env_providers :: "prov_db \<Rightarrow> EnvProvider list" where
  "list_env_providers db = sort_key ep_sort_order (map snd (rows (env_providers db)))"

fun insert_env_providers :: "EnvProvider list \<Rightarrow> EnvProvider tbl \<Rightarrow> (db_error, EnvProvider tbl) outcome" where
  "insert_env_providers [] t = Ok t"
| "insert_env_providers (p # ps) t =
    (if tbl_ex (\<lambda>(_, r). ep_env_name r = ep_env_name p) t then Err SqlError
     else insert_env_providers ps (tbl_insert p t))"

text \<open>One transaction: a failing statement undoes all of it.\<close>

definition update_env_providers ::
  "string \<Rightarrow> EnvProvider list \<Rightarrow> string \<Rightarrow> prov_db \<Rightarrow> prov_db \<times> (db_error, unit) outcome" where
  "update_env_providers now ps manifest_version db =
    (case insert_env_providers ps (tbl_delete (\<lambda>_. True) (env_providers db)) of
       Ok t \<Rightarrow>
         (db\<lparr>env_providers := t,
             prov_settings := put_setting ''env_providers_updated_at'' now
               (put_setting ''env_providers_version'' manifest_version (prov_settings db))\<rparr>, Ok ())
     | Err e \<Rightarrow> (db, Err e)
     | Panic \<Rightarrow> (db, Panic))"

definition delete_env_provider :: "string \<Rightarrow> prov_db \<Rightarrow> prov_db" where
  "delete_env_provider name db =
    db\<lparr>env_providers := tbl_delete (\<lambda>(_, r). ep_env_name r = name) (env_providers db)\<rparr>"


section \<open>Entries of a VM\<close>

definition list_env_entry_overrides :: "string \<Rightarrow> prov_db \<Rightarrow> EnvVarEntry list" where
  "list_env_entry_overrides vm db =
    map (\<lambda>(_, r). \<lparr>ee_name = ev_name r, ee_value = ev_provider_name r, ee_enabled = ev_enabled r,
           ee_builtin = ev_builtin r, ee_domain = []\<rparr>)
      (filter (\<lambda>(_, r). ev_vm r = vm) (rows (env_var_entries db)))"

definition is_entry :: "string \<Rightarrow> string \<Rightarrow> nat \<times> EnvEntryRow \<Rightarrow> bool" where
  "is_entry vm name e \<longleftrightarrow> ev_vm (snd e) = vm \<and> ev_name (snd e) = name"

text \<open>\<open>INSERT .. ON CONFLICT(vm_id, name) DO UPDATE\<close>, which changes a row by \<open>f\<close>.\<close>

definition upsert_entry_row :: "EnvEntryRow \<Rightarrow> (EnvEntryRow \<Rightarrow> EnvEntryRow) \<Rightarrow> EnvEntryRow tbl \<Rightarrow> EnvEntryRow tbl" where
  "upsert_entry_row new f t =
    (if tbl_ex (is_entry (ev_vm new) (ev_name new)) t
     then t\<lparr>rows := map (\<lambda>e. if is_entry (ev_vm new) (ev_name new) e then (fst e, f (snd e)) else e) (rows t)\<rparr>
     else tbl_insert new t)"

definition upsert_env_entry :: "string \<Rightarrow> string \<Rightarrow> bool \<Rightarrow> bool \<Rightarrow> prov_db \<Rightarrow> prov_db" where
  "upsert_env_entry vm name enabled builtin db =
    db\<lparr>env_var_entries := upsert_entry_row
      \<lparr>ev_vm = vm, ev_name = name, ev_enabled = enabled, ev_builtin = builtin, ev_provider_name = []\<rparr>
      (\<lambda>r. r\<lparr>ev_enabled := enabled\<rparr>) (env_var_entries db)\<rparr>"

definition upsert_custom_env_entry :: "string \<Rightarrow> string \<Rightarrow> string \<Rightarrow> prov_db \<Rightarrow> prov_db" where
  "upsert_custom_env_entry vm name provider db =
    db\<lparr>env_var_entries := upsert_entry_row
      \<lparr>ev_vm = vm, ev_name = name, ev_enabled = True, ev_builtin = False, ev_provider_name = provider\<rparr>
      (\<lambda>r. r\<lparr>ev_provider_name := provider, ev_enabled := True\<rparr>) (env_var_entries db)\<rparr>"

definition delete_env_entry :: "string \<Rightarrow> string \<Rightarrow> prov_db \<Rightarrow> prov_db" where
  "delete_env_entry vm name db = db\<lparr>env_var_entries := tbl_delete (is_entry vm name) (env_var_entries db)\<rparr>"

definition list_custom_env_vars :: "prov_db \<Rightarrow> CustomEnvVar list" where
  "list_custom_env_vars db = map snd (sort_key (\<lambda>(i, r). cv_sort_order r) (rows (custom_env_vars db)))"

definition upsert_custom_env_var :: "string \<Rightarrow> string \<Rightarrow> string \<Rightarrow> prov_db \<Rightarrow> prov_db" where
  "upsert_custom_env_var name provider domain db =
    (let t = custom_env_vars db
     in db\<lparr>custom_env_vars :=
          (if tbl_ex (\<lambda>(_, r). cv_name r = name) t
           then t\<lparr>rows := map (\<lambda>(i, r). (i, if cv_name r = name
                    then r\<lparr>cv_provider_name := provider, cv_domain := domain\<rparr> else r)) (rows t)\<rparr>
           else tbl_insert \<lparr>cv_name = name, cv_provider_name = provider, cv_domain = domain, cv_sort_order = 0\<rparr> t)\<rparr>)"

definition delete_custom_env_var :: "string \<Rightarrow> prov_db \<Rightarrow> prov_db" where
  "delete_custom_env_var name db =
    db\<lparr>custom_env_vars := tbl_delete (\<lambda>(_, r). cv_name r = name) (custom_env_vars db),
       env_var_entries := tbl_delete (\<lambda>(_, r). ev_name r = name \<and> \<not> ev_builtin r) (env_var_entries db)\<rparr>"


section \<open>OAuth providers\<close>

definition get_oauth_providers_version :: "prov_db \<Rightarrow> string" where
  "get_oauth_providers_version db = version_setting ''oauth_providers_version'' db"

definition list_oauth_providers :: "prov_db \<Rightarrow> OAuthProviderRow list" where
  "list_oauth_providers db = sort_key op_sort_order (oauth_providers db)"

definition list_oauth_provider_envs :: "string \<Rightarrow> prov_db \<Rightarrow> string list" where
  "list_oauth_provider_envs pid db =
    map (\<lambda>(_, _, n). n) (filter (\<lambda>(_, p, _). p = pid) (rows (oauth_provider_envs db)))"

fun insert_provider_envs ::
  "string \<Rightarrow> string list \<Rightarrow> (string \<times> string) tbl \<Rightarrow> (db_error, (string \<times> string) tbl) outcome" where
  "insert_provider_envs pid [] t = Ok t"
| "insert_provider_envs pid (n # ns) t =
    (if tbl_ex (\<lambda>e. snd e = (pid, n)) t then Err SqlError else insert_provider_envs pid ns (tbl_insert (pid, n) t))"

definition server_row :: "OAuthProviderRow \<Rightarrow> OAuthProviderRow" where
  "server_row p = p\<lparr>op_is_custom := False, op_script_code := None\<rparr>"

fun insert_oauth_providers ::
  "OAuthProviderRow list \<Rightarrow> (string \<rightharpoonup> string list) \<Rightarrow> OAuthProviderRow list \<Rightarrow> (string \<times> string) tbl
   \<Rightarrow> (db_error, OAuthProviderRow list \<times> (string \<times> string) tbl) outcome" where
  "insert_oauth_providers [] envs rs t = Ok (rs, t)"
| "insert_oauth_providers (p # ps) envs rs t =
    (if op_id p \<in> op_id ` set rs then Err SqlError
     else and_then (insert_provider_envs (op_id p) (case envs (op_id p) of Some ns \<Rightarrow> ns | None \<Rightarrow> []) t) (\<lambda>t'.
       insert_oauth_providers ps envs (rs @ [server_row p]) t'))"

definition update_oauth_providers ::
  "OAuthProviderRow list \<Rightarrow> (string \<rightharpoonup> string list) \<Rightarrow> string \<Rightarrow> prov_db \<Rightarrow> prov_db \<times> (db_error, unit) outcome" where
  "update_oauth_providers ps envs manifest_version db =
    (let server = op_id ` {r \<in> set (oauth_providers db). \<not> op_is_custom r}
     in case insert_oauth_providers ps envs (filter op_is_custom (oauth_providers db))
               (tbl_delete (\<lambda>(_, p, _). p \<in> server) (oauth_provider_envs db)) of
          Ok (rs, t) \<Rightarrow>
            (db\<lparr>oauth_providers := rs, oauth_provider_envs := t,
                prov_settings := put_setting ''oauth_providers_version'' manifest_version (prov_settings db)\<rparr>, Ok ())
        | Err e \<Rightarrow> (db, Err e)
        | Panic \<Rightarrow> (db, Panic))"

datatype custom_error = BadPrefix | BadSortOrder | ServerProvider string | CustomNotFound string | CustomDb db_error

definition save_custom_oauth_provider ::
  "string \<Rightarrow> string \<Rightarrow> string \<Rightarrow> int \<Rightarrow> string \<Rightarrow> string \<Rightarrow> string list \<Rightarrow> prov_db
   \<Rightarrow> prov_db \<times> (custom_error, unit) outcome" where
  "save_custom_oauth_provider pid name domain order input_type code env_names db =
    (if \<not> starts_with pid ''custom-'' then (db, Err BadPrefix)
     else if order < 1000 then (db, Err BadSortOrder)
     else if list_ex (\<lambda>r. op_id r = pid \<and> \<not> op_is_custom r) (oauth_providers db) then (db, Err (ServerProvider pid))
     else
       let upd = (\<lambda>r. r\<lparr>op_name := name, op_sort_order := order, op_input_type := input_type,
                      op_domain := domain, op_script_code := Some code\<rparr>);
           rs = (if pid \<in> op_id ` set (oauth_providers db)
                 then map (\<lambda>r. if op_id r = pid then upd r else r) (oauth_providers db)
                 else oauth_providers db @ [\<lparr>op_id = pid, op_name = name, op_sort_order = order,
                   op_input_type = input_type, op_domain = domain, op_is_custom = True, op_script_code = Some code\<rparr>])
       in case insert_provider_envs pid env_names (tbl_delete (\<lambda>(_, p, _). p = pid) (oauth_provider_envs db)) of
            Ok t \<Rightarrow> (db\<lparr>oauth_providers := rs, oauth_provider_envs := t\<rparr>, Ok ())
          | Err e \<Rightarrow> (db, Err (CustomDb e))
          | Panic \<Rightarrow> (db, Panic))"

definition delete_custom_oauth_provider :: "string \<Rightarrow> prov_db \<Rightarrow> prov_db \<times> (custom_error, unit) outcome" where
  "delete_custom_oauth_provider pid db =
    (if \<not> list_ex (\<lambda>r. op_id r = pid \<and> op_is_custom r) (oauth_providers db) then (db, Err (CustomNotFound pid))
     else (db\<lparr>oauth_providers := filter (\<lambda>r. \<not> (op_id r = pid \<and> op_is_custom r)) (oauth_providers db),
              oauth_provider_envs := tbl_delete (\<lambda>(_, p, _). p = pid) (oauth_provider_envs db),
              oauth_entries := tbl_delete (\<lambda>(_, _, p). p = pid) (oauth_entries db)\<rparr>, Ok ()))"


section \<open>Commands\<close>

datatype fetched = NoResponse | Response nat "json option"

record ScriptItem = sk_version :: string  sk_signature :: string  sk_code :: string

record ProviderItem =
  it_id :: string
  it_name :: string
  it_domain :: string
  it_sort_order :: int
  it_input_type :: string
  it_envs :: "string list"
  it_script :: "ScriptItem option"

record cmd_env =
  c_lib :: store_lib
  c_rhai :: rhai
  c_env_items :: "json \<Rightarrow> EnvProvider list option"
  c_oauth_items :: "json \<Rightarrow> ProviderItem list option"
  c_now :: string

record cmd_state =
  cs_db :: prov_db
  cs_keys :: keys
  cs_engine :: engine

datatype cmd_error =
    NotFetched | StoreStatus nat | NotJsonBody | EnvelopeRefused envelope_error | WrongType string | BadProviders
  | DbFailed db_error | EmptyName | EmptyDomain | CustomFailed custom_error

type_synonym 'a cmd = "cmd_state \<times> (cmd_error, 'a) outcome"

fun err_map :: "('e \<Rightarrow> 'f) \<Rightarrow> ('e, 'a) outcome \<Rightarrow> ('f, 'a) outcome" where
  "err_map f (Ok a) = Ok a"
| "err_map f (Err e) = Err (f e)"
| "err_map f Panic = Panic"

text \<open>A signed manifest of the store and its version; \<open>what\<close> is the type it must declare.\<close>

definition store_manifest :: "store_lib \<Rightarrow> string \<Rightarrow> fetched \<Rightarrow> (cmd_error, json \<times> string) outcome" where
  "store_manifest L what f =
    (case f of
       NoResponse \<Rightarrow> Err NotFetched
     | Response status body \<Rightarrow>
         if \<not> (200 \<le> status \<and> status < 300) then Err (StoreStatus status)
         else (case body of
                 None \<Rightarrow> Err NotJsonBody
               | Some raw \<Rightarrow>
                   and_then (err_map EnvelopeRefused (checked_manifest L raw)) (\<lambda>m.
                   let typ = (case Option.bind (jget m ''type'') as_str of Some t \<Rightarrow> t | None \<Rightarrow> ''(missing)'')
                   in if typ \<noteq> what then Err (WrongType typ)
                      else Ok (m, case Option.bind (jget m ''version'') as_str of Some v \<Rightarrow> v | None \<Rightarrow> no_version))))"

definition providers_value :: "json \<Rightarrow> json" where
  "providers_value m = (case jget m ''providers'' of Some v \<Rightarrow> v | None \<Rightarrow> JArr [])"

definition update_env_providers_from_store :: "cmd_env \<Rightarrow> fetched \<Rightarrow> cmd_state \<Rightarrow> (string \<times> EnvProvider list) cmd" where
  "update_env_providers_from_store e f st =
    (case store_manifest (c_lib e) ''env_providers'' f of
       Ok (m, v) \<Rightarrow>
         (case c_env_items e (providers_value m) of
            None \<Rightarrow> (st, Err BadProviders)
          | Some ps \<Rightarrow>
              (let (db', r) = update_env_providers (c_now e) ps v (cs_db st)
               in (st\<lparr>cs_db := db'\<rparr>,
                   and_then (err_map DbFailed r) (\<lambda>_. Ok (get_env_providers_version db', list_env_providers db')))))
     | Err x \<Rightarrow> (st, Err x)
     | Panic \<Rightarrow> (st, Panic))"

definition list_env_entries :: "string \<Rightarrow> prov_db \<Rightarrow> EnvVarEntry list" where
  "list_env_entries vm db =
    (let override = map_of (rev (map (\<lambda>r. (ee_name r, ee_enabled r)) (list_env_entry_overrides vm db)));
         enabled = (\<lambda>n. case override n of Some b \<Rightarrow> b | None \<Rightarrow> False)
     in map (\<lambda>p. \<lparr>ee_name = ep_env_name p, ee_value = ep_env_name p, ee_enabled = enabled (ep_env_name p),
              ee_builtin = True, ee_domain = ep_domain p\<rparr>) (list_env_providers db)
        @ map (\<lambda>c. \<lparr>ee_name = cv_name c, ee_value = cv_provider_name c, ee_enabled = enabled (cv_name c),
              ee_builtin = False, ee_domain = cv_domain c\<rparr>) (list_custom_env_vars db))"

definition entry_is_builtin :: "string \<Rightarrow> prov_db \<Rightarrow> bool" where
  "entry_is_builtin name db \<longleftrightarrow>
    list_ex (\<lambda>p. ep_env_name p = name) (list_env_providers db)
    \<and> \<not> list_ex (\<lambda>c. cv_name c = name) (list_custom_env_vars db)"

definition add_custom_env_entry :: "string \<Rightarrow> string \<Rightarrow> string \<Rightarrow> cmd_state \<Rightarrow> unit cmd" where
  "add_custom_env_entry name provider domain st =
    (if trim name = [] then (st, Err EmptyName)
     else if trim domain = [] then (st, Err EmptyDomain)
     else (st\<lparr>cs_db := upsert_custom_env_var (trim name) (trim provider) (trim domain) (cs_db st)\<rparr>, Ok ()))"

definition remove_custom_env_entry :: "string \<Rightarrow> cmd_state \<Rightarrow> unit cmd" where
  "remove_custom_env_entry name st = (st\<lparr>cs_db := delete_custom_env_var name (cs_db st)\<rparr>, Ok ())"

text \<open>The custom providers with a script, as \<open>load_all\<close> reads them.\<close>

definition custom_scripts :: "prov_db \<Rightarrow> (string \<times> string) list" where
  "custom_scripts db =
    List.map_filter (\<lambda>p. if op_is_custom p then map_option (Pair (op_id p)) (op_script_code p) else None)
      (list_oauth_providers db)"

definition engine_from :: "cmd_env \<Rightarrow> keys \<Rightarrow> prov_db \<Rightarrow> (engine_error, engine) outcome" where
  "engine_from e ks db = load_all (c_lib e) (c_rhai e) ks (custom_scripts db)"

text \<open>Loading again; an error leaves an empty engine.\<close>

definition reload_engine :: "cmd_env \<Rightarrow> cmd_state \<Rightarrow> unit cmd" where
  "reload_engine e st =
    (case engine_from e (cs_keys st) (cs_db st) of
       Ok ps \<Rightarrow> (st\<lparr>cs_engine := ps\<rparr>, Ok ())
     | Err _ \<Rightarrow> (st\<lparr>cs_engine := []\<rparr>, Ok ())
     | Panic \<Rightarrow> (st, Panic))"

definition script_entry :: "ScriptItem \<Rightarrow> json" where
  "script_entry s = JObj [(''code'', JStr (sk_code s)), (''version'', JStr (sk_version s)), (''signature'', JStr (sk_signature s))]"

text \<open>The scripts of the manifest that are stored: those that verify.\<close>

fun save_scripts :: "store_lib \<Rightarrow> ProviderItem list \<Rightarrow> keys \<times> nat \<Rightarrow> keys \<times> nat" where
  "save_scripts L [] kn = kn"
| "save_scripts L (i # is) (ks, n) =
    (case it_script i of
       None \<Rightarrow> save_scripts L is (ks, n)
     | Some s \<Rightarrow>
         if is_ok (signed_code L (sk_code s) (sk_signature s))
         then save_scripts L is (ks_set (script_account (it_id i)) (to_json L (script_entry s)) ks, Suc n)
         else save_scripts L is (ks, n))"

definition row_of_item :: "ProviderItem \<Rightarrow> OAuthProviderRow" where
  "row_of_item i = \<lparr>op_id = it_id i, op_name = it_name i, op_sort_order = it_sort_order i,
     op_input_type = it_input_type i, op_domain = it_domain i, op_is_custom = False, op_script_code = None\<rparr>"

definition fetch_and_save_oauth_providers :: "cmd_env \<Rightarrow> fetched \<Rightarrow> cmd_state \<Rightarrow> bool cmd" where
  "fetch_and_save_oauth_providers e f st =
    (case store_manifest (c_lib e) ''oauth_providers'' f of
       Ok (m, v) \<Rightarrow>
         (case c_oauth_items e (providers_value m) of
            None \<Rightarrow> (st, Err BadProviders)
          | Some items \<Rightarrow>
              (case update_oauth_providers (map row_of_item items) (map_of (rev (map (\<lambda>i. (it_id i, it_envs i)) items)))
                      v (cs_db st) of
                 (db', Ok _) \<Rightarrow>
                   (let (ks', saved) = save_scripts (c_lib e) items (cs_keys st, 0);
                        st' = st\<lparr>cs_db := db', cs_keys := ks'\<rparr>
                    in if 0 < saved
                       then (case reload_engine e (st'\<lparr>cs_keys := ks_set ''OAUTH_SCRIPTS_MANIFEST_VERSION'' v ks'\<rparr>) of
                               (st'', Ok _) \<Rightarrow> (st'', Ok False)
                             | (st'', Err x) \<Rightarrow> (st'', Err x)
                             | (st'', Panic) \<Rightarrow> (st'', Panic))
                       else (st', Ok False))
               | (db', Err x) \<Rightarrow> (st\<lparr>cs_db := db'\<rparr>, Err (DbFailed x))
               | (db', Panic) \<Rightarrow> (st\<lparr>cs_db := db'\<rparr>, Panic)))
     | Err x \<Rightarrow> (st, Err x)
     | Panic \<Rightarrow> (st, Panic))"

definition seed_oauth_providers_if_empty :: "cmd_env \<Rightarrow> fetched \<Rightarrow> cmd_state \<Rightarrow> unit cmd" where
  "seed_oauth_providers_if_empty e f st =
    (if list_oauth_providers (cs_db st) \<noteq> [] \<or> get_oauth_providers_version (cs_db st) \<noteq> no_version then (st, Ok ())
     else (case fetch_and_save_oauth_providers e f st of
             (st', Panic) \<Rightarrow> (st', Panic) | (st', _) \<Rightarrow> (st', Ok ())))"

definition save_custom_oauth_command ::
  "cmd_env \<Rightarrow> string \<Rightarrow> string \<Rightarrow> string \<Rightarrow> int \<Rightarrow> string \<Rightarrow> string \<Rightarrow> string list \<Rightarrow> cmd_state \<Rightarrow> unit cmd" where
  "save_custom_oauth_command e pid name domain order input_type code env_names st =
    (if order < 1000 then (st, Err (CustomFailed BadSortOrder))
     else (case save_custom_oauth_provider pid name domain order input_type code env_names (cs_db st) of
             (db', Ok _) \<Rightarrow> reload_engine e (st\<lparr>cs_db := db'\<rparr>)
           | (db', Err x) \<Rightarrow> (st\<lparr>cs_db := db'\<rparr>, Err (CustomFailed x))
           | (db', Panic) \<Rightarrow> (st\<lparr>cs_db := db'\<rparr>, Panic)))"

definition provider_account :: "string \<Rightarrow> string \<Rightarrow> bool" where
  "provider_account pid a \<longleftrightarrow> starts_with a (''oauth:'' @ pid @ '':'') \<or> a = script_account pid"

fun delete_accounts :: "string list \<Rightarrow> keys \<Rightarrow> keys" where
  "delete_accounts [] ks = ks"
| "delete_accounts (a # as) ks = delete_accounts as (case ks_delete a ks of Ok ks' \<Rightarrow> ks' | _ \<Rightarrow> ks)"

definition delete_custom_oauth_command :: "cmd_env \<Rightarrow> string \<Rightarrow> cmd_state \<Rightarrow> unit cmd" where
  "delete_custom_oauth_command e pid st =
    (case delete_custom_oauth_provider pid (cs_db st) of
       (db', Ok _) \<Rightarrow>
         reload_engine e (st\<lparr>cs_db := db',
           cs_keys := delete_accounts (filter (provider_account pid) (ks_list (cs_keys st))) (cs_keys st)\<rparr>)
     | (db', Err x) \<Rightarrow> (st\<lparr>cs_db := db'\<rparr>, Err (CustomFailed x))
     | (db', Panic) \<Rightarrow> (st\<lparr>cs_db := db'\<rparr>, Panic))"

record OAuthProviderItemResponse =
  or_row :: OAuthProviderRow
  or_envs :: "string list"

definition read_oauth_providers_from_db :: "prov_db \<Rightarrow> string \<times> OAuthProviderItemResponse list" where
  "read_oauth_providers_from_db db =
    (get_oauth_providers_version db,
     map (\<lambda>p. \<lparr>or_row = p, or_envs = list_oauth_provider_envs (op_id p) db\<rparr>) (list_oauth_providers db))"

definition update_oauth_providers_from_store ::
  "cmd_env \<Rightarrow> fetched \<Rightarrow> cmd_state \<Rightarrow> (bool \<times> string \<times> OAuthProviderItemResponse list) cmd" where
  "update_oauth_providers_from_store e f st =
    (case fetch_and_save_oauth_providers e f st of
       (st', Ok skipped) \<Rightarrow> (st', Ok (skipped, read_oauth_providers_from_db (cs_db st')))
     | (st', Err x) \<Rightarrow> (st', Err x)
     | (st', Panic) \<Rightarrow> (st', Panic))"


section \<open>Injection into a running VM\<close>

text \<open>\<open>service.rs\<close>: the guest's profile script.\<close>

definition safe_name :: "string \<Rightarrow> bool" where
  "safe_name n \<longleftrightarrow> n \<noteq> [] \<and> list_all (\<lambda>c. is_ascii_alphanumeric c \<or> c = CHR ''_'') n"

definition has_key :: "keys \<Rightarrow> string \<Rightarrow> bool" where
  "has_key ks a = ks_has ks a"

text \<open>\<open>order\<close> is the order in which the hash map of the engine is read.\<close>

definition enabled_names :: "keys \<Rightarrow> loaded list \<Rightarrow> string \<Rightarrow> prov_db \<Rightarrow> string list" where
  "enabled_names ks ps vm db =
    filter safe_name
      (map ee_name (filter ee_enabled (list_env_entry_overrides vm db))
       @ map (\<lambda>p. pi_token_path (ld_info p))
           (filter (\<lambda>p. has_key ks (pi_token_path (ld_info p)) \<or> has_key ks (''oauth:'' @ pi_name (ld_info p))) ps))"

definition dummy_file :: "loaded \<Rightarrow> string" where
  "dummy_file p = ''oauth_'' @ pi_name (ld_info p) @ ''.json''"

function trim_end_str :: "string \<Rightarrow> string \<Rightarrow> string" where
  "trim_end_str suffix s =
    (if suffix \<noteq> [] \<and> ends_with s suffix then trim_end_str suffix (take (length s - length suffix) s) else s)"
  by pat_completeness auto

termination trim_end_str
  by (relation "measure (\<lambda>(_, s). length s)") (auto simp: ends_with_iff)

declare trim_end_str.simps [simp del]

definition file_value :: "loaded list \<Rightarrow> string \<Rightarrow> string" where
  "file_value ps name =
    (case map_of (rev (map (\<lambda>p. (pi_token_path (ld_info p), dummy_file p)) ps)) name of
       Some f \<Rightarrow> f
     | None \<Rightarrow> to_lowercase (trim_end_str ''_FILE'' name) @ ''.json'')"

definition env_line :: "loaded list \<Rightarrow> string \<Rightarrow> string" where
  "env_line ps name =
    ''export '' @ name @ ''='' @ (if ends_with name ''_FILE'' then ''/etc/nilbox/'' @ file_value ps name else name)"

definition env_script :: "loaded list \<Rightarrow> string list \<Rightarrow> string" where
  "env_script ps names = ''#!/bin/sh'' @ [CHR 0x0A] @ concat (map (\<lambda>n. env_line ps n @ [CHR 0x0A]) names)"

definition has_credentials :: "keys \<Rightarrow> loaded \<Rightarrow> bool" where
  "has_credentials ks p \<longleftrightarrow>
    has_key ks (pi_token_path (ld_info p)) \<or> has_key ks (''oauth:'' @ pi_name (ld_info p))
    \<or> list_ex (\<lambda>k. starts_with k (''OAUTH_'' @ map upper_char (pi_name (ld_info p)) @ ''_'')) (ks_list ks)"

text \<open>The files written into the guest, in order.\<close>

definition reinject_oauth_dummy_secrets :: "keys \<Rightarrow> loaded list \<Rightarrow> string list \<Rightarrow> (string \<times> string) list" where
  "reinject_oauth_dummy_secrets ks ps names =
    (let file_vars = filter (\<lambda>n. ends_with n ''_FILE'') names
     in List.map_filter (\<lambda>p.
          if pi_flow_type (ld_info p) = ''pkce'' \<or> pi_token_path (ld_info p) \<notin> set file_vars \<or> \<not> has_credentials ks p
          then None
          else (case call_make_dummy_secret p of
                  Ok dummy \<Rightarrow> Some (''/etc/nilbox/'' @ dummy_file p, dummy) | _ \<Rightarrow> None)) ps)"

record vm_link =
  lk_registered :: bool
  lk_multiplexer :: bool
  lk_write_ok :: "string \<Rightarrow> bool"
  lk_order :: "loaded list \<Rightarrow> loaded list"

datatype inject_error = VmNotRegistered | WriteFailed

record injected =
  files_sent :: "(string \<times> string) list"
  sessions_resourced :: bool

text \<open>What reaches the guest: the files sent to the control port, and whether the shells read
  the script again.\<close>

definition apply_env_injection ::
  "cmd_env \<Rightarrow> vm_link \<Rightarrow> string \<Rightarrow> keys \<Rightarrow> prov_db \<Rightarrow> injected \<times> (inject_error, unit) outcome" where
  "apply_env_injection e lk vm ks db =
    (let none = \<lparr>files_sent = [], sessions_resourced = False\<rparr>
     in if \<not> lk_registered lk then (none, Err VmNotRegistered)
        else case (case engine_from e ks db of Ok ps \<Rightarrow> Some ps | Err _ \<Rightarrow> Some [] | Panic \<Rightarrow> None) of
               None \<Rightarrow> (none, Panic)
             | Some eng \<Rightarrow>
                 (let ps = lk_order lk (map snd eng);
                      names = enabled_names ks ps vm db;
                      main = (''/etc/profile.d/nilbox-envs.sh'', env_script ps names)
                  in if \<not> lk_multiplexer lk then (none\<lparr>sessions_resourced := True\<rparr>, Ok ())
                     else if \<not> lk_write_ok lk (fst main) then (none\<lparr>files_sent := [main]\<rparr>, Err WriteFailed)
                     else (\<lparr>files_sent = main # reinject_oauth_dummy_secrets ks ps names, sessions_resourced = True\<rparr>, Ok ())))"

definition set_env_entry_enabled ::
  "cmd_env \<Rightarrow> vm_link \<Rightarrow> string \<Rightarrow> string \<Rightarrow> bool \<Rightarrow> cmd_state \<Rightarrow> injected \<times> unit cmd" where
  "set_env_entry_enabled e lk vm name enabled st =
    (let st' = st\<lparr>cs_db := upsert_env_entry vm name enabled (entry_is_builtin name (cs_db st)) (cs_db st)\<rparr>
     in case apply_env_injection e lk vm (cs_keys st') (cs_db st') of
          (i, Panic) \<Rightarrow> (i, st', Panic)
        | (i, _) \<Rightarrow> (i, st', Ok ()))"


section \<open>Consistency of the tables\<close>

definition keyed :: "('r \<Rightarrow> 'k) \<Rightarrow> 'r tbl \<Rightarrow> bool" where
  "keyed f t \<longleftrightarrow> distinct (map (f \<circ> snd) (rows t))"

text \<open>The constraints of the schema; the last is the foreign key of \<open>oauth_provider_envs\<close>.\<close>

definition prov_wf :: "prov_db \<Rightarrow> bool" where
  "prov_wf db \<longleftrightarrow>
    keyed ep_env_name (env_providers db) \<and> keyed (\<lambda>r. (ev_vm r, ev_name r)) (env_var_entries db)
    \<and> keyed cv_name (custom_env_vars db) \<and> keyed (\<lambda>x. x) (oauth_provider_envs db) \<and> keyed (\<lambda>x. x) (oauth_entries db)
    \<and> distinct (map op_id (oauth_providers db))
    \<and> fst ` snd ` set (rows (oauth_provider_envs db)) \<subseteq> op_id ` set (oauth_providers db)"

lemma keyed_insert: "keyed f t \<Longrightarrow> \<not> tbl_ex (\<lambda>e. f (snd e) = f r) t \<Longrightarrow> keyed f (tbl_insert r t)"
  by (auto simp: keyed_def tbl_insert_def tbl_ex_def list_ex_iff)

lemma keyed_delete: "keyed f t \<Longrightarrow> keyed f (tbl_delete P t)"
  by (simp add: keyed_def tbl_delete_def distinct_map_filter)

lemma keyed_update:
  "(\<And>e. f (snd (g e)) = f (snd e)) \<Longrightarrow> keyed f t \<Longrightarrow> keyed f (t\<lparr>rows := map g (rows t)\<rparr>)"
  by (simp add: keyed_def comp_def)

lemma insert_env_providers_keyed:
  "insert_env_providers ps t = Ok t' \<Longrightarrow> keyed ep_env_name t \<Longrightarrow> keyed ep_env_name t'"
  by (induction ps t rule: insert_env_providers.induct) (auto simp: keyed_insert case_prod_unfold split: if_splits)

lemma insert_env_providers_rows:
  "insert_env_providers ps t = Ok t' \<Longrightarrow> map snd (rows t') = map snd (rows t) @ ps"
  by (induction ps t rule: insert_env_providers.induct) (auto simp: tbl_insert_def split: if_splits)

lemma insert_provider_envs_rows:
  "insert_provider_envs pid ns t = Ok t' \<Longrightarrow> map snd (rows t') = map snd (rows t) @ map (Pair pid) ns"
  by (induction pid ns t rule: insert_provider_envs.induct) (auto simp: tbl_insert_def split: if_splits)

lemma insert_provider_envs_keyed:
  "insert_provider_envs pid ns t = Ok t' \<Longrightarrow> keyed (\<lambda>x. x) t \<Longrightarrow> keyed (\<lambda>x. x) t'"
  by (induction pid ns t rule: insert_provider_envs.induct) (auto simp: keyed_insert split: if_splits)

lemma insert_provider_envs_not_Panic [simp]: "insert_provider_envs pid ns t \<noteq> Panic"
  by (induction pid ns t rule: insert_provider_envs.induct) auto

definition manifest_envs :: "(string \<rightharpoonup> string list) \<Rightarrow> OAuthProviderRow \<Rightarrow> (string \<times> string) list" where
  "manifest_envs envs p = map (Pair (op_id p)) (case envs (op_id p) of Some ns \<Rightarrow> ns | None \<Rightarrow> [])"

lemma insert_oauth_providers_step:
  assumes "insert_oauth_providers (p # ps) envs rs t = Ok r"
  obtains t1 where "op_id p \<notin> op_id ` set rs" "insert_oauth_providers ps envs (rs @ [server_row p]) t1 = Ok r"
    "map snd (rows t1) = map snd (rows t) @ manifest_envs envs p" "keyed (\<lambda>x. x) t \<Longrightarrow> keyed (\<lambda>x. x) t1"
  using assms insert_provider_envs_rows insert_provider_envs_keyed
  by (auto simp: manifest_envs_def split: if_splits)

lemma op_id_server_row [simp]: "op_id (server_row p) = op_id p"
  by (simp add: server_row_def)

lemma insert_oauth_providers_rows:
  "insert_oauth_providers ps envs rs t = Ok (rs', t') \<Longrightarrow> rs' = rs @ map server_row ps
    \<and> map snd (rows t') = map snd (rows t) @ concat (map (manifest_envs envs) ps)"
proof (induction ps arbitrary: rs t)
  case (Cons p ps)
  from Cons(2) show ?case
    by (rule insert_oauth_providers_step) (use Cons(1) in fastforce)
qed simp

lemma insert_oauth_providers_keyed:
  "insert_oauth_providers ps envs rs t = Ok (rs', t') \<Longrightarrow> keyed (\<lambda>x. x) t \<Longrightarrow> distinct (map op_id rs)
    \<Longrightarrow> keyed (\<lambda>x. x) t' \<and> distinct (map op_id rs')"
proof (induction ps arbitrary: rs t)
  case (Cons p ps)
  from Cons(2) show ?case
  proof (rule insert_oauth_providers_step)
    fix t1
    assume "op_id p \<notin> op_id ` set rs" "insert_oauth_providers ps envs (rs @ [server_row p]) t1 = Ok (rs', t')"
      "keyed (\<lambda>x. x) t \<Longrightarrow> keyed (\<lambda>x. x) t1"
    moreover from this Cons(4) have "distinct (map op_id (rs @ [server_row p]))"
      by simp
    ultimately show ?thesis
      using Cons(1,3) by blast
  qed
qed simp

lemma upsert_entry_row_keyed:
  assumes "keyed (\<lambda>r. (ev_vm r, ev_name r)) t" "\<And>r. ev_vm (f r) = ev_vm r \<and> ev_name (f r) = ev_name r"
  shows "keyed (\<lambda>r. (ev_vm r, ev_name r)) (upsert_entry_row new f t)"
proof (cases "tbl_ex (is_entry (ev_vm new) (ev_name new)) t")
  case True
  then show ?thesis
    using assms by (simp add: upsert_entry_row_def keyed_update)
next
  case False
  then have "\<not> tbl_ex (\<lambda>e. (ev_vm (snd e), ev_name (snd e)) = (ev_vm new, ev_name new)) t"
    by (simp add: tbl_ex_def list_ex_iff is_entry_def)
  then show ?thesis
    using assms(1) keyed_insert [of "\<lambda>r. (ev_vm r, ev_name r)" t new] False by (simp add: upsert_entry_row_def)
qed

lemma upsert_custom_keyed:
  "keyed cv_name t \<Longrightarrow> keyed cv_name
    (if tbl_ex (\<lambda>(_, r). cv_name r = name) t
     then t\<lparr>rows := map (\<lambda>(i, r). (i, if cv_name r = name then r\<lparr>cv_provider_name := p, cv_domain := d\<rparr> else r)) (rows t)\<rparr>
     else tbl_insert \<lparr>cv_name = name, cv_provider_name = p, cv_domain = d, cv_sort_order = 0\<rparr> t)"
  by (auto intro!: keyed_update keyed_insert simp: case_prod_unfold)

lemma prov_wf_entries:
  "prov_wf db \<Longrightarrow> prov_wf (upsert_env_entry vm n b bi db) \<and> prov_wf (upsert_custom_env_entry vm n p db)
    \<and> prov_wf (delete_env_entry vm n db) \<and> prov_wf (upsert_custom_env_var n p d db)
    \<and> prov_wf (delete_custom_env_var n db) \<and> prov_wf (delete_env_provider n db)"
  using upsert_custom_keyed [where t = "custom_env_vars db" and name = n and p = p and d = d]
  by (simp add: prov_wf_def upsert_env_entry_def upsert_custom_env_entry_def delete_env_entry_def
      upsert_custom_env_var_def delete_custom_env_var_def delete_env_provider_def Let_def
      upsert_entry_row_keyed keyed_delete)

lemma prov_wf_env_update:
  assumes "prov_wf db"
  shows "prov_wf (fst (update_env_providers now ps v db))"
proof (cases "insert_env_providers ps (tbl_delete (\<lambda>_. True) (env_providers db))")
  case (Ok t)
  have "keyed ep_env_name (tbl_delete (\<lambda>_. True) (env_providers db))"
    by (simp add: keyed_def tbl_delete_def)
  then show ?thesis
    using assms Ok insert_env_providers_keyed [OF Ok] by (simp add: prov_wf_def update_env_providers_def)
qed (use assms in \<open>auto simp: update_env_providers_def\<close>)

lemma rows_tbl_delete: "rows (tbl_delete P t) = filter (\<lambda>e. \<not> P e) (rows t)"
  by (simp add: tbl_delete_def)

lemma fst_snd_rows: "map snd xs = map snd ys @ zs \<Longrightarrow> fst ` snd ` set xs = fst ` snd ` set ys \<union> fst ` set zs"
  by (metis image_Un set_append set_map)

lemma manifest_envs_ids: "fst ` set (concat (map (manifest_envs envs) ps)) \<subseteq> op_id ` set ps"
  by (auto simp: manifest_envs_def)

definition env_owners :: "(string \<times> string) tbl \<Rightarrow> string set" where
  "env_owners t = fst ` snd ` set (rows t)"

lemma env_owners_append: "map snd (rows t') = map snd (rows t) @ zs \<Longrightarrow> env_owners t' = env_owners t \<union> fst ` set zs"
  unfolding env_owners_def by (rule fst_snd_rows)

lemma env_owners_delete: "env_owners (tbl_delete (\<lambda>(_, p, _). p \<in> S) t) = env_owners t - S"
  by (force simp: env_owners_def rows_tbl_delete)

lemma prov_wf_oauth_update:
  assumes wf: "prov_wf db"
  shows "prov_wf (fst (update_oauth_providers ps envs v db))"
proof -
  define server where "server = op_id ` {r \<in> set (oauth_providers db). \<not> op_is_custom r}"
  define t0 where "t0 = tbl_delete (\<lambda>(_, p, _). p \<in> server) (oauth_provider_envs db)"
  define rs0 where "rs0 = filter op_is_custom (oauth_providers db)"
  have t0: "keyed (\<lambda>x. x) t0" "distinct (map op_id rs0)"
    using wf by (auto simp: prov_wf_def t0_def rs0_def keyed_delete distinct_map_filter)
  have "op_id ` set (oauth_providers db) \<subseteq> op_id ` set rs0 \<union> server"
    by (auto simp: rs0_def server_def)
  moreover have "env_owners (oauth_provider_envs db) \<subseteq> op_id ` set (oauth_providers db)"
    using wf by (simp add: prov_wf_def env_owners_def)
  ultimately have own0: "env_owners t0 \<subseteq> op_id ` set rs0"
    unfolding t0_def env_owners_delete by blast
  have upd: "update_oauth_providers ps envs v db =
     (case insert_oauth_providers ps envs rs0 t0 of
        Ok (rs, t) \<Rightarrow>
          (db\<lparr>oauth_providers := rs, oauth_provider_envs := t,
              prov_settings := put_setting ''oauth_providers_version'' v (prov_settings db)\<rparr>, Ok ())
      | Err e \<Rightarrow> (db, Err e)
      | Panic \<Rightarrow> (db, Panic))"
    by (simp add: update_oauth_providers_def Let_def server_def t0_def rs0_def)
  have "prov_wf (db\<lparr>oauth_providers := rs, oauth_provider_envs := t, prov_settings := s\<rparr>)"
    if r: "insert_oauth_providers ps envs rs0 t0 = Ok (rs, t)" for rs t s
  proof -
    have rows: "rs = rs0 @ map server_row ps" "map snd (rows t) = map snd (rows t0) @ concat (map (manifest_envs envs) ps)"
      using insert_oauth_providers_rows [OF r] by auto
    have "op_id ` set rs = op_id ` set rs0 \<union> op_id ` set ps"
      by (simp add: rows(1) image_Un image_image)
    moreover have "env_owners t = env_owners t0 \<union> fst ` set (concat (map (manifest_envs envs) ps))"
      by (rule env_owners_append) (rule rows(2))
    ultimately have "env_owners t \<subseteq> op_id ` set rs"
      using own0 manifest_envs_ids [of envs ps] by (metis Un_mono)
    then show ?thesis
      using wf insert_oauth_providers_keyed [OF r t0] by (simp add: prov_wf_def env_owners_def)
  qed
  then show ?thesis
    using wf unfolding upd by (auto split: outcome.split prod.split)
qed

lemma prov_wf_save_custom:
  assumes wf: "prov_wf db"
  shows "prov_wf (fst (save_custom_oauth_provider pid n d ord ty code ns db))"
proof -
  define t0 where "t0 = tbl_delete (\<lambda>(_, p, _). p = pid) (oauth_provider_envs db)"
  define row where "row = \<lparr>op_id = pid, op_name = n, op_sort_order = ord, op_input_type = ty, op_domain = d,
    op_is_custom = True, op_script_code = Some code\<rparr>"
  define rs where "rs = (if pid \<in> op_id ` set (oauth_providers db)
     then map (\<lambda>r. if op_id r = pid then r\<lparr>op_name := n, op_sort_order := ord, op_input_type := ty, op_domain := d,
       op_script_code := Some code\<rparr> else r) (oauth_providers db)
     else oauth_providers db @ [row])"
  have "map op_id rs = (if pid \<in> op_id ` set (oauth_providers db) then map op_id (oauth_providers db)
      else map op_id (oauth_providers db) @ [pid])"
    by (auto simp: rs_def row_def)
  moreover from this have "op_id ` set rs = insert pid (op_id ` set (oauth_providers db))"
    by (auto simp: insert_absorb simp flip: set_map)
  ultimately have ids: "distinct (map op_id rs)" "op_id ` set rs = insert pid (op_id ` set (oauth_providers db))"
    using wf by (auto simp: prov_wf_def)
  have "prov_wf (db\<lparr>oauth_providers := rs, oauth_provider_envs := t\<rparr>)" if t: "insert_provider_envs pid ns t0 = Ok t" for t
  proof -
    have "env_owners t0 \<subseteq> env_owners (oauth_provider_envs db)"
      by (auto simp: t0_def env_owners_def rows_tbl_delete)
    moreover have "env_owners t = env_owners t0 \<union> fst ` set (map (Pair pid) ns)"
      by (rule env_owners_append) (rule insert_provider_envs_rows [OF t])
    ultimately have "env_owners t \<subseteq> insert pid (env_owners (oauth_provider_envs db))"
      by auto
    moreover have "keyed (\<lambda>x. x) t"
      using insert_provider_envs_keyed [OF t] wf by (simp add: t0_def keyed_delete prov_wf_def)
    ultimately show ?thesis
      using wf ids by (auto simp: prov_wf_def simp flip: env_owners_def)
  qed
  then show ?thesis
    using wf unfolding save_custom_oauth_provider_def rs_def [symmetric] row_def [symmetric] t0_def [symmetric] Let_def
    by (simp split: outcome.split)
qed

lemma prov_wf_delete_custom:
  assumes wf: "prov_wf db"
  shows "prov_wf (fst (delete_custom_oauth_provider pid db))"
proof -
  define t0 where "t0 = tbl_delete (\<lambda>(_, p, _). p = pid) (oauth_provider_envs db)"
  have "t0 = tbl_delete (\<lambda>(_, p, _). p \<in> {pid}) (oauth_provider_envs db)"
    by (simp add: t0_def)
  then have "env_owners t0 = env_owners (oauth_provider_envs db) - {pid}"
    by (simp only: env_owners_delete)
  moreover have "env_owners (oauth_provider_envs db) \<subseteq> op_id ` set (oauth_providers db)"
    using wf by (simp add: prov_wf_def env_owners_def)
  moreover have "op_id ` set (oauth_providers db) - {pid}
      \<subseteq> op_id ` set (filter (\<lambda>r. \<not> (op_id r = pid \<and> op_is_custom r)) (oauth_providers db))"
    by auto
  ultimately have "env_owners t0 \<subseteq> op_id ` set (filter (\<lambda>r. \<not> (op_id r = pid \<and> op_is_custom r)) (oauth_providers db))"
    by blast
  moreover have "keyed (\<lambda>x. x) t0"
    using wf by (simp add: t0_def prov_wf_def keyed_delete)
  ultimately show ?thesis
    using wf unfolding delete_custom_oauth_provider_def t0_def [symmetric]
    by (simp add: prov_wf_def keyed_delete distinct_map_filter env_owners_def)
qed

datatype prov_op =
    UpdateEnvProviders "EnvProvider list" string | DeleteEnvProvider string | UpsertEntry string string bool bool
  | UpsertCustomEntry string string string | DeleteEntry string string | UpsertCustomVar string string string
  | DeleteCustomVar string | UpdateOAuth "OAuthProviderRow list" "string \<rightharpoonup> string list" string
  | SaveCustom string string string int string string "string list" | DeleteCustom string

fun run_prov_op :: "string \<Rightarrow> prov_db \<Rightarrow> prov_op \<Rightarrow> prov_db" where
  "run_prov_op now db (UpdateEnvProviders ps v) = fst (update_env_providers now ps v db)"
| "run_prov_op now db (DeleteEnvProvider n) = delete_env_provider n db"
| "run_prov_op now db (UpsertEntry vm n b bi) = upsert_env_entry vm n b bi db"
| "run_prov_op now db (UpsertCustomEntry vm n p) = upsert_custom_env_entry vm n p db"
| "run_prov_op now db (DeleteEntry vm n) = delete_env_entry vm n db"
| "run_prov_op now db (UpsertCustomVar n p d) = upsert_custom_env_var n p d db"
| "run_prov_op now db (DeleteCustomVar n) = delete_custom_env_var n db"
| "run_prov_op now db (UpdateOAuth ps envs v) = fst (update_oauth_providers ps envs v db)"
| "run_prov_op now db (SaveCustom pid n d ord ty code ns) = fst (save_custom_oauth_provider pid n d ord ty code ns db)"
| "run_prov_op now db (DeleteCustom pid) = fst (delete_custom_oauth_provider pid db)"

lemma prov_wf_op: "prov_wf db \<Longrightarrow> prov_wf (run_prov_op now db a)"
  by (cases a) (simp_all add: prov_wf_entries prov_wf_env_update prov_wf_oauth_update prov_wf_save_custom
      prov_wf_delete_custom)

definition prov_empty :: prov_db where
  "prov_empty = \<lparr>env_providers = tbl_empty, env_var_entries = tbl_empty, custom_env_vars = tbl_empty,
     oauth_providers = [], oauth_provider_envs = tbl_empty, oauth_entries = tbl_empty, prov_settings = []\<rparr>"

lemma prov_wf_empty: "prov_wf prov_empty"
  by (simp add: prov_wf_def prov_empty_def keyed_def tbl_empty_def)

lemma prov_wf_ops: "prov_wf db \<Longrightarrow> prov_wf (foldl (run_prov_op now) db ops)"
  by (induction ops arbitrary: db) (auto simp: prov_wf_op)


section \<open>Injected text\<close>

definition plain_char :: "char \<Rightarrow> bool" where
  "plain_char c \<longleftrightarrow> is_ascii_alphanumeric c \<or> c \<in> set ''_./''"

lemma plain_chars_simps [simp]:
  "list_all plain_char ''/etc/nilbox/''" "list_all plain_char ''.json''" "list_all plain_char ''oauth_''"
  by (simp_all add: plain_char_def is_ascii_alphanumeric_def is_ascii_alphabetic_def is_digit_def)

lemma lower_alnum: "is_ascii_alphanumeric c \<Longrightarrow> is_ascii_alphanumeric (lower_char c)"
proof -
  assume "is_ascii_alphanumeric c"
  moreover have "(of_char (lower_char c) :: nat) =
      (if 65 \<le> (of_char c :: nat) \<and> (of_char c :: nat) \<le> 90 then of_char c + 32 else of_char c)"
    by (rule of_char_lower_char)
  ultimately show ?thesis
    by (auto simp: is_ascii_alphanumeric_def is_ascii_alphabetic_def is_digit_def Let_def split: if_splits)
qed

lemma safe_plain: "safe_name n \<Longrightarrow> list_all plain_char n"
  by (auto simp: safe_name_def plain_char_def list_all_iff)

lemma trim_end_str_prefix: "set (trim_end_str suffix s) \<subseteq> set s"
proof (induction suffix s rule: trim_end_str.induct)
  case (1 suffix s)
  then show ?case
    by (subst trim_end_str.simps) (auto dest: in_set_takeD)
qed

lemma lower_plain: "list_all (\<lambda>c. is_ascii_alphanumeric c \<or> c = CHR ''_'') s \<Longrightarrow> list_all plain_char (to_lowercase s)"
proof -
  have "lower_char (CHR ''_'') = CHR ''_''"
    by (simp add: lower_char_def)
  then show "list_all (\<lambda>c. is_ascii_alphanumeric c \<or> c = CHR ''_'') s \<Longrightarrow> list_all plain_char (to_lowercase s)"
    by (auto simp: list_all_iff to_lowercase_def plain_char_def lower_alnum)
qed

lemma file_value_plain:
  assumes "\<forall>p \<in> set ps. safe_name (pi_name (ld_info p))" "safe_name n"
  shows "list_all plain_char (file_value ps n)"
proof (cases "map_of (rev (map (\<lambda>p. (pi_token_path (ld_info p), dummy_file p)) ps)) n")
  case None
  have "list_all (\<lambda>c. is_ascii_alphanumeric c \<or> c = CHR ''_'') (trim_end_str ''_FILE'' n)"
    using assms(2) trim_end_str_prefix [of "''_FILE''" n] by (auto simp: safe_name_def list_all_iff)
  from lower_plain [OF this] show ?thesis
    by (simp only: file_value_def None option.case list_all_append plain_chars_simps simp_thms)
next
  case (Some f)
  then obtain p where "p \<in> set ps" "f = dummy_file p"
    by (auto dest!: map_of_SomeD)
  then have "list_all plain_char f"
    unfolding dummy_file_def using assms(1) by (simp only: list_all_append plain_chars_simps safe_plain simp_thms)
  then show ?thesis
    by (simp add: file_value_def Some)
qed

lemma enabled_names_safe: "n \<in> set (enabled_names ks ps vm db) \<Longrightarrow> safe_name n"
  unfolding enabled_names_def by (simp only: set_filter mem_Collect_eq)

lemma plain_no_newline: "list_all plain_char s \<Longrightarrow> CHR 0x0A \<notin> set s"
  by (auto simp: list_all_iff plain_char_def is_ascii_alphanumeric_def is_ascii_alphabetic_def is_digit_def)

lemma split_lines: "list_all (\<lambda>l. c \<notin> set l) ls \<Longrightarrow> split_str c (concat (map (\<lambda>l. l @ [c]) ls)) = ls @ [[]]"
  by (induction ls) (simp_all add: split_str_append)


section \<open>Properties\<close>

text \<open>the constraints of the provider tables hold after any sequence of operations, so that no
  environment variable is left without its provider: the foreign key is never violated.\<close>

theorem provider_tables_consistent: "prov_wf (foldl (run_prov_op now) prov_empty ops)"
  by (rule prov_wf_ops) (rule prov_wf_empty)

text \<open>C27: what reaches a guest's shells is a list of exports of names of letters, digits and
  underscores, each with a value of plain characters: no name a user enables or a manifest
  brings can put anything else into the script, as long as the loaded scripts name themselves
  plainly.\<close>

theorem injected_script_is_exports:
  assumes "\<forall>p \<in> set ps. safe_name (pi_name (ld_info p))"
  shows "\<exists>exports. split_str (CHR 0x0A) (env_script ps (enabled_names ks ps vm db))
      = ''#!/bin/sh'' # map (\<lambda>(n, v). ''export '' @ n @ ''='' @ v) exports @ [[]]
    \<and> list_all (\<lambda>(n, v). safe_name n \<and> list_all plain_char v) exports"
proof (intro exI conjI)
  let ?ns = "enabled_names ks ps vm db"
  let ?v = "\<lambda>n. if ends_with n ''_FILE'' then ''/etc/nilbox/'' @ file_value ps n else n"
  have plain: "list_all plain_char (?v n)" if "n \<in> set ?ns" for n
    using file_value_plain [OF assms] enabled_names_safe [OF that] safe_plain by (simp only: list_all_append
        plain_chars_simps simp_thms split: if_split)
  then show "list_all (\<lambda>(n, v). safe_name n \<and> list_all plain_char v) (map (\<lambda>n. (n, ?v n)) ?ns)"
    using enabled_names_safe by (simp only: list_all_iff) auto
  have line: "env_line ps = (\<lambda>n. ''export '' @ n @ ''='' @ ?v n)"
    by (simp only: env_line_def [abs_def])
  have "CHR 0x0A \<notin> set (env_line ps n)" if "n \<in> set ?ns" for n
    using plain_no_newline [OF plain [OF that]] plain_no_newline [OF safe_plain [OF enabled_names_safe [OF that]]]
    unfolding line by (simp only: set_append) auto
  then have "list_all (\<lambda>l. CHR 0x0A \<notin> set l) (''#!/bin/sh'' # map (env_line ps) ?ns)"
    by (auto simp: list_all_iff)
  from split_lines [OF this]
  have "split_str (CHR 0x0A) (env_script ps ?ns) = ''#!/bin/sh'' # map (env_line ps) ?ns @ [[]]"
    by (simp only: env_script_def list.map concat.simps map_map comp_def append_assoc append_Cons)
  then show "split_str (CHR 0x0A) (env_script ps ?ns)
      = ''#!/bin/sh'' # map (\<lambda>(n, v). ''export '' @ n @ ''='' @ v) (map (\<lambda>n. (n, ?v n)) ?ns) @ [[]]"
    by (simp only: line map_map comp_def prod.case)
qed

definition sample_env_row :: "string \<Rightarrow> EnvEntryRow" where
  "sample_env_row n = \<lparr>ev_vm = ''v'', ev_name = n, ev_enabled = True, ev_builtin = True, ev_provider_name = []\<rparr>"

definition sample_prov_db :: prov_db where
  "sample_prov_db = prov_empty\<lparr>env_var_entries := \<lparr>rows = [(1, sample_env_row ''A_FILE''), (2, sample_env_row ''b$(x)'')], seq = 2\<rparr>,
     env_providers := \<lparr>rows = [(1, \<lparr>ep_env_name = ''A_FILE'', ep_provider_name = ''a'', ep_sort_order = 1, ep_domain = []\<rparr>)], seq = 1\<rparr>\<rparr>"

lemma safe_name_A_FILE: "safe_name ''A_FILE''" and not_safe_name: "\<not> safe_name ''b$(x)''"
  by (simp_all add: safe_name_def is_ascii_alphanumeric_def is_ascii_alphabetic_def is_digit_def)

lemma enabled_sample: "enabled_names ks [] ''v'' sample_prov_db = [''A_FILE'']"
  using safe_name_A_FILE not_safe_name
  by (simp add: enabled_names_def list_env_entry_overrides_def sample_prov_db_def sample_env_row_def)

theorem injected_script_is_exports_witness:
  "enabled_names [] [] ''v'' sample_prov_db = [''A_FILE''] \<and> safe_name (pi_name (ld_info sample_loaded))
    \<and> (\<exists>exports. split_str (CHR 0x0A) (env_script [sample_loaded] (enabled_names [] [sample_loaded] ''v'' sample_prov_db))
      = ''#!/bin/sh'' # map (\<lambda>(n, v). ''export '' @ n @ ''='' @ v) exports @ [[]]
    \<and> list_all (\<lambda>(n, v). safe_name n \<and> list_all plain_char v) exports)"
proof (intro conjI)
  show safe: "safe_name (pi_name (ld_info sample_loaded))"
    by (simp add: safe_name_def sample_loaded_def is_ascii_alphanumeric_def is_ascii_alphabetic_def is_digit_def)
  show "\<exists>exports. split_str (CHR 0x0A) (env_script [sample_loaded] (enabled_names [] [sample_loaded] ''v'' sample_prov_db))
      = ''#!/bin/sh'' # map (\<lambda>(n, v). ''export '' @ n @ ''='' @ v) exports @ [[]]
    \<and> list_all (\<lambda>(n, v). safe_name n \<and> list_all plain_char v) exports"
    by (rule injected_script_is_exports) (simp add: safe)
qed (rule enabled_sample)

lemma update_env_Ok:
  assumes "update_env_providers now ps v db = (db', Ok ())"
  shows "list_env_providers db' = sort_key ep_sort_order ps \<and> env_var_entries db' = env_var_entries db
    \<and> custom_env_vars db' = custom_env_vars db"
proof -
  obtain t where t: "insert_env_providers ps (tbl_delete (\<lambda>_. True) (env_providers db)) = Ok t"
    and db': "db' = db\<lparr>env_providers := t,
             prov_settings := put_setting ''env_providers_updated_at'' now
               (put_setting ''env_providers_version'' v (prov_settings db))\<rparr>"
    using assms by (auto simp: update_env_providers_def split: outcome.splits)
  have "map snd (rows t) = ps"
    using insert_env_providers_rows [OF t] by (simp add: rows_tbl_delete)
  then show ?thesis
    by (simp add: db' list_env_providers_def)
qed

text \<open>a variable whose provider the store has withdrawn stays switched on: the list of the
  VM's entries no longer shows it, so that it cannot be switched off, and every later injection
  still exports it.\<close>

theorem removed_provider_still_injected:
  assumes "update_env_providers now ps v db = (db', Ok ())"
    and "name \<notin> ep_env_name ` set ps" "name \<notin> cv_name ` snd ` set (rows (custom_env_vars db))"
    and "\<lparr>ev_vm = vm, ev_name = name, ev_enabled = True, ev_builtin = b, ev_provider_name = p\<rparr>
           \<in> snd ` set (rows (env_var_entries db))" "safe_name name"
  shows "name \<notin> ee_name ` set (list_env_entries vm db') \<and> name \<in> set (enabled_names ks eng vm db')"
proof
  note upd = update_env_Ok [OF assms(1)]
  have "ee_name ` set (list_env_entries vm db') = ep_env_name ` set ps \<union> cv_name ` snd ` set (rows (custom_env_vars db))"
    by (simp add: list_env_entries_def Let_def list_custom_env_vars_def upd image_Un image_image)
  then show "name \<notin> ee_name ` set (list_env_entries vm db')"
    using assms(2,3) by simp
  have "\<lparr>ee_name = name, ee_value = p, ee_enabled = True, ee_builtin = b, ee_domain = []\<rparr>
      \<in> set (list_env_entry_overrides vm db')"
    using assms(4) upd by (force simp: list_env_entry_overrides_def)
  then have "name \<in> ee_name ` set (filter ee_enabled (list_env_entry_overrides vm db'))"
    by force
  then show "name \<in> set (enabled_names ks eng vm db')"
    unfolding enabled_names_def using assms(5) by (simp only: set_filter set_append set_map) blast
qed

theorem removed_provider_still_injected_witness:
  "\<exists>db'. update_env_providers ''t'' [] ''2'' sample_prov_db = (db', Ok ())
    \<and> ''A_FILE'' \<notin> ee_name ` set (list_env_entries ''v'' db') \<and> ''A_FILE'' \<in> set (enabled_names [] [] ''v'' db')"
proof -
  define db' where "db' = fst (update_env_providers ''t'' [] ''2'' sample_prov_db)"
  have "update_env_providers ''t'' [] ''2'' sample_prov_db = (db', Ok ())"
    by (simp add: db'_def update_env_providers_def)
  moreover from removed_provider_still_injected [OF this, of "''A_FILE''" "''v''" True "[]"]
  have "''A_FILE'' \<notin> ee_name ` set (list_env_entries ''v'' db') \<and> ''A_FILE'' \<in> set (enabled_names [] [] ''v'' db')"
    by (simp add: sample_prov_db_def prov_empty_def tbl_empty_def sample_env_row_def safe_name_A_FILE)
  ultimately show ?thesis
    by blast
qed

lemma custom_saved:
  assumes "save_custom_oauth_provider pid n d ord ty code ns db = (db', Ok ())"
  shows "(pid, code) \<in> set (custom_scripts db')"
proof -
  have "\<not> list_ex (\<lambda>r. op_id r = pid \<and> \<not> op_is_custom r) (oauth_providers db)"
    using assms by (auto simp: save_custom_oauth_provider_def split: if_splits)
  then have cust: "op_is_custom r" if "r \<in> set (oauth_providers db)" "op_id r = pid" for r
    using that by (auto simp: list_ex_iff)
  have "\<exists>r \<in> set (oauth_providers db'). op_id r = pid \<and> op_is_custom r \<and> op_script_code r = Some code"
  proof (cases "pid \<in> op_id ` set (oauth_providers db)")
    case True
    then obtain r where r: "r \<in> set (oauth_providers db)" "op_id r = pid"
      by auto
    let ?r = "r\<lparr>op_name := n, op_sort_order := ord, op_input_type := ty, op_domain := d, op_script_code := Some code\<rparr>"
    have "?r \<in> set (oauth_providers db')"
      using assms True r by (auto simp: save_custom_oauth_provider_def Let_def split: if_splits outcome.splits)
    then show ?thesis
      using r cust [OF r] by (intro bexI [of _ ?r]) simp_all
  next
    case False
    then show ?thesis
      using assms by (auto simp: save_custom_oauth_provider_def Let_def split: if_splits outcome.splits)
  qed
  then show ?thesis
    by (force simp: custom_scripts_def List.map_filter_def list_oauth_providers_def)
qed

text \<open>the text of a custom provider is stored without being tried: one whose \<open>provider_info\<close>
  does not return a map is accepted, and from then on every load of the scripts panics, so that
  no environment reaches any VM until the provider is deleted.\<close>

theorem bad_custom_script_breaks_injection:
  assumes "save_custom_oauth_provider pid n d ord ty code ns (cs_db st) = (db', Ok ())"
    and "c_rhai e code = Some s" "sc_provider_info s = Some v" "\<forall>m. v \<noteq> DMap m"
    and "load_from_keystore (c_lib e) (c_rhai e) (cs_keys st) = Ok eng"
  shows "save_custom_oauth_command e pid n d ord ty code ns st = (st\<lparr>cs_db := db'\<rparr>, Panic)
    \<and> snd (apply_env_injection e lk vm (cs_keys st) db') = (if lk_registered lk then Panic else Err VmNotRegistered)"
proof -
  have "load_one_from_code (c_rhai e) pid code = Panic"
    using assms(2-4) by (auto simp: load_one_Panic)
  then have "compile_custom (c_rhai e) (custom_scripts db') = Panic"
    using custom_saved [OF assms(1)] by (auto simp: compile_custom_Panic)
  then have "engine_from e (cs_keys st) db' = Panic"
    using assms(5) by (simp add: engine_from_def load_all_def)
  moreover have "\<not> ord < 1000"
    using assms(1) by (auto simp: save_custom_oauth_provider_def split: if_splits)
  ultimately show ?thesis
    using assms(1) by (simp add: save_custom_oauth_command_def reload_engine_def apply_env_injection_def Let_def)
qed

definition sample_cmd_env :: cmd_env where
  "sample_cmd_env = \<lparr>c_lib = script_lib, c_rhai = sample_rhai, c_env_items = (\<lambda>_. None), c_oauth_items = (\<lambda>_. None), c_now = []\<rparr>"

definition sample_link :: vm_link where
  "sample_link = \<lparr>lk_registered = True, lk_multiplexer = True, lk_write_ok = (\<lambda>_. True), lk_order = id\<rparr>"

theorem bad_custom_script_breaks_injection_witness:
  "\<exists>db'. save_custom_oauth_provider ''custom-x'' ''x'' ''d'' 1000 ''input'' ''bad'' [''X''] prov_empty = (db', Ok ())
    \<and> snd (apply_env_injection sample_cmd_env sample_link ''v'' [] db') = Panic"
proof -
  define db' where "db' = fst (save_custom_oauth_provider ''custom-x'' ''x'' ''d'' 1000 ''input'' ''bad'' [''X''] prov_empty)"
  have saved: "save_custom_oauth_provider ''custom-x'' ''x'' ''d'' 1000 ''input'' ''bad'' [''X'']
      (cs_db \<lparr>cs_db = prov_empty, cs_keys = [], cs_engine = []\<rparr>) = (db', Ok ())"
    by (simp add: db'_def save_custom_oauth_provider_def prov_empty_def tbl_empty_def tbl_delete_def tbl_ex_def Let_def)
  have "snd (apply_env_injection sample_cmd_env sample_link ''v'' [] db') = Panic"
    using bad_custom_script_breaks_injection [OF saved, of sample_cmd_env "sample_script DOther" DOther "[]" sample_link "''v''"]
    by (simp add: sample_cmd_env_def sample_rhai_def sample_script_def sample_link_def load_from_keystore_def
        script_ids_def ks_list_def List.map_filter_def)
  then show ?thesis
    using saved by auto
qed

lemma script_account_inj [simp]: "script_account a = script_account b \<longleftrightarrow> a = b"
  by (simp add: script_account_def)

lemma save_scripts_other:
  "pid \<notin> it_id ` set items \<Longrightarrow> map_of (fst (save_scripts L items (ks, k))) (script_account pid) = map_of ks (script_account pid)"
  by (induction items arbitrary: ks k) (auto simp: map_of_ks_set split: option.split)

text \<open>A provider that the store has withdrawn loses its row, not its script.\<close>

lemma withdrawn_script_kept:
  assumes "fetch_and_save_oauth_providers e f st = (st', Ok b)"
    and "store_manifest (c_lib e) ''oauth_providers'' f = Ok (m, v)"
    and "c_oauth_items e (providers_value m) = Some items" "pid \<notin> it_id ` set items"
  shows "map_of (cs_keys st') (script_account pid) = map_of (cs_keys st) (script_account pid)"
proof -
  obtain db' r where u: "update_oauth_providers (map row_of_item items)
      (map_of (rev (map (\<lambda>i. (it_id i, it_envs i)) items))) v (cs_db st) = (db', r)"
    by force
  obtain ks' k where s: "save_scripts (c_lib e) items (cs_keys st, 0) = (ks', k)"
    by force
  have other: "map_of ks' (script_account pid) = map_of (cs_keys st) (script_account pid)"
    using save_scripts_other [OF assms(4), of "c_lib e" "cs_keys st" 0] s by simp
  have version: "map_of (ks_set ''OAUTH_SCRIPTS_MANIFEST_VERSION'' v ks') (script_account pid) = map_of ks' (script_account pid)"
    by (simp add: map_of_ks_set script_account_def)
  have reload: "cs_keys (fst (reload_engine e st1)) = cs_keys st1" for st1
    by (simp add: reload_engine_def split: outcome.split)
  have "cs_keys st' = ks' \<or> cs_keys st' = ks_set ''OAUTH_SCRIPTS_MANIFEST_VERSION'' v ks'"
    using assms(1-3) u s reload [of "st\<lparr>cs_db := db', cs_keys := ks_set ''OAUTH_SCRIPTS_MANIFEST_VERSION'' v ks'\<rparr>"]
    by (auto simp: fetch_and_save_oauth_providers_def Let_def split: outcome.splits prod.splits if_splits)
  then show ?thesis
    using other version by auto
qed

end
