(* ===== verification/Vm_Control.thy ===== *)
theory Vm_Control
  imports Vm_Service
begin

text \<open>
  The control port: the guest's handlers (\<open>vm-agent/src/inbound/control.rs\<close>,
  \<open>control/file_ops.rs\<close>, \<open>control/system_ops.rs\<close>), the host's client
  (\<open>crates/nilbox-core/src/control_client.rs\<close>), the checks of \<open>validate.rs\<close>, and the service's
  calls.  A guest file is its content with the mode and owner last set on it; a path is a name
  (symbolic links are not followed).  Base64, JSON, the operating system's answers and the
  programs the agent starts are fields of \<open>guest_env\<close>.  A command is a JSON object.
\<close>

section \<open>Paths and devices\<close>

definition is_ascii_lowercase :: "char \<Rightarrow> bool" where
  "is_ascii_lowercase c \<longleftrightarrow> (let n = of_char c :: nat in 97 \<le> n \<and> n \<le> 122)"

definition is_valid_device_path :: "string \<Rightarrow> bool" where
  "is_valid_device_path path \<longleftrightarrow>
    (case strip_prefix path ''/dev/vd'' of
       None \<Rightarrow> False
     | Some [] \<Rightarrow> False
     | Some (disk # tail) \<Rightarrow> is_ascii_lowercase disk \<and> list_all is_digit tail)"

definition is_valid_safe_name :: "string \<Rightarrow> bool" where
  "is_valid_safe_name s \<longleftrightarrow> s \<noteq> [] \<and> list_all (\<lambda>c. is_ascii_alphanumeric c \<or> c \<in> {CHR ''_'', CHR ''-''}) s"

definition is_valid_identifier :: "string \<Rightarrow> bool" where
  "is_valid_identifier s \<longleftrightarrow> s \<noteq> [] \<and> list_all (\<lambda>c. is_ascii_alphanumeric c \<or> c \<in> {CHR ''.'', CHR ''_'', CHR ''-''}) s"

definition is_valid_http_url :: "string \<Rightarrow> bool" where
  "is_valid_http_url url \<longleftrightarrow> starts_with url ''http://'' \<or> starts_with url ''https://''"

definition ALLOWED_WRITE_PATHS :: "string list" where
  "ALLOWED_WRITE_PATHS =
    [''/etc/profile.d/nilbox-envs.sh'', ''/etc/profile.d/nilbox-proxy.sh'',
     ''/usr/local/share/ca-certificates/nilbox-inspect.crt'', ''/usr/local/bin/xdg-open'', ''/etc/environment'']"

definition ALLOWED_WRITE_PREFIXES :: "string list" where
  "ALLOWED_WRITE_PREFIXES = [''/etc/nilbox/'']"

definition is_path_allowed :: "string \<Rightarrow> bool" where
  "is_path_allowed path \<longleftrightarrow>
    \<not> (contains_str path ''..'' \<or> \<not> starts_with path ''/'')
    \<and> (path \<in> set ALLOWED_WRITE_PATHS \<or> list_ex (starts_with path) ALLOWED_WRITE_PREFIXES)"


section \<open>The guest\<close>

record guest_file =
  gf_content :: bytes
  gf_mode :: "u32 option"
  gf_owner :: "(u32 \<times> u32) option"

record guest_state =
  gs_files :: "string \<rightharpoonup> guest_file"
  gs_dirs :: "string set"

text \<open>How a program ended: whether with success, and what it printed; or why it did not start.\<close>

datatype program_result = Ran bool bytes bytes | NotStarted string

record statvfs =
  f_frsize :: u64
  f_blocks :: u64
  f_bfree :: u64
  f_bavail :: u64

record guest_env =
  g_pid :: nat
  g_mkdir :: "string \<Rightarrow> bool"
  g_write :: "string \<Rightarrow> bool"
  g_chmod :: "string \<Rightarrow> bool"
  g_chown :: "string \<Rightarrow> bool"
  g_rename :: "string \<Rightarrow> bool"
  g_user :: "string \<Rightarrow> (u32 \<times> u32) option"
  g_run :: "string list \<Rightarrow> guest_state \<Rightarrow> guest_state \<times> program_result"
  g_statvfs :: "string \<Rightarrow> statvfs option"
  g_read :: "string \<Rightarrow> string option"
  g_b64 :: "string \<Rightarrow> bytes option"
  g_json :: "string \<Rightarrow> json option"

datatype control_error =
    InvalidCommand | PathNotAllowed string | BadContent | MkdirFailed string | WriteFailed string
  | BadMode string | ChmodFailed string | UnknownUser string | ChownFailed string | RenameFailed string
  | EmptyKey | BadConfig | InvalidPath string | InvalidMount string | StatFailed string | InvalidDevice string

type_synonym 'a guest_step = "guest_state \<times> (control_error, 'a) outcome"

definition make_dirs :: "guest_env \<Rightarrow> string \<Rightarrow> guest_state \<Rightarrow> unit guest_step" where
  "make_dirs e d st = (if g_mkdir e d then (st\<lparr>gs_dirs := insert d (gs_dirs st)\<rparr>, Ok ()) else (st, Err (MkdirFailed d)))"

definition put_file :: "string \<Rightarrow> guest_file \<Rightarrow> guest_state \<Rightarrow> guest_state" where
  "put_file p f st = st\<lparr>gs_files := (gs_files st)(p \<mapsto> f)\<rparr>"

text \<open>\<open>std::fs::write\<close> keeps mode and owner of a file that exists.\<close>

definition write_guest_file :: "guest_env \<Rightarrow> string \<Rightarrow> bytes \<Rightarrow> guest_state \<Rightarrow> unit guest_step" where
  "write_guest_file e p content st =
    (if g_write e p
     then (put_file p (case gs_files st p of Some f \<Rightarrow> f\<lparr>gf_content := content\<rparr>
             | None \<Rightarrow> \<lparr>gf_content = content, gf_mode = None, gf_owner = None\<rparr>) st, Ok ())
     else (st, Err (WriteFailed p)))"

definition update_file :: "string \<Rightarrow> (guest_file \<Rightarrow> guest_file) \<Rightarrow> guest_state \<Rightarrow> guest_state" where
  "update_file p f st = st\<lparr>gs_files := (gs_files st)(p := map_option f (gs_files st p))\<rparr>"

definition chmod_path :: "guest_env \<Rightarrow> string \<Rightarrow> u32 \<Rightarrow> guest_state \<Rightarrow> unit guest_step" where
  "chmod_path e p m st =
    (if g_chmod e p then (update_file p (\<lambda>f. f\<lparr>gf_mode := Some m\<rparr>) st, Ok ()) else (st, Err (ChmodFailed p)))"

definition chown_path :: "guest_env \<Rightarrow> string \<Rightarrow> u32 \<times> u32 \<Rightarrow> guest_state \<Rightarrow> unit guest_step" where
  "chown_path e p o' st =
    (if g_chown e p then (update_file p (\<lambda>f. f\<lparr>gf_owner := Some o'\<rparr>) st, Ok ()) else (st, Err (ChownFailed p)))"

text \<open>\<open>rename\<close>; when it fails the temporary file is removed.\<close>

definition rename_or_drop :: "guest_env \<Rightarrow> string \<Rightarrow> string \<Rightarrow> guest_state \<Rightarrow> unit guest_step" where
  "rename_or_drop e tmp p st =
    (if g_rename e p then (st\<lparr>gs_files := (gs_files st)(p := gs_files st tmp, tmp := None)\<rparr>, Ok ())
     else (st\<lparr>gs_files := (gs_files st)(tmp := None)\<rparr>, Err (RenameFailed p)))"

text \<open>\<open>Path::parent\<close> of an absolute path: the text before the last component.\<close>

definition parent_dir :: "string \<Rightarrow> string option" where
  "parent_dir p =
    (let cut = rev (dropWhile (\<lambda>c. c = CHR ''/'') (rev p));
         dir = rev (dropWhile (\<lambda>c. c = CHR ''/'') (dropWhile (\<lambda>c. c \<noteq> CHR ''/'') (rev cut)))
     in if cut = [] then None else Some (if dir = [] then ''/'' else dir))"

text \<open>\<open>u32::from_str_radix(.., 8)\<close>: an optional plus sign, digits, refused on overflow.\<close>

definition is_octal :: "char \<Rightarrow> bool" where
  "is_octal c \<longleftrightarrow> (let n = of_char c :: nat in 48 \<le> n \<and> n \<le> 55)"

definition octal_value :: "string \<Rightarrow> nat" where
  "octal_value s = foldl (\<lambda>n c. 8 * n + (of_char c - 48)) 0 s"

definition parse_octal :: "string \<Rightarrow> u32 option" where
  "parse_octal s =
    (let t = (case strip_prefix s ''+'' of Some r \<Rightarrow> r | None \<Rightarrow> s)
     in if t \<noteq> [] \<and> list_all is_octal t \<and> octal_value t < 2 ^ 32 then Some (of_nat (octal_value t)) else None)"

definition trim_start_zeros :: "string \<Rightarrow> string" where
  "trim_start_zeros s = dropWhile (\<lambda>c. c = CHR ''0'') s"

definition tmp_path :: "guest_env \<Rightarrow> string \<Rightarrow> string" where
  "tmp_path e p = p @ ''.tmp.'' @ nat_digits (g_pid e)"

definition set_mode :: "guest_env \<Rightarrow> string option \<Rightarrow> string \<Rightarrow> guest_state \<Rightarrow> unit guest_step" where
  "set_mode e m p st =
    (case m of
       None \<Rightarrow> (st, Ok ())
     | Some s \<Rightarrow> (case parse_octal (trim_start_zeros s) of None \<Rightarrow> (st, Err (BadMode s)) | Some v \<Rightarrow> chmod_path e p v st))"

definition set_owner :: "guest_env \<Rightarrow> string option \<Rightarrow> string \<Rightarrow> guest_state \<Rightarrow> unit guest_step" where
  "set_owner e o' p st =
    (case o' of
       None \<Rightarrow> (st, Ok ())
     | Some u \<Rightarrow> (case g_user e u of None \<Rightarrow> (st, Err (UnknownUser u)) | Some ids \<Rightarrow> chown_path e p ids st))"

definition handle_write_file ::
  "guest_env \<Rightarrow> string \<Rightarrow> string \<Rightarrow> string option \<Rightarrow> string option \<Rightarrow> guest_state \<Rightarrow> unit guest_step" where
  "handle_write_file e path content_b64 mode owner st =
    (if \<not> is_path_allowed path then (st, Err (PathNotAllowed path))
     else (case g_b64 e content_b64 of
             None \<Rightarrow> (st, Err BadContent)
           | Some content \<Rightarrow>
               then_st (case parent_dir path of Some d \<Rightarrow> make_dirs e d st | None \<Rightarrow> (st, Ok ())) (\<lambda>st1 _.
               then_st (write_guest_file e (tmp_path e path) content st1) (\<lambda>st2 _.
               then_st (set_mode e mode (tmp_path e path) st2) (\<lambda>st3 _.
               then_st (set_owner e owner (tmp_path e path) st3) (\<lambda>st4 _.
               rename_or_drop e (tmp_path e path) path st4))))))"

definition MCP_CONFIG_PATH :: string where "MCP_CONFIG_PATH = ''/etc/nilbox/mcp-servers.json''"

definition printed :: "bytes \<Rightarrow> bytes \<Rightarrow> string" where
  "printed out err = from_utf8_lossy out @ from_utf8_lossy err"

definition handle_update_mcp_config :: "guest_env \<Rightarrow> string \<Rightarrow> guest_state \<Rightarrow> unit guest_step" where
  "handle_update_mcp_config e config st =
    (if g_json e config = None then (st, Err BadConfig)
     else then_st (make_dirs e ''/etc/nilbox'' st) (\<lambda>st1 _.
          then_st (write_guest_file e (tmp_path e MCP_CONFIG_PATH) (str_bytes config) st1) (\<lambda>st2 _.
          then_st (rename_or_drop e (tmp_path e MCP_CONFIG_PATH) MCP_CONFIG_PATH st2) (\<lambda>st3 _.
          (fst (g_run e [''pkill'', ''-HUP'', ''-f'', ''mcp-stdio-proxy''] st3), Ok ())))))"

definition BEGIN_CERT :: string where "BEGIN_CERT = ''-----BEGIN CERTIFICATE-----''"
definition END_CERT :: string where "END_CERT = ''-----END CERTIFICATE-----''"
definition newline :: string where "newline = [CHR 0x0A]"

definition cert_block :: "string \<Rightarrow> string option" where
  "cert_block pem =
    (case find_str pem BEGIN_CERT of
       None \<Rightarrow> None
     | Some start \<Rightarrow>
         (case find_str (drop start pem) END_CERT of
            None \<Rightarrow> None
          | Some p \<Rightarrow> Some (take (p + length END_CERT) (drop start pem))))"

definition remove_cert_block_from_bundle :: "string \<Rightarrow> string \<Rightarrow> string" where
  "remove_cert_block_from_bundle bundle pem =
    (case cert_block pem of
       None \<Rightarrow> bundle
     | Some block \<Rightarrow>
         if contains_str bundle (block @ newline) then replace_all bundle (block @ newline) []
         else replace_all bundle block [])"

definition cert_path :: string where "cert_path = ''/usr/local/share/ca-certificates/nilbox-inspect.crt''"

definition CA_BUNDLES :: "string list" where
  "CA_BUNDLES = [''/etc/ssl/certs/ca-certificates.crt'', ''/etc/ssl/ca-bundle.pem'', ''/etc/pki/tls/cert.pem'']"

definition with_newline :: "string \<Rightarrow> string" where
  "with_newline s = (if ends_with s newline then s else s @ newline)"

definition file_text :: "guest_state \<Rightarrow> string \<Rightarrow> string option" where
  "file_text st p =
    (case gs_files st p of Some f \<Rightarrow> if valid_utf8 (gf_content f) then Some (bytes_str (gf_content f)) else None | None \<Rightarrow> None)"

definition replace_in_bundle :: "guest_env \<Rightarrow> string \<Rightarrow> string \<Rightarrow> guest_state \<times> string \<Rightarrow> guest_state \<times> string" where
  "replace_in_bundle e cert bundle so =
    (case file_text (fst so) bundle of
       None \<Rightarrow> so
     | Some content \<Rightarrow>
         (case write_guest_file e bundle (str_bytes (with_newline (remove_cert_block_from_bundle content cert) @ cert)) (fst so) of
            (st, Ok _) \<Rightarrow> (st, snd so @ ''Updated cert in '' @ bundle @ newline)
          | (st, _) \<Rightarrow> (st, snd so)))"

definition npm_line :: string where "npm_line = ''cafile=/etc/ssl/certs/ca-certificates.crt'' @ newline"

definition preset_npmrc :: "guest_env \<Rightarrow> guest_state \<times> string \<Rightarrow> guest_state \<times> string" where
  "preset_npmrc e so =
    (let existing = (case file_text (fst so) ''/root/.npmrc'' of Some s \<Rightarrow> s | None \<Rightarrow> [])
     in if contains_str existing ''cafile='' then so
        else (case write_guest_file e ''/root/.npmrc''
               (str_bytes ((if existing = [] then [] else trim_end existing @ newline) @ npm_line)) (fst so) of
                (st, Ok _) \<Rightarrow> (st, snd so @ ''npm cafile pre-configured in /root/.npmrc'' @ newline)
              | (st, _) \<Rightarrow> (st, snd so)))"

definition run_reporting :: "guest_env \<Rightarrow> string list \<Rightarrow> (program_result \<Rightarrow> string) \<Rightarrow> guest_state \<times> string \<Rightarrow> guest_state \<times> string" where
  "run_reporting e cmd report so = (let (st, r) = g_run e cmd (fst so) in (st, snd so @ report r))"

text \<open>A line that is only reported after success.\<close>

fun on_success :: "string \<Rightarrow> program_result \<Rightarrow> string" where
  "on_success msg (Ran True out err) = msg @ newline"
| "on_success msg r = []"

text \<open>The program text for Python; it holds nothing from outside.\<close>

definition certifi_command :: "string list" where
  "certifi_command = [''python3'', ''-c'',
     ''import certifi; dst=certifi.where(); src=open('' @ [CHR 0x27] @ cert_path @ [CHR 0x27] @ '').read().strip(); bundle=open(dst).read(); ''
     @ ''cleaned=bundle.replace(src+'' @ [CHR 0x27, CHR 0x5C, CHR ''n'', CHR 0x27, CHR '','', CHR 0x27, CHR 0x27] @ '').replace(src,''
     @ [CHR 0x27, CHR 0x27] @ ''); open(dst,'' @ [CHR 0x27] @ ''w'' @ [CHR 0x27] @ '').write(cleaned.rstrip(''
     @ [CHR 0x27, CHR 0x5C, CHR ''n'', CHR 0x27] @ '')+'' @ [CHR 0x27, CHR 0x5C, CHR ''n'', CHR 0x27] @ ''+src+''
     @ [CHR 0x27, CHR 0x5C, CHR ''n'', CHR 0x27] @ '')'']"

fun ca_report :: "program_result \<Rightarrow> string" where
  "ca_report (Ran ok out err) = ''update-ca-certificates: '' @ printed out err @ newline"
| "ca_report (NotStarted x) = ''update-ca-certificates failed: '' @ x @ newline"

definition handle_update_ca_certificates :: "guest_env \<Rightarrow> guest_state \<Rightarrow> guest_state \<times> string" where
  "handle_update_ca_certificates e st =
    (let so1 = run_reporting e [''/usr/sbin/update-ca-certificates''] ca_report (st, []);
         cert = (case file_text (fst so1) cert_path of Some s \<Rightarrow> s | None \<Rightarrow> []);
         so2 = (if cert = [] then so1 else fold (replace_in_bundle e cert) CA_BUNDLES so1);
         so3 = run_reporting e certifi_command (on_success ''Python certifi updated'') so2
     in run_reporting e [''npm'', ''config'', ''set'', ''--global'', ''cafile'', ''/etc/ssl/certs/ca-certificates.crt'']
          (on_success ''npm cafile configured'') (preset_npmrc e so3))"

definition SSH_DIR :: string where "SSH_DIR = ''/home/nilbox/.ssh''"
definition AUTHORIZED_KEYS :: string where "AUTHORIZED_KEYS = ''/home/nilbox/.ssh/authorized_keys''"

definition resolve_user_uid_gid :: "guest_env \<Rightarrow> string \<Rightarrow> guest_state \<Rightarrow> (u32 \<times> u32) guest_step" where
  "resolve_user_uid_gid e u st = (case g_user e u of Some ids \<Rightarrow> (st, Ok ids) | None \<Rightarrow> (st, Err (UnknownUser u)))"

definition handle_inject_ssh_key :: "guest_env \<Rightarrow> string \<Rightarrow> guest_state \<Rightarrow> unit guest_step" where
  "handle_inject_ssh_key e pubkey st =
    (if pubkey = [] then (st, Err EmptyKey)
     else then_st (make_dirs e SSH_DIR st) (\<lambda>st1 _.
          then_st (resolve_user_uid_gid e ''nilbox'' st1) (\<lambda>st2 ids.
          then_st (chmod_path e SSH_DIR 448 st2) (\<lambda>st3 _.
          then_st (chown_path e SSH_DIR ids st3) (\<lambda>st4 _.
          then_st (write_guest_file e AUTHORIZED_KEYS (str_bytes (trim pubkey @ newline)) st4) (\<lambda>st5 _.
          then_st (resolve_user_uid_gid e ''nilbox'' st5) (\<lambda>st6 ids'.
          then_st (chmod_path e AUTHORIZED_KEYS 384 st6) (\<lambda>st7 _.
          chown_path e AUTHORIZED_KEYS ids' st7))))))))"


section \<open>System\<close>

definition MIB :: u64 where "MIB = 1048576"

definition find_mount_device :: "guest_env \<Rightarrow> string \<Rightarrow> string option" where
  "find_mount_device e mount =
    (case g_read e ''/proc/mounts'' of
       None \<Rightarrow> None
     | Some text \<Rightarrow>
         map_option (\<lambda>l. split_ws l ! 0)
           (find (\<lambda>l. 2 \<le> length (split_ws l) \<and> split_ws l ! 1 = mount) (lines_of text)))"

text \<open>Arithmetic of a release build, which wraps.\<close>

definition fs_numbers :: "statvfs \<Rightarrow> u64 \<times> u64 \<times> u64 \<times> u64" where
  "fs_numbers s =
    (let total_mb = f_blocks s * f_frsize s div MIB;
         avail_mb = f_bavail s * f_frsize s div MIB;
         free_mb = f_bfree s * f_frsize s div MIB;
         used_mb = total_mb - free_mb;
         use_pct = (if 0 < total_mb then used_mb * 100 div total_mb else 0)
     in (total_mb, used_mb, avail_mb, use_pct))"

definition num :: "u64 \<Rightarrow> json" where "num w = JNum (uint w)"

definition handle_get_fs_info :: "guest_env \<Rightarrow> string \<Rightarrow> (control_error, json) outcome" where
  "handle_get_fs_info e mount =
    (if \<not> starts_with mount ''/'' \<or> contains_str mount ''..'' then Err (InvalidMount mount)
     else if CHR 0x00 \<in> set mount then Err (InvalidMount mount)
     else (case g_statvfs e mount of
             None \<Rightarrow> Err (StatFailed mount)
           | Some s \<Rightarrow>
               (let (total, used, avail, pct) = fs_numbers s;
                    device = (case find_mount_device e mount of Some d \<Rightarrow> d | None \<Rightarrow> ''unknown'')
                in Ok (JObj [(''device'', JStr device), (''total_mb'', num total), (''used_mb'', num used),
                             (''avail_mb'', num avail), (''use_pct'', num pct)]))))"

definition handle_get_system_metrics :: "guest_env \<Rightarrow> json" where
  "handle_get_system_metrics e =
    (let part = (\<lambda>p. case g_read e p of Some t \<Rightarrow> t | None \<Rightarrow> [])
     in JObj [(''raw'', JStr (part ''/proc/stat'' @ part ''/proc/meminfo'' @ part ''/proc/net/dev''))])"

fun grow_report :: "string \<Rightarrow> program_result \<Rightarrow> string" where
  "grow_report part (Ran ok out err) = ''growpart /dev/vda '' @ part @ '': '' @ printed out err @ newline"
| "grow_report part (NotStarted x) = ''growpart failed: '' @ x @ newline"

fun resize_report :: "string \<Rightarrow> program_result \<Rightarrow> string" where
  "resize_report dev (Ran ok out err) = ''resize2fs '' @ dev @ '': '' @ printed out err"
| "resize_report dev (NotStarted x) = ''resize2fs failed: '' @ x"

definition handle_expand_partition :: "guest_env \<Rightarrow> string \<Rightarrow> guest_state \<Rightarrow> string guest_step" where
  "handle_expand_partition e dev st =
    (if \<not> is_valid_device_path dev then (st, Err (InvalidDevice dev))
     else
       let so = (case strip_prefix dev ''/dev/vda'' of
                   None \<Rightarrow> (st, [])
                 | Some part \<Rightarrow>
                     if part = [] then (st, [])
                     else run_reporting e [''/usr/bin/growpart'', ''/dev/vda'', part] (grow_report part) (st, []));
           (st', out) = run_reporting e [''/usr/sbin/resize2fs'', dev] (resize_report dev) so
       in (st', Ok out))"


section \<open>Commands\<close>

datatype ControlCommand =
    InjectSshKey string
  | InstallApp string string "string option" "string option"
  | GetFsInfo string
  | GetSystemMetrics
  | ExpandPartition string
  | WriteFile string string "string option" "string option"
  | UpdateCaCertificates
  | NotifyEnvChanged
  | EnsureDir string
  | UpdateMcpConfig string

definition string_field :: "json \<Rightarrow> string \<Rightarrow> string option" where
  "string_field v k = Option.bind (jget v k) as_str"

text \<open>An optional string: absent or null is none, another value is an error.\<close>

definition optional_field :: "json \<Rightarrow> string \<Rightarrow> string option option" where
  "optional_field v k =
    (case jget v k of None \<Rightarrow> Some None | Some JNull \<Rightarrow> Some None | Some w \<Rightarrow> map_option Some (as_str w))"

definition with_string :: "json \<Rightarrow> string \<Rightarrow> (string \<Rightarrow> ControlCommand option) \<Rightarrow> ControlCommand option" where
  "with_string v k f = Option.bind (string_field v k) f"

definition with_optional :: "json \<Rightarrow> string \<Rightarrow> (string option \<Rightarrow> ControlCommand option) \<Rightarrow> ControlCommand option" where
  "with_optional v k f = Option.bind (optional_field v k) f"

definition parse_command :: "json \<Rightarrow> ControlCommand option" where
  "parse_command v =
    (case string_field v ''action'' of
       None \<Rightarrow> None
     | Some a \<Rightarrow>
         if a = ''inject_ssh_key'' then with_string v ''pubkey'' (\<lambda>k. Some (InjectSshKey k))
         else if a = ''install_app'' then
           with_string v ''uuid'' (\<lambda>u. with_string v ''id'' (\<lambda>i.
           with_optional v ''verify_token'' (\<lambda>t. with_optional v ''store_callback_url'' (\<lambda>c. Some (InstallApp u i t c)))))
         else if a = ''get_fs_info'' then with_string v ''mount_point'' (\<lambda>m. Some (GetFsInfo m))
         else if a = ''get_system_metrics'' then Some GetSystemMetrics
         else if a = ''expand_partition'' then with_string v ''root_device'' (\<lambda>d. Some (ExpandPartition d))
         else if a = ''write_file'' then
           with_string v ''path'' (\<lambda>p. with_string v ''content_b64'' (\<lambda>c.
           with_optional v ''mode'' (\<lambda>m. with_optional v ''owner'' (\<lambda>o'. Some (WriteFile p c m o')))))
         else if a = ''update_ca_certificates'' then Some UpdateCaCertificates
         else if a = ''notify_env_changed'' then Some NotifyEnvChanged
         else if a = ''ensure_dir'' then with_string v ''path'' (\<lambda>p. Some (EnsureDir p))
         else if a = ''update_mcp_config'' then with_string v ''config_json'' (\<lambda>c. Some (UpdateMcpConfig c))
         else None)"

datatype ControlResponse = RespOk "json option" | RespErr control_error | RespAccepted string

definition respond :: "unit guest_step \<Rightarrow> guest_state \<times> ControlResponse" where
  "respond r = (case r of (st, Err x) \<Rightarrow> (st, RespErr x) | (st, _) \<Rightarrow> (st, RespOk None))"

definition respond_data :: "guest_state \<Rightarrow> (control_error, json) outcome \<Rightarrow> guest_state \<times> ControlResponse" where
  "respond_data st r = (case r of Ok d \<Rightarrow> (st, RespOk (Some d)) | Err x \<Rightarrow> (st, RespErr x) | Panic \<Rightarrow> (st, RespOk None))"

definition output_data :: "string \<Rightarrow> json" where "output_data out = JObj [(''output'', JStr out)]"

definition respond_output :: "string guest_step \<Rightarrow> guest_state \<times> ControlResponse" where
  "respond_output r =
    (case r of (st, Ok out) \<Rightarrow> (st, RespOk (Some (output_data out))) | (st, Err x) \<Rightarrow> (st, RespErr x)
     | (st, Panic) \<Rightarrow> (st, RespOk None))"

text \<open>The answer to one command.  The installation of an app is only accepted here.\<close>

fun run_command :: "guest_env \<Rightarrow> ControlCommand \<Rightarrow> guest_state \<Rightarrow> guest_state \<times> ControlResponse" where
  "run_command e (InjectSshKey k) st = respond (handle_inject_ssh_key e k st)"
| "run_command e (InstallApp u i t c) st = (st, RespAccepted u)"
| "run_command e (GetFsInfo m) st = respond_data st (handle_get_fs_info e m)"
| "run_command e GetSystemMetrics st = (st, RespOk (Some (handle_get_system_metrics e)))"
| "run_command e (ExpandPartition d) st = respond_output (handle_expand_partition e d st)"
| "run_command e (WriteFile p c m o') st = respond (handle_write_file e p c m o' st)"
| "run_command e UpdateCaCertificates st =
    (let (st', out) = handle_update_ca_certificates e st in respond_output (st', Ok out))"
| "run_command e NotifyEnvChanged st = (st, RespOk None)"
| "run_command e (EnsureDir p) st =
    (if \<not> starts_with p ''/'' \<or> contains_str p ''..'' then (st, RespErr (InvalidPath p))
     else respond (make_dirs e p st))"
| "run_command e (UpdateMcpConfig c) st = respond (handle_update_mcp_config e c st)"

definition handle_control_stream :: "guest_env \<Rightarrow> bytes \<Rightarrow> guest_state \<Rightarrow> guest_state \<times> ControlResponse" where
  "handle_control_stream e payload st =
    (case Option.bind (g_json e (from_utf8_lossy payload)) parse_command of
       None \<Rightarrow> (st, RespErr InvalidCommand)
     | Some c \<Rightarrow> run_command e c st)"

text \<open>The text of an answer; \<open>msg\<close> is the text of an error.\<close>

fun response_json :: "(control_error \<Rightarrow> string) \<Rightarrow> ControlResponse \<Rightarrow> json" where
  "response_json msg (RespOk None) = JObj [(''status'', JStr ''ok'')]"
| "response_json msg (RespOk (Some d)) = JObj [(''status'', JStr ''ok''), (''data'', d)]"
| "response_json msg (RespErr x) = JObj [(''status'', JStr ''error''), (''error'', JStr (msg x))]"
| "response_json msg (RespAccepted u) = JObj [(''action'', JStr ''install_app''), (''uuid'', JStr u), (''status'', JStr ''accepted'')]"


section \<open>The host's client\<close>

datatype client_error =
    StreamFailed | TimedOut | LegacyOk | LegacyError string | InvalidResponse | Remote string | MissingData

text \<open>What comes back on the stream: nothing, or the bytes of one read.\<close>

definition parse_response :: "(bytes \<Rightarrow> json option) \<Rightarrow> bytes \<Rightarrow> (client_error, json option) outcome" where
  "parse_response from_slice data =
    (let raw = from_utf8_lossy data;
         legacy = Err (if starts_with raw ''ok'' then LegacyOk
                       else if starts_with raw ''error:'' then LegacyError raw else InvalidResponse)
     in case from_slice data of
          None \<Rightarrow> legacy
        | Some v \<Rightarrow>
            (case (string_field v ''status'', optional_field v ''error'') of
               (Some code, Some err) \<Rightarrow>
                 if code = ''error'' then Err (Remote (case err of Some m \<Rightarrow> m | None \<Rightarrow> ''Unknown error''))
                 else Ok (case jget v ''data'' of Some JNull \<Rightarrow> None | d \<Rightarrow> d)
             | _ \<Rightarrow> legacy))"

record VmFsInfoRaw =
  fi_device :: string
  fi_total_mb :: nat
  fi_used_mb :: nat
  fi_avail_mb :: nat
  fi_use_pct :: nat

definition read_fs_info :: "json option \<Rightarrow> (client_error, VmFsInfoRaw) outcome" where
  "read_fs_info d =
    (case d of
       None \<Rightarrow> Err MissingData
     | Some v \<Rightarrow>
         (let n = (\<lambda>k. case as_u64 (index v k) of Some m \<Rightarrow> m | None \<Rightarrow> 0)
          in Ok \<lparr>fi_device = (case as_str (index v ''device'') of Some s \<Rightarrow> s | None \<Rightarrow> ''unknown''),
                 fi_total_mb = n ''total_mb'', fi_used_mb = n ''used_mb'', fi_avail_mb = n ''avail_mb'',
                 fi_use_pct = n ''use_pct''\<rparr>))"

definition read_metrics :: "json option \<Rightarrow> (client_error, bytes) outcome" where
  "read_metrics d =
    (case d of
       None \<Rightarrow> Err MissingData
     | Some v \<Rightarrow> Ok (str_bytes (case as_str (index v ''raw'') of Some s \<Rightarrow> s | None \<Rightarrow> [])))"

definition read_output :: "json option \<Rightarrow> string" where
  "read_output d = (case Option.bind d (\<lambda>v. as_str (index v ''output'')) of Some s \<Rightarrow> s | None \<Rightarrow> [])"

definition fs_info_command :: "string \<Rightarrow> json" where
  "fs_info_command mount = JObj [(''action'', JStr ''get_fs_info''), (''mount_point'', JStr mount)]"

definition metrics_command :: json where
  "metrics_command = JObj [(''action'', JStr ''get_system_metrics'')]"

definition write_file_command :: "(bytes \<Rightarrow> string) \<Rightarrow> string \<Rightarrow> bytes \<Rightarrow> string \<Rightarrow> string \<Rightarrow> json" where
  "write_file_command b64_encode path content mode owner =
    JObj [(''action'', JStr ''write_file''), (''path'', JStr path), (''content_b64'', JStr (b64_encode content)),
          (''mode'', JStr mode), (''owner'', JStr owner)]"

definition update_ca_command :: json where
  "update_ca_command = JObj [(''action'', JStr ''update_ca_certificates'')]"

definition expand_partition_command :: "string \<Rightarrow> json" where
  "expand_partition_command dev = JObj [(''action'', JStr ''expand_partition''), (''root_device'', JStr dev)]"

definition notify_env_command :: json where
  "notify_env_command = JObj [(''action'', JStr ''notify_env_changed'')]"

definition ensure_dir_command :: "string \<Rightarrow> json" where
  "ensure_dir_command path = JObj [(''action'', JStr ''ensure_dir''), (''path'', JStr path)]"

definition mcp_config_command :: "(json \<Rightarrow> string) \<Rightarrow> json \<Rightarrow> json" where
  "mcp_config_command render config =
    JObj [(''action'', JStr ''update_mcp_config''), (''config_json'', JStr (render config))]"

text \<open>A command over a connection to the guest, whose answer is read whole.\<close>

definition send_command ::
  "guest_env \<Rightarrow> (control_error \<Rightarrow> string) \<Rightarrow> (json \<Rightarrow> string) \<Rightarrow> (bytes \<Rightarrow> json option) \<Rightarrow> json \<Rightarrow> guest_state
   \<Rightarrow> guest_state \<times> (client_error, json option) outcome" where
  "send_command e msg render from_slice cmd st =
    (let (st', r) = handle_control_stream e (str_bytes (render cmd)) st
     in (st', parse_response from_slice (str_bytes (render (response_json msg r)))))"


section \<open>The service\<close>

text \<open>\<open>trim_start_matches\<close> of a string: every repetition.\<close>

function strip_all_prefix :: "string \<Rightarrow> string \<Rightarrow> string" where
  "strip_all_prefix p s =
    (if p \<noteq> [] \<and> starts_with s p then strip_all_prefix p (drop (length p) s) else s)"
  by pat_completeness auto

termination strip_all_prefix
  by (relation "measure (\<lambda>(_, s). length s)") (auto simp: starts_with_iff)

declare strip_all_prefix.simps [simp del]

definition root_device :: "string option \<Rightarrow> string" where
  "root_device cmdline =
    (case cmdline of
       None \<Rightarrow> ''/dev/vda1''
     | Some s \<Rightarrow>
         (case find (\<lambda>t. starts_with t ''root='') (split_ws s) of
            None \<Rightarrow> ''/dev/vda1''
          | Some t \<Rightarrow> strip_all_prefix ''root='' t))"

datatype expand_error =
    NoVm string | ExpandDb db_error | InvalidRoot string | Unregistered | NotReady | Control client_error

text \<open>The device that is sent to the guest, when one is.\<close>

definition expand_target :: "string \<Rightarrow> core_state \<Rightarrow> (expand_error, string) outcome" where
  "expand_target vid st =
    (case get_vm vid (s_db st) of
       Err x \<Rightarrow> Err (ExpandDb x)
     | Panic \<Rightarrow> Panic
     | Ok None \<Rightarrow> Err (NoVm vid)
     | Ok (Some r) \<Rightarrow>
         (let dev = root_device (r_append r)
          in if \<not> is_valid_device_path dev then Err (InvalidRoot dev)
             else (case s_vms st vid of
                     None \<Rightarrow> Err Unregistered
                   | Some v \<Rightarrow> if in_multiplexer v then Ok dev else Err NotReady)))"

definition vm_connection :: "string \<Rightarrow> core_state \<Rightarrow> (expand_error, unit) outcome" where
  "vm_connection vid st =
    (case s_vms st vid of None \<Rightarrow> Err Unregistered | Some v \<Rightarrow> if in_multiplexer v then Ok () else Err NotReady)"


section \<open>What a command may touch\<close>

definition agent_path :: "guest_env \<Rightarrow> string \<Rightarrow> bool" where
  "agent_path e p \<longleftrightarrow>
    is_path_allowed p \<or> (\<exists>q. is_path_allowed q \<and> p = tmp_path e q)
    \<or> p \<in> set (CA_BUNDLES @ [''/root/.npmrc'', SSH_DIR, AUTHORIZED_KEYS])"

definition keeps :: "string \<Rightarrow> guest_state \<Rightarrow> guest_state \<Rightarrow> bool" where
  "keeps p st st' \<longleftrightarrow> gs_files st' p = gs_files st p"

lemma keeps_refl [simp]: "keeps p st st"
  by (simp add: keeps_def)

lemma keeps_trans: "keeps p a b \<Longrightarrow> keeps p b c \<Longrightarrow> keeps p a c"
  by (simp add: keeps_def)

lemma keeps_then_st:
  assumes "keeps p st (fst r)" "\<And>s a. r = (s, Ok a) \<Longrightarrow> keeps p s (fst (k s a))"
  shows "keeps p st (fst (then_st r k))"
proof -
  obtain s a where r: "r = (s, a)"
    by force
  show ?thesis
    using assms unfolding r by (cases a) (auto intro: keeps_trans)
qed

lemma keeps_put: "p \<noteq> q \<Longrightarrow> keeps p st (put_file q f st)"
  by (simp add: keeps_def put_file_def)

lemma keeps_steps:
  "keeps p st (fst (make_dirs e d st))"
  "p \<noteq> q \<Longrightarrow> keeps p st (fst (write_guest_file e q c st))"
  "p \<noteq> q \<Longrightarrow> keeps p st (fst (chmod_path e q m st))"
  "p \<noteq> q \<Longrightarrow> keeps p st (fst (chown_path e q u st))"
  "p \<noteq> q \<Longrightarrow> p \<noteq> t \<Longrightarrow> keeps p st (fst (rename_or_drop e t q st))"
  "p \<noteq> q \<Longrightarrow> keeps p st (fst (set_mode e sm q st))"
  "p \<noteq> q \<Longrightarrow> keeps p st (fst (set_owner e so q st))"
  "keeps p st (fst (resolve_user_uid_gid e name st))"
  by (simp_all add: resolve_user_uid_gid_def keeps_def make_dirs_def write_guest_file_def put_file_def chmod_path_def chown_path_def
      update_file_def rename_or_drop_def set_mode_def set_owner_def split: option.split)

lemma keeps_write_file:
  assumes "p \<noteq> path" "p \<noteq> tmp_path e path"
  shows "keeps p st (fst (handle_write_file e path c m u st))"
  using assms
  by (auto simp: handle_write_file_def keeps_steps intro!: keeps_then_st split: option.split)

lemma keeps_refused: "\<not> is_path_allowed path \<Longrightarrow> fst (handle_write_file e path c m u st) = st"
  by (simp add: handle_write_file_def)

lemma keeps_mcp:
  assumes "p \<noteq> MCP_CONFIG_PATH" "p \<noteq> tmp_path e MCP_CONFIG_PATH" "\<And>cmd st. keeps p st (fst (g_run e cmd st))"
  shows "keeps p st (fst (handle_update_mcp_config e c st))"
  using assms by (auto simp: handle_update_mcp_config_def keeps_steps intro!: keeps_then_st)

lemma keeps_ssh:
  assumes "p \<noteq> SSH_DIR" "p \<noteq> AUTHORIZED_KEYS"
  shows "keeps p st (fst (handle_inject_ssh_key e k st))"
proof (cases "k = []")
  case False
  then show ?thesis
    unfolding handle_inject_ssh_key_def if_not_P [OF False]
    by (intro keeps_then_st keeps_steps assms)
qed (simp add: handle_inject_ssh_key_def)

lemma keeps_reporting:
  "(\<And>cmd st. keeps p st (fst (g_run e cmd st))) \<Longrightarrow> keeps p (fst so) (fst (run_reporting e cmd f so))"
  by (simp add: run_reporting_def split_beta Let_def)

lemma fst_case_outcome: "fst (case r of (st, Ok a) \<Rightarrow> (st, f a) | (st, Err x) \<Rightarrow> (st, g x) | (st, Panic) \<Rightarrow> (st, h)) = fst r"
  by (cases r; cases "snd r") auto

lemma keeps_bundle: "p \<noteq> b \<Longrightarrow> keeps p (fst so) (fst (replace_in_bundle e cert b so))"
  using keeps_steps(2) [of p b "fst so" e]
  by (simp add: replace_in_bundle_def fst_case_outcome split: option.split)

lemma keeps_npmrc: "p \<noteq> ''/root/.npmrc'' \<Longrightarrow> keeps p (fst so) (fst (preset_npmrc e so))"
  using keeps_steps(2) [of p "''/root/.npmrc''" "fst so" e]
  by (simp add: preset_npmrc_def Let_def fst_case_outcome)

lemma keeps_fold:
  "(\<And>x so. x \<in> set xs \<Longrightarrow> keeps p (fst so) (fst (f x so))) \<Longrightarrow> keeps p (fst so) (fst (fold f xs so))"
proof (induction xs arbitrary: so)
  case (Cons x xs)
  have "keeps p (fst so) (fst (f x so))" "keeps p (fst (f x so)) (fst (fold f xs (f x so)))"
    using Cons by auto
  then show ?case
    by (simp add: keeps_trans [of p "fst so" "fst (f x so)"])
qed simp

lemma keeps_update_ca:
  assumes "p \<notin> set CA_BUNDLES" "p \<noteq> ''/root/.npmrc''" "\<And>cmd st. keeps p st (fst (g_run e cmd st))"
  shows "keeps p st (fst (handle_update_ca_certificates e st))"
proof -
  note run = keeps_reporting [where p = p and e = e, OF assms(3)]
  define so1 where "so1 = run_reporting e [''/usr/sbin/update-ca-certificates''] ca_report (st, [])"
  define cert where "cert = (case file_text (fst so1) cert_path of Some s \<Rightarrow> s | None \<Rightarrow> [])"
  define so2 where "so2 = (if cert = [] then so1 else fold (replace_in_bundle e cert) CA_BUNDLES so1)"
  define so3 where "so3 = run_reporting e certifi_command (on_success ''Python certifi updated'') so2"
  have "keeps p st (fst so1)"
    using run [of "(st, [])"] by (simp add: so1_def)
  moreover have "keeps p (fst so1) (fst so2)"
    using assms(1) unfolding so2_def by (auto intro!: keeps_fold keeps_bundle)
  moreover have "keeps p (fst so2) (fst so3)"
    unfolding so3_def by (rule run)
  moreover have "keeps p (fst so3) (fst (preset_npmrc e so3))"
    by (rule keeps_npmrc [OF assms(2)])
  ultimately have "keeps p st (fst (preset_npmrc e so3))"
    by (blast intro: keeps_trans)
  then have "keeps p st (fst (run_reporting e [''npm'', ''config'', ''set'', ''--global'', ''cafile'',
      ''/etc/ssl/certs/ca-certificates.crt''] (on_success ''npm cafile configured'') (preset_npmrc e so3)))"
    using run keeps_trans by blast
  then show ?thesis
    unfolding handle_update_ca_certificates_def Let_def so3_def so2_def cert_def so1_def .
qed

lemma keeps_expand:
  assumes "\<And>cmd st. keeps p st (fst (g_run e cmd st))"
  shows "keeps p st (fst (handle_expand_partition e dev st))"
proof -
  note run = keeps_reporting [where p = p and e = e, OF assms]
  define so where "so = (case strip_prefix dev ''/dev/vda'' of
                   None \<Rightarrow> (st, [])
                 | Some part \<Rightarrow>
                     if part = [] then (st, [])
                     else run_reporting e [''/usr/bin/growpart'', ''/dev/vda'', part] (grow_report part) (st, []))"
  have "keeps p st (fst so)"
    using run [of "(st, [])"] by (simp add: so_def split: option.split)
  then have "keeps p st (fst (run_reporting e [''/usr/sbin/resize2fs'', dev] (resize_report dev) so))"
    using run keeps_trans by blast
  then show ?thesis
    by (simp add: handle_expand_partition_def so_def [symmetric] Let_def split_beta)
qed

lemma fst_respond: "fst (respond r) = fst r" "fst (respond_output q) = fst q"
  by (cases r; cases "snd r"; simp add: respond_def) (cases q; cases "snd q"; simp add: respond_output_def)

lemma keeps_command:
  assumes "\<not> agent_path e p" "\<And>cmd st. keeps p st (fst (g_run e cmd st))"
  shows "keeps p st (fst (run_command e c st))"
proof -
  have mcp: "is_path_allowed MCP_CONFIG_PATH"
    by (simp add: is_path_allowed_def MCP_CONFIG_PATH_def ALLOWED_WRITE_PREFIXES_def)
  have ne: "p \<noteq> MCP_CONFIG_PATH" "p \<noteq> tmp_path e MCP_CONFIG_PATH" "p \<notin> set CA_BUNDLES" "p \<noteq> ''/root/.npmrc''"
    "p \<noteq> SSH_DIR" "p \<noteq> AUTHORIZED_KEYS"
    using assms(1) mcp by (auto simp: agent_path_def)
  have wr: "keeps p st (fst (handle_write_file e q c m u st))" for q c m u
  proof (cases "is_path_allowed q")
    case True
    then show ?thesis
      using assms(1) by (intro keeps_write_file) (auto simp: agent_path_def)
  qed (simp add: keeps_refused)
  show ?thesis
    using ne assms(2) by (cases c) (simp_all add: fst_respond wr keeps_ssh keeps_mcp keeps_update_ca keeps_expand
        keeps_steps respond_data_def split_beta split: outcome.split)
qed

lemma keeps_stream:
  "\<not> agent_path e p \<Longrightarrow> (\<And>cmd st. keeps p st (fst (g_run e cmd st))) \<Longrightarrow> keeps p st (fst (handle_control_stream e b st))"
  by (simp add: handle_control_stream_def keeps_command split: option.split)


section \<open>Writing a file\<close>

lemma tmp_path_neq [simp]: "tmp_path e p \<noteq> p" "p \<noteq> tmp_path e p"
  by (simp_all add: tmp_path_def)

text \<open>The file a successful request leaves behind.\<close>

definition written_file :: "guest_env \<Rightarrow> bytes \<Rightarrow> string option \<Rightarrow> string option \<Rightarrow> guest_file" where
  "written_file e content mode owner =
    \<lparr>gf_content = content,
     gf_mode = Option.bind mode (\<lambda>s. parse_octal (trim_start_zeros s)),
     gf_owner = Option.bind owner (g_user e)\<rparr>"

lemma handle_write_file_Ok:
  assumes "handle_write_file e path c m u st = (st', Ok ())" "gs_files st (tmp_path e path) = None"
  obtains content where "g_b64 e c = Some content" "is_path_allowed path"
    "gs_files st' path = Some (written_file e content m u)" "gs_files st' (tmp_path e path) = None"
  using assms
  by (auto simp: handle_write_file_def then_st_Ok make_dirs_def write_guest_file_def put_file_def set_mode_def
      set_owner_def chmod_path_def chown_path_def update_file_def rename_or_drop_def written_file_def
      split: if_splits option.splits)

lemma handle_write_file_not_Ok:
  assumes "handle_write_file e path c m u st = (st', r)" "r \<noteq> Ok ()"
  shows "gs_files st' path = gs_files st path"
proof -
  have keep: "keeps path st (fst (then_st q (\<lambda>s a. rename_or_drop e (tmp_path e path) path s)))"
    if "keeps path st (fst q)" "snd (then_st q (\<lambda>s a. rename_or_drop e (tmp_path e path) path s)) \<noteq> Ok ()" for q :: "unit guest_step"
    using that by (cases q; cases "snd q") (auto simp: keeps_def rename_or_drop_def split: if_splits)
  show ?thesis
  proof (cases "is_path_allowed path")
    case True
    define pre where "pre content =
       then_st (then_st (then_st (case parent_dir path of Some d \<Rightarrow> make_dirs e d st | None \<Rightarrow> (st, Ok ()))
         (\<lambda>s _. write_guest_file e (tmp_path e path) content s))
         (\<lambda>s _. set_mode e m (tmp_path e path) s)) (\<lambda>s _. set_owner e u (tmp_path e path) s)" for content
    have pre: "keeps path st (fst (pre content))" for content
      unfolding pre_def by (intro keeps_then_st keeps_steps) (auto simp: keeps_steps split: option.split)
    have assoc: "then_st (then_st a f) g = then_st a (\<lambda>s x. then_st (f s x) g)"
      for a :: "unit guest_step" and f :: "guest_state \<Rightarrow> unit \<Rightarrow> unit guest_step" and g :: "guest_state \<Rightarrow> unit \<Rightarrow> unit guest_step"
      by (cases a; cases "snd a") auto
    have "handle_write_file e path c m u st =
      (case g_b64 e c of None \<Rightarrow> (st, Err BadContent)
       | Some content \<Rightarrow> then_st (pre content) (\<lambda>s _. rename_or_drop e (tmp_path e path) path s))"
      unfolding pre_def assoc by (simp add: handle_write_file_def True)
    then have "st' = st \<or> (\<exists>content. then_st (pre content) (\<lambda>s _. rename_or_drop e (tmp_path e path) path s) = (st', r))"
      using assms(1) by (auto split: option.splits)
    then show ?thesis
    proof
      assume "\<exists>content. then_st (pre content) (\<lambda>s _. rename_or_drop e (tmp_path e path) path s) = (st', r)"
      then obtain content where c: "then_st (pre content) (\<lambda>s _. rename_or_drop e (tmp_path e path) path s) = (st', r)" ..
      show ?thesis
        using keep [OF pre, of content] assms(2) unfolding c by (simp add: keeps_def)
    qed simp
  qed (use assms in \<open>auto simp: handle_write_file_def\<close>)
qed

text \<open>Nothing is left to parse of a mode of zeros, and the file is not written.\<close>

lemma zero_mode_refused:
  "snd (handle_write_file e path c (Some (replicate n (CHR ''0''))) u st) \<noteq> Ok ()"
proof -
  have "trim_start_zeros (replicate n (CHR ''0'')) = []"
    by (induction n) (simp_all add: trim_start_zeros_def)
  moreover have "parse_octal [] = None"
    by (simp add: parse_octal_def strip_prefix_def)
  ultimately show ?thesis
    by (cases "handle_write_file e path c (Some (replicate n (CHR ''0''))) u st")
      (auto simp: handle_write_file_def then_st_Ok set_mode_def split: if_splits option.splits)
qed


section \<open>File system numbers\<close>

lemma div_mult_bound: "a \<le> b \<Longrightarrow> a * 100 div b \<le> (100 :: nat)"
proof -
  assume "a \<le> b"
  then have "a * 100 div b \<le> b * 100 div b"
    by (intro div_le_mono) simp
  also have "\<dots> \<le> 100"
    by (cases "b = 0") simp_all
  finally show ?thesis .
qed

lemma unat_scaled:
  assumes "unat n * unat f < 2 ^ 64" "unat m \<le> unat n"
  shows "unat (m * f div MIB) = unat m * unat f div 1048576"
proof -
  have "unat m * unat f < 2 ^ 64"
    using assms by (meson le_less_trans mult_le_mono1)
  then have "unat (m * f) = unat m * unat f"
    by (simp add: unat_word_ariths)
  then show ?thesis
    by (simp add: MIB_def unat_div_distrib)
qed

lemma fs_numbers_nat:
  assumes "unat (f_blocks s) * unat (f_frsize s) < 2 ^ 64" "f_bfree s \<le> f_blocks s" "f_bavail s \<le> f_blocks s"
    "fs_numbers s = (tot, used, avail, pct)"
  shows "unat tot = unat (f_blocks s) * unat (f_frsize s) div 1048576
    \<and> unat used = unat tot - unat (f_bfree s) * unat (f_frsize s) div 1048576
    \<and> unat avail = unat (f_bavail s) * unat (f_frsize s) div 1048576
    \<and> unat pct = (if unat tot = 0 then 0 else unat used * 100 div unat tot)"
proof -
  define free where "free = f_bfree s * f_frsize s div MIB"
  have t: "tot = f_blocks s * f_frsize s div MIB" and a: "avail = f_bavail s * f_frsize s div MIB"
    and u: "used = tot - free" and p: "pct = (if 0 < tot then used * 100 div tot else 0)"
    using assms(4) by (auto simp: fs_numbers_def free_def Let_def)
  have le: "unat (f_bfree s) \<le> unat (f_blocks s)" "unat (f_bavail s) \<le> unat (f_blocks s)"
    using assms(2,3) by (simp_all add: word_le_nat_alt)
  note nt = unat_scaled [OF assms(1) order_refl] and nf = unat_scaled [OF assms(1) le(1)] and na = unat_scaled [OF assms(1) le(2)]
  have "unat free \<le> unat tot"
    unfolding t free_def nt nf using le(1) by (intro div_le_mono mult_le_mono1)
  then have used: "unat used = unat tot - unat free"
    unfolding u by (simp add: unat_sub word_le_nat_alt)
  have "unat tot * 1048576 \<le> unat (f_blocks s) * unat (f_frsize s)"
    unfolding t nt by simp
  then have "unat used * 100 < 2 ^ 64"
    using assms(1) used by linarith
  then have "unat (used * 100) = unat used * 100"
    by (simp add: unat_word_ariths)
  then have "unat pct = (if unat tot = 0 then 0 else unat used * 100 div unat tot)"
    unfolding p by (simp add: unat_div_distrib word_less_nat_alt unat_eq_0 [symmetric] del: unat_eq_0)
  then show ?thesis
    using used nt nf na by (simp add: t a free_def)
qed

lemma then_st_not_Panic:
  "snd r \<noteq> Panic \<Longrightarrow> (\<And>s a. r = (s, Ok a) \<Longrightarrow> snd (k s a) \<noteq> Panic) \<Longrightarrow> snd (then_st r k) \<noteq> Panic"
  by (cases r; cases "snd r") auto

lemma steps_not_Panic:
  "snd (make_dirs e d st) \<noteq> Panic" "snd (write_guest_file e q c st) \<noteq> Panic"
  "snd (rename_or_drop e t q st) \<noteq> Panic" "snd (set_mode e sm q st) \<noteq> Panic" "snd (set_owner e so q st) \<noteq> Panic"
  by (simp_all add: make_dirs_def write_guest_file_def rename_or_drop_def set_mode_def set_owner_def chmod_path_def
      chown_path_def split: option.split)

lemma handle_write_file_not_Panic: "snd (handle_write_file e path c m u st) \<noteq> Panic"
proof (cases "is_path_allowed path")
  case True
  have dirs: "snd (case parent_dir path of Some d \<Rightarrow> make_dirs e d st | None \<Rightarrow> (st, Ok ())) \<noteq> Panic"
    by (simp add: steps_not_Panic split: option.split)
  show ?thesis
    unfolding handle_write_file_def using True
    by (cases "g_b64 e c") (simp_all only: not_True_eq_False if_False option.case snd_conv outcome.distinct not_False_eq_True,
        intro then_st_not_Panic steps_not_Panic dirs)
qed (simp add: handle_write_file_def)

lemma parse_write_file_command:
  "parse_command (write_file_command enc path content mode owner) = Some (WriteFile path (enc content) (Some mode) (Some owner))"
  by (simp add: parse_command_def write_file_command_def string_field_def with_string_def with_optional_def optional_field_def)

lemma parse_fs_info_command: "parse_command (fs_info_command mount) = Some (GetFsInfo mount)"
  by (simp add: parse_command_def fs_info_command_def string_field_def with_string_def)

lemma parse_response_ok:
  "from_slice b = Some (response_json msg (RespOk d)) \<Longrightarrow> d \<noteq> Some JNull \<Longrightarrow> parse_response from_slice b = Ok d"
  by (cases d) (auto simp: parse_response_def Let_def string_field_def optional_field_def split: json.split)

lemma parse_response_err:
  "from_slice b = Some (response_json msg (RespErr x)) \<Longrightarrow> parse_response from_slice b = Err (Remote (msg x))"
  by (simp add: parse_response_def Let_def string_field_def optional_field_def)

definition readable :: "guest_env \<Rightarrow> (json \<Rightarrow> string) \<Rightarrow> json \<Rightarrow> bool" where
  "readable e render cmd \<longleftrightarrow> g_json e (from_utf8_lossy (str_bytes (render cmd))) = Some cmd"

definition answered :: "(bytes \<Rightarrow> json option) \<Rightarrow> (json \<Rightarrow> string) \<Rightarrow> json \<Rightarrow> bool" where
  "answered from_slice render v \<longleftrightarrow> from_slice (str_bytes (render v)) = Some v"


section \<open>Properties\<close>


definition sample_render :: "json \<Rightarrow> string" where
  "sample_render v =
    (if v = JObj [(''status'', JStr ''ok'')] then ''o'' else if jget v ''status'' = Some (JStr ''error'') then ''e'' else ''c'')"

definition sample_write :: json where
  "sample_write = write_file_command (\<lambda>_. ''b'') ''/etc/nilbox/x'' [7] ''0644'' ''root''"

definition sample_guest :: guest_env where
  "sample_guest = \<lparr>g_pid = 1, g_mkdir = (\<lambda>_. True), g_write = (\<lambda>_. True), g_chmod = (\<lambda>_. True), g_chown = (\<lambda>_. True),
     g_rename = (\<lambda>_. True), g_user = (\<lambda>_. Some (0, 0)), g_run = (\<lambda>_ st. (st, Ran True [] [])),
     g_statvfs = (\<lambda>_. Some \<lparr>f_frsize = 4096, f_blocks = 1024, f_bfree = 512, f_bavail = 256\<rparr>),
     g_read = (\<lambda>_. None), g_b64 = (\<lambda>_. Some [7]), g_json = (\<lambda>_. Some sample_write)\<rparr>"

definition empty_guest :: guest_state where
  "empty_guest = \<lparr>gs_files = Map.empty, gs_dirs = {}\<rparr>"

lemma nat_digits_1: "nat_digits (Suc 0) = ''1''"
proof -
  have "char_of (49 :: nat) = CHR ''1''"
    using char_of_char [of "CHR ''1''"] by simp
  then show ?thesis
    by (subst nat_digits.simps) simp
qed


text \<open>a file the host sends is installed whole or not at all: an answer without error means
  that the path was on the list and holds exactly the content, with the mode and owner asked for;
  after an error the path holds what it held.\<close>

theorem client_write_all_or_nothing:
  assumes "readable e render (write_file_command enc path content mode owner)"
    and "answered from_slice render (response_json msg (RespOk None))"
    and "\<And>x. answered from_slice render (response_json msg (RespErr x))"
    and "g_b64 e (enc content) = Some content" "gs_files st (tmp_path e path) = None"
    and "send_command e msg render from_slice (write_file_command enc path content mode owner) st = (st', a)"
  shows "if is_ok a
    then is_path_allowed path \<and> gs_files st' path = Some (written_file e content (Some mode) (Some owner))
    else gs_files st' path = gs_files st path"
proof -
  obtain s r where w: "handle_write_file e path (enc content) (Some mode) (Some owner) st = (s, r)"
    by force
  have r: "r \<noteq> Panic"
    using handle_write_file_not_Panic [of e path "enc content" "Some mode" "Some owner" st] w by simp
  have "handle_control_stream e (str_bytes (render (write_file_command enc path content mode owner))) st = respond (s, r)"
    using assms(1) w by (simp add: handle_control_stream_def readable_def parse_write_file_command)
  then have res: "st' = s" "a = parse_response from_slice (str_bytes (render (response_json msg (snd (respond (s, r))))))"
    using assms(6) fst_respond(1) [of "(s, r)"] by (auto simp: send_command_def split_beta Let_def)
  show ?thesis
  proof (cases r)
    case (Ok x)
    then have "a = Ok None"
      using assms(2) res(2) parse_response_ok [of from_slice _ msg None] by (simp add: respond_def answered_def)
    moreover obtain c where "g_b64 e (enc content) = Some c" "is_path_allowed path"
      "gs_files s path = Some (written_file e c (Some mode) (Some owner))"
      using handle_write_file_Ok [OF _ assms(5)] w Ok by (metis (full_types) unit.exhaust)
    ultimately show ?thesis
      using res(1) assms(4) by simp
  next
    case (Err x)
    then have "a = Err (Remote (msg x))"
      using assms(3) res(2) parse_response_err [of from_slice _ msg x] by (simp add: respond_def answered_def)
    then show ?thesis
      using handle_write_file_not_Ok [OF w] Err res(1) by simp
  qed (use r in simp)
qed

definition sample_slice :: "bytes \<Rightarrow> json option" where
  "sample_slice b =
    (if b = str_bytes ''o'' then Some (JObj [(''status'', JStr ''ok'')])
     else if b = str_bytes ''e'' then Some (JObj [(''status'', JStr ''error''), (''error'', JStr ''m'')]) else None)"

lemma sample_answers:
  "answered sample_slice sample_render (response_json (\<lambda>_. ''m'') (RespOk None))"
  "answered sample_slice sample_render (response_json (\<lambda>_. ''m'') (RespErr x))"
  by (simp_all add: answered_def sample_render_def sample_slice_def)

lemma sample_write_allowed: "is_path_allowed ''/etc/nilbox/x''"
  by (simp add: is_path_allowed_def ALLOWED_WRITE_PREFIXES_def)

theorem client_write_all_or_nothing_witness:
  "\<exists>st' a. send_command sample_guest (\<lambda>_. ''m'') sample_render sample_slice sample_write empty_guest = (st', a)
    \<and> (if is_ok a
       then is_path_allowed ''/etc/nilbox/x''
         \<and> gs_files st' ''/etc/nilbox/x'' = Some (written_file sample_guest [7] (Some ''0644'') (Some ''root''))
       else gs_files st' ''/etc/nilbox/x'' = gs_files empty_guest ''/etc/nilbox/x'')"
proof -
  obtain st' a where sa: "send_command sample_guest (\<lambda>_. ''m'') sample_render sample_slice sample_write empty_guest = (st', a)"
    by force
  have "readable sample_guest sample_render sample_write"
    by (simp add: readable_def sample_guest_def)
  moreover have "g_b64 sample_guest ((\<lambda>_. ''b'') [7]) = Some [7]" "gs_files empty_guest (tmp_path sample_guest ''/etc/nilbox/x'') = None"
    by (simp_all add: sample_guest_def empty_guest_def)
  ultimately have "if is_ok a
       then is_path_allowed ''/etc/nilbox/x''
         \<and> gs_files st' ''/etc/nilbox/x'' = Some (written_file sample_guest [7] (Some ''0644'') (Some ''root''))
       else gs_files st' ''/etc/nilbox/x'' = gs_files empty_guest ''/etc/nilbox/x''"
    using client_write_all_or_nothing [of sample_guest sample_render "\<lambda>_. ''b''" "''/etc/nilbox/x''" "[7]" "''0644''" "''root''"
        sample_slice "\<lambda>_. ''m''" empty_guest st' a] sample_answers sa
    by (simp add: sample_write_def)
  with sa show ?thesis
    by blast
qed

text \<open>the disk numbers the host shows are those of the guest's file system: as long as its size
  in bytes fits 64 bits they are exact up to the megabyte, used and free space do not exceed the
  total, and the percentage is at most one hundred.\<close>

theorem fs_info_bounds:
  assumes "readable e render (fs_info_command mount)"
    and "\<And>d. handle_get_fs_info e mount = Ok d \<Longrightarrow> answered from_slice render (response_json msg (RespOk (Some d)))"
    and "starts_with mount ''/''" "\<not> contains_str mount ''..''" "CHR 0x00 \<notin> set mount"
    and "g_statvfs e mount = Some s"
    and "unat (f_blocks s) * unat (f_frsize s) < 2 ^ 64" "f_bfree s \<le> f_blocks s" "f_bavail s \<le> f_bfree s"
    and "send_command e msg render from_slice (fs_info_command mount) st = (st', a)"
  shows "st' = st \<and> (\<exists>i. and_then a read_fs_info = Ok i
    \<and> fi_total_mb i = unat (f_blocks s) * unat (f_frsize s) div 2 ^ 20
    \<and> fi_avail_mb i = unat (f_bavail s) * unat (f_frsize s) div 2 ^ 20
    \<and> fi_used_mb i + fi_avail_mb i \<le> fi_total_mb i \<and> fi_use_pct i \<le> 100)"
proof -
  obtain tot used avail pct where n: "fs_numbers s = (tot, used, avail, pct)"
    by (metis prod_cases4)
  define d where "d = JObj [(''device'', JStr (case find_mount_device e mount of Some d \<Rightarrow> d | None \<Rightarrow> ''unknown'')),
     (''total_mb'', num tot), (''used_mb'', num used), (''avail_mb'', num avail), (''use_pct'', num pct)]"
  have info: "handle_get_fs_info e mount = Ok d"
    using assms(3-6) by (simp add: handle_get_fs_info_def n d_def)
  then have "handle_control_stream e (str_bytes (render (fs_info_command mount))) st = (st, RespOk (Some d))"
    using assms(1) by (simp add: handle_control_stream_def readable_def parse_fs_info_command respond_data_def)
  then have "st' = st" and a: "a = Ok (Some d)"
    using assms(2) [OF info] assms(10) parse_response_ok [of from_slice _ msg "Some d"]
    by (auto simp: send_command_def answered_def d_def)
  moreover have av: "f_bavail s \<le> f_blocks s"
    using assms(8,9) by simp
  note nat = fs_numbers_nat [OF assms(7,8) av n]
  have mono: "unat (f_bavail s) * unat (f_frsize s) div 1048576 \<le> unat (f_bfree s) * unat (f_frsize s) div 1048576"
    "unat (f_bfree s) * unat (f_frsize s) div 1048576 \<le> unat (f_blocks s) * unat (f_frsize s) div 1048576"
    using assms(8,9) by (auto intro!: div_le_mono mult_le_mono1 simp: word_le_nat_alt)
  have "unat pct \<le> 100"
    using nat div_mult_bound [of "unat used" "unat tot"] by simp
  moreover have "unat used + unat avail \<le> unat tot"
    using nat mono by linarith
  moreover have field: "as_u64 (num w) = Some (unat w)" for w
    using unsigned_less [where w = w] by (simp add: num_def)
  ultimately show ?thesis
    using nat by (simp add: read_fs_info_def index_def d_def field)
qed

definition fs_guest :: guest_env where
  "fs_guest = sample_guest\<lparr>g_json := (\<lambda>_. Some (fs_info_command ''/''))\<rparr>"

definition fs_answer :: json where
  "fs_answer = response_json (\<lambda>_. []) (RespOk (case handle_get_fs_info fs_guest ''/'' of Ok d \<Rightarrow> Some d | _ \<Rightarrow> None))"

theorem fs_info_bounds_witness:
  "\<exists>i. and_then (snd (send_command fs_guest (\<lambda>_. []) (\<lambda>_. []) (\<lambda>_. Some fs_answer) (fs_info_command ''/'') empty_guest)) read_fs_info = Ok i
    \<and> fi_total_mb i = 4 \<and> fi_avail_mb i = 1 \<and> fi_used_mb i + fi_avail_mb i \<le> fi_total_mb i \<and> fi_use_pct i \<le> 100"
proof -
  obtain st' a where sa: "send_command fs_guest (\<lambda>_. []) (\<lambda>_. []) (\<lambda>_. Some fs_answer) (fs_info_command ''/'') empty_guest = (st', a)"
    by force
  have "readable fs_guest (\<lambda>_. []) (fs_info_command ''/'')"
    by (simp add: readable_def fs_guest_def)
  moreover have "answered (\<lambda>_. Some fs_answer) (\<lambda>_. []) (response_json (\<lambda>_. []) (RespOk (Some d)))"
    if "handle_get_fs_info fs_guest ''/'' = Ok d" for d
    by (simp add: answered_def fs_answer_def that)
  moreover have "g_statvfs fs_guest ''/'' = Some \<lparr>f_frsize = 4096, f_blocks = 1024, f_bfree = 512, f_bavail = 256\<rparr>"
    by (simp add: fs_guest_def sample_guest_def)
  ultimately show ?thesis
    using fs_info_bounds [of fs_guest "\<lambda>_. []" "''/''" "\<lambda>_. Some fs_answer" "\<lambda>_. []"
        "\<lparr>f_frsize = 4096, f_blocks = 1024, f_bfree = 512, f_bavail = 256\<rparr>" empty_guest st' a] sa
    by auto
qed

text \<open>The device the service sends is one the guest accepts.\<close>

lemma expand_target_accepted:
  "expand_target vid st = Ok dev \<Longrightarrow> \<exists>out. snd (handle_expand_partition e dev gs) = Ok out"
  by (auto simp: expand_target_def Let_def handle_expand_partition_def split_beta split: outcome.splits option.splits if_splits)

end
