(* ===== verification/Guest_Install.thy ===== *)
theory Guest_Install
  imports Store_Envelope Aws_SigV4
begin

unbundle bit_operations_syntax

text \<open>
  Installing an app inside the guest: \<open>vm-agent/src/app_install.rs\<close>, which serves the control
  port, and \<open>vm-agent/src/bin/install.rs\<close>, the program of the interactive terminal.  The network,
  the reading of a manifest's fields (serde), the file system and the \<open>task\<close> program are
  fields of \<open>install_guest\<close>; both programs fetch through the host's proxy.  A nonce that is not
  twelve bytes long panics.
\<close>

section \<open>Documents\<close>

text \<open>The agent's key, which is not the one of the host.\<close>

definition AGENT_ENC_KEY :: bytes where "AGENT_ENC_KEY = map of_nat [1..<33]"

definition agent_enc_key :: "store_lib \<Rightarrow> string \<Rightarrow> (envelope_error, bytes) outcome" where
  "agent_enc_key L kid =
    (if kid = ''nilbox-enc-2026'' then Ok AGENT_ENC_KEY
     else if dev_store L \<and> kid = ''nilbox-enc-dev'' then Ok DEV_ENC_KEY
     else Err (UnknownKey kid))"

definition installer_enc_key :: "store_lib \<Rightarrow> string \<Rightarrow> (envelope_error, bytes) outcome" where
  "installer_enc_key L kid =
    (if kid = ''nilbox-enc-2026'' then Ok NILBOX_ENC_KEY
     else if dev_store L \<and> kid = ''nilbox-enc-dev'' then Ok DEV_ENC_KEY
     else Err (UnknownKey kid))"

definition decrypt_v3 ::
  "store_lib \<Rightarrow> (string \<Rightarrow> (envelope_error, bytes) outcome) \<Rightarrow> json \<Rightarrow> (envelope_error, json) outcome" where
  "decrypt_v3 L enc_key raw =
    and_then (str_field raw ''key_id'') (\<lambda>kid.
    and_then (str_field raw ''nonce'') (\<lambda>_.
    and_then (str_field raw ''ciphertext'') (\<lambda>_.
    and_then (b64_field L raw ''nonce'') (\<lambda>nonce_bytes.
    and_then (b64_field L raw ''ciphertext'') (\<lambda>ct.
    and_then (enc_key kid) (\<lambda>key.
    if length nonce_bytes \<noteq> 12 then Panic
    else (case aes_decrypt L key nonce_bytes ct of
            None \<Rightarrow> Err BadCipher
          | Some plaintext \<Rightarrow> (case from_json L plaintext of None \<Rightarrow> Err NotJson | Some v \<Rightarrow> Ok v))))))))"

text \<open>The text of a value with sorted keys: an object or array is written here, the rest by \<open>serde_json\<close>.\<close>

function canonical_json :: "store_lib \<Rightarrow> json \<Rightarrow> string" where
  "canonical_json L (JObj m) =
    ''{'' @ join '','' (map snd (sort_key fst (map (\<lambda>(k, v). (k, to_json L (JStr k) @ '':'' @ canonical_json L v)) m))) @ ''}''"
| "canonical_json L (JArr vs) = ''['' @ join '','' (map (canonical_json L) vs) @ '']''"
| "canonical_json L JNull = to_json L JNull"
| "canonical_json L (JBool b) = to_json L (JBool b)"
| "canonical_json L (JNum n) = to_json L (JNum n)"
| "canonical_json L (JFloat s) = to_json L (JFloat s)"
| "canonical_json L (JStr s) = to_json L (JStr s)"
  by pat_completeness auto

termination canonical_json
  by (relation "measure (\<lambda>(_, v). size v)") (auto dest: size_json_entry size_json_item)

definition verify_manifest_sha256 :: "store_lib \<Rightarrow> json \<Rightarrow> string \<Rightarrow> (envelope_error, unit) outcome" where
  "verify_manifest_sha256 L m expected =
    (if sha256_hex L (str_bytes (canonical_json L (without_taskfile m))) \<noteq> expected then Err ShaMismatch else Ok ())"


section \<open>Fetching\<close>

datatype http_answer = NoAnswer | Answer nat (answer_text: "string option")

record AppManifest =
  am_type :: string
  am_taskfile_url :: string
  am_taskfile_sha256 :: "string option"
  am_min_disk :: "u64 option"

datatype guest_install_error =
    FetchFailed | BadStatus nat | BodyFailed | ManifestNotJson | BadEnvelope envelope_error | BadManifest
  | OldManifest "nat option" | WrongManifestType string | NoSpace | DiskUnknown | NoTaskfileHash | TaskfileMismatch
  | WorkDirFailed | TaskfileWriteFailed | SpawnFailed

record task_run =
  tr_lines :: "(string \<times> bool) list"
  tr_exit :: "int option"

record install_guest =
  ig_lib :: store_lib
  ig_fetch :: "string \<Rightarrow> http_answer"
  ig_manifest :: "json \<Rightarrow> AppManifest option"
  ig_statvfs :: "string \<Rightarrow> (u64 \<times> u64 \<times> u64) option"
  ig_mkdir :: "string \<Rightarrow> bool"
  ig_write :: "string \<Rightarrow> bool"
  ig_task :: "string \<Rightarrow> string \<Rightarrow> task_run option"
  ig_send :: "nat \<Rightarrow> bool"
  ig_os_release :: "string option"

fun lift_env :: "(envelope_error, 'a) outcome \<Rightarrow> (guest_install_error, 'a) outcome" where
  "lift_env (Ok a) = Ok a"
| "lift_env (Err e) = Err (BadEnvelope e)"
| "lift_env Panic = Panic"

text \<open>Requests go to the proxy as plain HTTP.\<close>

definition to_proxy_url :: "string \<Rightarrow> string" where
  "to_proxy_url url = (if starts_with url ''https://'' then ''http://'' @ drop 8 url else url)"

definition fetch_text :: "install_guest \<Rightarrow> string \<Rightarrow> (guest_install_error, string) outcome" where
  "fetch_text g url =
    (case ig_fetch g (to_proxy_url url) of
       NoAnswer \<Rightarrow> Err FetchFailed
     | Answer status body \<Rightarrow>
         if \<not> (200 \<le> status \<and> status < 300) then Err (BadStatus status)
         else (case body of None \<Rightarrow> Err BodyFailed | Some t \<Rightarrow> Ok t))"

definition fetch_json :: "install_guest \<Rightarrow> string \<Rightarrow> (guest_install_error, json) outcome" where
  "fetch_json g url =
    and_then (fetch_text g url) (\<lambda>t. case from_json (ig_lib g) (str_bytes t) of None \<Rightarrow> Err ManifestNotJson | Some v \<Rightarrow> Ok v)"

definition with_manifest :: "install_guest \<Rightarrow> string \<Rightarrow> json \<Rightarrow> (guest_install_error, json \<times> string \<times> AppManifest) outcome" where
  "with_manifest g sha m = (case ig_manifest g m of None \<Rightarrow> Err BadManifest | Some a \<Rightarrow> Ok (m, sha, a))"

text \<open>The agent: an encrypted document is decrypted, a document of version two is read, anything
  else is taken as it is.\<close>

definition agent_fetch_manifest ::
  "install_guest \<Rightarrow> string \<Rightarrow> (guest_install_error, json \<times> string \<times> AppManifest) outcome" where
  "agent_fetch_manifest g url =
    and_then (fetch_json g url) (\<lambda>raw.
    and_then (lift_env (if version_of raw = Some 3 then decrypt_v3 (ig_lib g) (agent_enc_key (ig_lib g)) raw else Ok raw)) (\<lambda>env.
    if version_of env = Some 2 then
      (case jget env ''signed_payload'' of
         None \<Rightarrow> Err (BadEnvelope (MissingField ''signed_payload''))
       | Some payload \<Rightarrow>
           and_then (lift_env (str_field payload ''manifest_sha256'')) (\<lambda>sha.
           with_manifest g sha (index payload ''manifest'')))
    else
      and_then (lift_env (str_field env ''manifest_sha256'')) (\<lambda>sha.
      with_manifest g sha (index env ''manifest''))))"

text \<open>The installer: encrypted documents only, with a signature over the canonical payload.\<close>

definition check_payload :: "store_lib \<Rightarrow> json \<Rightarrow> (envelope_error, json) outcome" where
  "check_payload L env =
    and_then (str_field env ''store_public_key_id'') (\<lambda>kid.
    and_then (b64_field L env ''store_signature'') (\<lambda>sig.
    if length sig \<noteq> 64 then Err BadSignature
    else and_then (get_store_public_key L kid) (\<lambda>key.
    case jget env ''signed_payload'' of
      None \<Rightarrow> Err (MissingField ''signed_payload'')
    | Some payload \<Rightarrow>
        if ed_verify L key (str_bytes (canonical_json L payload)) sig then Ok payload else Err (SignatureMismatch kid))))"

definition installer_fetch_manifest ::
  "install_guest \<Rightarrow> string \<Rightarrow> (guest_install_error, json \<times> string \<times> AppManifest) outcome" where
  "installer_fetch_manifest g url =
    and_then (fetch_json g url) (\<lambda>raw.
    if version_of raw \<noteq> Some 3 then Err (OldManifest (version_of raw))
    else
      and_then (lift_env (decrypt_v3 (ig_lib g) (installer_enc_key (ig_lib g)) raw)) (\<lambda>env.
      and_then (lift_env (check_payload (ig_lib g) env)) (\<lambda>payload.
      and_then (lift_env (str_field payload ''manifest_sha256'')) (\<lambda>sha.
      with_manifest g sha (index payload ''manifest'')))))"

definition fetch_and_verify_taskfile ::
  "install_guest \<Rightarrow> string \<Rightarrow> string option \<Rightarrow> (guest_install_error, string) outcome" where
  "fetch_and_verify_taskfile g url expected =
    and_then (fetch_text g url) (\<lambda>content.
    case expected of
      None \<Rightarrow> Ok content
    | Some h \<Rightarrow> if sha256_hex (ig_lib g) (str_bytes content) \<noteq> h then Err TaskfileMismatch else Ok content)"

text \<open>Arithmetic of a release build.\<close>

definition check_free_disk_space :: "install_guest \<Rightarrow> string \<Rightarrow> u64 \<Rightarrow> (guest_install_error, unit) outcome" where
  "check_free_disk_space g path min_mb =
    (if CHR 0x00 \<in> set path then Err DiskUnknown
     else (case ig_statvfs g path of
             None \<Rightarrow> Err DiskUnknown
           | Some (frsize, bsize, bavail) \<Rightarrow>
               let block_size = (if 0 < frsize then frsize else bsize); free_mb = bavail * block_size div 1048576
               in if free_mb < min_mb then Err NoSpace else Ok ()))"


section \<open>Running\<close>

text \<open>What an installation does to the guest.\<close>

datatype install_effect = MadeDir string | WroteTaskfile string string | RanTask string string

type_synonym 'a installed = "install_effect list \<times> (guest_install_error, 'a) outcome"

definition work_dir :: "string \<Rightarrow> string" where "work_dir uuid = ''/tmp/nilbox-app-'' @ uuid"

definition prepare_task :: "install_guest \<Rightarrow> string \<Rightarrow> string \<Rightarrow> unit installed" where
  "prepare_task g uuid content =
    (let dir = work_dir uuid
     in if \<not> ig_mkdir g dir then ([], Err WorkDirFailed)
        else if \<not> ig_write g (dir @ ''/Taskfile.yml'') then ([MadeDir dir], Err TaskfileWriteFailed)
        else ([MadeDir dir, WroteTaskfile dir content], Ok ()))"

text \<open>The lines of the task's output that reach the host: sending stops at the first failure.
  \<open>n\<close> counts the messages sent before.\<close>

fun send_lines :: "install_guest \<Rightarrow> string \<Rightarrow> nat \<Rightarrow> (string \<times> bool) list \<Rightarrow> json list" where
  "send_lines g uuid n [] = []"
| "send_lines g uuid n ((l, is_stderr) # ls) =
    (let msg = JObj [(''uuid'', JStr uuid), (''line'', JStr l), (''is_stderr'', JBool is_stderr)]
     in if ig_send g n then msg # send_lines g uuid (Suc n) ls else [])"

definition run_task_install ::
  "install_guest \<Rightarrow> string \<Rightarrow> string \<Rightarrow> json list \<times> (bool \<times> int) installed" where
  "run_task_install g uuid content =
    (case prepare_task g uuid content of
       (fx, Ok _) \<Rightarrow>
         (case ig_task g (work_dir uuid) content of
            None \<Rightarrow> ([], fx, Err SpawnFailed)
          | Some r \<Rightarrow>
              (send_lines g uuid 1 (tr_lines r), fx @ [RanTask (work_dir uuid) content],
               Ok (tr_exit r = Some 0, case tr_exit r of Some c \<Rightarrow> c | None \<Rightarrow> -1)))
     | (fx, Err e) \<Rightarrow> ([], fx, Err e)
     | (fx, Panic) \<Rightarrow> ([], fx, Panic))"

definition AGENT_STORE_URL :: string where "AGENT_STORE_URL = ''https://store.nilbox.run''"

definition app_manifest_url :: "string \<Rightarrow> string" where
  "app_manifest_url app = AGENT_STORE_URL @ ''/apps/'' @ app @ ''/manifest''"

text \<open>The checks before anything is run: the text of the taskfile.\<close>

definition agent_checks :: "install_guest \<Rightarrow> string \<Rightarrow> (guest_install_error, string) outcome" where
  "agent_checks g app =
    and_then (agent_fetch_manifest g (app_manifest_url app)) (\<lambda>(m, sha, a).
    and_then (lift_env (verify_manifest_sha256 (ig_lib g) m sha)) (\<lambda>_.
    if am_type a \<noteq> ''application'' then Err (WrongManifestType (am_type a))
    else and_then (case am_min_disk a of
                     Some mb \<Rightarrow> if 0 < mb then check_free_disk_space g ''/tmp'' mb else Ok ()
                   | None \<Rightarrow> Ok ()) (\<lambda>_.
    fetch_and_verify_taskfile g (am_taskfile_url a) (am_taskfile_sha256 a))))"

definition do_install :: "install_guest \<Rightarrow> string \<Rightarrow> string \<Rightarrow> json list \<times> (bool \<times> int) installed" where
  "do_install g uuid app =
    (case agent_checks g app of
       Ok content \<Rightarrow> run_task_install g uuid content
     | Err e \<Rightarrow> ([], [], Err e)
     | Panic \<Rightarrow> ([], [], Panic))"

record VerifyConfig =
  vf_token :: string
  vf_callback_url :: string

text \<open>\<open>trim_start_matches("ID=")\<close>.\<close>

fun drop_ids :: "string \<Rightarrow> string" where
  "drop_ids (a # b # c # s) = (if [a, b, c] = ''ID='' then drop_ids s else a # b # c # s)"
| "drop_ids s = s"

definition os_id :: "string option \<Rightarrow> string" where
  "os_id release =
    (case Option.bind release (\<lambda>c. find (\<lambda>l. starts_with l ''ID='') (lines_of c)) of
       None \<Rightarrow> ''linux''
     | Some l \<Rightarrow>
         (let v = drop_ids l; q = (\<lambda>c. c = CHR 0x22) in rev (dropWhile q (rev (dropWhile q v)))))"

definition verify_body :: "string \<Rightarrow> string \<Rightarrow> VerifyConfig \<Rightarrow> bool \<Rightarrow> string option \<Rightarrow> string option \<Rightarrow> json" where
  "verify_body arch nilbox_version vc success error_message release =
    JObj [(''verify_token'', JStr (vf_token vc)),
          (''result'', JStr (if success then ''success'' else ''failure'')),
          (''error_message'', case error_message of Some m \<Rightarrow> JStr m | None \<Rightarrow> JNull),
          (''vm_info'', JObj [(''os'', JStr (os_id release)), (''arch'', JStr arch), (''nilbox_version'', JStr nilbox_version)])]"

definition done_message :: "string \<Rightarrow> bool \<Rightarrow> int \<Rightarrow> string option \<Rightarrow> json" where
  "done_message uuid success exit_code err =
    JObj ([(''uuid'', JStr uuid), (''success'', JBool success), (''exit_code'', JNum exit_code)]
      @ (case err of Some m \<Rightarrow> [(''error'', JStr m)] | None \<Rightarrow> []))"

record install_report =
  rp_messages :: "json list"
  rp_effects :: "install_effect list"
  rp_callback :: "(string \<times> bool \<times> string option) option"

text \<open>\<open>msg\<close> is the text of an error; the call back is the URL and what it reports.\<close>

definition handle_install_app ::
  "install_guest \<Rightarrow> (guest_install_error \<Rightarrow> string) \<Rightarrow> string \<Rightarrow> string \<Rightarrow> VerifyConfig option \<Rightarrow>
   (guest_install_error, install_report) outcome" where
  "handle_install_app g msg uuid app vc =
    (case do_install g uuid app of
       (_, _, Panic) \<Rightarrow> Panic
     | (lines, fx, r) \<Rightarrow>
         (let (success, code, err) = (case r of Ok (s, c) \<Rightarrow> (s, c, None) | Err e \<Rightarrow> (False, -1, Some (msg e)))
          in Ok \<lparr>rp_messages = lines @ [done_message uuid success code err], rp_effects = fx,
                 rp_callback = map_option (\<lambda>c. (to_proxy_url (vf_callback_url c), success, err)) vc\<rparr>))"


section \<open>The interactive installer\<close>

text \<open>Sixteen random bytes as a UUID of version four.\<close>

definition uuid_v4 :: "bytes \<Rightarrow> string" where
  "uuid_v4 bs =
    (let cs = bs[6 := (bs ! 6 AND 0x0f) OR 0x40, 8 := (bs ! 8 AND 0x3f) OR 0x80];
         part = (\<lambda>i n. hex_encode (take n (drop i cs)))
     in part 0 4 @ ''-'' @ part 4 2 @ ''-'' @ part 6 2 @ ''-'' @ part 8 2 @ ''-'' @ part 10 6)"

definition installer_checks :: "install_guest \<Rightarrow> string \<Rightarrow> (guest_install_error, string) outcome" where
  "installer_checks g url =
    and_then (installer_fetch_manifest g url) (\<lambda>(m, sha, a).
    and_then (lift_env (verify_manifest_sha256 (ig_lib g) m sha)) (\<lambda>_.
    if am_type a \<noteq> ''application'' then Err (WrongManifestType (am_type a))
    else (case am_taskfile_sha256 a of
            None \<Rightarrow> Err NoTaskfileHash
          | Some h \<Rightarrow> fetch_and_verify_taskfile g (am_taskfile_url a) (Some h))))"

definition run_install :: "install_guest \<Rightarrow> bytes \<Rightarrow> string \<Rightarrow> int installed" where
  "run_install g random url =
    (case installer_checks g url of
       Err e \<Rightarrow> ([], Err e)
     | Panic \<Rightarrow> ([], Panic)
     | Ok content \<Rightarrow>
         (let uuid = uuid_v4 random
          in case prepare_task g uuid content of
               (fx, Ok _) \<Rightarrow>
                 (case ig_task g (work_dir uuid) content of
                    None \<Rightarrow> (fx, Err SpawnFailed)
                  | Some r \<Rightarrow> (fx @ [RanTask (work_dir uuid) content], Ok (case tr_exit r of Some c \<Rightarrow> c | None \<Rightarrow> 1)))
             | (fx, Err e) \<Rightarrow> (fx, Err e)
             | (fx, Panic) \<Rightarrow> (fx, Panic)))"

text \<open>\<open>main\<close>: the exit code; the argument is the manifest's URL in URL-safe Base64.\<close>

definition installer_main :: "install_guest \<Rightarrow> (string \<Rightarrow> bytes option) \<Rightarrow> bytes \<Rightarrow> string list \<Rightarrow> install_effect list \<times> int option" where
  "installer_main g b64_url random args =
    (case args of
       _ # arg # _ \<Rightarrow>
         (case b64_url arg of
            None \<Rightarrow> ([], Some 1)
          | Some bs \<Rightarrow>
              if \<not> valid_utf8 bs then ([], Some 1)
              else (case run_install g random (bytes_str bs) of
                      (fx, Ok c) \<Rightarrow> (fx, Some c) | (fx, Err _) \<Rightarrow> (fx, Some 1) | (fx, Panic) \<Rightarrow> (fx, None)))
     | _ \<Rightarrow> ([], Some 1))"


section \<open>Lemmas\<close>

lemma insort_key_map: "(\<And>x. f (h x) = g x) \<Longrightarrow> insort_key f (h x) (map h xs) = map h (insort_key g x xs)"
  by (induction xs) auto

lemma sort_key_map: "(\<And>x. f (h x) = g x) \<Longrightarrow> sort_key f (map h xs) = map h (sort_key g xs)"
  by (induction xs) (auto simp: insort_key_map [of f h g])

text \<open>What \<open>serde_json\<close> documents of its compact output.\<close>

definition compact_json :: "store_lib \<Rightarrow> bool" where
  "compact_json L \<longleftrightarrow>
    (\<forall>m. to_json L (JObj m) = ''{'' @ join '','' (map (\<lambda>(k, v). to_json L (JStr k) @ '':'' @ to_json L v) m) @ ''}'')
    \<and> (\<forall>vs. to_json L (JArr vs) = ''['' @ join '','' (map (to_json L) vs) @ '']'')"

lemma canonical_json_eq:
  assumes "compact_json L"
  shows "canonical_json L v = to_json L (canonical_json_value v)"
proof (induction v rule: canonical_json_value.induct)
  case (1 m)
  let ?s = "sort_key fst m"
  let ?f = "\<lambda>(k, v). (k, to_json L (JStr k) @ '':'' @ canonical_json L v)"
  let ?g = "\<lambda>(k, v). (k, canonical_json_value v)"
  have "sort_key fst (map ?f m) = map ?f ?s"
    by (rule sort_key_map) (simp add: case_prod_unfold)
  moreover have "sort_key fst (map ?g m) = map ?g ?s"
    by (rule sort_key_map) (simp add: case_prod_unfold)
  moreover have "canonical_json L v = to_json L (canonical_json_value v)" if "(k, v) \<in> set ?s" for k v
    using 1 that by simp
  ultimately have "map snd (sort_key fst (map ?f m)) = map (\<lambda>(k, v). to_json L (JStr k) @ '':'' @ to_json L v) (sort_key fst (map ?g m))"
    by auto
  moreover have "to_json L (JObj kvs) = ''{'' @ join '','' (map (\<lambda>(k, v). to_json L (JStr k) @ '':'' @ to_json L v) kvs) @ ''}''" for kvs
    using assms by (simp add: compact_json_def)
  ultimately show ?case
    by (simp only: canonical_json.simps canonical_json_value.simps)
next
  case (2 vs)
  then have "map (canonical_json L) vs = map (to_json L) (map canonical_json_value vs)"
    by simp
  then show ?case
    using assms by (simp only: canonical_json.simps canonical_json_value.simps compact_json_def)
qed simp_all

lemma verify_manifest_sha256_Ok:
  "compact_json L \<Longrightarrow> verify_manifest_sha256 L m sha = Ok u \<longleftrightarrow> integrity_hash L m = sha"
  by (simp add: verify_manifest_sha256_def integrity_hash_def canonical_json_eq)

text \<open>The installer's copies of the host's keys agree with them; the agent's does not.\<close>

lemma installer_enc_key_eq: "installer_enc_key L kid = get_enc_key L kid"
  by (simp add: installer_enc_key_def get_enc_key_def)

lemma agent_enc_key_differs: "agent_enc_key L ''nilbox-enc-2026'' \<noteq> get_enc_key L ''nilbox-enc-2026''"
proof -
  have "hd AGENT_ENC_KEY = 1"
    by (simp add: AGENT_ENC_KEY_def upt_conv_Cons)
  moreover have "hd NILBOX_ENC_KEY = 0xc7"
    by (simp add: NILBOX_ENC_KEY_def)
  ultimately have "AGENT_ENC_KEY \<noteq> NILBOX_ENC_KEY"
    by auto
  then show ?thesis
    by (simp add: agent_enc_key_def get_enc_key_def)
qed

lemma lift_env_Ok [simp]: "lift_env r = Ok a \<longleftrightarrow> r = Ok a"
  by (cases r) auto

lemma prepare_task_no_run: "RanTask d c \<notin> set (fst (prepare_task g uuid content))"
  by (simp add: prepare_task_def Let_def)

lemma check_payload_Ok:
  assumes "check_payload L env = Ok payload" "\<not> dev_store L"
  shows "\<exists>sig. length sig = 64 \<and> ed_verify L NILBOX_STORE_PUB_KEYID (str_bytes (canonical_json L payload)) sig"
  using assms by (auto simp: check_payload_def get_store_public_key_def Let_def split: if_splits option.splits)

lemma fetch_taskfile_hash:
  "fetch_and_verify_taskfile g url (Some h) = Ok content \<Longrightarrow> h = sha256_hex (ig_lib g) (str_bytes content)"
  by (auto simp: fetch_and_verify_taskfile_def split: if_splits)

lemma installer_fetch_Ok:
  assumes "installer_fetch_manifest g url = Ok (m, sha, a)" "\<not> dev_store (ig_lib g)"
  shows "\<exists>payload sig. index payload ''manifest'' = m \<and> as_str (index payload ''manifest_sha256'') = Some sha
    \<and> length sig = 64 \<and> ed_verify (ig_lib g) NILBOX_STORE_PUB_KEYID (str_bytes (canonical_json (ig_lib g) payload)) sig
    \<and> ig_manifest g m = Some a"
proof -
  obtain raw where "fetch_json g url = Ok raw" "version_of raw = Some 3"
    using assms(1) by (auto simp: installer_fetch_manifest_def split: if_splits)
  then obtain env payload s where p: "check_payload (ig_lib g) env = Ok payload"
    "str_field payload ''manifest_sha256'' = Ok s" "with_manifest g s (index payload ''manifest'') = Ok (m, sha, a)"
    using assms(1) by (auto simp: installer_fetch_manifest_def)
  then have "index payload ''manifest'' = m" "as_str (index payload ''manifest_sha256'') = Some sha" "ig_manifest g m = Some a"
    by (auto simp: with_manifest_def str_field_def split: option.splits)
  then show ?thesis
    using check_payload_Ok [OF p(1) assms(2)] by blast
qed


section \<open>Properties\<close>

text \<open>C39: whatever the network delivers, the interactive installer of a release build runs only a
  taskfile whose hash stands in an application manifest that the store signed in the sense of the
  host's check: both sides compute the same canonical text.\<close>

theorem installer_runs_signed_only:
  assumes "RanTask dir content \<in> set (fst (run_install g random url))"
    and "compact_json (ig_lib g)" "\<not> dev_store (ig_lib g)"
  shows "\<exists>m a. signed_by_store (ig_lib g) m \<and> ig_manifest g m = Some a \<and> am_type a = ''application''
    \<and> am_taskfile_sha256 a = Some (sha256_hex (ig_lib g) (str_bytes content))"
proof -
  obtain t where checks: "installer_checks g url = Ok t" and "t = content"
    using assms(1) prepare_task_no_run [of dir content g _ _]
    by (cases "installer_checks g url") (auto simp: run_install_def Let_def split: prod.splits outcome.splits option.splits,
        (metis fst_conv)+)
  then obtain m sha a h where ms: "installer_fetch_manifest g url = Ok (m, sha, a)"
    "verify_manifest_sha256 (ig_lib g) m sha = Ok ()" "am_type a = ''application''" "am_taskfile_sha256 a = Some h"
    "fetch_and_verify_taskfile g (am_taskfile_url a) (Some h) = Ok content"
    by (auto simp: installer_checks_def split: if_splits option.splits)
  obtain payload sig where p: "index payload ''manifest'' = m" "as_str (index payload ''manifest_sha256'') = Some sha"
    "length sig = 64" "ed_verify (ig_lib g) NILBOX_STORE_PUB_KEYID (str_bytes (canonical_json (ig_lib g) payload)) sig"
    "ig_manifest g m = Some a"
    using installer_fetch_Ok [OF ms(1) assms(3)] by blast
  have "signed_by_store (ig_lib g) m"
    unfolding signed_by_store_def using p ms(2) assms(2)
    by (metis canonical_json_eq verify_manifest_sha256_Ok)
  then show ?thesis
    using p(5) ms(3,4) fetch_taskfile_hash [OF ms(5)] by blast
qed

function plain_json :: "json \<Rightarrow> string" where
  "plain_json (JObj m) = ''{'' @ join '','' (map (\<lambda>(k, v). plain_json (JStr k) @ '':'' @ plain_json v) m) @ ''}''"
| "plain_json (JArr vs) = ''['' @ join '','' (map plain_json vs) @ '']''"
| "plain_json (JStr s) = s"
| "plain_json JNull = ''null''"
| "plain_json (JBool b) = ''b''"
| "plain_json (JNum n) = ''n''"
| "plain_json (JFloat s) = s"
  by pat_completeness auto

lemma size_key_entry: "(k, v) \<in> set m \<Longrightarrow> size (JStr k) < size (JObj m)"
  by (induction m) auto

termination plain_json
  by (relation "measure size") (auto dest: size_json_entry size_json_item size_key_entry)

definition app_json :: json where "app_json = JStr ''app''"

definition sealed_json :: json where
  "sealed_json = JObj [(''version'', JNum 3), (''key_id'', JStr ''nilbox-enc-2026''), (''nonce'', JStr ''n''), (''ciphertext'', JStr ''c'')]"

definition opened_json :: json where
  "opened_json = JObj [(''store_public_key_id'', JStr ''nilbox-store-2026''), (''store_signature'', JStr ''s''),
     (''signed_payload'', JObj [(''manifest_sha256'', JStr ''00''), (''manifest'', app_json)])]"

definition guest_lib :: "json \<Rightarrow> store_lib" where
  "guest_lib doc = \<lparr>store_lib.b64_decode = (\<lambda>s. Some (if s = ''n'' then replicate 12 0 else replicate 64 0)),
     aes_decrypt = (\<lambda>_ _ _. Some []), ed_key_ok = (\<lambda>_. True), ed_verify = (\<lambda>_ _ _. True), sha256_hex = (\<lambda>_. ''00''),
     from_json = (\<lambda>bs. Some (if bs = [] then opened_json else doc)), to_json = plain_json, dev_store = False\<rparr>"

definition demo_guest :: "json \<Rightarrow> string option \<Rightarrow> install_guest" where
  "demo_guest doc h = \<lparr>ig_lib = guest_lib doc, ig_fetch = (\<lambda>_. Answer 200 (Some ''t'')),
     ig_manifest = (\<lambda>m. if m = app_json then Some \<lparr>am_type = ''application'', am_taskfile_url = ''u'',
       am_taskfile_sha256 = h, am_min_disk = None\<rparr> else None),
     ig_statvfs = (\<lambda>_. None), ig_mkdir = (\<lambda>_. True), ig_write = (\<lambda>_. True),
     ig_task = (\<lambda>_ _. Some \<lparr>tr_lines = [(''ok'', False)], tr_exit = Some 0\<rparr>), ig_send = (\<lambda>_. True), ig_os_release = None\<rparr>"

lemma compact_guest_lib: "compact_json (guest_lib doc)"
  by (simp add: compact_json_def guest_lib_def)

lemma fetch_demo:
  "fetch_text (demo_guest doc h) url = Ok ''t''" "fetch_json (demo_guest doc h) url = Ok doc"
  by (simp_all add: fetch_json_def fetch_text_def demo_guest_def guest_lib_def str_bytes_def)

lemma lib_demo: "ig_lib (demo_guest doc h) = guest_lib doc" "sha256_hex (guest_lib doc) bs = ''00''" "\<not> dev_store (guest_lib doc)"
  by (simp_all add: demo_guest_def guest_lib_def)

lemma decrypt_demo: "decrypt_v3 (guest_lib doc) (installer_enc_key (guest_lib doc)) sealed_json = Ok opened_json"
  by (simp add: decrypt_v3_def sealed_json_def str_field_def b64_field_def index_def installer_enc_key_def)
    (simp add: guest_lib_def)

lemma payload_demo: "check_payload (guest_lib doc) opened_json = Ok (JObj [(''manifest_sha256'', JStr ''00''), (''manifest'', app_json)])"
  by (simp add: check_payload_def opened_json_def str_field_def b64_field_def index_def get_store_public_key_def)
    (simp add: guest_lib_def, rule exI [of _ "replicate 64 0"], simp)

lemma installer_demo: "installer_checks (demo_guest sealed_json (Some ''00'')) url = Ok ''t''"
proof -
  have "version_of sealed_json = Some 3"
    by (simp add: sealed_json_def version_of_def)
  then have "installer_fetch_manifest (demo_guest sealed_json (Some ''00'')) url
      = Ok (app_json, ''00'', \<lparr>am_type = ''application'', am_taskfile_url = ''u'', am_taskfile_sha256 = Some ''00'', am_min_disk = None\<rparr>)"
    by (simp add: installer_fetch_manifest_def fetch_demo lib_demo decrypt_demo payload_demo str_field_def index_def with_manifest_def)
      (simp add: demo_guest_def app_json_def)
  then show ?thesis
    by (simp add: installer_checks_def verify_manifest_sha256_def lib_demo fetch_and_verify_taskfile_def fetch_demo)
qed

theorem installer_runs_signed_only_witness:
  "RanTask (work_dir (uuid_v4 (replicate 16 0))) ''t'' \<in> set (fst (run_install (demo_guest sealed_json (Some ''00'')) (replicate 16 0) ''x''))
    \<and> (\<exists>m a. signed_by_store (guest_lib sealed_json) m \<and> ig_manifest (demo_guest sealed_json (Some ''00'')) m = Some a
      \<and> am_type a = ''application'' \<and> am_taskfile_sha256 a = Some ''00'')"
proof -
  have run: "RanTask (work_dir (uuid_v4 (replicate 16 0))) ''t'' \<in> set (fst (run_install (demo_guest sealed_json (Some ''00'')) (replicate 16 0) ''x''))"
    by (simp add: run_install_def installer_demo prepare_task_def Let_def) (simp add: demo_guest_def)
  from installer_runs_signed_only [OF this] show ?thesis
    using run by (simp add: lib_demo compact_guest_lib)
qed

text \<open>C21: the installation that the host starts through the control port checks no signature: it
  accepts a bare document whose only protection is the hash it carries itself, and runs the
  taskfile that comes back without comparing it with anything when the manifest names no hash.\<close>

theorem agent_runs_unsigned_manifest:
  assumes "fetch_json g (app_manifest_url app) = Ok (legacy_document (integrity_hash (ig_lib g) m) m)"
    and "ig_manifest g m = Some a" "am_type a = ''application''" "am_taskfile_sha256 a = None" "am_min_disk a = None"
    and "fetch_text g (am_taskfile_url a) = Ok content" "ig_mkdir g (work_dir uuid)"
    and "ig_write g (work_dir uuid @ ''/Taskfile.yml'')" "ig_task g (work_dir uuid) content = Some r" "compact_json (ig_lib g)"
  shows "\<exists>rp. handle_install_app g msg uuid app vc = Ok rp \<and> RanTask (work_dir uuid) content \<in> set (rp_effects rp)"
proof -
  have "agent_fetch_manifest g (app_manifest_url app) = Ok (m, integrity_hash (ig_lib g) m, a)"
    using assms(1,2) by (simp add: agent_fetch_manifest_def legacy_document_def version_of_def str_field_def index_def with_manifest_def)
  moreover have "verify_manifest_sha256 (ig_lib g) m (integrity_hash (ig_lib g) m) = Ok ()"
    by (simp add: verify_manifest_sha256_Ok assms(10))
  ultimately have "agent_checks g app = Ok content"
    using assms(3-6) by (simp add: agent_checks_def fetch_and_verify_taskfile_def)
  then have "do_install g uuid app = (send_lines g uuid 1 (tr_lines r),
      [MadeDir (work_dir uuid), WroteTaskfile (work_dir uuid) content, RanTask (work_dir uuid) content],
      Ok (tr_exit r = Some 0, case tr_exit r of Some c \<Rightarrow> c | None \<Rightarrow> -1))"
    using assms(7-9) by (simp add: do_install_def run_task_install_def prepare_task_def Let_def)
  then show ?thesis
    by (simp add: handle_install_app_def Let_def)
qed

theorem agent_runs_unsigned_manifest_witness:
  "\<exists>rp. handle_install_app (demo_guest (legacy_document ''00'' app_json) None) (\<lambda>_. []) ''1'' ''x'' None = Ok rp
    \<and> RanTask (work_dir ''1'') ''t'' \<in> set (rp_effects rp)"
proof (rule agent_runs_unsigned_manifest)
  show "fetch_json (demo_guest (legacy_document ''00'' app_json) None) (app_manifest_url ''x'')
      = Ok (legacy_document (integrity_hash (ig_lib (demo_guest (legacy_document ''00'' app_json) None)) app_json) app_json)"
    by (simp add: fetch_demo lib_demo integrity_hash_def)
  show "ig_manifest (demo_guest (legacy_document ''00'' app_json) None) app_json
      = Some \<lparr>am_type = ''application'', am_taskfile_url = ''u'', am_taskfile_sha256 = None, am_min_disk = None\<rparr>"
    by (simp add: demo_guest_def)
  show "ig_task (demo_guest (legacy_document ''00'' app_json) None) (work_dir ''1'') ''t'' = Some \<lparr>tr_lines = [(''ok'', False)], tr_exit = Some 0\<rparr>"
    by (simp add: demo_guest_def)
qed (simp_all add: fetch_demo lib_demo compact_guest_lib, simp_all add: demo_guest_def)

end
