(* ===== verification/Vm_Platform.thy ===== *)
theory Vm_Platform
  imports Vm_Service Aws_SigV4
begin

unbundle bit_operations_syntax

text \<open>
  The two virtualisation platforms of the host, \<open>crates/nilbox-core/src/vm_platform/apple.rs\<close> (the
  \<open>nilbox-vmm\<close> program of macOS, driven by JSON lines) and \<open>qemu.rs\<close>: the status each keeps, the
  command lines, and how the token that the guest's agent asks for is handed over.  The processes
  are parameters: whether they can be started, what they print and how they end.
\<close>

section \<open>Apple Virtualization.framework\<close>

record apple =
  ap_config :: "VmConfig option"
  ap_relay_socket :: string
  ap_relay_token :: bytes
  ap_child :: bool
  ap_stdin :: bool
  ap_status :: VmStatus

definition apple_new :: "bytes \<Rightarrow> apple" where
  "apple_new token = \<lparr>ap_config = None, ap_relay_socket = ''/tmp/nilbox-vsock-relay.sock'', ap_relay_token = token,
     ap_child = False, ap_stdin = False, ap_status = Stopped\<rparr>"

definition set_relay_token :: "bytes \<Rightarrow> apple \<Rightarrow> apple" where
  "set_relay_token token p = p\<lparr>ap_relay_token := token\<rparr>"

definition TOKEN_PARAM :: string where "TOKEN_PARAM = ''nilbox.auth_token=''"

text \<open>The kernel parameters that an earlier start has added.\<close>

definition injected_param :: "string \<Rightarrow> bool" where
  "injected_param p \<longleftrightarrow>
    starts_with p TOKEN_PARAM \<or> starts_with p ''nmi_watchdog='' \<or> starts_with p ''nohz='' \<or> starts_with p ''idle=''
    \<or> starts_with p ''maxcpus='' \<or> starts_with p ''irqaffinity='' \<or> p = ''nosoftlockup'' \<or> p = ''threadirqs''"

definition cmdline_with_token :: "string option \<Rightarrow> string \<Rightarrow> u32 \<Rightarrow> string" where
  "cmdline_with_token app token_hex cpus =
    (let base = (case app of Some a \<Rightarrow> a | None \<Rightarrow> []);
         cleaned = join '' '' (filter (\<lambda>p. \<not> injected_param p) (split_ws base))
     in trim cleaned @ '' '' @ TOKEN_PARAM @ token_hex @ '' nmi_watchdog=0 nosoftlockup threadirqs maxcpus=''
        @ nat_digits (unat cpus))"

definition inject_cmdline_token :: "string \<Rightarrow> apple \<Rightarrow> apple" where
  "inject_cmdline_token token_hex p =
    p\<lparr>ap_config := map_option (\<lambda>c. c\<lparr>vc_append := Some (cmdline_with_token (vc_append c) token_hex (vc_cpus c))\<rparr>) (ap_config p)\<rparr>"

record host_files =
  hf_exists :: "string \<Rightarrow> bool"
  hf_lipo :: "string \<Rightarrow> string option"
  hf_exe_dir :: "string option"
  hf_base :: string
  hf_arch :: string

definition swift_arch_name :: "string \<Rightarrow> string" where
  "swift_arch_name a = (if a = ''aarch64'' then ''arm64'' else if a = ''x86_64'' then ''x86_64'' else a)"

definition binary_supports_current_arch :: "host_files \<Rightarrow> string \<Rightarrow> bool" where
  "binary_supports_current_arch h path =
    (case hf_lipo h path of Some out \<Rightarrow> swift_arch_name (hf_arch h) \<in> set (split_ws out) | None \<Rightarrow> True)"

definition vmm_binary_path :: "host_files \<Rightarrow> string option" where
  "vmm_binary_path h =
    (let arch_path = path_join (hf_base h) (swift_arch_name (hf_arch h) @ ''-apple-macosx/release/nilbox-vmm'');
         generic_path = path_join (hf_base h) ''release/nilbox-vmm''
     in if hf_exists h arch_path then Some arch_path
        else if hf_exists h generic_path \<and> binary_supports_current_arch h generic_path then Some generic_path
        else (case hf_exe_dir h of
                Some d \<Rightarrow>
                  (let bundle_path = path_join d ''nilbox-vmm''
                   in if hf_exists h bundle_path \<and> binary_supports_current_arch h bundle_path then Some bundle_path else None)
              | None \<Rightarrow> None))"

definition json_opt :: "string option \<Rightarrow> json" where
  "json_opt x = (case x of Some s \<Rightarrow> JStr s | None \<Rightarrow> JNull)"

definition start_command :: "apple \<Rightarrow> VmConfig \<Rightarrow> json" where
  "start_command p c =
    JObj [(''cmd'', JStr ''start''),
      (''config'', JObj [
        (''disk_image'', JStr (vc_disk_image c)), (''kernel'', json_opt (vc_kernel c)), (''initrd'', json_opt (vc_initrd c)),
        (''append'', json_opt (vc_append c)), (''memory_mb'', JNum (uint (vc_memory_mb c))), (''cpus'', JNum (uint (vc_cpus c))),
        (''relay_socket'', JStr (ap_relay_socket p)), (''relay_token'', JStr (hex_encode (ap_relay_token p)))])]"

definition stop_command :: json where "stop_command = JObj [(''cmd'', JStr ''stop'')]"

text \<open>A line of the program's output (\<open>None\<close> when it is no JSON): what it does to the status.\<close>

definition vmm_event :: "json option \<Rightarrow> string option" where
  "vmm_event line = Option.bind line (\<lambda>v. Option.bind (jget v ''event'') as_str)"

definition vmm_line :: "json option \<Rightarrow> VmStatus \<Rightarrow> VmStatus" where
  "vmm_line line s =
    (case vmm_event line of
       Some ev \<Rightarrow> if ev = ''started'' then Running else if ev = ''stopped'' then Stopped else if ev = ''error'' then VmError else s
     | None \<Rightarrow> s)"

definition vmm_lines :: "json option list \<Rightarrow> VmStatus \<Rightarrow> VmStatus" where
  "vmm_lines ls s = foldl (\<lambda>s l. vmm_line l s) s ls"

datatype platform_error =
    NoConfig | NotInStoppedState | VmmMissing | SpawnRefused | TryWaitFailed | ExitedEarly | ClosedBeforeReady | NotReady
  | StdinFailed | TokenFileFailed

text \<open>The program of one start: whether it can be started, whether it has ended after 100 ms (\<open>None\<close>
  when that cannot be found out), the lines it prints until it is ready, closes its output or 15
  seconds have passed, and whether it takes the start command.\<close>

record vmm =
  vm_spawn :: bool
  vm_exited :: "bool option"
  vm_lines :: "json option list"
  vm_closed :: bool
  vm_takes :: bool

text \<open>The state after the start, with the command that was written.\<close>

definition apple_start :: "host_files \<Rightarrow> vmm \<Rightarrow> apple \<Rightarrow> apple \<times> (platform_error, json) outcome" where
  "apple_start h x p =
    (case ap_config p of
       None \<Rightarrow> (p, Err NoConfig)
     | Some c \<Rightarrow>
         if ap_status p \<noteq> Stopped \<and> ap_status p \<noteq> VmError then (p, Err NotInStoppedState)
         else
           let p1 = p\<lparr>ap_status := Starting\<rparr>
           in if vmm_binary_path h = None then (p1, Err VmmMissing)
              else if \<not> vm_spawn x then (p1, Err SpawnRefused)
              else (case vm_exited x of
                      None \<Rightarrow> (p1, Err TryWaitFailed)
                    | Some True \<Rightarrow> (p1, Err ExitedEarly)
                    | Some False \<Rightarrow>
                        (let p2 = p1\<lparr>ap_status := vmm_lines (vm_lines x) Starting\<rparr>
                         in if \<not> (\<exists>l \<in> set (vm_lines x). vmm_event l = Some ''ready'') then
                              (if vm_closed x then (p2\<lparr>ap_status := Stopped\<rparr>, Err ClosedBeforeReady) else (p2, Err NotReady))
                            else if \<not> vm_takes x then (p2, Err StdinFailed)
                            else (p2\<lparr>ap_stdin := True, ap_child := True\<rparr>, Ok (start_command p c)))))"

text \<open>What the reader of the output does afterwards; \<open>None\<close> is the end of the output.\<close>

definition apple_output :: "json option option \<Rightarrow> apple \<Rightarrow> apple" where
  "apple_output l p = p\<lparr>ap_status := (case l of Some line \<Rightarrow> vmm_line line (ap_status p) | None \<Rightarrow> Stopped)\<rparr>"

text \<open>Stopping never fails; the second component is what was written to the program.\<close>

definition apple_stop :: "apple \<Rightarrow> apple \<times> json list" where
  "apple_stop p =
    (if ap_status p = Stopped then (p, [])
     else (p\<lparr>ap_stdin := False, ap_child := False, ap_status := Stopped\<rparr>, if ap_stdin p then [stop_command] else []))"


section \<open>QEMU\<close>

datatype host_os = MacOS | Linux | Windows | OtherOS

record qemu =
  qm_config :: "VmConfig option"
  qm_stop_tx :: bool
  qm_status :: VmStatus
  qm_binary :: "string option"
  qm_token :: "string option"

definition qemu_new :: "string option \<Rightarrow> qemu" where
  "qemu_new binary = \<lparr>qm_config = None, qm_stop_tx = False, qm_status = Stopped, qm_binary = binary, qm_token = None\<rparr>"

definition inject_fw_cfg_token :: "string \<Rightarrow> qemu \<Rightarrow> qemu" where
  "inject_fw_cfg_token token_hex q = q\<lparr>qm_token := Some token_hex\<rparr>"

definition QEMU_VSOCK_PORT :: nat where "QEMU_VSOCK_PORT = 19522"

definition machine_args :: "host_os \<Rightarrow> string \<Rightarrow> string list" where
  "machine_args os arch =
    (case os of
       MacOS \<Rightarrow> if arch = ''aarch64'' then [''-machine'', ''virt,accel=hvf,highmem=on'', ''-cpu'', ''host'']
                else if arch = ''x86_64'' then [''-machine'', ''q35,accel=hvf'', ''-cpu'', ''host''] else []
     | Linux \<Rightarrow> [''-machine'', ''pc,accel=kvm'', ''-cpu'', ''host'']
     | Windows \<Rightarrow> [''-accel'', ''whpx,kernel-irqchip=off'', ''-cpu'', ''qemu64'', ''-machine'', ''q35'']
     | OtherOS \<Rightarrow> [])"

definition kernel_args :: "host_os \<Rightarrow> VmConfig \<Rightarrow> string list" where
  "kernel_args os c =
    (case vc_kernel c of
       None \<Rightarrow> []
     | Some k \<Rightarrow>
         [''-kernel'', k]
         @ (case vc_initrd c of Some i \<Rightarrow> [''-initrd'', i] | None \<Rightarrow> [])
         @ (case vc_append c of
              Some a \<Rightarrow> [''-append'', if os = Linux then replace_all a ''console=hvc0'' ''console=ttyS0'' else a]
            | None \<Rightarrow> []))"

definition build_args :: "host_os \<Rightarrow> string \<Rightarrow> (string \<Rightarrow> bool) \<Rightarrow> VmConfig \<Rightarrow> string list" where
  "build_args os arch exists c =
    machine_args os arch
    @ [''-m'', nat_digits (unat (vc_memory_mb c)) @ ''M'', ''-smp'', nat_digits (unat (vc_cpus c)),
       ''-display'', ''none'', ''-serial'', ''stdio'']
    @ kernel_args os c
    @ (if exists (vc_disk_image c)
       then [''-drive'', ''file='' @ vc_disk_image c @ (if os = Linux \<or> os = Windows then '',format=raw'' else []) @ '',if=virtio'']
       else [])
    @ [''-nic'', if os = Linux then ''user'' else ''none'']
    @ (if os = Linux then [''-device'', ''vhost-vsock-pci,guest-cid=3'']
       else if os = Windows then
         [''-device'', ''virtio-serial-pci'',
          ''-chardev'', ''socket,id=vsock0,host=127.0.0.1,port='' @ nat_digits QEMU_VSOCK_PORT,
          ''-device'', ''virtserialport,chardev=vsock0,name=run.nilbox.vsock'']
       else [])"

definition qemu_binary_name :: "string \<Rightarrow> string" where
  "qemu_binary_name arch = (if arch = ''aarch64'' then ''qemu-system-aarch64'' else ''qemu-system-x86_64'')"

definition resolve_binary :: "string \<Rightarrow> qemu \<Rightarrow> string" where
  "resolve_binary arch q = (case qm_binary q of Some path \<Rightarrow> path | None \<Rightarrow> qemu_binary_name arch)"

text \<open>The host of one start: \<open>qe_parent\<close> is \<open>Path::parent\<close> of the operating system, \<open>qe_write\<close> says
  whether a file can be written.\<close>

record qemu_env =
  qe_os :: host_os
  qe_arch :: string
  qe_exists :: "string \<Rightarrow> bool"
  qe_parent :: "string \<Rightarrow> string option"
  qe_tmp :: string
  qe_write :: "string \<Rightarrow> bool"
  qe_spawn :: bool

text \<open>What a start does: the token file written, whether it will be removed, and the program run.\<close>

datatype qemu_effect = WroteToken string string | RemovesToken string | RanQemu string "string list"

definition rom_args :: "qemu_env \<Rightarrow> qemu \<Rightarrow> string list" where
  "rom_args e q =
    (case qe_parent e (resolve_binary (qe_arch e) q) of
       Some dir \<Rightarrow>
         if qe_os e = Windows \<or> qe_os e = Linux \<and> qm_binary q \<noteq> None \<and> dir \<noteq> [] then [''-L'', dir] else []
     | None \<Rightarrow> [])"

text \<open>The name of the token file; a token shorter than eight characters panics.\<close>

definition token_path :: "qemu_env \<Rightarrow> string \<Rightarrow> string" where
  "token_path e token_hex = path_join (qe_tmp e) (''nilbox-auth-'' @ take 8 token_hex @ ''.hex'')"

definition uses_fw_cfg :: "host_os \<Rightarrow> bool" where "uses_fw_cfg os \<longleftrightarrow> os = Windows \<or> os = Linux"

definition run_qemu ::
  "qemu_env \<Rightarrow> string list \<Rightarrow> string option \<Rightarrow> qemu_effect list \<Rightarrow> qemu \<Rightarrow> qemu \<times> qemu_effect list \<times> (platform_error, unit) outcome" where
  "run_qemu e args file fx q =
    (if \<not> qe_spawn e then (q\<lparr>qm_status := VmError\<rparr>, fx, Err SpawnRefused)
     else (q\<lparr>qm_stop_tx := True, qm_status := Running\<rparr>,
           fx @ [RanQemu (resolve_binary (qe_arch e) q) args] @ (case file of Some f \<Rightarrow> [RemovesToken f] | None \<Rightarrow> []), Ok ()))"

definition qemu_start :: "qemu_env \<Rightarrow> qemu \<Rightarrow> qemu \<times> qemu_effect list \<times> (platform_error, unit) outcome" where
  "qemu_start e q =
    (case qm_config q of
       None \<Rightarrow> (q, [], Err NoConfig)
     | Some c \<Rightarrow>
         if qm_status q \<noteq> Stopped \<and> qm_status q \<noteq> VmError then (q, [], Err NotInStoppedState)
         else
           let q1 = q\<lparr>qm_status := Starting\<rparr>;
               args = rom_args e q @ build_args (qe_os e) (qe_arch e) (qe_exists e) c
           in (case qm_token q of
                 Some t \<Rightarrow>
                   if \<not> uses_fw_cfg (qe_os e) then run_qemu e args None [] q1
                   else if length t < 8 then (q1, [], Panic)
                   else if \<not> qe_write e (token_path e t) then (q1, [], Err TokenFileFailed)
                   else run_qemu e (args @ [''-fw_cfg'', ''name=opt/nilbox/auth_token,file='' @ token_path e t])
                          (Some (token_path e t)) [WroteToken (token_path e t) t] q1
               | None \<Rightarrow> run_qemu e args None [] q1))"

text \<open>The task that waits for the program: it ends with an exit code, or waiting fails, or a stop
  is asked for.  The start itself sets the status to running once the task is on its way, so
  the two writes may come in either order.\<close>

datatype qemu_end = Exit "int option" | WaitFailed | StopAsked

definition monitor_status :: "qemu_end \<Rightarrow> VmStatus" where
  "monitor_status x = (case x of Exit c \<Rightarrow> if c = Some 0 then Stopped else VmError | WaitFailed \<Rightarrow> VmError | StopAsked \<Rightarrow> Stopped)"

datatype status_write = MarkRunning | Monitor qemu_end

definition status_writes :: "status_write list \<Rightarrow> VmStatus \<Rightarrow> VmStatus" where
  "status_writes ws s = foldl (\<lambda>_ w. case w of MarkRunning \<Rightarrow> Running | Monitor x \<Rightarrow> monitor_status x) s ws"

text \<open>\<open>alive\<close> says whether the waiting task still listens; then it will set the status.\<close>

definition qemu_stop :: "bool \<Rightarrow> qemu \<Rightarrow> qemu" where
  "qemu_stop alive q =
    (if qm_status q = Stopped then q
     else if qm_stop_tx q then q\<lparr>qm_stop_tx := False, qm_status := (if alive then Stopping else Stopped)\<rparr>
     else q\<lparr>qm_status := Stopped\<rparr>)"

end
