(* ===== verification/Vm_Agent.thy ===== *)
theory Vm_Agent
  imports Vm_Platform
begin

text \<open>
  The start of the guest's agent, \<open>vm-agent/src/main.rs\<close>, and the relay of macOS hosts,
  \<open>crates/nilbox-core/src/vsock/apple.rs\<close>: both ends prove themselves with a token of 32 bytes that
  the host draws for every start.  Text is held as its UTF-8 bytes; cutting it inside a
  character panics.  The commands that set up the network are given as the lists that are run.
\<close>

unbundle bit_operations_syntax

section \<open>The token\<close>

definition hex_value_of :: "char \<Rightarrow> nat option" where
  "hex_value_of c =
    (let n = of_char c
     in if 48 \<le> n \<and> n \<le> 57 then Some (n - 48)
        else if 97 \<le> n \<and> n \<le> 102 then Some (n - 87)
        else if 65 \<le> n \<and> n \<le> 70 then Some (n - 55)
        else None)"

text \<open>\<open>u8::from_str_radix(s, 16)\<close> on two characters: a leading plus sign is accepted.\<close>

definition radix16 :: "char \<Rightarrow> char \<Rightarrow> byte option" where
  "radix16 a b =
    (if a = CHR ''+'' then map_option of_nat (hex_value_of b)
     else Option.bind (hex_value_of a) (\<lambda>x. map_option (\<lambda>y. of_nat (16 * x + y)) (hex_value_of b)))"

definition cont_char :: "char \<Rightarrow> bool" where "cont_char c \<longleftrightarrow> is_cont (of_nat (of_char c))"

fun hex_pairs :: "string \<Rightarrow> (unit, bytes) outcome" where
  "hex_pairs (a # b # s) =
    (if (case s of c # _ \<Rightarrow> cont_char c | [] \<Rightarrow> False) then Panic
     else (case radix16 a b of
             None \<Rightarrow> Err ()
           | Some v \<Rightarrow> and_then (hex_pairs s) (\<lambda>bs. Ok (v # bs))))"
| "hex_pairs s = Ok []"

definition parse_hex_token :: "string \<Rightarrow> (unit, bytes) outcome" where
  "parse_hex_token hex = (if length hex \<noteq> 64 then Err () else hex_pairs hex)"

definition constant_time_eq :: "bytes \<Rightarrow> bytes \<Rightarrow> bool" where
  "constant_time_eq a b =
    (if length b \<noteq> 32 then False
     else foldl (\<lambda>diff i. diff OR (a ! i XOR b ! i)) 0 [0..<32] = 0)"

datatype token_error = TokenTimedOut | TokenNotFound

text \<open>The parameters of the kernel's command line, from the left.\<close>

fun token_from_params :: "string list \<Rightarrow> (token_error, bytes option) outcome" where
  "token_from_params [] = Ok None"
| "token_from_params (p # ps) =
    (case strip_prefix p TOKEN_PARAM of
       None \<Rightarrow> token_from_params ps
     | Some hex \<Rightarrow>
         (case parse_hex_token hex of
            Ok t \<Rightarrow> Ok (Some t) | Err _ \<Rightarrow> token_from_params ps | Panic \<Rightarrow> Panic))"

text \<open>\<open>cmdline\<close> is \<open>/proc/cmdline\<close>; \<open>fw_cfg\<close> is the file of the firmware, if it can be read within two
  seconds.\<close>

definition read_auth_token :: "string option \<Rightarrow> string option \<Rightarrow> (token_error, bytes) outcome" where
  "read_auth_token cmdline fw_cfg =
    and_then (case cmdline of Some c \<Rightarrow> token_from_params (split_ws c) | None \<Rightarrow> Ok None) (\<lambda>found.
    case found of
      Some t \<Rightarrow> Ok t
    | None \<Rightarrow>
        (case fw_cfg of
           None \<Rightarrow> Err TokenTimedOut
         | Some d \<Rightarrow> (case parse_hex_token (trim d) of Ok t \<Rightarrow> Ok t | Err _ \<Rightarrow> Err TokenNotFound | Panic \<Rightarrow> Panic)))"


section \<open>Network\<close>

definition detect_virtio_serial :: "(string \<Rightarrow> bool) \<Rightarrow> string option" where
  "detect_virtio_serial exists =
    (if exists ''/dev/virtio-ports/run.nilbox.vsock'' then Some ''/dev/virtio-ports/run.nilbox.vsock''
     else if exists ''/dev/vport0p1'' then Some ''/dev/vport0p1'' else None)"

definition modprobe :: "(string \<Rightarrow> bool) \<Rightarrow> string" where
  "modprobe exists = (if exists ''/sbin/modprobe'' then ''/sbin/modprobe'' else ''modprobe'')"

definition words_of :: "string \<Rightarrow> string list" where "words_of s = split_ws s"

definition setup_dummy_route :: "(string \<Rightarrow> bool) \<Rightarrow> string list list" where
  "setup_dummy_route exists =
    [modprobe exists, ''dummy''] #
    map (\<lambda>args. (if exists ''/sbin/ip'' then ''/sbin/ip'' else ''ip'') # words_of args)
      [''link add dummy0 type dummy'', ''link set dummy0 up'', ''addr add 10.0.0.1/24 dev dummy0'',
       ''route add default via 10.0.0.1 dev dummy0'']"

definition setup_iptables :: "(string \<Rightarrow> bool) \<Rightarrow> (string list \<Rightarrow> bool) \<Rightarrow> string list list" where
  "setup_iptables exists works =
    (let iptables = (if exists ''/usr/sbin/iptables-legacy'' then ''/usr/sbin/iptables-legacy''
                     else if exists ''/sbin/iptables-legacy'' then ''/sbin/iptables-legacy'' else ''iptables'');
         cmd = (\<lambda>args. iptables # words_of args);
         rules = [cmd ''-t nat -A OUTPUT -p tcp -d 127.0.0.0/8 -j RETURN'',
                  cmd ''-t nat -A OUTPUT -p tcp -j REDIRECT --to-port 18088'']
     in map (\<lambda>m. [modprobe exists, m]) [''ip_tables'', ''iptable_nat'', ''nf_nat'', ''nf_conntrack'', ''xt_REDIRECT'']
        @ [cmd ''-t nat -F OUTPUT''] @ rules
        @ (if list_all works rules then [cmd ''-t nat -L OUTPUT -n --line-numbers''] else []))"


section \<open>Connections\<close>

text \<open>What reading the connection gives: a piece (never empty on the transports used), or an error.\<close>

datatype chunk = Chunk bytes | ReadError

text \<open>The token and what is left to read; the pieces run out when ten seconds are over.\<close>

fun read_token :: "bytes \<Rightarrow> chunk list \<Rightarrow> bytes option \<times> chunk list" where
  "read_token buf cs =
    (if 32 \<le> length buf then (Some buf, cs)
     else (case cs of
             [] \<Rightarrow> (None, [])
           | ReadError # r \<Rightarrow> (None, r)
           | Chunk c # r \<Rightarrow> if c = [] then (None, r) else read_token (buf @ c) r))"

declare read_token.simps [simp del]

text \<open>The pieces that the multiplexer gets, when the token is right: what came in the same piece after
  the token is dropped.\<close>

definition authenticate :: "bytes \<Rightarrow> chunk list \<Rightarrow> chunk list option" where
  "authenticate expected cs =
    (case read_token [] cs of
       (Some buf, r) \<Rightarrow> if constant_time_eq expected (take 32 buf) then Some r else None
     | (None, _) \<Rightarrow> None)"

record agent =
  ag_token :: bytes
  ag_mux :: "(nat \<times> chunk list) option"
  ag_rejected :: "nat list"

datatype agent_event = Connection nat "chunk list" | ConnectionClosed | AcceptFailed

definition agent_start :: "string option \<Rightarrow> string option \<Rightarrow> (token_error, agent) outcome" where
  "agent_start cmdline fw_cfg =
    and_then (read_auth_token cmdline fw_cfg) (\<lambda>t. Ok \<lparr>ag_token = t, ag_mux = None, ag_rejected = []\<rparr>)"

fun agent_step :: "agent_event \<Rightarrow> agent \<Rightarrow> agent" where
  "agent_step (Connection n cs) a =
    (if ag_mux a \<noteq> None then a\<lparr>ag_rejected := n # ag_rejected a\<rparr>
     else (case authenticate (ag_token a) cs of
             None \<Rightarrow> a\<lparr>ag_rejected := n # ag_rejected a\<rparr>
           | Some r \<Rightarrow> a\<lparr>ag_mux := Some (n, r)\<rparr>))"
| "agent_step ConnectionClosed a = a\<lparr>ag_mux := None\<rparr>"
| "agent_step AcceptFailed a = a"

definition agent_run :: "agent_event list \<Rightarrow> agent \<Rightarrow> agent" where
  "agent_run evs a = foldl (\<lambda>a e. agent_step e a) a evs"


section \<open>The relay on macOS\<close>

text \<open>The helper program connects to a socket of the host: a token, the port, then the data.\<close>

datatype relay_error = RelayClosed | RelayMismatch

definition relay_accept :: "bytes \<Rightarrow> bytes \<Rightarrow> (relay_error, u32 \<times> bytes) outcome" where
  "relay_accept expected dat =
    (if length dat < 32 then Err RelayClosed
     else if \<not> constant_time_eq (take 32 dat) expected then Err RelayMismatch
     else if length dat < 36 then Err RelayClosed
     else Ok (u32_from_be (take 4 (drop 32 dat)), drop 36 dat))"


section \<open>Lemmas\<close>

lemma constant_time_eq_iff: "length a = 32 \<Longrightarrow> constant_time_eq a b \<longleftrightarrow> b = a"
proof -
  assume a: "length a = 32"
  have fold: "foldl (\<lambda>diff i. diff OR (a ! i XOR b ! i)) d is = 0 \<longleftrightarrow> d = 0 \<and> (\<forall>i \<in> set is. a ! i = b ! i)" for d and "is" :: "nat list"
    by (induction "is" arbitrary: d) (auto simp: bit_eq_iff bit_simps)
  show ?thesis
    using a by (auto simp: constant_time_eq_def fold list_eq_iff_nth_eq)
qed

lemma hex_value_of_digit: "n < 16 \<Longrightarrow> hex_value_of (hex_digit False n) = Some n"
  by (auto simp: hex_value_of_def hex_digit_def)

lemma of_char_hex_digit:
  "n < 16 \<Longrightarrow> (of_char (hex_digit False n) :: nat) = (if n < 10 then 48 + n else 87 + n)"
  by (auto simp: hex_digit_def)

lemma ascii_not_cont_char: "(of_char c :: nat) < 128 \<Longrightarrow> \<not> cont_char c"
  unfolding cont_char_def by (rule ascii_not_cont) (simp add: word_le_nat_alt unat_byte_of_nat)

lemma hex_digit_ascii:
  assumes "n < 16"
  shows "\<not> cont_char (hex_digit False n)" "hex_digit False n \<noteq> CHR ''+''" "\<not> is_space (hex_digit False n)"
proof -
  have v: "(of_char (hex_digit False n) :: nat) = (if n < 10 then 48 + n else 87 + n)"
    by (rule of_char_hex_digit [OF assms])
  then show "\<not> cont_char (hex_digit False n)"
    using assms by (intro ascii_not_cont_char) simp
  show "hex_digit False n \<noteq> CHR ''+''"
  proof
    assume "hex_digit False n = CHR ''+''"
    with v show False
      by (simp split: if_splits)
  qed
  show "\<not> is_space (hex_digit False n)"
    using v by (simp add: is_space_def)
qed

lemma radix16_hex_byte: "radix16 (hex_digit False (unat v div 16)) (hex_digit False (unat v mod 16)) = Some (v :: byte)"
proof -
  have "unat v div 16 < 16" "unat v mod 16 < 16"
    using unat_bound [of v] by (auto simp: less_mult_imp_div_less)
  then show ?thesis
    by (simp only: radix16_def hex_digit_ascii hex_value_of_digit if_False bind.simps option.map mult_div_mod_eq of_nat_unat_byte)
qed

lemma hex_encode_simps [simp]:
  "hex_encode [] = []"
  "hex_encode (v # bs) = hex_digit False (unat v div 16) # hex_digit False (unat v mod 16) # hex_encode bs"
  by (simp_all add: hex_encode_def hex_byte_def)

lemma hex_encode_chars: "c \<in> set (hex_encode bs) \<Longrightarrow> \<exists>n<16. c = hex_digit False n"
proof (induction bs)
  case (Cons v bs)
  have "unat v div 16 < 16" "unat v mod 16 < 16"
    using unat_bound [of v] by (auto simp: less_mult_imp_div_less)
  with Cons show ?case
    by (metis hex_encode_simps(2) set_ConsD)
qed simp

lemma length_hex_encode [simp]: "length (hex_encode bs) = 2 * length bs"
  by (induction bs) simp_all

lemma hex_pairs_encode: "hex_pairs (hex_encode bs) = Ok bs"
proof (induction bs)
  case (Cons v bs)
  have "\<not> (case hex_encode bs of c # _ \<Rightarrow> cont_char c | [] \<Rightarrow> False)"
    using hex_encode_chars [of _ bs] hex_digit_ascii(1) by (fastforce split: list.splits)
  with Cons show ?case
    by (simp add: radix16_hex_byte)
qed simp

lemma parse_hex_token_encode: "length t = 32 \<Longrightarrow> parse_hex_token (hex_encode t) = Ok t"
  by (simp add: parse_hex_token_def hex_pairs_encode)

text \<open>Splitting at white space.\<close>

definition word :: "string \<Rightarrow> bool" where "word w \<longleftrightarrow> w \<noteq> [] \<and> (\<forall>c \<in> set w. \<not> is_space c)"

lemma split_ws_word:
  "word w \<Longrightarrow> split_ws (w @ CHR '' '' # s) = w # split_ws s"
proof (induction w)
  case (Cons c w)
  have sp: "is_space CHR '' ''"
    by (simp add: is_space_def)
  show ?case
  proof (cases w)
    case Nil
    then show ?thesis
      using Cons sp by (simp add: word_def)
  next
    case (Cons d v)
    then show ?thesis
      using Cons.IH Cons.prems by (simp add: word_def)
  qed
qed (simp add: word_def)

lemma split_ws_words: "list_all word (split_ws s)"
proof (induction s)
  case (Cons c s)
  show ?case
  proof (cases "is_space c \<or> s = []")
    case True
    then show ?thesis
      using Cons by (auto simp: word_def)
  next
    case False
    then obtain d r where "s = d # r" "\<not> is_space c"
      by (cases s) auto
    then show ?thesis
      using Cons by (cases "split_ws s") (auto simp del: split_ws.simps(2) simp: split_ws.simps(2) [of c] word_def)
  qed
qed simp

lemma split_ws_join:
  "list_all word ws \<Longrightarrow>
   split_ws (join '' '' ws @ CHR '' '' # s) = ws @ split_ws s"
proof (induction ws)
  case Nil
  then show ?case
    by (simp add: is_space_def)
next
  case (Cons w ws)
  then show ?case
    by (cases ws) (auto simp: split_ws_word)
qed

lemma word_hex_encode: "bs \<noteq> [] \<Longrightarrow> word (hex_encode bs)"
  unfolding word_def using hex_encode_chars [of _ bs] hex_digit_ascii(3) length_hex_encode [of bs] by fastforce

lemma trim_id: "s = [] \<or> \<not> is_space (hd s) \<and> \<not> is_space (last s) \<Longrightarrow> trim s = s"
proof -
  have "dropWhile is_space r = r" if "r = [] \<or> \<not> is_space (hd r)" for r
    using that by (cases r) auto
  moreover assume "s = [] \<or> \<not> is_space (hd s) \<and> \<not> is_space (last s)"
  ultimately show ?thesis
    by (cases "s = []") (simp_all add: trim_def trim_start_def trim_end_def hd_rev)
qed

lemma trim_word: "word w \<Longrightarrow> trim w = w"
  by (rule trim_id) (auto simp: word_def)

lemma join_words_ends: "list_all word ws \<Longrightarrow> ws \<noteq> [] \<Longrightarrow> join '' '' ws \<noteq> [] \<and> \<not> is_space (hd (join '' '' ws)) \<and> \<not> is_space (last (join '' '' ws))"
proof (induction ws)
  case (Cons w ws)
  then have "word w"
    by simp
  then show ?case
    using Cons by (cases ws) (auto simp: word_def)
qed simp

lemma trim_join_words: "list_all word ws \<Longrightarrow> trim (join '' '' ws) = join '' '' ws"
  using join_words_ends [of ws] by (intro trim_id) (cases ws; auto)

lemma token_from_params_skip:
  "\<forall>w \<in> set ws. \<not> starts_with w TOKEN_PARAM \<Longrightarrow> token_from_params (ws @ ps) = token_from_params ps"
  by (induction ws) (auto simp: strip_prefix_def)

lemma token_param_word: "word v \<Longrightarrow> word (TOKEN_PARAM @ v)"
  by (auto simp: word_def TOKEN_PARAM_def is_space_def)

lemma cmdline_token:
  assumes "length t = 32"
  shows "token_from_params (split_ws (cmdline_with_token app (hex_encode t) n @ s)) = Ok (Some t)"
proof -
  define ws where "ws = filter (\<lambda>p. \<not> injected_param p) (split_ws (case app of Some a \<Rightarrow> a | None \<Rightarrow> []))"
  define r where "r = ''nmi_watchdog=0 nosoftlockup threadirqs maxcpus='' @ nat_digits (unat n) @ s"
  have ws: "list_all word ws" "\<forall>w \<in> set ws. \<not> starts_with w TOKEN_PARAM"
    using split_ws_words by (auto simp: ws_def list_all_iff injected_param_def)
  have t: "word (TOKEN_PARAM @ hex_encode t)"
    using assms by (intro token_param_word word_hex_encode) auto
  have "cmdline_with_token app (hex_encode t) n @ s = join '' '' ws @ CHR '' '' # (TOKEN_PARAM @ hex_encode t) @ CHR '' '' # r"
    by (simp add: cmdline_with_token_def Let_def trim_join_words ws(1) r_def flip: ws_def)
  then have "split_ws (cmdline_with_token app (hex_encode t) n @ s) = ws @ (TOKEN_PARAM @ hex_encode t) # split_ws r"
    by (simp only: split_ws_join [OF ws(1)] split_ws_word [OF t])
  then show ?thesis
    by (simp add: token_from_params_skip [OF ws(2)] strip_prefix_def starts_with_iff parse_hex_token_encode assms)
qed

lemma hex_pairs_length: "hex_pairs s = Ok bs \<Longrightarrow> length bs = length s div 2"
  by (induction s arbitrary: bs rule: hex_pairs.induct) (auto split: if_splits option.splits)

lemma parse_hex_token_length: "parse_hex_token s = Ok t \<Longrightarrow> length t = 32"
  by (auto simp: parse_hex_token_def dest: hex_pairs_length split: if_splits)

lemma token_from_params_length: "token_from_params ps = Ok (Some t) \<Longrightarrow> length t = 32"
  by (induction ps) (auto dest: parse_hex_token_length split: option.splits outcome.splits)

lemma read_auth_token_length: "read_auth_token cmdline fw_cfg = Ok t \<Longrightarrow> length t = 32"
  by (auto simp: read_auth_token_def dest: token_from_params_length parse_hex_token_length split: option.splits outcome.splits)

lemma read_token_pieces:
  "[] \<notin> set ds \<Longrightarrow> length (buf @ concat ds) = 32 \<Longrightarrow> read_token buf (map Chunk ds @ r) = (Some (buf @ concat ds), r)"
proof (induction ds arbitrary: buf)
  case Nil
  then show ?case
    by (simp add: read_token.simps)
next
  case (Cons d ds)
  then have "d \<noteq> []" "length buf + length d \<le> 32"
    by auto
  then have "length buf < 32" "d \<noteq> []"
    by (cases d; simp)+
  then show ?case
    using Cons by (subst read_token.simps) simp
qed

lemma read_token_Some:
  "read_token buf cs = (Some b, r) \<Longrightarrow> \<exists>ds. cs = map Chunk ds @ r \<and> b = buf @ concat ds \<and> 32 \<le> length b"
proof (induction buf cs rule: read_token.induct)
  case (1 buf cs)
  show ?case
  proof (cases "32 \<le> length buf")
    case True
    then show ?thesis
      using 1(2) by (auto simp: read_token.simps)
  next
    case False
    then obtain c s where c: "cs = Chunk c # s" "c \<noteq> []" "read_token (buf @ c) s = (Some b, r)"
      using 1(2) by (subst (asm) read_token.simps) (auto split: list.splits chunk.splits if_splits)
    then obtain ds where "s = map Chunk ds @ r" "b = (buf @ c) @ concat ds" "32 \<le> length b"
      using 1(1) [OF False] by blast
    then show ?thesis
      using c by (intro exI [of _ "c # ds"]) simp
  qed
qed

lemma authenticate_pieces:
  "length t = 32 \<Longrightarrow> [] \<notin> set ds \<Longrightarrow> concat ds = t \<Longrightarrow> authenticate t (map Chunk ds @ r) = Some r"
  by (simp add: authenticate_def read_token_pieces constant_time_eq_iff)

lemma authenticate_Some:
  assumes "authenticate t cs = Some r" "length t = 32"
  shows "\<exists>ds. cs = map Chunk ds @ r \<and> take 32 (concat ds) = t"
proof -
  obtain b where b: "read_token [] cs = (Some b, r)" "constant_time_eq t (take 32 b)"
    using assms(1) by (auto simp: authenticate_def split: prod.splits option.splits if_splits)
  then show ?thesis
    using read_token_Some [OF b(1)] constant_time_eq_iff [OF assms(2)] by auto
qed


section \<open>Properties\<close>

text \<open>on a macOS host the token of a start, put on the kernel's command line whatever an earlier start
  left there, is the one the agent reads back, and the agent then accepts the connection on which
  the host sends it, in whatever pieces it arrives, and goes on with what follows.\<close>

theorem agent_accepts_host:
  assumes "length t = 32" "ap_config p = Some c" "concat ds = t" "[] \<notin> set ds"
  shows "\<exists>c' cmd a. ap_config (inject_cmdline_token (hex_encode t) p) = Some c' \<and> vc_append c' = Some cmd
    \<and> agent_start (Some (cmd @ [CHR 0x0A])) fw_cfg = Ok a
    \<and> ag_mux (agent_step (Connection n (map Chunk ds @ rest)) a) = Some (n, rest)"
  using assms by (simp add: inject_cmdline_token_def agent_start_def read_auth_token_def cmdline_token authenticate_pieces)

theorem agent_accepts_host_witness:
  "\<exists>c' cmd a. ap_config (inject_cmdline_token (hex_encode (replicate 32 7)) ((apple_new [])\<lparr>ap_config := Some
      \<lparr>vc_disk_image = ''d'', vc_kernel = None, vc_initrd = None, vc_append = Some ''nilbox.auth_token=0'', vc_memory_mb = 512, vc_cpus = 2\<rparr>\<rparr>)) = Some c'
    \<and> vc_append c' = Some cmd \<and> agent_start (Some (cmd @ [CHR 0x0A])) None = Ok a
    \<and> ag_mux (agent_step (Connection 0 (map Chunk [replicate 30 7, replicate 2 7] @ [Chunk [1]])) a) = Some (0, [Chunk [1]])"
  by (rule agent_accepts_host) (simp_all flip: replicate_add)

text \<open>C9: whatever connections are tried in whatever order, the one the agent serves has delivered the
  agent's token first, and the multiplexer gets exactly the pieces after it.\<close>

theorem agent_serves_token_holder:
  assumes "agent_start cmdline fw_cfg = Ok a" "ag_mux (agent_run evs a) = Some (n, r)"
  shows "\<exists>ds. Connection n (map Chunk ds @ r) \<in> set evs \<and> take 32 (concat ds) = ag_token a"
proof -
  have len: "length (ag_token a) = 32" and none: "ag_mux a = None"
    using assms(1) by (auto simp: agent_start_def dest: read_auth_token_length)
  have token: "ag_token (agent_run evs a) = ag_token a" for evs
  proof (induction evs rule: rev_induct)
    case (snoc e evs)
    then show ?case
      by (cases e) (auto simp: agent_run_def split: option.splits)
  qed (simp add: agent_run_def)
  from assms(2) show ?thesis
  proof (induction evs arbitrary: n r rule: rev_induct)
    case Nil
    then show ?case
      using none by (simp add: agent_run_def)
  next
    case (snoc e evs)
    have step: "agent_run (evs @ [e]) a = agent_step e (agent_run evs a)"
      by (simp add: agent_run_def)
    show ?case
    proof (cases "ag_mux (agent_run evs a) = Some (n, r)")
      case True
      then show ?thesis
        using snoc.IH by auto
    next
      case False
      then obtain cs where "e = Connection n cs" "authenticate (ag_token a) cs = Some r"
        using snoc.prems unfolding step by (cases e) (auto simp: token split: if_splits option.splits)
      then show ?thesis
        using authenticate_Some [OF _ len] by fastforce
    qed
  qed
qed

definition sample_token :: bytes where "sample_token = replicate 32 7"

lemma sample_start: "agent_start (Some (cmdline_with_token None (hex_encode sample_token) 2)) None
    = Ok \<lparr>ag_token = sample_token, ag_mux = None, ag_rejected = []\<rparr>"
  using cmdline_token [of sample_token None 2 "[]"] by (simp add: agent_start_def read_auth_token_def sample_token_def)

theorem agent_serves_token_holder_witness:
  "\<exists>ds. Connection 1 (map Chunk ds @ [Chunk [9]]) \<in> set [Connection 0 [Chunk [1], ReadError], Connection 1 [Chunk sample_token, Chunk [9]]]
    \<and> take 32 (concat ds) = ag_token \<lparr>ag_token = sample_token, ag_mux = None, ag_rejected = []\<rparr>"
proof (rule agent_serves_token_holder [OF sample_start])
  have "authenticate sample_token (map Chunk [sample_token] @ [Chunk [9]]) = Some [Chunk [9]]"
    by (rule authenticate_pieces) (simp_all add: sample_token_def)
  moreover have "authenticate sample_token [Chunk [1], ReadError] = None"
    by (simp add: authenticate_def read_token.simps)
  ultimately show "ag_mux (agent_run [Connection 0 [Chunk [1], ReadError], Connection 1 [Chunk sample_token, Chunk [9]]]
      \<lparr>ag_token = sample_token, ag_mux = None, ag_rejected = []\<rparr>) = Some (1, [Chunk [9]])"
    by (simp add: agent_run_def)
qed

text \<open>what arrives in the same piece as the end of the token is lost: the host goes on writing at once,
  and when its first frames are read together with the token the multiplexer never sees them,
  while the same bytes in two pieces are delivered.\<close>

theorem glued_bytes_lost:
  "length t = 32 \<Longrightarrow> authenticate t (Chunk (t @ x) # r) = Some r
    \<and> authenticate t (Chunk t # Chunk x # r) = Some (Chunk x # r)"
  using authenticate_pieces [of t "[t]" "Chunk x # r"]
  by (cases t) (auto simp: authenticate_def read_token.simps constant_time_eq_iff)

theorem glued_bytes_lost_witness:
  "authenticate sample_token (Chunk (sample_token @ [1, 2]) # [Chunk [3]]) = Some [Chunk [3]]
    \<and> authenticate sample_token (Chunk sample_token # Chunk [1, 2] # [Chunk [3]]) = Some (Chunk [1, 2] # [Chunk [3]])"
  by (rule glued_bytes_lost) (simp add: sample_token_def)

text \<open>on hosts with QEMU the start writes the token to a file before the program runs and names the
  file as its firmware configuration; an agent whose command line carries no token reads it back.\<close>

theorem qemu_hands_over_token:
  assumes "qm_token q = Some (hex_encode t)" "length t = 32" "qemu_start e q = (q', fx, Ok ())" "uses_fw_cfg (qe_os e)"
    and "\<forall>w \<in> set (split_ws cmdline). \<not> starts_with w TOKEN_PARAM"
  shows "\<exists>file args args'. fx = [WroteToken file (hex_encode t), RanQemu (resolve_binary (qe_arch e) q) args, RemovesToken file]
    \<and> args = args' @ [''-fw_cfg'', ''name=opt/nilbox/auth_token,file='' @ file]
    \<and> qm_status q' = Running \<and> read_auth_token (Some cmdline) (Some (hex_encode t)) = Ok t"
proof -
  have r: "resolve_binary (qe_arch e) (q\<lparr>qm_status := Starting\<rparr>) = resolve_binary (qe_arch e) q"
    by (simp add: resolve_binary_def)
  have "read_auth_token (Some cmdline) (Some (hex_encode t)) = Ok t"
    using token_from_params_skip [of "split_ws cmdline" "[]"] assms(2,5) word_hex_encode [of t]
    by (cases "t = []") (auto simp: read_auth_token_def trim_word parse_hex_token_encode)
  with assms r show ?thesis
    by (auto simp: qemu_start_def run_qemu_def Let_def split: option.splits if_splits)
qed

definition sample_qemu :: qemu where
  "sample_qemu = (inject_fw_cfg_token (hex_encode sample_token) (qemu_new None))\<lparr>qm_config := Some
     \<lparr>vc_disk_image = ''d'', vc_kernel = None, vc_initrd = None, vc_append = None, vc_memory_mb = 512, vc_cpus = 2\<rparr>\<rparr>"

definition sample_qemu_env :: "bool \<Rightarrow> qemu_env" where
  "sample_qemu_env spawn = \<lparr>qe_os = Linux, qe_arch = ''x86_64'', qe_exists = (\<lambda>_. False), qe_parent = (\<lambda>_. None), qe_tmp = ''/tmp'',
     qe_write = (\<lambda>_. True), qe_spawn = spawn\<rparr>"

lemma sample_spawn [simp]: "qe_spawn (sample_qemu_env spawn) = spawn"
  by (simp add: sample_qemu_env_def)

lemma sample_qemu_start:
  "qemu_start (sample_qemu_env spawn) sample_qemu
    = run_qemu (sample_qemu_env spawn)
        (rom_args (sample_qemu_env spawn) sample_qemu @ build_args Linux ''x86_64'' (\<lambda>_. False) (the (qm_config sample_qemu))
          @ [''-fw_cfg'', ''name=opt/nilbox/auth_token,file='' @ token_path (sample_qemu_env spawn) (hex_encode sample_token)])
        (Some (token_path (sample_qemu_env spawn) (hex_encode sample_token)))
        [WroteToken (token_path (sample_qemu_env spawn) (hex_encode sample_token)) (hex_encode sample_token)]
        (sample_qemu\<lparr>qm_status := Starting\<rparr>)"
  by (simp add: qemu_start_def sample_qemu_def qemu_new_def inject_fw_cfg_token_def sample_qemu_env_def uses_fw_cfg_def sample_token_def)

theorem qemu_hands_over_token_witness:
  "\<exists>q' fx file args args'. qemu_start (sample_qemu_env True) sample_qemu = (q', fx, Ok ())
    \<and> fx = [WroteToken file (hex_encode sample_token), RanQemu (resolve_binary (qe_arch (sample_qemu_env True)) sample_qemu) args, RemovesToken file]
    \<and> args = args' @ [''-fw_cfg'', ''name=opt/nilbox/auth_token,file='' @ file]
    \<and> qm_status q' = Running \<and> read_auth_token (Some ''quiet'') (Some (hex_encode sample_token)) = Ok sample_token"
proof -
  obtain q' fx where s: "qemu_start (sample_qemu_env True) sample_qemu = (q', fx, Ok ())"
    by (simp add: sample_qemu_start run_qemu_def)
  have "qm_token sample_qemu = Some (hex_encode sample_token)" "length sample_token = 32" "uses_fw_cfg (qe_os (sample_qemu_env True))"
    "\<forall>w \<in> set (split_ws ''quiet''). \<not> starts_with w TOKEN_PARAM"
    by (simp_all add: sample_qemu_def inject_fw_cfg_token_def sample_token_def uses_fw_cfg_def sample_qemu_env_def TOKEN_PARAM_def is_space_def)
  from qemu_hands_over_token [OF this(1,2) s this(3,4)] s show ?thesis
    by blast
qed

text \<open>A token that stands in the stored kernel parameters is believed before the file.\<close>

lemma stored_token_wins:
  "length t = 32 \<Longrightarrow> read_auth_token (Some (cmdline_with_token app (hex_encode t) n)) fw_cfg = Ok t"
  using cmdline_token [of t app n "[]"] by (simp add: read_auth_token_def)

text \<open>When QEMU cannot be run the file with the token stays.\<close>

lemma refused_spawn_leaves_token:
  "snd (qemu_start (sample_qemu_env False) sample_qemu)
    = ([WroteToken (token_path (sample_qemu_env False) (hex_encode sample_token)) (hex_encode sample_token)], Err SpawnRefused)"
  by (simp add: sample_qemu_start run_qemu_def)

text \<open>A program that ends before the start has returned leaves the VM shown as running.\<close>

lemma early_exit_shown_running: "status_writes [Monitor x, MarkRunning] Starting = Running"
  by (simp add: status_writes_def)

lemma apple_start_starting:
  assumes "ap_config p = Some c" "ap_status p = Stopped" "vmm_binary_path h = None \<or> \<not> vm_spawn x \<or> vm_exited x \<noteq> Some False"
  shows "\<exists>e. apple_start h x p = (p\<lparr>ap_status := Starting\<rparr>, Err e)"
proof (cases "vmm_binary_path h = None \<or> \<not> vm_spawn x")
  case False
  then have "vm_exited x = None \<or> vm_exited x = Some True"
    using assms(3) by (metis (full_types) not_None_eq)
  then show ?thesis
    using assms(1,2) False by (elim disjE) (simp_all add: apple_start_def Let_def)
next
  case True
  then show ?thesis
    using assms(1,2) by (elim disjE) (simp_all add: apple_start_def Let_def)
qed

lemma apple_start_refused: "ap_config p = Some c \<Longrightarrow> ap_status p = Starting \<Longrightarrow> snd (apple_start h x p) = Err NotInStoppedState"
  by (simp add: apple_start_def)

text \<open>when the helper program of macOS is missing or cannot be run the start fails with the status left at
  starting, and every later start is refused, whatever has been repaired, until a stop.\<close>

theorem failed_start_blocks_restart:
  assumes "ap_config p = Some c" "ap_status p = Stopped" "vmm_binary_path h = None \<or> \<not> vm_spawn x \<or> vm_exited x \<noteq> Some False"
  shows "(\<exists>e. snd (apple_start h x p) = Err e) \<and> snd (apple_start h' x' (fst (apple_start h x p))) = Err NotInStoppedState
    \<and> ap_status (fst (apple_stop (fst (apple_start h x p)))) = Stopped"
proof -
  obtain e where "apple_start h x p = (p\<lparr>ap_status := Starting\<rparr>, Err e)"
    using apple_start_starting [OF assms] by blast
  then show ?thesis
    using assms(1) by (simp add: apple_start_refused apple_stop_def)
qed

theorem failed_start_blocks_restart_witness:
  "(\<exists>e. snd (apple_start \<lparr>hf_exists = (\<lambda>_. False), hf_lipo = (\<lambda>_. None), hf_exe_dir = None, hf_base = ''/b'', hf_arch = ''aarch64''\<rparr>
      \<lparr>vm_spawn = True, vm_exited = Some False, vm_lines = [], vm_closed = False, vm_takes = True\<rparr>
      ((apple_new [])\<lparr>ap_config := qm_config sample_qemu\<rparr>)) = Err e)
    \<and> snd (apple_start \<lparr>hf_exists = (\<lambda>_. True), hf_lipo = (\<lambda>_. None), hf_exe_dir = None, hf_base = ''/b'', hf_arch = ''aarch64''\<rparr>
      \<lparr>vm_spawn = True, vm_exited = Some False, vm_lines = [Some (JObj [(''event'', JStr ''ready'')])], vm_closed = False, vm_takes = True\<rparr>
      (fst (apple_start \<lparr>hf_exists = (\<lambda>_. False), hf_lipo = (\<lambda>_. None), hf_exe_dir = None, hf_base = ''/b'', hf_arch = ''aarch64''\<rparr>
        \<lparr>vm_spawn = True, vm_exited = Some False, vm_lines = [], vm_closed = False, vm_takes = True\<rparr>
        ((apple_new [])\<lparr>ap_config := qm_config sample_qemu\<rparr>)))) = Err NotInStoppedState
    \<and> ap_status (fst (apple_stop (fst (apple_start \<lparr>hf_exists = (\<lambda>_. False), hf_lipo = (\<lambda>_. None), hf_exe_dir = None, hf_base = ''/b'', hf_arch = ''aarch64''\<rparr>
        \<lparr>vm_spawn = True, vm_exited = Some False, vm_lines = [], vm_closed = False, vm_takes = True\<rparr>
        ((apple_new [])\<lparr>ap_config := qm_config sample_qemu\<rparr>))))) = Stopped"
  by (rule failed_start_blocks_restart [of _ "the (qm_config sample_qemu)"])
    (simp_all add: sample_qemu_def apple_new_def vmm_binary_path_def)

end
