(* ===== verification/Guest_Proxy.thy ===== *)
theory Guest_Proxy
  imports Inspect Fuse_Protocol
begin

text \<open>
  The proxy of the guest, \<open>vm-agent/src/outbound/proxy.rs\<close> and \<open>browser_hook.rs\<close>: every TCP connection
  of the guest is redirected to it or opened to it explicitly, and it decides what goes to the
  host, what to a program of the guest itself, and what to the host's browser.  Also the copying
  of \<open>vm-agent/src/utils.rs\<close> and the routing of the connections the host opens
  (\<open>inbound/handler.rs\<close>).  The sockets are parameters: the pieces a client sends and whether each
  operation succeeds.
\<close>

section \<open>The server name of a TLS connection\<close>

definition byte_at :: "bytes \<Rightarrow> nat \<Rightarrow> (unit, nat) outcome" where
  "byte_at bs i = (if i < length bs then Ok (unat (bs ! i)) else Panic)"

definition be16_at :: "bytes \<Rightarrow> nat \<Rightarrow> (unit, nat) outcome" where
  "be16_at bs i = and_then (byte_at bs i) (\<lambda>a. and_then (byte_at bs (i + 1)) (\<lambda>b. Ok (256 * a + b)))"

definition sub_slice :: "bytes \<Rightarrow> nat \<Rightarrow> nat \<Rightarrow> (unit, bytes) outcome" where
  "sub_slice bs a b = (if a \<le> b \<and> b \<le> length bs then Ok (take (b - a) (drop a bs)) else Panic)"

definition sni_name :: "bytes \<Rightarrow> nat \<Rightarrow> nat \<Rightarrow> (unit, string option) outcome" where
  "sni_name ch pos ext_len =
    (if pos + ext_len > length ch \<or> ext_len < 5 then Ok None
     else and_then (sub_slice ch pos (pos + ext_len)) (\<lambda>sni.
          and_then (byte_at sni 2) (\<lambda>name_type.
          if name_type \<noteq> 0 then Ok None
          else and_then (be16_at sni 3) (\<lambda>name_len.
               if length sni < 5 + name_len then Ok None
               else and_then (sub_slice sni 5 (5 + name_len)) (\<lambda>name.
                    Ok (if valid_utf8 name then Some (bytes_str name) else None))))))"

function sni_extensions :: "bytes \<Rightarrow> nat \<Rightarrow> nat \<Rightarrow> (unit, string option) outcome" where
  "sni_extensions ch ext_end pos =
    (if pos + 4 \<le> ext_end \<and> pos + 4 \<le> length ch
     then and_then (be16_at ch pos) (\<lambda>ext_type.
          and_then (be16_at ch (pos + 2)) (\<lambda>ext_len.
          if ext_type = 0 then sni_name ch (pos + 4) ext_len
          else sni_extensions ch ext_end (pos + 4 + ext_len)))
     else Ok None)"
  by pat_completeness auto

termination sni_extensions
  by (relation "measure (\<lambda>(ch, e, pos). Suc (length ch) - pos)") auto

declare sni_extensions.simps [simp del]

definition sni_body :: "bytes \<Rightarrow> (unit, string option) outcome" where
  "sni_body ch =
    (if length ch < 34 then Ok None
     else if 34 \<ge> length ch then Ok None
     else and_then (byte_at ch 34) (\<lambda>sid_len.
       let p1 = 34 + (1 + sid_len)
       in if p1 + 2 > length ch then Ok None
          else and_then (be16_at ch p1) (\<lambda>cs_len.
            let p2 = p1 + (2 + cs_len)
            in if p2 \<ge> length ch then Ok None
               else and_then (byte_at ch p2) (\<lambda>cm_len.
                 let p3 = p2 + (1 + cm_len)
                 in if p3 + 2 > length ch then Ok None
                    else and_then (be16_at ch p3) (\<lambda>ext_total.
                      sni_extensions ch (p3 + 2 + ext_total) (p3 + 2))))))"

definition extract_sni :: "bytes \<Rightarrow> (unit, string option) outcome" where
  "extract_sni dat =
    (if length dat < 5 then Ok None
     else and_then (byte_at dat 0) (\<lambda>kind.
       if kind \<noteq> 0x16 then Ok None
       else and_then (be16_at dat 3) (\<lambda>record_len.
         if length dat < 5 + record_len then Ok None
         else and_then (sub_slice dat 5 (length dat)) (\<lambda>hs.
           if hs = [] then Ok None
           else and_then (byte_at hs 0) (\<lambda>msg.
             if msg \<noteq> 1 then Ok None
             else if length hs < 4 then Ok None
             else and_then (byte_at hs 1) (\<lambda>l1.
                  and_then (be16_at hs 2) (\<lambda>l2.
                  let hs_len = 65536 * l1 + l2
                  in if length hs < 4 + hs_len then Ok None
                     else and_then (sub_slice hs 4 (4 + hs_len)) sni_body)))))))"


section \<open>Requests\<close>

record ProxyTarget =
  pt_host :: string
  pt_port :: u16
  is_connect :: bool

definition parse_u16 :: "string \<Rightarrow> u16 option" where
  "parse_u16 s = map_option of_nat (parse_nat (2 ^ 16) s)"

definition parse_host_port :: "string \<Rightarrow> u16 \<Rightarrow> (string \<times> u16) option" where
  "parse_host_port s default_port =
    (case s of
       CHR ''['' # r \<Rightarrow>
         (case split_once (CHR '']'') r of
            None \<Rightarrow> None
          | Some (host, rest) \<Rightarrow>
              (case rest of
                 CHR '':'' # p \<Rightarrow> map_option (\<lambda>port. (host, port)) (parse_u16 p)
               | _ \<Rightarrow> Some (host, default_port)))
     | _ \<Rightarrow>
         (case split_once (CHR '':'') (rev s) of
            Some (p, h) \<Rightarrow>
              (case parse_u16 (rev p) of Some port \<Rightarrow> Some (rev h, port) | None \<Rightarrow> Some (s, default_port))
          | None \<Rightarrow> Some (s, default_port)))"

fun host_header :: "string list \<Rightarrow> string option" where
  "host_header [] = None"
| "host_header (l # ls) =
    (case strip_prefix l ''Host:'' of
       Some v \<Rightarrow> Some (trim v)
     | None \<Rightarrow> (case strip_prefix l ''host:'' of Some v \<Rightarrow> Some (trim v) | None \<Rightarrow> host_header ls))"

definition request_words :: "bytes \<Rightarrow> (string list \<times> string list) option" where
  "request_words h =
    (if \<not> valid_utf8 h then None
     else (case lines_of (bytes_str h) of [] \<Rightarrow> None | l # ls \<Rightarrow> Some (split_ws l, ls)))"

definition extract_target :: "bytes \<Rightarrow> ProxyTarget option" where
  "extract_target h =
    (case request_words h of
       Some (verb # uri # _, ls) \<Rightarrow>
         (let target = (\<lambda>con s d. map_option (\<lambda>(host, port). \<lparr>pt_host = host, pt_port = port, is_connect = con\<rparr>) (parse_host_port s d))
          in if eq_ignore_ascii_case verb ''CONNECT'' then target True uri 443
             else (case strip_prefix uri ''http://'' of
                     Some rest \<Rightarrow> target False (takeWhile (\<lambda>c. c \<noteq> CHR ''/'') rest) 80
                   | None \<Rightarrow> (case host_header ls of Some v \<Rightarrow> target False v 80 | None \<Rightarrow> None)))
     | _ \<Rightarrow> None)"

definition is_nilbox_control_request :: "bytes \<Rightarrow> bool" where
  "is_nilbox_control_request h =
    (case request_words h of
       Some (_ # uri # _, _) \<Rightarrow> starts_with uri ''/__nilbox__/'' \<or> contains_str uri ''/__nilbox__/''
     | _ \<Rightarrow> False)"

definition is_localhost :: "string \<Rightarrow> bool" where
  "is_localhost host \<longleftrightarrow> host \<in> {''127.0.0.1'', ''localhost'', ''::1'', ''[::1]''}"

definition nilbox_cdp_mode :: "string \<Rightarrow> u8 option" where
  "nilbox_cdp_mode host =
    (if host = ''cdp.nilbox'' then Some 0 else if host = ''headless.cdp.nilbox'' then Some 1
     else if host = ''headed.cdp.nilbox'' then Some 2 else None)"

definition sentinel_mode :: "string \<Rightarrow> u8 option" where
  "sentinel_mode ip =
    (if ip = ''169.254.254.1'' then Some 0 else if ip = ''169.254.254.2'' then Some 1
     else if ip = ''169.254.254.3'' then Some 2 else None)"

definition CRLF2 :: bytes where "CRLF2 = [13, 10, 13, 10]"

text \<open>An absolute URI becomes a path; what stands between the host and the first slash is lost.\<close>

definition rewrite_request_uri :: "bytes \<Rightarrow> bytes" where
  "rewrite_request_uri h =
    (if \<not> valid_utf8 h then h
     else (case find_str (bytes_str h) [CHR 0x0D, CHR 0x0A] of
             None \<Rightarrow> h
           | Some n \<Rightarrow>
               (case split_once (CHR '' '') (take n (bytes_str h)) of
                  Some (verb, r) \<Rightarrow>
                    (case split_once (CHR '' '') r of
                       Some (uri, version) \<Rightarrow>
                         (case strip_prefix uri ''http://'' of
                            Some rest \<Rightarrow>
                              (let p = dropWhile (\<lambda>c. c \<noteq> CHR ''/'') rest; path = (if p = [] then ''/'' else p)
                               in str_bytes (verb @ '' '' @ path @ '' '' @ version @ drop n (bytes_str h)))
                          | None \<Rightarrow> h)
                     | None \<Rightarrow> h)
                | None \<Rightarrow> h)))"


section \<open>Connections\<close>

datatype proxy_op =
    OpenReverse bytes | OpenHost u32 u8 | ToHost bytes | ConnectLocal u16 | ToLocal bytes | ToClient bytes
  | PumpHost | PumpLocal

datatype proxy_error =
    TlsWithoutTarget | SelfReference | NoVsock | ClosedEarly | HeadersTooLarge | ClientFailed | OpFailed proxy_op
  | ConnectRejected

record guest_net =
  gn_ok :: "proxy_op \<Rightarrow> bool"
  gn_mux :: bool
  gn_reply :: "bytes option"

type_synonym proxied = "proxy_op list \<times> (proxy_error, unit) outcome"

text \<open>The operations are tried in turn; the list that comes back ends with the one that failed.\<close>

fun run_ops :: "guest_net \<Rightarrow> proxy_op list \<Rightarrow> proxied" where
  "run_ops g [] = ([], Ok ())"
| "run_ops g (x # xs) =
    (if gn_ok g x then (case run_ops g xs of (ys, r) \<Rightarrow> (x # ys, r)) else ([x], Err (OpFailed x)))"

definition with_mux :: "guest_net \<Rightarrow> proxy_op list \<Rightarrow> proxied" where
  "with_mux g xs = (if gn_mux g then run_ops g xs else ([], Err NoVsock))"

definition unless_empty :: "bytes \<Rightarrow> (bytes \<Rightarrow> proxy_op) \<Rightarrow> proxy_op list" where
  "unless_empty body f = (if body = [] then [] else [f body])"

definition forward_to_host :: "guest_net \<Rightarrow> bytes \<Rightarrow> bytes \<Rightarrow> proxied" where
  "forward_to_host g h body = with_mux g (OpenReverse h # unless_empty body ToHost @ [PumpHost])"

definition handle_host_connect :: "guest_net \<Rightarrow> u16 \<Rightarrow> u8 \<Rightarrow> proxied" where
  "handle_host_connect g port mode = with_mux g [OpenHost (ucast port) mode, PumpHost]"

definition TUNNEL_OK :: bytes where "TUNNEL_OK = str_bytes (''HTTP/1.1 200 Connection Established'' @ [CHR 0x0D, CHR 0x0A, CHR 0x0D, CHR 0x0A])"

definition handle_nilbox_cdp_proxy :: "guest_net \<Rightarrow> bytes \<Rightarrow> bytes \<Rightarrow> u16 \<Rightarrow> u8 \<Rightarrow> bool \<Rightarrow> proxied" where
  "handle_nilbox_cdp_proxy g h body port mode con =
    with_mux g (OpenHost (ucast port) mode #
      (if con then [ToClient TUNNEL_OK] else [ToHost (rewrite_request_uri h)]) @ unless_empty body ToHost @ [PumpHost])"

definition handle_localhost_direct :: "guest_net \<Rightarrow> ProxyTarget \<Rightarrow> bytes \<Rightarrow> bytes \<Rightarrow> proxied" where
  "handle_localhost_direct g t h body =
    run_ops g (ConnectLocal (pt_port t) #
      (if is_connect t then [ToClient TUNNEL_OK] else [ToLocal (rewrite_request_uri h)]) @ unless_empty body ToLocal @ [PumpLocal])"

definition connect_header :: "string \<Rightarrow> u16 \<Rightarrow> string" where
  "connect_header host port =
    (let target = host @ '':'' @ nat_digits (unat port); nl = [CHR 0x0D, CHR 0x0A]
     in ''CONNECT '' @ target @ '' HTTP/1.1'' @ nl @ ''Host: '' @ target @ nl @ nl)"

definition handle_transparent_tls :: "guest_net \<Rightarrow> bytes \<Rightarrow> string \<times> u16 \<Rightarrow> proxied" where
  "handle_transparent_tls g initial dst =
    (case extract_sni initial of
       Ok sni \<Rightarrow>
         (let host = (case sni of Some n \<Rightarrow> n | None \<Rightarrow> fst dst)
          in case with_mux g [OpenReverse (str_bytes (connect_header host (snd dst)))] of
               (ops, Ok _) \<Rightarrow>
                 (case gn_reply g of
                    None \<Rightarrow> (ops, Err ClientFailed)
                  | Some answer \<Rightarrow>
                      if \<not> contains_str (from_utf8_lossy answer) ''200'' then (ops, Err ConnectRejected)
                      else (case run_ops g [ToHost initial, PumpHost] of (ops', r) \<Rightarrow> (ops @ ops', r)))
             | failed \<Rightarrow> failed)
     | _ \<Rightarrow> ([], Panic))"

definition dispatch :: "guest_net \<Rightarrow> bytes \<Rightarrow> bytes \<Rightarrow> proxied" where
  "dispatch g h body =
    (if is_nilbox_control_request h then forward_to_host g h body
     else (case extract_target h of
             Some t \<Rightarrow>
               if is_localhost (pt_host t) then
                 (if pt_port t = 18088 then ([], Err SelfReference) else handle_localhost_direct g t h body)
               else (case nilbox_cdp_mode (pt_host t) of
                       Some mode \<Rightarrow> handle_nilbox_cdp_proxy g h body (pt_port t) mode (is_connect t)
                     | None \<Rightarrow> forward_to_host g h body)
           | None \<Rightarrow> forward_to_host g h body))"

text \<open>What reading from the client gives: a piece or an error; an empty piece, and the end of the list,
  is the end of the connection.\<close>

datatype client_read = Piece bytes | ReadFailure

fun read_request :: "guest_net \<Rightarrow> bytes \<Rightarrow> client_read list \<Rightarrow> proxied" where
  "read_request g buffer rs =
    (case find_str buffer CRLF2 of
       Some pos \<Rightarrow> dispatch g (take (pos + 4) buffer) (drop (pos + 4) buffer)
     | None \<Rightarrow>
         (case rs of
            [] \<Rightarrow> ([], Err ClosedEarly)
          | ReadFailure # _ \<Rightarrow> ([], Err ClientFailed)
          | Piece d # r \<Rightarrow>
              if d = [] then ([], Err ClosedEarly)
              else if 16384 < length (buffer @ d) then ([], Err HeadersTooLarge)
              else read_request g (buffer @ d) r))"

declare read_request.simps [simp del]

text \<open>\<open>dst\<close> is where the connection was going before it was redirected, as far as that is known.\<close>

definition handle_connection :: "guest_net \<Rightarrow> (string \<times> u16) option \<Rightarrow> client_read list \<Rightarrow> proxied" where
  "handle_connection g dst rs =
    (case Option.bind dst (\<lambda>(ip, port). map_option (\<lambda>m. (port, m)) (sentinel_mode ip)) of
       Some (port, mode) \<Rightarrow> handle_host_connect g port mode
     | None \<Rightarrow>
         (case rs of
            [] \<Rightarrow> ([], Ok ())
          | ReadFailure # _ \<Rightarrow> ([], Err ClientFailed)
          | Piece b # r \<Rightarrow>
              if b = [] then ([], Ok ())
              else if hd b = 0x16 then
                (case dst of Some d \<Rightarrow> handle_transparent_tls g b d | None \<Rightarrow> ([], Err TlsWithoutTarget))
              else read_request g b r))"


section \<open>Copying\<close>

text \<open>What the copying loop sees, and what it does.\<close>

datatype pump_event = FromTcp bytes | TcpEof | TcpError | FromHost bytes | HostEnd

datatype pump_op = WriteHost bytes | CloseHost | WriteTcp bytes | ShutdownTcp

fun pump :: "(pump_op \<Rightarrow> bool) \<Rightarrow> pump_event list \<Rightarrow> pump_op list" where
  "pump ok [] = []"
| "pump ok (FromTcp d # es) = WriteHost d # (if ok (WriteHost d) then pump ok es else [])"
| "pump ok (TcpEof # es) = [CloseHost]"
| "pump ok (TcpError # es) = [CloseHost]"
| "pump ok (FromHost d # es) = WriteTcp d # (if ok (WriteTcp d) then pump ok es else [])"
| "pump ok (HostEnd # es) = [ShutdownTcp]"


section \<open>Connections the host opens\<close>

definition CONTROL_PORT :: u32 where "CONTROL_PORT = 9402"

datatype inbound = ControlHandler | FuseHandler | LocalService u32 | ServiceUnreachable u32

datatype inbound_error = PayloadUnread | PayloadTooShort

definition handle_inbound_stream ::
  "bool \<Rightarrow> (u32 \<Rightarrow> bool) \<Rightarrow> bytes option \<Rightarrow> (inbound_error, inbound) outcome" where
  "handle_inbound_stream with_fuse reachable payload =
    (case payload of
       None \<Rightarrow> Err PayloadUnread
     | Some p \<Rightarrow>
         if length p < 4 then Err PayloadTooShort
         else
           let target_port = u32_from_be (take 4 p)
           in if target_port = CONTROL_PORT then Ok ControlHandler
              else if with_fuse \<and> guest_is_fuse_port target_port then Ok FuseHandler
              else if reachable target_port then Ok (LocalService target_port) else Ok (ServiceUnreachable target_port))"


section \<open>Lemmas on the server name\<close>

lemma and_then_total: "x \<noteq> Panic \<Longrightarrow> (\<And>a. x = Ok a \<Longrightarrow> f a \<noteq> Panic) \<Longrightarrow> and_then x f \<noteq> Panic"
  by (cases x) auto

lemma if_total: "(c \<Longrightarrow> x \<noteq> Panic) \<Longrightarrow> (\<not> c \<Longrightarrow> y \<noteq> Panic) \<Longrightarrow> (if c then x else y) \<noteq> Panic"
  by simp

lemma byte_at_total: "i < length bs \<Longrightarrow> byte_at bs i \<noteq> Panic"
  by (simp add: byte_at_def)

lemma be16_at_total: "i + 1 < length bs \<Longrightarrow> be16_at bs i \<noteq> Panic"
  by (simp add: be16_at_def byte_at_def)

lemma sub_slice_total: "a \<le> b \<Longrightarrow> b \<le> length bs \<Longrightarrow> sub_slice bs a b \<noteq> Panic"
  by (simp add: sub_slice_def)

lemma sub_slice_Ok: "sub_slice bs a b = Ok c \<longleftrightarrow> a \<le> b \<and> b \<le> length bs \<and> c = take (b - a) (drop a bs)"
  by (auto simp: sub_slice_def)

lemmas parser_total = if_total and_then_total byte_at_total be16_at_total sub_slice_total

lemma sni_name_total: "sni_name ch pos n \<noteq> Panic"
  unfolding sni_name_def by (intro parser_total) (auto simp: sub_slice_Ok)

lemma sni_extensions_total: "sni_extensions ch e pos \<noteq> Panic"
proof (induction ch e pos rule: sni_extensions.induct)
  case (1 ch e pos)
  show ?case
    by (subst sni_extensions.simps) (intro parser_total sni_name_total 1; simp)
qed

lemma sni_body_total: "sni_body ch \<noteq> Panic"
  unfolding sni_body_def Let_def by (intro parser_total sni_extensions_total) simp_all

lemma extract_sni_total: "extract_sni dat \<noteq> Panic"
  unfolding extract_sni_def Let_def by (intro parser_total sni_body_total) (auto simp: sub_slice_Ok)

text \<open>A client hello as RFC 8446 and RFC 6066 lay it out: fixed part, session, cipher suites,
  compression methods, and extensions of which the server name is one.\<close>

record hello =
  h_fixed :: bytes
  h_session :: bytes
  h_ciphers :: bytes
  h_compression :: bytes
  h_before :: "(u16 \<times> bytes) list"
  h_name :: string
  h_after :: bytes

definition len16 :: "bytes \<Rightarrow> bytes" where "len16 bs = put_u16_be (of_nat (length bs)) @ bs"

definition len8 :: "bytes \<Rightarrow> bytes" where "len8 bs = of_nat (length bs) # bs"

definition extension :: "u16 \<times> bytes \<Rightarrow> bytes" where "extension x = put_u16_be (fst x) @ len16 (snd x)"

definition name_extension :: "string \<Rightarrow> bytes" where
  "name_extension n = extension (0, len16 (0 # len16 (str_bytes n)))"

definition extensions :: "hello \<Rightarrow> bytes" where
  "extensions h = concat (map extension (h_before h)) @ name_extension (h_name h) @ h_after h"

definition hello_body :: "hello \<Rightarrow> bytes" where
  "hello_body h = h_fixed h @ len8 (h_session h) @ len16 (h_ciphers h) @ len8 (h_compression h) @ len16 (extensions h)"

definition client_hello :: "hello \<Rightarrow> bytes" where
  "client_hello h =
    (let b = hello_body h in [0x16, 3, 1] @ len16 ([1, 0] @ len16 b))"

definition hello_ok :: "hello \<Rightarrow> bool" where
  "hello_ok h \<longleftrightarrow>
    length (h_fixed h) = 34 \<and> length (h_session h) < 256 \<and> length (h_compression h) < 256
    \<and> length (hello_body h) + 4 < 65536 \<and> list_all (\<lambda>x. fst x \<noteq> 0) (h_before h) \<and> rust_string (h_name h)"

lemma put_u16_be_bytes: "put_u16_be w = [of_nat (unat w div 256), of_nat (unat w)]"
  by (simp only: put_u16_be_def nat_to_le_unfold rev.simps append.simps)

lemma byte_at_append: "byte_at (xs @ b # ys) (length xs) = Ok (unat b)"
  by (simp add: byte_at_def)

lemma be16_at_append: "be16_at (xs @ put_u16_be w @ ys) (length xs) = Ok (unat w)"
proof -
  have "unat w div 256 < 256"
    using unat_bound [of w] by auto
  then have "unat (of_nat (unat w div 256) :: byte) = unat w div 256"
    by (simp only: unat_byte_of_nat mod_less)
  moreover have "unat (ucast w :: byte) = unat w mod 256"
    using unat_byte_of_nat [of "unat w"] by simp
  ultimately show ?thesis
    by (simp add: be16_at_def byte_at_def put_u16_be_bytes nth_append)
qed

lemma be16_at_len16: "length bs < 65536 \<Longrightarrow> be16_at (xs @ len16 bs @ ys) (length xs) = Ok (length bs)"
  using be16_at_append [of xs "of_nat (length bs)" "bs @ ys"] by (simp add: len16_def unat_of_nat)

lemma sub_slice_append: "sub_slice (xs @ ys @ zs) (length xs) (length xs + length ys) = Ok ys"
  by (simp add: sub_slice_def)

lemma length_len16 [simp]: "length (len16 bs) = length bs + 2" "length (len8 bs) = length bs + 1"
  by (simp_all add: len16_def len8_def)

lemma sni_name_found:
  assumes "rust_string n" "length n + 3 < 65536"
  shows "sni_name (xs @ len16 (0 # len16 (str_bytes n)) @ ys) (length xs) (length n + 5) = Ok (Some n)"
proof -
  let ?sni = "len16 (0 # len16 (str_bytes n))"
  have c: "?sni = (put_u16_be (of_nat (length n + 3)) @ [0]) @ len16 (str_bytes n) @ []"
    by (simp add: len16_def add.commute)
  have "be16_at ?sni 3 = Ok (length n)"
    using be16_at_len16 [of "str_bytes n" "put_u16_be (of_nat (length n + 3)) @ [0]" "[]"] assms(2) unfolding c by simp
  moreover have "byte_at ?sni 2 = Ok 0"
    using byte_at_append [of "put_u16_be (of_nat (length n + 3))" 0 "len16 (str_bytes n)"] by (simp add: len16_def add.commute)
  moreover have "sub_slice ?sni 5 (5 + length n) = Ok (str_bytes n)"
    using sub_slice_append [of "put_u16_be (of_nat (length n + 3)) @ [0] @ put_u16_be (of_nat (length n))" "str_bytes n" "[]"]
    by (simp add: len16_def add.commute eval_nat_numeral)
  moreover have "sub_slice (xs @ ?sni @ ys) (length xs) (length xs + (length n + 5)) = Ok ?sni"
    using sub_slice_append [of xs ?sni ys] by (simp add: eval_nat_numeral)
  ultimately show ?thesis
    using assms by (simp add: sni_name_def rust_string_def)
qed

lemma sni_extensions_found:
  assumes "rust_string n" "list_all (\<lambda>x. fst x \<noteq> 0) es"
    and "e = length (xs @ concat (map extension es) @ name_extension n @ after)"
    and "length (concat (map extension es) @ name_extension n) < 65536"
  shows "sni_extensions (xs @ concat (map extension es) @ name_extension n @ after) e (length xs) = Ok (Some n)"
  using assms
proof (induction es arbitrary: xs)
  case Nil
  let ?ch = "xs @ name_extension n @ after"
  have l: "length (name_extension n) = length n + 9"
    by (simp add: name_extension_def extension_def)
  have t: "be16_at ?ch (length xs) = Ok 0"
    using be16_at_append [of xs 0] by (simp add: name_extension_def extension_def)
  have len: "be16_at ?ch (length xs + 2) = Ok (length n + 5)"
    using be16_at_len16 [of "len16 (0 # len16 (str_bytes n))" "xs @ put_u16_be 0" after] Nil(4) l
    by (simp add: name_extension_def extension_def)
  have "sni_name ?ch (length xs + 4) (length n + 5) = Ok (Some n)"
    using sni_name_found [OF Nil(1), of "xs @ put_u16_be 0 @ put_u16_be (of_nat (length n + 5))" after] Nil(4) l
    by (simp add: name_extension_def extension_def len16_def [of "len16 _"] add.commute)
  with t len Nil(3) l show ?case
    by (subst sni_extensions.simps) simp
next
  case (Cons x es)
  let ?ch = "xs @ concat (map extension (x # es)) @ name_extension n @ after"
  let ?r = "concat (map extension es) @ name_extension n @ after"
  have lx: "length (extension x) = length (snd x) + 4"
    by (simp add: extension_def)
  have t: "be16_at ?ch (length xs) = Ok (unat (fst x))"
    using be16_at_append [of xs "fst x" "len16 (snd x) @ ?r"] by (simp add: extension_def)
  have len: "be16_at ?ch (length xs + 2) = Ok (length (snd x))"
    using be16_at_len16 [of "snd x" "xs @ put_u16_be (fst x)" ?r] Cons.prems(4) lx by (simp add: extension_def)
  have "sni_extensions ?ch e (length xs + 4 + length (snd x)) = Ok (Some n)"
    using Cons.IH [of "xs @ extension x"] Cons.prems lx by (simp add: ac_simps)
  moreover have "unat (fst x) \<noteq> 0"
    using Cons.prems(2) by (simp add: unat_eq_0)
  ultimately show ?case
    using t len Cons.prems(3) lx by (subst sni_extensions.simps) simp
qed

text \<open>The same at an offset that is given as a number.\<close>

lemma len16_read: "dat = xs @ len16 bs @ ys \<Longrightarrow> i = length xs \<Longrightarrow> length bs < 65536 \<Longrightarrow> be16_at dat i = Ok (length bs)"
  using be16_at_len16 by simp

lemma len8_read: "dat = xs @ len8 bs @ ys \<Longrightarrow> i = length xs \<Longrightarrow> length bs < 256 \<Longrightarrow> byte_at dat i = Ok (length bs)"
  using byte_at_append [of xs "of_nat (length bs)" "bs @ ys"] by (simp add: len8_def unat_byte_of_nat)

lemma slice_read: "dat = xs @ bs @ ys \<Longrightarrow> i = length xs \<Longrightarrow> j = i + length bs \<Longrightarrow> sub_slice dat i j = Ok bs"
  using sub_slice_append by simp

lemma sni_body_found:
  assumes "hello_ok h"
  shows "sni_body (hello_body h) = Ok (Some (h_name h))"
proof -
  define f s c m e b where "f = h_fixed h" and "s = h_session h" and "c = h_ciphers h" and "m = h_compression h"
    and "e = extensions h" and "b = hello_body h"
  note d = f_def s_def c_def m_def e_def b_def
  have b: "b = f @ len8 s @ len16 c @ len8 m @ len16 e"
    by (simp add: d hello_body_def)
  have len: "length f = 34" "length s < 256" "length m < 256" "length b + 4 < 65536"
    using assms by (auto simp: d hello_ok_def)
  then have lb: "length b = 40 + length s + length c + length m + length e"
    by (simp add: b)
  have 1: "byte_at b 34 = Ok (length s)"
    by (rule len8_read [of _ f _ "len16 c @ len8 m @ len16 e"]) (simp_all add: b len)
  have 2: "be16_at b (34 + (1 + length s)) = Ok (length c)"
    using lb len(4) by (intro len16_read [of _ "f @ len8 s" _ "len8 m @ len16 e"]) (simp_all add: b len(1))
  have 3: "byte_at b (34 + (1 + length s) + (2 + length c)) = Ok (length m)"
    by (rule len8_read [of _ "f @ len8 s @ len16 c" _ "len16 e"]) (simp_all add: b len)
  have 4: "be16_at b (34 + (1 + length s) + (2 + length c) + (1 + length m)) = Ok (length e)"
    using lb len(4) by (intro len16_read [of _ "f @ len8 s @ len16 c @ len8 m" _ "[]"]) (simp_all add: b len(1))
  define p where "p = 34 + (1 + length s) + (2 + length c) + (1 + length m) + 2"
  have "sni_extensions b (p + length e) p = Ok (Some (h_name h))"
  proof -
    define xs where "xs = f @ len8 s @ len16 c @ len8 m @ put_u16_be (of_nat (length e))"
    have "b = xs @ concat (map extension (h_before h)) @ name_extension (h_name h) @ h_after h"
      by (simp add: b xs_def len16_def [of e]) (simp add: d extensions_def)
    moreover have p: "p = length xs"
      by (simp add: p_def xs_def len(1))
    moreover have "length xs + length e = length b"
      by (simp add: lb p_def flip: p)
    moreover have "length (concat (map extension (h_before h)) @ name_extension (h_name h)) \<le> length e"
      by (simp add: d extensions_def)
    ultimately show ?thesis
      using sni_extensions_found [of "h_name h" "h_before h" "p + length e" xs "h_after h"] assms lb len(4)
      by (simp add: hello_ok_def)
  qed
  moreover have "34 < length b" "34 + (1 + length s) + 2 \<le> length b" "34 + (1 + length s) + (2 + length c) < length b" "p \<le> length b"
    by (simp_all add: lb p_def)
  ultimately show ?thesis
    using 1 2 3 4 unfolding sni_body_def Let_def p_def b_def by (simp only: and_then.simps if_False not_less not_le simp_thms) simp
qed

lemma extract_sni_client_hello:
  assumes "hello_ok h"
  shows "extract_sni (client_hello h) = Ok (Some (h_name h))"
proof -
  define b hs where "b = hello_body h" and "hs = [1, 0] @ len16 b"
  have ch: "client_hello h = [0x16, 3, 1] @ len16 hs @ []"
    by (simp add: client_hello_def b_def hs_def)
  have l: "length b + 4 < 65536" "length hs = 4 + length b" "length (client_hello h) = 5 + length hs" "hs \<noteq> []"
    using assms by (simp_all add: hello_ok_def b_def hs_def ch)
  have 1: "be16_at (client_hello h) 3 = Ok (length hs)"
    using l by (intro len16_read [OF ch]) simp_all
  have 2: "sub_slice (client_hello h) 5 (length (client_hello h)) = Ok hs"
    using l(3) by (intro slice_read [of _ "[0x16, 3, 1] @ put_u16_be (of_nat (length hs))" _ "[]"]) (simp_all add: ch len16_def)
  have 3: "be16_at hs 2 = Ok (length b)"
    using l by (intro len16_read [of _ "[1, 0]" _ "[]"]) (simp_all add: hs_def)
  have 4: "sub_slice hs 4 (4 + length b) = Ok b"
    by (rule slice_read [of _ "[1, 0] @ put_u16_be (of_nat (length b))" _ "[]"]) (simp_all add: hs_def len16_def)
  have 5: "byte_at (client_hello h) 0 = Ok 22" "byte_at hs 0 = Ok 1" "byte_at hs 1 = Ok 0"
    by (simp_all add: byte_at_def ch hs_def)
  have n: "\<not> length (client_hello h) < 5" "\<not> length (client_hello h) < 5 + length hs" "\<not> length hs < 4" "\<not> length hs < 4 + length b"
    using l by simp_all
  have "(65536 :: nat) * 0 + length b = length b" "(22 \<noteq> (0x16 :: nat)) = False" "(1 \<noteq> (1 :: nat)) = False"
    by simp_all
  with 1 2 3 4 5 n l(4) sni_body_found [OF assms] show ?thesis
    unfolding extract_sni_def Let_def b_def by (simp only: and_then.simps if_False)
qed


section \<open>Lemmas on connections\<close>

lemma run_ops_prefix: "\<exists>zs. xs = fst (run_ops g xs) @ zs"
  by (induction xs) (auto split: prod.splits)

lemma run_ops_Ok: "run_ops g xs = (ys, Ok u) \<Longrightarrow> ys = xs"
  by (induction xs arbitrary: ys) (auto split: prod.splits if_splits)

lemma run_ops_all: "(\<And>x. x \<in> set xs \<Longrightarrow> gn_ok g x) \<Longrightarrow> run_ops g xs = (xs, Ok ())"
  by (induction xs) auto

lemma with_mux_Ok: "with_mux g xs = (ys, Ok u) \<Longrightarrow> ys = xs"
  by (auto simp: with_mux_def dest: run_ops_Ok split: if_splits)

lemma run_ops_set: "x \<in> set (fst (run_ops g xs)) \<Longrightarrow> x \<in> set xs"
  using run_ops_prefix [of xs g] by (metis Un_iff set_append)

lemma with_mux_set: "x \<in> set (fst (with_mux g xs)) \<Longrightarrow> x \<in> set xs"
  by (auto simp: with_mux_def dest: run_ops_set split: if_splits)

text \<open>Where a request goes: to a program of the guest, to a browser of the host, or to the proxy of the host.\<close>

definition op_side :: "proxy_op \<Rightarrow> nat" where
  "op_side x = (case x of ConnectLocal _ \<Rightarrow> 1 | ToLocal _ \<Rightarrow> 1 | PumpLocal \<Rightarrow> 1 | ToClient _ \<Rightarrow> 0 | _ \<Rightarrow> 2)"

lemma op_side_simps [simp]:
  "op_side (ConnectLocal p) = 1" "op_side (ToLocal b) = 1" "op_side PumpLocal = 1" "op_side (ToClient b) = 0"
  "op_side (OpenReverse b) = 2" "op_side (OpenHost q m) = 2" "op_side (ToHost b) = 2" "op_side PumpHost = 2"
  by (simp_all add: op_side_def)

lemma unless_empty_set: "x \<in> set (unless_empty b f) \<longleftrightarrow> b \<noteq> [] \<and> x = f b"
  by (simp add: unless_empty_def)

text \<open>All the operations on one connection are on the same side, and the side of the guest is for its own
  services only.\<close>

definition own_service :: "u16 \<Rightarrow> bool" where
  "own_service p \<longleftrightarrow> p \<noteq> 18088 \<and> (\<exists>h t. extract_target h = Some t \<and> is_localhost (pt_host t) \<and> pt_port t = p
     \<and> \<not> is_nilbox_control_request h)"

definition one_sided :: "proxy_op list \<Rightarrow> bool" where
  "one_sided ops \<longleftrightarrow>
    (\<forall>x \<in> set ops. op_side x \<noteq> 1) \<or>
    ((\<forall>x \<in> set ops. op_side x \<noteq> 2) \<and> (\<forall>p. ConnectLocal p \<in> set ops \<longrightarrow> own_service p))"

lemma one_sided_host: "(\<And>x. x \<in> set ops \<Longrightarrow> op_side x \<noteq> 1) \<Longrightarrow> one_sided ops"
  by (auto simp: one_sided_def)

lemma forward_to_host_sided: "one_sided (fst (forward_to_host g h b))"
  unfolding forward_to_host_def by (rule one_sided_host) (auto dest!: with_mux_set simp: unless_empty_set)

lemma handle_host_connect_sided: "one_sided (fst (handle_host_connect g p m))"
  unfolding handle_host_connect_def by (rule one_sided_host) (auto dest!: with_mux_set)

lemma cdp_proxy_sided: "one_sided (fst (handle_nilbox_cdp_proxy g h b p m c))"
  unfolding handle_nilbox_cdp_proxy_def by (rule one_sided_host) (auto dest!: with_mux_set simp: unless_empty_set split: if_splits)

lemma localhost_sided: "own_service (pt_port t) \<Longrightarrow> one_sided (fst (handle_localhost_direct g t h b))"
  unfolding handle_localhost_direct_def one_sided_def
  by (intro disjI2 conjI ballI allI impI; drule run_ops_set) (auto simp: unless_empty_set split: if_splits)

lemma dispatch_sided: "one_sided (fst (dispatch g h b))"
proof -
  have "one_sided []"
    by (simp add: one_sided_def)
  moreover have "own_service (pt_port t)"
    if "extract_target h = Some t" "is_localhost (pt_host t)" "pt_port t \<noteq> 18088" "\<not> is_nilbox_control_request h" for t
    using that by (auto simp: own_service_def)
  ultimately show ?thesis
    by (auto simp: dispatch_def forward_to_host_sided cdp_proxy_sided localhost_sided split: option.split)
qed

lemma read_request_sided: "one_sided (fst (read_request g b rs))"
proof (induction g b rs rule: read_request.induct)
  case (1 g b rs)
  have "one_sided []"
    by (simp add: one_sided_def)
  then show ?case
    by (subst read_request.simps) (auto simp: dispatch_sided 1 split: option.split list.split client_read.split)
qed

lemma with_mux_subset: "with_mux g xs = (ys, r) \<Longrightarrow> set ys \<subseteq> set xs"
  using with_mux_set [of _ g xs] by auto

lemma transparent_tls_ops: "set (fst (handle_transparent_tls g b d)) \<subseteq> range OpenReverse \<union> {ToHost b, PumpHost}"
proof (cases "extract_sni b")
  case (Ok sni)
  let ?op = "OpenReverse (str_bytes (connect_header (case sni of Some n \<Rightarrow> n | None \<Rightarrow> fst d) (snd d)))"
  obtain ys r where w: "with_mux g [?op] = (ys, r)"
    by fastforce
  have y: "set ys \<subseteq> {?op}"
    using with_mux_subset [OF w] by simp
  obtain zs q where z: "run_ops g [ToHost b, PumpHost] = (zs, q)"
    by fastforce
  have "set zs \<subseteq> {ToHost b, PumpHost}"
    using run_ops_set [of _ g "[ToHost b, PumpHost]"] z by (auto simp del: run_ops.simps)
  with y show ?thesis
    using Ok by (cases r) (auto simp: handle_transparent_tls_def Let_def w z simp del: run_ops.simps split: option.splits if_splits)
qed (simp_all add: handle_transparent_tls_def)

lemma transparent_tls_sided: "one_sided (fst (handle_transparent_tls g b d))"
  using transparent_tls_ops [of g b d] by (intro one_sided_host) (fastforce simp: op_side_def split: proxy_op.splits)

lemma dispatch_forwards:
  assumes "dispatch g h body = (OpenReverse h' # ops, Ok ())"
  shows "h' = h \<and> ops = unless_empty body ToHost @ [PumpHost]"
  using assms
  by (auto simp: dispatch_def forward_to_host_def handle_localhost_direct_def handle_nilbox_cdp_proxy_def
      dest!: with_mux_Ok run_ops_Ok simp del: run_ops.simps split: if_splits option.splits)

lemma find_str_split:
  assumes "find_str b p = Some n"
  shows "\<exists>a c. b = a @ p @ c \<and> take (n + length p) b = a @ p \<and> drop (n + length p) b = c"
proof -
  have b: "b = take n b @ p @ drop (n + length p) b" "n + length p \<le> length b"
    using find_str_Some [OF assms] by auto
  then have "take (n + length p) b = take (n + length p) (take n b @ p @ drop (n + length p) b)"
    by (rule_tac arg_cong)
  then have "take (n + length p) b = take n b @ p"
    using b(2) by simp
  then show ?thesis
    using b(1) by blast
qed

lemma read_request_found:
  assumes "find_str b CRLF2 = Some pos" "read_request g b rs = (OpenReverse h # ops, Ok ())"
  shows "\<exists>body a. b = h @ body \<and> h = a @ CRLF2 \<and> ops = unless_empty body ToHost @ [PumpHost]"
proof -
  have "length CRLF2 = 4"
    by (simp add: CRLF2_def)
  from find_str_split [OF assms(1), unfolded this]
  obtain a c where "b = a @ CRLF2 @ c" "take (pos + 4) b = a @ CRLF2" "drop (pos + 4) b = c"
    by blast
  moreover have "dispatch g (take (pos + 4) b) (drop (pos + 4) b) = (OpenReverse h # ops, Ok ())"
    using assms by (simp add: read_request.simps [of g b])
  ultimately show ?thesis
    using dispatch_forwards by (metis append.assoc)
qed

lemma read_request_forwards:
  assumes "read_request g b (map Piece ds) = (OpenReverse h # ops, Ok ())"
  shows "\<exists>n body a. b @ concat (take n ds) = h @ body \<and> h = a @ CRLF2 \<and> ops = unless_empty body ToHost @ [PumpHost]"
  using assms
proof (induction ds arbitrary: b)
  case Nil
  then obtain pos where "find_str b CRLF2 = Some pos"
    by (auto simp: read_request.simps [of g b] split: option.splits)
  from read_request_found [OF this Nil] show ?case
    by auto
next
  case (Cons d ds)
  show ?case
  proof (cases "find_str b CRLF2")
    case None
    then have "read_request g (b @ d) (map Piece ds) = (OpenReverse h # ops, Ok ())"
      using Cons.prems by (subst (asm) read_request.simps) (auto split: if_splits)
    then obtain n body a where "(b @ d) @ concat (take n ds) = h @ body" "h = a @ CRLF2" "ops = unless_empty body ToHost @ [PumpHost]"
      using Cons.IH by blast
    then show ?thesis
      by (intro exI [of _ "Suc n"] exI [of _ body] exI [of _ a]) simp
  next
    case (Some pos)
    from read_request_found [OF this Cons.prems] obtain body a where "b = h @ body" "h = a @ CRLF2" "ops = unless_empty body ToHost @ [PumpHost]"
      by blast
    then show ?thesis
      by (intro exI [of _ 0] exI [of _ body] exI [of _ a]) simp
  qed
qed

lemma host_name_port:
  "CHR '':'' \<notin> set n \<Longrightarrow> host_name (n @ CHR '':'' # s) = n"
  "CHR '':'' \<notin> set n \<Longrightarrow> host_port (n @ CHR '':'' # nat_digits (unat (p :: u16))) d = p"
proof -
  assume n: "CHR '':'' \<notin> set n"
  have "split_str c (l @ c # r) = l # split_str c r" if "c \<notin> set l" for c :: char and l r
    using that by (induction l) auto
  with n show "host_name (n @ CHR '':'' # s) = n"
    by (simp add: host_name_def)
  have p: "unat p < 2 ^ 16"
    using unat_bound [of p] by simp
  then have "parse_u64 (nat_digits (unat p)) = Some (of_nat (unat p))"
    unfolding parse_u64_def by (subst parse_nat_digits) auto
  moreover have "unat (of_nat (unat p) :: u64) = unat p"
    using p by (simp only: unat_of_nat) simp
  ultimately show "host_port (n @ CHR '':'' # nat_digits (unat p)) d = p"
    using n p by (simp add: host_port_def)
qed

lemma client_hello_ne: "client_hello h \<noteq> []" "hd (client_hello h) = 0x16"
  by (simp_all add: client_hello_def)


section \<open>Properties\<close>

text \<open>the parser that takes the server name out of the first bytes of a TLS connection never panics,
  whatever the guest's program sends.\<close>

theorem sni_parser_never_panics: "extract_sni dat \<noteq> Panic"
  by (rule extract_sni_total)


text \<open>of a plain request that goes to the host the host sees exactly the bytes the client sent, cut after
  the end of the header and nowhere else.\<close>

theorem host_sees_client_bytes:
  assumes "handle_connection g dst (map Piece ds) = (OpenReverse h # ops, Ok ())" "ds \<noteq> []" "hd (hd ds) \<noteq> 0x16"
  shows "\<exists>n body a. concat (take n ds) = h @ body \<and> h = a @ CRLF2 \<and> ops = unless_empty body ToHost @ [PumpHost]"
proof -
  obtain d r where ds: "ds = d # r"
    using assms(2) by (cases ds) auto
  have "read_request g d (map Piece r) = (OpenReverse h # ops, Ok ())"
    using assms(1,3) unfolding ds
    by (auto simp: handle_connection_def handle_host_connect_def dest!: with_mux_Ok split: option.splits if_splits)
  then obtain n body a where "d @ concat (take n r) = h @ body" "h = a @ CRLF2" "ops = unless_empty body ToHost @ [PumpHost]"
    using read_request_forwards by blast
  then show ?thesis
    unfolding ds by (intro exI [of _ "Suc n"] exI [of _ body] exI [of _ a]) simp
qed



section \<open>Examples\<close>

definition nl :: string where "nl = [CHR 0x0D, CHR 0x0A]"

definition sample_net :: guest_net where
  "sample_net = \<lparr>gn_ok = (\<lambda>_. True), gn_mux = True, gn_reply = Some (str_bytes ''200'')\<rparr>"

definition sample_hello :: hello where
  "sample_hello = \<lparr>h_fixed = replicate 34 0, h_session = [], h_ciphers = [0x13, 1], h_compression = [0],
     h_before = [(43, [2, 3, 4])], h_name = ''a.io'', h_after = []\<rparr>"

lemma sample_hello_ok: "hello_ok sample_hello"
proof -
  have "rust_string (h_name sample_hello)"
    by (rule ascii_rust_string) (simp add: sample_hello_def is_ascii_def)
  moreover have "length (h_fixed sample_hello) = 34" "length (h_session sample_hello) < 256" "length (h_compression sample_hello) < 256"
    "list_all (\<lambda>x. fst x \<noteq> 0) (h_before sample_hello)"
    by (simp_all add: sample_hello_def)
  moreover have "length (hello_body sample_hello) + 4 < 65536"
    by (simp add: sample_hello_def hello_body_def extensions_def extension_def name_extension_def)
  ultimately show ?thesis
    by (simp add: hello_ok_def)
qed


definition sample_get :: bytes where "sample_get = str_bytes (''GET / HTTP/1.0'' @ nl @ nl)"

lemma ascii_utf8: "is_ascii s \<Longrightarrow> valid_utf8 (str_bytes s)"
  using ascii_rust_string by (simp add: rust_string_def)

lemma request_words_ascii:
  "is_ascii s \<Longrightarrow> request_words (str_bytes s) = (case lines_of s of [] \<Rightarrow> None | l # ls \<Rightarrow> Some (split_ws l, ls))"
  by (simp add: request_words_def ascii_utf8)

lemma sample_get_forwarded:
  "handle_connection sample_net None (map Piece [sample_get @ [1]]) = (OpenReverse sample_get # [ToHost [1], PumpHost], Ok ())"
proof -
  have f: "find_str (sample_get @ [1]) CRLF2 = Some 14" "take (14 + 4) (sample_get @ [1]) = sample_get" "drop (14 + 4) (sample_get @ [1]) = [1]"
    "sample_get \<noteq> []" "hd sample_get \<noteq> 0x16"
    by (simp_all add: sample_get_def str_bytes_def nl_def CRLF2_def)
  have "is_ascii (''GET / HTTP/1.0'' @ nl @ nl)" "lines_of (''GET / HTTP/1.0'' @ nl @ nl) = [''GET / HTTP/1.0'', []]"
    "split_ws ''GET / HTTP/1.0'' = [''GET'', ''/'', ''HTTP/1.0'']"
    by code_simp+
  then have w: "request_words sample_get = Some ([''GET'', ''/'', ''HTTP/1.0''], [[]])"
    by (simp only: sample_get_def request_words_ascii list.case)
  then have "\<not> is_nilbox_control_request sample_get"
    by (simp add: is_nilbox_control_request_def)
  moreover have "\<not> eq_ignore_ascii_case ''GET'' ''CONNECT''" "strip_prefix ''/'' ''http://'' = None" "host_header [[]] = None"
    by code_simp+
  then have "extract_target sample_get = None"
    by (simp only: extract_target_def w list.case option.case prod.case Let_def if_False)
  ultimately have "dispatch sample_net sample_get [1] = (OpenReverse sample_get # [ToHost [1], PumpHost], Ok ())"
    by (simp add: dispatch_def forward_to_host_def with_mux_def unless_empty_def sample_net_def)
  then show ?thesis
    using f by (simp add: handle_connection_def read_request.simps)
qed

theorem host_sees_client_bytes_witness:
  "\<exists>n body a. concat (take n [sample_get @ [1]]) = sample_get @ body \<and> sample_get = a @ CRLF2
    \<and> [ToHost [1], PumpHost] = unless_empty body ToHost @ [PumpHost]"
  by (rule host_sees_client_bytes [OF sample_get_forwarded]) (simp_all add: sample_get_def str_bytes_def)

text \<open>A page of a local server whose address contains the marker of the control requests is fetched by the
  host.\<close>

lemma marker_shadows_local_server:
  "dispatch g (str_bytes (''GET http://localhost/a/__nilbox__/b HTTP/1.1'' @ nl @ nl)) body
    = forward_to_host g (str_bytes (''GET http://localhost/a/__nilbox__/b HTTP/1.1'' @ nl @ nl)) body"
proof -
  have "is_ascii (''GET http://localhost/a/__nilbox__/b HTTP/1.1'' @ nl @ nl)"
    "lines_of (''GET http://localhost/a/__nilbox__/b HTTP/1.1'' @ nl @ nl) = [''GET http://localhost/a/__nilbox__/b HTTP/1.1'', []]"
    "split_ws ''GET http://localhost/a/__nilbox__/b HTTP/1.1'' = [''GET'', ''http://localhost/a/__nilbox__/b'', ''HTTP/1.1'']"
    "contains_str ''http://localhost/a/__nilbox__/b'' ''/__nilbox__/''"
    by code_simp+
  then show ?thesis
    by (simp only: dispatch_def is_nilbox_control_request_def request_words_ascii list.case option.case prod.case simp_thms if_True)
qed

text \<open>A query right after the host is lost, and a slash in it is taken for the path.\<close>

lemma rewrite_absolute:
  assumes "is_ascii (verb @ '' http://'' @ rest @ '' '' @ version @ nl @ s)" "CHR '' '' \<notin> set verb" "CHR '' '' \<notin> set rest"
    and "CHR 0x0D \<notin> set (verb @ rest @ version)"
  shows "rewrite_request_uri (str_bytes (verb @ '' http://'' @ rest @ '' '' @ version @ nl @ s))
    = str_bytes (verb @ '' '' @ (let p = dropWhile (\<lambda>c. c \<noteq> CHR ''/'') rest in if p = [] then ''/'' else p) @ '' '' @ version @ nl @ s)"
proof -
  define h where "h = verb @ '' http://'' @ rest @ '' '' @ version"
  have "CHR 0x0D \<notin> set h"
    using assms(4) by (simp add: h_def)
  then have f: "find_str (h @ nl @ s) nl = Some (length h)"
    by (induction h) (auto simp: nl_def)
  have t: "take (length h) (h @ nl @ s) = h" "drop (length h) (h @ nl @ s) = nl @ s"
    by simp_all
  have "split_once (CHR '' '') h = Some (verb, ''http://'' @ rest @ '' '' @ version)"
    using split_once_append [OF assms(2), of "''http://'' @ rest @ '' '' @ version"] by (simp add: h_def)
  moreover have "split_once (CHR '' '') (''http://'' @ rest @ '' '' @ version) = Some (''http://'' @ rest, version)"
    using split_once_append [of "CHR '' ''" "''http://'' @ rest" version] assms(3) by simp
  moreover have "strip_prefix (''http://'' @ rest) ''http://'' = Some rest"
    by (simp add: strip_prefix_def)
  moreover have "valid_utf8 (str_bytes (h @ nl @ s))"
    using assms(1) by (intro ascii_utf8) (simp add: h_def)
  ultimately have "rewrite_request_uri (str_bytes (h @ nl @ s))
    = str_bytes (verb @ '' '' @ (let p = dropWhile (\<lambda>c. c \<noteq> CHR ''/'') rest in if p = [] then ''/'' else p) @ '' '' @ version @ nl @ s)"
    using f t by (simp add: rewrite_request_uri_def nl_def [symmetric] Let_def del: take_append drop_append dropWhile_eq_Nil_conv)
  then show ?thesis
    by (simp add: h_def)
qed

text \<open>Once the client has closed its sending side nothing more reaches it.\<close>

lemma pump_half_close: "pump ok (TcpEof # es) = [CloseHost]"
  by simp

lemma pump_copies:
  "(\<And>x. ok x) \<Longrightarrow> (\<forall>e \<in> set es. \<exists>d. e = FromTcp d \<or> e = FromHost d) \<Longrightarrow>
   pump ok es = map (\<lambda>e. case e of FromTcp d \<Rightarrow> WriteHost d | FromHost d \<Rightarrow> WriteTcp d | _ \<Rightarrow> CloseHost) es"
  by (induction es) auto

end
