(* ===== verification/Mcp_Proxy.thy ===== *)
theory Mcp_Proxy
  imports Rust_Text Json
begin

text \<open>
  MCP servers: the guest's daemon \<open>vm-agent/src/bin/mcp_stdio_proxy.rs\<close>, which listens on a port per
  configured server and connects one client at a time to a program it starts, the register of the
  host, \<open>crates/nilbox-core/src/mcp_bridge/mod.rs\<close>, and the relay \<open>crates/nilbox-mcp-bridge/src/main.rs\<close>.  A hash map
  is a list of pairs with distinct keys (an environment sorted by them, so that equality is the code's); where the code goes through one, the order is a parameter.
\<close>

section \<open>Configuration\<close>

record ServerEntry =
  se_name :: "string option"
  se_port :: "u16 option"
  se_command :: "string list"
  se_env :: "(string \<times> string) list option"

definition display_name :: "ServerEntry \<Rightarrow> u16 \<Rightarrow> string" where
  "display_name s port = (case se_name s of Some n \<Rightarrow> n | None \<Rightarrow> ''port-'' @ nat_digits (unat port))"

text \<open>\<open>text\<close> is the file, if it exists and can be read, and \<open>parse\<close> what \<open>serde_json\<close> makes of it.\<close>

definition load_config :: "(string \<Rightarrow> ServerEntry list option) \<Rightarrow> string option \<Rightarrow> ServerEntry list" where
  "load_config parse content = (case Option.bind content parse of Some ss \<Rightarrow> ss | None \<Rightarrow> [])"

text \<open>The first valid entry of each port.\<close>

fun desired_servers :: "(u16 \<times> ServerEntry) list \<Rightarrow> ServerEntry list \<Rightarrow> (u16 \<times> ServerEntry) list" where
  "desired_servers acc [] = acc"
| "desired_servers acc (s # ss) =
    (case se_port s of
       Some p \<Rightarrow>
         if \<not> 0 < p then desired_servers acc ss
         else if se_command s = [] then desired_servers acc ss
         else if map_of acc p \<noteq> None then desired_servers acc ss
         else desired_servers (acc @ [(p, s)]) ss
     | None \<Rightarrow> desired_servers acc ss)"


section \<open>The daemon\<close>

text \<open>A listener has its configuration and the lock of its sessions; a listener whose accepting failed
  stays in the table.\<close>

record daemon =
  dm_listeners :: "(u16 \<times> ServerEntry \<times> nat) list"
  dm_next :: nat
  dm_dead :: "nat list"
  dm_sessions :: "(nat \<times> u16) list"

definition daemon_new :: daemon where
  "daemon_new = \<lparr>dm_listeners = [], dm_next = 0, dm_dead = [], dm_sessions = []\<rparr>"

definition start_server :: "(u16 \<Rightarrow> bool) \<Rightarrow> u16 \<Rightarrow> ServerEntry \<Rightarrow> daemon \<Rightarrow> daemon" where
  "start_server bind port cfg d =
    (if bind port then d\<lparr>dm_listeners := dm_listeners d @ [(port, cfg, dm_next d)], dm_next := Suc (dm_next d)\<rparr> else d)"

definition stop_changed :: "(u16 \<times> ServerEntry) list \<Rightarrow> daemon \<Rightarrow> daemon" where
  "stop_changed desired d = d\<lparr>dm_listeners := filter (\<lambda>(p, cfg, _). map_of desired p = Some cfg) (dm_listeners d)\<rparr>"

definition start_new :: "(u16 \<Rightarrow> bool) \<Rightarrow> (u16 \<times> ServerEntry) list \<Rightarrow> daemon \<Rightarrow> daemon" where
  "start_new bind desired d =
    foldl (\<lambda>d (p, cfg). if map_of (dm_listeners d) p \<noteq> None then d else start_server bind p cfg d) d desired"

text \<open>\<open>ord\<close> is the order of the hash map; \<open>bind\<close> says which ports can be bound now, when the listeners that
  were stopped may not have been closed yet.\<close>

definition apply_config ::
  "((u16 \<times> ServerEntry) list \<Rightarrow> (u16 \<times> ServerEntry) list) \<Rightarrow> (u16 \<Rightarrow> bool) \<Rightarrow> ServerEntry list \<Rightarrow> daemon \<Rightarrow> daemon" where
  "apply_config ord bind servers d =
    (let desired = desired_servers [] servers in start_new bind (ord desired) (stop_changed desired d))"

definition stop_all :: "daemon \<Rightarrow> daemon" where "stop_all d = d\<lparr>dm_listeners := []\<rparr>"

text \<open>A connection: one session per lock, and the program may not start.\<close>

definition accept_connection :: "u16 \<Rightarrow> bool \<Rightarrow> daemon \<Rightarrow> daemon" where
  "accept_connection port spawn d =
    (case map_of (dm_listeners d) port of
       None \<Rightarrow> d
     | Some (cfg, lock) \<Rightarrow>
         if lock \<in> set (dm_dead d) then d
         else if lock \<in> fst ` set (dm_sessions d) then d
         else if se_command cfg = [] then d
         else if \<not> spawn then d
         else d\<lparr>dm_sessions := (lock, port) # dm_sessions d\<rparr>)"

datatype mcp_event =
    Reload "u16 \<Rightarrow> bool" "ServerEntry list" | Client u16 bool | SessionEnded nat | AcceptError u16 | Shutdown

definition daemon_step :: "((u16 \<times> ServerEntry) list \<Rightarrow> (u16 \<times> ServerEntry) list) \<Rightarrow> mcp_event \<Rightarrow> daemon \<Rightarrow> daemon" where
  "daemon_step ord e d =
    (case e of
       Reload bind servers \<Rightarrow> apply_config ord bind servers d
     | Client port spawn \<Rightarrow> accept_connection port spawn d
     | SessionEnded lock \<Rightarrow> d\<lparr>dm_sessions := filter (\<lambda>s. fst s \<noteq> lock) (dm_sessions d)\<rparr>
     | AcceptError port \<Rightarrow>
         (case map_of (dm_listeners d) port of Some (_, lock) \<Rightarrow> d\<lparr>dm_dead := lock # dm_dead d\<rparr> | None \<Rightarrow> d)
     | Shutdown \<Rightarrow> stop_all d)"

definition daemon_run :: "((u16 \<times> ServerEntry) list \<Rightarrow> (u16 \<times> ServerEntry) list) \<Rightarrow> mcp_event list \<Rightarrow> daemon" where
  "daemon_run ord es = foldl (\<lambda>d e. daemon_step ord e d) daemon_new es"


section \<open>A session\<close>

text \<open>Data, or the end or an error, of the client's connection and of the program's output.\<close>

datatype session_event = ClientData bytes | ClientEnd | ServerData bytes | ServerEnd

datatype session_op = WriteServer bytes | CloseServer | WriteClient bytes | ShutdownClient | SigTerm | SigKill

text \<open>How the program is ended: whether it has ended already, whether it has a process number, and
  whether it ends within five seconds.\<close>

definition terminate_subprocess :: "bool \<Rightarrow> bool \<Rightarrow> bool \<Rightarrow> session_op list" where
  "terminate_subprocess exited has_pid ends = (if exited then [] else (if has_pid then [SigTerm] else []) @ (if ends then [] else [SigKill]))"

text \<open>When the first direction ends, the program is ended (\<open>fin\<close>); the task of the other direction is not
  awaited and goes on with what still comes.\<close>

fun session :: "(session_op \<Rightarrow> bool) \<Rightarrow> session_op list \<Rightarrow> bool \<Rightarrow> bool \<Rightarrow> session_event list \<Rightarrow> session_op list" where
  "session ok fin inp outp [] = []"
| "session ok fin inp outp (ClientData d # es) =
    (if \<not> inp then session ok fin inp outp es
     else WriteServer d #
       (if ok (WriteServer d) then session ok fin inp outp es
        else CloseServer # (if outp then fin else []) @ session ok fin False outp es))"
| "session ok fin inp outp (ClientEnd # es) =
    (if \<not> inp then session ok fin inp outp es
     else CloseServer # (if outp then fin else []) @ session ok fin False outp es)"
| "session ok fin inp outp (ServerData d # es) =
    (if \<not> outp then session ok fin inp outp es
     else WriteClient d #
       (if ok (WriteClient d) then session ok fin inp outp es
        else ShutdownClient # (if inp then fin else []) @ session ok fin inp False es))"
| "session ok fin inp outp (ServerEnd # es) =
    (if \<not> outp then session ok fin inp outp es
     else ShutdownClient # (if inp then fin else []) @ session ok fin inp False es)"


section \<open>Watching the file\<close>

text \<open>A buffer of inotify events: watch, mask, cookie, length of the name, the padded name.\<close>

function has_target_event :: "bytes \<Rightarrow> bytes \<Rightarrow> bool" where
  "has_target_event dat filename =
    (if 16 \<le> length dat then
       (let name_len = unat (u32_from_le (take 4 (drop 12 dat)))
        in if length dat < 16 + name_len then False
           else if takeWhile (\<lambda>b. b \<noteq> 0) (take name_len (drop 16 dat)) = filename then True
           else has_target_event (drop (16 + name_len) dat) filename)
     else False)"
  by pat_completeness auto

termination has_target_event
  by (relation "measure (\<lambda>(d, _). length d)") auto

declare has_target_event.simps [simp del]


section \<open>The register of the host\<close>

datatype McpTransport = Stdio | Sse

record McpServerInfo =
  mi_id :: string
  mi_name :: string
  mi_vm_port :: u16
  mi_host_port :: u16
  mi_transport :: McpTransport

type_synonym registry = "(string \<times> McpServerInfo) list"

definition register :: "string \<Rightarrow> string \<Rightarrow> u16 \<Rightarrow> u16 \<Rightarrow> McpTransport \<Rightarrow> registry \<Rightarrow> registry \<times> string" where
  "register fresh name vm_port host_port transport r =
    (r @ [(fresh, \<lparr>mi_id = fresh, mi_name = name, mi_vm_port = vm_port, mi_host_port = host_port, mi_transport = transport\<rparr>)], fresh)"

definition unregister :: "string \<Rightarrow> registry \<Rightarrow> (unit, registry) outcome" where
  "unregister sid r = (if map_of r sid = None then Err () else Ok (filter (\<lambda>x. fst x \<noteq> sid) r))"

definition resolve_bridge_path :: "bool \<Rightarrow> string option \<Rightarrow> (string \<Rightarrow> bool) \<Rightarrow> string" where
  "resolve_bridge_path windows exe_dir exists =
    (let binary_name = (if windows then ''nilbox-mcp-bridge.exe'' else ''nilbox-mcp-bridge'')
     in case exe_dir of
          Some d \<Rightarrow> if exists (d @ ''/'' @ binary_name) then d @ ''/'' @ binary_name else binary_name
        | None \<Rightarrow> binary_name)"

definition server_entry :: "string \<Rightarrow> u16 \<Rightarrow> json" where
  "server_entry bridge_path host_port =
    JObj [(''command'', JStr bridge_path), (''args'', JArr [JStr ''--port'', JStr (nat_digits (unat host_port))])]"

definition generate_claude_config :: "string \<Rightarrow> registry \<Rightarrow> json" where
  "generate_claude_config bridge_path r =
    JObj [(''mcpServers'', JObj (foldl (\<lambda>m (_, i). obj_put (mi_name i) (server_entry bridge_path (mi_host_port i)) m) [] r))]"


section \<open>The relay\<close>

datatype bridge_error = PortRequired | NotLoopback | Unresolved | NoAddress | ConnectFailed

text \<open>\<open>parse_ip\<close> says of a literal address whether it is a loopback address; \<open>resolve\<close> gives the addresses of
  a name in the same way.\<close>

definition validate_localhost :: "(string \<Rightarrow> bool option) \<Rightarrow> (string \<Rightarrow> bool list option) \<Rightarrow> string \<Rightarrow> (bridge_error, unit) outcome" where
  "validate_localhost parse_ip lookup host =
    (if host = ''localhost'' \<or> host = ''127.0.0.1'' \<or> host = ''::1'' then Ok ()
     else (case parse_ip host of
             Some loopback \<Rightarrow> if loopback then Ok () else Err NotLoopback
           | None \<Rightarrow>
               (case lookup host of
                  None \<Rightarrow> Err Unresolved
                | Some addrs \<Rightarrow> if addrs = [] then Err NoAddress else if list_all (\<lambda>l. l) addrs then Ok () else Err NotLoopback)))"

datatype bridge_command = Bridge u16 string | GenerateConfig string u16

datatype bridge_run = Bridged string u16 | Printed json

text \<open>\<open>connect\<close> is the connection to a name and port, which resolves the name again.\<close>

definition run_bridge ::
  "(string \<Rightarrow> bool option) \<Rightarrow> (string \<Rightarrow> bool list option) \<Rightarrow> (string \<Rightarrow> u16 \<Rightarrow> bool) \<Rightarrow> string \<Rightarrow> u16 \<Rightarrow> (bridge_error, bridge_run) outcome" where
  "run_bridge parse_ip lookup connect host port =
    and_then (validate_localhost parse_ip lookup host) (\<lambda>_. if connect host port then Ok (Bridged host port) else Err ConnectFailed)"

definition generate_config :: "string option \<Rightarrow> string \<Rightarrow> u16 \<Rightarrow> json" where
  "generate_config exe name port =
    JObj [(''mcpServers'', JObj [(name, server_entry (case exe of Some p \<Rightarrow> p | None \<Rightarrow> ''nilbox-mcp-bridge'') port)])]"

definition bridge_main ::
  "(string \<Rightarrow> bool option) \<Rightarrow> (string \<Rightarrow> bool list option) \<Rightarrow> (string \<Rightarrow> u16 \<Rightarrow> bool) \<Rightarrow> string option \<Rightarrow>
   bridge_command option \<Rightarrow> string \<Rightarrow> u16 \<Rightarrow> (bridge_error, bridge_run) outcome" where
  "bridge_main parse_ip lookup connect exe cmd host port =
    (case cmd of
       Some (Bridge p h) \<Rightarrow> run_bridge parse_ip lookup connect h p
     | Some (GenerateConfig name p) \<Rightarrow> Ok (Printed (generate_config exe name p))
     | None \<Rightarrow> if port = 0 then Err PortRequired else run_bridge parse_ip lookup connect host port)"

text \<open>The relay copies in both directions until the server closes; the end of its input is not passed on.\<close>

datatype relay_event = Input bytes | InputEnd | FromServer bytes | ServerClosed

datatype relay_op = ToServer bytes | Output bytes

fun relay :: "(relay_op \<Rightarrow> bool) \<Rightarrow> bool \<Rightarrow> relay_event list \<Rightarrow> relay_op list \<times> bool" where
  "relay ok open [] = ([], False)"
| "relay ok open (Input d # es) =
    (if open then (case relay ok (ok (ToServer d)) es of (os, fin) \<Rightarrow> (ToServer d # os, fin)) else relay ok open es)"
| "relay ok open (InputEnd # es) = relay ok False es"
| "relay ok open (FromServer d # es) =
    (if ok (Output d) then (case relay ok open es of (os, fin) \<Rightarrow> (Output d # os, fin)) else ([Output d], True))"
| "relay ok open (ServerClosed # es) = ([], True)"


section \<open>Lemmas\<close>

definition serves :: "u16 \<Rightarrow> ServerEntry \<Rightarrow> bool" where
  "serves p s \<longleftrightarrow> se_port s = Some p \<and> 0 < p \<and> se_command s \<noteq> []"

lemma desired_servers_lookup:
  "map_of (desired_servers acc ss) p = (case map_of acc p of Some c \<Rightarrow> Some c | None \<Rightarrow> find (serves p) ss)"
proof (induction acc ss rule: desired_servers.induct)
  case (2 acc s ss)
  then show ?case
    by (cases "se_port s") (auto simp: serves_def split: option.splits if_splits)
qed (auto split: option.splits)

lemma desired_servers_distinct: "distinct (map fst acc) \<Longrightarrow> distinct (map fst (desired_servers acc ss))"
proof (induction acc ss rule: desired_servers.induct)
  case (2 acc s ss)
  then show ?case
    by (cases "se_port s") (auto simp: map_of_eq_None_iff)
qed simp

lemma map_of_reordered: "distinct (map fst xs) \<Longrightarrow> set ys = set xs \<Longrightarrow> map_of ys p = map_of xs p"
proof -
  assume d: "distinct (map fst xs)" and s: "set ys = set xs"
  show ?thesis
  proof (cases "map_of ys p")
    case None
    then have "map_of xs p = None"
      using s by (simp add: map_of_eq_None_iff)
    with None show ?thesis
      by simp
  next
    case (Some c)
    then have "(p, c) \<in> set xs"
      using map_of_SomeD s by fastforce
    with d Some show ?thesis
      by simp
  qed
qed

definition start_one :: "(u16 \<Rightarrow> bool) \<Rightarrow> daemon \<Rightarrow> u16 \<times> ServerEntry \<Rightarrow> daemon" where
  "start_one bind d x = (if map_of (dm_listeners d) (fst x) \<noteq> None then d else start_server bind (fst x) (snd x) d)"

lemma start_new_fold: "start_new bind ds d = foldl (start_one bind) d ds"
proof -
  have "(\<lambda>d (p, cfg). if map_of (dm_listeners d) p \<noteq> None then d else start_server bind p cfg d) = start_one bind"
    by (intro ext) (auto simp: start_one_def)
  then show ?thesis
    by (simp only: start_new_def)
qed

lemma start_one_lookup:
  "map_of (dm_listeners (start_one bind d x)) p =
    (case map_of (dm_listeners d) p of
       Some y \<Rightarrow> Some y | None \<Rightarrow> if p = fst x \<and> bind p then Some (snd x, dm_next d) else None)"
  by (auto simp: start_one_def start_server_def map_add_def split: option.splits)

lemma start_new_keeps: "map_of (dm_listeners d) p = Some y \<Longrightarrow> map_of (dm_listeners (start_new bind ds d)) p = Some y"
  unfolding start_new_fold by (induction ds arbitrary: d) (auto simp: start_one_lookup)

lemma start_new_lookup:
  "map_option fst (map_of (dm_listeners (start_new bind ds d)) p) =
    (case map_of (dm_listeners d) p of Some (c, _) \<Rightarrow> Some c | None \<Rightarrow> if bind p then map_of ds p else None)"
proof (cases "map_of (dm_listeners d) p")
  case (Some y)
  then show ?thesis
    by (cases y) (simp add: start_new_keeps)
next
  case None
  then show ?thesis
  proof (induction ds arbitrary: d)
    case (Cons x ds)
    show ?case
    proof (cases "p = fst x \<and> bind p")
      case True
      then have "map_of (dm_listeners (start_one bind d x)) p = Some (snd x, dm_next d)"
        using Cons.prems by (auto simp: start_one_lookup)
      from start_new_keeps [OF this, of bind ds] show ?thesis
        using True Cons.prems by (cases x) (simp add: start_new_fold)
    next
      case False
      then have "map_of (dm_listeners (start_one bind d x)) p = None"
        using Cons.prems by (auto simp: start_one_lookup)
      note n = this
      from Cons.IH [OF n] show ?thesis
        using False Cons.prems n by (cases x) (auto simp: start_new_fold)
    qed
  qed (simp add: start_new_fold)
qed

definition daemon_wf :: "daemon \<Rightarrow> bool" where
  "daemon_wf d \<longleftrightarrow>
    distinct (map fst (dm_listeners d)) \<and> distinct (map (snd \<circ> snd) (dm_listeners d)) \<and> distinct (map fst (dm_sessions d))
    \<and> (\<forall>x \<in> set (dm_listeners d). snd (snd x) < dm_next d) \<and> (\<forall>s \<in> set (dm_sessions d). fst s < dm_next d)
    \<and> (\<forall>l \<in> set (dm_dead d). l < dm_next d)"

lemma start_one_wf: "daemon_wf d \<Longrightarrow> daemon_wf (start_one bind d x)"
  unfolding daemon_wf_def start_one_def start_server_def by (auto simp: map_of_eq_None_iff less_Suc_eq)

lemma start_new_wf: "daemon_wf d \<Longrightarrow> daemon_wf (start_new bind ds d)"
  unfolding start_new_fold by (induction ds arbitrary: d) (simp_all add: start_one_wf)

lemma stop_changed_wf: "daemon_wf d \<Longrightarrow> daemon_wf (stop_changed ds d)"
  unfolding daemon_wf_def stop_changed_def by (auto simp: distinct_map_filter)

lemma accept_connection_wf: "daemon_wf d \<Longrightarrow> daemon_wf (accept_connection p sp d)"
  unfolding daemon_wf_def accept_connection_def by (force dest: map_of_SomeD split: option.splits)

lemma daemon_step_wf: "daemon_wf d \<Longrightarrow> daemon_wf (daemon_step ord e d)"
proof (cases e)
  case (AcceptError p)
  assume "daemon_wf d"
  then show ?thesis
    unfolding AcceptError daemon_step_def by (force simp: daemon_wf_def dest: map_of_SomeD split: option.splits)
qed (auto simp: daemon_step_def apply_config_def Let_def start_new_wf stop_changed_wf accept_connection_wf,
     auto simp: daemon_wf_def stop_all_def distinct_map_filter)

lemma daemon_run_wf: "daemon_wf (daemon_run ord es)"
proof -
  have "daemon_wf daemon_new"
    by (simp add: daemon_wf_def daemon_new_def)
  then have "daemon_wf (foldl (\<lambda>d e. daemon_step ord e d) daemon_new es)"
    by (induction es rule: rev_induct) (simp_all add: daemon_step_wf)
  then show ?thesis
    by (simp add: daemon_run_def)
qed

lemma stop_changed_lookup:
  assumes "distinct (map fst (dm_listeners d))"
  shows "map_of (dm_listeners (stop_changed ds d)) p =
    (case map_of (dm_listeners d) p of Some (c, l) \<Rightarrow> if map_of ds p = Some c then Some (c, l) else None | None \<Rightarrow> None)"
proof -
  have "map_of (filter (\<lambda>(p, cfg, _). map_of ds p = Some cfg) xs) p =
      (case map_of xs p of Some (c, l) \<Rightarrow> if map_of ds p = Some c then Some (c, l) else None | None \<Rightarrow> None)"
    if "distinct (map fst xs)" for xs :: "(u16 \<times> ServerEntry \<times> nat) list"
    using that
  proof (induction xs)
    case (Cons x xs)
    then show ?case
      by (cases x) (auto simp: map_of_eq_None_iff split: option.splits dest: map_of_SomeD)
  qed simp
  from this [OF assms] show ?thesis
    by (simp add: stop_changed_def)
qed

lemma apply_config_lookup:
  assumes "distinct (map fst (dm_listeners d))" "\<And>xs. set (ord xs) = set xs"
  shows "map_option fst (map_of (dm_listeners (apply_config ord bind ss d)) p)
      = (case find (serves p) ss of
           Some c \<Rightarrow> if bind p \<or> map_option fst (map_of (dm_listeners d) p) = Some c then Some c else None
         | None \<Rightarrow> None)"
proof -
  have "map_of (ord (desired_servers [] ss)) p = find (serves p) ss"
    using map_of_reordered [OF desired_servers_distinct assms(2), of "[]" ss p] by (simp add: desired_servers_lookup)
  moreover have "map_of (desired_servers [] ss) p = find (serves p) ss"
    by (simp add: desired_servers_lookup)
  ultimately show ?thesis
    unfolding apply_config_def Let_def start_new_lookup stop_changed_lookup [OF assms(1)]
    by (auto split: option.splits)
qed

text \<open>Events as the kernel writes them: twelve bytes of numbers, the length, the name and its padding.\<close>

definition inotify_event :: "bytes \<times> bytes \<times> nat \<Rightarrow> bytes" where
  "inotify_event e = (case e of (numbers, name, pad) \<Rightarrow>
    numbers @ put_u32_le (of_nat (length name + pad)) @ name @ replicate pad 0)"

definition event_ok :: "bytes \<times> bytes \<times> nat \<Rightarrow> bool" where
  "event_ok e \<longleftrightarrow> (case e of (numbers, name, pad) \<Rightarrow> length numbers = 12 \<and> 0 \<notin> set name \<and> length name + pad < 2 ^ 32)"

lemma takeWhile_name: "0 \<notin> set name \<Longrightarrow> takeWhile (\<lambda>b. b \<noteq> 0) (name @ replicate pad (0 :: byte)) = name"
  by (subst takeWhile_append2) (auto simp: takeWhile_replicate)

lemma has_target_event_step:
  assumes "event_ok (numbers, name, pad)"
  shows "has_target_event (inotify_event (numbers, name, pad) @ r) fn \<longleftrightarrow> name = fn \<or> has_target_event r fn"
proof -
  let ?d = "inotify_event (numbers, name, pad) @ r" and ?n = "length name + pad"
  have ok: "length numbers = 12" "0 \<notin> set name" "?n < 2 ^ 32"
    using assms by (simp_all add: event_ok_def)
  have len: "16 \<le> length ?d" "\<not> length ?d < 16 + ?n"
    using ok by (simp_all add: inotify_event_def)
  have "take 4 (drop 12 ?d) = put_u32_le (of_nat ?n)"
    using ok by (simp add: inotify_event_def)
  then have n: "unat (u32_from_le (take 4 (drop 12 ?d))) = ?n"
    using ok(3) by (simp del: of_nat_add add: unat_of_nat)
  have d: "?d = (numbers @ put_u32_le (of_nat ?n)) @ (name @ replicate pad 0) @ r" "length (numbers @ put_u32_le (of_nat ?n)) = 16"
    using ok by (simp_all add: inotify_event_def)
  have t: "take ?n (drop 16 ?d) = name @ replicate pad 0" "drop (16 + ?n) ?d = r"
    unfolding d(1) using d(2) by simp_all
  show ?thesis
    using len n t takeWhile_name [OF ok(2)] by (subst has_target_event.simps) (simp add: Let_def del: append_assoc)
qed


section \<open>Properties\<close>



text \<open>whatever happens, a port has one listener and a listener at most one session.\<close>

theorem one_session_per_listener:
  "distinct (map fst (dm_listeners (daemon_run ord es))) \<and> distinct (map (snd \<circ> snd) (dm_listeners (daemon_run ord es)))
    \<and> distinct (map fst (dm_sessions (daemon_run ord es)))"
  using daemon_run_wf [of ord es] by (simp add: daemon_wf_def)

text \<open>a whole buffer of file events triggers a reload exactly if one of them is about the configuration file.\<close>

theorem target_event_exact:
  assumes "list_all event_ok evs"
  shows "has_target_event (concat (map inotify_event evs)) fn \<longleftrightarrow> (\<exists>e \<in> set evs. fst (snd e) = fn)"
  using assms
proof (induction evs)
  case Nil
  then show ?case
    by (simp add: has_target_event.simps)
next
  case (Cons e evs)
  obtain numbers name pad where "e = (numbers, name, pad)"
    by (cases e)
  then show ?case
    using Cons has_target_event_step by simp
qed

theorem target_event_exact_witness:
  "has_target_event (concat (map inotify_event [(replicate 12 1, [97, 98], 2), (replicate 12 0, [99], 15)])) [99]
    \<longleftrightarrow> (\<exists>e \<in> set [(replicate 12 (1 :: byte), [97, 98 :: byte], 2 :: nat), (replicate 12 0, [99], 15)]. fst (snd e) = [99])"
  by (rule target_event_exact) (simp add: event_ok_def)

definition sample_server :: "string \<Rightarrow> ServerEntry" where
  "sample_server c = \<lparr>se_name = None, se_port = Some 9000, se_command = [c], se_env = None\<rparr>"

text \<open>What the program is sent is a prefix of what the client wrote.\<close>

definition client_bytes :: "session_event list \<Rightarrow> bytes" where
  "client_bytes es = concat (map (\<lambda>e. case e of ClientData d \<Rightarrow> d | _ \<Rightarrow> []) es)"

definition server_bytes :: "session_op list \<Rightarrow> bytes" where
  "server_bytes ops = concat (map (\<lambda>x. case x of WriteServer d \<Rightarrow> d | _ \<Rightarrow> []) ops)"

lemma server_bytes_simps [simp]:
  "server_bytes [] = []" "server_bytes (a @ b) = server_bytes a @ server_bytes b"
  "server_bytes (x # xs) = (case x of WriteServer d \<Rightarrow> d | _ \<Rightarrow> []) @ server_bytes xs"
  by (simp_all add: server_bytes_def)

lemma session_input_closed: "server_bytes fin = [] \<Longrightarrow> server_bytes (session ok fin False outp es) = []"
proof (induction es arbitrary: outp)
  case (Cons e es)
  then show ?case
    by (cases e) simp_all
qed simp

lemma session_input_prefix:
  assumes "server_bytes fin = []"
  shows "\<exists>r. client_bytes es = server_bytes (session ok fin True outp es) @ r"
proof (induction es arbitrary: outp)
  case (Cons e es)
  have "server_bytes (session ok fin False op es) = []" for op
    using assms by (rule session_input_closed)
  with Cons assms show ?case
    by (cases e) (auto simp: client_bytes_def)
qed simp

lemma terminate_sends_nothing: "server_bytes (terminate_subprocess exited has_pid ends) = []"
  by (simp add: terminate_subprocess_def)

text \<open>A changed entry gets a new lock, so that the old session and a new one run on one port.\<close>

lemma changed_entry_two_sessions:
  "map snd (dm_sessions (daemon_run (\<lambda>xs. xs)
     [Reload (\<lambda>_. True) [sample_server ''a''], Client 9000 True, Reload (\<lambda>_. True) [sample_server ''b''], Client 9000 True])) = [9000, 9000]"
  by (simp add: daemon_run_def daemon_step_def daemon_new_def apply_config_def stop_changed_def start_new_def start_server_def
      accept_connection_def sample_server_def)

text \<open>A listener whose accepting failed is kept by a reload and serves nobody.\<close>

lemma dead_listener_kept:
  "dm_sessions (daemon_run (\<lambda>xs. xs)
     [Reload (\<lambda>_. True) [sample_server ''a''], AcceptError 9000, Reload (\<lambda>_. True) [sample_server ''a''], Client 9000 True]) = []"
  by (simp add: daemon_run_def daemon_step_def daemon_new_def apply_config_def stop_changed_def start_new_def start_server_def
      accept_connection_def sample_server_def)

text \<open>A file that cannot be read or parsed stops every listener.\<close>

lemma broken_file_stops_all: "parse content = None \<Longrightarrow> dm_listeners (apply_config (\<lambda>xs. xs) bind (load_config parse (Some content)) d) = []"
  by (simp add: load_config_def apply_config_def stop_changed_def start_new_def)

text \<open>Two servers of one name: the configuration for the client has one of them.\<close>

lemma same_name_overwritten:
  "generate_claude_config b [(''1'', \<lparr>mi_id = ''1'', mi_name = n, mi_vm_port = 1, mi_host_port = 10, mi_transport = Stdio\<rparr>),
      (''2'', \<lparr>mi_id = ''2'', mi_name = n, mi_vm_port = 2, mi_host_port = 20, mi_transport = Stdio\<rparr>)]
    = JObj [(''mcpServers'', JObj [(n, server_entry b 20)])]"
  by (simp add: generate_claude_config_def obj_put_def)

text \<open>The end of the relay's input never ends it.\<close>

lemma relay_outlives_input: "list_all (\<lambda>e. e = InputEnd \<or> (\<exists>d. e = Input d)) es \<Longrightarrow> snd (relay ok op es) = False"
proof (induction es arbitrary: op)
  case (Cons e es)
  then show ?case
    by (cases e) (simp_all add: case_prod_unfold)
qed simp

end
