(* ===== verification/Store_Account.thy ===== *)
theory Store_Account
  imports Keystore Json
begin

text \<open>
  The account at the store, \<open>store/auth.rs\<close>, and the client that sends requests in its name,
  \<open>store/client.rs\<close>.  The state is what \<open>StoreAuth\<close> shares between its tasks, the secret store, the file of
  the previous version, the background tasks that wait for a login and the requests sent so far.  The
  network answers a request knowing the earlier ones; what \<open>serde_json\<close> and \<open>base64\<close> make of a text, the clock
  and whether the data base and the browser work are parameters of the record \<open>account_env\<close>.
\<close>

section \<open>Requests and answers\<close>

datatype store_request =
    NewSession | PollToken string | RefreshRequest string | Me "string option" | Api string string "string option"

record SessionResponse =
  sr_session_id :: string
  sr_login_url :: string
  sr_poll_interval :: "u64 option"

record TokenResponse =
  tr_access_token :: string
  tr_refresh_token :: string
  tr_force_upgrade :: "bool option"
  tr_min_version :: "string option"
  tr_upgrade_message :: "string option"

record PollResponse =
  pr_status :: "string option"
  pr_access_token :: "string option"
  pr_refresh_token :: "string option"
  pr_force_upgrade :: "bool option"
  pr_min_version :: "string option"
  pr_upgrade_message :: "string option"

record ForceUpgradeInfo =
  fu_min_version :: string
  fu_upgrade_message :: string

record AuthStatus =
  as_authenticated :: bool
  as_email :: "string option"

text \<open>\<open>None\<close> is a request that failed; otherwise the status and the body.\<close>

type_synonym i64 = "64 word"

type_synonym answer = "(nat \<times> string) option"

record account_env =
  ae_net :: "store_request list \<Rightarrow> store_request \<Rightarrow> answer"
  ae_session :: "string \<Rightarrow> SessionResponse option"
  ae_tokens :: "string \<Rightarrow> TokenResponse option"
  ae_poll :: "string \<Rightarrow> PollResponse option"
  ae_user :: "string \<Rightarrow> string option"
  ae_json :: "string \<Rightarrow> json option"
  ae_b64_url :: "string \<Rightarrow> string option"
  ae_now :: i64
  ae_write_ok :: bool
  ae_browser_ok :: "string \<Rightarrow> bool"

definition is_success :: "nat \<Rightarrow> bool" where "is_success c \<longleftrightarrow> 200 \<le> c \<and> c < 300"


section \<open>The account\<close>

record account =
  ac_access :: "string option"
  ac_email :: "string option"
  ac_upgrade :: "ForceUpgradeInfo option"
  ac_keys :: keys
  ac_cancel :: bool
  ac_restored :: bool
  ac_legacy :: "string option"
  ac_polls :: "string list"
  ac_log :: "store_request list"

datatype account_error =
    NetworkError | SessionFailed nat | BadSession | RefreshRejected nat | BadTokens | BadPoll | SecretStore
  | NoRefreshToken | MeFailed | NotAuthenticated | LoginTimedOut | LoginExpired | BrowserFailed | DownloadFailed nat | BadDownload

type_synonym 'a act = "account \<Rightarrow> (account_error, 'a) outcome \<times> account"

definition bind_act :: "'a act \<Rightarrow> ('a \<Rightarrow> 'b act) \<Rightarrow> 'b act" where
  "bind_act m f s = (case m s of (Ok x, s') \<Rightarrow> f x s' | (Err e, s') \<Rightarrow> (Err e, s') | (Panic, s') \<Rightarrow> (Panic, s'))"

definition STORE_REFRESH_TOKEN :: string where "STORE_REFRESH_TOKEN = ''store:refresh_token''"
definition STORE_EMAIL :: string where "STORE_EMAIL = ''store:email''"
definition REFRESH_LEEWAY_SECS :: i64 where "REFRESH_LEEWAY_SECS = 60"

definition account_new :: "keys \<Rightarrow> string option \<Rightarrow> account" where
  "account_new ks legacy = \<lparr>ac_access = None, ac_email = None, ac_upgrade = None, ac_keys = ks, ac_cancel = False,
     ac_restored = False, ac_legacy = legacy, ac_polls = [], ac_log = []\<rparr>"

definition send_request :: "account_env \<Rightarrow> store_request \<Rightarrow> account \<Rightarrow> answer \<times> account" where
  "send_request e r s = (ae_net e (ac_log s) r, s\<lparr>ac_log := ac_log s @ [r]\<rparr>)"

definition set_secret :: "account_env \<Rightarrow> string \<Rightarrow> string \<Rightarrow> account \<Rightarrow> account" where
  "set_secret e k v s = (if ae_write_ok e then s\<lparr>ac_keys := ks_set k v (ac_keys s)\<rparr> else s)"

definition delete_secret :: "account_env \<Rightarrow> string \<Rightarrow> account \<Rightarrow> account" where
  "delete_secret e k s =
    (if ae_write_ok e then (case ks_delete k (ac_keys s) of Ok ks \<Rightarrow> s\<lparr>ac_keys := ks\<rparr> | _ \<Rightarrow> s) else s)"

definition load_refresh_token :: "account \<Rightarrow> string option" where
  "load_refresh_token s = (case ks_get (ac_keys s) STORE_REFRESH_TOKEN of Ok t \<Rightarrow> Some t | _ \<Rightarrow> None)"

definition store_tokens :: "account_env \<Rightarrow> string \<Rightarrow> string \<Rightarrow> unit act" where
  "store_tokens e access refresh s =
    (let s1 = set_secret e STORE_REFRESH_TOKEN refresh (s\<lparr>ac_access := Some access\<rparr>)
     in (if ae_write_ok e then Ok () else Err SecretStore, s1))"

definition clear_tokens :: "account_env \<Rightarrow> account \<Rightarrow> account" where
  "clear_tokens e s =
    delete_secret e STORE_EMAIL (delete_secret e STORE_REFRESH_TOKEN (s\<lparr>ac_access := None, ac_email := None\<rparr>))"

definition fetch_email :: "account_env \<Rightarrow> string act" where
  "fetch_email e s =
    (case ac_access s of
       None \<Rightarrow> (Err NotAuthenticated, s)
     | Some t \<Rightarrow>
         (case send_request e (Me (Some t)) s of
            (None, s) \<Rightarrow> (Err MeFailed, s)
          | (Some (c, body), s) \<Rightarrow>
              if \<not> is_success c then (Err MeFailed, s)
              else (case ae_user e body of None \<Rightarrow> (Err MeFailed, s) | Some m \<Rightarrow> (Ok m, s))))"

text \<open>What a flagged answer leaves in \<open>force_upgrade_info\<close>, if it names the version.\<close>

definition upgrade_of :: "bool option \<Rightarrow> string option \<Rightarrow> string option \<Rightarrow> ForceUpgradeInfo option \<Rightarrow> ForceUpgradeInfo option" where
  "upgrade_of force min_version message old =
    (if force = Some True
     then (case min_version of
             Some v \<Rightarrow> Some \<lparr>fu_min_version = v, fu_upgrade_message = (case message of Some m \<Rightarrow> m | None \<Rightarrow> [])\<rparr>
           | None \<Rightarrow> old)
     else old)"


section \<open>Expiry of the token\<close>

text \<open>\<open>splitn(3, '.').nth(1)\<close>, padded, and the claims in it; \<open>as_i64\<close> of a claim.\<close>

definition jwt_claims :: "account_env \<Rightarrow> string \<Rightarrow> json option" where
  "jwt_claims e token =
    (case split_str (CHR ''.'') token of
       _ # payload # _ \<Rightarrow>
         let padded = payload @ replicate ((4 - length payload mod 4) mod 4) (CHR ''='')
         in Option.bind (ae_b64_url e padded) (ae_json e)
     | _ \<Rightarrow> None)"

definition jwt_exp :: "account_env \<Rightarrow> string \<Rightarrow> i64 option" where
  "jwt_exp e token =
    (case jwt_claims e token of
       None \<Rightarrow> None
     | Some claims \<Rightarrow>
         (case jget claims ''exp'' of
            Some (JNum n) \<Rightarrow> if - (2 ^ 63) \<le> n \<and> n < 2 ^ 63 then Some (word_of_int n) else None
          | _ \<Rightarrow> None))"

definition is_jwt_near_expiry :: "account_env \<Rightarrow> string \<Rightarrow> i64 \<Rightarrow> bool" where
  "is_jwt_near_expiry e token leeway =
    (case jwt_exp e token of None \<Rightarrow> True | Some ex \<Rightarrow> sint (ex - ae_now e) \<le> sint leeway)"


section \<open>Operations\<close>

definition refresh :: "account_env \<Rightarrow> unit act" where
  "refresh e s =
    (case load_refresh_token s of
       None \<Rightarrow> (Err NoRefreshToken, s)
     | Some t \<Rightarrow>
         (case send_request e (RefreshRequest t) s of
            (None, s) \<Rightarrow> (Err NetworkError, s)
          | (Some (c, body), s) \<Rightarrow>
              if \<not> is_success c then (Err (RefreshRejected c), clear_tokens e s)
              else (case ae_tokens e body of
                      None \<Rightarrow> (Err BadTokens, s)
                    | Some tr \<Rightarrow>
                        bind_act (store_tokens e (tr_access_token tr) (tr_refresh_token tr))
                          (\<lambda>_ s. (Ok (), s\<lparr>ac_upgrade := (if tr_force_upgrade tr = Some True
                             then upgrade_of (Some True) (tr_min_version tr) (tr_upgrade_message tr) (ac_upgrade s) else None)\<rparr>)) s)))"

definition access_token :: "account_env \<Rightarrow> account \<Rightarrow> string option \<times> account" where
  "access_token e s =
    (case ac_access s of
       Some t \<Rightarrow>
         if \<not> is_jwt_near_expiry e t REFRESH_LEEWAY_SECS then (Some t, s)
         else (case refresh e s of (Ok _, s) \<Rightarrow> (ac_access s, s) | (_, s) \<Rightarrow> (None, s))
     | None \<Rightarrow> (None, s))"

definition force_refresh_access_token :: "account_env \<Rightarrow> account \<Rightarrow> string option \<times> account" where
  "force_refresh_access_token e s = (case refresh e s of (Ok _, s) \<Rightarrow> (ac_access s, s) | (_, s) \<Rightarrow> (None, s))"

definition is_authenticated :: "account \<Rightarrow> bool" where "is_authenticated s \<longleftrightarrow> ac_access s \<noteq> None"

definition cache_email :: "account_env \<Rightarrow> string \<Rightarrow> account \<Rightarrow> account" where
  "cache_email e m s = set_secret e STORE_EMAIL m (s\<lparr>ac_email := Some m\<rparr>)"

text \<open>\<open>fetch_email().await.ok()\<close>, cached when it succeeded.\<close>

definition fetch_and_cache :: "account_env \<Rightarrow> account \<Rightarrow> string option \<times> account" where
  "fetch_and_cache e s = (case fetch_email e s of (Ok m, s) \<Rightarrow> (Some m, cache_email e m s) | (_, s) \<Rightarrow> (None, s))"

definition logged_out :: AuthStatus where "logged_out = \<lparr>as_authenticated = False, as_email = None\<rparr>"

definition load_legacy_refresh_token :: "account_env \<Rightarrow> account \<Rightarrow> string option" where
  "load_legacy_refresh_token e s =
    Option.bind (Option.bind (ac_legacy s) (ae_json e)) (\<lambda>v. Option.bind (jget v ''refresh_token'') as_str)"

text \<open>The token to restore: of the secret store or, moved there, of the file.\<close>

definition restore_token :: "account_env \<Rightarrow> account \<Rightarrow> string option \<times> account" where
  "restore_token e s =
    (case load_refresh_token s of
       Some t \<Rightarrow> (Some t, s)
     | None \<Rightarrow>
         (case load_legacy_refresh_token e s of
            Some t \<Rightarrow> (Some t, (set_secret e STORE_REFRESH_TOKEN t s)\<lparr>ac_legacy := None\<rparr>)
          | None \<Rightarrow> (None, s)))"

definition restore_email :: "account_env \<Rightarrow> account \<Rightarrow> string option \<times> account" where
  "restore_email e s = (case ks_get (ac_keys s) STORE_EMAIL of Ok m \<Rightarrow> (Some m, cache_email e m s) | _ \<Rightarrow> fetch_and_cache e s)"

definition try_restore :: "account_env \<Rightarrow> AuthStatus act" where
  "try_restore e s =
    (case restore_token e s of
       (None, s) \<Rightarrow> (Ok logged_out, s)
     | (Some t, s) \<Rightarrow>
         (case send_request e (RefreshRequest t) s of
            (None, s) \<Rightarrow> (Ok logged_out, s)
          | (Some (c, body), s) \<Rightarrow>
              if \<not> is_success c then (Ok logged_out, s)
              else (case ae_tokens e body of
                      None \<Rightarrow> (Err BadTokens, s)
                    | Some tr \<Rightarrow>
                        bind_act (store_tokens e (tr_access_token tr) (tr_refresh_token tr))
                          (\<lambda>_ s.
                             let s = s\<lparr>ac_upgrade := upgrade_of (tr_force_upgrade tr) (tr_min_version tr) (tr_upgrade_message tr) (ac_upgrade s)\<rparr>
                             in (case restore_email e s of (m, s) \<Rightarrow> (Ok \<lparr>as_authenticated = True, as_email = m\<rparr>, s))) s)))"

definition ensure_restored :: "account_env \<Rightarrow> account \<Rightarrow> account" where
  "ensure_restored e s = (if ac_restored s then s else (snd (try_restore e s))\<lparr>ac_restored := True\<rparr>)"

definition auth_status :: "account_env \<Rightarrow> account \<Rightarrow> AuthStatus \<times> account" where
  "auth_status e s =
    (if \<not> is_authenticated s then (logged_out, s)
     else (case ac_email s of
             Some m \<Rightarrow> (\<lparr>as_authenticated = True, as_email = Some m\<rparr>, s)
           | None \<Rightarrow> (case fetch_and_cache e s of (m, s) \<Rightarrow> (\<lparr>as_authenticated = True, as_email = m\<rparr>, s))))"

definition logout :: "account_env \<Rightarrow> account \<Rightarrow> account" where "logout e s = clear_tokens e s"


section \<open>Logging in\<close>

definition create_session :: "account_env \<Rightarrow> SessionResponse act" where
  "create_session e s =
    (case send_request e NewSession s of
       (None, s) \<Rightarrow> (Err NetworkError, s)
     | (Some (c, body), s) \<Rightarrow>
         if \<not> is_success c then (Err (SessionFailed c), s)
         else (case ae_session e body of None \<Rightarrow> (Err BadSession, s) | Some r \<Rightarrow> (Ok r, s)))"

text \<open>The seconds between two polls.\<close>

definition poll_interval :: "SessionResponse \<Rightarrow> u64" where
  "poll_interval r = max (case sr_poll_interval r of Some n \<Rightarrow> n | None \<Rightarrow> 2) 1"

definition begin_login :: "account_env \<Rightarrow> string act" where
  "begin_login e = bind_act (create_session e)
    (\<lambda>r s. (Ok (sr_login_url r), s\<lparr>ac_cancel := False, ac_polls := ac_polls s @ [sr_session_id r]\<rparr>))"

definition begin_login_with_browser :: "account_env \<Rightarrow> unit act" where
  "begin_login_with_browser e = bind_act (begin_login e)
    (\<lambda>url s. (if ae_browser_ok e url then Ok () else Err BrowserFailed, s))"

definition cancel_login :: "account \<Rightarrow> account" where "cancel_login s = s\<lparr>ac_cancel := True\<rparr>"

text \<open>What the background task does with the tokens; the status of the answer about the user is not
  looked at.\<close>

definition poll_success :: "account_env \<Rightarrow> string \<Rightarrow> string \<Rightarrow> PollResponse \<Rightarrow> account \<Rightarrow> account" where
  "poll_success e access ref b s =
    (let s1 = snd (store_tokens e access ref s);
         s2 = s1\<lparr>ac_upgrade := upgrade_of (pr_force_upgrade b) (pr_min_version b) (pr_upgrade_message b) (ac_upgrade s1)\<rparr>
     in (case send_request e (Me (Some access)) s2 of
           (None, s3) \<Rightarrow> s3
         | (Some (_, body), s3) \<Rightarrow> (case ae_user e body of None \<Rightarrow> s3 | Some m \<Rightarrow> cache_email e m s3)))"

text \<open>One round of the task of a session, after its sleep: whether it goes on, and the state.\<close>

definition poll_round :: "account_env \<Rightarrow> bool \<Rightarrow> string \<Rightarrow> account \<Rightarrow> bool \<times> account" where
  "poll_round e late sid s =
    (if ac_cancel s then (False, s)
     else if late then (False, s)
     else (case send_request e (PollToken sid) s of
             (None, s) \<Rightarrow> (True, s)
           | (Some (c, body), s) \<Rightarrow>
               if c = 404 then (False, s)
               else if \<not> is_success c then (True, s)
               else (case ae_poll e body of
                       None \<Rightarrow> (True, s)
                     | Some b \<Rightarrow>
                         (case (pr_access_token b, pr_refresh_token b) of
                            (Some a, Some r) \<Rightarrow> (False, poll_success e a r b s)
                          | _ \<Rightarrow> (True, s)))))"

definition poll_task :: "account_env \<Rightarrow> bool \<Rightarrow> nat \<Rightarrow> account \<Rightarrow> account" where
  "poll_task e late i s =
    (if i < length (ac_polls s) then
       (case poll_round e late (ac_polls s ! i) s of
          (True, s') \<Rightarrow> s'
        | (False, s') \<Rightarrow> s'\<lparr>ac_polls := take i (ac_polls s') @ drop (Suc i) (ac_polls s')\<rparr>)
     else s)"

text \<open>\<open>login\<close> waits itself; \<open>n\<close> is the number of rounds before the deadline.\<close>

definition logged_in :: "account_env \<Rightarrow> string \<Rightarrow> string \<Rightarrow> PollResponse \<Rightarrow> AuthStatus act" where
  "logged_in e a r b = bind_act (store_tokens e a r)
    (\<lambda>_ s.
       let s = s\<lparr>ac_upgrade := upgrade_of (pr_force_upgrade b) (pr_min_version b) (pr_upgrade_message b) (ac_upgrade s)\<rparr>
       in (case fetch_and_cache e s of (m, s) \<Rightarrow> (Ok \<lparr>as_authenticated = True, as_email = m\<rparr>, s)))"

fun login_loop :: "account_env \<Rightarrow> nat \<Rightarrow> string \<Rightarrow> AuthStatus act" where
  "login_loop e 0 sid s = (Err LoginTimedOut, s)"
| "login_loop e (Suc n) sid s =
    (case send_request e (PollToken sid) s of
       (None, s) \<Rightarrow> login_loop e n sid s
     | (Some (c, body), s) \<Rightarrow>
         if c = 404 then (Err LoginExpired, s)
         else if \<not> is_success c \<and> c \<noteq> 200 then login_loop e n sid s
         else (case ae_poll e body of
                 None \<Rightarrow> (Err BadPoll, s)
               | Some b \<Rightarrow>
                   if pr_status b = Some ''pending'' then login_loop e n sid s
                   else (case (pr_access_token b, pr_refresh_token b) of
                           (Some a, Some r) \<Rightarrow> logged_in e a r b s
                         | _ \<Rightarrow> login_loop e n sid s)))"

definition login :: "account_env \<Rightarrow> nat \<Rightarrow> AuthStatus act" where
  "login e n = bind_act (create_session e)
    (\<lambda>r s. if ae_browser_ok e (sr_login_url r) then login_loop e n (sr_session_id r) s else (Err BrowserFailed, s))"


section \<open>The client\<close>

definition build_store_request :: "account_env \<Rightarrow> string \<Rightarrow> string \<Rightarrow> account \<Rightarrow> store_request \<times> account" where
  "build_store_request e meth url s = (case access_token e s of (t, s) \<Rightarrow> (Api meth url t, s))"

definition send_built :: "account_env \<Rightarrow> string \<Rightarrow> string \<Rightarrow> (nat \<times> string) act" where
  "send_built e meth url s =
    (case build_store_request e meth url s of (r, s) \<Rightarrow>
     (case send_request e r s of (None, s) \<Rightarrow> (Err NetworkError, s) | (Some a, s) \<Rightarrow> (Ok a, s)))"

text \<open>\<open>request\<close>, and \<open>post_json\<close> with a body that is the same both times.\<close>

definition client_request :: "account_env \<Rightarrow> string \<Rightarrow> string \<Rightarrow> (nat \<times> string) act" where
  "client_request e meth url = bind_act (send_built e meth url)
    (\<lambda>a s. if fst a \<noteq> 401 then (Ok a, s)
      else bind_act (refresh e) (\<lambda>_. send_built e meth url) s)"

definition request_download_url :: "account_env \<Rightarrow> (string \<Rightarrow> 'd option) \<Rightarrow> string \<Rightarrow> string \<Rightarrow> 'd act" where
  "request_download_url e parse base app_id =
    bind_act (client_request e ''GET'' (base @ ''/apps/'' @ app_id @ ''/download''))
      (\<lambda>a s. if \<not> is_success (fst a) then (Err (DownloadFailed (fst a)), s)
        else (case parse (snd a) of None \<Rightarrow> (Err BadDownload, s) | Some d \<Rightarrow> (Ok d, s)))"


section \<open>Runs\<close>

text \<open>An operation is one step; requests of different operations do not interleave.\<close>

datatype account_event =
    EnsureRestored | TryRestore | BeginLogin | CancelLogin | PollRound bool nat | Login nat
  | AccessToken | ForceRefresh | RefreshNow | Status | Logout | Request string string

definition account_step :: "account_env \<times> account_event \<Rightarrow> account \<Rightarrow> account" where
  "account_step ev s = (case ev of (e, x) \<Rightarrow>
    (case x of
       EnsureRestored \<Rightarrow> ensure_restored e s
     | TryRestore \<Rightarrow> snd (try_restore e s)
     | BeginLogin \<Rightarrow> snd (begin_login_with_browser e s)
     | CancelLogin \<Rightarrow> cancel_login s
     | PollRound late i \<Rightarrow> poll_task e late i s
     | Login n \<Rightarrow> snd (login e n s)
     | AccessToken \<Rightarrow> snd (access_token e s)
     | ForceRefresh \<Rightarrow> snd (force_refresh_access_token e s)
     | RefreshNow \<Rightarrow> snd (refresh e s)
     | Status \<Rightarrow> snd (auth_status e s)
     | Logout \<Rightarrow> logout e s
     | Request m url \<Rightarrow> snd (client_request e m url s)))"

definition account_run :: "account \<Rightarrow> (account_env \<times> account_event) list \<Rightarrow> account" where
  "account_run s evs = foldl (\<lambda>s ev. account_step ev s) s evs"

text \<open>A session that can be kept: with an access token the refresh token is stored, an address is shown
  only with one, and the table has one row per key.\<close>

definition session_ok :: "account \<Rightarrow> bool" where
  "session_ok s \<longleftrightarrow> ks_wf (ac_keys s) \<and> (ac_access s \<noteq> None \<longrightarrow> load_refresh_token s \<noteq> None)
    \<and> (ac_email s \<noteq> None \<longrightarrow> ac_access s \<noteq> None)"

named_theorems account_ok

lemma load_refresh_token_simps [simp]:
  "load_refresh_token (s\<lparr>ac_access := a\<rparr>) = load_refresh_token s" "load_refresh_token (s\<lparr>ac_email := m\<rparr>) = load_refresh_token s"
  "load_refresh_token (s\<lparr>ac_upgrade := u\<rparr>) = load_refresh_token s" "load_refresh_token (s\<lparr>ac_cancel := c\<rparr>) = load_refresh_token s"
  "load_refresh_token (s\<lparr>ac_restored := c\<rparr>) = load_refresh_token s" "load_refresh_token (s\<lparr>ac_legacy := l\<rparr>) = load_refresh_token s"
  "load_refresh_token (s\<lparr>ac_polls := p\<rparr>) = load_refresh_token s" "load_refresh_token (s\<lparr>ac_log := g\<rparr>) = load_refresh_token s"
  by (simp_all add: load_refresh_token_def)

lemma session_ok_simps [simp]:
  "session_ok (s\<lparr>ac_upgrade := u\<rparr>) = session_ok s" "session_ok (s\<lparr>ac_cancel := c\<rparr>) = session_ok s"
  "session_ok (s\<lparr>ac_restored := c\<rparr>) = session_ok s" "session_ok (s\<lparr>ac_legacy := l\<rparr>) = session_ok s"
  "session_ok (s\<lparr>ac_polls := p\<rparr>) = session_ok s" "session_ok (s\<lparr>ac_log := g\<rparr>) = session_ok s"
  by (simp_all add: session_ok_def)


lemma secret_names_differ [simp]: "STORE_EMAIL \<noteq> STORE_REFRESH_TOKEN" "STORE_REFRESH_TOKEN \<noteq> STORE_EMAIL"
  by (simp_all add: STORE_EMAIL_def STORE_REFRESH_TOKEN_def)

lemma set_secret_fields [simp]:
  "ac_access (set_secret e k v s) = ac_access s" "ac_email (set_secret e k v s) = ac_email s"
  by (simp_all add: set_secret_def)

lemma load_after_set_secret:
  "load_refresh_token (set_secret e k v s)
    = (if ae_write_ok e \<and> k = STORE_REFRESH_TOKEN then Some v else load_refresh_token s)"
  by (auto simp: set_secret_def load_refresh_token_def)

lemma wf_set_secret [simp]: "ks_wf (ac_keys s) \<Longrightarrow> ks_wf (ac_keys (set_secret e k v s))"
  by (simp add: set_secret_def ks_wf_set)

lemma session_ok_set_secret: "session_ok s \<Longrightarrow> session_ok (set_secret e k v s)"
  by (auto simp: session_ok_def load_after_set_secret)

lemma delete_secret_fields [simp]:
  "ac_access (delete_secret e k s) = ac_access s" "ac_email (delete_secret e k s) = ac_email s"
  by (simp_all add: delete_secret_def split: outcome.splits)

lemma wf_delete_secret [simp]: "ks_wf (ac_keys s) \<Longrightarrow> ks_wf (ac_keys (delete_secret e k s))"
  by (auto simp: delete_secret_def ks_wf_delete split: outcome.splits)

lemma load_after_delete_secret:
  assumes "ks_wf (ac_keys s)"
  shows "load_refresh_token (delete_secret e k s)
    = (if ae_write_ok e \<and> k = STORE_REFRESH_TOKEN then None else load_refresh_token s)"
proof (cases "ks_delete k (ac_keys s)")
  case (Ok ks')
  with sqlite.delete_ok [OF Ok assms] show ?thesis
    by (cases "ae_write_ok e") (auto simp: delete_secret_def load_refresh_token_def)
next
  case (Err x)
  with sqlite.delete_err [of k "ac_keys s"] show ?thesis
    by (auto simp: delete_secret_def load_refresh_token_def split: outcome.splits)
next
  case Panic
  then show ?thesis
    by (simp add: ks_delete_def split: if_splits)
qed

lemma session_ok_cleared: "session_ok s \<Longrightarrow> session_ok (clear_tokens e s)"
  by (simp add: session_ok_def clear_tokens_def)

lemma cleared_fields [simp]: "ac_access (clear_tokens e s) = None" "ac_email (clear_tokens e s) = None"
  by (simp_all add: clear_tokens_def)

lemma load_after_clear: "ks_wf (ac_keys s) \<Longrightarrow> ae_write_ok e \<Longrightarrow> load_refresh_token (clear_tokens e s) = None"
  by (simp add: clear_tokens_def load_after_delete_secret)

lemma session_ok_store: "session_ok s \<Longrightarrow> ae_write_ok e \<Longrightarrow> session_ok (snd (store_tokens e a r s))"
  by (simp add: store_tokens_def session_ok_def load_after_set_secret)

lemma store_tokens_fields [simp]: "ac_access (snd (store_tokens e a r s)) = Some a"
  by (simp add: store_tokens_def)

lemma session_ok_send: "session_ok s \<Longrightarrow> send_request e r s = (a, s') \<Longrightarrow> session_ok s'"
  by (auto simp: send_request_def)

lemma send_access: "send_request e r s = (a, s') \<Longrightarrow> ac_access s' = ac_access s"
  by (auto simp: send_request_def)

lemma bind_act_inv:
  assumes "P (snd (m s))" "\<And>x s'. m s = (Ok x, s') \<Longrightarrow> P s' \<Longrightarrow> P (snd (f x s'))"
  shows "P (snd (bind_act m f s))"
  using assms by (auto simp: bind_act_def split: prod.splits outcome.splits)

lemma session_ok_cache: "session_ok s \<Longrightarrow> ac_access s \<noteq> None \<Longrightarrow> session_ok (cache_email e m s)"
  unfolding cache_email_def by (rule session_ok_set_secret) (simp add: session_ok_def)

lemma session_ok_fetch: "session_ok s \<Longrightarrow> session_ok (snd (fetch_and_cache e s))"
  by (auto simp: fetch_and_cache_def fetch_email_def send_request_def intro!: session_ok_cache
      split: option.splits prod.splits outcome.splits if_splits)

lemma bind_store:
  "bind_act (store_tokens e a r) f s
    = (if ae_write_ok e then f () (snd (store_tokens e a r s)) else (Err SecretStore, snd (store_tokens e a r s)))"
  by (simp add: bind_act_def store_tokens_def)

lemma session_ok_refresh:
  assumes "session_ok s" "ae_write_ok e"
  shows "session_ok (snd (refresh e s))"
  using assms
  by (simp add: refresh_def send_request_def bind_store session_ok_cleared session_ok_store split: option.split)

lemma session_ok_access: "session_ok s \<Longrightarrow> ae_write_ok e \<Longrightarrow> session_ok (snd (access_token e s))"
  using session_ok_refresh [of s e] by (auto simp: access_token_def split: option.split prod.split outcome.split)

lemma session_ok_force: "session_ok s \<Longrightarrow> ae_write_ok e \<Longrightarrow> session_ok (snd (force_refresh_access_token e s))"
  using session_ok_refresh [of s e] by (auto simp: force_refresh_access_token_def split: prod.split outcome.split)

lemma session_ok_restore_token: "session_ok s \<Longrightarrow> session_ok (snd (restore_token e s))"
  by (simp add: restore_token_def session_ok_set_secret split: option.split)

lemma session_ok_restored:
  assumes "session_ok s" "ae_write_ok e"
  shows "session_ok (snd (try_restore e s))"
proof -
  obtain t s1 where t: "restore_token e s = (t, s1)"
    by force
  then have "session_ok s1"
    using session_ok_restore_token [OF assms(1), of e] by simp
  moreover have "session_ok (snd (restore_email e s))" if "session_ok s" "ac_access s \<noteq> None" for s
    using that by (simp add: restore_email_def session_ok_cache session_ok_fetch split: outcome.split)
  ultimately show ?thesis
    using assms(2)
    by (simp add: try_restore_def t send_request_def bind_store session_ok_store case_prod_unfold Let_def split: option.split)
qed

lemma session_ok_ensure: "session_ok s \<Longrightarrow> ae_write_ok e \<Longrightarrow> session_ok (ensure_restored e s)"
  by (simp add: ensure_restored_def session_ok_restored)

lemma session_ok_status: "session_ok s \<Longrightarrow> session_ok (snd (auth_status e s))"
  using session_ok_fetch [of s e] by (auto simp: auth_status_def split: option.split prod.split)

lemma session_ok_session: "session_ok s \<Longrightarrow> session_ok (snd (create_session e s))"
  by (simp add: create_session_def send_request_def split: option.split)

lemma session_ok_begin: "session_ok s \<Longrightarrow> session_ok (snd (begin_login_with_browser e s))"
  unfolding begin_login_with_browser_def begin_login_def
  by (rule bind_act_inv, rule bind_act_inv) (simp_all add: session_ok_session)

lemma session_ok_poll_success: "session_ok s \<Longrightarrow> ae_write_ok e \<Longrightarrow> session_ok (poll_success e a r b s)"
  using session_ok_store [of s e a r]
  by (simp add: poll_success_def Let_def send_request_def session_ok_cache split: option.split)

lemma session_ok_poll: "session_ok s \<Longrightarrow> ae_write_ok e \<Longrightarrow> session_ok (snd (poll_round e late sid s))"
  by (simp add: poll_round_def send_request_def session_ok_poll_success split: option.split)

lemma session_ok_poll_task: "session_ok s \<Longrightarrow> ae_write_ok e \<Longrightarrow> session_ok (poll_task e late i s)"
  using session_ok_poll [of s e late "ac_polls s ! i"] by (auto simp: poll_task_def split: prod.split bool.split)

lemma session_ok_logged_in:
  assumes "session_ok s" "ae_write_ok e"
  shows "session_ok (snd (logged_in e a r b s))"
  using assms unfolding logged_in_def
  by (simp add: bind_store Let_def case_prod_unfold session_ok_fetch session_ok_store)

lemma session_ok_loop: "session_ok s \<Longrightarrow> ae_write_ok e \<Longrightarrow> session_ok (snd (login_loop e n sid s))"
proof (induction n arbitrary: s)
  case (Suc n)
  let ?s = "s\<lparr>ac_log := ac_log s @ [PollToken sid]\<rparr>"
  have "session_ok ?s" "session_ok (snd (login_loop e n sid ?s))"
    using Suc by simp_all
  then show ?case
    using session_ok_logged_in Suc(3)
    by (simp add: send_request_def split: option.split)
qed simp

lemma session_ok_login: "session_ok s \<Longrightarrow> ae_write_ok e \<Longrightarrow> session_ok (snd (login e n s))"
  unfolding login_def by (rule bind_act_inv) (simp_all add: session_ok_session session_ok_loop)

lemma session_ok_built: "session_ok s \<Longrightarrow> ae_write_ok e \<Longrightarrow> session_ok (snd (send_built e m url s))"
  using session_ok_access [of s e]
  by (simp add: send_built_def build_store_request_def send_request_def case_prod_unfold split: option.split)

lemma session_ok_request:
  assumes "session_ok s" "ae_write_ok e"
  shows "session_ok (snd (client_request e m url s))"
  unfolding client_request_def
proof (rule bind_act_inv [where P = session_ok])
  show "session_ok (snd (send_built e m url s))"
    using assms by (rule session_ok_built)
  fix a s'
  assume s': "session_ok s'"
  have "session_ok (snd (bind_act (refresh e) (\<lambda>_. send_built e m url) s'))"
    by (rule bind_act_inv [where P = session_ok]) (simp_all add: s' assms session_ok_refresh session_ok_built)
  with s' show "session_ok (snd (if fst a \<noteq> 401 then (Ok a, s') else bind_act (refresh e) (\<lambda>_. send_built e m url) s'))"
    by simp
qed

lemma session_ok_step: "session_ok s \<Longrightarrow> ae_write_ok (fst ev) \<Longrightarrow> session_ok (account_step ev s)"
  by (cases ev; cases "snd ev")
    (simp_all add: account_step_def session_ok_ensure session_ok_restored session_ok_begin cancel_login_def session_ok_poll_task
      session_ok_login session_ok_access session_ok_force session_ok_refresh session_ok_status logout_def session_ok_cleared
      session_ok_request)


text \<open>How the requests of an operation grow the log.\<close>

definition is_api :: "store_request \<Rightarrow> bool" where "is_api r \<longleftrightarrow> (case r of Api _ _ _ \<Rightarrow> True | _ \<Rightarrow> False)"

lemma log_fields [simp]:
  "ac_log (set_secret e k v s) = ac_log s" "ac_log (delete_secret e k s) = ac_log s" "ac_log (clear_tokens e s) = ac_log s"
  "ac_log (snd (store_tokens e a r s)) = ac_log s"
  by (simp_all add: set_secret_def delete_secret_def clear_tokens_def store_tokens_def Let_def split: outcome.split)

lemma refresh_log: "\<exists>rs. ac_log (snd (refresh e s)) = ac_log s @ rs \<and> filter is_api rs = []"
proof (cases "load_refresh_token s")
  case None
  then show ?thesis
    by (intro exI [of _ "[]"]) (simp add: refresh_def)
next
  case (Some t)
  then show ?thesis
    by (intro exI [of _ "[RefreshRequest t]"]) (simp add: refresh_def send_request_def bind_store is_api_def split: option.split)
qed

lemma access_log: "\<exists>rs. ac_log (snd (access_token e s)) = ac_log s @ rs \<and> filter is_api rs = []"
  using refresh_log [of e s]
  by (cases "refresh e s"; cases "fst (refresh e s)") (auto simp: access_token_def split: option.split)

lemma built_log:
  "\<exists>rs t. ac_log (snd (send_built e m url s)) = ac_log s @ rs @ [Api m url t] \<and> filter is_api rs = []
    \<and> (\<forall>a s'. send_built e m url s = (Ok a, s') \<longrightarrow> ae_net e (ac_log s @ rs) (Api m url t) = Some a)"
proof -
  obtain t s1 where t: "access_token e s = (t, s1)"
    by force
  then obtain rs where "ac_log s1 = ac_log s @ rs" "filter is_api rs = []"
    using access_log [of e s] by auto
  then show ?thesis
    by (intro exI [of _ rs] exI [of _ t]) (auto simp: send_built_def build_store_request_def send_request_def t split: option.split)
qed

lemma client_request_cases:
  obtains (once) rs t where "ac_log (snd (client_request e m url s)) = ac_log s @ rs @ [Api m url t]" "filter is_api rs = []"
  | (rejected) rs t body qs where "ac_log (snd (client_request e m url s)) = ac_log s @ rs @ [Api m url t] @ qs"
      "filter is_api rs = []" "filter is_api qs = []" "ae_net e (ac_log s @ rs) (Api m url t) = Some (401, body)"
  | (retried) rs t body qs u where "ac_log (snd (client_request e m url s)) = ac_log s @ rs @ [Api m url t] @ qs @ [Api m url u]"
      "filter is_api rs = []" "filter is_api qs = []" "ae_net e (ac_log s @ rs) (Api m url t) = Some (401, body)"
proof -
  obtain r1 s1 where one: "send_built e m url s = (r1, s1)"
    by force
  then obtain rs t where log1: "ac_log s1 = ac_log s @ rs @ [Api m url t]" "filter is_api rs = []"
      "\<And>a. r1 = Ok a \<Longrightarrow> ae_net e (ac_log s @ rs) (Api m url t) = Some a"
    using built_log [of e m url s] by auto
  obtain r2 s2 where two: "refresh e s1 = (r2, s2)"
    by force
  then obtain qs where log2: "ac_log s2 = ac_log s1 @ qs" "filter is_api qs = []"
    using refresh_log [of e s1] by auto
  obtain ps u where log3: "ac_log (snd (send_built e m url s2)) = ac_log s2 @ ps @ [Api m url u]" "filter is_api ps = []"
    using built_log [of e m url s2] by auto
  show ?thesis
  proof (cases "\<exists>body. r1 = Ok (401, body)")
    case False
    then have "snd (client_request e m url s) = s1"
      by (auto simp: client_request_def bind_act_def one split: outcome.split)
    with log1 once show ?thesis
      by simp
  next
    case True
    then obtain body where r1: "r1 = Ok (401, body)"
      by blast
    show ?thesis
    proof (cases "r2 = Ok ()")
      case True
      then have "snd (client_request e m url s) = snd (send_built e m url s2)"
        by (simp add: client_request_def bind_act_def one two r1)
      then show ?thesis
        using log1 log2 log3 r1 retried [of rs t "qs @ ps" u body] by simp
    next
      case False
      then have "snd (client_request e m url s) = s2"
        by (cases r2) (simp_all add: client_request_def bind_act_def one two r1)
      then show ?thesis
        using log1 log2 r1 rejected [of rs t qs body] by simp
    qed
  qed
qed


section \<open>Properties\<close>


text \<open>an authenticated request is sent at most twice, always as it was asked for, and a second time only
  when the first was answered by 401.\<close>

theorem one_retry_after_401:
  "\<exists>rs. ac_log (snd (client_request e m url s)) = ac_log s @ rs
    \<and> (\<exists>t. filter is_api rs = [Api m url t]
        \<or> (\<exists>u pre post body. filter is_api rs = [Api m url t, Api m url u] \<and> rs = pre @ [Api m url t] @ post
              \<and> ae_net e (ac_log s @ pre) (Api m url t) = Some (401, body)))"
proof (cases rule: client_request_cases [of e m url s])
  case (once rs t)
  then show ?thesis
    by (intro exI [of _ "rs @ [Api m url t]"]) (simp add: is_api_def)
next
  case (rejected rs t body qs)
  then show ?thesis
    by (intro exI [of _ "rs @ [Api m url t] @ qs"]) (simp add: is_api_def)
next
  case (retried rs t body qs u)
  moreover have "filter is_api (rs @ [Api m url t] @ qs @ [Api m url u]) = [Api m url t, Api m url u]"
    using retried by (simp add: is_api_def)
  ultimately show ?thesis
    by (intro exI [of _ "rs @ [Api m url t] @ qs @ [Api m url u]"]) (simp, blast)
qed

text \<open>any answer to a refresh that is not a success ends the session, an error of the server
  included: the tokens are deleted from memory and from the secret store.\<close>

theorem failed_refresh_logs_out:
  assumes "ks_wf (ac_keys s)" "ae_write_ok e" "load_refresh_token s = Some t"
    and "ae_net e (ac_log s) (RefreshRequest t) = Some (c, body)" "\<not> is_success c"
  shows "fst (refresh e s) = Err (RefreshRejected c) \<and> \<not> is_authenticated (snd (refresh e s))
    \<and> load_refresh_token (snd (refresh e s)) = None"
  using assms by (simp add: refresh_def send_request_def is_authenticated_def load_after_clear)


section \<open>Witnesses and examples\<close>

definition sample_net :: "answer \<Rightarrow> account_env" where
  "sample_net a = \<lparr>ae_net = \<lambda>_ _. a, ae_session = \<lambda>b. Some \<lparr>sr_session_id = b, sr_login_url = b, sr_poll_interval = None\<rparr>,
     ae_tokens = \<lambda>_. None, ae_poll = \<lambda>_. None, ae_user = \<lambda>_. None, ae_json = \<lambda>_. None, ae_b64_url = \<lambda>_. None,
     ae_now = 1000, ae_write_ok = True, ae_browser_ok = \<lambda>_. True\<rparr>"

definition sample_account :: account where
  "sample_account = (account_new [(STORE_REFRESH_TOKEN, ''r'')] None)\<lparr>ac_access := Some ''a''\<rparr>"


theorem failed_refresh_logs_out_witness:
  "fst (refresh (sample_net (Some (503, []))) sample_account) = Err (RefreshRejected 503)
    \<and> \<not> is_authenticated (snd (refresh (sample_net (Some (503, []))) sample_account))
    \<and> load_refresh_token (snd (refresh (sample_net (Some (503, []))) sample_account)) = None"
  by (rule failed_refresh_logs_out [where t = "''r''" and body = "[]"])
    (simp_all add: sample_net_def sample_account_def account_new_def load_refresh_token_def ks_get_def ks_wf_def is_success_def)

text \<open>A start without a network: the stored session is not tried again until the program restarts.\<close>

lemma offline_start_stays_out:
  assumes "load_refresh_token s = Some t" "ae_net e (ac_log s) (RefreshRequest t) = None" "\<not> ac_restored s" "ac_access s = None"
  shows "fst (access_token e' (ensure_restored e' (ensure_restored e s))) = None
    \<and> load_refresh_token (ensure_restored e' (ensure_restored e s)) = Some t"
  using assms by (simp add: ensure_restored_def try_restore_def restore_token_def send_request_def access_token_def)

text \<open>A token that is still valid for up to a minute is withheld when the network fails.\<close>

lemma valid_token_withheld:
  assumes "ac_access s = Some a" "is_jwt_near_expiry e a REFRESH_LEEWAY_SECS" "load_refresh_token s = Some t"
    and "ae_net e (ac_log s) (RefreshRequest t) = None"
  shows "fst (access_token e s) = None \<and> ac_access (snd (access_token e s)) = Some a"
  using assms by (simp add: access_token_def refresh_def send_request_def)

text \<open>A new login clears the flag that should have cancelled the old one.\<close>

lemma begin_revives_cancelled:
  "fst (poll_round (sample_net None) False ''old'' (cancel_login s)) = False
    \<and> fst (poll_round (sample_net None) False ''old'' (snd (begin_login (sample_net (Some (200, ''new''))) (cancel_login s)))) = True"
  by (simp add: poll_round_def cancel_login_def begin_login_def create_session_def bind_act_def send_request_def sample_net_def is_success_def)

text \<open>Logging out leaves the background tasks: one of them may log in again.\<close>

lemma logout_keeps_polling: "ac_polls (logout e s) = ac_polls s \<and> ac_cancel (logout e s) = ac_cancel s"
  by (simp add: logout_def clear_tokens_def delete_secret_def split: outcome.split)

text \<open>Without an overflow the expiry is the comparison with the clock.\<close>

lemma near_expiry_iff:
  assumes "jwt_exp e t = Some ex" "0 \<le> sint ex" "0 \<le> sint (ae_now e)"
  shows "is_jwt_near_expiry e t REFRESH_LEEWAY_SECS \<longleftrightarrow> sint ex \<le> sint (ae_now e) + 60"
proof -
  have "sint (ex - ae_now e) = sint ex - sint (ae_now e)"
    using assms(2,3) sint_lt [of ex] sint_lt [of "ae_now e"]
    by (simp add: sint_sbintrunc' signed_take_bit_int_eq_self_iff sint_word_ariths)
  then show ?thesis
    using assms(1) by (auto simp: is_jwt_near_expiry_def REFRESH_LEEWAY_SECS_def)
qed

end
