(* ===== verification/Tls_Pinning.thy ===== *)
theory Tls_Pinning
  imports Prelude
begin

text \<open>
  The certificate check of the store's HTTP client, \<open>store/pinning.rs\<close>: the walk through the DER bytes of a
  certificate to its public key, and the comparison of the key's hash with the pins.  The validation of
  the chain (\<open>WebPkiServerVerifier\<close>) and SHA-256 are parameters.  A slice out of range is \<open>Panic\<close>.
\<close>

unbundle bit_operations_syntax

section \<open>DER\<close>

text \<open>The content of an element and the number of bytes it takes with tag and length.\<close>

definition content_length :: "bytes \<Rightarrow> (nat \<times> nat) option" where
  "content_length data =
    (let length_byte = data ! 1
     in if length_byte AND 0x80 = 0 then Some (unat length_byte, 2)
        else (let num_octets = unat (length_byte AND 0x7F)
              in if 4 < num_octets \<or> length data < 2 + num_octets then None
                 else Some (foldl (\<lambda>len b. len * 256 + unat b) 0 (take num_octets (drop 2 data)), 2 + num_octets)))"

definition read_der_element :: "bytes \<Rightarrow> (bytes \<times> nat) option" where
  "read_der_element data =
    (if length data < 2 then None
     else (case content_length data of
             None \<Rightarrow> None
           | Some (n, pos) \<Rightarrow> if length data < pos + n then None else Some (take n (drop pos data), pos + n)))"

definition read_der_sequence :: "bytes \<Rightarrow> (bytes \<times> nat) option" where
  "read_der_sequence data =
    (case data of [] \<Rightarrow> None | tag # _ \<Rightarrow> if tag AND 0x1F \<noteq> 0x10 then None else read_der_element data)"

text \<open>\<open>&inner[pos..]\<close> and the advance over one element.\<close>

definition slice_from :: "nat \<Rightarrow> bytes \<Rightarrow> (unit, bytes) outcome" where
  "slice_from pos inner = (if pos \<le> length inner then Ok (drop pos inner) else Panic)"

definition skip_element :: "bytes \<Rightarrow> nat \<Rightarrow> (unit, nat) outcome" where
  "skip_element inner pos = and_then (slice_from pos inner)
    (\<lambda>d. case read_der_element d of None \<Rightarrow> Err () | Some (_, consumed) \<Rightarrow> Ok (pos + consumed))"

fun skip_elements :: "nat \<Rightarrow> bytes \<Rightarrow> nat \<Rightarrow> (unit, nat) outcome" where
  "skip_elements 0 inner pos = Ok pos"
| "skip_elements (Suc n) inner pos = and_then (skip_element inner pos) (skip_elements n inner)"

text \<open>The version is optional; serial number, signature, issuer, validity and subject are skipped.\<close>

definition skip_version :: "bytes \<Rightarrow> (unit, nat) outcome" where
  "skip_version inner = (case inner of [] \<Rightarrow> Err () | tag # _ \<Rightarrow> if tag = 0xA0 then skip_element inner 0 else Ok 0)"

definition key_at :: "bytes \<Rightarrow> nat \<Rightarrow> (unit, bytes) outcome" where
  "key_at inner pos = and_then (slice_from pos inner)
    (\<lambda>d. case read_der_element d of
       None \<Rightarrow> Err ()
     | Some (_, spki_len) \<Rightarrow> if pos + spki_len \<le> length inner then Ok (take spki_len d) else Panic)"

definition spki_der :: "bytes \<Rightarrow> (unit, bytes) outcome" where
  "spki_der cert =
    (case read_der_sequence cert of
       None \<Rightarrow> Err ()
     | Some (tbs, _) \<Rightarrow>
         (case read_der_sequence tbs of
            None \<Rightarrow> Err ()
          | Some (inner, _) \<Rightarrow> and_then (skip_version inner) (\<lambda>pos. and_then (skip_elements 5 inner pos) (key_at inner))))"

definition extract_spki_sha256 :: "(bytes \<Rightarrow> bytes) \<Rightarrow> bytes \<Rightarrow> (unit, bytes) outcome" where
  "extract_spki_sha256 sha256 cert = and_then (spki_der cert) (\<lambda>d. Ok (sha256 d))"


section \<open>The verifier\<close>

definition PRIMARY_PIN :: bytes where "PRIMARY_PIN = replicate 32 0"
definition BACKUP_PIN :: bytes where "BACKUP_PIN = replicate 32 0"

datatype 'e pin_error = ChainInvalid 'e | PinMismatch "bytes option"

definition verify_with_pins ::
  "bytes \<Rightarrow> bytes \<Rightarrow> (bytes \<Rightarrow> bytes) \<Rightarrow> 'e option \<Rightarrow> bytes \<Rightarrow> ('e pin_error, unit) outcome" where
  "verify_with_pins primary backup sha256 chain end_entity =
    (case chain of
       Some e \<Rightarrow> Err (ChainInvalid e)
     | None \<Rightarrow>
         if primary = replicate 32 0 \<and> backup = replicate 32 0 then Ok ()
         else (case extract_spki_sha256 sha256 end_entity of
                 Ok h \<Rightarrow> if h = primary \<or> h = backup then Ok () else Err (PinMismatch (Some h))
               | Err _ \<Rightarrow> Err (PinMismatch None)
               | Panic \<Rightarrow> Panic))"

definition verify_server_cert :: "(bytes \<Rightarrow> bytes) \<Rightarrow> 'e option \<Rightarrow> bytes \<Rightarrow> ('e pin_error, unit) outcome" where
  "verify_server_cert = verify_with_pins PRIMARY_PIN BACKUP_PIN"


section \<open>What a certificate is\<close>

text \<open>The encoding of an element: the short form of the length below 128, else one to four bytes.\<close>

definition der_length :: "nat \<Rightarrow> bytes" where
  "der_length n =
    (if n < 128 then [of_nat n]
     else if n < 256 then 0x81 # rev (nat_to_le 1 n)
     else if n < 256 ^ 2 then 0x82 # rev (nat_to_le 2 n)
     else if n < 256 ^ 3 then 0x83 # rev (nat_to_le 3 n)
     else 0x84 # rev (nat_to_le 4 n))"

definition der :: "byte \<Rightarrow> bytes \<Rightarrow> bytes" where "der tag content = tag # der_length (length content) @ content"

record certificate =
  x_version :: "bytes option"
  x_fields :: "(byte \<times> bytes) list"
  x_key :: bytes
  x_extensions :: bytes
  x_signature :: bytes

definition tbs_content :: "certificate \<Rightarrow> bytes" where
  "tbs_content c = (case x_version c of Some v \<Rightarrow> der 0xA0 v | None \<Rightarrow> [])
    @ concat (map (\<lambda>(t, d). der t d) (x_fields c)) @ der 0x30 (x_key c) @ x_extensions c"

definition tbs_der :: "certificate \<Rightarrow> bytes" where "tbs_der c = der 0x30 (tbs_content c)"

definition cert_der :: "certificate \<Rightarrow> bytes" where "cert_der c = der 0x30 (tbs_der c @ x_signature c)"

text \<open>Serial number, algorithm, issuer, validity and subject, the first an integer, of lengths that fit.\<close>

definition certificate_ok :: "certificate \<Rightarrow> bool" where
  "certificate_ok c \<longleftrightarrow> length (x_fields c) = 5 \<and> fst (hd (x_fields c)) = 0x02 \<and> length (tbs_der c @ x_signature c) < 2 ^ 32"


section \<open>Lemmas\<close>

lemma foldl_be: "foldl (\<lambda>len b. len * 256 + unat b) a bs = a * 256 ^ length bs + le_to_nat (rev bs)" for bs :: bytes
proof (induction bs rule: rev_induct)
  case (snoc b bs)
  then show ?case
    by (simp add: algebra_simps)
qed simp

lemma short_length: "n < 128 \<Longrightarrow> (of_nat n :: byte) AND 0x80 = 0"
proof -
  assume "n < 128"
  then have "take_bit 7 n = n"
    by (simp add: take_bit_nat_eq_self)
  then have t: "take_bit 7 (of_nat n :: byte) = of_nat n"
    by (simp add: take_bit_of_nat)
  have "take_bit 7 (of_nat n :: byte) AND 0x80 = (of_nat n AND mask 7) AND 0x80"
    by (simp add: take_bit_eq_mask)
  also have "\<dots> = of_nat n AND (mask 7 AND 0x80)"
    by (rule and.assoc)
  also have "mask 7 AND 0x80 = (0 :: byte)"
    by (simp add: mask_eq_exp_minus_1)
  finally show ?thesis
    by (simp add: t)
qed

lemma content_length_der:
  assumes "n < 2 ^ 32"
  shows "content_length (tag # der_length n @ r) = Some (n, Suc (length (der_length n)))"
proof -
  have be: "foldl (\<lambda>len b. len * 256 + unat b) 0 (rev (nat_to_le k n)) = n" if "n < 256 ^ k" for k
    using that by (simp add: foldl_be le_to_nat_nat_to_le)
  show ?thesis
    using assms by (auto simp: der_length_def content_length_def Let_def short_length unat_of_nat be)
qed

lemma read_der [simp]:
  assumes "length content < 2 ^ 32"
  shows "read_der_element (der tag content @ r) = Some (content, length (der tag content))"
proof -
  have "length (der_length (length content)) > 0"
    by (simp add: der_length_def)
  then show ?thesis
    using content_length_der [OF assms, of tag "content @ r"] by (simp add: read_der_element_def der_def)
qed


lemma read_der_bound: "read_der_element d = Some (c, n) \<Longrightarrow> n \<le> length d"
  by (auto simp: read_der_element_def split: if_splits option.splits)

lemma skip_element_bound:
  assumes "pos \<le> length inner"
  shows "skip_element inner pos \<noteq> Panic \<and> (\<forall>p. skip_element inner pos = Ok p \<longrightarrow> p \<le> length inner)"
proof (cases "read_der_element (drop pos inner)")
  case None
  then show ?thesis
    using assms by (simp add: skip_element_def slice_from_def)
next
  case (Some x)
  then show ?thesis
    using assms read_der_bound [of "drop pos inner" "fst x" "snd x"] by (cases x) (simp add: skip_element_def slice_from_def)
qed

lemma skip_elements_bound:
  "pos \<le> length inner \<Longrightarrow> skip_elements n inner pos \<noteq> Panic \<and> (\<forall>p. skip_elements n inner pos = Ok p \<longrightarrow> p \<le> length inner)"
proof (induction n arbitrary: pos)
  case (Suc n)
  show ?case
  proof (cases "skip_element inner pos")
    case (Ok p)
    then have "p \<le> length inner"
      using skip_element_bound [OF Suc.prems] by simp
    then show ?thesis
      using Suc.IH [of p] Ok by simp
  qed (use skip_element_bound [OF Suc.prems] in auto)
qed simp

lemma skip_der: "length d < 2 ^ 32 \<Longrightarrow> skip_element (a @ der t d @ r) (length a) = Ok (length (a @ der t d))"
  by (simp add: skip_element_def slice_from_def)

definition encode_fields :: "(byte \<times> bytes) list \<Rightarrow> bytes" where
  "encode_fields fs = concat (map (\<lambda>(t, d). der t d) fs)"

lemma encode_fields_simps [simp]: "encode_fields [] = []" "encode_fields ((t, d) # fs) = der t d @ encode_fields fs"
  by (simp_all add: encode_fields_def)

lemma skip_fields:
  assumes "\<forall>(t, d) \<in> set fs. length d < 2 ^ 32"
  shows "skip_elements (length fs) (a @ encode_fields fs @ r) (length a) = Ok (length (a @ encode_fields fs))"
  using assms
proof (induction fs arbitrary: a)
  case (Cons f fs)
  obtain t d where f: "f = (t, d)"
    by (cases f)
  then show ?case
    using Cons(2) skip_der [of d a t "encode_fields fs @ r"] Cons(1) [of "a @ der t d"] by simp
qed simp

lemma der_length_le: "length d \<le> length (der t d)"
  by (simp add: der_def)

lemma encode_fields_length: "(t, d) \<in> set fs \<Longrightarrow> length d \<le> length (encode_fields fs)"
  using der_length_le by (induction fs) (auto simp: encode_fields_def intro: le_trans trans_le_add1 trans_le_add2)

lemma read_der_seq: "length d < 2 ^ 32 \<Longrightarrow> read_der_sequence (der 0x30 d @ r) = Some (d, length (der 0x30 d))"
proof -
  assume "length d < 2 ^ 32"
  then show ?thesis
    using read_der [of d "0x30" r] unfolding read_der_sequence_def by (auto simp: der_def)
qed

lemma key_at_bound: "pos \<le> length inner \<Longrightarrow> key_at inner pos \<noteq> Panic"
proof (cases "read_der_element (drop pos inner)")
  case (Some x)
  then show "pos \<le> length inner \<Longrightarrow> ?thesis"
    using read_der_bound [of "drop pos inner" "fst x" "snd x"] by (cases x) (simp add: key_at_def slice_from_def)
qed (simp add: key_at_def slice_from_def)

lemma spki_no_panic: "spki_der d \<noteq> Panic"
proof -
  have v: "skip_version inner \<noteq> Panic \<and> (\<forall>p. skip_version inner = Ok p \<longrightarrow> p \<le> length inner)" for inner
    using skip_element_bound [of 0 inner] by (auto simp: skip_version_def split: list.split)
  have "and_then (skip_version inner) (\<lambda>pos. and_then (skip_elements 5 inner pos) (key_at inner)) \<noteq> Panic" for inner
  proof (cases "skip_version inner")
    case (Ok p)
    then have p: "p \<le> length inner"
      using v [of inner] by simp
    then show ?thesis
      using skip_elements_bound [OF p, of 5] key_at_bound [of _ inner] Ok by (cases "skip_elements 5 inner p") auto
  qed (use v [of inner] in auto)
  then show ?thesis
    by (auto simp: spki_der_def split: option.split)
qed

lemma spki_of_fields:
  assumes "length fs = 5" "\<forall>(t, d) \<in> set fs. length d < 2 ^ 32" "length k < 2 ^ 32"
    and "inner = a @ encode_fields fs @ der 0x30 k @ r"
  shows "and_then (skip_elements 5 inner (length a)) (key_at inner) = Ok (der 0x30 k)"
proof -
  have "skip_elements 5 inner (length a) = Ok (length (a @ encode_fields fs))"
    using skip_fields [OF assms(2), of a "der 0x30 k @ r"] assms(1,4) by simp
  then show ?thesis
    using assms(3,4) by (simp add: key_at_def slice_from_def)
qed


section \<open>Properties\<close>

text \<open>the walk through a certificate never leaves its bytes, whatever they are.\<close>

theorem pin_check_never_panics: "verify_with_pins primary backup sha256 chain end_entity \<noteq> Panic"
proof -
  have "extract_spki_sha256 sha256 d \<noteq> Panic" for d
    using spki_no_panic [of d] by (cases "spki_der d") (auto simp: extract_spki_sha256_def)
  then show ?thesis
    by (simp add: verify_with_pins_def split: option.split outcome.split)
qed

text \<open>C38: of a certificate, with or without a version, the key is found as it is encoded.\<close>

theorem key_of_certificate:
  assumes "certificate_ok c"
  shows "spki_der (cert_der c) = Ok (der 0x30 (x_key c))"
proof -
  let ?r = "der 0x30 (x_key c) @ x_extensions c" and ?fs = "x_fields c"
  have len: "length (tbs_der c @ x_signature c) < 2 ^ 32" and fs: "length ?fs = 5" "fst (hd ?fs) = 0x02"
    using assms by (simp_all add: certificate_ok_def)
  then have tbs: "length (tbs_content c) < 2 ^ 32"
    using der_length_le [of "tbs_content c" "0x30"] by (simp add: tbs_der_def)
  have d: "length d < 2 ^ 32" if "(t, d) \<in> set ?fs" for t d
    using encode_fields_length [OF that] tbs by (simp add: tbs_content_def encode_fields_def)
  have k: "length (x_key c) < 2 ^ 32" and v: "x_version c = Some v \<Longrightarrow> length v < 2 ^ 32" for v
    using tbs der_length_le [of "x_key c" "0x30"] der_length_le [of v "0xA0"] by (simp_all add: tbs_content_def)
  have walk: "read_der_sequence (cert_der c) = Some (tbs_der c @ x_signature c, length (cert_der c))"
      "read_der_sequence (tbs_der c @ x_signature c) = Some (tbs_content c, length (tbs_der c))"
    using read_der_seq [OF len, of "[]"] read_der_seq [OF tbs] by (simp_all add: cert_der_def tbs_der_def)
  have fields: "\<forall>(t, d) \<in> set ?fs. length d < 2 ^ 32"
    using d by blast
  have key: "spki_der (cert_der c) = and_then (skip_version (tbs_content c)) (\<lambda>pos. and_then (skip_elements 5 (tbs_content c) pos) (key_at (tbs_content c)))"
    by (simp add: spki_der_def walk)
  show ?thesis
  proof (cases "x_version c")
    case (Some v')
    then have c: "tbs_content c = der 0xA0 v' @ encode_fields ?fs @ ?r"
      by (simp add: tbs_content_def encode_fields_def)
    have "skip_element (tbs_content c) 0 = Ok (length (der 0xA0 v'))"
      using skip_der [OF v [OF Some], of "[]" "0xA0"] by (simp add: c)
    then have "skip_version (tbs_content c) = Ok (length (der 0xA0 v'))"
      by (simp add: skip_version_def c) (simp add: der_def)
    then show ?thesis
      using spki_of_fields [OF fs(1) fields k c] by (simp add: key)
  next
    case None
    then have c: "tbs_content c = [] @ encode_fields ?fs @ ?r"
      by (simp add: tbs_content_def encode_fields_def)
    moreover obtain xs where "encode_fields ?fs = 0x02 # xs"
      using fs by (cases ?fs) (auto simp: der_def)
    ultimately have "skip_version (tbs_content c) = Ok (length [])"
      by (simp add: skip_version_def)
    then show ?thesis
      using spki_of_fields [OF fs(1) fields k c] by (simp add: key)
  qed
qed

text \<open>with pins the verifier accepts exactly a valid chain to a certificate with one of the two keys; with the
  pins of the source it accepts every valid chain.\<close>

theorem pins_decide:
  assumes "certificate_ok c" "primary \<noteq> replicate 32 0"
  shows "(verify_with_pins primary backup sha256 chain (cert_der c) = Ok ()
      \<longleftrightarrow> chain = None \<and> sha256 (der 0x30 (x_key c)) \<in> {primary, backup})
    \<and> (verify_server_cert sha256 chain (cert_der c) = Ok () \<longleftrightarrow> chain = None)"
  using assms
  by (auto simp: verify_server_cert_def verify_with_pins_def key_of_certificate extract_spki_sha256_def PRIMARY_PIN_def BACKUP_PIN_def
      split: option.split)


definition sample_cert :: certificate where
  "sample_cert = \<lparr>x_version = Some [2, 1, 2], x_fields = [(0x02, [1]), (0x30, []), (0x30, []), (0x30, []), (0x30, [])],
     x_key = [3, 1, 0], x_extensions = [], x_signature = []\<rparr>"

lemma sample_cert_ok: "certificate_ok sample_cert"
  by (simp add: certificate_ok_def sample_cert_def tbs_der_def tbs_content_def der_def der_length_def)

theorem key_of_certificate_witness: "spki_der (cert_der sample_cert) = Ok (der 0x30 [3, 1, 0])"
  using key_of_certificate [OF sample_cert_ok] by (simp add: sample_cert_def)

theorem pins_decide_witness:
  "(verify_with_pins (replicate 32 1) (replicate 32 2) (\<lambda>_. replicate 32 2) (None :: string option) (cert_der sample_cert) = Ok ()
      \<longleftrightarrow> (None :: string option) = None \<and> replicate 32 2 \<in> {replicate 32 (1 :: byte), replicate 32 2})
    \<and> (verify_server_cert (\<lambda>_. replicate 32 2) (None :: string option) (cert_der sample_cert) = Ok () \<longleftrightarrow> (None :: string option) = None)"
  by (rule pins_decide [OF sample_cert_ok]) simp

end
