(* ===== verification/Monitoring.thy ===== *)
theory Monitoring
  imports Complex_Main Rust_Text
begin

text \<open>
  Measurements of a VM and its recovery: the readers of \<open>/proc\<close> texts and the counters of
  \<open>monitoring/mod.rs\<close>, the loop of \<open>service.rs\<close> that collects them, and \<open>recovery/mod.rs\<close>.  Sums wrap, as in a
  release build; the percentage is exact where the code rounds to a double.  The counters are separate
  atomics, so an operation on them is a list of single steps that interleave with those of other threads.
\<close>

section \<open>Reading \<open>/proc\<close>\<close>

record CpuSnapshot =
  cs_total :: u64
  cs_idle :: u64

definition is_cpu_line :: "string \<Rightarrow> bool" where
  "is_cpu_line l \<longleftrightarrow> (case l of a # b # c # d # _ \<Rightarrow> a = CHR ''c'' \<and> b = CHR ''p'' \<and> c = CHR ''u'' \<and> is_space d | _ \<Rightarrow> False)"

definition number_fields :: "string list \<Rightarrow> u64 list" where "number_fields ws = List.map_filter parse_u64 ws"

definition parse_proc_stat :: "string \<Rightarrow> CpuSnapshot option" where
  "parse_proc_stat dat =
    (case find is_cpu_line (lines_of dat) of
       None \<Rightarrow> None
     | Some line \<Rightarrow>
         (let parts = number_fields (drop 1 (split_ws line))
          in if length parts < 4 then None
             else Some \<lparr>cs_total = sum_list parts, cs_idle = parts ! 3 + (if 4 < length parts then parts ! 4 else 0)\<rparr>))"

definition second_number :: "string \<Rightarrow> u64 option" where
  "second_number line = (case split_ws line of _ # w # _ \<Rightarrow> parse_u64 w | _ \<Rightarrow> None)"

fun meminfo_lines :: "u64 \<Rightarrow> u64 \<Rightarrow> string list \<Rightarrow> (u64 \<times> u64) option" where
  "meminfo_lines tot avail [] = Some (tot, avail)"
| "meminfo_lines tot avail (line # ls) =
    (if starts_with line ''MemTotal:'' then (case second_number line of None \<Rightarrow> None | Some n \<Rightarrow> meminfo_lines n avail ls)
     else if starts_with line ''MemAvailable:'' then (case second_number line of None \<Rightarrow> None | Some n \<Rightarrow> meminfo_lines tot n ls)
     else meminfo_lines tot avail ls)"

definition parse_proc_meminfo :: "string \<Rightarrow> (u64 \<times> u64) option" where
  "parse_proc_meminfo dat =
    (case meminfo_lines 0 0 (lines_of dat) of
       None \<Rightarrow> None
     | Some (total_kb, available_kb) \<Rightarrow>
         if total_kb = 0 then None
         else Some ((if available_kb \<le> total_kb then total_kb - available_kb else 0) div 1024, total_kb div 1024))"

fun net_dev_lines :: "(u64 \<times> u64) option \<Rightarrow> string list \<Rightarrow> (u64 \<times> u64) option" where
  "net_dev_lines acc [] = acc"
| "net_dev_lines acc (line # ls) =
    (case split_once (CHR '':'') (trim line) of
       None \<Rightarrow> net_dev_lines acc ls
     | Some (iface, rest) \<Rightarrow>
         if trim iface = ''lo'' then net_dev_lines acc ls
         else (let fields = number_fields (split_ws rest)
               in if 9 \<le> length fields
                  then net_dev_lines (case acc of None \<Rightarrow> Some (fields ! 0, fields ! 8) | Some (rx, tx) \<Rightarrow> Some (rx + fields ! 0, tx + fields ! 8)) ls
                  else net_dev_lines acc ls))"

definition parse_proc_net_dev :: "string \<Rightarrow> (u64 \<times> u64) option" where
  "parse_proc_net_dev dat = net_dev_lines None (lines_of dat)"


section \<open>Counters\<close>

record VmMetrics =
  vm_cpu_percent :: rat
  vm_memory_used_mb :: u64
  vm_memory_total_mb :: u64
  vm_network_tx_bytes :: u64
  vm_network_rx_bytes :: u64

record MonitoringCollector =
  mc_metrics :: VmMetrics
  mc_proxy_rx :: u64
  mc_proxy_tx :: u64
  mc_interval_rx :: u64
  mc_interval_tx :: u64
  mc_last_domain :: "string option"

definition collector_new :: MonitoringCollector where
  "collector_new = \<lparr>mc_metrics = \<lparr>vm_cpu_percent = 0, vm_memory_used_mb = 0, vm_memory_total_mb = 0, vm_network_tx_bytes = 0,
       vm_network_rx_bytes = 0\<rparr>, mc_proxy_rx = 0, mc_proxy_tx = 0, mc_interval_rx = 0, mc_interval_tx = 0, mc_last_domain = None\<rparr>"

text \<open>The single steps, and what a step of a snapshot takes.\<close>

datatype counter_step =
    AddProxyRx u64 | AddProxyTx u64 | AddIntervalRx u64 | AddIntervalTx u64 | SetDomain string
  | SwapRx | SwapTx | TakeDomain | UpdateMetrics VmMetrics

datatype taken = TookRx u64 | TookTx u64 | TookDomain "string option"

definition step :: "counter_step \<Rightarrow> MonitoringCollector \<Rightarrow> MonitoringCollector \<times> taken list" where
  "step s c =
    (case s of
       AddProxyRx n \<Rightarrow> (c\<lparr>mc_proxy_rx := mc_proxy_rx c + n\<rparr>, [])
     | AddProxyTx n \<Rightarrow> (c\<lparr>mc_proxy_tx := mc_proxy_tx c + n\<rparr>, [])
     | AddIntervalRx n \<Rightarrow> (c\<lparr>mc_interval_rx := mc_interval_rx c + n\<rparr>, [])
     | AddIntervalTx n \<Rightarrow> (c\<lparr>mc_interval_tx := mc_interval_tx c + n\<rparr>, [])
     | SetDomain d \<Rightarrow> (c\<lparr>mc_last_domain := Some d\<rparr>, [])
     | SwapRx \<Rightarrow> (c\<lparr>mc_interval_rx := 0\<rparr>, [TookRx (mc_interval_rx c)])
     | SwapTx \<Rightarrow> (c\<lparr>mc_interval_tx := 0\<rparr>, [TookTx (mc_interval_tx c)])
     | TakeDomain \<Rightarrow> (c\<lparr>mc_last_domain := None\<rparr>, [TookDomain (mc_last_domain c)])
     | UpdateMetrics m \<Rightarrow> (c\<lparr>mc_metrics := m\<rparr>, []))"

fun steps :: "counter_step list \<Rightarrow> MonitoringCollector \<Rightarrow> MonitoringCollector \<times> taken list" where
  "steps [] c = (c, [])"
| "steps (s # ss) c = (case step s c of (c, t) \<Rightarrow> case steps ss c of (c, ts) \<Rightarrow> (c, t @ ts))"

definition add_proxy_bytes :: "u64 \<Rightarrow> u64 \<Rightarrow> counter_step list" where
  "add_proxy_bytes rx tx = [AddProxyRx rx, AddProxyTx tx]"

definition get_proxy_bytes :: "MonitoringCollector \<Rightarrow> u64 \<times> u64" where
  "get_proxy_bytes c = (mc_proxy_rx c, mc_proxy_tx c)"

definition record_proxy_activity :: "string \<Rightarrow> u64 \<Rightarrow> u64 \<Rightarrow> counter_step list" where
  "record_proxy_activity domain rx tx = add_proxy_bytes rx tx @ [AddIntervalRx rx, AddIntervalTx tx, SetDomain domain]"

record ProxyActivitySnapshot =
  ps_last_domain :: "string option"
  ps_rx_delta :: u64
  ps_tx_delta :: u64
  ps_active :: bool
  ps_metrics :: VmMetrics
  ps_network_rx :: u64
  ps_network_tx :: u64

definition snapshot_steps :: "counter_step list" where "snapshot_steps = [SwapRx, SwapTx, TakeDomain]"

text \<open>A snapshot of what was taken and of the state it is finished in.\<close>

definition snapshot_of :: "u64 \<Rightarrow> u64 \<Rightarrow> string option \<Rightarrow> MonitoringCollector \<Rightarrow> ProxyActivitySnapshot" where
  "snapshot_of rx tx domain c =
    \<lparr>ps_last_domain = domain, ps_rx_delta = rx, ps_tx_delta = tx, ps_active = (0 < rx \<or> 0 < tx), ps_metrics = mc_metrics c,
     ps_network_rx = fst (get_proxy_bytes c), ps_network_tx = snd (get_proxy_bytes c)\<rparr>"

definition take_interval_snapshot :: "MonitoringCollector \<Rightarrow> MonitoringCollector \<times> ProxyActivitySnapshot" where
  "take_interval_snapshot c =
    (case steps snapshot_steps c of
       (c', [TookRx rx, TookTx tx, TookDomain d]) \<Rightarrow> (c', snapshot_of rx tx d c')
     | (c', _) \<Rightarrow> (c', snapshot_of 0 0 None c'))"


section \<open>Collecting\<close>

definition saturating_sub :: "u64 \<Rightarrow> u64 \<Rightarrow> u64" where "saturating_sub a b = (if b \<le> a then a - b else 0)"

definition cpu_percent :: "CpuSnapshot option \<Rightarrow> CpuSnapshot \<Rightarrow> rat" where
  "cpu_percent prev snap =
    (case prev of
       None \<Rightarrow> 0
     | Some p \<Rightarrow>
         (let delta_total = saturating_sub (cs_total snap) (cs_total p); delta_idle = saturating_sub (cs_idle snap) (cs_idle p)
          in if 0 < delta_total then (1 - of_nat (unat delta_idle) / of_nat (unat delta_total)) * 100 else 0))"

text \<open>One answer of the guest: the new snapshot kept, and the metrics.\<close>

definition collect :: "string \<Rightarrow> CpuSnapshot option \<Rightarrow> MonitoringCollector \<Rightarrow> CpuSnapshot option \<times> MonitoringCollector" where
  "collect content prev c =
    (let (prev', pct) = (case parse_proc_stat content of Some snap \<Rightarrow> (Some snap, cpu_percent prev snap) | None \<Rightarrow> (prev, 0));
         (used, tot) = (case parse_proc_meminfo content of Some m \<Rightarrow> m | None \<Rightarrow> (0, 0));
         (rx, tx) = get_proxy_bytes c
     in (prev', fst (step (UpdateMetrics \<lparr>vm_cpu_percent = pct, vm_memory_used_mb = used, vm_memory_total_mb = tot,
           vm_network_tx_bytes = tx, vm_network_rx_bytes = rx\<rparr>) c)))"

datatype metrics_event = Cancelled | NoMultiplexer | Metrics string | MetricsFailed | Traffic "counter_step list"

text \<open>The loop: whether it still runs, its failures in a row, the last snapshot and the collector.\<close>

fun metrics_loop :: "nat \<Rightarrow> CpuSnapshot option \<Rightarrow> MonitoringCollector \<Rightarrow> metrics_event list \<Rightarrow> bool \<times> MonitoringCollector" where
  "metrics_loop failures prev c [] = (True, c)"
| "metrics_loop failures prev c (Cancelled # es) = (False, c)"
| "metrics_loop failures prev c (NoMultiplexer # es) = (False, c)"
| "metrics_loop failures prev c (Metrics content # es) = (case collect content prev c of (prev', c') \<Rightarrow> metrics_loop 0 prev' c' es)"
| "metrics_loop failures prev c (MetricsFailed # es) =
    (if 3 \<le> failures + 1 then (False, c) else metrics_loop (failures + 1) prev c es)"
| "metrics_loop failures prev c (Traffic ss # es) = metrics_loop failures prev (fst (steps ss c)) es"


section \<open>Recovery\<close>

datatype RecoveryState = RDisabled | REnabled | RRecovering

record VmRecoveryState =
  rs_state :: RecoveryState
  rs_retry_count :: u32
  rs_max_retries :: u32

type_synonym recovery = "string \<rightharpoonup> VmRecoveryState"

definition recovery_enable :: "string \<Rightarrow> recovery \<Rightarrow> recovery" where
  "recovery_enable vm r = r(vm \<mapsto> \<lparr>rs_state = REnabled, rs_retry_count = 0, rs_max_retries = 3\<rparr>)"

definition recovery_disable :: "string \<Rightarrow> recovery \<Rightarrow> recovery" where "recovery_disable vm r = r(vm := None)"

definition recovery_status :: "string \<Rightarrow> recovery \<Rightarrow> RecoveryState" where
  "recovery_status vm r = (case r vm of Some s \<Rightarrow> rs_state s | None \<Rightarrow> RDisabled)"

definition on_vm_error :: "string \<Rightarrow> recovery \<Rightarrow> recovery \<times> bool" where
  "on_vm_error vm r =
    (case r vm of
       Some s \<Rightarrow>
         if rs_state s = REnabled \<and> rs_retry_count s < rs_max_retries s
         then (r(vm \<mapsto> s\<lparr>rs_state := RRecovering, rs_retry_count := rs_retry_count s + 1\<rparr>), True) else (r, False)
     | None \<Rightarrow> (r, False))"

definition on_vm_recovered :: "string \<Rightarrow> recovery \<Rightarrow> recovery" where
  "on_vm_recovered vm r = (case r vm of Some s \<Rightarrow> r(vm \<mapsto> s\<lparr>rs_state := REnabled, rs_retry_count := 0\<rparr>) | None \<Rightarrow> r)"

datatype recovery_event = Enable string | Disable string | VmError string | VmRecovered string

definition recovery_step :: "recovery_event \<Rightarrow> recovery \<Rightarrow> recovery" where
  "recovery_step e r = (case e of
     Enable v \<Rightarrow> recovery_enable v r | Disable v \<Rightarrow> recovery_disable v r
   | VmError v \<Rightarrow> fst (on_vm_error v r) | VmRecovered v \<Rightarrow> on_vm_recovered v r)"

definition recovery_run :: "recovery_event list \<Rightarrow> recovery" where
  "recovery_run es = foldl (\<lambda>r e. recovery_step e r) (\<lambda>_. None) es"


section \<open>Lemmas\<close>

definition taken_rx :: "taken list \<Rightarrow> u64" where "taken_rx ts = (\<Sum>t\<leftarrow>ts. case t of TookRx n \<Rightarrow> n | _ \<Rightarrow> 0)"
definition taken_tx :: "taken list \<Rightarrow> u64" where "taken_tx ts = (\<Sum>t\<leftarrow>ts. case t of TookTx n \<Rightarrow> n | _ \<Rightarrow> 0)"
definition added_rx :: "counter_step list \<Rightarrow> u64" where "added_rx ss = (\<Sum>s\<leftarrow>ss. case s of AddIntervalRx n \<Rightarrow> n | _ \<Rightarrow> 0)"
definition added_tx :: "counter_step list \<Rightarrow> u64" where "added_tx ss = (\<Sum>s\<leftarrow>ss. case s of AddIntervalTx n \<Rightarrow> n | _ \<Rightarrow> 0)"

lemmas counted_defs = taken_rx_def taken_tx_def added_rx_def added_tx_def

lemma steps_conserve:
  "taken_rx (snd (steps ss c)) + mc_interval_rx (fst (steps ss c)) = mc_interval_rx c + added_rx ss"
  "taken_tx (snd (steps ss c)) + mc_interval_tx (fst (steps ss c)) = mc_interval_tx c + added_tx ss"
proof (induction ss arbitrary: c)
  case (Cons s ss)
  {
    case 1
    then show ?case
      using Cons(1) [of "fst (step s c)"]
      by (cases s) (simp_all add: counted_defs step_def case_prod_unfold algebra_simps)
  next
    case 2
    then show ?case
      using Cons(2) [of "fst (step s c)"]
      by (cases s) (simp_all add: counted_defs step_def case_prod_unfold algebra_simps)
  }
qed (simp_all add: counted_defs)

text \<open>\<open>interleaved ps ss\<close>: \<open>ss\<close> merges the lists of steps \<open>ps\<close> of several threads.\<close>

inductive interleaved :: "counter_step list list \<Rightarrow> counter_step list \<Rightarrow> bool" where
  finished: "list_all (\<lambda>p. p = []) ps \<Longrightarrow> interleaved ps []"
| next_step: "interleaved (ps @ p # qs) ss \<Longrightarrow> interleaved (ps @ (s # p) # qs) (s # ss)"

lemma interleaved_sum:
  assumes "interleaved ps ss"
  shows "(\<Sum>s\<leftarrow>ss. (f s :: u64)) = (\<Sum>p\<leftarrow>ps. \<Sum>s\<leftarrow>p. f s)"
  using assms
proof induction
  case (finished ps)
  then show ?case
    by (induction ps) auto
qed (simp add: algebra_simps)

lemma recorded: "added_rx (record_proxy_activity d rx tx) = rx" "added_tx (record_proxy_activity d rx tx) = tx"
  by (simp_all add: counted_defs record_proxy_activity_def add_proxy_bytes_def)

lemma snapshot_adds_nothing: "added_rx snapshot_steps = 0" "added_tx snapshot_steps = 0"
  by (simp_all add: counted_defs snapshot_steps_def)

definition attempt_ok :: "VmRecoveryState \<Rightarrow> bool" where
  "attempt_ok s \<longleftrightarrow> rs_max_retries s = 3 \<and> rs_state s \<noteq> RDisabled \<and> rs_retry_count s = (if rs_state s = RRecovering then 1 else 0)"

definition recovery_ok :: "recovery \<Rightarrow> bool" where
  "recovery_ok r \<longleftrightarrow> (\<forall>v s. r v = Some s \<longrightarrow> attempt_ok s)"

lemma recovery_ok_upd: "recovery_ok r \<Longrightarrow> attempt_ok s \<Longrightarrow> recovery_ok (r(v \<mapsto> s))" "recovery_ok r \<Longrightarrow> recovery_ok (r(v := None))"
  by (simp_all add: recovery_ok_def)

lemma recovery_step_ok:
  assumes "recovery_ok r"
  shows "recovery_ok (recovery_step e r)"
proof -
  have "attempt_ok s" if "r v = Some s" for v s
    using assms that by (simp add: recovery_ok_def)
  then show ?thesis
    using assms
    by (cases e) (auto simp: recovery_step_def recovery_enable_def recovery_disable_def on_vm_error_def on_vm_recovered_def attempt_ok_def
        intro!: recovery_ok_upd split: option.split)
qed

lemma recovery_run_ok: "recovery_ok (recovery_run es)"
proof -
  have "recovery_ok (foldl (\<lambda>r e. recovery_step e r) (\<lambda>_. None) es)"
    by (induction es rule: rev_induct) (simp_all add: recovery_step_ok, simp add: recovery_ok_def)
  then show ?thesis
    by (simp add: recovery_run_def)
qed


section \<open>Properties\<close>

text \<open>however the requests and the snapshots of all threads interleave, every byte recorded is in exactly one
  snapshot or still in the counters.\<close>

theorem snapshots_conserve_bytes:
  assumes "interleaved (map (\<lambda>(d, rx, tx). record_proxy_activity d rx tx) rs @ replicate n snapshot_steps) ss"
  shows "taken_rx (snd (steps ss collector_new)) + mc_interval_rx (fst (steps ss collector_new)) = (\<Sum>(d, rx, tx)\<leftarrow>rs. rx)
    \<and> taken_tx (snd (steps ss collector_new)) + mc_interval_tx (fst (steps ss collector_new)) = (\<Sum>(d, rx, tx)\<leftarrow>rs. tx)"
proof -
  have sums: "(\<Sum>p\<leftarrow>map (\<lambda>(d, rx, tx). record_proxy_activity d rx tx) rs @ replicate n snapshot_steps. added_rx p) = (\<Sum>(d, rx, tx)\<leftarrow>rs. rx)"
      "(\<Sum>p\<leftarrow>map (\<lambda>(d, rx, tx). record_proxy_activity d rx tx) rs @ replicate n snapshot_steps. added_tx p) = (\<Sum>(d, rx, tx)\<leftarrow>rs. tx)"
    by (simp_all add: sum_list_replicate snapshot_adds_nothing recorded comp_def case_prod_unfold)
  have "added_rx ss = (\<Sum>(d, rx, tx)\<leftarrow>rs. rx)" "added_tx ss = (\<Sum>(d, rx, tx)\<leftarrow>rs. tx)"
    using interleaved_sum [OF assms, of "\<lambda>s. case s of AddIntervalRx n \<Rightarrow> n | _ \<Rightarrow> 0"]
      interleaved_sum [OF assms, of "\<lambda>s. case s of AddIntervalTx n \<Rightarrow> n | _ \<Rightarrow> 0"] sums
    by (simp_all add: added_rx_def added_tx_def)
  then show ?thesis
    using steps_conserve [of ss collector_new] by (simp add: collector_new_def)
qed

text \<open>a recovery is attempted at most once before it is reported as done: the limit of three attempts is never
  reached, and after a failed attempt no other follows.\<close>

theorem one_recovery_attempt:
  "(snd (on_vm_error v (recovery_run es)) \<longleftrightarrow> recovery_status v (recovery_run es) = REnabled)
    \<and> (case recovery_run es v of Some s \<Rightarrow> rs_retry_count s \<le> 1 \<and> rs_max_retries s = 3 | None \<Rightarrow> True)
    \<and> recovery_status v (fst (on_vm_error v (recovery_run es))) \<noteq> REnabled"
proof (cases "recovery_run es v")
  case (Some s)
  then have "rs_max_retries s = 3" "rs_state s \<noteq> RDisabled" "rs_retry_count s = (if rs_state s = RRecovering then 1 else 0)"
    using recovery_run_ok [of es] by (simp_all add: recovery_ok_def attempt_ok_def)
  then show ?thesis
    using Some by (auto simp: recovery_status_def on_vm_error_def)
qed (simp add: recovery_status_def on_vm_error_def)


section \<open>Witnesses and examples\<close>

theorem snapshots_conserve_bytes_witness:
  "taken_rx (snd (steps ([AddProxyRx 5, AddProxyTx 7, SwapRx, AddIntervalRx 5, AddIntervalTx 7, SetDomain ''d'', SwapTx, TakeDomain]) collector_new))
      + mc_interval_rx (fst (steps ([AddProxyRx 5, AddProxyTx 7, SwapRx, AddIntervalRx 5, AddIntervalTx 7, SetDomain ''d'', SwapTx, TakeDomain]) collector_new))
      = (\<Sum>(d :: string, rx :: u64, tx :: u64)\<leftarrow>[(''d'', 5, 7)]. rx)
    \<and> taken_tx (snd (steps ([AddProxyRx 5, AddProxyTx 7, SwapRx, AddIntervalRx 5, AddIntervalTx 7, SetDomain ''d'', SwapTx, TakeDomain]) collector_new))
      + mc_interval_tx (fst (steps ([AddProxyRx 5, AddProxyTx 7, SwapRx, AddIntervalRx 5, AddIntervalTx 7, SetDomain ''d'', SwapTx, TakeDomain]) collector_new))
      = (\<Sum>(d :: string, rx :: u64, tx :: u64)\<leftarrow>[(''d'', 5, 7)]. tx)"
proof (rule snapshots_conserve_bytes)
  have a: "interleaved [p, q] ss \<Longrightarrow> interleaved [s # p, q] (s # ss)" for p q ss s
    using next_step [of "[]" p "[q]" ss s] by simp
  have b: "interleaved [p, q] ss \<Longrightarrow> interleaved [p, s # q] (s # ss)" for p q ss s
    using next_step [of "[p]" q "[]" ss s] by simp
  show "interleaved (map (\<lambda>(d, rx, tx). record_proxy_activity d rx tx) [(''d'', 5, 7)] @ replicate 1 snapshot_steps)
      [AddProxyRx 5, AddProxyTx 7, SwapRx, AddIntervalRx 5, AddIntervalTx 7, SetDomain ''d'', SwapTx, TakeDomain]"
    by (simp add: record_proxy_activity_def add_proxy_bytes_def snapshot_steps_def)
      (intro a b interleaved.finished, simp)
qed

text \<open>The snapshot is not atomic: a request between its steps gives its bytes to two snapshots, and its domain
  to the one that has no bytes received.\<close>

lemma snapshot_tears:
  "snd (steps [AddProxyRx 5, AddProxyTx 7, SwapRx, AddIntervalRx 5, AddIntervalTx 7, SetDomain ''d'', SwapTx, TakeDomain, SwapRx, SwapTx, TakeDomain]
      collector_new) = [TookRx 0, TookTx 7, TookDomain (Some ''d''), TookRx 5, TookTx 0, TookDomain None]"
  by (simp add: step_def collector_new_def)

text \<open>The loop ends at the third failure in a row and goes on as long as there are fewer.\<close>

lemma three_failures_stop: "fst (metrics_loop 0 prev c (replicate 3 MetricsFailed @ es)) = False"
  by (simp add: eval_nat_numeral)

lemma collects_after_failures:
  "metrics_loop n prev c (Metrics t # es) = metrics_loop 0 (fst (collect t prev c)) (snd (collect t prev c)) es"
  by (simp add: case_prod_unfold)

text \<open>With counters that only grow, the idle ones among them, the percentage is one.\<close>

lemma cpu_percent_bounds:
  assumes "cs_total p \<le> cs_total s" "cs_idle p \<le> cs_idle s" "cs_idle s - cs_idle p \<le> cs_total s - cs_total p"
  shows "0 \<le> cpu_percent (Some p) s \<and> cpu_percent (Some p) s \<le> 100"
proof -
  have le: "unat (cs_idle s - cs_idle p) \<le> unat (cs_total s - cs_total p)"
    using assms(3) by (simp add: word_le_nat_alt)
  have b: "(0 :: rat) \<le> (1 - of_nat i / of_nat t) * 100 \<and> (1 - of_nat i / of_nat t) * 100 \<le> (100 :: rat)" if "i \<le> t" "0 < t" for i t :: nat
  proof -
    have "(0 :: rat) \<le> (1 - q) * 100 \<and> (1 - q) * 100 \<le> 100" if "q \<le> 1" "0 \<le> q" for q :: rat
      using that by auto
    from this [of "of_nat i / of_nat t"] that show ?thesis
      by simp
  qed
  show ?thesis
    using b [OF le] assms(1,2) by (simp add: cpu_percent_def saturating_sub_def Let_def word_less_nat_alt)
qed

text \<open>A negative percentage: a counter that falls makes the total grow less than the idle time.\<close>

lemma cpu_percent_negative: "cpu_percent (Some \<lparr>cs_total = 100, cs_idle = 50\<rparr>) \<lparr>cs_total = 110, cs_idle = 70\<rparr> = -100"
  by (simp add: cpu_percent_def saturating_sub_def)

end
