(* ===== verification/App_Install.thy ===== *)
theory App_Install
  imports Vm_Service Vm_Control Store_Account
begin

text \<open>
  Shells and the installing of applications, \<open>service.rs\<close> of the host: \<open>open_shell\<close>, with or without an
  installation, its background task, and \<open>store_install_app\<close>.  The state is the service's, the store
  account's, the open sessions and the events emitted.  The SSH client, the multiplexer, the answers of
  the guest and \<open>serde_json\<close>'s reading of its messages are fields of \<open>shell_env\<close>.
\<close>

datatype host_event =
    AdminUrlsChanged string | FunctionKeysChanged string | InstallDone int | InstallOutput string
  | ShellOutput u64 bytes | ShellClosed u64 | ShellOpened string u64

record shell_state =
  ss_core :: core_state
  ss_account :: account
  ss_sessions :: "(u64 \<times> string) list"
  ss_events :: "host_event list"

record shell_env =
  sh_account :: account_env
  sh_lib :: store_lib
  sh_stream :: "u32 \<Rightarrow> bool"
  sh_ssh :: bool
  sh_channel :: "string option \<Rightarrow> bool"
  sh_avail :: "string \<Rightarrow> u64 option"
  sh_b64 :: "string \<Rightarrow> string"
  sh_random :: u64
  sh_now :: string
  sh_accept :: "json \<Rightarrow> string option"
  sh_done :: "string \<Rightarrow> (bool \<times> int) option"
  sh_line :: "string \<Rightarrow> string option"

datatype shell_error =
    NoVm string | NotReady | StreamFailed | SshFailed | FetchError | FetchStatus nat | BadBody
  | NotVerified envelope_error | WrongType string | DiskSpace u64 | NoAppId | BadAppId string | ChannelFailed
  | CommandFailed | BadAnswer | Rejected string | NoSession u64

type_synonym 'a shell = "shell_state \<times> (shell_error, 'a) outcome"

definition emit_event :: "host_event \<Rightarrow> shell_state \<Rightarrow> shell_state" where
  "emit_event ev st = st\<lparr>ss_events := ss_events st @ [ev]\<rparr>"

definition on_core :: "(core_state \<Rightarrow> core_state) \<Rightarrow> shell_state \<Rightarrow> shell_state" where
  "on_core f st = st\<lparr>ss_core := f (ss_core st)\<rparr>"


section \<open>Fetching from the store\<close>

definition send_to :: "account_env \<Rightarrow> string \<Rightarrow> string option \<Rightarrow> (nat \<times> string) act" where
  "send_to e url token s =
    (case send_request e (Api ''GET'' url token) s of (None, s) \<Rightarrow> (Err NetworkError, s) | (Some a, s) \<Rightarrow> (Ok a, s))"

definition is_store_url :: "string \<Rightarrow> bool" where "is_store_url url \<longleftrightarrow> starts_with url STORE_BASE_URL"

definition fetch_store_url :: "account_env \<Rightarrow> string \<Rightarrow> (nat \<times> string) act" where
  "fetch_store_url e url s =
    (case (if is_store_url url then access_token e s else (None, s)) of
       (token, s) \<Rightarrow>
         bind_act (send_to e url token)
           (\<lambda>a s. if is_store_url url \<and> fst a = 401
              then (case force_refresh_access_token e s of (Some fresh, s) \<Rightarrow> send_to e url (Some fresh) s | (None, s) \<Rightarrow> (Ok a, s))
              else (Ok a, s)) s)"

definition extract_verified_from_token :: "account_env \<Rightarrow> account \<Rightarrow> string option \<times> account" where
  "extract_verified_from_token e s =
    (case access_token e s of
       (None, s) \<Rightarrow> (None, s)
     | (Some t, s) \<Rightarrow>
         ((case Option.bind (Option.bind (jwt_claims e t) (\<lambda>c. jget c ''verified'')) as_str of
             Some v \<Rightarrow> if v = ''admin'' \<or> v = ''user'' then Some v else None
           | None \<Rightarrow> None), s))"


section \<open>Reading a manifest\<close>

definition json_items :: "json \<Rightarrow> json list" where "json_items v = (case v of JArr xs \<Rightarrow> xs | _ \<Rightarrow> [])"

definition text_or :: "string \<Rightarrow> json \<Rightarrow> string" where "text_or d v = (case as_str v of Some s \<Rightarrow> s | None \<Rightarrow> d)"

definition admin_entries :: "json \<Rightarrow> (string \<times> string) list" where
  "admin_entries m = List.map_filter
    (\<lambda>entry. case as_str (index entry ''url'') of
       Some url \<Rightarrow> if is_valid_http_url url then Some (url, text_or [] (index entry ''label'')) else None
     | None \<Rightarrow> None) (json_items (index m ''admin''))"

definition function_entries :: "json \<Rightarrow> (string \<times> string) list" where
  "function_entries m = List.map_filter
    (\<lambda>f. case (as_str (index f ''label''), as_str (index f ''bash'')) of
       (Some label, Some bash) \<Rightarrow> Some (label, bash) | _ \<Rightarrow> None) (json_items (index m ''functions''))"

text \<open>\<open>p as u16\<close> keeps the low bits.\<close>

definition inbound_ports :: "json \<Rightarrow> u16 list" where
  "inbound_ports m = List.map_filter (\<lambda>v. map_option of_nat (as_u64 v)) (json_items (index (index m ''permissions'') ''inbound_ports''))"

text \<open>The error names the missing space in GB; if the guest does not say what it has, the check is left out.\<close>

definition check_min_disk :: "u64 option \<Rightarrow> json \<Rightarrow> (u64, unit) outcome" where
  "check_min_disk avail m =
    (case as_u64 (index m ''min_disk'') of
       Some n \<Rightarrow>
         if 0 < n then
           (case avail of
              Some a \<Rightarrow> if a < of_nat n then Err ((of_nat n - a + 1023) div 1024) else Ok ()
            | None \<Rightarrow> Ok ())
         else Ok ()
     | None \<Rightarrow> Ok ())"

record AppInfo =
  ai_id :: string
  ai_name :: string
  ai_ports :: "u16 list"
  ai_admin :: "(string \<times> string) list"
  ai_functions :: "(string \<times> string) list"

definition app_info :: "json \<Rightarrow> AppInfo option" where
  "app_info m =
    (let app_id = text_or [] (index m ''id'');
         app_name = (case as_str (index m ''name'') of Some s \<Rightarrow> if s \<noteq> [] then s else app_id | None \<Rightarrow> app_id)
     in if app_id = [] then None
        else Some \<lparr>ai_id = app_id, ai_name = app_name, ai_ports = inbound_ports m, ai_admin = admin_entries m,
                   ai_functions = function_entries m\<rparr>)"


section \<open>Registering\<close>

definition register_admin_url :: "string \<Rightarrow> core_state \<Rightarrow> string \<times> string \<Rightarrow> core_state" where
  "register_admin_url vm st entry =
    (case s_vms st vm of
       None \<Rightarrow> st
     | Some v \<Rightarrow> if fst entry \<in> (au_url \<circ> snd) ` set (in_admin_urls v) then st
                 else fst (add_vm_admin_url vm (fst entry) (snd entry) st))"

definition register_admin_urls :: "string \<Rightarrow> (string \<times> string) list \<Rightarrow> shell_state \<Rightarrow> shell_state" where
  "register_admin_urls vm entries st =
    (if entries = [] \<or> s_vms (ss_core st) vm = None then st
     else emit_event (AdminUrlsChanged vm) (on_core (\<lambda>c. foldl (register_admin_url vm) c entries) st))"

definition register_functions :: "string \<Rightarrow> string \<Rightarrow> string \<Rightarrow> (string \<times> string) list \<Rightarrow> shell_state \<Rightarrow> shell_state" where
  "register_functions vm app_id app_name fs st =
    (if fs = [] then st
     else emit_event (FunctionKeysChanged vm)
       (on_core (\<lambda>c. foldl (\<lambda>c (label, bash). fst (on_db (insert_function_key vm label bash (Some app_id) (Some app_name)) c))
          (fst (on_db (\<lambda>db. (delete_function_keys_by_app vm app_id db, Ok ())) c)) fs) st))"

text \<open>What is recorded when an installation has succeeded; every error is only logged.\<close>

definition record_app :: "shell_env \<Rightarrow> string \<Rightarrow> string \<Rightarrow> string \<Rightarrow> core_state \<Rightarrow> core_state" where
  "record_app e vm app_id app_name c =
    fst (append_vm_description vm app_name (fst (on_db (upsert_installed_app (sh_now e) vm app_id app_name ''latest'') c)))"

definition map_ports :: "string \<Rightarrow> string \<Rightarrow> u16 list \<Rightarrow> core_state \<Rightarrow> core_state" where
  "map_ports vm label ports c = foldl (\<lambda>c p. fst (on_db (insert_port_mapping vm p p label) c)) c ports"


section \<open>Opening a shell\<close>

definition install_info :: "shell_env \<Rightarrow> string \<Rightarrow> string \<Rightarrow> shell_state \<Rightarrow> AppInfo option shell" where
  "install_info e vm url st =
    (case fetch_store_url (sh_account e) url (ss_account st) of
       (r, acct) \<Rightarrow>
         (let st = st\<lparr>ss_account := acct\<rparr>
          in (case r of
                Err _ \<Rightarrow> (st, Err FetchError)
              | Panic \<Rightarrow> (st, Panic)
              | Ok (c, body) \<Rightarrow>
                  if \<not> is_success c then (st, Err (FetchStatus c))
                  else (case ae_json (sh_account e) body of
                          None \<Rightarrow> (st, Err BadBody)
                        | Some raw \<Rightarrow>
                            (st, and_then (map_err NotVerified (checked_manifest (sh_lib e) raw))
                               (\<lambda>m. and_then (map_err DiskSpace (check_min_disk (sh_avail e vm) m)) (\<lambda>_. Ok (app_info m))))))))"

definition install_command :: "string \<Rightarrow> string" where
  "install_command url_b64 =
    ''/bin/bash -lc '' @ [CHR 39] @ ''nilbox-install '' @ url_b64 @ ''; __e=$?; printf \"'' @ [CHR 92] @ ''001NILBOX_DONE:%d''
      @ [CHR 92] @ ''001'' @ [CHR 92] @ ''n\" $__e; exec /bin/bash -l'' @ [CHR 39]"

definition register_all :: "string \<Rightarrow> AppInfo option \<Rightarrow> shell_state \<Rightarrow> shell_state" where
  "register_all vm info st =
    (case info of
       None \<Rightarrow> st
     | Some i \<Rightarrow> register_functions vm (ai_id i) (ai_name i) (ai_functions i) (register_admin_urls vm (ai_admin i) st))"

record shell_session =
  se_id :: u64
  se_vm :: string
  se_install :: bool
  se_info :: "AppInfo option"
  se_verified :: "string option"

definition open_shell :: "shell_env \<Rightarrow> string \<Rightarrow> string option \<Rightarrow> shell_state \<Rightarrow> shell_session shell" where
  "open_shell e vm install_url st =
    (case s_vms (ss_core st) vm of
       None \<Rightarrow> (st, Err (NoVm vm))
     | Some inst \<Rightarrow>
         if \<not> in_multiplexer inst then (st, Err NotReady)
         else if \<not> sh_stream e 22 then (st, Err StreamFailed)
         else if \<not> sh_ssh e then (st, Err SshFailed)
         else then_st (case install_url of Some url \<Rightarrow> install_info e vm url st | None \<Rightarrow> (st, Ok None))
           (\<lambda>st info.
              (case (if install_url \<noteq> None then extract_verified_from_token (sh_account e) (ss_account st) else (None, ss_account st)) of
                 (verified, acct) \<Rightarrow>
                   (let st = register_all vm info (st\<lparr>ss_account := acct\<rparr>)
                    in if \<not> sh_channel e (map_option (install_command \<circ> sh_b64 e) install_url) then (st, Err ChannelFailed)
                       else (let sid = sh_random e AND mask 53
                             in (emit_event (ShellOpened vm sid) (st\<lparr>ss_sessions := (sid, vm) # filter (\<lambda>x. fst x \<noteq> sid) (ss_sessions st)\<rparr>),
                                 Ok \<lparr>se_id = sid, se_vm = vm, se_install = (install_url \<noteq> None), se_info = info, se_verified = verified\<rparr>))))))"


section \<open>The task of a session\<close>

text \<open>The line \<open>SOH NILBOX_DONE:code SOH\<close>, in one piece of output: where it starts, the code and what follows it.\<close>

definition MARKER :: bytes where "MARKER = 0x01 # str_bytes ''NILBOX_DONE:''"

definition parse_i32 :: "string \<Rightarrow> int option" where
  "parse_i32 s =
    (let (neg, t) = (case s of c # r \<Rightarrow> if c = CHR ''-'' then (True, r) else if c = CHR ''+'' then (False, r) else (False, s) | [] \<Rightarrow> (False, s));
         n = int (digits_value t)
     in if t = [] \<or> \<not> list_all is_digit t then None
        else if neg then (if n \<le> 2 ^ 31 then Some (- n) else None)
        else if n < 2 ^ 31 then Some n else None)"

definition exit_code :: "bytes \<Rightarrow> int" where
  "exit_code code = (case from_utf8 () code of Ok s \<Rightarrow> (case parse_i32 s of Some n \<Rightarrow> n | None \<Rightarrow> -1) | _ \<Rightarrow> -1)"

definition find_marker :: "bytes \<Rightarrow> (bytes \<times> int \<times> bytes) option" where
  "find_marker dat =
    (case find_str dat MARKER of
       None \<Rightarrow> None
     | Some start \<Rightarrow>
         (let rest = drop (start + length MARKER) dat; code = takeWhile (\<lambda>b. b \<noteq> 0x01) rest
          in if length code < length rest then Some (take start dat, exit_code code, drop (Suc (length code)) rest) else None))"

definition complete_install :: "shell_env \<Rightarrow> shell_session \<Rightarrow> int \<Rightarrow> shell_state \<Rightarrow> shell_state" where
  "complete_install e s code st =
    emit_event (InstallDone code)
      (if code = 0 then
         (case se_info s of
            Some i \<Rightarrow>
              on_core (\<lambda>c. (if se_verified s = Some ''admin'' then map_ports (se_vm s) (ai_name i) (ai_ports i) else (\<lambda>c. c))
                (record_app e (se_vm s) (ai_id i) (ai_name i) c)) st
          | None \<Rightarrow> st)
       else st)"

datatype shell_msg =
    Output bytes | ExtendedOutput bytes | ExitStatus | Eof | WriteInput bytes bool | Resize | CloseShell

definition close_session :: "shell_session \<Rightarrow> shell_state \<Rightarrow> shell_state" where
  "close_session s st = emit_event (ShellClosed (se_id s)) (st\<lparr>ss_sessions := filter (\<lambda>x. fst x \<noteq> se_id s) (ss_sessions st)\<rparr>)"

fun shell_task :: "shell_env \<Rightarrow> shell_session \<Rightarrow> bool \<Rightarrow> shell_msg list \<Rightarrow> shell_state \<Rightarrow> shell_state" where
  "shell_task e s complete [] st = st"
| "shell_task e s complete (Output dat # ms) st =
    (case (if se_install s \<and> \<not> complete then find_marker dat else None) of
       Some (before, code, after) \<Rightarrow>
         shell_task e s True ms (emit_event (ShellOutput (se_id s) (before @ after)) (complete_install e s code st))
     | None \<Rightarrow> shell_task e s complete ms (emit_event (ShellOutput (se_id s) dat) st))"
| "shell_task e s complete (ExtendedOutput dat # ms) st = shell_task e s complete ms (emit_event (ShellOutput (se_id s) dat) st)"
| "shell_task e s complete (ExitStatus # ms) st = shell_task e s complete ms st"
| "shell_task e s complete (Eof # ms) st = close_session s st"
| "shell_task e s complete (WriteInput dat ok # ms) st = (if ok then shell_task e s complete ms st else close_session s st)"
| "shell_task e s complete (Resize # ms) st = shell_task e s complete ms st"
| "shell_task e s complete (CloseShell # ms) st = close_session s st"


section \<open>Installing over the control port\<close>

definition install_app_command :: "string \<Rightarrow> string \<Rightarrow> (string \<times> string) option \<Rightarrow> json" where
  "install_app_command uuid app_id verify =
    JObj ([(''action'', JStr ''install_app''), (''uuid'', JStr uuid), (''id'', JStr app_id)]
      @ (case verify of Some (token, callback) \<Rightarrow> [(''verify_token'', JStr token), (''store_callback_url'', JStr callback)] | None \<Rightarrow> []))"

text \<open>The manifest of an application, checked.\<close>

definition app_manifest :: "shell_env \<Rightarrow> string \<Rightarrow> json \<Rightarrow> (shell_error, json) outcome" where
  "app_manifest e vm raw =
    and_then (map_err NotVerified (checked_manifest (sh_lib e) raw))
      (\<lambda>m. if text_or [] (index m ''type'') \<noteq> ''application'' then Err (WrongType (text_or [] (index m ''type'')))
        else and_then (map_err DiskSpace (check_min_disk (sh_avail e vm) m))
          (\<lambda>_. case as_str (index m ''id'') of
             None \<Rightarrow> Err NoAppId
           | Some app_id \<Rightarrow> if \<not> is_valid_identifier app_id then Err (BadAppId app_id) else Ok m))"

record installing =
  ig_uuid :: string
  ig_vm :: string
  ig_app :: string
  ig_name :: string

definition store_install_app :: "shell_env \<Rightarrow> string \<Rightarrow> string \<Rightarrow> string \<Rightarrow> (string \<times> string) option \<Rightarrow> shell_state \<Rightarrow> installing shell" where
  "store_install_app e uuid vm url verify st =
    (case fetch_store_url (sh_account e) url (ss_account st) of
       (r, acct) \<Rightarrow>
         (let st = st\<lparr>ss_account := acct\<rparr>
          in (case r of
                Err _ \<Rightarrow> (st, Err FetchError)
              | Panic \<Rightarrow> (st, Panic)
              | Ok (c, body) \<Rightarrow>
                  if \<not> is_success c then (st, Err (FetchStatus c))
                  else (case ae_json (sh_account e) body of
                          None \<Rightarrow> (st, Err BadBody)
                        | Some raw \<Rightarrow>
                            then_st (st, app_manifest e vm raw)
                              (\<lambda>st m.
                                 let app_id = text_or [] (index m ''id''); name = text_or app_id (index m ''name'');
                                     st = register_functions vm app_id name (function_entries m) (register_admin_urls vm (admin_entries m) st)
                                 in (case s_vms (ss_core st) vm of
                                       None \<Rightarrow> (st, Err (NoVm vm))
                                     | Some inst \<Rightarrow>
                                         if \<not> in_multiplexer inst then (st, Err NotReady)
                                         else if \<not> sh_stream e 9402 then (st, Err StreamFailed)
                                         else (case sh_accept e (install_app_command uuid app_id verify) of
                                                 None \<Rightarrow> (st, Err CommandFailed)
                                               | Some answer \<Rightarrow>
                                                   (case ae_json (sh_account e) answer of
                                                      None \<Rightarrow> (st, Err BadAnswer)
                                                    | Some j \<Rightarrow>
                                                        if as_str (index j ''status'') \<noteq> Some ''accepted'' then (st, Err (Rejected answer))
                                                        else (st, Ok \<lparr>ig_uuid = uuid, ig_vm = vm, ig_app = app_id, ig_name = name\<rparr>)))))))))"

text \<open>The task that reads the answers; \<open>None\<close> is a read error.\<close>

fun install_task :: "shell_env \<Rightarrow> installing \<Rightarrow> bytes option list \<Rightarrow> shell_state \<Rightarrow> shell_state" where
  "install_task e g [] st = st"
| "install_task e g (None # ds) st = emit_event (InstallDone (-1)) st"
| "install_task e g (Some dat # ds) st =
    (let content = from_utf8_lossy dat
     in (case sh_done e content of
           Some (success, code) \<Rightarrow>
             (let st = emit_event (InstallDone code) st
              in if success then on_core (record_app e (ig_vm g) (ig_app g) (ig_name g)) st else st)
         | None \<Rightarrow>
             install_task e g ds (case sh_line e content of Some line \<Rightarrow> emit_event (InstallOutput line) st | None \<Rightarrow> st)))"


section \<open>The other operations on sessions\<close>

text \<open>The command sent to the task of the session, if the session is there.\<close>

definition session_command :: "u64 \<Rightarrow> shell_msg \<Rightarrow> shell_state \<Rightarrow> (shell_error, (u64 \<times> shell_msg) list) outcome" where
  "session_command sid m st = (if map_of (ss_sessions st) sid = None then Err (NoSession sid) else Ok [(sid, m)])"

definition write_shell :: "u64 \<Rightarrow> bytes \<Rightarrow> bool \<Rightarrow> shell_state \<Rightarrow> (shell_error, (u64 \<times> shell_msg) list) outcome" where
  "write_shell sid dat ok = session_command sid (WriteInput dat ok)"

definition resize_shell :: "u64 \<Rightarrow> shell_state \<Rightarrow> (shell_error, (u64 \<times> shell_msg) list) outcome" where
  "resize_shell sid = session_command sid Resize"

definition close_shell :: "u64 \<Rightarrow> shell_state \<Rightarrow> (u64 \<times> shell_msg) list" where
  "close_shell sid st = (case session_command sid CloseShell st of Ok ms \<Rightarrow> ms | _ \<Rightarrow> [])"

definition inject_env_to_sessions :: "string \<Rightarrow> string \<Rightarrow> shell_state \<Rightarrow> (u64 \<times> shell_msg) list" where
  "inject_env_to_sessions vm script st = map (\<lambda>x. (fst x, WriteInput (str_bytes script) True)) (filter (\<lambda>x. snd x = vm) (ss_sessions st))"


section \<open>Lemmas\<close>

definition bearer_ok :: "store_request \<Rightarrow> bool" where
  "bearer_ok r \<longleftrightarrow> (case r of Api _ url (Some _) \<Rightarrow> is_store_url url | _ \<Rightarrow> True)"

lemma api_free_bearer: "filter is_api rs = [] \<Longrightarrow> list_all bearer_ok rs"
  by (induction rs) (auto simp: is_api_def bearer_ok_def split: store_request.splits if_splits)

lemma send_to_log: "ac_log (snd (send_to e url t s)) = ac_log s @ [Api ''GET'' url t]"
  by (simp add: send_to_def send_request_def split: option.split)

lemma force_log: "\<exists>rs. ac_log (snd (force_refresh_access_token e s)) = ac_log s @ rs \<and> filter is_api rs = []"
  using refresh_log [of e s] by (cases "refresh e s"; cases "fst (refresh e s)") (auto simp: force_refresh_access_token_def)

text \<open>Nothing but the log and the account's tokens changes before the manifest is accepted.\<close>

lemma port_mappings_kept [simp]:
  "port_mappings (s_db (fst (on_db (insert_function_key vm l b ao no) c))) = port_mappings (s_db c)"
  "port_mappings (s_db (fst (on_db (insert_vm_admin_url vm u l) c))) = port_mappings (s_db c)"
  "port_mappings (s_db (fst (on_db (upsert_installed_app now vm a n v) c))) = port_mappings (s_db c)"
  "port_mappings (s_db (fst (on_db (update_vm r) c))) = port_mappings (s_db c)"
  by (simp_all add: on_db_def s_db_def insert_function_key_def insert_vm_admin_url_def insert_admin_row_def
      upsert_installed_app_def update_vm_def Let_def)


lemma find_str_first: "c \<notin> set before \<Longrightarrow> find_str (before @ (c # p) @ r) (c # p) = Some (length before)"
proof (induction before)
  case Nil
  then show ?case
    using starts_with_append [of "c # p" r] by simp
qed auto

lemma find_marker_printed:
  assumes "0x01 \<notin> set before" "0x01 \<notin> set code"
  shows "find_marker (before @ MARKER @ code @ 0x01 # after) = Some (before, exit_code code, after)"
proof -
  have "find_str (before @ MARKER @ code @ 0x01 # after) MARKER = Some (length before)"
    using find_str_first [OF assms(1), of "str_bytes ''NILBOX_DONE:''" "code @ 0x01 # after"] by (simp add: MARKER_def)
  moreover have "takeWhile (\<lambda>b. b \<noteq> 0x01) (code @ 0x01 # after) = code"
    using assms(2) by (subst takeWhile_append2) auto
  ultimately show ?thesis
    by (simp add: find_marker_def Let_def)
qed

lemma install_info_core: "install_info e vm url st = (st', r) \<Longrightarrow> ss_core st' = ss_core st"
  by (auto simp: install_info_def Let_def split: prod.splits outcome.splits option.splits if_splits)

lemma install_info_Ok:
  assumes "install_info e vm url st = (st', Ok info)"
  shows "\<exists>raw m. checked_manifest (sh_lib e) raw = Ok m \<and> check_min_disk (sh_avail e vm) m = Ok () \<and> info = app_info m"
  using assms by (auto simp: install_info_def Let_def split: prod.splits outcome.splits option.splits if_splits)

lemma emit_fields [simp]: "ss_core (emit_event ev st) = ss_core st" "ss_core (on_core f st) = f (ss_core st)"
  by (simp_all add: emit_event_def on_core_def)

lemma description_ports: "port_mappings (s_db (fst (append_vm_description vm tag c))) = port_mappings (s_db c)"
proof -
  have u: "port_mappings (s_db (fst (update_vm_description vm d c))) = port_mappings (s_db c)" for d
    by (auto simp: update_vm_description_def update_record_def on_db_def s_db_def update_vm_def with_vm_def with_record_def then_st_def
        set_instance_def Let_def split: outcome.splits option.splits prod.splits if_splits)
  show ?thesis
    by (simp add: append_vm_description_def with_vm_def u split: option.split)
qed

lemma record_app_ports: "port_mappings (s_db (record_app e vm a n c)) = port_mappings (s_db c)"
  by (simp add: record_app_def description_ports)

lemma complete_ports:
  "se_verified s \<noteq> Some ''admin'' \<Longrightarrow> port_mappings (s_db (ss_core (complete_install e s code st))) = port_mappings (s_db (ss_core st))"
  by (simp add: complete_install_def record_app_ports split: option.split)

lemma close_core [simp]: "ss_core (close_session s st) = ss_core st"
  by (simp add: close_session_def)

lemma task_ports:
  assumes "se_verified s \<noteq> Some ''admin''"
  shows "port_mappings (s_db (ss_core (shell_task e s complete ms st))) = port_mappings (s_db (ss_core st))"
proof (induction ms arbitrary: complete st)
  case (Cons m ms)
  then show ?case
    using complete_ports [OF assms] by (cases m) (simp_all split: option.split)
qed simp


lemma fetch_store_log:
  assumes "is_store_url url" "access_token e s = (t, s1)"
  shows "\<exists>qs. ac_log (snd (fetch_store_url e url s)) = ac_log s1 @ Api ''GET'' url t # qs \<and> list_all bearer_ok qs"
proof -
  obtain r s2 where r: "send_to e url t s1 = (r, s2)"
    by force
  obtain u s3 where u: "force_refresh_access_token e s2 = (u, s3)"
    by force
  obtain qs where qs: "ac_log s3 = ac_log s2 @ qs" "list_all bearer_ok qs"
    using force_log [of e s2] api_free_bearer by (auto simp: u)
  have s2: "ac_log s2 = ac_log s1 @ [Api ''GET'' url t]"
    using send_to_log [of e url t s1] by (simp add: r)
  show ?thesis
  proof (cases "\<exists>body v. r = Ok (401, body) \<and> u = Some v")
    case True
    then obtain v where "snd (fetch_store_url e url s) = snd (send_to e url (Some v) s3)"
      using assms by (auto simp: fetch_store_url_def r u bind_act_def)
    then show ?thesis
      using qs s2 send_to_log [of e url "Some v" s3] assms(1) by (simp add: bearer_ok_def)
  next
    case False
    then have "snd (fetch_store_url e url s) = s2 \<or> snd (fetch_store_url e url s) = s3"
      using assms by (auto simp: fetch_store_url_def r u bind_act_def split: outcome.split option.split)
    then show ?thesis
      using qs s2 by auto
  qed
qed


section \<open>Properties\<close>

text \<open>a token of the account is sent only to addresses that begin with the store's, whatever the server
  answers.\<close>

theorem store_bearer_confined: "\<exists>rs. ac_log (snd (fetch_store_url e url s)) = ac_log s @ rs \<and> list_all bearer_ok rs"
proof (cases "is_store_url url")
  case False
  then show ?thesis
    using send_to_log [of e url None s]
    by (intro exI [of _ "[Api ''GET'' url None]"])
      (auto simp: fetch_store_url_def bind_act_def bearer_ok_def split: prod.splits outcome.splits)
next
  case True
  obtain t s1 where t: "access_token e s = (t, s1)"
    by force
  obtain rs where "ac_log s1 = ac_log s @ rs" "list_all bearer_ok rs"
    using access_log [of e s] api_free_bearer by (auto simp: t)
  moreover obtain qs where "ac_log (snd (fetch_store_url e url s)) = ac_log s1 @ Api ''GET'' url t # qs" "list_all bearer_ok qs"
    using fetch_store_log [OF True t] by blast
  moreover have "bearer_ok (Api ''GET'' url t)"
    using True by (simp add: bearer_ok_def split: option.split)
  ultimately show ?thesis
    by (intro exI [of _ "rs @ Api ''GET'' url t # qs"]) simp
qed

text \<open>the address is compared as text: every address that continues the store's name gets the token, also one
  of another host.\<close>

theorem lookalike_host_gets_bearer:
  assumes "ac_access s = Some t" "\<not> is_jwt_near_expiry e t REFRESH_LEEWAY_SECS"
  shows "Api ''GET'' (STORE_BASE_URL @ ''.example.org/'' @ path) (Some t)
    \<in> set (ac_log (snd (fetch_store_url e (STORE_BASE_URL @ ''.example.org/'' @ path) s)))"
proof -
  let ?url = "STORE_BASE_URL @ ''.example.org/'' @ path"
  have "access_token e s = (Some t, s)" "is_store_url ?url"
    using assms by (simp_all add: access_token_def is_store_url_def)
  then obtain qs where "ac_log (snd (fetch_store_url e ?url s)) = ac_log s @ Api ''GET'' ?url (Some t) # qs"
    using fetch_store_log by blast
  then show ?thesis
    by simp
qed


text \<open>whoever prints the line that ends an installation ends it: with an administrator's account the ports that the
  manifest names are mapped and the application recorded, without the installer having run.\<close>

theorem printed_line_completes_install:
  assumes "se_install s" "se_info s = Some i" "se_verified s = Some ''admin''" "0x01 \<notin> set before"
  shows "shell_task e s False (Output (before @ MARKER @ [0x30, 0x01] @ after) # ms) st
    = shell_task e s True ms (emit_event (ShellOutput (se_id s) (before @ after)) (emit_event (InstallDone 0)
        (on_core (\<lambda>c. map_ports (se_vm s) (ai_name i) (ai_ports i) (record_app e (se_vm s) (ai_id i) (ai_name i) c)) st)))"
proof -
  have "exit_code [0x30] = 0"
    by code_simp
  then have "find_marker (before @ MARKER @ [0x30, 0x01] @ after) = Some (before, 0, after)"
    using find_marker_printed [OF assms(4), of "[0x30]" after] by simp
  then show ?thesis
    using assms(1-3) by (simp add: complete_install_def)
qed

text \<open>no session of an account that is not an administrator's maps a port.\<close>

theorem ports_only_for_admin:
  assumes "se_verified s \<noteq> Some ''admin''"
  shows "port_mappings (s_db (ss_core (shell_task e s complete ms st))) = port_mappings (s_db (ss_core st))"
  using assms by (rule task_ports)


section \<open>Witnesses and examples\<close>

definition sample_tokens :: account_env where
  "sample_tokens = (sample_net None)\<lparr>ae_json := \<lambda>_. Some (JObj [(''exp'', JNum 5000)]), ae_b64_url := \<lambda>s. Some s\<rparr>"

definition sample_logged_in :: account where
  "sample_logged_in = (account_new [] None)\<lparr>ac_access := Some ''a.b.c''\<rparr>"

definition sample_shell_env :: shell_env where
  "sample_shell_env = \<lparr>sh_account = sample_tokens, sh_lib = sample_lib, sh_stream = \<lambda>_. True, sh_ssh = True, sh_channel = \<lambda>_. True,
     sh_avail = \<lambda>_. None, sh_b64 = \<lambda>s. s, sh_random = 7, sh_now = ''t'', sh_accept = \<lambda>_. None, sh_done = \<lambda>_. None, sh_line = \<lambda>_. None\<rparr>"

definition sample_app :: AppInfo where
  "sample_app = \<lparr>ai_id = ''app'', ai_name = ''App'', ai_ports = [8080], ai_admin = [], ai_functions = []\<rparr>"

definition sample_session :: "string option \<Rightarrow> shell_session" where
  "sample_session v = \<lparr>se_id = 7, se_vm = ''v'', se_install = True, se_info = Some sample_app, se_verified = v\<rparr>"

definition sample_shells :: shell_state where
  "sample_shells = \<lparr>ss_core = sample_core, ss_account = sample_logged_in, ss_sessions = [], ss_events = []\<rparr>"

theorem lookalike_host_gets_bearer_witness:
  "Api ''GET'' (STORE_BASE_URL @ ''.example.org/'' @ ''m.json'') (Some ''a.b.c'')
    \<in> set (ac_log (snd (fetch_store_url sample_tokens (STORE_BASE_URL @ ''.example.org/'' @ ''m.json'') sample_logged_in)))"
proof (rule lookalike_host_gets_bearer)
  show "ac_access sample_logged_in = Some ''a.b.c''"
    by (simp add: sample_logged_in_def)
  show "\<not> is_jwt_near_expiry sample_tokens ''a.b.c'' REFRESH_LEEWAY_SECS"
    by (simp add: is_jwt_near_expiry_def jwt_exp_def jwt_claims_def sample_tokens_def sample_net_def REFRESH_LEEWAY_SECS_def Let_def)
qed

theorem printed_line_completes_install_witness:
  "shell_task sample_shell_env (sample_session (Some ''admin'')) False (Output ([] @ MARKER @ [0x30, 0x01] @ []) # []) sample_shells
    = shell_task sample_shell_env (sample_session (Some ''admin'')) True []
        (emit_event (ShellOutput (se_id (sample_session (Some ''admin''))) ([] @ [])) (emit_event (InstallDone 0)
          (on_core (\<lambda>c. map_ports (se_vm (sample_session (Some ''admin''))) (ai_name sample_app) (ai_ports sample_app)
             (record_app sample_shell_env (se_vm (sample_session (Some ''admin''))) (ai_id sample_app) (ai_name sample_app) c)) sample_shells)))"
  by (rule printed_line_completes_install) (simp_all add: sample_session_def)

theorem ports_only_for_admin_witness:
  "port_mappings (s_db (ss_core (shell_task sample_shell_env (sample_session (Some ''user'')) False
      [Output (MARKER @ [0x30, 0x01])] sample_shells))) = port_mappings (s_db (ss_core sample_shells))"
  by (rule ports_only_for_admin) (simp add: sample_session_def)

text \<open>A line that arrives in two pieces is missed: nothing is recorded and no event reports the end.\<close>

lemma split_marker_missed:
  "ss_core (shell_task e s False [Output MARKER, Output [0x30, 0x01]] st) = ss_core st"
proof -
  have m: "find_marker MARKER = None" "find_marker [0x30, 0x01] = None"
    by code_simp+
  show ?thesis
    by (simp add: m)
qed

text \<open>The shell's path checks neither the type of the document nor the identifier of the application.\<close>

lemma any_document_installs: "map_option ai_id (app_info (JObj [(''type'', JStr ''os-image''), (''id'', JStr ''../x'')])) = Some ''../x''"
  by (simp add: app_info_def text_or_def index_def Let_def)

text \<open>A port above 65535 is cut to its low bits.\<close>

lemma port_truncated: "inbound_ports (JObj [(''permissions'', JObj [(''inbound_ports'', JArr [JNum 65558])])]) = [22]"
  by (simp add: inbound_ports_def json_items_def index_def List.map_filter_def)

end
