(* ===== verification/Cdp_Launch.thy ===== *)
theory Cdp_Launch
  imports Rust_Text
begin

text \<open>
  The tunnels of a VM to ports of its host and the browser that is started for the debugging port,
  \<open>service.rs\<close>: \<open>handle_host_connect_stream\<close> and what it calls.  The state is the handle shared by all
  tunnels, the browsers that run, with the profile they were started with, the timers pending and the open
  tunnels.  Which connections succeed depends on what was done before and is a parameter, as are the
  process lists of the operating system.
\<close>

datatype target_os = MacOs | Linux | Windows

definition CDP_PORT :: u32 where "CDP_PORT = 9222"

definition CDP_PROFILE_HEADLESS :: string where "CDP_PROFILE_HEADLESS = ''/tmp/nilbox-cdp-profile-headless''"
definition CDP_PROFILE_HEADED :: string where "CDP_PROFILE_HEADED = ''/tmp/nilbox-cdp-profile-headed''"

text \<open>\<open>tmp\<close> is the directory for temporary files, with its separator.\<close>

definition cdp_profile_dir :: "target_os \<Rightarrow> string \<Rightarrow> bool \<Rightarrow> string" where
  "cdp_profile_dir os tmp headless =
    (if os = Windows then tmp @ (if headless then ''nilbox-cdp-profile-headless'' else ''nilbox-cdp-profile-headed'')
     else if headless then CDP_PROFILE_HEADLESS else CDP_PROFILE_HEADED)"

definition resolve_cdp_browser_path :: "target_os \<Rightarrow> string \<Rightarrow> string" where
  "resolve_cdp_browser_path os browser =
    (case os of
       MacOs \<Rightarrow> if browser = ''edge'' then ''/Applications/Microsoft Edge.app/Contents/MacOS/Microsoft Edge''
                else ''/Applications/Google Chrome.app/Contents/MacOS/Google Chrome''
     | Linux \<Rightarrow> if browser = ''edge'' then ''microsoft-edge'' else ''google-chrome''
     | Windows \<Rightarrow> if browser = ''edge'' then ''C:'' @ [CHR 92] @ ''Program Files (x86)'' @ [CHR 92] @ ''Microsoft'' @ [CHR 92] @ ''Edge''
                       @ [CHR 92] @ ''Application'' @ [CHR 92] @ ''msedge.exe''
                  else ''C:'' @ [CHR 92] @ ''Program Files'' @ [CHR 92] @ ''Google'' @ [CHR 92] @ ''Chrome'' @ [CHR 92] @ ''Application''
                       @ [CHR 92] @ ''chrome.exe'')"

definition launch_args :: "target_os \<Rightarrow> string \<Rightarrow> bool \<Rightarrow> string list" where
  "launch_args os tmp headless =
    (''--user-data-dir='' @ cdp_profile_dir os tmp headless)
    # [''--remote-debugging-port=9222'', ''--no-first-run'', ''--no-default-browser-check'', ''--disable-sync'',
       ''--disable-extensions'', ''--disable-background-networking'', ''--disable-background-mode'', ''--no-service-autorun'',
       ''--metrics-recording-only'', ''--disable-default-apps'', ''--disable-popup-blocking'']
    @ (if os = MacOs then [''--use-mock-keychain''] else [])
    @ (if headless then [''--headless=new''] else [])"


section \<open>State\<close>

record CdpBrowserHandle =
  ch_child :: "nat option"
  ch_headless :: bool
  ch_timer :: "nat option"

datatype cdp_op = Probe | Launch string "string list" | KillChild nat | KillProfile string | TunnelTo u32

record cdp_state =
  cd_handle :: CdpBrowserHandle
  cd_procs :: "(nat \<times> bool) list"
  cd_timers :: "nat list"
  cd_next :: nat
  cd_tunnels :: nat
  cd_log :: "cdp_op list"

record cdp_env =
  ce_os :: target_os
  ce_tmp :: string
  ce_browser :: string
  ce_open_mode :: string
  ce_connect :: "cdp_op list \<Rightarrow> bool"
  ce_target :: "u32 \<Rightarrow> bool"
  ce_spawn :: bool

datatype cdp_error = InvalidPayload | LaunchFailed | RestartFailed | StartFailed | ReconnectFailed | TargetFailed

definition handle_new :: CdpBrowserHandle where "handle_new = \<lparr>ch_child = None, ch_headless = True, ch_timer = None\<rparr>"

definition cdp_start :: cdp_state where
  "cdp_start = \<lparr>cd_handle = handle_new, cd_procs = [], cd_timers = [], cd_next = 0, cd_tunnels = 0, cd_log = []\<rparr>"

definition logged :: "cdp_op \<Rightarrow> cdp_state \<Rightarrow> cdp_state" where "logged x st = st\<lparr>cd_log := cd_log st @ [x]\<rparr>"

text \<open>A connection to the port, tried and dropped or kept.\<close>

definition probe :: "cdp_env \<Rightarrow> cdp_state \<Rightarrow> cdp_state \<times> bool" where
  "probe e st = (logged Probe st, ce_connect e (cd_log st))"

definition cancel_kill_timer :: "cdp_state \<Rightarrow> cdp_state" where
  "cancel_kill_timer st =
    (case ch_timer (cd_handle st) of
       Some t \<Rightarrow> st\<lparr>cd_handle := (cd_handle st)\<lparr>ch_timer := None\<rparr>, cd_timers := removeAll t (cd_timers st)\<rparr>
     | None \<Rightarrow> st)"

text \<open>\<open>h.child.take()\<close> and its kill.\<close>

definition kill_child :: "cdp_state \<Rightarrow> cdp_state" where
  "kill_child st =
    (case ch_child (cd_handle st) of
       Some p \<Rightarrow> logged (KillChild p) (st\<lparr>cd_handle := (cd_handle st)\<lparr>ch_child := None\<rparr>, cd_procs := filter (\<lambda>x. fst x \<noteq> p) (cd_procs st)\<rparr>)
     | None \<Rightarrow> st)"

text \<open>Nothing on Linux.\<close>

definition kill_nilbox_cdp_chrome_by_profile :: "cdp_env \<Rightarrow> bool \<Rightarrow> cdp_state \<Rightarrow> cdp_state" where
  "kill_nilbox_cdp_chrome_by_profile e headless st =
    (if ce_os e = Linux then st
     else logged (KillProfile (cdp_profile_dir (ce_os e) (ce_tmp e) headless)) (st\<lparr>cd_procs := filter (\<lambda>x. snd x \<noteq> headless) (cd_procs st)\<rparr>))"

definition kill_nilbox_cdp_chrome_check :: "cdp_env \<Rightarrow> cdp_state \<Rightarrow> bool" where
  "kill_nilbox_cdp_chrome_check e st \<longleftrightarrow> ce_os e \<noteq> Linux \<and> cd_procs st \<noteq> []"

definition cdp_auto_launch :: "cdp_env \<Rightarrow> bool \<Rightarrow> cdp_state \<Rightarrow> cdp_state \<times> nat option" where
  "cdp_auto_launch e headless st =
    (if ce_spawn e
     then (logged (Launch (resolve_cdp_browser_path (ce_os e) (ce_browser e)) (launch_args (ce_os e) (ce_tmp e) headless))
             (st\<lparr>cd_procs := (cd_next st, headless) # cd_procs st, cd_next := Suc (cd_next st)\<rparr>), Some (cd_next st))
     else (st, None))"

definition set_child :: "nat \<Rightarrow> bool \<Rightarrow> cdp_state \<Rightarrow> cdp_state" where
  "set_child p headless st = st\<lparr>cd_handle := (cd_handle st)\<lparr>ch_child := Some p, ch_headless := headless\<rparr>\<rparr>"


section \<open>Connecting\<close>

fun wait_closed :: "cdp_env \<Rightarrow> nat \<Rightarrow> cdp_state \<Rightarrow> cdp_state" where
  "wait_closed e 0 st = st"
| "wait_closed e (Suc n) st = (case probe e st of (st, up) \<Rightarrow> if \<not> up then st else wait_closed e n st)"

fun wait_open :: "cdp_env \<Rightarrow> nat \<Rightarrow> cdp_state \<Rightarrow> cdp_state \<times> bool" where
  "wait_open e 0 st = (st, False)"
| "wait_open e (Suc n) st = (case probe e st of (st, up) \<Rightarrow> if up then (st, True) else wait_open e n st)"

definition launch_and_wait :: "cdp_env \<Rightarrow> bool \<Rightarrow> cdp_error \<Rightarrow> cdp_state \<Rightarrow> cdp_state \<times> (cdp_error, unit) outcome" where
  "launch_and_wait e headless err st =
    (case cdp_auto_launch e headless st of
       (st, None) \<Rightarrow> (st, Err LaunchFailed)
     | (st, Some p) \<Rightarrow> (case wait_open e 10 (set_child p headless st) of (st, ok) \<Rightarrow> (st, if ok then Ok () else Err err)))"

definition connect_cdp_tcp :: "cdp_env \<Rightarrow> bool \<Rightarrow> cdp_state \<Rightarrow> cdp_state \<times> (cdp_error, unit) outcome" where
  "connect_cdp_tcp e effective st =
    (case probe e st of
       (st, False) \<Rightarrow> launch_and_wait e effective StartFailed st
     | (st, True) \<Rightarrow>
         (let running = ch_headless (cd_handle st);
              ours = (ch_child (cd_handle st) \<noteq> None \<or> kill_nilbox_cdp_chrome_check e st)
          in if running \<noteq> effective \<and> ours
             then launch_and_wait e effective RestartFailed
                    (wait_closed e 10 (kill_nilbox_cdp_chrome_by_profile e running (kill_child (cancel_kill_timer st))))
             else (case probe e st of (st, up) \<Rightarrow> (st, if up then Ok () else Err ReconnectFailed))))"

definition effective_headless :: "string \<Rightarrow> u8 \<Rightarrow> bool" where
  "effective_headless open_mode cdp_mode =
    (if open_mode = ''headed'' then False else if open_mode = ''headless'' then True else cdp_mode \<noteq> 0x02)"

definition replacement_host :: "u8 \<Rightarrow> string" where
  "replacement_host cdp_mode =
    (if cdp_mode = 0x02 then ''headed.cdp.nilbox'' else if cdp_mode = 0x01 then ''headless.cdp.nilbox'' else ''cdp.nilbox'')"

text \<open>The state while the tunnel is open; the host is given for the debugging port, where replies are rewritten.\<close>

definition open_tunnel :: "cdp_env \<Rightarrow> bytes \<Rightarrow> cdp_state \<Rightarrow> cdp_state \<times> (cdp_error, string option) outcome" where
  "open_tunnel e payload st =
    (if length payload < 4 then (st, Err InvalidPayload)
     else (let port = u32_from_be (take 4 payload); mode = (if 4 < length payload then payload ! 4 else 0)
           in if port = CDP_PORT
              then (case connect_cdp_tcp e (effective_headless (ce_open_mode e) mode) (cancel_kill_timer st) of
                      (st, Ok _) \<Rightarrow> (st\<lparr>cd_tunnels := Suc (cd_tunnels st)\<rparr>, Ok (Some (replacement_host mode)))
                    | (st, Err x) \<Rightarrow> (st, Err x)
                    | (st, Panic) \<Rightarrow> (st, Panic))
              else if ce_target e port then (logged (TunnelTo port) st, Ok None)
              else (st, Err TargetFailed)))"

definition schedule_headless_idle_kill :: "cdp_state \<Rightarrow> cdp_state" where
  "schedule_headless_idle_kill st =
    (if ch_headless (cd_handle st) \<and> ch_child (cd_handle st) \<noteq> None
     then st\<lparr>cd_handle := (cd_handle st)\<lparr>ch_timer := Some (cd_next st)\<rparr>, cd_timers := cd_next st # cd_timers st, cd_next := Suc (cd_next st)\<rparr>
     else st)"

text \<open>The end of a tunnel to the debugging port.\<close>

definition close_tunnel :: "cdp_state \<Rightarrow> cdp_state" where
  "close_tunnel st = schedule_headless_idle_kill (st\<lparr>cd_tunnels := cd_tunnels st - 1\<rparr>)"

definition timer_fires :: "cdp_env \<Rightarrow> nat \<Rightarrow> cdp_state \<Rightarrow> cdp_state" where
  "timer_fires e t st =
    (if t \<notin> set (cd_timers st) then st
     else (let st = st\<lparr>cd_timers := removeAll t (cd_timers st)\<rparr>
           in if ch_headless (cd_handle st) \<and> ch_child (cd_handle st) \<noteq> None
              then (let st = kill_child st
                    in kill_nilbox_cdp_chrome_by_profile e True (st\<lparr>cd_handle := (cd_handle st)\<lparr>ch_timer := None\<rparr>\<rparr>))
              else st))"

definition drop_handle :: "cdp_env \<Rightarrow> cdp_state \<Rightarrow> cdp_state" where
  "drop_handle e st =
    (if ch_headless (cd_handle st) then kill_nilbox_cdp_chrome_by_profile e True (kill_child st) else st)"

text \<open>A VM's connection ended; \<open>remaining\<close> is the number of those that are left.\<close>

definition vm_disconnected :: "cdp_env \<Rightarrow> nat \<Rightarrow> cdp_state \<Rightarrow> cdp_state" where
  "vm_disconnected e remaining st =
    (if remaining = 0 \<and> ch_headless (cd_handle st) \<and> ch_child (cd_handle st) \<noteq> None
     then kill_nilbox_cdp_chrome_by_profile e True (kill_child (cancel_kill_timer st)) else st)"

datatype cdp_event = OpenTunnel bytes | CloseTunnel | TimerFires nat | VmGone nat

definition cdp_step :: "cdp_env \<times> cdp_event \<Rightarrow> cdp_state \<Rightarrow> cdp_state" where
  "cdp_step ev st = (case ev of (e, x) \<Rightarrow>
    (case x of
       OpenTunnel payload \<Rightarrow> fst (open_tunnel e payload st)
     | CloseTunnel \<Rightarrow> if 0 < cd_tunnels st then close_tunnel st else st
     | TimerFires t \<Rightarrow> timer_fires e t st
     | VmGone remaining \<Rightarrow> vm_disconnected e remaining st))"

definition cdp_run :: "(cdp_env \<times> cdp_event) list \<Rightarrow> cdp_state" where
  "cdp_run evs = foldl (\<lambda>st ev. cdp_step ev st) cdp_start evs"


section \<open>Lemmas\<close>

text \<open>The child runs in the mode of the handle, and numbers are fresh.\<close>

definition cdp_inv :: "cdp_state \<Rightarrow> bool" where
  "cdp_inv st \<longleftrightarrow> distinct (map fst (cd_procs st)) \<and> (\<forall>x \<in> set (cd_procs st). fst x < cd_next st)
    \<and> (\<forall>p m. ch_child (cd_handle st) = Some p \<longrightarrow> (p, m) \<in> set (cd_procs st) \<longrightarrow> m = ch_headless (cd_handle st))
    \<and> (\<forall>p. ch_child (cd_handle st) = Some p \<longrightarrow> p < cd_next st)"

named_theorems cdp

lemma logged_fields [simp]:
  "cd_handle (logged x st) = cd_handle st" "cd_procs (logged x st) = cd_procs st" "cd_timers (logged x st) = cd_timers st"
  "cd_next (logged x st) = cd_next st" "cd_tunnels (logged x st) = cd_tunnels st"
  by (simp_all add: logged_def)

lemma inv_logged [simp]: "cdp_inv (logged x st) = cdp_inv st"
  by (simp add: cdp_inv_def)

lemma inv_cancel [cdp]: "cdp_inv st \<Longrightarrow> cdp_inv (cancel_kill_timer st)"
  by (simp add: cancel_kill_timer_def cdp_inv_def split: option.split)

lemma inv_filter: "cdp_inv st \<Longrightarrow> cdp_inv (st\<lparr>cd_procs := filter P (cd_procs st)\<rparr>)"
  by (simp add: cdp_inv_def distinct_map_filter)

lemma inv_no_child: "cdp_inv st \<Longrightarrow> cdp_inv (st\<lparr>cd_handle := (cd_handle st)\<lparr>ch_child := None\<rparr>\<rparr>)"
  by (simp add: cdp_inv_def)

lemma inv_kill_child [cdp]: "cdp_inv st \<Longrightarrow> cdp_inv (kill_child st)"
  using inv_filter [OF inv_no_child] by (simp add: kill_child_def split: option.split)

lemma inv_kill_profile [cdp]: "cdp_inv st \<Longrightarrow> cdp_inv (kill_nilbox_cdp_chrome_by_profile e h st)"
  by (simp add: kill_nilbox_cdp_chrome_by_profile_def inv_filter)

lemma inv_closed [cdp]: "cdp_inv st \<Longrightarrow> cdp_inv (wait_closed e n st)"
  by (induction n arbitrary: st) (simp_all add: probe_def)

lemma wait_open_state: "\<exists>l. fst (wait_open e n st) = st\<lparr>cd_log := l\<rparr>"
proof (induction n arbitrary: st)
  case 0
  show ?case
    by (intro exI [of _ "cd_log st"]) simp
next
  case (Suc n)
  obtain l where "fst (wait_open e n (logged Probe st)) = (logged Probe st)\<lparr>cd_log := l\<rparr>"
    using Suc by blast
  then show ?case
    by (auto simp: probe_def logged_def)
qed

lemma inv_log [simp]: "cdp_inv (st\<lparr>cd_log := l\<rparr>) = cdp_inv st"
  by (simp add: cdp_inv_def)

lemma launch_cases:
  obtains (failed) err where "launch_and_wait e h x st = (st, Err err)"
  | (started) l r st1 where "launch_and_wait e h x st = (st1\<lparr>cd_log := l\<rparr>, r)"
      "st1 = set_child (cd_next st) h (st\<lparr>cd_procs := (cd_next st, h) # cd_procs st, cd_next := Suc (cd_next st)\<rparr>)" "r \<noteq> Panic"
proof (cases "ce_spawn e")
  case False
  then show ?thesis
    using failed by (simp add: launch_and_wait_def cdp_auto_launch_def)
next
  case True
  let ?op = "Launch (resolve_cdp_browser_path (ce_os e) (ce_browser e)) (launch_args (ce_os e) (ce_tmp e) h)"
  let ?s = "st\<lparr>cd_procs := (cd_next st, h) # cd_procs st, cd_next := Suc (cd_next st)\<rparr>"
  obtain l where l: "fst (wait_open e 10 (set_child (cd_next st) h (logged ?op ?s))) = (set_child (cd_next st) h (logged ?op ?s))\<lparr>cd_log := l\<rparr>"
    using wait_open_state by blast
  then show ?thesis
    using True started [of l "set_child (cd_next st) h ?s"]
    by (simp add: launch_and_wait_def cdp_auto_launch_def case_prod_unfold set_child_def logged_def)
qed

lemma inv_launch [cdp]:
  assumes "cdp_inv st"
  shows "cdp_inv (fst (launch_and_wait e h x st))"
proof (cases rule: launch_cases [of e h x st])
  case (started l r st1)
  have "cdp_inv st1"
    using assms unfolding started(2) by (auto simp: cdp_inv_def set_child_def)
  then show ?thesis
    using started(1) by simp
qed (simp add: assms)

lemma inv_connect [cdp]: "cdp_inv st \<Longrightarrow> cdp_inv (fst (connect_cdp_tcp e h st))"
  by (simp add: connect_cdp_tcp_def probe_def Let_def inv_launch inv_closed inv_kill_profile inv_kill_child inv_cancel split: bool.split)

lemma inv_open: "cdp_inv st \<Longrightarrow> cdp_inv (fst (open_tunnel e p st))"
proof -
  assume st: "cdp_inv st"
  have c: "cdp_inv (fst (connect_cdp_tcp e h (cancel_kill_timer st)))" for h
    by (intro cdp st)
  have t: "cdp_inv (s\<lparr>cd_tunnels := n\<rparr>) = cdp_inv s" for s n
    by (simp add: cdp_inv_def)
  show ?thesis
    using st c by (auto simp: open_tunnel_def Let_def t split: prod.splits outcome.splits) (metis fst_conv)+
qed

lemma inv_close: "cdp_inv st \<Longrightarrow> cdp_inv (close_tunnel st)"
  by (auto simp: close_tunnel_def schedule_headless_idle_kill_def cdp_inv_def less_SucI)

lemma inv_timers: "cdp_inv st \<Longrightarrow> cdp_inv (st\<lparr>cd_timers := ts\<rparr>)" "cdp_inv st \<Longrightarrow> cdp_inv (st\<lparr>cd_handle := (cd_handle st)\<lparr>ch_timer := t\<rparr>\<rparr>)"
  by (simp_all add: cdp_inv_def)

lemma inv_timer: "cdp_inv st \<Longrightarrow> cdp_inv (timer_fires e t st)"
  by (simp add: timer_fires_def Let_def inv_timers inv_kill_profile inv_kill_child)

lemma inv_step: "cdp_inv st \<Longrightarrow> cdp_inv (cdp_step ev st)"
  by (cases ev; cases "snd ev") (simp_all add: cdp_step_def inv_open inv_close inv_timer vm_disconnected_def inv_kill_profile inv_kill_child inv_cancel)

lemma inv_run: "cdp_inv (cdp_run evs)"
proof -
  have "cdp_inv (foldl (\<lambda>st ev. cdp_step ev st) cdp_start evs)"
    by (induction evs rule: rev_induct) (simp_all add: inv_step, simp add: cdp_inv_def cdp_start_def handle_new_def)
  then show ?thesis
    by (simp add: cdp_run_def)
qed

text \<open>What a kill of a headless child and of the headless profile leaves.\<close>

lemma headed_kept:
  assumes "cdp_inv st" "ch_headless (cd_handle st)"
  shows "filter (\<lambda>x. \<not> snd x) (cd_procs (kill_child st)) = filter (\<lambda>x. \<not> snd x) (cd_procs st)"
proof (cases "ch_child (cd_handle st)")
  case (Some p)
  then have "fst x \<noteq> p \<or> snd x" if "x \<in> set (cd_procs st)" for x
    using assms that by (cases x) (auto simp: cdp_inv_def)
  then show ?thesis
    using Some by (auto simp: kill_child_def intro!: filter_cong)
qed (simp add: kill_child_def)

lemma profile_kept:
  "filter (\<lambda>x. \<not> snd x) (cd_procs (kill_nilbox_cdp_chrome_by_profile e True st)) = filter (\<lambda>x. \<not> snd x) (cd_procs st)"
  by (auto simp: kill_nilbox_cdp_chrome_by_profile_def intro!: filter_cong)


section \<open>Properties\<close>


text \<open>the end of one tunnel starts a timer that ends the browser under the tunnels that stay open.\<close>

theorem idle_timer_kills_used_browser:
  assumes "ch_headless (cd_handle st)" "ch_child (cd_handle st) = Some p" "2 \<le> cd_tunnels st"
  shows "0 < cd_tunnels (timer_fires e (cd_next st) (close_tunnel st))
    \<and> p \<notin> fst ` set (cd_procs (timer_fires e (cd_next st) (close_tunnel st)))"
  using assms
  by (auto simp: close_tunnel_def schedule_headless_idle_kill_def timer_fires_def Let_def kill_child_def
      kill_nilbox_cdp_chrome_by_profile_def logged_def)

text \<open>a VM reaches every port of its host's loopback address but the debugging port, which is rewritten: no
  setting is asked.\<close>

theorem every_host_port_reachable:
  assumes "port \<noteq> CDP_PORT" "ce_target e port"
  shows "open_tunnel e (put_u32_be port @ rest) st = (logged (TunnelTo port) st, Ok None)"
  using assms by (simp add: open_tunnel_def Let_def)

text \<open>an accepted tunnel to the debugging port has a browser of the mode asked for, or one that was not started
  here.\<close>

theorem tunnel_has_mode:
  assumes "connect_cdp_tcp e h st = (st', Ok ())"
  shows "ch_headless (cd_handle st') = h \<or> ch_child (cd_handle st') = None"
proof -
  have l: "launch_and_wait e h x s = (st', Ok ()) \<Longrightarrow> ch_headless (cd_handle st') = h" for x s
    by (cases rule: launch_cases [of e h x s]) (auto simp: set_child_def)
  show ?thesis
    using assms l by (auto simp: connect_cdp_tcp_def probe_def Let_def split: bool.splits if_splits)
qed


section \<open>Witnesses and examples\<close>

definition is_launch :: "cdp_op \<Rightarrow> bool" where "is_launch x \<longleftrightarrow> (case x of Launch _ _ \<Rightarrow> True | _ \<Rightarrow> False)"

definition sample_cdp_env :: cdp_env where
  "sample_cdp_env = \<lparr>ce_os = Linux, ce_tmp = [], ce_browser = ''chrome'', ce_open_mode = ''auto'', ce_connect = list_ex is_launch,
     ce_target = (\<lambda>_. True), ce_spawn = True\<rparr>"

definition sample_tunnels :: cdp_state where
  "sample_tunnels = cdp_run [(sample_cdp_env, OpenTunnel [0, 0, 36, 6]), (sample_cdp_env, OpenTunnel [0, 0, 36, 6])]"

lemma sample_cdp_env_simps [simp]:
  "ce_os sample_cdp_env = Linux" "ce_open_mode sample_cdp_env = ''auto''" "ce_connect sample_cdp_env = list_ex is_launch"
  "ce_target sample_cdp_env port" "ce_spawn sample_cdp_env"
  by (simp_all add: sample_cdp_env_def)

lemma wait_ten: "wait_open e 10 st = (case probe e st of (st, up) \<Rightarrow> if up then (st, True) else wait_open e 9 st)"
  using wait_open.simps(2) [of e 9 st] by (simp add: eval_nat_numeral)

lemma sample_tunnels_state:
  "ch_headless (cd_handle sample_tunnels) \<and> ch_child (cd_handle sample_tunnels) = Some 0 \<and> cd_tunnels sample_tunnels = 2 \<and> cd_next sample_tunnels = 1"
proof -
  have p: "u32_from_be [0, 0, 36, 6] = CDP_PORT"
    by (simp add: u32_from_be_def CDP_PORT_def)
  have one: "cdp_step (sample_cdp_env, OpenTunnel [0, 0, 36, 6]) st =
      (case connect_cdp_tcp sample_cdp_env True (cancel_kill_timer st) of
         (st, Ok _) \<Rightarrow> st\<lparr>cd_tunnels := Suc (cd_tunnels st)\<rparr> | (st, _) \<Rightarrow> st)" for st
    by (simp add: cdp_step_def open_tunnel_def p effective_headless_def Let_def split: prod.split outcome.split)
  show ?thesis
    by (simp add: sample_tunnels_def cdp_run_def one cdp_start_def handle_new_def cancel_kill_timer_def connect_cdp_tcp_def probe_def
        launch_and_wait_def cdp_auto_launch_def set_child_def logged_def is_launch_def wait_ten Let_def)
qed

theorem idle_timer_kills_used_browser_witness:
  "0 < cd_tunnels (timer_fires sample_cdp_env (cd_next sample_tunnels) (close_tunnel sample_tunnels))
    \<and> 0 \<notin> fst ` set (cd_procs (timer_fires sample_cdp_env (cd_next sample_tunnels) (close_tunnel sample_tunnels)))"
  by (rule idle_timer_kills_used_browser) (simp_all add: sample_tunnels_state)

theorem every_host_port_reachable_witness:
  "open_tunnel sample_cdp_env (put_u32_be 5432 @ []) cdp_start = (logged (TunnelTo 5432) cdp_start, Ok None)"
  by (rule every_host_port_reachable) (simp_all add: CDP_PORT_def)

theorem tunnel_has_mode_witness:
  "ch_headless (cd_handle (fst (connect_cdp_tcp sample_cdp_env False cdp_start))) = False
    \<or> ch_child (cd_handle (fst (connect_cdp_tcp sample_cdp_env False cdp_start))) = None"
proof -
  have "snd (connect_cdp_tcp sample_cdp_env False cdp_start) = Ok ()"
    by (simp add: cdp_start_def handle_new_def connect_cdp_tcp_def probe_def launch_and_wait_def cdp_auto_launch_def set_child_def
        logged_def is_launch_def wait_ten)
  then have "connect_cdp_tcp sample_cdp_env False cdp_start = (fst (connect_cdp_tcp sample_cdp_env False cdp_start), Ok ())"
    by (metis prod.collapse)
  then show ?thesis
    by (rule tunnel_has_mode)
qed

text \<open>Two tunnels that end leave two timers, of which a new tunnel cancels one.\<close>

lemma older_timer_stays:
  assumes "ch_headless (cd_handle st)" "ch_child (cd_handle st) \<noteq> None"
  shows "cd_next st \<in> set (cd_timers (cancel_kill_timer (close_tunnel (close_tunnel st))))"
  using assms by (auto simp: close_tunnel_def schedule_headless_idle_kill_def cancel_kill_timer_def)

end
