(* ===== verification/Spec2Isabelle.thy ===== *)
theory Spec2Isabelle
  imports Vsock_Guest Inspect Fuse_Guest Blocklist Cdp_Rewriter Dns Vm_Service Usage_Reports Env_Providers Vm_Control Guest_Install Vm_Agent Guest_Proxy Mcp_Proxy Store_Account Tls_Pinning Monitoring App_Install Cdp_Launch
begin

text \<open>
  Verification of nilbox, a desktop runtime that runs AI agents in a VM and keeps
  real secrets on the host.  The VM reaches the network only through the host: its
  connections are streams multiplexed over one VSOCK connection, and the host's
  proxy decides where they may go and replaces dummy tokens by real secrets.

  \<^bold>\<open>Parts and theories\<close>, in the order in which a request meets them:

  \<^item> \<^verbatim>\<open>Prelude\<close>: Rust integers and bytes as words, \<open>outcome\<close> (\<open>Ok\<close>, \<open>Err\<close>, \<open>Panic\<close>),
    little-endian codecs, cursors of the \<open>bytes\<close> crate, UTF-8, string functions.
  \<^item> \<^verbatim>\<open>Vsock_Protocol\<close>: frames and their codec, host (\<open>nilbox-core/src/vsock/protocol.rs\<close>)
    and guest (\<open>vm-agent/src/vsock/protocol.rs\<close>).  The locale \<open>frame_codec\<close> states what a
    codec promises; it is interpreted for each side and for each direction.
  \<^item> \<^verbatim>\<open>Vsock_Mux\<close>, \<^verbatim>\<open>Vsock_Host\<close>, \<^verbatim>\<open>Vsock_Guest\<close>: the multiplexers (\<open>vsock/stream.rs\<close> of both
    sides): stream table, bounded channels, virtual streams, the IO loop (\<open>feed\<close>, \<open>io_iter\<close>),
    batching.  Locales \<open>frame_loop\<close> and \<open>mux_side\<close> hold the shared proofs.  Shown: frames
    arrive exactly, in order, however the bytes are cut; the table and the channels
    stay consistent; stream ids of the sides never collide; at most one FIN.
  \<^item> \<^verbatim>\<open>Domain_Store\<close>: the domain tables of \<open>config_store.rs\<close>; \<^verbatim>\<open>Prompt_Board\<close> and
    \<^verbatim>\<open>Domain_Gate\<close>: \<open>proxy/domain_gate.rs\<close> with concurrent waiting checks as a step relation.
    Shown: what the lists cover, well-formedness, protected system domains, and that a
    waiting check succeeds only by the user's answer.
  \<^item> \<^verbatim>\<open>Keystore\<close>, \<^verbatim>\<open>Api_Gates\<close>: \<open>keystore/sqlite_store.rs\<close> as a map (locale \<open>key_store\<close>), the
    prompts for missing keys and mismatched tokens.
  \<^item> \<^verbatim>\<open>Json\<close>, \<^verbatim>\<open>Token_Usage\<close>: LLM detection, token extraction, usage tables and limits
    (\<open>proxy/llm_detector.rs\<close>, \<open>token_extractor.rs\<close>, \<open>token_limit.rs\<close>, \<open>token_monitor\<close>).
    \<^verbatim>\<open>Usage_Reports\<close>: the usage reports and the maintenance of the usage tables (\<open>service.rs\<close>).
  \<^item> \<^verbatim>\<open>Oauth_Vault\<close>: \<open>proxy/oauth_token_vault.rs\<close>: real OAuth tokens stay in the key
    store, the VM sees dummies; sessions are bound to the first domain they are used on.
  \<^item> \<^verbatim>\<open>Auth_Router\<close>, \<^verbatim>\<open>Proxy_Http\<close>, \<^verbatim>\<open>Aws_SigV4\<close>, \<^verbatim>\<open>Delegators\<close>: routes, HTTP helpers and the
    four delegators that put a secret into a request (\<open>proxy/auth_delegator\<close>).
  \<^item> \<^verbatim>\<open>Gateway\<close>: host ports forwarded into VMs (\<open>gateway/mod.rs\<close>).
  \<^item> \<^verbatim>\<open>Reverse_Proxy\<close>, \<^verbatim>\<open>Inspect\<close>: the handlers of a VM's request and of a CONNECT tunnel
    (\<open>proxy/reverse_proxy.rs\<close>, \<open>forward_proxy.rs\<close>, \<open>inspect.rs\<close>).  Shown: nothing is sent
    to a domain that is neither allowed nor granted; which account a secret may come
    from; that bound OAuth tokens stay on their domain when no token is mapped; limits;
    and the paths where the code does not keep these promises.

  \<^item> \<^verbatim>\<open>Blocklist\<close>: the bloom-filter blocklist (\<open>nilbox-blocklist\<close>): filter, file format,
    loading and signature check, source parsers, builder, and its installation in the
    domain gate.  Shown: every listed domain and every subdomain is refused by the gate.
  \<^item> \<^verbatim>\<open>Fuse_Protocol\<close>: the messages of the file share, both sides (\<open>file_proxy/protocol.rs\<close>,
    \<open>vm-agent/src/fuse/protocol.rs\<close>); locales \<open>message_codec\<close>, \<open>message_reader\<close>, \<open>reader_feed\<close> and
    \<open>loop_exit\<close>.  \<^verbatim>\<open>Host_Fs\<close>: the part of the host's file system (inodes, symbolic links,
    at most 40 of them on a path) that \<open>std::fs\<close> shows.  \<^verbatim>\<open>File_Proxy\<close>: the host's server
    (\<open>file_proxy/mod.rs\<close>, \<open>path_manager.rs\<close>, \<open>virtual_stream_channel.rs\<close>).  \<^verbatim>\<open>Fuse_Guest\<close>: the guest's
    file system (\<open>vm-agent/src/fuse\<close>), composed with the host's server.

  \<^item> \<^verbatim>\<open>Cdp_Rewriter\<close>: the forwarder of debugging connections (\<open>gateway/cdp_rewriter.rs\<close>) and the raw
    tunnels (\<open>gateway/forwarder.rs\<close>), with the results of reads and writes and the choices
    of \<open>select!\<close> as inputs.  \<^verbatim>\<open>Dns\<close>: \<open>proxy/dns_resolver.rs\<close> and the guest's \<open>outbound/dns.rs\<close>.
    \<^verbatim>\<open>Rust_Text\<close>: text functions of the standard library that several theories use.
  \<^item> \<^verbatim>\<open>Vm_Store\<close>: the schema of \<open>config_store.rs\<close> and its tables of VMs, mappings, apps, keys and
    settings.  Shown: the tables stay consistent; the schema of a fresh install does not serve
    the queries on VMs.
  \<^item> \<^verbatim>\<open>Store_Envelope\<close>: the signed documents of the store (\<open>store/envelope.rs\<close>, \<open>verify.rs\<close>, \<open>keys.rs\<close>),
    version comparison and the catalogue; \<^verbatim>\<open>Vm_Install\<close>: \<open>vm_install.rs\<close>, from the manifest to the
    registered VM.  Shown: which manifests are signed and which are accepted without, and that
    the installed disk has the expected hash.
  \<^item> \<^verbatim>\<open>Vm_Service\<close>: the part of \<open>service.rs\<close> that registers, creates, configures, stops and deletes VMs and
    their port and file mappings, over the database, the gateway and the file proxies.  Shown:
    the VMs it shows agree with their records; what deletion and unmounting leave behind.

  \<^bold>\<open>Conventions.\<close>  A Rust function that can fail returns \<open>outcome\<close>; shared state is a
  record passed through; an \<open>await\<close> at which other tasks run splits an operation
  (\<open>check_begin\<close>, \<open>check_end\<close>).  A hash map that is iterated is an association list in
  iteration order.  Strings are byte strings; case conversion and white space are
  those of ASCII.  Third-party code (serde, httparse, reqwest, url, base64, SHA-256, Rhai
  scripts), clocks, random ids, upstream servers and the user's answers are fields of
  the records \<open>codecs\<close>, \<open>web\<close>, \<open>aws_env\<close>, \<open>deleg_env\<close>, \<open>env\<close>, \<open>tls_env\<close>, \<open>store_lib\<close> and
  \<open>install_env\<close>; the few laws a
  property needs of them are hypotheses of the property, with a concrete instance in
  its witness.  There is no fuel: every loop is a structural recursion or has a
  termination proof.

  \<^bold>\<open>Not modelled\<close>: VM platforms, SSH, the desktop application and its
  commands, MCP bridging, TLS and certificates, key encryption, and all
  plain I/O.  Failures of the database itself (I/O errors, a poisoned lock) and of
  memory are outside the model, as are the log messages.
\<close>

end
